(* ===== verification/Go_Prelude.thy ===== *)
theory Go_Prelude
  imports Main "HOL-Library.Char_ord" "HOL-Library.List_Lexorder"
begin

text \<open>
  Shared vocabulary of the development: the parts of the Go language and of its \<open>strings\<close>,
  \<open>slices\<close> and \<open>maps\<close> packages that the modelled code uses, with the lemmas the component
  theories share. A Go string is a sequence of bytes, which is what \<^typ>\<open>string\<close> is; its
  \<open>len\<close> is \<^const>\<open>length\<close>. Go's signed 64-bit integers are \<^typ>\<open>int\<close> values, and
  \<open>wrap64\<close> is written where an addition can leave the range.
\<close>

named_theorems go_str \<open>laws of the string functions\<close>

abbreviation nl :: char where "nl \<equiv> CHR 0x0A"

section \<open>Machine integers\<close>

definition wrap64 :: "int \<Rightarrow> int" where
  "wrap64 n = (n + 2 ^ 63) mod 2 ^ 64 - 2 ^ 63"

definition is_int64 :: "int \<Rightarrow> bool" where
  "is_int64 n \<longleftrightarrow> - (2 ^ 63) \<le> n \<and> n < 2 ^ 63"

lemma wrap64_id [simp]: "is_int64 n \<Longrightarrow> wrap64 n = n"
  by (simp add: wrap64_def is_int64_def)

lemma wrap64_is_int64 [simp]: "is_int64 (wrap64 n)"
proof -
  have "0 \<le> (n + 2 ^ 63) mod (2 ^ 64 :: int)" and "(n + 2 ^ 63) mod (2 ^ 64 :: int) < 2 ^ 64"
    by simp_all
  then show ?thesis by (simp add: wrap64_def is_int64_def)
qed

lemma wrap64_over: "2 ^ 63 \<le> n \<Longrightarrow> n < 2 ^ 64 + 2 ^ 63 \<Longrightarrow> wrap64 n = n - 2 ^ 64"
proof -
  assume a: "2 ^ 63 \<le> n" "n < 2 ^ 64 + 2 ^ 63"
  have "(n + 2 ^ 63) mod (2 ^ 64 :: int) = (n + 2 ^ 63 - 2 ^ 64) mod 2 ^ 64"
    by (metis mod_add_self2 diff_add_cancel)
  also have "\<dots> = n + 2 ^ 63 - 2 ^ 64" using a by (intro mod_pos_pos_trivial) auto
  finally show ?thesis by (simp add: wrap64_def)
qed

text \<open>The decimal text of a number (\<open>%d\<close>).\<close>

fun goItoa :: "nat \<Rightarrow> string" where
  "goItoa n = (if n < 10 then [char_of (48 + n)] else goItoa (n div 10) @ [char_of (48 + n mod 10)])"

declare goItoa.simps [simp del]

section \<open>The strings package\<close>

definition hasPrefix :: "string \<Rightarrow> string \<Rightarrow> bool" where
  "hasPrefix s p \<longleftrightarrow> take (length p) s = p"

definition hasSuffix :: "string \<Rightarrow> string \<Rightarrow> bool" where
  "hasSuffix s p \<longleftrightarrow> length p \<le> length s \<and> drop (length s - length p) s = p"

definition trimPrefix :: "string \<Rightarrow> string \<Rightarrow> string" where
  "trimPrefix s p = (if hasPrefix s p then drop (length p) s else s)"

definition trimSuffix :: "string \<Rightarrow> string \<Rightarrow> string" where
  "trimSuffix s p = (if hasSuffix s p then take (length s - length p) s else s)"

fun containsSub :: "string \<Rightarrow> string \<Rightarrow> bool" where
  "containsSub [] p = (p = [])"
| "containsSub (x # xs) p = (hasPrefix (x # xs) p \<or> containsSub xs p)"

text \<open>\<open>strings.Split\<close> with a one-byte separator; \<open>strings.Trim\<close> with a one-byte cutset.\<close>

fun goSplit :: "char \<Rightarrow> string \<Rightarrow> string list" where
  "goSplit c [] = [[]]"
| "goSplit c (x # xs) =
     (if x = c then [] # goSplit c xs
      else (case goSplit c xs of [] \<Rightarrow> [[x]] | y # ys \<Rightarrow> (x # y) # ys))"

fun goJoin :: "string \<Rightarrow> string list \<Rightarrow> string" where
  "goJoin sep [] = []"
| "goJoin sep [x] = x"
| "goJoin sep (x # y # ys) = x @ sep @ goJoin sep (y # ys)"

definition dropWhileEnd :: "('a \<Rightarrow> bool) \<Rightarrow> 'a list \<Rightarrow> 'a list" where
  "dropWhileEnd P xs = rev (dropWhile P (rev xs))"

definition goTrim :: "char \<Rightarrow> string \<Rightarrow> string" where
  "goTrim c s = dropWhileEnd (\<lambda>x. x = c) (dropWhile (\<lambda>x. x = c) s)"

text \<open>
  The ASCII white space of \<open>strings.TrimSpace\<close>: tab, newline, vertical tab, form feed,
  carriage return, space.
\<close>

definition isSpace :: "char \<Rightarrow> bool" where
  "isSpace c \<longleftrightarrow> of_char c \<in> {9, 10, 11, 12, 13, 32 :: nat}"

definition trimSpace :: "string \<Rightarrow> string" where
  "trimSpace s = dropWhileEnd isSpace (dropWhile isSpace s)"

definition lowerChar :: "char \<Rightarrow> char" where
  "lowerChar c = (let n = of_char c :: nat in if 65 \<le> n \<and> n \<le> 90 then char_of (n + 32) else c)"

definition upperChar :: "char \<Rightarrow> char" where
  "upperChar c = (let n = of_char c :: nat in if 97 \<le> n \<and> n \<le> 122 then char_of (n - 32) else c)"

definition toLower :: "string \<Rightarrow> string" where
  "toLower s = map lowerChar s"

definition toUpper :: "string \<Rightarrow> string" where
  "toUpper s = map upperChar s"

lemma hasPrefix_append [simp, go_str]: "hasPrefix (p @ s) p"
  by (simp add: hasPrefix_def)

lemma hasPrefix_iff: "hasPrefix s p \<longleftrightarrow> (\<exists>r. s = p @ r)"
  unfolding hasPrefix_def by (metis append_eq_conv_conj append_take_drop_id)

lemma trimPrefix_append [simp, go_str]: "trimPrefix (p @ s) p = s"
  by (simp add: trimPrefix_def)

lemma hasSuffix_append [simp, go_str]: "hasSuffix (s @ p) p"
  by (simp add: hasSuffix_def)

lemma trimSuffix_append [simp, go_str]: "trimSuffix (s @ p) p = s"
  by (simp add: trimSuffix_def)

lemma length_trimSuffix_le: "length (trimSuffix s p) \<le> length s"
  by (simp add: trimSuffix_def)

lemma dropWhileEnd_append: "dropWhileEnd P (xs @ ys) =
    (if \<forall>y \<in> set ys. P y then dropWhileEnd P xs else xs @ dropWhileEnd P ys)"
  by (simp add: dropWhileEnd_def dropWhile_append)

lemma dropWhileEnd_id: "xs = [] \<or> \<not> P (last xs) \<Longrightarrow> dropWhileEnd P xs = xs"
  by (cases xs rule: rev_cases) (auto simp: dropWhileEnd_def)

lemma goSplit_not_Nil [simp]: "goSplit c s \<noteq> []"
  by (induction s) (auto split: list.splits)

lemma goSplit_no_sep: "p \<in> set (goSplit c s) \<Longrightarrow> c \<notin> set p"
  by (induction s arbitrary: p) (auto split: if_splits list.splits)

lemma goSplit_atom [go_str]: "c \<notin> set p \<Longrightarrow> goSplit c p = [p]"
  by (induction p) auto

lemma goSplit_append [go_str]: "c \<notin> set p \<Longrightarrow> goSplit c (p @ c # s) = p # goSplit c s"
  by (induction p) auto

lemma goJoin_goSplit: "goJoin [c] (goSplit c s) = s"
proof (induction s)
  case (Cons x s)
  obtain y ys where s: "goSplit c s = y # ys" by (cases "goSplit c s") auto
  show ?case using Cons s by (cases ys) auto
qed simp

lemma goSplit_goJoin: "ps \<noteq> [] \<Longrightarrow> \<forall>p \<in> set ps. c \<notin> set p \<Longrightarrow> goSplit c (goJoin [c] ps) = ps"
  by (induction "[c]" ps rule: goJoin.induct) (auto simp: goSplit_atom goSplit_append)

lemma goTrim_id: "hd s \<noteq> c \<Longrightarrow> last s \<noteq> c \<Longrightarrow> s \<noteq> [] \<Longrightarrow> goTrim c s = s"
  by (cases s) (auto simp: goTrim_def intro: dropWhileEnd_id)

lemma goTrim_lead [go_str]: "hd s \<noteq> c \<Longrightarrow> last s \<noteq> c \<Longrightarrow> s \<noteq> [] \<Longrightarrow> goTrim c (c # s) = s"
  using goTrim_id [of s c] by (simp add: goTrim_def)

section \<open>Slices and maps\<close>

lemma concat_map_Nil [simp]: "concat (map (\<lambda>_. []) xs) = []"
  by (induction xs) auto

text \<open>
  A Go map is read through \<^const>\<open>map_of\<close> of an association list where the order of a
  range loop is irrelevant; \<open>assocUpd\<close> is assignment to a key.
\<close>

fun assocUpd :: "'k \<Rightarrow> 'v \<Rightarrow> ('k \<times> 'v) list \<Rightarrow> ('k \<times> 'v) list" where
  "assocUpd k v [] = [(k, v)]"
| "assocUpd k v ((k', v') # ps) = (if k = k' then (k, v) # ps else (k', v') # assocUpd k v ps)"

definition assocDel :: "'k \<Rightarrow> ('k \<times> 'v) list \<Rightarrow> ('k \<times> 'v) list" where
  "assocDel k ps = filter (\<lambda>(k', _). k' \<noteq> k) ps"

lemma map_of_assocUpd [simp]: "map_of (assocUpd k v ps) = (map_of ps)(k \<mapsto> v)"
  by (induction k v ps rule: assocUpd.induct) (auto simp: fun_eq_iff)

lemma set_keys_assocUpd [simp]: "fst ` set (assocUpd k v ps) = insert k (fst ` set ps)"
  by (induction k v ps rule: assocUpd.induct) auto

lemma distinct_keys_assocUpd: "distinct (map fst ps) \<Longrightarrow> distinct (map fst (assocUpd k v ps))"
  by (induction k v ps rule: assocUpd.induct) simp_all

lemma map_of_assocDel [simp]: "map_of (assocDel k ps) = (map_of ps)(k := None)"
  by (induction ps) (auto simp: assocDel_def fun_eq_iff)

lemma distinct_keys_assocDel: "distinct (map fst ps) \<Longrightarrow> distinct (map fst (assocDel k ps))"
  by (induction ps) (auto simp: assocDel_def)

end
