(* ===== verification/Bounded_Writer.thy ===== *)
theory Bounded_Writer
  imports Go_Prelude
begin

text \<open>
  The contract shared by the writers that cap what they retain: the result builder of
  \<open>pkg/api/resultbudget.go\<close> and the exec output of \<open>pkg/kubernetes/pods.go\<close>. A writer has
  an invariant, a bound that writes do not move and that the retained size respects, and a
  closed state that is absorbing. Whatever sequence of writes a client issues, the retained
  size stays within the bound.
\<close>

locale bounded_writer =
  fixes wr :: "'w \<Rightarrow> 'b \<Rightarrow> 'b"
    and inv :: "'b \<Rightarrow> bool"
    and retained :: "'b \<Rightarrow> int"
    and bound :: "'b \<Rightarrow> int option"
    and closed :: "'b \<Rightarrow> bool"
  assumes wr_inv: "inv b \<Longrightarrow> inv (wr w b)"
    and wr_bound: "inv b \<Longrightarrow> bound (wr w b) = bound b"
    and inv_retained: "inv b \<Longrightarrow> bound b = Some m \<Longrightarrow> retained b \<le> m"
    and wr_closed: "inv b \<Longrightarrow> closed b \<Longrightarrow> wr w b = b"
begin

lemma fold_inv: "inv b \<Longrightarrow> inv (fold wr ws b)"
  by (induction ws arbitrary: b) (auto intro: wr_inv)

lemma fold_bound: "inv b \<Longrightarrow> bound (fold wr ws b) = bound b"
  by (induction ws arbitrary: b) (auto simp: wr_bound wr_inv)

lemma fold_retained: "inv b \<Longrightarrow> bound b = Some m \<Longrightarrow> retained (fold wr ws b) \<le> m"
  by (rule inv_retained) (simp_all add: fold_inv fold_bound)

lemma fold_closed: "inv b \<Longrightarrow> closed b \<Longrightarrow> fold wr ws b = b"
  by (induction ws) (auto simp: wr_closed)

lemma fold_after_closed:
  assumes "inv b" and "closed (fold wr ws b)"
  shows "fold wr (ws @ vs) b = fold wr ws b"
  using assms by (simp add: fold_closed fold_inv)

end

end
