(* ===== verification/Result_Budget.thy ===== *)
theory Result_Budget
  imports Bounded_Writer
begin

text \<open>
  \<open>pkg/api/resultbudget.go\<close>: the budget that a call's result must fit in. The limit travels
  in the request context; \<open>BuilderWithBudget\<close> retains text up to the limit, cuts the write
  that does not fit at a UTF-8 boundary, and appends one truncation notice. A pointer to a
  builder that the Go code tests against nil is a \<^typ>\<open>'a option\<close> here.
\<close>

section \<open>Data and operations\<close>

definition ResultTruncationNotice :: string where
  "ResultTruncationNotice = nl # ''[truncated: max_result_bytes]'' @ [nl]"

text \<open>
  The part of a context that this file reads and writes: \<^const>\<open>None\<close> is a nil context,
  \<open>Some v\<close> a context whose value under \<open>resultLimitKey\<close> is \<open>v\<close>.
\<close>

type_synonym budgetCtx = "int option option"

definition WithResultBudget :: "budgetCtx \<Rightarrow> int \<Rightarrow> budgetCtx" where
  "WithResultBudget ctx limit =
     (if limit \<le> 0 then ctx
      else Some (Some limit))"

definition ResultLimit :: "budgetCtx \<Rightarrow> int" where
  "ResultLimit ctx =
     (case ctx of None \<Rightarrow> 0 | Some None \<Rightarrow> 0 | Some (Some limit) \<Rightarrow> limit)"

record builder =
  bBuf :: string
  bLimit :: int
  bCapped :: bool
  bTruncated :: bool

definition NewBuilderWithBudget :: "int \<Rightarrow> builder" where
  "NewBuilderWithBudget limit =
     (if limit \<le> 0 then \<lparr>bBuf = [], bLimit = 0, bCapped = False, bTruncated = False\<rparr>
      else \<lparr>bBuf = [], bLimit = limit, bCapped = True, bTruncated = False\<rparr>)"

text \<open>\<open>utf8.RuneStart\<close>: the byte is not of the form \<open>10xxxxxx\<close>.\<close>

definition runeStart :: "char \<Rightarrow> bool" where
  "runeStart c \<longleftrightarrow> of_char c div (64 :: nat) \<noteq> 2"

text \<open>The loop that moves the cut back to the start of a rune.\<close>

fun cutEnd :: "string \<Rightarrow> nat \<Rightarrow> nat" where
  "cutEnd s 0 = 0"
| "cutEnd s (Suc n) =
     (if Suc n < length s \<and> \<not> runeStart (s ! Suc n) then cutEnd s n else Suc n)"

definition WriteString :: "string \<Rightarrow> builder \<Rightarrow> bool \<times> builder" where
  "WriteString s b =
     (if bTruncated b then (True, b)
      else if \<not> bCapped b then (False, b\<lparr>bBuf := bBuf b @ s\<rparr>)
      else
        let remainder = bLimit b - int (length (bBuf b));
            remainder = (if remainder < 0 then 0 else remainder)
        in if remainder \<ge> int (length s) then (False, b\<lparr>bBuf := bBuf b @ s\<rparr>)
           else
             let end = cutEnd s (nat remainder);
                 buf = (if end > 0 then bBuf b @ take end s else bBuf b)
             in (True, b\<lparr>bBuf := buf @ ResultTruncationNotice, bTruncated := True\<rparr>))"

definition Truncated :: "builder \<Rightarrow> bool" where
  "Truncated b = bTruncated b"

definition Len :: "builder \<Rightarrow> int" where
  "Len b = int (length (bBuf b))"

definition Remaining :: "builder option \<Rightarrow> int" where
  "Remaining bo =
     (case bo of None \<Rightarrow> -1
      | Some b \<Rightarrow>
          if \<not> bCapped b then -1
          else if bTruncated b then 0
          else let rem = bLimit b - int (length (bBuf b)) in if rem < 0 then 0 else rem)"

definition spent :: "builder option \<Rightarrow> bool \<times> builder option" where
  "spent bo =
     (case bo of None \<Rightarrow> (True, None)
      | Some b \<Rightarrow>
          if Truncated b then (True, Some b)
          else if Remaining (Some b) = 0 then (True, Some (snd (WriteString [nl] b)))
          else (False, Some b))"

definition Fits :: "builder option \<Rightarrow> int \<Rightarrow> bool" where
  "Fits bo n =
     (case bo of None \<Rightarrow> False
      | Some b \<Rightarrow>
          if Truncated b then False
          else if Remaining (Some b) < 0 then True
          else let n = (if n < 0 then 0 else n) in Remaining (Some b) > n)"

definition Prefix :: "builder option \<Rightarrow> string \<times> bool" where
  "Prefix bo =
     (case bo of None \<Rightarrow> ([], False)
      | Some b \<Rightarrow>
          if Truncated b then (trimSuffix (bBuf b) ResultTruncationNotice, True)
          else (bBuf b, False))"

definition WriteCut :: "string \<Rightarrow> bool \<Rightarrow> builder option \<Rightarrow> bool \<times> builder option" where
  "WriteCut text wasCut bo =
     (case bo of None \<Rightarrow> (False, None)
      | Some b \<Rightarrow>
          if Truncated b then (False, Some b)
          else if text = [] then (\<not> wasCut, Some b)
          else
            let (truncated, b) = WriteString text b
            in if truncated then (False, Some b)
               else let b = (if wasCut then snd (WriteString ResultTruncationNotice b) else b)
                    in (\<not> Truncated b, Some b))"

definition CommitScratch ::
    "string \<Rightarrow> string \<Rightarrow> builder option \<Rightarrow> builder option \<Rightarrow> bool \<times> builder option" where
  "CommitScratch header suffix inner bo =
     (case inner of None \<Rightarrow> (False, bo)
      | Some i \<Rightarrow>
          let (body, wasCut) = Prefix (Some i)
          in if trimSpace body = [] then (\<not> wasCut, bo)
             else WriteCut (header @ body @ suffix) wasCut bo)"

definition Scratch :: "int \<Rightarrow> builder option \<Rightarrow> builder" where
  "Scratch reserve bo =
     (case bo of None \<Rightarrow> NewBuilderWithBudget 0
      | Some b \<Rightarrow>
          if \<not> bCapped b then NewBuilderWithBudget 0
          else
            let reserve = (if reserve < 0 then 0 else reserve)
            in if bTruncated b then
                 \<lparr>bBuf = [], bLimit = 0, bCapped = True, bTruncated = True\<rparr>
               else
                 let room = Remaining (Some b) - reserve
                 in if room \<le> 0 then
                      \<lparr>bBuf = [], bLimit = 0, bCapped = True, bTruncated = True\<rparr>
                    else NewBuilderWithBudget room)"

definition NewPromptBudget :: "budgetCtx \<Rightarrow> string \<Rightarrow> builder" where
  "NewPromptBudget ctx assistant =
     Scratch (int (length assistant)) (Some (NewBuilderWithBudget (ResultLimit ctx)))"

text \<open>
  A step of a report takes the builder and returns an error or nil, with the builder it left.
  \<open>Sections\<close> also returns how many steps it started, which the Go code does not: the count
  makes "the next step is not started" a statement about the result.
\<close>

type_synonym 'e step = "builder \<Rightarrow> 'e option \<times> builder"

definition TextStep :: "string \<Rightarrow> 'e step" where
  "TextStep s b = (None, snd (WriteString s b))"

fun Sections :: "'e step option list \<Rightarrow> builder option \<Rightarrow> 'e option \<times> builder option \<times> nat" where
  "Sections steps None = (None, None, 0)"
| "Sections [] (Some b) = (None, Some b, 0)"
| "Sections (None # steps) (Some b) = Sections steps (Some b)"
| "Sections (Some step # steps) (Some b) =
     (case spent (Some b) of
        (True, b') \<Rightarrow> (None, b', 0)
      | (False, _) \<Rightarrow>
          (case step b of
             (Some e, b') \<Rightarrow> (Some e, Some b', 1)
           | (None, b') \<Rightarrow>
               (case Sections steps (Some b') of (err, bo, n) \<Rightarrow> (err, bo, Suc n))))"

definition TrySection ::
    "string \<Rightarrow> string \<Rightarrow> 'e step option \<Rightarrow> builder option \<Rightarrow> bool \<times> 'e option \<times> builder option" where
  "TrySection header suffix gather bo =
     (case bo of None \<Rightarrow> (False, None, None)
      | Some b \<Rightarrow>
          (case gather of None \<Rightarrow> (False, None, Some b)
           | Some g \<Rightarrow>
               if \<not> Fits (Some b) (int (length header)) then (False, None, Some b)
               else
                 let body = Scratch (int (length header) + int (length suffix)) (Some b)
                 in if Truncated body then (False, None, Some b)
                    else (case g body of
                        (Some e, _) \<Rightarrow> (False, Some e, Some b)
                      | (None, body') \<Rightarrow>
                          let before = Len b;
                              b' = the (snd (CommitScratch header suffix (Some body') (Some b)))
                          in (Len b' > before, None, Some b'))))"

definition LimitString :: "budgetCtx \<Rightarrow> string \<Rightarrow> string" where
  "LimitString ctx s = bBuf (snd (WriteString s (NewBuilderWithBudget (ResultLimit ctx))))"

fun fitLoop :: "int \<Rightarrow> string list \<Rightarrow> string list" where
  "fitLoop room [] = []"
| "fitLoop room (text # texts) =
     (if text = [] then [] # fitLoop room texts
      else if room \<le> 0 then ResultTruncationNotice # map (\<lambda>_. []) texts
      else
        let (wasCut, b) = WriteString text (NewBuilderWithBudget room)
        in if wasCut then bBuf b # map (\<lambda>_. []) texts
           else bBuf b # fitLoop (room - int (length (bBuf b))) texts)"

definition FitSections :: "int \<Rightarrow> string list \<Rightarrow> string list" where
  "FitSections room texts = fitLoop (if room < 0 then 0 else room) texts"

section \<open>The invariant and the writer contract\<close>

definition wfBuilder :: "builder \<Rightarrow> bool" where
  "wfBuilder b \<longleftrightarrow>
     (if bCapped b
      then 0 \<le> bLimit b \<and>
           Len b \<le> bLimit b + (if bTruncated b then int (length ResultTruncationNotice) else 0)
      else \<not> bTruncated b)"

definition builderBound :: "builder \<Rightarrow> int option" where
  "builderBound b =
     (if bCapped b then Some (bLimit b + int (length ResultTruncationNotice)) else None)"

lemma length_notice [simp]: "length ResultTruncationNotice = 31"
  by (simp add: ResultTruncationNotice_def)

lemma cutEnd_le: "cutEnd s n \<le> n"
  by (induction n) auto

lemma cutEnd_runeStart: "n < length s \<Longrightarrow> 0 < cutEnd s n \<Longrightarrow> runeStart (s ! cutEnd s n)"
  by (induction n) (auto split: if_splits)

lemma cutEnd_maximal: "n < length s \<Longrightarrow> cutEnd s n < j \<Longrightarrow> j \<le> n \<Longrightarrow> \<not> runeStart (s ! j)"
  by (induction n) (auto split: if_splits simp: le_Suc_eq)

lemma NewBuilder_wf [simp]: "wfBuilder (NewBuilderWithBudget limit)"
  by (simp add: wfBuilder_def NewBuilderWithBudget_def Len_def)

lemma NewBuilder_simps [simp]:
  "bBuf (NewBuilderWithBudget limit) = []"
  "bTruncated (NewBuilderWithBudget limit) = False"
  "bCapped (NewBuilderWithBudget limit) = (limit > 0)"
  "bLimit (NewBuilderWithBudget limit) = max limit 0"
  by (auto simp: NewBuilderWithBudget_def)

text \<open>The three outcomes of a write, as equations.\<close>

lemma WriteString_truncated [simp]: "bTruncated b \<Longrightarrow> WriteString s b = (True, b)"
  by (simp add: WriteString_def)

lemma WriteString_fits:
  assumes "\<not> bTruncated b" and "bCapped b \<Longrightarrow> Len b + int (length s) \<le> bLimit b"
  shows "WriteString s b = (False, b\<lparr>bBuf := bBuf b @ s\<rparr>)"
  using assms by (auto simp: WriteString_def Len_def Let_def)

lemma WriteString_cut:
  assumes "\<not> bTruncated b" and "bCapped b" and "wfBuilder b"
    and "bLimit b < Len b + int (length s)"
  shows "WriteString s b =
    (True, b\<lparr>bBuf := bBuf b @ take (cutEnd s (nat (bLimit b - Len b))) s @ ResultTruncationNotice,
             bTruncated := True\<rparr>)"
  using assms by (auto simp: WriteString_def Len_def Let_def wfBuilder_def)

lemma WriteString_cases:
  assumes "wfBuilder b"
  obtains (truncated) "bTruncated b" "WriteString s b = (True, b)"
  | (fits) "\<not> bTruncated b" "bCapped b \<longrightarrow> Len b + int (length s) \<le> bLimit b"
      "WriteString s b = (False, b\<lparr>bBuf := bBuf b @ s\<rparr>)"
  | (cut) "\<not> bTruncated b" "bCapped b" "bLimit b < Len b + int (length s)" "Len b \<le> bLimit b"
      "WriteString s b =
        (True, b\<lparr>bBuf := bBuf b @ take (cutEnd s (nat (bLimit b - Len b))) s @ ResultTruncationNotice,
                 bTruncated := True\<rparr>)"
  using assms WriteString_truncated [of b s] WriteString_fits [of b s] WriteString_cut [of b s]
  by (fastforce simp: wfBuilder_def)

lemma WriteString_wf [simp]: "wfBuilder b \<Longrightarrow> wfBuilder (snd (WriteString s b))"
proof -
  assume wf: "wfBuilder b"
  have le: "int (min (length s) (cutEnd s (nat (bLimit b - Len b)))) \<le> bLimit b - Len b"
    if "Len b \<le> bLimit b" using cutEnd_le [of s "nat (bLimit b - Len b)"] that by linarith
  from wf show ?thesis
    by (cases rule: WriteString_cases [where s = s]) (use wf le in \<open>auto simp: wfBuilder_def Len_def\<close>)
qed

lemma WriteString_frame [simp]:
  "bLimit (snd (WriteString s b)) = bLimit b"
  "bCapped (snd (WriteString s b)) = bCapped b"
  by (auto simp: WriteString_def Let_def)

lemma WriteString_result: "fst (WriteString s b) = bTruncated (snd (WriteString s b))"
  by (auto simp: WriteString_def Let_def)

lemma wfBuilder_Len_bound: "wfBuilder b \<Longrightarrow> bCapped b \<Longrightarrow> Len b \<le> bLimit b + 31"
  by (auto simp: wfBuilder_def split: if_splits)

interpretation budget: bounded_writer "\<lambda>s b. snd (WriteString s b)" wfBuilder Len builderBound Truncated
  by unfold_locales
    (auto simp: builderBound_def Truncated_def dest: wfBuilder_Len_bound split: if_splits)

section \<open>What a sequence of writes retains\<close>

definition writeAll :: "string list \<Rightarrow> builder \<Rightarrow> builder" where
  "writeAll ws b = fold (\<lambda>s b. snd (WriteString s b)) ws b"

lemma writeAll_simps [simp]:
  "writeAll [] b = b"
  "writeAll (w # ws) b = writeAll ws (snd (WriteString w b))"
  by (simp_all add: writeAll_def)

lemma writeAll_truncated [simp]: "bTruncated b \<Longrightarrow> writeAll ws b = b"
  by (induction ws) auto

lemma writeAll_fits:
  assumes "\<not> bTruncated b" and "bCapped b \<Longrightarrow> Len b + int (length (concat ws)) \<le> bLimit b"
  shows "writeAll ws b = b\<lparr>bBuf := bBuf b @ concat ws\<rparr>"
  using assms
proof (induction ws arbitrary: b)
  case (Cons w ws)
  then have "WriteString w b = (False, b\<lparr>bBuf := bBuf b @ w\<rparr>)"
    by (intro WriteString_fits) auto
  moreover have "writeAll ws (b\<lparr>bBuf := bBuf b @ w\<rparr>) = b\<lparr>bBuf := bBuf b @ w @ concat ws\<rparr>"
    using Cons.prems by (subst Cons.IH) (auto simp: Len_def)
  ultimately show ?case by simp
qed simp

lemma writeAll_overflow:
  assumes "wfBuilder b" and "\<not> bTruncated b" and "bCapped b"
    and "bLimit b < Len b + int (length (concat ws))"
  shows "\<exists>k. bBuf (writeAll ws b) = bBuf b @ take k (concat ws) @ ResultTruncationNotice
    \<and> Len b + int k \<le> bLimit b \<and> bTruncated (writeAll ws b)"
  using assms
proof (induction ws arbitrary: b)
  case Nil
  then show ?case by (simp add: wfBuilder_def)
next
  case (Cons w ws)
  from Cons.prems(1) show ?case
  proof (cases rule: WriteString_cases [where s = w])
    case fits
    let ?b = "b\<lparr>bBuf := bBuf b @ w\<rparr>"
    have "wfBuilder ?b" using WriteString_wf [OF Cons.prems(1), of w] fits by simp
    with Cons.IH [of ?b] fits Cons.prems obtain k where
      "bBuf (writeAll ws ?b) = bBuf b @ w @ take k (concat ws) @ ResultTruncationNotice"
      "Len ?b + int k \<le> bLimit b" "bTruncated (writeAll ws ?b)"
      by (auto simp: Len_def)
    with fits show ?thesis by (intro exI [of _ "length w + k"]) (simp add: Len_def)
  next
    case cut
    let ?k = "min (length w) (cutEnd w (nat (bLimit b - Len b)))"
    have "int ?k \<le> bLimit b - Len b" using cutEnd_le [of w "nat (bLimit b - Len b)"] cut by linarith
    moreover have "take ?k w = take (cutEnd w (nat (bLimit b - Len b))) w" by (simp add: min_def)
    ultimately show ?thesis using cut by (intro exI [of _ ?k]) auto
  qed (use Cons.prems in auto)
qed

text \<open>
  C32. For every positive limit and every sequence of writes, a fresh builder holds the whole
  concatenation when that fits, and otherwise a prefix of it no longer than the limit followed
  by one truncation notice; in both cases it retains at most the limit plus the notice.
\<close>

theorem builder_retains_prefix:
  assumes "0 < limit" and "b = writeAll ws (NewBuilderWithBudget limit)"
  shows "Len b \<le> limit + int (length ResultTruncationNotice)
    \<and> (if int (length (concat ws)) \<le> limit
       then \<not> Truncated b \<and> bBuf b = concat ws
       else Truncated b
         \<and> (\<exists>k. int k \<le> limit \<and> bBuf b = take k (concat ws) @ ResultTruncationNotice))"
proof -
  have "Len b \<le> limit + int (length ResultTruncationNotice)"
    unfolding assms(2) writeAll_def
    by (rule budget.fold_retained) (use assms(1) in \<open>auto simp: builderBound_def\<close>)
  then show ?thesis
    using writeAll_fits [of "NewBuilderWithBudget limit" ws]
      writeAll_overflow [of "NewBuilderWithBudget limit" ws] assms
    by (auto simp: Truncated_def Len_def)
qed

theorem builder_retains_prefix_witness:
  "\<exists>k. int k \<le> 5 \<and>
     bBuf (writeAll [''abc'', ''def''] (NewBuilderWithBudget 5))
       = take k ''abcdef'' @ ResultTruncationNotice"
  using builder_retains_prefix [of 5 "writeAll [''abc'', ''def''] (NewBuilderWithBudget 5)"
      "[''abc'', ''def'']"]
  by simp

text \<open>
  The write that does not fit is cut at the last UTF-8 rune start within the room that is
  left: the kept part is the longest prefix of the text that fits and does not split a rune.
\<close>

lemma cut_keeps_runes_whole:
  assumes "wfBuilder b" and "bCapped b" and "\<not> bTruncated b"
    and "bLimit b < Len b + int (length s)"
  shows "\<exists>k. bBuf (snd (WriteString s b)) = bBuf b @ take k s @ ResultTruncationNotice
    \<and> int k \<le> bLimit b - Len b \<and> (k = 0 \<or> runeStart (s ! k))
    \<and> (\<forall>j. k < j \<and> int j \<le> bLimit b - Len b \<longrightarrow> \<not> runeStart (s ! j))"
proof -
  let ?r = "nat (bLimit b - Len b)"
  have r: "int ?r = bLimit b - Len b" "?r < length s" using assms by (auto simp: wfBuilder_def)
  have "cutEnd s ?r = 0 \<or> runeStart (s ! cutEnd s ?r)"
    using cutEnd_runeStart [OF r(2)] by auto
  moreover have "\<not> runeStart (s ! j)" if "cutEnd s ?r < j" "int j \<le> bLimit b - Len b" for j
    using cutEnd_maximal [OF r(2) that(1)] that(2) r(1) by linarith
  moreover have "int (cutEnd s ?r) \<le> bLimit b - Len b" using cutEnd_le [of s ?r] r(1) by linarith
  ultimately show ?thesis using WriteString_cut [OF assms(3,2,1,4)] by auto
qed

section \<open>Sections and scratches\<close>

lemma WriteString_Len_mono: "wfBuilder b \<Longrightarrow> Len b \<le> Len (snd (WriteString s b))"
  by (cases rule: WriteString_cases [where s = s]) (auto simp: Len_def)

lemma Remaining_nonneg: "bCapped b \<Longrightarrow> 0 \<le> Remaining (Some b)"
  by (simp add: Remaining_def Let_def)

lemma Remaining_eq:
  "wfBuilder b \<Longrightarrow> bCapped b \<Longrightarrow> \<not> bTruncated b \<Longrightarrow> Remaining (Some b) = bLimit b - Len b"
  by (simp add: Remaining_def Len_def wfBuilder_def Let_def)

lemma spent_cases:
  assumes "wfBuilder b"
  obtains (avail) "\<not> bTruncated b" "bCapped b \<longrightarrow> Len b < bLimit b" "spent (Some b) = (False, Some b)"
  | (full) b' where "spent (Some b) = (True, Some b')" "bTruncated b'" "wfBuilder b'"
      "bLimit b' = bLimit b" "bCapped b' = bCapped b" "bCapped b"
      "bTruncated b \<and> b' = b \<or> bBuf b' = bBuf b @ ResultTruncationNotice \<and> Len b = bLimit b"
proof (cases "bTruncated b")
  case True
  with assms show ?thesis
    by (intro full [of b]) (auto simp: spent_def Truncated_def wfBuilder_def split: if_splits)
next
  case nt: False
  show ?thesis
  proof (cases "Remaining (Some b) = 0")
    case False
    with nt assms show ?thesis
      by (intro avail) (auto simp: spent_def Truncated_def Remaining_def Len_def Let_def
          wfBuilder_def split: if_splits)
  next
    case True
    with nt assms have "bCapped b" "Len b = bLimit b"
      by (auto simp: Remaining_def Len_def wfBuilder_def Let_def split: if_splits)
    with True nt assms WriteString_cut [of b "[nl]"] WriteString_wf [OF assms, of "[nl]"] show ?thesis
      by (intro full [of "snd (WriteString [nl] b)"]) (auto simp: spent_def Truncated_def)
  qed
qed

text \<open>A step that respects the budget: it keeps the invariant and does not move the cap.\<close>

definition stepOk :: "'e step \<Rightarrow> bool" where
  "stepOk step \<longleftrightarrow> (\<forall>b. wfBuilder b \<longrightarrow>
     wfBuilder (snd (step b)) \<and> bLimit (snd (step b)) = bLimit b \<and> bCapped (snd (step b)) = bCapped b)"

lemma stepOkD:
  "stepOk step \<Longrightarrow> wfBuilder b \<Longrightarrow> step b = (e, b') \<Longrightarrow>
    wfBuilder b' \<and> bLimit b' = bLimit b \<and> bCapped b' = bCapped b"
  by (force simp: stepOk_def)

lemma TextStep_ok [simp]: "stepOk (TextStep s)"
  by (simp add: stepOk_def TextStep_def)

lemma Sections_wf:
  assumes "\<forall>st \<in> set steps. \<forall>f. st = Some f \<longrightarrow> stepOk f" and "wfBuilder b"
    and "Sections steps (Some b) = (err, bo, n)"
  shows "\<exists>b'. bo = Some b' \<and> wfBuilder b' \<and> bLimit b' = bLimit b \<and> bCapped b' = bCapped b"
  using assms
proof (induction steps "Some b" arbitrary: b err bo n rule: Sections.induct)
  case (4 f steps b)
  from "4.prems"(2) show ?case
  proof (cases rule: spent_cases)
    case (full b')
    then have "bo = Some b'" using "4.prems"(3) by simp
    with full show ?thesis by auto
  next
    case avail
    obtain e b' where st: "f b = (e, b')" by force
    have ok: "wfBuilder b'" "bLimit b' = bLimit b" "bCapped b' = bCapped b"
      using stepOkD [of f b e b'] st "4.prems" by auto
    show ?thesis
    proof (cases e)
      case (Some x)
      then show ?thesis using avail st "4.prems"(3) ok by auto
    next
      case None
      obtain err' bo' n' where r: "Sections steps (Some b') = (err', bo', n')"
        by (cases "Sections steps (Some b')") auto
      have "\<exists>b''. bo' = Some b'' \<and> wfBuilder b'' \<and> bLimit b'' = bLimit b' \<and> bCapped b'' = bCapped b'"
        using "4.hyps" avail st None r "4.prems"(1) ok(1) by (metis list.set_intros(2))
      then show ?thesis using avail st None r "4.prems"(3) ok by auto
    qed
  qed
qed auto

text \<open>
  Running the sections of a report: whatever the steps write (through the builder), the
  report ends within the limit plus one notice, and when the budget is already spent no step
  is started.
\<close>

lemma sections_within_budget:
  assumes "\<forall>st \<in> set steps. \<forall>f. st = Some f \<longrightarrow> stepOk f"
    and "wfBuilder b" and "bCapped b"
    and "Sections steps (Some b) = (err, bo, started)"
  shows "(\<exists>b'. bo = Some b' \<and> Len b' \<le> bLimit b + int (length ResultTruncationNotice))
    \<and> (Truncated b \<or> Remaining (Some b) = 0 \<longrightarrow> started = 0 \<and> err = None)"
proof -
  obtain b' where b': "bo = Some b'" "wfBuilder b'" "bLimit b' = bLimit b" "bCapped b'"
    using Sections_wf [OF assms(1,2,4)] assms(3) by auto
  have "started = 0 \<and> err = None" if "Truncated b \<or> Remaining (Some b) = 0"
  proof -
    from that have sp: "fst (spent (Some b))" by (auto simp: spent_def)
    show ?thesis using assms(4)
    proof (induction steps)
      case (Cons st steps)
      with sp show ?case by (cases st; cases "spent (Some b)") auto
    qed simp
  qed
  with b' wfBuilder_Len_bound [OF b'(2,4)] show ?thesis by simp
qed

lemma Scratch_room:
  assumes "wfBuilder b" and "bCapped b" and "\<not> bTruncated (Scratch reserve (Some b))"
  shows "Scratch reserve (Some b) = NewBuilderWithBudget (bLimit b - Len b - max 0 reserve)"
    and "0 < bLimit b - Len b - max 0 reserve" and "\<not> bTruncated b"
  using assms by (auto simp: Scratch_def Let_def Remaining_eq max_def split: if_splits)

lemma Scratch_wf [simp]: "wfBuilder (Scratch reserve bo)"
  by (auto simp: Scratch_def Let_def wfBuilder_def Len_def split: option.splits)

lemma Prefix_Len:
  assumes "wfBuilder i" and "bCapped i" and "bTruncated i \<longrightarrow> hasSuffix (bBuf i) ResultTruncationNotice"
  shows "int (length (fst (Prefix (Some i)))) \<le> bLimit i"
  using assms by (auto simp: Prefix_def Truncated_def wfBuilder_def Len_def trimSuffix_def hasSuffix_def)

lemma WriteCut_fits:
  assumes "wfBuilder b" and "\<not> bTruncated b"
    and "bCapped b \<longrightarrow> Len b + int (length t) \<le> bLimit b"
  shows "\<exists>b' r. WriteCut t wasCut (Some b) = (r, Some b') \<and> wfBuilder b'
    \<and> bLimit b' = bLimit b \<and> bCapped b' = bCapped b
    \<and> (if t \<noteq> [] \<and> wasCut then \<exists>rest. bBuf b' = bBuf b @ t @ rest
       else bBuf b' = bBuf b @ t \<and> \<not> bTruncated b')"
proof (cases "t = []")
  case True
  with assms show ?thesis by (auto simp: WriteCut_def Truncated_def)
next
  case False
  let ?b = "b\<lparr>bBuf := bBuf b @ t\<rparr>"
  have w: "WriteString t b = (False, ?b)" using assms by (intro WriteString_fits) auto
  have wf: "wfBuilder ?b" using WriteString_wf [OF assms(1), of t] w by simp
  have "\<exists>rest. bBuf (snd (WriteString ResultTruncationNotice ?b)) = bBuf ?b @ rest"
    using wf by (cases rule: WriteString_cases [where s = ResultTruncationNotice]) auto
  with False w wf assms show ?thesis by (auto simp: WriteCut_def Truncated_def Let_def)
qed

lemma CommitScratch_eq:
  "CommitScratch header suffix (Some i) bo =
     (if trimSpace (fst (Prefix (Some i))) = [] then (\<not> bTruncated i, bo)
      else WriteCut (header @ fst (Prefix (Some i)) @ suffix) (bTruncated i) bo)"
  by (simp add: CommitScratch_def Prefix_def Truncated_def)

lemma CommitScratch_fits:
  assumes "wfBuilder b" and "bCapped b" and "\<not> bTruncated b" and "wfBuilder i" and "bCapped i"
    and "bTruncated i \<longrightarrow> hasSuffix (bBuf i) ResultTruncationNotice"
    and "bLimit i = bLimit b - Len b - (int (length header) + int (length suffix))"
  shows "\<exists>b'. snd (CommitScratch header suffix (Some i) (Some b)) = Some b'
    \<and> wfBuilder b' \<and> bLimit b' = bLimit b \<and> bCapped b'
    \<and> (b' = b \<or> (\<exists>body rest. bBuf b' = bBuf b @ header @ body @ suffix @ rest
          \<and> Len b + int (length (header @ body @ suffix)) \<le> bLimit b
          \<and> (\<not> bTruncated i \<longrightarrow> rest = [] \<and> \<not> bTruncated b')))"
proof (cases "trimSpace (fst (Prefix (Some i))) = []")
  case True
  with assms show ?thesis by (simp add: CommitScratch_eq)
next
  case False
  define body where "body = fst (Prefix (Some i))"
  have fits: "Len b + int (length (header @ body @ suffix)) \<le> bLimit b"
    using Prefix_Len [OF assms(4-6)] assms(7) unfolding body_def by simp
  have "header @ body @ suffix \<noteq> []"
    using False by (auto simp: body_def trimSpace_def dropWhileEnd_def)
  with WriteCut_fits [OF assms(1,3), of "header @ body @ suffix" "bTruncated i"] fits assms(2)
  obtain b2 rest where
    "snd (WriteCut (header @ body @ suffix) (bTruncated i) (Some b)) = Some b2"
    "wfBuilder b2" "bLimit b2 = bLimit b" "bCapped b2"
    "bBuf b2 = bBuf b @ header @ body @ suffix @ rest"
    "\<not> bTruncated i \<longrightarrow> rest = [] \<and> \<not> bTruncated b2"
    by (auto split: if_splits)
  then show ?thesis using False fits by (auto simp: CommitScratch_eq body_def)
qed

text \<open>A gather that respects its scratch, in the sense of \<^const>\<open>stepOk\<close>, and ends a cut
  scratch with the notice, as every sequence of writes does.\<close>

definition gatherOk :: "'e step \<Rightarrow> bool" where
  "gatherOk g \<longleftrightarrow> stepOk g \<and> (\<forall>b. wfBuilder b \<longrightarrow> \<not> bTruncated b \<longrightarrow> bTruncated (snd (g b)) \<longrightarrow>
     hasSuffix (bBuf (snd (g b))) ResultTruncationNotice)"

lemma TextStep_gatherOk: "gatherOk (TextStep s)"
proof -
  have "hasSuffix (bBuf (snd (WriteString s b))) ResultTruncationNotice"
    if "wfBuilder b" "\<not> bTruncated b" "bTruncated (snd (WriteString s b))" for b
    using that(1)
  proof (cases rule: WriteString_cases [where s = s])
    case cut
    then show ?thesis
      using hasSuffix_append [of "bBuf b @ take (cutEnd s (nat (bLimit b - Len b))) s" ResultTruncationNotice]
      by simp
  qed (use that in auto)
  then show ?thesis by (simp add: gatherOk_def TextStep_def stepOk_def)
qed

text \<open>
  A section gathered in a scratch: a gather error leaves the parent as it was; otherwise
  the header, what the scratch kept and the suffix all fit in the parent, so a section that
  was not cut is written whole and without a notice, and the limit is respected in every case.
\<close>

lemma try_section_atomic:
  assumes "wfBuilder b" and "bCapped b" and "gatherOk g"
    and "TrySection header suffix (Some g) (Some b) = (written, err, Some b')"
  shows "wfBuilder b' \<and> bLimit b' = bLimit b \<and> bCapped b'
    \<and> (err \<noteq> None \<longrightarrow> b' = b \<and> \<not> written)
    \<and> (b' = b \<or> (\<exists>body rest. bBuf b' = bBuf b @ header @ body @ suffix @ rest
          \<and> Len b + int (length (header @ body @ suffix)) \<le> bLimit b
          \<and> (\<not> bTruncated (snd (g (Scratch (int (length header) + int (length suffix)) (Some b))))
               \<longrightarrow> rest = [] \<and> \<not> bTruncated b')))"
proof -
  let ?s = "Scratch (int (length header) + int (length suffix)) (Some b)"
  obtain e i where g: "g ?s = (e, i)" by force
  consider (skip) "(written, err, b') = (False, None, b)"
    | (gathered) "\<not> bTruncated ?s" "Fits (Some b) (int (length header))"
    using assms(4) by (auto simp: TrySection_def Let_def Truncated_def split: if_splits)
  then show ?thesis
  proof cases
    case skip
    with assms show ?thesis by auto
  next
    case gathered
    note room = Scratch_room [OF assms(1,2) gathered(1)]
    have i: "wfBuilder i" "bLimit i = bLimit ?s" "bCapped i"
      using stepOkD [of g ?s e i] assms(3) g room by (auto simp: gatherOk_def)
    have suf: "bTruncated i \<longrightarrow> hasSuffix (bBuf i) ResultTruncationNotice"
      using assms(3) gathered(1) g Scratch_wf unfolding gatherOk_def by (metis snd_conv)
    have lim: "bLimit i = bLimit b - Len b - (int (length header) + int (length suffix))"
      using i(2) room by simp
    obtain b2 where b2: "snd (CommitScratch header suffix (Some i) (Some b)) = Some b2"
      "wfBuilder b2" "bLimit b2 = bLimit b" "bCapped b2"
      "b2 = b \<or> (\<exists>body rest. bBuf b2 = bBuf b @ header @ body @ suffix @ rest
          \<and> Len b + int (length (header @ body @ suffix)) \<le> bLimit b
          \<and> (\<not> bTruncated i \<longrightarrow> rest = [] \<and> \<not> bTruncated b2))"
      using CommitScratch_fits [OF assms(1,2) room(3) i(1,3) suf lim] by auto
    show ?thesis
    proof (cases e)
      case None
      then have "b' = b2 \<and> err = None"
        using assms(4) gathered g b2(1) by (auto simp: TrySection_def Let_def Truncated_def)
      then show ?thesis using b2 g None by simp
    next
      case (Some x)
      then show ?thesis
        using assms gathered g by (auto simp: TrySection_def Let_def Truncated_def)
    qed
  qed
qed

lemmas builder_eval = TrySection_def Let_def Fits_def Truncated_def Remaining_def Scratch_def
  TextStep_def WriteString_def CommitScratch_eq Prefix_def WriteCut_def Len_def
  trimSpace_def dropWhileEnd_def isSpace_def

text \<open>
  The truncation notice of a cut section is itself written through the budget: when the
  cut scratch left one to thirty bytes of room in the parent, a fragment of the notice comes
  before the notice. The section below ends with the first byte of a notice and then the
  notice, where the code's comment promises one notice after the suffix.
\<close>

lemma commit_scratch_notice_fragment:
  "bBuf (the (snd (CommitScratch ''h'' []
       (Some (snd (WriteString [CHR ''a'', CHR ''b'', CHR 0xE2, CHR 0x82, CHR 0xAC]
                     (Scratch 1 (Some (NewBuilderWithBudget 5))))))
       (Some (NewBuilderWithBudget 5)))))
   = ''hab'' @ take 2 ResultTruncationNotice @ ResultTruncationNotice"
  by code_simp

section \<open>Fitting a list of texts\<close>

lemma fitLoop_length: "length (fitLoop room texts) = length texts"
  by (induction room texts rule: fitLoop.induct) (auto simp: Let_def split: prod.splits)

lemma WriteString_New:
  "0 < room \<Longrightarrow> WriteString t (NewBuilderWithBudget room) =
    (if int (length t) \<le> room then (False, (NewBuilderWithBudget room)\<lparr>bBuf := t\<rparr>)
     else (True, (NewBuilderWithBudget room)\<lparr>
       bBuf := take (cutEnd t (nat room)) t @ ResultTruncationNotice, bTruncated := True\<rparr>))"
  using WriteString_fits [of "NewBuilderWithBudget room" t]
    WriteString_cut [of "NewBuilderWithBudget room" t]
  by (auto simp: Len_def)

lemma fitLoop_total:
  "0 \<le> room \<Longrightarrow> int (length (concat (fitLoop room texts))) \<le> room + int (length ResultTruncationNotice)"
proof (induction texts arbitrary: room)
  case (Cons t texts)
  have k: "int (min (length t) (cutEnd t (nat room))) \<le> room"
    using cutEnd_le [of t "nat room"] Cons.prems by linarith
  have "int (length (concat (fitLoop (room - int (length t)) texts))) \<le> room - int (length t) + 31"
    if "int (length t) \<le> room" using Cons.IH [of "room - int (length t)"] that by simp
  with Cons.IH [OF Cons.prems] Cons.prems k show ?case by (auto simp: WriteString_New Let_def)
qed simp

lemma fitLoop_id: "int (length (concat texts)) \<le> room \<Longrightarrow> fitLoop room texts = texts"
proof (induction texts arbitrary: room)
  case (Cons t texts)
  then have "t \<noteq> [] \<Longrightarrow> 0 < room" by (cases t) auto
  with Cons show ?case by (auto simp: WriteString_New Let_def)
qed simp

text \<open>
  \<open>FitSections\<close> keeps the number of texts, returns them unchanged when together they fit,
  and otherwise leaves at most the room plus one notice in all.
\<close>

lemma fit_sections_bound:
  "length (FitSections room texts) = length texts
   \<and> int (length (concat (FitSections room texts))) \<le> max room 0 + int (length ResultTruncationNotice)
   \<and> (if int (length (concat texts)) \<le> max room 0 then FitSections room texts = texts else True)"
  using fitLoop_length fitLoop_total [of "max room 0" texts] fitLoop_id [of texts "max room 0"]
  by (auto simp: FitSections_def max_def)

end
