(* ===== verification/Response_Limit.thy ===== *)
theory Response_Limit
  imports Bounded_Writer
begin

text \<open>
  \<open>pkg/kubernetes/responselimit.go\<close> and the exec output of \<open>pkg/kubernetes/pods.go\<close>: what
  the server reads from a backend. \<open>limitedBody\<close> is a reader that lets exactly the limit
  through and fails closed on the next byte. The transport's body is the environment: a finite
  script of what successive reads deliver, with the documented behaviour of an \<open>io.Reader\<close>
  (at most the requested number of bytes; \<open>(0, nil)\<close> allowed; an error repeats).
\<close>

section \<open>The transport's body\<close>

datatype ioErr = EOF | TooLarge int | LimitUnavailable | OtherErr string

type_synonym event = "string \<times> ioErr option"

record body =
  rcEvents :: "event list"
  rcClosed :: bool

text \<open>One \<open>Read\<close> of the transport with a buffer of \<open>n\<close> bytes.\<close>

fun scriptRead :: "nat \<Rightarrow> event list \<Rightarrow> string \<times> ioErr option \<times> event list" where
  "scriptRead n [] = ([], Some EOF, [])"
| "scriptRead n ((d, None) # es) =
     (if length d \<le> n then (d, None, es) else (take n d, None, (drop n d, None) # es))"
| "scriptRead n ((d, Some e) # es) =
     (if length d \<le> n then (d, Some e, [([], Some e)])
      else (take n d, None, (drop n d, Some e) # es))"

definition rcRead :: "nat \<Rightarrow> body \<Rightarrow> string \<times> ioErr option \<times> body" where
  "rcRead n b = (case scriptRead n (rcEvents b) of (d, e, es) \<Rightarrow> (d, e, b\<lparr>rcEvents := es\<rparr>))"

definition rcClose :: "body \<Rightarrow> body" where
  "rcClose b = b\<lparr>rcClosed := True\<rparr>"

text \<open>The bytes a body holds, and how it ends.\<close>

fun content :: "event list \<Rightarrow> string" where
  "content [] = []"
| "content ((d, None) # es) = d @ content es"
| "content ((d, Some e) # es) = d"

fun outcome :: "event list \<Rightarrow> ioErr" where
  "outcome [] = EOF"
| "outcome ((d, None) # es) = outcome es"
| "outcome ((d, Some e) # es) = e"

section \<open>The limited body\<close>

definition maxZeroReads :: nat where
  "maxZeroReads = 8"

record limitedBody =
  lbRc :: body
  lbLimit :: int
  lbRead :: int
  lbErr :: "ioErr option"
  lbClosed :: bool

definition failLimited :: "limitedBody \<Rightarrow> ioErr \<times> limitedBody" where
  "failLimited b =
     (case lbErr b of
        None \<Rightarrow> (TooLarge (lbLimit b),
                 b\<lparr>lbErr := Some (TooLarge (lbLimit b)), lbClosed := True, lbRc := rcClose (lbRc b)\<rparr>)
      | Some e \<Rightarrow> (e, b))"

fun readByteLoop :: "nat \<Rightarrow> body \<Rightarrow> nat \<times> ioErr option \<times> body" where
  "readByteLoop 0 rc = (0, None, rc)"
| "readByteLoop (Suc k) rc =
     (case rcRead 1 rc of (d, e, rc') \<Rightarrow>
        if length d > 0 \<or> e \<noteq> None then (length d, e, rc') else readByteLoop k rc')"

definition readByte :: "limitedBody \<Rightarrow> nat \<times> ioErr option \<times> limitedBody" where
  "readByte b =
     (case readByteLoop maxZeroReads (lbRc b) of (n, e, rc) \<Rightarrow> (n, e, b\<lparr>lbRc := rc\<rparr>))"

definition peek :: "limitedBody \<Rightarrow> string \<times> ioErr option \<times> limitedBody" where
  "peek b =
     (case readByte b of (n, e, b) \<Rightarrow>
        if n > 0 \<or> e = None then (case failLimited b of (err, b) \<Rightarrow> ([], Some err, b))
        else if e = Some EOF then ([], Some EOF, b)
        else ([], e, b))"

text \<open>\<open>Read\<close> with a buffer of \<open>lenp\<close> bytes: the bytes stored, the error, the new state.\<close>

definition limitedRead :: "nat \<Rightarrow> limitedBody \<Rightarrow> string \<times> ioErr option \<times> limitedBody" where
  "limitedRead lenp b =
     (case lbErr b of
        Some e \<Rightarrow> ([], Some e, b)
      | None \<Rightarrow>
          if lenp = 0 then ([], None, b)
          else if lbRead b = lbLimit b then peek b
          else
            let room = lbLimit b - lbRead b;
                lenp = (if int lenp > room then nat room else lenp)
            in (case rcRead lenp (lbRc b) of (d, e, rc) \<Rightarrow>
                  let b = b\<lparr>lbRc := rc, lbRead := lbRead b + int (length d)\<rparr>
                  in if lbRead b < lbLimit b \<or> e \<noteq> None then (d, e, b)
                     else (case readByte b of (extra, peekErr, b) \<Rightarrow>
                         if extra > 0 \<or> peekErr = None
                         then (case failLimited b of (err, b) \<Rightarrow> (d, Some err, b))
                         else if peekErr \<noteq> Some EOF then (d, peekErr, b)
                         else (d, None, b))))"

definition limitedClose :: "limitedBody \<Rightarrow> limitedBody" where
  "limitedClose b =
     (if lbClosed b then b else b\<lparr>lbClosed := True, lbRc := rcClose (lbRc b)\<rparr>)"

datatype respBody = RawBody body | Limited limitedBody

definition LimitResponseBody :: "body option \<Rightarrow> int \<Rightarrow> respBody option" where
  "LimitResponseBody body limit =
     (case body of None \<Rightarrow> None
      | Some rc \<Rightarrow>
          if limit \<le> 0 then Some (RawBody rc)
          else Some (Limited \<lparr>lbRc = rc, lbLimit = limit, lbRead = 0, lbErr = None, lbClosed = False\<rparr>))"

fun readResp :: "nat \<Rightarrow> respBody \<Rightarrow> string \<times> ioErr option \<times> respBody" where
  "readResp n (RawBody rc) = (case rcRead n rc of (d, e, rc) \<Rightarrow> (d, e, RawBody rc))"
| "readResp n (Limited b) = (case limitedRead n b of (d, e, b) \<Rightarrow> (d, e, Limited b))"

fun respEvents :: "respBody \<Rightarrow> event list" where
  "respEvents (RawBody rc) = rcEvents rc"
| "respEvents (Limited b) = rcEvents (lbRc b)"

definition scriptMeasure :: "event list \<Rightarrow> nat" where
  "scriptMeasure es = length es + sum_list (map (\<lambda>(d, _). length d) es)"

subsection \<open>One read of the script\<close>

lemma scriptRead_content:
  "scriptRead n es = (d, e, es') \<Longrightarrow>
    content es = d @ (if e = None then content es' else [])
    \<and> outcome es = (case e of None \<Rightarrow> outcome es' | Some x \<Rightarrow> x)
    \<and> length d \<le> n
    \<and> (\<forall>x. e = Some x \<longrightarrow> content es' = [] \<and> outcome es' = x)"
  by (induction n es rule: scriptRead.induct) (auto split: if_splits)

lemma scriptRead_measure:
  "scriptRead n es = (d, None, es') \<Longrightarrow> 0 < n \<Longrightarrow> scriptMeasure es' < scriptMeasure es"
  by (induction n es rule: scriptRead.induct)
    (auto simp: scriptMeasure_def split: if_splits)

lemma scriptRead_measure_le:
  "scriptRead n es = (d, e, es') \<Longrightarrow> scriptMeasure es' \<le> scriptMeasure es"
  by (induction n es rule: scriptRead.induct)
    (auto simp: scriptMeasure_def split: if_splits)

lemma rcRead_eq: "rcRead n b = (d, e, b') \<longleftrightarrow>
    (\<exists>es. scriptRead n (rcEvents b) = (d, e, es) \<and> b' = b\<lparr>rcEvents := es\<rparr>)"
  by (auto simp: rcRead_def split: prod.splits)

lemma readByteLoop_spec:
  "readByteLoop k rc = (n, e, rc') \<Longrightarrow>
    scriptMeasure (rcEvents rc') \<le> scriptMeasure (rcEvents rc)
    \<and> rcClosed rc' = rcClosed rc
    \<and> (\<forall>x. n = 0 \<and> e = Some x \<longrightarrow> content (rcEvents rc) = [] \<and> outcome (rcEvents rc) = x
          \<and> content (rcEvents rc') = [] \<and> outcome (rcEvents rc') = x)"
proof (induction k arbitrary: rc)
  case (Suc k)
  obtain d x rc1 where r: "rcRead 1 rc = (d, x, rc1)" by (cases "rcRead 1 rc") auto
  then obtain es where es: "scriptRead 1 (rcEvents rc) = (d, x, es)" "rc1 = rc\<lparr>rcEvents := es\<rparr>"
    by (auto simp: rcRead_eq)
  note c = scriptRead_content [OF es(1)] and m = scriptRead_measure_le [OF es(1)]
  show ?case
  proof (cases "length d > 0 \<or> x \<noteq> None")
    case True
    then have "n = length d" "e = x" "rc' = rc1" using Suc.prems r by auto
    with c m es(2) show ?thesis by (auto split: option.splits)
  next
    case False
    then have "readByteLoop k rc1 = (n, e, rc')" "x = None" "d = []" using Suc.prems r by auto
    with Suc.IH [OF this(1)] c m es(2) show ?thesis by auto
  qed
qed simp

lemma readByte_spec:
  assumes "readByte b = (n, e, b')"
  shows "\<exists>rc. b' = b\<lparr>lbRc := rc\<rparr>
    \<and> scriptMeasure (rcEvents rc) \<le> scriptMeasure (rcEvents (lbRc b))
    \<and> (\<forall>x. n = 0 \<and> e = Some x \<longrightarrow> content (rcEvents (lbRc b)) = []
          \<and> outcome (rcEvents (lbRc b)) = x
          \<and> content (rcEvents rc) = [] \<and> outcome (rcEvents rc) = x)"
  using assms by (auto simp: readByte_def split: prod.splits dest: readByteLoop_spec)

section \<open>What a limited read returns\<close>

definition lbOk :: "limitedBody \<Rightarrow> bool" where
  "lbOk b \<longleftrightarrow> lbErr b = None \<and> 0 \<le> lbRead b \<and> lbRead b \<le> lbLimit b"

abbreviation lbContent :: "limitedBody \<Rightarrow> string" where
  "lbContent b \<equiv> content (rcEvents (lbRc b))"

abbreviation lbOutcome :: "limitedBody \<Rightarrow> ioErr" where
  "lbOutcome b \<equiv> outcome (rcEvents (lbRc b))"

abbreviation lbRoom :: "limitedBody \<Rightarrow> nat" where
  "lbRoom b \<equiv> nat (lbLimit b - lbRead b)"

text \<open>The three ways a read of a healthy limited body ends.\<close>

definition readContinues :: "limitedBody \<Rightarrow> string \<Rightarrow> limitedBody \<Rightarrow> bool" where
  "readContinues b d b' \<longleftrightarrow> lbOk b' \<and> lbLimit b' = lbLimit b
     \<and> lbRead b' = lbRead b + int (length d)
     \<and> lbContent b = d @ lbContent b' \<and> lbOutcome b' = lbOutcome b
     \<and> scriptMeasure (rcEvents (lbRc b')) < scriptMeasure (rcEvents (lbRc b))"

definition readOverLimit :: "limitedBody \<Rightarrow> string \<Rightarrow> ioErr \<Rightarrow> limitedBody \<Rightarrow> bool" where
  "readOverLimit b d e b' \<longleftrightarrow> e = TooLarge (lbLimit b) \<and> d = take (lbRoom b) (lbContent b)
     \<and> lbRoom b \<le> length (lbContent b)
     \<and> lbErr b' = Some e \<and> lbClosed b' \<and> rcClosed (lbRc b')"

definition readEnds :: "limitedBody \<Rightarrow> string \<Rightarrow> ioErr \<Rightarrow> bool" where
  "readEnds b d e \<longleftrightarrow> e = lbOutcome b \<and> d = lbContent b \<and> length d \<le> lbRoom b"

lemma failLimited_ok: "lbErr b = None \<Longrightarrow> failLimited b =
   (TooLarge (lbLimit b), b\<lparr>lbErr := Some (TooLarge (lbLimit b)), lbClosed := True, lbRc := rcClose (lbRc b)\<rparr>)"
  by (simp add: failLimited_def)

lemma peek_spec:
  assumes "lbOk b" and "lbRead b = lbLimit b" and "peek b = (d, e, b')"
  shows "\<exists>x. e = Some x \<and> (readOverLimit b d x b' \<or> readEnds b d x)"
proof -
  obtain n e1 b1 where r: "readByte b = (n, e1, b1)" by (cases "readByte b") auto
  from readByte_spec [OF r] obtain rc where b1: "b1 = b\<lparr>lbRc := rc\<rparr>" by auto
  show ?thesis
  proof (cases "n > 0 \<or> e1 = None")
    case True
    with assms r b1 show ?thesis
      by (auto simp: peek_def failLimited_ok lbOk_def readOverLimit_def rcClose_def)
  next
    case False
    with assms r b1 readByte_spec [OF r] show ?thesis
      by (auto simp: peek_def readEnds_def split: if_splits)
  qed
qed

lemma limitedRead_spec:
  assumes ok: "lbOk b" and "0 < n" and "limitedRead n b = (d, e, b')"
  shows "(e = None \<and> readContinues b d b') \<or>
    (\<exists>x. e = Some x \<and> (readOverLimit b d x b' \<or> readEnds b d x))"
proof (cases "lbRead b = lbLimit b")
  case True
  with assms peek_spec [OF ok True] show ?thesis by (auto simp: limitedRead_def lbOk_def)
next
  case False
  define m where "m = (if int n > lbLimit b - lbRead b then lbRoom b else n)"
  have m: "0 < m" "m \<le> lbRoom b" using False assms(1,2) by (auto simp: m_def lbOk_def)
  obtain d1 e1 es where r: "scriptRead m (rcEvents (lbRc b)) = (d1, e1, es)"
    by (cases "scriptRead m (rcEvents (lbRc b))") auto
  note c = scriptRead_content [OF r]
  define b1 where "b1 = b\<lparr>lbRc := (lbRc b)\<lparr>rcEvents := es\<rparr>, lbRead := lbRead b + int (length d1)\<rparr>"
  have ok1: "lbOk b1" using ok c m by (auto simp: lbOk_def b1_def)
  have step: "limitedRead n b =
     (if lbRead b1 < lbLimit b1 \<or> e1 \<noteq> None then (d1, e1, b1)
      else (case readByte b1 of (extra, peekErr, b2) \<Rightarrow>
         if extra > 0 \<or> peekErr = None then (case failLimited b2 of (err, b) \<Rightarrow> (d1, Some err, b))
         else if peekErr \<noteq> Some EOF then (d1, peekErr, b2) else (d1, None, b2)))"
    using ok False assms(2) r
    by (simp add: limitedRead_def lbOk_def rcRead_def Let_def m_def b1_def)
  show ?thesis
  proof (cases "lbRead b1 < lbLimit b1 \<or> e1 \<noteq> None")
    case True
    then show ?thesis
      using step assms(3) c m ok1 scriptRead_measure [of m "rcEvents (lbRc b)" d1 es] r
      by (cases e1) (auto simp: readContinues_def readEnds_def b1_def)
  next
    case full: False
    obtain x pe b2 where rb: "readByte b1 = (x, pe, b2)" by (cases "readByte b1") auto
    from readByte_spec [OF rb] obtain rc where b2: "b2 = b1\<lparr>lbRc := rc\<rparr>"
      and le: "scriptMeasure (rcEvents rc) \<le> scriptMeasure es"
      and q: "\<forall>y. x = 0 \<and> pe = Some y \<longrightarrow> content es = [] \<and> outcome es = y
        \<and> content (rcEvents rc) = [] \<and> outcome (rcEvents rc) = y"
      by (auto simp: b1_def)
    have len: "int (length d1) = lbLimit b - lbRead b"
      using full ok1 by (auto simp: lbOk_def b1_def)
    show ?thesis
    proof (cases "x > 0 \<or> pe = None")
      case True
      then show ?thesis
        using step full rb b2 ok1 assms(3) len c
        by (auto simp: failLimited_ok lbOk_def readOverLimit_def rcClose_def b1_def)
    next
      case False
      then show ?thesis
        using step full rb b2 ok1 assms(3) len c q le m scriptRead_measure [of m "rcEvents (lbRc b)" d1 es] r
        by (auto simp: readContinues_def readEnds_def lbOk_def b1_def split: if_splits)
    qed
  qed
qed

section \<open>Reading a body to its end\<close>

lemma scriptRead_progress:
  "scriptRead n es = (d, None, es') \<Longrightarrow>
    scriptMeasure es' < scriptMeasure es \<or> (es' = es \<and> content es \<noteq> [])"
proof (cases n)
  case 0
  assume "scriptRead n es = (d, None, es')"
  with 0 show ?thesis
    by (cases "(n, es)" rule: scriptRead.cases) (auto simp: scriptMeasure_def split: if_splits)
qed (auto dest: scriptRead_measure)

lemma peek_always_errors: "peek b = (d, e, b') \<Longrightarrow> e \<noteq> None"
  by (auto simp: peek_def split: prod.splits if_splits)

lemma limitedRead_measure:
  assumes "limitedRead (Suc n) b = (d, None, b')"
  shows "scriptMeasure (rcEvents (lbRc b')) < scriptMeasure (rcEvents (lbRc b))"
proof -
  define m where "m = (if int (Suc n) > lbLimit b - lbRead b then lbRoom b else Suc n)"
  have none: "lbErr b = None" and ne: "lbRead b \<noteq> lbLimit b"
    using assms peek_always_errors [of b d None b']
    by (auto simp: limitedRead_def split: option.splits if_splits)
  obtain d1 e1 es where r: "scriptRead m (rcEvents (lbRc b)) = (d1, e1, es)"
    by (cases "scriptRead m (rcEvents (lbRc b))") auto
  define b1 where "b1 = b\<lparr>lbRc := (lbRc b)\<lparr>rcEvents := es\<rparr>, lbRead := lbRead b + int (length d1)\<rparr>"
  have step: "limitedRead (Suc n) b =
     (if lbRead b1 < lbLimit b1 \<or> e1 \<noteq> None then (d1, e1, b1)
      else (case readByte b1 of (extra, peekErr, b2) \<Rightarrow>
         if extra > 0 \<or> peekErr = None then (case failLimited b2 of (err, b) \<Rightarrow> (d1, Some err, b))
         else if peekErr \<noteq> Some EOF then (d1, peekErr, b2) else (d1, None, b2)))"
    using none ne r by (simp add: limitedRead_def rcRead_def Let_def m_def b1_def)
  obtain x pe b2 where rb: "readByte b1 = (x, pe, b2)" by (cases "readByte b1") auto
  from readByte_spec [OF rb] obtain rc where b2: "b2 = b1\<lparr>lbRc := rc\<rparr>"
    "scriptMeasure (rcEvents rc) \<le> scriptMeasure es" "x = 0 \<and> pe = Some EOF \<longrightarrow> content es = []"
    by (auto simp: b1_def)
  from step assms have e1: "e1 = None" by (auto split: if_splits prod.splits)
  show ?thesis
  proof (cases "lbRead b1 < lbLimit b1")
    case True
    then have "b' = b1" "0 < m" using step assms e1 ne by (auto simp: b1_def m_def split: if_splits)
    then show ?thesis using scriptRead_measure [of m "rcEvents (lbRc b)" d1 es] r e1
      by (simp add: b1_def)
  next
    case False
    then have "x = 0 \<and> pe = Some EOF" "b' = b2"
      using step assms e1 rb by (auto split: if_splits prod.splits)
    then show ?thesis using b2 scriptRead_progress [of m "rcEvents (lbRc b)" d1 es] r e1
      by (auto simp: b1_def)
  qed
qed

lemma readResp_measure:
  "readResp (Suc n) b = (d, None, b') \<Longrightarrow> scriptMeasure (respEvents b') < scriptMeasure (respEvents b)"
  by (cases b) (auto simp: rcRead_def split: prod.splits dest: scriptRead_measure limitedRead_measure)

text \<open>
  \<open>io.ReadAll\<close>. The buffer sizes it reads with depend on how \<open>append\<close> grows a slice, so they
  are a parameter: the \<open>k\<close>-th read has room for \<open>Suc (sz k)\<close> bytes.
\<close>

function readAllLoop :: "(nat \<Rightarrow> nat) \<Rightarrow> nat \<Rightarrow> respBody \<Rightarrow> string \<times> ioErr option \<times> respBody" where
  "readAllLoop sz k b =
     (case readResp (Suc (sz k)) b of
        (d, None, b') \<Rightarrow> (case readAllLoop sz (Suc k) b' of (ds, e, b'') \<Rightarrow> (d @ ds, e, b''))
      | (d, Some e, b') \<Rightarrow> (d, if e = EOF then None else Some e, b'))"
  by pat_completeness auto
termination
  by (relation "measure (\<lambda>(sz, k, b). scriptMeasure (respEvents b))")
    (auto simp del: readResp.simps dest!: readResp_measure [OF sym])

declare readAllLoop.simps [simp del]

definition ReadLimited :: "(nat \<Rightarrow> nat) \<Rightarrow> body \<Rightarrow> int \<Rightarrow> string \<times> ioErr option" where
  "ReadLimited sz body limit =
     (case LimitResponseBody (Some body) limit of
        None \<Rightarrow> ([], None)
      | Some b \<Rightarrow> (case readAllLoop sz 0 b of (data, e, _) \<Rightarrow> (data, e)))"

definition ReadCapped :: "(nat \<Rightarrow> nat) \<Rightarrow> body \<Rightarrow> int \<Rightarrow> ioErr + string" where
  "ReadCapped sz body limit =
     (case ReadLimited sz body limit of (data, e) \<Rightarrow>
        (case e of None \<Rightarrow> Inr data | Some e \<Rightarrow> Inl e))"

lemma readAllLoop_raw:
  "readAllLoop sz k (RawBody rc) = (ds, e, b') \<Longrightarrow>
    ds = content (rcEvents rc) \<and>
    e = (if outcome (rcEvents rc) = EOF then None else Some (outcome (rcEvents rc)))"
proof (induction "scriptMeasure (rcEvents rc)" arbitrary: k rc ds e b' rule: less_induct)
  case less
  obtain d1 e1 es where r: "scriptRead (Suc (sz k)) (rcEvents rc) = (d1, e1, es)"
    by (cases "scriptRead (Suc (sz k)) (rcEvents rc)") auto
  note c = scriptRead_content [OF r]
  show ?case
  proof (cases e1)
    case (Some x)
    then show ?thesis
      using less.prems r c by (subst (asm) readAllLoop.simps) (auto simp: rcRead_def split: if_splits)
  next
    case None
    obtain ds2 e2 b2 where r2: "readAllLoop sz (Suc k) (RawBody (rc\<lparr>rcEvents := es\<rparr>)) = (ds2, e2, b2)"
      by (cases "readAllLoop sz (Suc k) (RawBody (rc\<lparr>rcEvents := es\<rparr>))") auto
    have "ds = d1 @ ds2" "e = e2"
      using less.prems r r2 None by (subst (asm) readAllLoop.simps, auto simp: rcRead_def)+
    moreover have "scriptMeasure (rcEvents (rc\<lparr>rcEvents := es\<rparr>)) < scriptMeasure (rcEvents rc)"
      using scriptRead_measure [of "Suc (sz k)" "rcEvents rc" d1 es] r None by simp
    ultimately show ?thesis using less.hyps [OF _ r2] c None by simp
  qed
qed

lemma readAllLoop_limited:
  assumes "lbOk b" and "readAllLoop sz k (Limited b) = (ds, e, b')"
  shows "(length (lbContent b) \<le> lbRoom b \<and> ds = lbContent b
           \<and> e = (if lbOutcome b = EOF then None else Some (lbOutcome b)))
    \<or> (lbRoom b \<le> length (lbContent b) \<and> ds = take (lbRoom b) (lbContent b)
           \<and> e = Some (TooLarge (lbLimit b))
           \<and> (\<exists>l. b' = Limited l \<and> lbClosed l \<and> rcClosed (lbRc l)))"
  using assms
proof (induction "scriptMeasure (rcEvents (lbRc b))" arbitrary: k b ds e b' rule: less_induct)
  case less
  obtain d1 e1 b1 where r: "limitedRead (Suc (sz k)) b = (d1, e1, b1)"
    by (cases "limitedRead (Suc (sz k)) b") auto
  from limitedRead_spec [OF less.prems(1) _ r]
  consider (more) "e1 = None" "readContinues b d1 b1"
    | (over) x where "e1 = Some x" "readOverLimit b d1 x b1"
    | (ends) x where "e1 = Some x" "readEnds b d1 x" by auto
  then show ?case
  proof cases
    case more
    obtain ds2 e2 b2 where r2: "readAllLoop sz (Suc k) (Limited b1) = (ds2, e2, b2)"
      by (cases "readAllLoop sz (Suc k) (Limited b1)") auto
    have eq: "ds = d1 @ ds2" "e = e2" "b' = b2"
      using less.prems(2) r r2 more(1) by (subst (asm) readAllLoop.simps, auto)+
    have c: "lbOk b1" "lbLimit b1 = lbLimit b" "lbRead b1 = lbRead b + int (length d1)"
      "lbContent b = d1 @ lbContent b1" "lbOutcome b1 = lbOutcome b"
      "scriptMeasure (rcEvents (lbRc b1)) < scriptMeasure (rcEvents (lbRc b))"
      using more(2) by (auto simp: readContinues_def)
    have "lbRoom b = length d1 + lbRoom b1" using c(1-3) unfolding lbOk_def by arith
    with less.hyps [OF c(6) c(1) r2] eq c show ?thesis by auto
  next
    case over
    then show ?thesis using less.prems(2) r
      by (subst (asm) readAllLoop.simps) (auto simp: readOverLimit_def split: if_splits)
  next
    case ends
    then show ?thesis using less.prems(2) r
      by (subst (asm) readAllLoop.simps) (auto simp: readEnds_def split: if_splits)
  qed
qed

text \<open>
  C33. A capped read never accepts a cut body as complete and never retains more than the
  limit: whatever the transport delivers and however large the read buffers are, data without
  an error is the whole body and fits; a body over the limit yields exactly its first limit
  bytes with the size error; and an error-free body under the limit is returned whole.
\<close>

theorem read_limited_fails_closed:
  assumes "0 < limit" and "ReadLimited sz rc limit = (data, err)"
  shows "int (length data) \<le> limit
    \<and> (err = None \<longrightarrow> data = content (rcEvents rc) \<and> outcome (rcEvents rc) = EOF)
    \<and> (limit < int (length (content (rcEvents rc))) \<longrightarrow>
         data = take (nat limit) (content (rcEvents rc)) \<and> err = Some (TooLarge limit))
    \<and> (int (length (content (rcEvents rc))) < limit \<and> outcome (rcEvents rc) = EOF \<longrightarrow>
         data = content (rcEvents rc) \<and> err = None)"
proof -
  let ?b = "\<lparr>lbRc = rc, lbLimit = limit, lbRead = 0, lbErr = None, lbClosed = False\<rparr>"
  obtain b' where r: "readAllLoop sz 0 (Limited ?b) = (data, err, b')"
    using assms by (auto simp: ReadLimited_def LimitResponseBody_def split: prod.splits)
  have "lbOk ?b" using assms(1) by (simp add: lbOk_def)
  from readAllLoop_limited [OF this r] assms(1) show ?thesis by (auto split: if_splits)
qed

theorem read_limited_fails_closed_witness:
  "fst (ReadLimited (\<lambda>_. 1) \<lparr>rcEvents = [(''abcd'', None), ([], None), (''ef'', Some EOF)], rcClosed = False\<rparr> 3)
     = ''abc''"
proof -
  let ?rc = "\<lparr>rcEvents = [(''abcd'', None), ([], None), (''ef'', Some EOF)], rcClosed = False\<rparr>"
  obtain d e where r: "ReadLimited (\<lambda>_. 1) ?rc 3 = (d, e)" by force
  from read_limited_fails_closed [OF _ r] r show ?thesis by simp
qed

section \<open>Partial results and the round tripper\<close>

definition BackendTruncationNotice :: string where
  "BackendTruncationNotice = nl # ''[truncated: max_backend_response_bytes]'' @ [nl]"

definition AcceptTruncated :: "string \<Rightarrow> ioErr option \<Rightarrow> string \<times> bool \<times> ioErr option" where
  "AcceptTruncated data err =
     (case err of
        Some (TooLarge _) \<Rightarrow> (data @ BackendTruncationNotice, True, None)
      | Some e \<Rightarrow> ([], False, Some e)
      | None \<Rightarrow> (data, False, None))"

text \<open>\<open>max_backend_response_bytes\<close> of a configuration that may be nil.\<close>

definition BackendLimit :: "int option \<Rightarrow> ioErr + int" where
  "BackendLimit maxBackendResponseBytes =
     (case maxBackendResponseBytes of None \<Rightarrow> Inl LimitUnavailable | Some n \<Rightarrow> Inr n)"

definition IsResponseTooLarge :: "ioErr option \<Rightarrow> bool" where
  "IsResponseTooLarge err = (case err of Some (TooLarge _) \<Rightarrow> True | _ \<Rightarrow> False)"

record response =
  rsStatus :: int
  rsBody :: "body option"

text \<open>
  \<open>RoundTrip\<close>: the delegate's response and error, whether the request's context carries the
  skip mark, and the limit function (nil, or its result). Returned: the status and wrapped
  body, the error, and the body that was closed on the way.
\<close>

definition backendRoundTrip ::
    "response option \<times> ioErr option \<Rightarrow> bool \<Rightarrow> (ioErr + int) option \<Rightarrow>
     (int \<times> respBody option) option \<times> ioErr option \<times> body option" where
  "backendRoundTrip delegated skipMark limitFn =
     (case delegated of (resp, err) \<Rightarrow>
        (case resp of None \<Rightarrow> (None, err, None)
         | Some r \<Rightarrow>
             if err \<noteq> None \<or> rsBody r = None
             then (Some (rsStatus r, map_option RawBody (rsBody r)), err, None)
             else if rsStatus r = 101 then (Some (101, map_option RawBody (rsBody r)), None, None)
             else if skipMark then (Some (rsStatus r, map_option RawBody (rsBody r)), None, None)
             else (case limitFn of
                 None \<Rightarrow> (None, Some LimitUnavailable, map_option rcClose (rsBody r))
               | Some (Inl e) \<Rightarrow> (None, Some e, map_option rcClose (rsBody r))
               | Some (Inr limit) \<Rightarrow> (Some (rsStatus r, LimitResponseBody (rsBody r) limit), None, None))))"

text \<open>
  Through the round tripper, a response that is neither a protocol switch nor marked to be
  read whole can only be read within the live limit: the caller gets a body from which at most
  the limit is read, or, when the limit cannot be determined, an error and a closed body.
\<close>

lemma round_trip_enforces_limit:
  assumes "rsStatus r \<noteq> 101" and "rsBody r = Some rc"
    and "backendRoundTrip (Some r, None) False (Some lim) = (resp, err, closed)"
  shows "(case lim of
      Inl e \<Rightarrow> resp = None \<and> err = Some e \<and> closed = Some (rcClose rc)
    | Inr limit \<Rightarrow> err = None \<and> closed = None \<and> (0 < limit \<longrightarrow>
        (\<exists>b. resp = Some (rsStatus r, Some b) \<and>
          (\<forall>sz data e b'. readAllLoop sz 0 b = (data, e, b') \<longrightarrow> int (length data) \<le> limit))))"
proof (cases lim)
  case (Inr limit)
  let ?b = "\<lparr>lbRc = rc, lbLimit = limit, lbRead = 0, lbErr = None, lbClosed = False\<rparr>"
  have "int (length data) \<le> limit"
    if "0 < limit" "readAllLoop sz 0 (Limited ?b) = (data, e, b')" for sz data e b'
    using readAllLoop_limited [of ?b sz 0 data e b'] that by (auto simp: lbOk_def)
  then show ?thesis
    using assms Inr by (auto simp: backendRoundTrip_def LimitResponseBody_def)
qed (use assms in \<open>auto simp: backendRoundTrip_def\<close>)

section \<open>The output of pods\_exec\<close>

record execOutput =
  exStdout :: string
  exStderr :: string
  exLimit :: int
  exUsed :: int
  exTruncated :: bool
  exCancelled :: bool

definition newExecOutput :: "int \<Rightarrow> execOutput" where
  "newExecOutput limit =
     \<lparr>exStdout = [], exStderr = [], exLimit = limit, exUsed = 0, exTruncated = False, exCancelled = False\<rparr>"

text \<open>The buffer a stream appends to: \<open>stdoutWriter\<close> and \<open>stderrWriter\<close> differ in that only.\<close>

definition execAppend :: "bool \<Rightarrow> string \<Rightarrow> execOutput \<Rightarrow> execOutput" where
  "execAppend isStdout p o1 =
     (if isStdout then o1\<lparr>exStdout := exStdout o1 @ p\<rparr> else o1\<lparr>exStderr := exStderr o1 @ p\<rparr>)"

text \<open>
  \<open>execStream.Write\<close>: the number of bytes it reports and the new output. A write to a
  \<open>bytes.Buffer\<close> has no error.
\<close>

definition execWrite :: "bool \<Rightarrow> string \<Rightarrow> execOutput \<Rightarrow> nat \<times> execOutput" where
  "execWrite isStdout p o1 =
     (if exLimit o1 \<le> 0 \<or> exTruncated o1 then
        (if exTruncated o1 then (length p, o1) else (length p, execAppend isStdout p o1))
      else
        let room = exLimit o1 - exUsed o1;
            room = (if room < 0 then 0 else room)
        in if int (length p) > room then
             let o2 = (if room > 0
                       then (execAppend isStdout (take (nat room) p) o1)\<lparr>exUsed := exUsed o1 + room\<rparr>
                       else o1)
             in (length p, o2\<lparr>exTruncated := True, exCancelled := True\<rparr>)
           else (length p, (execAppend isStdout p o1)\<lparr>exUsed := exUsed o1 + int (length p)\<rparr>))"

definition finishExec :: "'e option \<Rightarrow> execOutput \<Rightarrow> string \<times> string \<times> 'e option" where
  "finishExec err o1 =
     (if exTruncated o1 then
        (if length (exStdout o1) > 0 then (exStdout o1 @ BackendTruncationNotice, exStderr o1, None)
         else (exStdout o1, exStderr o1 @ BackendTruncationNotice, None))
      else (case err of Some e \<Rightarrow> ([], [], Some e) | None \<Rightarrow> (exStdout o1, exStderr o1, None)))"

definition execOk :: "execOutput \<Rightarrow> bool" where
  "execOk o1 \<longleftrightarrow>
     (exLimit o1 > 0 \<longrightarrow> exUsed o1 = int (length (exStdout o1) + length (exStderr o1)) \<and> exUsed o1 \<le> exLimit o1)
     \<and> (exLimit o1 \<le> 0 \<longrightarrow> \<not> exTruncated o1) \<and> (exTruncated o1 \<longrightarrow> exCancelled o1)"

abbreviation execRetained :: "execOutput \<Rightarrow> int" where
  "execRetained o1 \<equiv> int (length (exStdout o1) + length (exStderr o1))"

abbreviation execStep :: "bool \<times> string \<Rightarrow> execOutput \<Rightarrow> execOutput" where
  "execStep w o1 \<equiv> snd (execWrite (fst w) (snd w) o1)"

lemma execStep_ok [simp]: "execOk o1 \<Longrightarrow> execOk (execStep w o1)"
  by (auto simp: execWrite_def execAppend_def execOk_def Let_def)

lemma execStep_limit [simp]: "exLimit (execStep w o1) = exLimit o1"
  by (auto simp: execWrite_def execAppend_def Let_def)

interpretation exec: bounded_writer execStep execOk execRetained
    "\<lambda>o1. if exLimit o1 > 0 then Some (exLimit o1) else None" exTruncated
proof unfold_locales
  show "execRetained b \<le> m" if "execOk b" "(if exLimit b > 0 then Some (exLimit b) else None) = Some m" for b m
    using that by (auto simp: execOk_def split: if_splits)
  show "execStep w b = b" if "execOk b" "exTruncated b" for b w
    using that by (simp add: execWrite_def)
qed simp_all

definition streamOf :: "bool \<Rightarrow> (bool \<times> string) list \<Rightarrow> string" where
  "streamOf isStdout ws = concat (map snd (filter (\<lambda>w. fst w = isStdout) ws))"

lemma streamOf_snoc:
  "streamOf i (ws @ [w]) = streamOf i ws @ (if fst w = i then snd w else [])"
  by (simp add: streamOf_def)

lemma total_streams:
  "length (streamOf True ws) + length (streamOf False ws) = length (concat (map snd ws))"
  by (induction ws) (auto simp: streamOf_def)

lemma take_ex [simp]: "\<exists>x. b = take n b @ x"
  by (metis append_take_drop_id)

lemma exec_run:
  assumes "0 < limit" and "o1 = fold execStep ws (newExecOutput limit)"
  shows "execOk o1 \<and> exLimit o1 = limit
    \<and> (if exTruncated o1 then int (length (concat (map snd ws))) > limit \<and> execRetained o1 = limit
         \<and> (\<exists>x y. streamOf True ws = exStdout o1 @ x \<and> streamOf False ws = exStderr o1 @ y)
       else exStdout o1 = streamOf True ws \<and> exStderr o1 = streamOf False ws)"
  using assms(2)
proof (induction ws arbitrary: o1 rule: rev_induct)
  case Nil
  then show ?case using assms(1) by (simp add: newExecOutput_def execOk_def streamOf_def)
next
  case (snoc w ws)
  define o0 where "o0 = fold execStep ws (newExecOutput limit)"
  note IH = snoc.IH [OF o0_def]
  have o1: "o1 = execStep w o0" using snoc.prems by (simp add: o0_def)
  have ok: "execOk o1" "exLimit o1 = limit" using IH o1 by simp_all
  have tot: "int (length (streamOf True ws) + length (streamOf False ws)) = int (length (concat (map snd ws)))"
    by (simp only: total_streams)
  show ?case
  proof (cases "exTruncated o0")
    case True
    then have "o1 = o0" using o1 by (simp add: execWrite_def)
    with True IH ok show ?thesis by (auto simp: streamOf_snoc)
  next
    case False
    with IH ok o1 tot assms(1) show ?thesis
      by (cases w) (auto simp: execWrite_def execAppend_def execOk_def Let_def streamOf_snoc
          split: if_splits)
  qed
qed

text \<open>
  However stdout and stderr writes interleave, an exec keeps at most the limit over both
  streams together. When everything fits, both streams are complete; otherwise the exec is
  cancelled, the limit is used up, and each stream is a prefix of what was written to it.
\<close>

lemma exec_output_shared_limit:
  assumes "0 < limit" and "o1 = fold execStep ws (newExecOutput limit)"
  shows "execRetained o1 \<le> limit
    \<and> (int (length (concat (map snd ws))) \<le> limit \<longrightarrow>
         exStdout o1 = streamOf True ws \<and> exStderr o1 = streamOf False ws \<and> \<not> exTruncated o1)
    \<and> (limit < int (length (concat (map snd ws))) \<longrightarrow>
         exTruncated o1 \<and> exCancelled o1 \<and> execRetained o1 = limit
         \<and> (\<exists>x y. streamOf True ws = exStdout o1 @ x \<and> streamOf False ws = exStderr o1 @ y))"
proof -
  note r = exec_run [OF assms]
  have "execRetained o1 \<le> limit"
    unfolding assms(2) by (rule exec.fold_retained) (use assms(1) in \<open>auto simp: newExecOutput_def execOk_def\<close>)
  moreover have "int (length (concat (map snd ws))) \<le> limit \<longleftrightarrow> \<not> exTruncated o1"
    using r assms(1) total_streams [of ws] calculation by (auto split: if_splits)
  ultimately show ?thesis using r by (auto simp: execOk_def split: if_splits)
qed

section \<open>Reading a stream to its end\<close>

text \<open>\<open>io.ReadAll\<close>, and \<open>io.ReadAll\<close> behind \<open>io.LimitReader\<close>: the stream is asked for no byte beyond the limit.\<close>

definition readAllStream :: "event list \<Rightarrow> ioErr + string" where
  "readAllStream es = (if outcome es = EOF then Inr (content es) else Inl (outcome es))"

fun readAllLimited :: "nat \<Rightarrow> event list \<Rightarrow> ioErr + string" where
  "readAllLimited n [] = Inr []"
| "readAllLimited n ((d, e) # es) =
     (if n = 0 then Inr []
      else if n < length d then Inr (take n d)
      else (case e of
          Some EOF \<Rightarrow> Inr d
        | Some err \<Rightarrow> Inl err
        | None \<Rightarrow> map_sum id (\<lambda>rest. d @ rest) (readAllLimited (n - length d) es)))"

lemma readAllLimited_prefix:
  "readAllLimited n es = Inr d \<Longrightarrow> d = take n (content es)"
proof (induction n es arbitrary: d rule: readAllLimited.induct)
  case (2 n x e es)
  show ?case
  proof (cases e)
    case None
    then show ?thesis using 2 by (auto split: if_splits simp: map_sum_def split: sum.splits)
  next
    case (Some err)
    then show ?thesis using 2 by (cases err) (auto split: if_splits)
  qed
qed simp

end
