(* ===== verification/RBAC_Metadata.thy ===== *)
theory RBAC_Metadata
  imports Go_Prelude
begin

text \<open>
  \<open>pkg/api/rbac.go\<close>: the RBAC declaration that a tool, prompt, resource or resource template
  publishes in its \<open>_meta\<close>. The Go structs encode tagged unions by optional pointers and
  \<open>Validate\<close> rejects every value that is not the encoding of one. The tagged unions are the
  abstract specification here, and the refinement theorem says that \<open>Validate\<close> accepts
  exactly their encodings.
\<close>

section \<open>Data\<close>

definition RBACMetadataKey :: string where
  "RBACMetadataKey = ''io.kubernetes-mcp-server/rbac''"

definition RBACVersionV1Alpha1 :: string where
  "RBACVersionV1Alpha1 = ''v1alpha1''"

record rbacResourceTarget =
  rtAPIGroup :: string
  rtResource :: string
  rtSubresource :: string

record rbacGVKTarget =
  gtAPIVersionArgument :: string
  gtKindArgument :: string
  gtSubresource :: string

record rbacManifestTarget =
  mtArgument :: string

record rbacTarget =
  tResource :: "rbacResourceTarget option"
  tGVK :: "rbacGVKTarget option"
  tManifest :: "rbacManifestTarget option"

record rbacNamespace =
  nsName :: string
  nsArgument :: string
  nsAllNamespaces :: bool

record rbacResourceName =
  rnName :: string
  rnArgument :: string

record rbacRequirement =
  rqVerbs :: "string list"
  rqTarget :: rbacTarget
  rqNamespace :: "rbacNamespace option"
  rqResourceName :: "rbacResourceName option"

record noRBAC =
  noReason :: string

record boundedRBAC =
  bRequirements :: "rbacRequirement list"

record unboundedRBAC =
  unReason :: string

record rbacMetadata =
  rmVersion :: string
  rmNone :: "noRBAC option"
  rmBounded :: "boundedRBAC option"
  rmUnbounded :: "unboundedRBAC option"

section \<open>Constructors\<close>

definition RBACNone :: rbacMetadata where
  "RBACNone =
     \<lparr>rmVersion = RBACVersionV1Alpha1, rmNone = Some \<lparr>noReason = []\<rparr>, rmBounded = None, rmUnbounded = None\<rparr>"

definition RBACBounded :: "rbacRequirement list \<Rightarrow> rbacMetadata" where
  "RBACBounded requirements =
     \<lparr>rmVersion = RBACVersionV1Alpha1, rmNone = None,
      rmBounded = Some \<lparr>bRequirements = requirements\<rparr>, rmUnbounded = None\<rparr>"

definition RBACUnbounded :: "string \<Rightarrow> rbacMetadata" where
  "RBACUnbounded reason =
     \<lparr>rmVersion = RBACVersionV1Alpha1, rmNone = None, rmBounded = None,
      rmUnbounded = Some \<lparr>unReason = reason\<rparr>\<rparr>"

section \<open>Validation\<close>

datatype rbacErr =
    MetadataNil | UnsupportedVersion string | NotOneForm | ReasonMissing
  | NoRequirements | RequirementErr nat rbacErr
  | NoVerbs | EmptyVerb | NotOneTarget | EmptyManifestArgument | EmptyResource
  | EmptyAPIVersionArgument | EmptyKindArgument | NotOneNamespace | NotOneResourceName

text \<open>\<open>declared\<close> is the counter that every form check increments once per pointer that is set.\<close>

definition declared :: "bool list \<Rightarrow> nat" where
  "declared forms = length (filter id forms)"

definition validateResourceTarget :: "rbacResourceTarget \<Rightarrow> rbacErr option" where
  "validateResourceTarget t = (if rtResource t = [] then Some EmptyResource else None)"

definition validateGVKTarget :: "rbacGVKTarget \<Rightarrow> rbacErr option" where
  "validateGVKTarget t =
     (if gtAPIVersionArgument t = [] then Some EmptyAPIVersionArgument
      else if gtKindArgument t = [] then Some EmptyKindArgument
      else None)"

definition validateTarget :: "rbacTarget \<Rightarrow> rbacErr option" where
  "validateTarget t =
     (if declared [tResource t \<noteq> None, tGVK t \<noteq> None, tManifest t \<noteq> None] \<noteq> 1 then Some NotOneTarget
      else (case tResource t of
          Some r \<Rightarrow> validateResourceTarget r
        | None \<Rightarrow> (case tGVK t of
              Some g \<Rightarrow> validateGVKTarget g
            | None \<Rightarrow>
                if mtArgument (the (tManifest t)) = [] then Some EmptyManifestArgument else None)))"

definition validateNamespace :: "rbacNamespace \<Rightarrow> rbacErr option" where
  "validateNamespace n =
     (if declared [nsName n \<noteq> [], nsArgument n \<noteq> [], nsAllNamespaces n] \<noteq> 1
      then Some NotOneNamespace else None)"

definition validateResourceName :: "rbacResourceName \<Rightarrow> rbacErr option" where
  "validateResourceName n =
     (if (rnName n = []) = (rnArgument n = []) then Some NotOneResourceName else None)"

definition validateRequirement :: "rbacRequirement \<Rightarrow> rbacErr option" where
  "validateRequirement r =
     (if rqVerbs r = [] then Some NoVerbs
      else if [] \<in> set (rqVerbs r) then Some EmptyVerb
      else (case validateTarget (rqTarget r) of
          Some e \<Rightarrow> Some e
        | None \<Rightarrow>
            (case (case rqNamespace r of Some n \<Rightarrow> validateNamespace n | None \<Rightarrow> None) of
               Some e \<Rightarrow> Some e
             | None \<Rightarrow>
                 (case rqResourceName r of Some n \<Rightarrow> validateResourceName n | None \<Rightarrow> None))))"

fun requirementLoop :: "nat \<Rightarrow> rbacRequirement list \<Rightarrow> rbacErr option" where
  "requirementLoop i [] = None"
| "requirementLoop i (r # rs) =
     (case validateRequirement r of
        Some e \<Rightarrow> Some (RequirementErr i e)
      | None \<Rightarrow> requirementLoop (Suc i) rs)"

definition validateBounded :: "boundedRBAC \<Rightarrow> rbacErr option" where
  "validateBounded b =
     (if bRequirements b = [] then Some NoRequirements else requirementLoop 0 (bRequirements b))"

definition rbacValidate :: "rbacMetadata option \<Rightarrow> rbacErr option" where
  "rbacValidate ro =
     (case ro of None \<Rightarrow> Some MetadataNil
      | Some r \<Rightarrow>
          if rmVersion r \<noteq> RBACVersionV1Alpha1 then Some (UnsupportedVersion (rmVersion r))
          else if declared [rmNone r \<noteq> None, rmBounded r \<noteq> None, rmUnbounded r \<noteq> None] \<noteq> 1
          then Some NotOneForm
          else (case rmBounded r of
              Some b \<Rightarrow> validateBounded b
            | None \<Rightarrow>
                (case rmUnbounded r of
                   Some u \<Rightarrow> if unReason u = [] then Some ReasonMissing else None
                 | None \<Rightarrow> None)))"

section \<open>The specification: tagged unions\<close>

datatype targetSpec =
    OnResource string string string
  | OnGVK string string string
  | OnManifest string

datatype scopeSpec = FixedNamespace string | NamespaceArgument string | AllNamespaces

datatype nameSpec = FixedName string | NameArgument string

record requirementSpec =
  sVerbs :: "string list"
  sTarget :: targetSpec
  sScope :: "scopeSpec option"
  sName :: "nameSpec option"

datatype rbacSpec = NoAccess string | BoundedAccess "requirementSpec list" | UnboundedAccess string

fun wfTarget :: "targetSpec \<Rightarrow> bool" where
  "wfTarget (OnResource g r s) = (r \<noteq> [])"
| "wfTarget (OnGVK v k s) = (v \<noteq> [] \<and> k \<noteq> [])"
| "wfTarget (OnManifest a) = (a \<noteq> [])"

fun wfScope :: "scopeSpec \<Rightarrow> bool" where
  "wfScope (FixedNamespace n) = (n \<noteq> [])"
| "wfScope (NamespaceArgument a) = (a \<noteq> [])"
| "wfScope AllNamespaces = True"

fun wfName :: "nameSpec \<Rightarrow> bool" where
  "wfName (FixedName n) = (n \<noteq> [])"
| "wfName (NameArgument a) = (a \<noteq> [])"

definition wfRequirement :: "requirementSpec \<Rightarrow> bool" where
  "wfRequirement s \<longleftrightarrow> sVerbs s \<noteq> [] \<and> [] \<notin> set (sVerbs s) \<and> wfTarget (sTarget s)
     \<and> pred_option wfScope (sScope s) \<and> pred_option wfName (sName s)"

fun wfSpec :: "rbacSpec \<Rightarrow> bool" where
  "wfSpec (NoAccess _) = True"
| "wfSpec (BoundedAccess rs) = (rs \<noteq> [] \<and> list_all wfRequirement rs)"
| "wfSpec (UnboundedAccess reason) = (reason \<noteq> [])"

fun encTarget :: "targetSpec \<Rightarrow> rbacTarget" where
  "encTarget (OnResource g r s) =
     \<lparr>tResource = Some \<lparr>rtAPIGroup = g, rtResource = r, rtSubresource = s\<rparr>, tGVK = None, tManifest = None\<rparr>"
| "encTarget (OnGVK v k s) =
     \<lparr>tResource = None, tGVK = Some \<lparr>gtAPIVersionArgument = v, gtKindArgument = k, gtSubresource = s\<rparr>,
      tManifest = None\<rparr>"
| "encTarget (OnManifest a) = \<lparr>tResource = None, tGVK = None, tManifest = Some \<lparr>mtArgument = a\<rparr>\<rparr>"

fun encScope :: "scopeSpec \<Rightarrow> rbacNamespace" where
  "encScope (FixedNamespace n) = \<lparr>nsName = n, nsArgument = [], nsAllNamespaces = False\<rparr>"
| "encScope (NamespaceArgument a) = \<lparr>nsName = [], nsArgument = a, nsAllNamespaces = False\<rparr>"
| "encScope AllNamespaces = \<lparr>nsName = [], nsArgument = [], nsAllNamespaces = True\<rparr>"

fun encName :: "nameSpec \<Rightarrow> rbacResourceName" where
  "encName (FixedName n) = \<lparr>rnName = n, rnArgument = []\<rparr>"
| "encName (NameArgument a) = \<lparr>rnName = [], rnArgument = a\<rparr>"

definition encRequirement :: "requirementSpec \<Rightarrow> rbacRequirement" where
  "encRequirement s =
     \<lparr>rqVerbs = sVerbs s, rqTarget = encTarget (sTarget s),
      rqNamespace = map_option encScope (sScope s), rqResourceName = map_option encName (sName s)\<rparr>"

fun encSpec :: "rbacSpec \<Rightarrow> rbacMetadata" where
  "encSpec (NoAccess reason) = RBACNone\<lparr>rmNone := Some \<lparr>noReason = reason\<rparr>\<rparr>"
| "encSpec (BoundedAccess rs) = RBACBounded (map encRequirement rs)"
| "encSpec (UnboundedAccess reason) = RBACUnbounded reason"

section \<open>Each validator accepts exactly the encodings\<close>

lemma declared_three: "declared [a, b, c] = Suc 0 \<longleftrightarrow> (a \<and> \<not> b \<and> \<not> c) \<or> (\<not> a \<and> b \<and> \<not> c) \<or> (\<not> a \<and> \<not> b \<and> c)"
  by (simp add: declared_def)

lemma validateTarget_iff: "validateTarget t = None \<longleftrightarrow> (\<exists>s. wfTarget s \<and> t = encTarget s)"
proof
  assume v: "validateTarget t = None"
  then consider r where "tResource t = Some r" "tGVK t = None" "tManifest t = None" "rtResource r \<noteq> []"
    | g where "tResource t = None" "tGVK t = Some g" "tManifest t = None"
        "gtAPIVersionArgument g \<noteq> []" "gtKindArgument g \<noteq> []"
    | m where "tResource t = None" "tGVK t = None" "tManifest t = Some m" "mtArgument m \<noteq> []"
    by (auto simp: validateTarget_def validateResourceTarget_def validateGVKTarget_def declared_three split: if_splits option.splits)
  then show "\<exists>s. wfTarget s \<and> t = encTarget s"
  proof cases
    case (1 r) then show ?thesis
      by (intro exI [of _ "OnResource (rtAPIGroup r) (rtResource r) (rtSubresource r)"]) simp
  next
    case (2 g) then show ?thesis
      by (intro exI [of _ "OnGVK (gtAPIVersionArgument g) (gtKindArgument g) (gtSubresource g)"]) simp
  next
    case (3 m) then show ?thesis by (intro exI [of _ "OnManifest (mtArgument m)"]) simp
  qed
next
  assume "\<exists>s. wfTarget s \<and> t = encTarget s"
  then obtain s where "wfTarget s" "t = encTarget s" by blast
  then show "validateTarget t = None"
    by (cases s) (auto simp: validateTarget_def declared_three validateResourceTarget_def validateGVKTarget_def)
qed

lemma validateNamespace_iff: "validateNamespace n = None \<longleftrightarrow> (\<exists>s. wfScope s \<and> n = encScope s)"
proof
  assume "validateNamespace n = None"
  then consider "nsName n \<noteq> []" "nsArgument n = []" "\<not> nsAllNamespaces n"
    | "nsName n = []" "nsArgument n \<noteq> []" "\<not> nsAllNamespaces n"
    | "nsName n = []" "nsArgument n = []" "nsAllNamespaces n"
    by (auto simp: validateNamespace_def declared_three split: if_splits)
  then show "\<exists>s. wfScope s \<and> n = encScope s"
  proof cases
    case 1 then show ?thesis by (intro exI [of _ "FixedNamespace (nsName n)"]) simp
  next
    case 2 then show ?thesis by (intro exI [of _ "NamespaceArgument (nsArgument n)"]) simp
  next
    case 3 then show ?thesis by (intro exI [of _ AllNamespaces]) simp
  qed
next
  assume "\<exists>s. wfScope s \<and> n = encScope s"
  then obtain s where "wfScope s" "n = encScope s" by blast
  then show "validateNamespace n = None"
    by (cases s) (auto simp: validateNamespace_def declared_three)
qed

lemma validateResourceName_iff: "validateResourceName n = None \<longleftrightarrow> (\<exists>s. wfName s \<and> n = encName s)"
proof
  assume "validateResourceName n = None"
  then have "rnName n \<noteq> [] \<and> rnArgument n = [] \<or> rnName n = [] \<and> rnArgument n \<noteq> []"
    by (auto simp: validateResourceName_def split: if_splits)
  then show "\<exists>s. wfName s \<and> n = encName s"
  proof
    assume "rnName n \<noteq> [] \<and> rnArgument n = []"
    then show ?thesis by (intro exI [of _ "FixedName (rnName n)"]) simp
  next
    assume "rnName n = [] \<and> rnArgument n \<noteq> []"
    then show ?thesis by (intro exI [of _ "NameArgument (rnArgument n)"]) simp
  qed
next
  assume "\<exists>s. wfName s \<and> n = encName s"
  then obtain s where "wfName s" "n = encName s" by blast
  then show "validateResourceName n = None" by (cases s) (auto simp: validateResourceName_def)
qed

lemma option_image:
  "pred_option (\<lambda>x. \<exists>s. P s \<and> x = f s) xo \<longleftrightarrow> (\<exists>so. pred_option P so \<and> xo = map_option f so)"
proof (cases xo)
  case (Some x)
  show ?thesis
  proof
    assume "pred_option (\<lambda>x. \<exists>s. P s \<and> x = f s) xo"
    with Some obtain s where "P s" "x = f s" by auto
    with Some show "\<exists>so. pred_option P so \<and> xo = map_option f so" by (intro exI [of _ "Some s"]) simp
  next
    assume "\<exists>so. pred_option P so \<and> xo = map_option f so"
    then obtain so where "pred_option P so" "xo = map_option f so" by blast
    with Some show "pred_option (\<lambda>x. \<exists>s. P s \<and> x = f s) xo" by (cases so) auto
  qed
qed (auto intro: exI [of _ None])

lemma list_image:
  "list_all (\<lambda>x. \<exists>s. P s \<and> x = f s) xs \<longleftrightarrow> (\<exists>ss. list_all P ss \<and> xs = map f ss)"
proof (induction xs)
  case (Cons x xs)
  show ?case
  proof
    assume "list_all (\<lambda>x. \<exists>s. P s \<and> x = f s) (x # xs)"
    with Cons obtain s ss where "P s" "x = f s" "list_all P ss" "xs = map f ss" by auto
    then show "\<exists>ss. list_all P ss \<and> x # xs = map f ss" by (intro exI [of _ "s # ss"]) simp
  qed (use Cons in \<open>auto simp: Cons_eq_map_conv\<close>)
qed simp

lemma validateRequirement_iff:
  "validateRequirement r = None \<longleftrightarrow> (\<exists>s. wfRequirement s \<and> r = encRequirement s)"
proof -
  have "validateRequirement r = None \<longleftrightarrow> rqVerbs r \<noteq> [] \<and> [] \<notin> set (rqVerbs r)
      \<and> validateTarget (rqTarget r) = None
      \<and> pred_option (\<lambda>n. validateNamespace n = None) (rqNamespace r)
      \<and> pred_option (\<lambda>n. validateResourceName n = None) (rqResourceName r)"
    by (auto simp: validateRequirement_def split: option.splits)
  also have "\<dots> \<longleftrightarrow> rqVerbs r \<noteq> [] \<and> [] \<notin> set (rqVerbs r)
      \<and> (\<exists>s. wfTarget s \<and> rqTarget r = encTarget s)
      \<and> (\<exists>so. pred_option wfScope so \<and> rqNamespace r = map_option encScope so)
      \<and> (\<exists>no. pred_option wfName no \<and> rqResourceName r = map_option encName no)"
    by (simp only: validateTarget_iff validateNamespace_iff validateResourceName_iff option_image)
  also have "\<dots> \<longleftrightarrow> (\<exists>s. wfRequirement s \<and> r = encRequirement s)"
  proof
    assume a: "rqVerbs r \<noteq> [] \<and> [] \<notin> set (rqVerbs r)
      \<and> (\<exists>s. wfTarget s \<and> rqTarget r = encTarget s)
      \<and> (\<exists>so. pred_option wfScope so \<and> rqNamespace r = map_option encScope so)
      \<and> (\<exists>no. pred_option wfName no \<and> rqResourceName r = map_option encName no)"
    then obtain t so no where "wfTarget t" "rqTarget r = encTarget t"
      "pred_option wfScope so" "rqNamespace r = map_option encScope so"
      "pred_option wfName no" "rqResourceName r = map_option encName no" by blast
    with a show "\<exists>s. wfRequirement s \<and> r = encRequirement s"
      by (intro exI [of _ "\<lparr>sVerbs = rqVerbs r, sTarget = t, sScope = so, sName = no\<rparr>"])
        (simp add: wfRequirement_def encRequirement_def)
  qed (auto simp: wfRequirement_def encRequirement_def)
  finally show ?thesis .
qed

lemma requirementLoop_None: "requirementLoop i rs = None \<longleftrightarrow> list_all (\<lambda>r. validateRequirement r = None) rs"
  by (induction i rs rule: requirementLoop.induct) (auto split: option.splits)

lemma requirementLoop_Some:
  "requirementLoop i rs = Some (RequirementErr k e) \<longleftrightarrow>
    (i \<le> k \<and> k - i < length rs \<and> validateRequirement (rs ! (k - i)) = Some e
     \<and> list_all (\<lambda>r. validateRequirement r = None) (take (k - i) rs))"
proof (induction i rs rule: requirementLoop.induct)
  case (2 i r rs)
  show ?case
  proof (cases "validateRequirement r")
    case None
    then show ?thesis
      using 2 by (cases "k - i") (auto simp: Suc_le_eq diff_Suc split: nat.splits)
  next
    case (Some x)
    then show ?thesis by (cases "k - i") auto
  qed
qed simp

lemma validateBounded_iff:
  "validateBounded b = None \<longleftrightarrow> (\<exists>ss. ss \<noteq> [] \<and> list_all wfRequirement ss \<and> bRequirements b = map encRequirement ss)"
  using list_image [of wfRequirement encRequirement "bRequirements b"]
  by (auto simp: validateBounded_def requirementLoop_None validateRequirement_iff)

text \<open>
  \<open>Validate\<close> accepts a declaration exactly when it is the encoding of a well-formed tagged
  union: one of no access, a non-empty list of requirements (each with verbs, one target form,
  and at most one namespace scope and resource name), or an unbounded declaration with a reason.
\<close>

lemma rbac_validate_refines_spec:
  "rbacValidate (Some m) = None \<longleftrightarrow> (\<exists>s. wfSpec s \<and> m = encSpec s)"
proof
  assume v: "rbacValidate (Some m) = None"
  then consider n where "rmNone m = Some n" "rmBounded m = None" "rmUnbounded m = None"
    | b where "rmNone m = None" "rmBounded m = Some b" "rmUnbounded m = None" "validateBounded b = None"
    | u where "rmNone m = None" "rmBounded m = None" "rmUnbounded m = Some u" "unReason u \<noteq> []"
    by (auto simp: rbacValidate_def declared_three split: if_splits option.splits)
  moreover have "rmVersion m = RBACVersionV1Alpha1"
    using v by (auto simp: rbacValidate_def split: if_splits)
  ultimately show "\<exists>s. wfSpec s \<and> m = encSpec s"
  proof cases
    case (1 n) with \<open>rmVersion m = _\<close> show ?thesis
      by (intro exI [of _ "NoAccess (noReason n)"]) (simp add: RBACNone_def)
  next
    case (2 b)
    then obtain ss where "ss \<noteq> []" "list_all wfRequirement ss" "bRequirements b = map encRequirement ss"
      by (auto simp: validateBounded_iff)
    with 2 \<open>rmVersion m = _\<close> show ?thesis
      by (intro exI [of _ "BoundedAccess ss"]) (simp add: RBACBounded_def)
  next
    case (3 u) with \<open>rmVersion m = _\<close> show ?thesis
      by (intro exI [of _ "UnboundedAccess (unReason u)"]) (simp add: RBACUnbounded_def)
  qed
next
  assume "\<exists>s. wfSpec s \<and> m = encSpec s"
  then obtain s where s: "wfSpec s" "m = encSpec s" by blast
  then show "rbacValidate (Some m) = None"
    by (cases s) (auto simp: rbacValidate_def RBACNone_def RBACBounded_def RBACUnbounded_def
        declared_three validateBounded_iff)
qed

text \<open>
  A bounded declaration is rejected with the index of its first invalid requirement and that
  requirement's own error.
\<close>

lemma rbac_reports_first_requirement:
  "rbacValidate (Some (RBACBounded rs)) = Some (RequirementErr k e) \<longleftrightarrow>
    (k < length rs \<and> validateRequirement (rs ! k) = Some e
     \<and> list_all (\<lambda>r. validateRequirement r = None) (take k rs))"
  using requirementLoop_Some [of 0 rs k e]
  by (auto simp: rbacValidate_def RBACBounded_def declared_three validateBounded_def)

end
