(* ===== verification/Result_Limit.thy ===== *)
theory Result_Limit
  imports Result_Budget
begin

text \<open>
  \<open>pkg/mcp/resultlimit.go\<close>: the last check before a result leaves the server, with the result
  types of \<open>pkg/api/toolsets.go\<close> that it measures. A structured value is opaque (\<open>'v\<close>) apart
  from the kinds that \<open>ensureStructuredObject\<close> tells apart, and \<open>json.Marshal\<close> of such a value
  is the parameter \<open>marshal\<close>.
\<close>

section \<open>Results\<close>

record toolContent =
  tcData :: string
  tcMIMEType :: string

definition IsText :: "toolContent option \<Rightarrow> bool" where
  "IsText c = (case c of None \<Rightarrow> False
     | Some c \<Rightarrow> tcMIMEType c = [] \<or> hasPrefix (tcMIMEType c) ''text/'')"

definition ContentText :: "toolContent option \<Rightarrow> string" where
  "ContentText c = (case c of None \<Rightarrow> [] | Some c \<Rightarrow> tcData c)"

text \<open>
  An \<open>any\<close>: a nil interface, a slice (nil or not), an array, or a value of another kind.
\<close>

datatype 'v structured = NilAny | SliceAny "'v option" | ArrayAny 'v | OtherAny 'v

datatype 'v prepared = ItemsObject 'v | AsIs 'v

text \<open>The caller has ruled out the nil interface.\<close>

definition ensureStructuredObject :: "'v structured \<Rightarrow> 'v prepared option" where
  "ensureStructuredObject v =
     (case v of
        SliceAny None \<Rightarrow> None
      | SliceAny (Some xs) \<Rightarrow> Some (ItemsObject xs)
      | ArrayAny xs \<Rightarrow> Some (ItemsObject xs)
      | OtherAny x \<Rightarrow> Some (AsIs x)
      | NilAny \<Rightarrow> None)"

record 'v toolCallResult =
  trContent :: string
  trStructured :: "'v structured"
  trBlocks :: "toolContent option list"
  trError :: "string option"

definition NewToolCallResultFull :: "string \<Rightarrow> 'v structured \<Rightarrow> string option \<Rightarrow> 'v toolCallResult" where
  "NewToolCallResultFull t structured err =
     \<lparr>trContent = t, trStructured = structured, trBlocks = [], trError = err\<rparr>"

definition NewToolCallResult :: "string \<Rightarrow> string option \<Rightarrow> 'v toolCallResult" where
  "NewToolCallResult content err = NewToolCallResultFull content NilAny err"

definition NewToolCallResultContentBlocks :: "toolContent option list \<Rightarrow> 'v toolCallResult" where
  "NewToolCallResultContentBlocks blocks =
     \<lparr>trContent = [], trStructured = NilAny, trBlocks = blocks, trError = None\<rparr>"

text \<open>Here the value itself is marshalled, not its wrapped form.\<close>

definition NewToolCallResultStructured ::
    "('v structured \<Rightarrow> string + string) \<Rightarrow> 'v structured \<Rightarrow> string option \<Rightarrow> 'v toolCallResult" where
  "NewToolCallResultStructured marshalAny structured err =
     (let content = (case structured of NilAny \<Rightarrow> []
            | _ \<Rightarrow> (case marshalAny structured of Inr b \<Rightarrow> b | Inl _ \<Rightarrow> []))
      in NewToolCallResultFull content structured err)"

record resourceContent =
  rcMIMEType :: string
  rcText :: string
  rcBlob :: string

record promptMessage =
  pmRole :: string
  pmType :: string
  pmText :: string

section \<open>The check\<close>

datatype limitErr = ExceedsMaxResultBytes int int | StructuredContentErr string

text \<open>\<open>int64\<close> addition wraps.\<close>

definition overResultLimit :: "int \<Rightarrow> nat \<Rightarrow> limitErr option" where
  "overResultLimit limit sz =
     (if int sz \<le> wrap64 (limit + int (length ResultTruncationNotice)) then None
      else Some (ExceedsMaxResultBytes (int sz) limit))"

definition blocksSize :: "toolContent option list \<Rightarrow> nat" where
  "blocksSize blocks = sum_list (map (\<lambda>b. case b of None \<Rightarrow> 0 | Some c \<Rightarrow> length (tcData c)) blocks)"

definition toolResultSize ::
    "('v prepared \<Rightarrow> string + string) \<Rightarrow> 'v toolCallResult \<Rightarrow> limitErr + nat" where
  "toolResultSize marshal result =
     (let sz = (if trBlocks result \<noteq> [] then blocksSize (trBlocks result) else length (trContent result))
      in (case trStructured result of
            NilAny \<Rightarrow> Inr sz
          | structured \<Rightarrow>
              (case ensureStructuredObject structured of
                 None \<Rightarrow> Inr sz
               | Some prepared \<Rightarrow>
                   (case marshal prepared of
                      Inl err \<Rightarrow> Inl (StructuredContentErr err)
                    | Inr raw \<Rightarrow> Inr (sz + length raw)))))"

definition rejectOversizedToolResult ::
    "('v prepared \<Rightarrow> string + string) \<Rightarrow> int \<Rightarrow> 'v toolCallResult option \<Rightarrow> limitErr option" where
  "rejectOversizedToolResult marshal limit ro =
     (if limit \<le> 0 \<or> ro = None then None
      else
        let result = the ro
        in (case trError result of
              Some e \<Rightarrow> overResultLimit limit (length e)
            | None \<Rightarrow>
                (case toolResultSize marshal result of
                   Inl err \<Rightarrow> Some err
                 | Inr sz \<Rightarrow> overResultLimit limit sz)))"

definition toolResultWithinLimit ::
    "('v prepared \<Rightarrow> string + string) \<Rightarrow> int \<Rightarrow> string \<Rightarrow> 'v structured \<Rightarrow> limitErr option" where
  "toolResultWithinLimit marshal limit content structured =
     rejectOversizedToolResult marshal limit
       (Some \<lparr>trContent = content, trStructured = structured, trBlocks = [], trError = None\<rparr>)"

definition promptWithinLimit :: "int \<Rightarrow> promptMessage list \<Rightarrow> limitErr option" where
  "promptWithinLimit limit messages =
     (if limit \<le> 0 then None
      else overResultLimit limit (sum_list (map (\<lambda>msg. length (pmText msg)) messages)))"

definition resourceWithinLimit :: "int \<Rightarrow> resourceContent option \<Rightarrow> limitErr option" where
  "resourceWithinLimit limit co =
     (if limit \<le> 0 \<or> co = None then None
      else
        let content = the co;
            sz = (if rcText content \<noteq> [] then length (rcText content) else length (rcBlob content))
        in overResultLimit limit sz)"

text \<open>The server's live configuration: no server, no configuration stored, or its limit.\<close>

definition withResultBudget :: "int option option \<Rightarrow> budgetCtx \<Rightarrow> budgetCtx \<times> int" where
  "withResultBudget server ctx =
     (case server of
        None \<Rightarrow> (ctx, 0)
      | Some None \<Rightarrow> (ctx, 0)
      | Some (Some limit) \<Rightarrow> (WithResultBudget ctx limit, limit))"

section \<open>What the check accepts\<close>

text \<open>The largest limit for which the sum with the notice's length stays an \<open>int64\<close>.\<close>

definition maxSafeLimit :: int where
  "maxSafeLimit = 2 ^ 63 - 1 - int (length ResultTruncationNotice)"

lemma overResultLimit_safe:
  assumes "0 \<le> limit" and "limit \<le> maxSafeLimit"
  shows "overResultLimit limit sz = None \<longleftrightarrow> int sz \<le> limit + int (length ResultTruncationNotice)"
proof -
  have "is_int64 (limit + 31)" using assms by (simp add: is_int64_def maxSafeLimit_def)
  then show ?thesis by (simp add: overResultLimit_def)
qed

lemma overResultLimit_overflow:
  assumes "maxSafeLimit < limit" and "limit < 2 ^ 63"
  shows "overResultLimit limit sz = Some (ExceedsMaxResultBytes (int sz) limit)"
proof -
  have "wrap64 (limit + 31) = limit + 31 - 2 ^ 64"
    using assms by (intro wrap64_over) (simp_all add: maxSafeLimit_def)
  moreover have "limit + 31 - 2 ^ 64 < (0 :: int)" using assms(2) by simp
  ultimately show ?thesis by (simp add: overResultLimit_def)
qed

text \<open>
  With a limit close to the largest 64-bit value, the sum of the limit and the notice's
  length overflows, and the server refuses every tool result, the empty one included. The
  option's validation accepts such a limit.
\<close>

lemma huge_limit_rejects_everything:
  assumes "maxSafeLimit < limit" and "limit < 2 ^ 63"
  shows "toolResultWithinLimit marshal limit content (NilAny :: 'v structured)
    = Some (ExceedsMaxResultBytes (int (length content)) limit)"
  using assms overResultLimit_overflow [OF assms]
  by (simp add: toolResultWithinLimit_def rejectOversizedToolResult_def toolResultSize_def maxSafeLimit_def)

text \<open>
  What a budgeted builder produced is never refused afterwards: for every sequence of
  writes under the limit of the call's context, the text passes the final check of a tool
  result, of a prompt and of a resource.
\<close>

lemma budgeted_text_passes_the_check:
  assumes "limit \<le> maxSafeLimit"
    and "t = bBuf (writeAll ws (NewBuilderWithBudget (ResultLimit (WithResultBudget None limit))))"
  shows "toolResultWithinLimit marshal limit t (NilAny :: 'v structured) = None
    \<and> promptWithinLimit limit [\<lparr>pmRole = role, pmType = ty, pmText = t\<rparr>] = None
    \<and> resourceWithinLimit limit (Some \<lparr>rcMIMEType = m, rcText = t, rcBlob = []\<rparr>) = None"
proof (cases "0 < limit")
  case True
  then have l: "ResultLimit (WithResultBudget None limit) = limit"
    by (simp add: WithResultBudget_def ResultLimit_def)
  have "Len (writeAll ws (NewBuilderWithBudget limit)) \<le> limit + int (length ResultTruncationNotice)"
    unfolding writeAll_def
    by (rule budget.fold_retained) (use True in \<open>simp_all add: builderBound_def\<close>)
  then have "int (length t) \<le> limit + int (length ResultTruncationNotice)"
    using assms(2) l by (simp add: Len_def)
  then show ?thesis
    using True assms(1) overResultLimit_safe [of limit "length t"] overResultLimit_safe [of limit 0]
    by (auto simp: toolResultWithinLimit_def rejectOversizedToolResult_def toolResultSize_def
        promptWithinLimit_def resourceWithinLimit_def Let_def)
next
  case False
  then show ?thesis
    by (simp add: toolResultWithinLimit_def rejectOversizedToolResult_def promptWithinLimit_def
        resourceWithinLimit_def)
qed

end
