(* ===== verification/Confirmation.thy ===== *)
theory Confirmation
  imports Go_Prelude
begin

text \<open>
  \<open>pkg/confirmation\<close>, the rules and the deny list of \<open>pkg/config/schema.go\<close>, their validators
  in \<open>pkg/config/validate.go\<close>, and the elicitors of \<open>pkg/mcp/elicit.go\<close> and
  \<open>pkg/kubernetes/confirmation_validator.go\<close>. The client's answer to an elicitation is a
  parameter. A check returns, beside its error, the messages it showed to the user.
\<close>

section \<open>Rules\<close>

record confirmationRule =
  crTool :: string
  crDestructive :: "bool option"
  crVerb :: string
  crKind :: string
  crGroup :: string
  crVersion :: string
  crName :: string
  crNamespace :: string
  crMessage :: string

definition IsToolLevel :: "confirmationRule \<Rightarrow> bool" where
  "IsToolLevel r \<longleftrightarrow> crTool r \<noteq> [] \<or> crDestructive r \<noteq> None"

definition IsKubeLevel :: "confirmationRule \<Rightarrow> bool" where
  "IsKubeLevel r \<longleftrightarrow> crVerb r \<noteq> [] \<or> crKind r \<noteq> [] \<or> crGroup r \<noteq> [] \<or> crVersion r \<noteq> []
     \<or> crName r \<noteq> [] \<or> crNamespace r \<noteq> []"

datatype ruleErr = MixesLevels string | NoLevel string

definition ruleValidate :: "confirmationRule \<Rightarrow> ruleErr option" where
  "ruleValidate r =
     (if IsToolLevel r \<and> IsKubeLevel r then Some (MixesLevels (crMessage r))
      else if \<not> IsToolLevel r \<and> \<not> IsKubeLevel r then Some (NoLevel (crMessage r))
      else None)"

text \<open>The indexed errors that \<open>validateConfirmationRules\<close> joins; none is nil.\<close>

fun ruleErrors :: "nat \<Rightarrow> confirmationRule list \<Rightarrow> (nat \<times> ruleErr) list" where
  "ruleErrors i [] = []"
| "ruleErrors i (r # rs) =
     (case ruleValidate r of
        Some e \<Rightarrow> (i, e) # ruleErrors (Suc i) rs
      | None \<Rightarrow> ruleErrors (Suc i) rs)"

definition validateConfirmationRules :: "confirmationRule list \<Rightarrow> (nat \<times> ruleErr) list option" where
  "validateConfirmationRules rules =
     (let ruleErrors = ruleErrors 0 rules in if ruleErrors \<noteq> [] then Some ruleErrors else None)"

definition validateConfirmationFallback :: "string \<Rightarrow> string option" where
  "validateConfirmationFallback fb =
     (if fb \<noteq> [] \<and> fb \<noteq> ''allow'' \<and> fb \<noteq> ''deny'' then Some fb else None)"

section \<open>Matching\<close>

fun MatchToolLevelRules ::
    "confirmationRule list \<Rightarrow> string \<Rightarrow> bool option \<Rightarrow> confirmationRule list" where
  "MatchToolLevelRules [] toolName destructiveHint = []"
| "MatchToolLevelRules (r # rs) toolName destructiveHint =
     (let rest = MatchToolLevelRules rs toolName destructiveHint
      in if \<not> IsToolLevel r then rest
         else if crTool r \<noteq> [] \<and> crTool r \<noteq> toolName then rest
         else if crDestructive r \<noteq> None
                \<and> (destructiveHint = None \<or> the (crDestructive r) \<noteq> the destructiveHint) then rest
         else r # rest)"

fun MatchKubeLevelRules ::
    "confirmationRule list \<Rightarrow> string \<Rightarrow> string \<Rightarrow> string \<Rightarrow> string \<Rightarrow> string \<Rightarrow> string \<Rightarrow>
     confirmationRule list" where
  "MatchKubeLevelRules [] verb kind grp version name namespace = []"
| "MatchKubeLevelRules (r # rs) verb kind grp version name namespace =
     (let rest = MatchKubeLevelRules rs verb kind grp version name namespace
      in if \<not> IsKubeLevel r then rest
         else if crVerb r \<noteq> [] \<and> crVerb r \<noteq> verb then rest
         else if crKind r \<noteq> [] \<and> crKind r \<noteq> kind then rest
         else if crGroup r \<noteq> [] \<and> crGroup r \<noteq> grp then rest
         else if crVersion r \<noteq> [] \<and> crVersion r \<noteq> version then rest
         else if crName r \<noteq> [] \<and> crName r \<noteq> name then rest
         else if crNamespace r \<noteq> [] \<and> crNamespace r \<noteq> namespace then rest
         else r # rest)"

definition MergeMatchedRules :: "confirmationRule list \<Rightarrow> string \<Rightarrow> string \<times> string" where
  "MergeMatchedRules matched globalFallback =
     (if matched = [] then ([], globalFallback)
      else if length matched = 1 then (crMessage (hd matched), globalFallback)
      else (''Confirmation required:'' @ concat (map (\<lambda>r. nl # ''- '' @ crMessage r) matched),
            globalFallback))"

section \<open>Elicitation\<close>

datatype elicitErr = ElicitationNotSupported string | ElicitFailed string

text \<open>
  A session answers an elicitation with an error text or the user's action. The SDK has no
  typed error for a client without the feature, so the text is searched.
\<close>

type_synonym session = "string \<Rightarrow> string + string"

definition isElicitationNotSupportedError :: "string \<Rightarrow> bool" where
  "isElicitationNotSupportedError msg \<longleftrightarrow>
     containsSub msg ''does not support'' \<and> containsSub msg ''elicitation''"

definition sessionElicit :: "session option \<Rightarrow> string \<Rightarrow> elicitErr + string" where
  "sessionElicit so message =
     (case so of
        None \<Rightarrow> Inl (ElicitFailed ''no MCP session found in context'')
      | Some s \<Rightarrow>
          (case s message of
             Inl err \<Rightarrow>
               if containsSub err ''does not support'' \<and> containsSub err ''elicitation''
               then Inl (ElicitationNotSupported err)
               else Inl (ElicitFailed err)
           | Inr action \<Rightarrow> Inr action))"

definition contextElicit :: "session option \<Rightarrow> string \<Rightarrow> elicitErr + string" where
  "contextElicit so message =
     (case so of
        None \<Rightarrow> Inl (ElicitFailed ''no MCP session found in context'')
      | Some s \<Rightarrow>
          (case s message of
             Inl err \<Rightarrow>
               if isElicitationNotSupportedError err then Inl (ElicitationNotSupported err)
               else Inl (ElicitFailed err)
           | Inr action \<Rightarrow> Inr action))"

definition ElicitActionAccept :: string where
  "ElicitActionAccept = ''accept''"

datatype confirmErr = ConfirmationDenied | ElicitError elicitErr

definition CheckConfirmation ::
    "(string \<Rightarrow> elicitErr + string) \<Rightarrow> string \<Rightarrow> string \<Rightarrow> confirmErr option \<times> string list" where
  "CheckConfirmation elicitor message fallback =
     (case elicitor message of
        Inl (ElicitationNotSupported _) \<Rightarrow>
          (if fallback = ''deny'' then Some ConfirmationDenied else None, [message])
      | Inl e \<Rightarrow> (Some (ElicitError e), [message])
      | Inr action \<Rightarrow>
          (if action = ElicitActionAccept then None else Some ConfirmationDenied, [message]))"

definition CheckToolRules ::
    "confirmationRule list \<Rightarrow> string \<Rightarrow> (string \<Rightarrow> elicitErr + string) \<Rightarrow> string \<Rightarrow> bool option \<Rightarrow>
     confirmErr option \<times> string list" where
  "CheckToolRules rules fallback elicitor toolName destructiveHint =
     (let matched = MatchToolLevelRules rules toolName destructiveHint
      in if matched = [] then (None, [])
         else (case MergeMatchedRules matched fallback of
             (message, fb) \<Rightarrow> CheckConfirmation elicitor message fb))"

definition CheckKubeRules ::
    "confirmationRule list \<Rightarrow> string \<Rightarrow> (string \<Rightarrow> elicitErr + string) \<Rightarrow>
     string \<Rightarrow> string \<Rightarrow> string \<Rightarrow> string \<Rightarrow> string \<Rightarrow> string \<Rightarrow> confirmErr option \<times> string list" where
  "CheckKubeRules rules fallback elicitor verb kind grp version name namespace =
     (let matched = MatchKubeLevelRules rules verb kind grp version name namespace
      in if matched = [] then (None, [])
         else (case MergeMatchedRules matched fallback of
             (message, fb) \<Rightarrow> CheckConfirmation elicitor message fb))"

section \<open>The deny list\<close>

record groupVersionKind =
  gvkGroup :: string
  gvkVersion :: string
  gvkKind :: string

fun IsDeniedResource :: "string \<Rightarrow> string \<Rightarrow> groupVersionKind list \<Rightarrow> bool" where
  "IsDeniedResource apiVersion kind [] = False"
| "IsDeniedResource apiVersion kind (d # ds) =
     (let groupVersion = (if gvkGroup d \<noteq> [] then gvkGroup d @ ''/'' @ gvkVersion d else gvkVersion d)
      in if apiVersion \<noteq> groupVersion then IsDeniedResource apiVersion kind ds
         else if gvkKind d = [] \<or> gvkKind d = kind then True
         else IsDeniedResource apiVersion kind ds)"

section \<open>Matching is agreement on every field that is set\<close>

definition agrees :: "string \<Rightarrow> string \<Rightarrow> bool" where
  "agrees pat v \<longleftrightarrow> pat = [] \<or> pat = v"

definition toolMatch :: "string \<Rightarrow> bool option \<Rightarrow> confirmationRule \<Rightarrow> bool" where
  "toolMatch toolName hint r \<longleftrightarrow> IsToolLevel r \<and> agrees (crTool r) toolName
     \<and> (crDestructive r = None \<or> crDestructive r = hint)"

definition kubeMatch ::
    "string \<Rightarrow> string \<Rightarrow> string \<Rightarrow> string \<Rightarrow> string \<Rightarrow> string \<Rightarrow> confirmationRule \<Rightarrow> bool" where
  "kubeMatch verb kind grp version name namespace r \<longleftrightarrow> IsKubeLevel r
     \<and> agrees (crVerb r) verb \<and> agrees (crKind r) kind \<and> agrees (crGroup r) grp
     \<and> agrees (crVersion r) version \<and> agrees (crName r) name \<and> agrees (crNamespace r) namespace"

lemma MatchToolLevelRules_filter:
  "MatchToolLevelRules rules toolName hint = filter (toolMatch toolName hint) rules"
proof (induction rules)
  case (Cons r rules)
  have "crDestructive r \<noteq> None \<and> (hint = None \<or> the (crDestructive r) \<noteq> the hint)
      \<longleftrightarrow> \<not> (crDestructive r = None \<or> crDestructive r = hint)"
    by (cases hint; cases "crDestructive r") auto
  note d = this
  show ?case
    unfolding MatchToolLevelRules.simps d Cons by (auto simp: toolMatch_def [of _ _ r] agrees_def Let_def)
qed simp

lemma MatchKubeLevelRules_filter:
  "MatchKubeLevelRules rules verb kind grp version name namespace =
    filter (kubeMatch verb kind grp version name namespace) rules"
  by (induction rules) (auto simp: kubeMatch_def agrees_def Let_def)

lemma contextElicit_sessionElicit: "contextElicit = sessionElicit"
  by (simp add: fun_eq_iff contextElicit_def sessionElicit_def isElicitationNotSupportedError_def
      split: option.splits sum.splits)

text \<open>What a check that matched at least one rule decides.\<close>

definition confirmed :: "string \<Rightarrow> elicitErr + string \<Rightarrow> bool" where
  "confirmed fallback answer =
     (case answer of
        Inr action \<Rightarrow> action = ElicitActionAccept
      | Inl (ElicitationNotSupported _) \<Rightarrow> fallback \<noteq> ''deny''
      | Inl (ElicitFailed _) \<Rightarrow> False)"

lemma CheckConfirmation_confirmed:
  "fst (CheckConfirmation elicitor message fallback) = None \<longleftrightarrow> confirmed fallback (elicitor message)"
  by (auto simp: CheckConfirmation_def confirmed_def split: sum.splits elicitErr.splits)

lemma CheckConfirmation_prompts: "snd (CheckConfirmation elicitor message fallback) = [message]"
  by (simp add: CheckConfirmation_def split: sum.splits elicitErr.splits)

lemma MergeMatchedRules_fallback: "snd (MergeMatchedRules matched fb) = fb"
  by (simp add: MergeMatchedRules_def)

lemma MergeMatchedRules_message:
  assumes "r \<in> set matched"
  shows "\<exists>a b. fst (MergeMatchedRules matched fb) = a @ crMessage r @ b"
proof (cases "length matched = 1")
  case True
  then obtain x where "matched = [x]" by (metis One_nat_def length_0_conv length_Suc_conv)
  with assms show ?thesis by (intro exI [of _ "[]"]) (simp add: MergeMatchedRules_def)
next
  case False
  from assms obtain xs ys where m: "matched = xs @ r # ys" by (auto simp: in_set_conv_decomp)
  let ?f = "\<lambda>r. nl # ''- '' @ crMessage r"
  have "fst (MergeMatchedRules matched fb) =
      (''Confirmation required:'' @ concat (map ?f xs) @ nl # ''- '') @ crMessage r @ concat (map ?f ys)"
    using False m by (simp add: MergeMatchedRules_def)
  then show ?thesis by blast
qed

text \<open>
  A tool call goes ahead exactly when no tool-level rule agrees with it, or the user
  accepted, or the client cannot elicit and the fallback is not "deny". It is never a silent
  approval: when a rule agrees, exactly one prompt is shown and it carries the message of every
  agreeing rule.
\<close>

lemma tool_rules_decide:
  assumes "CheckToolRules rules fallback elicitor toolName hint = (err, shown)"
  shows "(if filter (toolMatch toolName hint) rules = [] then err = None \<and> shown = []
    else (\<exists>message. shown = [message] \<and> (err = None \<longleftrightarrow> confirmed fallback (elicitor message))
      \<and> (\<forall>r. r \<in> set rules \<and> toolMatch toolName hint r \<longrightarrow> (\<exists>a b. message = a @ crMessage r @ b))))"
proof (cases "filter (toolMatch toolName hint) rules = []")
  case True
  then show ?thesis using assms by (simp add: CheckToolRules_def MatchToolLevelRules_filter)
next
  case False
  let ?m = "MergeMatchedRules (filter (toolMatch toolName hint) rules) fallback"
  have c: "(err, shown) = CheckConfirmation elicitor (fst ?m) fallback"
    using assms False MergeMatchedRules_fallback [of "filter (toolMatch toolName hint) rules" fallback]
    by (simp add: CheckToolRules_def MatchToolLevelRules_filter split_def)
  then have "err = None \<longleftrightarrow> confirmed fallback (elicitor (fst ?m))" and "shown = [fst ?m]"
    by (metis CheckConfirmation_confirmed fst_conv, metis CheckConfirmation_prompts snd_conv)
  then show ?thesis
    using False MergeMatchedRules_message [of _ "filter (toolMatch toolName hint) rules" fallback] by auto
qed

text \<open>
  In a configuration whose rules pass validation, a rule is consulted at one level only: no
  rule can match both a tool call and a Kubernetes request, and every rule can match some.
\<close>

lemma valid_rules_have_one_level:
  assumes "validateConfirmationRules rules = None" and "r \<in> set rules"
  shows "\<not> (toolMatch toolName hint r \<and> kubeMatch verb kind grp version name namespace r)
    \<and> (toolMatch (crTool r) (crDestructive r) r
       \<or> kubeMatch (crVerb r) (crKind r) (crGroup r) (crVersion r) (crName r) (crNamespace r) r)"
proof -
  have "ruleErrors i rules = [] \<Longrightarrow> ruleValidate r = None" for i
    using assms(2) by (induction rules arbitrary: i) (auto split: option.splits)
  then have "ruleValidate r = None"
    using assms(1) by (auto simp: validateConfirmationRules_def Let_def split: if_splits)
  then show ?thesis
    by (auto simp: ruleValidate_def toolMatch_def kubeMatch_def agrees_def split: if_splits)
qed

section \<open>What the deny list denies\<close>

text \<open>The \<open>apiVersion\<close> text of a group and version.\<close>

definition apiVersionOf :: "string \<Rightarrow> string \<Rightarrow> string" where
  "apiVersionOf grp version = (if grp \<noteq> [] then grp @ ''/'' @ version else version)"

lemma apiVersionOf_inj:
  assumes "CHR ''/'' \<notin> set g" "CHR ''/'' \<notin> set v" "CHR ''/'' \<notin> set g'" "CHR ''/'' \<notin> set v'"
  shows "apiVersionOf g v = apiVersionOf g' v' \<longleftrightarrow> g = g' \<and> v = v'"
proof
  assume "apiVersionOf g v = apiVersionOf g' v'"
  then have "goSplit CHR ''/'' (apiVersionOf g v) = goSplit CHR ''/'' (apiVersionOf g' v')" by simp
  then show "g = g' \<and> v = v'"
    using assms by (auto simp: apiVersionOf_def goSplit_append goSplit_atom split: if_splits)
qed simp

lemma IsDeniedResource_iff:
  "IsDeniedResource apiVersion kind denied \<longleftrightarrow>
    (\<exists>d \<in> set denied. apiVersion = apiVersionOf (gvkGroup d) (gvkVersion d)
       \<and> agrees (gvkKind d) kind)"
proof (induction denied)
  case (Cons d denied)
  have "IsDeniedResource apiVersion kind (d # denied) \<longleftrightarrow>
      apiVersion = apiVersionOf (gvkGroup d) (gvkVersion d) \<and> agrees (gvkKind d) kind
      \<or> IsDeniedResource apiVersion kind denied"
    by (simp add: apiVersionOf_def agrees_def Let_def)
  with Cons show ?case by simp
qed simp

definition slashFree :: "groupVersionKind \<Rightarrow> bool" where
  "slashFree d \<longleftrightarrow> CHR ''/'' \<notin> set (gvkGroup d) \<and> CHR ''/'' \<notin> set (gvkVersion d)"

lemma IsDeniedResource_slashFree:
  assumes "list_all slashFree denied" and "slashFree k"
  shows "IsDeniedResource (apiVersionOf (gvkGroup k) (gvkVersion k)) (gvkKind k) denied \<longleftrightarrow>
    (\<exists>d \<in> set denied. gvkGroup d = gvkGroup k \<and> gvkVersion d = gvkVersion k \<and> agrees (gvkKind d) (gvkKind k))"
  using assms apiVersionOf_inj
  unfolding IsDeniedResource_iff slashFree_def list_all_iff by metis

end
