(* ===== verification/Go_Values.thy ===== *)
theory Go_Values
  imports Go_Prelude
begin

text \<open>
  Dynamically typed Go values: what an \<open>any\<close> holds after JSON or TOML decoding, with the
  dynamic types that the code's type switches tell apart. A finite \<open>float64\<close> is \<open>m * 2 ^ e\<close>
  with integer \<open>m\<close> and \<open>e\<close>; a Go map is an association list read by \<^const>\<open>map_of\<close>.
\<close>

datatype goFloat = Float int int

datatype goVal =
    GNil
  | GStr string
  | GBool bool
  | GInt int
  | GInt64 int
  | GFloat goFloat
  | GList "goVal list"
  | GMap "(string \<times> goVal) list"

type_synonym goMap = "(string \<times> goVal) list"

text \<open>
  Conversion of a \<open>float64\<close> to \<open>int64\<close> drops the fraction. When the value does not fit, the
  language leaves the result to the implementation: \<open>oob\<close> is that result.
\<close>

fun truncFloat :: "goFloat \<Rightarrow> int" where
  "truncFloat (Float m e) =
     (if 0 \<le> e then m * 2 ^ nat e else sgn m * (\<bar>m\<bar> div 2 ^ nat (- e)))"

definition floatToInt64 :: "(goFloat \<Rightarrow> int) \<Rightarrow> goFloat \<Rightarrow> int" where
  "floatToInt64 oob f = (if is_int64 (truncFloat f) then truncFloat f else oob f)"

definition floatIntegral :: "goFloat \<Rightarrow> bool" where
  "floatIntegral f = (case f of Float m e \<Rightarrow> 0 \<le> e \<or> m mod 2 ^ nat (- e) = 0)"

lemma truncFloat_of_int [simp]: "truncFloat (Float n 0) = n"
  by simp

end
