(* ===== verification/Tool_Params.thy ===== *)
theory Tool_Params
  imports Go_Values
begin

text \<open>
  \<open>pkg/api/params.go\<close>: extraction of tool arguments. The package-level helpers are functions
  of the arguments; \<open>Params\<close> carries the first error and turns every later extraction into
  its default, so it is a state-passing function here.
\<close>

type_synonym arguments = "string \<rightharpoonup> goVal"

datatype paramErr =
    ParamRequired string
  | ParamNotString string
  | ParamNotBool string
  | InvalidInt64Type goVal
  | ParamNotInteger string paramErr

definition ParseInt64 :: "(goFloat \<Rightarrow> int) \<Rightarrow> goVal \<Rightarrow> paramErr + int" where
  "ParseInt64 oob value =
     (case value of
        GFloat v \<Rightarrow> Inr (floatToInt64 oob v)
      | GInt v \<Rightarrow> Inr v
      | GInt64 v \<Rightarrow> Inr v
      | _ \<Rightarrow> Inl (InvalidInt64Type value))"

definition RequiredString :: "arguments \<Rightarrow> string \<Rightarrow> paramErr + string" where
  "RequiredString args key =
     (case args key of
        None \<Rightarrow> Inl (ParamRequired key)
      | Some (GStr str) \<Rightarrow> Inr str
      | Some _ \<Rightarrow> Inl (ParamNotString key))"

definition optionalString :: "arguments \<Rightarrow> string \<Rightarrow> string \<Rightarrow> paramErr + string" where
  "optionalString args key defaultVal =
     (case args key of
        None \<Rightarrow> Inr defaultVal
      | Some (GStr str) \<Rightarrow> Inr str
      | Some _ \<Rightarrow> Inl (ParamNotString key))"

definition optionalBool :: "arguments \<Rightarrow> string \<Rightarrow> bool \<Rightarrow> paramErr + bool" where
  "optionalBool args key defaultVal =
     (case args key of
        None \<Rightarrow> Inr defaultVal
      | Some (GBool b) \<Rightarrow> Inr b
      | Some _ \<Rightarrow> Inl (ParamNotBool key))"

definition OptionalString :: "arguments \<Rightarrow> string \<Rightarrow> string \<Rightarrow> string" where
  "OptionalString args key defaultVal =
     (case optionalString args key defaultVal of Inl _ \<Rightarrow> defaultVal | Inr str \<Rightarrow> str)"

definition OptionalBool :: "arguments \<Rightarrow> string \<Rightarrow> bool \<Rightarrow> bool" where
  "OptionalBool args key defaultVal =
     (case optionalBool args key defaultVal of Inl _ \<Rightarrow> defaultVal | Inr b \<Rightarrow> b)"

section \<open>Sticky extraction\<close>

record params =
  pArgs :: arguments
  pErr :: "paramErr option"

definition WrapParams :: "arguments \<Rightarrow> params" where
  "WrapParams args = \<lparr>pArgs = args, pErr = None\<rparr>"

definition pRequiredString :: "string \<Rightarrow> params \<Rightarrow> string \<times> params" where
  "pRequiredString key p =
     (if pErr p \<noteq> None then ([], p)
      else (case RequiredString (pArgs p) key of
          Inl err \<Rightarrow> ([], p\<lparr>pErr := Some err\<rparr>)
        | Inr v \<Rightarrow> (v, p)))"

definition pOptionalString :: "string \<Rightarrow> string \<Rightarrow> params \<Rightarrow> string \<times> params" where
  "pOptionalString key defaultVal p =
     (if pErr p \<noteq> None then (defaultVal, p)
      else (case optionalString (pArgs p) key defaultVal of
          Inl err \<Rightarrow> (defaultVal, p\<lparr>pErr := Some err\<rparr>)
        | Inr v \<Rightarrow> (v, p)))"

definition pOptionalBool :: "string \<Rightarrow> bool \<Rightarrow> params \<Rightarrow> bool \<times> params" where
  "pOptionalBool key defaultVal p =
     (if pErr p \<noteq> None then (defaultVal, p)
      else (case optionalBool (pArgs p) key defaultVal of
          Inl err \<Rightarrow> (defaultVal, p\<lparr>pErr := Some err\<rparr>)
        | Inr v \<Rightarrow> (v, p)))"

definition pOptionalInt64 :: "(goFloat \<Rightarrow> int) \<Rightarrow> string \<Rightarrow> int \<Rightarrow> params \<Rightarrow> int \<times> params" where
  "pOptionalInt64 oob key defaultVal p =
     (if pErr p \<noteq> None then (defaultVal, p)
      else (case pArgs p key of
          None \<Rightarrow> (defaultVal, p)
        | Some GNil \<Rightarrow> (defaultVal, p)
        | Some val \<Rightarrow>
            (case ParseInt64 oob val of
               Inl err \<Rightarrow> (defaultVal, p\<lparr>pErr := Some (ParamNotInteger key err)\<rparr>)
             | Inr v \<Rightarrow> (v, p))))"

text \<open>A handler's extractions, in the order it makes them, and the values they yield.\<close>

datatype extraction =
    ReqString string
  | OptString string string
  | OptBool string bool
  | OptInt64 string int

datatype extracted = XStr string | XBool bool | XInt int

definition runExtraction :: "(goFloat \<Rightarrow> int) \<Rightarrow> extraction \<Rightarrow> params \<Rightarrow> extracted \<times> params" where
  "runExtraction oob x p =
     (case x of
        ReqString k \<Rightarrow> (case pRequiredString k p of (v, p) \<Rightarrow> (XStr v, p))
      | OptString k d \<Rightarrow> (case pOptionalString k d p of (v, p) \<Rightarrow> (XStr v, p))
      | OptBool k d \<Rightarrow> (case pOptionalBool k d p of (v, p) \<Rightarrow> (XBool v, p))
      | OptInt64 k d \<Rightarrow> (case pOptionalInt64 oob k d p of (v, p) \<Rightarrow> (XInt v, p)))"

fun runExtractions :: "(goFloat \<Rightarrow> int) \<Rightarrow> extraction list \<Rightarrow> params \<Rightarrow> extracted list \<times> params" where
  "runExtractions oob [] p = ([], p)"
| "runExtractions oob (x # xs) p =
     (let (v, p) = runExtraction oob x p; (vs, p) = runExtractions oob xs p in (v # vs, p))"

text \<open>
  The specification: what an extraction yields on its own, and its default. A JSON null is a
  missing integer, but a string or boolean of the wrong type.
\<close>

fun specExtraction :: "(goFloat \<Rightarrow> int) \<Rightarrow> arguments \<Rightarrow> extraction \<Rightarrow> paramErr + extracted" where
  "specExtraction oob args (ReqString k) = map_sum id XStr (RequiredString args k)"
| "specExtraction oob args (OptString k d) = map_sum id XStr (optionalString args k d)"
| "specExtraction oob args (OptBool k d) = map_sum id XBool (optionalBool args k d)"
| "specExtraction oob args (OptInt64 k d) =
     (if args k = None \<or> args k = Some GNil then Inr (XInt d)
      else map_sum (ParamNotInteger k) XInt (ParseInt64 oob (the (args k))))"

fun defaultOf :: "extraction \<Rightarrow> extracted" where
  "defaultOf (ReqString k) = XStr []"
| "defaultOf (OptString k d) = XStr d"
| "defaultOf (OptBool k d) = XBool d"
| "defaultOf (OptInt64 k d) = XInt d"

lemma runExtraction_sticky: "pErr p \<noteq> None \<Longrightarrow> runExtraction oob x p = (defaultOf x, p)"
  by (cases x) (simp_all add: runExtraction_def pRequiredString_def pOptionalString_def
      pOptionalBool_def pOptionalInt64_def)

lemma runExtraction_clean:
  "pErr p = None \<Longrightarrow> runExtraction oob x p =
    (case specExtraction oob (pArgs p) x of
       Inl e \<Rightarrow> (defaultOf x, p\<lparr>pErr := Some e\<rparr>)
     | Inr v \<Rightarrow> (v, p))"
  by (cases x) (auto simp: runExtraction_def pRequiredString_def pOptionalString_def
      pOptionalBool_def pOptionalInt64_def split: sum.splits option.splits goVal.splits)

lemma runExtractions_sticky: "pErr p \<noteq> None \<Longrightarrow> runExtractions oob xs p = (map defaultOf xs, p)"
  by (induction xs) (simp_all add: runExtraction_sticky)

lemma runExtractions_clean:
  assumes "pErr p = None" and "\<forall>x \<in> set xs. \<exists>v. specExtraction oob (pArgs p) x = Inr v"
  shows "runExtractions oob xs p = (map (\<lambda>x. projr (specExtraction oob (pArgs p) x)) xs, p)"
  using assms by (induction xs) (auto simp: runExtraction_clean)

lemma runExtractions_append:
  "runExtractions oob (xs @ ys) p =
    (let (vs, p) = runExtractions oob xs p; (ws, p) = runExtractions oob ys p in (vs @ ws, p))"
  by (induction xs arbitrary: p) (auto simp: split_def Let_def)

text \<open>
  The error that \<open>Err\<close> reports after any sequence of extractions is the one of the first
  extraction that fails on its own, the values before it are the arguments', and it and all
  later extractions yielded their defaults.
\<close>

lemma params_first_error_sticks:
  assumes "\<forall>x \<in> set xs. \<exists>v. specExtraction oob args x = Inr v"
    and "specExtraction oob args x = Inl e"
  shows "runExtractions oob (xs @ x # ys) (WrapParams args) =
    (map (\<lambda>x. projr (specExtraction oob args x)) xs @ map defaultOf (x # ys),
     \<lparr>pArgs = args, pErr = Some e\<rparr>)"
proof -
  have "runExtractions oob xs (WrapParams args) = (map (\<lambda>x. projr (specExtraction oob args x)) xs, WrapParams args)"
    using assms(1) by (subst runExtractions_clean) (simp_all add: WrapParams_def)
  then show ?thesis
    using assms(2)
    by (simp add: runExtractions_append runExtraction_clean runExtractions_sticky WrapParams_def)
qed

text \<open>The type that an extraction accepts.\<close>

definition argOk :: "arguments \<Rightarrow> extraction \<Rightarrow> bool" where
  "argOk args x =
     (case x of
        ReqString k \<Rightarrow> (case args k of Some (GStr _) \<Rightarrow> True | _ \<Rightarrow> False)
      | OptString k _ \<Rightarrow> (case args k of None \<Rightarrow> True | Some (GStr _) \<Rightarrow> True | _ \<Rightarrow> False)
      | OptBool k _ \<Rightarrow> (case args k of None \<Rightarrow> True | Some (GBool _) \<Rightarrow> True | _ \<Rightarrow> False)
      | OptInt64 k _ \<Rightarrow>
          (case args k of None \<Rightarrow> True | Some GNil \<Rightarrow> True | Some (GFloat _) \<Rightarrow> True
           | Some (GInt _) \<Rightarrow> True | Some (GInt64 _) \<Rightarrow> True | _ \<Rightarrow> False))"

lemma specExtraction_ok: "(\<exists>v. specExtraction oob args x = Inr v) \<longleftrightarrow> argOk args x"
  by (cases x) (auto simp: argOk_def RequiredString_def optionalString_def optionalBool_def
      ParseInt64_def split: option.splits goVal.splits)

lemma runExtractions_pErr:
  "pErr p = None \<Longrightarrow>
    pErr (snd (runExtractions oob xs p)) = None \<longleftrightarrow> list_all (argOk (pArgs p)) xs"
proof (induction xs)
  case (Cons x xs)
  then show ?case
    using specExtraction_ok [of oob "pArgs p" x]
    by (cases "specExtraction oob (pArgs p) x")
      (auto simp: runExtraction_clean runExtractions_sticky split_def Let_def)
qed simp

text \<open>
  \<open>Err\<close> is nil after a sequence of extractions exactly when every argument the handler asks
  for has a type the extraction accepts: a string, a boolean, a number or a JSON null for an
  integer, and a missing argument unless it is required.
\<close>

lemma params_no_error_iff:
  "pErr (snd (runExtractions oob xs (WrapParams args))) = None \<longleftrightarrow> list_all (argOk args) xs"
  using runExtractions_pErr [of "WrapParams args"] by (simp add: WrapParams_def)

end
