(* ===== verification/MCP_Calls.thy ===== *)
theory MCP_Calls
  imports Result_Limit Confirmation RBAC_Metadata Tool_Params
begin

text \<open>
  The conversion of tools, prompts and resources to the MCP SDK and the handlers that the SDK
  calls: \<open>pkg/mcp/tools_gosdk.go\<close>, \<open>prompts_gosdk.go\<close>, \<open>resources_gosdk.go\<close>,
  \<open>multi_content_result.go\<close>, \<open>handler_params.go\<close> and the result constructors of \<open>mcp.go\<close>.
  The toolset's handler, the cluster provider, the JSON codec and the user are parameters. A
  call returns, beside its result, the prompts it showed and the parameters with which the
  toolset's handler ran, if it ran.
\<close>

section \<open>Results of the SDK\<close>

datatype mcpContent = TextContent string | ImageContent string string

record 'v callToolResult =
  crIsError :: bool
  crContent :: "mcpContent list"
  crStructured :: "'v prepared option"

definition NewTextResult :: "string \<Rightarrow> string option \<Rightarrow> 'v callToolResult" where
  "NewTextResult content err =
     (case err of
        Some e \<Rightarrow> \<lparr>crIsError = True, crContent = [TextContent e], crStructured = None\<rparr>
      | None \<Rightarrow> \<lparr>crIsError = False, crContent = [TextContent content], crStructured = None\<rparr>)"

definition NewStructuredResult :: "string \<Rightarrow> 'v structured \<Rightarrow> string option \<Rightarrow> 'v callToolResult" where
  "NewStructuredResult content structuredContent err =
     (case err of
        Some e \<Rightarrow> \<lparr>crIsError = True, crContent = [TextContent e], crStructured = None\<rparr>
      | None \<Rightarrow>
          \<lparr>crIsError = False, crContent = [TextContent content],
           crStructured = (case structuredContent of NilAny \<Rightarrow> None
             | _ \<Rightarrow> ensureStructuredObject structuredContent)\<rparr>)"

text \<open>The loop over the blocks: the contents, or None for an image without data.\<close>

fun blockContents :: "toolContent option list \<Rightarrow> mcpContent list option" where
  "blockContents [] = Some []"
| "blockContents (None # bs) = blockContents bs"
| "blockContents (Some b # bs) =
     (if IsText (Some b) then map_option ((#) (TextContent (ContentText (Some b)))) (blockContents bs)
      else if tcData b = [] then None
      else map_option ((#) (ImageContent (tcMIMEType b) (tcData b))) (blockContents bs))"

definition NewMultiContentResult ::
    "toolContent option list \<Rightarrow> 'v structured \<Rightarrow> string option \<Rightarrow> 'v callToolResult" where
  "NewMultiContentResult blocks structured err =
     (case err of
        Some e \<Rightarrow> NewTextResult [] (Some e)
      | None \<Rightarrow>
          (case blockContents blocks of
             None \<Rightarrow> NewTextResult [] (Some ''image block must have data'')
           | Some contents \<Rightarrow>
               \<lparr>crIsError = False, crContent = contents,
                crStructured = (case structured of NilAny \<Rightarrow> None | _ \<Rightarrow> ensureStructuredObject structured)\<rparr>))"

section \<open>Publishing a tool\<close>

record jsonSchema =
  jsType :: string
  jsProperties :: "(string \<rightharpoonup> goVal) option"

datatype metaVal = MetaVal goVal | MetaRBAC rbacMetadata

type_synonym metaMap = "(string \<rightharpoonup> metaVal) option"

definition metaLookup :: "metaMap \<Rightarrow> string \<Rightarrow> metaVal option" where
  "metaLookup m k = (case m of None \<Rightarrow> None | Some f \<Rightarrow> f k)"

record serverTool =
  toName :: string
  toDescription :: string
  toTitle :: string
  toReadOnlyHint :: "bool option"
  toDestructiveHint :: "bool option"
  toIdempotentHint :: "bool option"
  toOpenWorldHint :: "bool option"
  toMeta :: metaMap
  toInputSchema :: "jsonSchema option"
  toOutputSchema :: "jsonSchema option"
  toRBAC :: "rbacMetadata option"

record sdkTool =
  sdName :: string
  sdDescription :: string
  sdTitle :: string
  sdMeta :: metaMap
  sdReadOnlyHint :: bool
  sdDestructiveHint :: "bool option"
  sdIdempotentHint :: bool
  sdOpenWorldHint :: "bool option"
  sdInputSchema :: jsonSchema
  sdOutputSchema :: "jsonSchema option"

datatype publishErr =
    MissingInputSchema string
  | InputSchemaType string string
  | RBACInMeta string
  | InvalidRBAC string rbacErr
  | OutputSchemaType string string
  | InvalidURI string

text \<open>\<open>ptr.Deref(p, false)\<close>.\<close>

definition derefFalse :: "bool option \<Rightarrow> bool" where
  "derefFalse p = (case p of None \<Rightarrow> False | Some b \<Rightarrow> b)"

definition withRBACMeta :: "metaMap \<Rightarrow> rbacMetadata option \<Rightarrow> metaMap" where
  "withRBACMeta meta rbac =
     (case rbac of None \<Rightarrow> meta
      | Some r \<Rightarrow> Some ((case meta of None \<Rightarrow> Map.empty | Some f \<Rightarrow> f)(RBACMetadataKey \<mapsto> MetaRBAC r)))"

definition ServerToolToGoSdkTool :: "serverTool \<Rightarrow> publishErr + sdkTool" where
  "ServerToolToGoSdkTool tool =
     (case toInputSchema tool of
        None \<Rightarrow> Inl (MissingInputSchema (toName tool))
      | Some inputSchema \<Rightarrow>
          if jsType inputSchema \<noteq> ''object'' then Inl (InputSchemaType (toName tool) (jsType inputSchema))
          else
            let inputSchema = (if jsProperties inputSchema = None
                               then inputSchema\<lparr>jsProperties := Some Map.empty\<rparr> else inputSchema)
            in if metaLookup (toMeta tool) RBACMetadataKey \<noteq> None then Inl (RBACInMeta (toName tool))
               else (case (case toRBAC tool of None \<Rightarrow> None | Some r \<Rightarrow> rbacValidate (Some r)) of
                   Some err \<Rightarrow> Inl (InvalidRBAC (toName tool) err)
                 | None \<Rightarrow>
                     (case toOutputSchema tool of
                        Some os \<Rightarrow>
                          if jsType os \<noteq> ''object'' then Inl (OutputSchemaType (toName tool) (jsType os))
                          else Inr \<lparr>sdName = toName tool, sdDescription = toDescription tool,
                            sdTitle = toTitle tool, sdMeta = withRBACMeta (toMeta tool) (toRBAC tool),
                            sdReadOnlyHint = derefFalse (toReadOnlyHint tool),
                            sdDestructiveHint = toDestructiveHint tool,
                            sdIdempotentHint = derefFalse (toIdempotentHint tool),
                            sdOpenWorldHint = toOpenWorldHint tool,
                            sdInputSchema = inputSchema, sdOutputSchema = Some os\<rparr>
                      | None \<Rightarrow>
                          Inr \<lparr>sdName = toName tool, sdDescription = toDescription tool,
                            sdTitle = toTitle tool, sdMeta = withRBACMeta (toMeta tool) (toRBAC tool),
                            sdReadOnlyHint = derefFalse (toReadOnlyHint tool),
                            sdDestructiveHint = toDestructiveHint tool,
                            sdIdempotentHint = derefFalse (toIdempotentHint tool),
                            sdOpenWorldHint = toOpenWorldHint tool,
                            sdInputSchema = inputSchema, sdOutputSchema = None\<rparr>)))"

section \<open>Calling a tool\<close>

datatype providerErr = UnknownTarget string | ProviderErr string

text \<open>
  What a call finds around it: the cluster provider, the user's session, the JSON decoder of
  the arguments and the encoder of structured content.
\<close>

record ('k, 'v) callEnv =
  ceTargetParameterName :: string
  ceDefaultTarget :: string
  ceDerive :: "string \<Rightarrow> providerErr + 'k"
  ceSession :: "session option"
  ceUnmarshal :: "string \<Rightarrow> string + arguments"
  ceMarshal :: "'v prepared \<Rightarrow> string + string"

record callConfig =
  ccConfirmationRules :: "confirmationRule list"
  ccConfirmationFallback :: string
  ccMaxResultBytes :: int
  ccListOutput :: string

text \<open>The SDK's parameters: raw ones, or another type that the assertion rejects.\<close>

datatype sdkCallParams = CallToolParamsRaw string string | OtherParams

record ('k, 'r) handlerParams =
  hpContext :: budgetCtx
  hpConfig :: callConfig
  hpClient :: 'k
  hpRequest :: 'r
  hpListOutput :: string

datatype callErr =
    InvalidCallParams string
  | UnmarshalArguments string string
  | DeriveFailed providerErr
  | HandlerFailed string
  | OverLimit limitErr
  | ResultFailed string
  | NilResourceContent
  | BadResourceContent bool

definition newHandlerParams ::
    "('k, 'v) callEnv \<Rightarrow> budgetCtx \<Rightarrow> callConfig \<Rightarrow> 'r \<Rightarrow> string \<Rightarrow> providerErr + ('k, 'r) handlerParams" where
  "newHandlerParams env ctx cfg request cluster =
     (case ceDerive env cluster of
        Inl err \<Rightarrow> Inl err
      | Inr k8s \<Rightarrow>
          Inr \<lparr>hpContext = ctx, hpConfig = cfg, hpClient = k8s, hpRequest = request,
               hpListOutput = ccListOutput cfg\<rparr>)"

definition GoSdkToolCallRequestToToolCallRequest ::
    "(string \<Rightarrow> string + arguments) \<Rightarrow> string \<Rightarrow> sdkCallParams \<Rightarrow> callErr + string \<times> arguments" where
  "GoSdkToolCallRequestToToolCallRequest unmarshal tool params =
     (case params of
        OtherParams \<Rightarrow> Inl (InvalidCallParams tool)
      | CallToolParamsRaw name args \<Rightarrow>
          if args = [] then Inr (name, Map.empty)
          else (case unmarshal args of
              Inl err \<Rightarrow> Inl (UnmarshalArguments err tool)
            | Inr arguments \<Rightarrow> Inr (name, arguments)))"

definition GetString :: "arguments \<Rightarrow> string \<Rightarrow> string \<Rightarrow> string" where
  "GetString arguments key defaultValue =
     (case arguments key of Some (GStr strValue) \<Rightarrow> strValue | _ \<Rightarrow> defaultValue)"

definition confirmErrText :: "confirmErr \<Rightarrow> string" where
  "confirmErrText e =
     (case e of ConfirmationDenied \<Rightarrow> ''action requires confirmation''
      | ElicitError (ElicitationNotSupported m) \<Rightarrow> ''client does not support elicitation: '' @ m
      | ElicitError (ElicitFailed m) \<Rightarrow> m)"

record ('k, 'r) callTrace =
  ctShown :: "string list"
  ctRan :: "('k, 'r) handlerParams option"

text \<open>
  The closure \<open>goSdkHandler\<close>. \<open>quote\<close> is the \<open>%q\<close> of the target in the error text of an
  unknown target.
\<close>

definition toolCall ::
    "('k, 'v) callEnv \<Rightarrow> callConfig \<Rightarrow> (string \<Rightarrow> string) \<Rightarrow> serverTool \<Rightarrow>
     (('k, arguments) handlerParams \<Rightarrow> string + 'v toolCallResult) \<Rightarrow> budgetCtx \<Rightarrow> sdkCallParams \<Rightarrow>
     (callErr + 'v callToolResult) \<times> ('k, arguments) callTrace" where
  "toolCall env cfg quote tool handler ctx request =
     (case GoSdkToolCallRequestToToolCallRequest (ceUnmarshal env) (toName tool) request of
        Inl err \<Rightarrow> (Inl err, \<lparr>ctShown = [], ctRan = None\<rparr>)
      | Inr (_, arguments) \<Rightarrow>
          (case CheckToolRules (ccConfirmationRules cfg) (ccConfirmationFallback cfg)
                  (sessionElicit (ceSession env)) (toName tool) (toDestructiveHint tool) of
             (Some confirmErr, shown) \<Rightarrow>
               (Inr (NewTextResult [] (Some (confirmErrText confirmErr))), \<lparr>ctShown = shown, ctRan = None\<rparr>)
           | (None, shown) \<Rightarrow>
               let limit = ccMaxResultBytes cfg;
                   ctx = WithResultBudget ctx limit;
                   cluster = GetString arguments (ceTargetParameterName env) (ceDefaultTarget env)
               in (case newHandlerParams env ctx cfg arguments cluster of
                     Inl (UnknownTarget m) \<Rightarrow>
                       (Inr (NewTextResult [] (Some (''target '' @ quote cluster @ '': '' @ m))),
                        \<lparr>ctShown = shown, ctRan = None\<rparr>)
                   | Inl err \<Rightarrow> (Inl (DeriveFailed err), \<lparr>ctShown = shown, ctRan = None\<rparr>)
                   | Inr params \<Rightarrow>
                       let trace = \<lparr>ctShown = shown, ctRan = Some params\<rparr>
                       in (case handler params of
                             Inl err \<Rightarrow> (Inl (HandlerFailed err), trace)
                           | Inr result \<Rightarrow>
                               (case rejectOversizedToolResult (ceMarshal env) limit (Some result) of
                                  Some err \<Rightarrow> (Inl (OverLimit err), trace)
                                | None \<Rightarrow>
                                    if trBlocks result \<noteq> []
                                    then (Inr (NewMultiContentResult (trBlocks result) (trStructured result)
                                            (trError result)), trace)
                                    else (Inr (NewStructuredResult (trContent result) (trStructured result)
                                            (trError result)), trace))))))"

section \<open>Getting a prompt\<close>

record promptArgument =
  paName :: string
  paDescription :: string
  paRequired :: bool

record promptResult =
  prDescription :: string
  prMessages :: "promptMessage list"
  prError :: "string option"

record serverPrompt =
  spName :: string
  spTitle :: string
  spDescription :: string
  spArguments :: "promptArgument list"
  spRBAC :: "rbacMetadata option"

record sdkPrompt =
  sqMeta :: metaMap
  sqName :: string
  sqTitle :: string
  sqDescription :: string
  sqArguments :: "promptArgument list"

definition ServerPromptToGoSdkPrompt :: "serverPrompt \<Rightarrow> publishErr + sdkPrompt" where
  "ServerPromptToGoSdkPrompt p =
     (case (case spRBAC p of None \<Rightarrow> None | Some r \<Rightarrow> rbacValidate (Some r)) of
        Some err \<Rightarrow> Inl (InvalidRBAC (spName p) err)
      | None \<Rightarrow>
          Inr \<lparr>sqMeta = withRBACMeta None (spRBAC p), sqName = spName p, sqTitle = spTitle p,
               sqDescription = spDescription p, sqArguments = spArguments p\<rparr>)"

text \<open>The SDK's answer: the description and each message as its role and text.\<close>

definition promptCall ::
    "('k, 'v) callEnv \<Rightarrow> callConfig \<Rightarrow>
     (('k, string \<rightharpoonup> string) handlerParams \<Rightarrow> string + promptResult) \<Rightarrow> budgetCtx \<Rightarrow>
     (string \<rightharpoonup> string) option \<Rightarrow> callErr + string \<times> (string \<times> mcpContent) list" where
  "promptCall env cfg handler ctx requestArguments =
     (let args = (case requestArguments of None \<Rightarrow> Map.empty | Some a \<Rightarrow> a);
          cluster = (case args (ceTargetParameterName env) of Some val \<Rightarrow> val | None \<Rightarrow> []);
          limit = ccMaxResultBytes cfg;
          ctx = WithResultBudget ctx limit
      in (case newHandlerParams env ctx cfg args cluster of
            Inl err \<Rightarrow> Inl (DeriveFailed err)
          | Inr params \<Rightarrow>
              (case handler params of
                 Inl err \<Rightarrow> Inl (HandlerFailed err)
               | Inr result \<Rightarrow>
                   (case prError result of
                      Some err \<Rightarrow> Inl (ResultFailed err)
                    | None \<Rightarrow>
                        (case promptWithinLimit limit (prMessages result) of
                           Some err \<Rightarrow> Inl (OverLimit err)
                         | None \<Rightarrow>
                             Inr (prDescription result,
                                  map (\<lambda>msg. (pmRole msg, TextContent (pmText msg))) (prMessages result)))))))"

section \<open>Reading a resource\<close>

text \<open>The error says whether both fields are set (True) or neither (False).\<close>

definition validateResourceContent :: "resourceContent \<Rightarrow> bool option" where
  "validateResourceContent content =
     (let hasText = (rcText content \<noteq> []); hasBlob = (length (rcBlob content) > 0)
      in if \<not> hasText \<and> \<not> hasBlob then Some False
         else if hasText \<and> hasBlob then Some True
         else None)"

record serverResource =
  srURI :: string
  srName :: string
  srDescription :: string
  srMIMEType :: string
  srMeta :: metaMap
  srRBAC :: "rbacMetadata option"

record sdkResource =
  sxMeta :: metaMap
  sxURI :: string
  sxName :: string
  sxDescription :: string
  sxMIMEType :: string

text \<open>\<open>parses\<close> is the URL parser, or the URI-template parser for a template.\<close>

definition ServerResourceToGoSdkResource :: "(string \<Rightarrow> bool) \<Rightarrow> serverResource \<Rightarrow> publishErr + sdkResource" where
  "ServerResourceToGoSdkResource parses res =
     (if \<not> parses (srURI res) then Inl (InvalidURI (srURI res))
      else (case (case srRBAC res of None \<Rightarrow> None | Some r \<Rightarrow> rbacValidate (Some r)) of
          Some err \<Rightarrow> Inl (InvalidRBAC (srName res) err)
        | None \<Rightarrow>
            Inr \<lparr>sxMeta = withRBACMeta (srMeta res) (srRBAC res), sxURI = srURI res, sxName = srName res,
                 sxDescription = srDescription res, sxMIMEType = srMIMEType res\<rparr>))"

definition ServerResourceTemplateToGoSdkResourceTemplate ::
    "(string \<Rightarrow> bool) \<Rightarrow> serverResource \<Rightarrow> publishErr + sdkResource" where
  "ServerResourceTemplateToGoSdkResourceTemplate parses rt =
     (if \<not> parses (srURI rt) then Inl (InvalidURI (srURI rt))
      else (case (case srRBAC rt of None \<Rightarrow> None | Some r \<Rightarrow> rbacValidate (Some r)) of
          Some err \<Rightarrow> Inl (InvalidRBAC (srName rt) err)
        | None \<Rightarrow>
            Inr \<lparr>sxMeta = withRBACMeta None (srRBAC rt), sxURI = srURI rt, sxName = srName rt,
                 sxDescription = srDescription rt, sxMIMEType = srMIMEType rt\<rparr>))"

text \<open>
  The server behind a resource handler: none, or one with its configuration. Without a server
  there is no limit and no client.
\<close>

definition resourceHandlerParams ::
    "(('k, 'v) callEnv \<times> callConfig) option \<Rightarrow> budgetCtx \<Rightarrow> string \<Rightarrow>
     callErr + int \<times> budgetCtx \<times> ('k, string) handlerParams option" where
  "resourceHandlerParams server ctx uri =
     (case server of
        None \<Rightarrow> (case withResultBudget None ctx of (ctx, limit) \<Rightarrow> Inr (limit, ctx, None))
      | Some (env, cfg) \<Rightarrow>
          (case withResultBudget (Some (Some (ccMaxResultBytes cfg))) ctx of (ctx, limit) \<Rightarrow>
             (case newHandlerParams env ctx cfg uri (ceDefaultTarget env) of
                Inl err \<Rightarrow> Inl (DeriveFailed err)
              | Inr params \<Rightarrow> Inr (limit, ctx, Some params))))"

record readResourceResult =
  rrURI :: string
  rrMIMEType :: string
  rrText :: string
  rrBlob :: string
  rrMeta :: metaMap

definition resourceCall ::
    "(('k, 'v) callEnv \<times> callConfig) option \<Rightarrow> sdkResource \<Rightarrow>
     (budgetCtx \<times> ('k, string) handlerParams option \<Rightarrow> string + resourceContent option) \<Rightarrow> budgetCtx \<Rightarrow> string \<Rightarrow>
     callErr + readResourceResult" where
  "resourceCall server res handler ctx uri =
     (case resourceHandlerParams server ctx uri of
        Inl err \<Rightarrow> Inl err
      | Inr (limit, ctx, params) \<Rightarrow>
          (case handler (ctx, params) of
             Inl err \<Rightarrow> Inl (HandlerFailed err)
           | Inr None \<Rightarrow> Inl NilResourceContent
           | Inr (Some content) \<Rightarrow>
               (case validateResourceContent content of
                  Some both \<Rightarrow> Inl (BadResourceContent both)
                | None \<Rightarrow>
                    (case resourceWithinLimit limit (Some content) of
                       Some err \<Rightarrow> Inl (OverLimit err)
                     | None \<Rightarrow>
                         Inr \<lparr>rrURI = sxURI res,
                              rrMIMEType = (if rcMIMEType content \<noteq> [] then rcMIMEType content else sxMIMEType res),
                              rrText = rcText content, rrBlob = rcBlob content, rrMeta = sxMeta res\<rparr>))))"

definition resourceTemplateCall ::
    "(('k, 'v) callEnv \<times> callConfig) option \<Rightarrow> sdkResource \<Rightarrow>
     (budgetCtx \<times> ('k, string) handlerParams option \<Rightarrow> string + resourceContent option) \<Rightarrow> budgetCtx \<Rightarrow> string \<Rightarrow>
     callErr + readResourceResult" where
  "resourceTemplateCall server rt handler ctx uri =
     (case resourceHandlerParams server ctx uri of
        Inl err \<Rightarrow> Inl err
      | Inr (limit, ctx, params) \<Rightarrow>
          (case handler (ctx, params) of
             Inl err \<Rightarrow> Inl (HandlerFailed err)
           | Inr None \<Rightarrow> Inl NilResourceContent
           | Inr (Some content) \<Rightarrow>
               (case validateResourceContent content of
                  Some both \<Rightarrow> Inl (BadResourceContent both)
                | None \<Rightarrow>
                    (case resourceWithinLimit limit (Some content) of
                       Some err \<Rightarrow> Inl (OverLimit err)
                     | None \<Rightarrow>
                         Inr \<lparr>rrURI = uri,
                              rrMIMEType = (if rcMIMEType content \<noteq> [] then rcMIMEType content else sxMIMEType rt),
                              rrText = rcText content, rrBlob = rcBlob content, rrMeta = None\<rparr>))))"

section \<open>What a call guarantees\<close>

definition contentSize :: "mcpContent \<Rightarrow> nat" where
  "contentSize c = (case c of TextContent t \<Rightarrow> length t | ImageContent _ d \<Rightarrow> length d)"

text \<open>The bytes of a result: its texts, its image data and its encoded structured content.\<close>

definition resultSize :: "('v prepared \<Rightarrow> string + string) \<Rightarrow> 'v callToolResult \<Rightarrow> nat" where
  "resultSize marshal r = sum_list (map contentSize (crContent r))
     + (case crStructured r of None \<Rightarrow> 0
        | Some p \<Rightarrow> (case marshal p of Inr raw \<Rightarrow> length raw | Inl _ \<Rightarrow> 0))"

lemma blockContents_size: "blockContents bs = Some cs \<Longrightarrow> sum_list (map contentSize cs) = blocksSize bs"
  by (induction bs arbitrary: cs rule: blockContents.induct)
    (auto simp: blocksSize_def contentSize_def ContentText_def split: if_splits)

text \<open>What the two converters send for a result that passed the check.\<close>

definition converted :: "'v toolCallResult \<Rightarrow> 'v callToolResult" where
  "converted result =
     (if trBlocks result \<noteq> [] then NewMultiContentResult (trBlocks result) (trStructured result) (trError result)
      else NewStructuredResult (trContent result) (trStructured result) (trError result))"

lemma converted_size:
  assumes "\<not> crIsError (converted result)" and "toolResultSize marshal result = Inr sz"
  shows "trError result = None \<and> resultSize marshal (converted result) = sz"
proof -
  have none: "trError result = None"
    using assms(1) by (cases "trError result") (auto simp: converted_def NewMultiContentResult_def
        NewStructuredResult_def NewTextResult_def split: if_splits)
  show ?thesis
  proof (cases "trBlocks result = []")
    case True
    then show ?thesis using none assms(2)
      by (auto simp: converted_def NewStructuredResult_def resultSize_def toolResultSize_def contentSize_def
          Let_def split: option.splits structured.splits sum.splits)
  next
    case False
    then obtain cs where "blockContents (trBlocks result) = Some cs"
      using none assms(1) by (cases "blockContents (trBlocks result)")
        (auto simp: converted_def NewMultiContentResult_def NewTextResult_def)
    with False none assms(2) blockContents_size show ?thesis
      by (auto simp: converted_def NewMultiContentResult_def resultSize_def toolResultSize_def
          Let_def split: option.splits structured.splits sum.splits)
  qed
qed

lemma newHandlerParams_Inr:
  "newHandlerParams env ctx cfg request cluster = Inr params \<longleftrightarrow>
    (\<exists>k8s. ceDerive env cluster = Inr k8s \<and> params = \<lparr>hpContext = ctx, hpConfig = cfg, hpClient = k8s,
       hpRequest = request, hpListOutput = ccListOutput cfg\<rparr>)"
  by (auto simp: newHandlerParams_def split: sum.splits)

lemma toolCall_ran:
  assumes "toolCall env cfg quote tool handler ctx request = (r, tr)" and "ctRan tr = Some params"
  shows "\<exists>name arguments.
      GoSdkToolCallRequestToToolCallRequest (ceUnmarshal env) (toName tool) request = Inr (name, arguments)
    \<and> CheckToolRules (ccConfirmationRules cfg) (ccConfirmationFallback cfg) (sessionElicit (ceSession env))
        (toName tool) (toDestructiveHint tool) = (None, ctShown tr)
    \<and> newHandlerParams env (WithResultBudget ctx (ccMaxResultBytes cfg)) cfg arguments
        (GetString arguments (ceTargetParameterName env) (ceDefaultTarget env)) = Inr params
    \<and> r = (case handler params of Inl err \<Rightarrow> Inl (HandlerFailed err)
        | Inr result \<Rightarrow>
            (case rejectOversizedToolResult (ceMarshal env) (ccMaxResultBytes cfg) (Some result) of
               Some err \<Rightarrow> Inl (OverLimit err) | None \<Rightarrow> Inr (converted result)))"
  using assms
  by (auto simp: toolCall_def converted_def Let_def
      split: sum.splits prod.splits option.splits providerErr.splits if_splits)

text \<open>
  C5. A tool's handler runs only after the confirmation rules let the call through, with the
  client of the target the arguments name (the default target when they name none), and with
  the configured result budget in its context. A call that is not confirmed returns an error
  result without running the handler.
\<close>

theorem tool_runs_only_confirmed:
  assumes "toolCall env cfg quote tool handler ctx request = (r, tr)"
  shows "(case ctRan tr of
      Some params \<Rightarrow>
        fst (CheckToolRules (ccConfirmationRules cfg) (ccConfirmationFallback cfg)
          (sessionElicit (ceSession env)) (toName tool) (toDestructiveHint tool)) = None
        \<and> ceDerive env (GetString (hpRequest params) (ceTargetParameterName env) (ceDefaultTarget env))
            = Inr (hpClient params)
        \<and> (0 < ccMaxResultBytes cfg \<longrightarrow> ResultLimit (hpContext params) = ccMaxResultBytes cfg)
    | None \<Rightarrow> (\<exists>err. r = Inl err) \<or> (\<exists>res. r = Inr res \<and> crIsError res))"
proof (cases "ctRan tr")
  case (Some params)
  from toolCall_ran [OF assms Some] obtain arguments where
    "fst (CheckToolRules (ccConfirmationRules cfg) (ccConfirmationFallback cfg) (sessionElicit (ceSession env))
        (toName tool) (toDestructiveHint tool)) = None"
    "newHandlerParams env (WithResultBudget ctx (ccMaxResultBytes cfg)) cfg arguments
        (GetString arguments (ceTargetParameterName env) (ceDefaultTarget env)) = Inr params"
    by auto
  then show ?thesis
    using Some by (auto simp: newHandlerParams_Inr WithResultBudget_def ResultLimit_def)
next
  case None
  then show ?thesis
    using assms by (auto simp: toolCall_def Let_def NewTextResult_def
        split: sum.splits prod.splits option.splits providerErr.splits if_splits)
qed

lemma ran_result_bounded:
  assumes "toolCall env cfg quote tool handler ctx request = (Inr res, tr)" and "ctRan tr = Some params"
    and "0 < ccMaxResultBytes cfg" and "ccMaxResultBytes cfg \<le> maxSafeLimit"
  shows "int (resultSize (ceMarshal env) res) \<le> ccMaxResultBytes cfg + int (length ResultTruncationNotice)
    \<or> (crIsError res \<and> crContent res = [TextContent ''image block must have data''])"
proof -
  let ?lim = "ccMaxResultBytes cfg"
  from toolCall_ran [OF assms(1,2)] obtain result where
    h: "handler params = Inr result" and
    ok: "rejectOversizedToolResult (ceMarshal env) ?lim (Some result) = None" and res: "res = converted result"
    by (auto split: sum.splits option.splits)
  have bound: "overResultLimit ?lim n = None \<Longrightarrow> int n \<le> ?lim + int (length ResultTruncationNotice)" for n
    using overResultLimit_safe [of ?lim n] assms(3,4) by simp
  show ?thesis
  proof (cases "trError result")
    case (Some e)
    then have "int (length e) \<le> ?lim + int (length ResultTruncationNotice)"
      using ok assms(3) by (intro bound) (simp add: rejectOversizedToolResult_def)
    then show ?thesis using Some res
      by (simp add: converted_def NewMultiContentResult_def NewStructuredResult_def NewTextResult_def
          resultSize_def contentSize_def)
  next
    case None
    then obtain sz where sz: "toolResultSize (ceMarshal env) result = Inr sz" "overResultLimit ?lim sz = None"
      using ok assms(3) by (auto simp: rejectOversizedToolResult_def split: sum.splits)
    show ?thesis
    proof (cases "crIsError res")
      case True
      then show ?thesis using None res
        by (auto simp: converted_def NewMultiContentResult_def NewStructuredResult_def NewTextResult_def
            split: option.splits if_splits)
    next
      case False
      then show ?thesis using converted_size [of result "ceMarshal env" sz] sz bound res by auto
    qed
  qed
qed


definition exampleCallEnv :: "(unit, unit) callEnv" where
  "exampleCallEnv = \<lparr>ceTargetParameterName = ''context'', ceDefaultTarget = ''dev'', ceDerive = (\<lambda>_. Inr ()),
     ceSession = None, ceUnmarshal = (\<lambda>_. Inr Map.empty), ceMarshal = (\<lambda>_. Inr ''{}'')\<rparr>"

definition exampleTool :: serverTool where
  "exampleTool = \<lparr>toName = ''pods_list'', toDescription = [], toTitle = [], toReadOnlyHint = Some True,
     toDestructiveHint = None, toIdempotentHint = None, toOpenWorldHint = None, toMeta = None,
     toInputSchema = None, toOutputSchema = None, toRBAC = None\<rparr>"

definition exampleCallConfig :: callConfig where
  "exampleCallConfig = \<lparr>ccConfirmationRules = [], ccConfirmationFallback = ''allow'', ccMaxResultBytes = 10, ccListOutput = ''table''\<rparr>"

lemma exampleCall:
  "toolCall exampleCallEnv exampleCallConfig id exampleTool (\<lambda>_. Inr (NewToolCallResult ''ok'' None)) None
      (CallToolParamsRaw ''pods_list'' []) =
    (Inr \<lparr>crIsError = False, crContent = [TextContent ''ok''], crStructured = None\<rparr>,
     \<lparr>ctShown = [], ctRan = Some \<lparr>hpContext = Some (Some 10), hpConfig = exampleCallConfig, hpClient = (),
        hpRequest = Map.empty, hpListOutput = ''table''\<rparr>\<rparr>)"
  by (simp add: toolCall_def exampleCallEnv_def exampleCallConfig_def exampleTool_def
      GoSdkToolCallRequestToToolCallRequest_def CheckToolRules_def WithResultBudget_def newHandlerParams_def
      GetString_def NewToolCallResult_def NewToolCallResultFull_def rejectOversizedToolResult_def
      toolResultSize_def overResultLimit_def is_int64_def NewStructuredResult_def)

theorem tool_runs_only_confirmed_witness:
  "ResultLimit (Some (Some 10)) = ccMaxResultBytes exampleCallConfig"
  using tool_runs_only_confirmed [OF exampleCall] by (simp add: exampleCallConfig_def)


text \<open>
  A tool is published exactly when its input schema is of type object, its output schema,
  if any, too, its RBAC declaration, if any, is valid, and its own metadata does not claim the
  RBAC key. The published metadata then carries the declaration under that key and nothing else
  changed in it, and the published input schema has its properties set.
\<close>

lemma published_tool_wellformed:
  "(case ServerToolToGoSdkTool tool of
      Inr sdk \<Rightarrow> (\<exists>schema. toInputSchema tool = Some schema \<and> jsType schema = ''object''
          \<and> jsType (sdInputSchema sdk) = ''object'' \<and> jsProperties (sdInputSchema sdk) \<noteq> None)
        \<and> pred_option (\<lambda>os. jsType os = ''object'') (toOutputSchema tool) \<and> sdOutputSchema sdk = toOutputSchema tool
        \<and> pred_option (\<lambda>r. rbacValidate (Some r) = None) (toRBAC tool)
        \<and> metaLookup (sdMeta sdk) RBACMetadataKey = map_option MetaRBAC (toRBAC tool)
        \<and> (\<forall>k. k = RBACMetadataKey \<or> metaLookup (sdMeta sdk) k = metaLookup (toMeta tool) k)
    | Inl err \<Rightarrow> \<not> (toInputSchema tool \<noteq> None \<and> pred_option (\<lambda>s. jsType s = ''object'') (toInputSchema tool)
        \<and> pred_option (\<lambda>os. jsType os = ''object'') (toOutputSchema tool)
        \<and> pred_option (\<lambda>r. rbacValidate (Some r) = None) (toRBAC tool)
        \<and> metaLookup (toMeta tool) RBACMetadataKey = None))"
  by (auto simp: ServerToolToGoSdkTool_def withRBACMeta_def metaLookup_def Let_def
      split: option.splits if_splits)

text \<open>
  A resource read through the server answers with exactly one of text and binary content, of
  at most the configured size plus one notice, under the URI that was registered (for a
  template, that was requested), and with the handler's MIME type where it gives one.
\<close>

lemma resource_answer_wellformed:
  assumes "0 < ccMaxResultBytes cfg" and "ccMaxResultBytes cfg \<le> maxSafeLimit"
    and "resourceCall (Some (env, cfg)) res handler ctx uri = Inr rr
      \<or> resourceTemplateCall (Some (env, cfg)) res handler ctx uri = Inr rr"
  shows "(rrText rr = []) \<noteq> (rrBlob rr = [])
    \<and> int (length (rrText rr) + length (rrBlob rr)) \<le> ccMaxResultBytes cfg + int (length ResultTruncationNotice)
    \<and> rrURI rr \<in> {sxURI res, uri} \<and> (rrMIMEType rr = sxMIMEType res \<or> rrMIMEType rr \<noteq> [])"
proof -
  let ?lim = "ccMaxResultBytes cfg"
  from assms(3) obtain content where c: "validateResourceContent content = None"
    "resourceWithinLimit ?lim (Some content) = None"
    "rrText rr = rcText content" "rrBlob rr = rcBlob content" "rrURI rr \<in> {sxURI res, uri}"
    "rrMIMEType rr = (if rcMIMEType content \<noteq> [] then rcMIMEType content else sxMIMEType res)"
    by (auto simp: resourceCall_def resourceTemplateCall_def resourceHandlerParams_def withResultBudget_def
        split: sum.splits option.splits)
  have one: "(rcText content = []) \<noteq> (rcBlob content = [])"
    using c(1) by (auto simp: validateResourceContent_def Let_def split: if_splits)
  then have "overResultLimit ?lim (length (rcText content) + length (rcBlob content)) = None"
    using c(2) assms(1) by (auto simp: resourceWithinLimit_def Let_def split: if_splits)
  then show ?thesis using overResultLimit_safe [of ?lim] assms(1,2) one c(3-6) by auto
qed

end
