(* ===== verification/Prompts.thy ===== *)
theory Prompts
  imports MCP_Calls "HOL-Library.Multiset"
begin

text \<open>
  \<open>pkg/prompts/prompts.go\<close>: prompts defined in the configuration, their handler with argument
  substitution, and the merge of configured prompts with the toolsets' own.
\<close>

section \<open>Substitution\<close>

text \<open>\<open>strings.ReplaceAll\<close> for a non-empty pattern: left to right, without overlaps.\<close>

function replaceAll :: "string \<Rightarrow> string \<Rightarrow> string \<Rightarrow> string" where
  "replaceAll s old new =
     (case s of [] \<Rightarrow> []
      | c # cs \<Rightarrow>
          if old \<noteq> [] \<and> hasPrefix s old then new @ replaceAll (drop (length old) s) old new
          else c # replaceAll cs old new)"
  by pat_completeness auto
termination by (relation "measure (\<lambda>(s, _, _). length s)") auto

declare replaceAll.simps [simp del]

record promptTemplate =
  ptRole :: string
  ptContent :: string

record configPrompt =
  cpName :: string
  cpTitle :: string
  cpDescription :: string
  cpArguments :: "promptArgument list"
  cpTemplates :: "promptTemplate list"

definition placeholder :: "string \<Rightarrow> string" where
  "placeholder name = ''{{'' @ name @ ''}}''"

fun substituteArguments :: "string \<Rightarrow> promptArgument list \<Rightarrow> (string \<rightharpoonup> string) \<Rightarrow> string" where
  "substituteArguments content [] args = content"
| "substituteArguments content (a # as) args =
     (case args (paName a) of
        Some val \<Rightarrow> substituteArguments (replaceAll content (placeholder (paName a)) val) as args
      | None \<Rightarrow>
          if \<not> paRequired a
          then substituteArguments (replaceAll content (placeholder (paName a)) []) as args
          else substituteArguments content as args)"

section \<open>The handler of a configured prompt\<close>

fun missingArgument :: "promptArgument list \<Rightarrow> (string \<rightharpoonup> string) \<Rightarrow> string option" where
  "missingArgument [] args = None"
| "missingArgument (a # as) args =
     (if paRequired a \<and> args (paName a) = None then Some (paName a) else missingArgument as args)"

definition createPromptHandler :: "configPrompt \<Rightarrow> (string \<rightharpoonup> string) \<Rightarrow> string + promptResult" where
  "createPromptHandler p args =
     (case missingArgument (cpArguments p) args of
        Some name \<Rightarrow> Inl name
      | None \<Rightarrow>
          Inr \<lparr>prDescription = cpDescription p,
               prMessages = map (\<lambda>t. \<lparr>pmRole = ptRole t, pmType = ''text'',
                 pmText = substituteArguments (ptContent t) (cpArguments p) args\<rparr>) (cpTemplates p),
               prError = None\<rparr>)"

definition ToServerPrompts :: "configPrompt list \<Rightarrow> (serverPrompt \<times> ((string \<rightharpoonup> string) \<Rightarrow> string + promptResult)) list" where
  "ToServerPrompts prompts =
     map (\<lambda>p. (\<lparr>spName = cpName p, spTitle = cpTitle p, spDescription = cpDescription p,
                spArguments = cpArguments p, spRBAC = None\<rparr>, createPromptHandler p)) prompts"

section \<open>Merging prompts\<close>

text \<open>Over any prompts with a name.\<close>

definition MergePrompts :: "('p \<Rightarrow> string) \<Rightarrow> 'p list \<Rightarrow> 'p list \<Rightarrow> 'p list" where
  "MergePrompts name base override =
     (let overrideMap = fold (\<lambda>p m. m(name p \<mapsto> p)) override Map.empty
      in filter (\<lambda>p. overrideMap (name p) = None) base @ override)"

section \<open>Properties\<close>

lemma replaceAll_Nil [simp]: "replaceAll [] old new = []"
  by (simp add: replaceAll.simps)

lemma replaceAll_match: "old \<noteq> [] \<Longrightarrow> replaceAll (old @ s) old new = new @ replaceAll s old new"
proof (cases old)
  case (Cons c cs)
  have "hasPrefix (c # cs @ s) (c # cs)" by (simp add: hasPrefix_def)
  with Cons show ?thesis by (simp add: replaceAll.simps [of "c # cs @ s"])
qed simp

lemma replaceAll_skip: "\<not> hasPrefix (c # s) old \<Longrightarrow> replaceAll (c # s) old new = c # replaceAll s old new"
  by (simp add: replaceAll.simps [of "c # s"])

lemma replaceAll_absent: "\<not> containsSub s old \<Longrightarrow> replaceAll s old new = s"
  by (induction s) (auto simp: replaceAll_skip)

lemma containsSub_open: "CHR ''{'' \<notin> set s \<Longrightarrow> \<not> containsSub s (placeholder n)"
  by (induction s) (auto simp: placeholder_def hasPrefix_def)

lemma replaceAll_prefix:
  assumes "CHR ''{'' \<notin> set t"
  shows "replaceAll (t @ s) (placeholder n) new = t @ replaceAll s (placeholder n) new"
  using assms by (induction t) (auto simp: replaceAll_skip placeholder_def hasPrefix_def)

text \<open>
  A template as alternating text and placeholders, and its rendering. \<open>subst1\<close> is what one round
  of the loop does to a piece.
\<close>

datatype piece = Lit string | Hole string

fun renderPiece :: "piece \<Rightarrow> string" where
  "renderPiece (Lit t) = t"
| "renderPiece (Hole n) = placeholder n"

definition renderPieces :: "piece list \<Rightarrow> string" where
  "renderPieces ps = concat (map renderPiece ps)"

fun subst1 :: "string \<Rightarrow> string \<Rightarrow> piece \<Rightarrow> piece" where
  "subst1 n v (Lit t) = Lit t"
| "subst1 n v (Hole m) = (if m = n then Lit v else Hole m)"

fun pieceOk :: "piece \<Rightarrow> bool" where
  "pieceOk (Lit t) = (CHR ''{'' \<notin> set t \<and> CHR ''}'' \<notin> set t)"
| "pieceOk (Hole n) = (CHR ''{'' \<notin> set n \<and> CHR ''}'' \<notin> set n)"

lemma placeholder_no_prefix:
  assumes "CHR ''}'' \<notin> set n" "CHR ''}'' \<notin> set m" "n \<noteq> m"
  shows "\<not> hasPrefix (placeholder m @ s) (placeholder n)"
proof
  assume "hasPrefix (placeholder m @ s) (placeholder n)"
  then obtain r where "m @ CHR ''}'' # CHR ''}'' # s = n @ CHR ''}'' # CHR ''}'' # r"
    by (auto simp: hasPrefix_iff placeholder_def)
  then have "goSplit CHR ''}'' (m @ CHR ''}'' # CHR ''}'' # s) = goSplit CHR ''}'' (n @ CHR ''}'' # CHR ''}'' # r)"
    by simp
  then show False using assms by (simp add: goSplit_append)
qed

lemma replaceAll_other:
  assumes "pieceOk (Hole n)" "pieceOk (Hole m)" "n \<noteq> m"
  shows "replaceAll (placeholder m @ s) (placeholder n) new = placeholder m @ replaceAll s (placeholder n) new"
proof -
  have a: "\<not> hasPrefix (placeholder m @ s) (placeholder n)"
    using assms by (intro placeholder_no_prefix) auto
  have b: "\<not> hasPrefix (CHR ''{'' # m @ ''}}'' @ s) (placeholder n)"
    using assms by (cases m) (auto simp: placeholder_def hasPrefix_def)
  have "replaceAll (placeholder m @ s) (placeholder n) new
      = ''{{'' @ replaceAll ((m @ ''}}'') @ s) (placeholder n) new"
    using replaceAll_skip [of "CHR ''{''" "CHR ''{'' # m @ ''}}'' @ s" "placeholder n" new]
      replaceAll_skip [of "CHR ''{''" "m @ ''}}'' @ s" "placeholder n" new] a b
    by (simp add: placeholder_def)
  also have "\<dots> = ''{{'' @ (m @ ''}}'') @ replaceAll s (placeholder n) new"
    using assms by (subst replaceAll_prefix) auto
  finally show ?thesis by (simp add: placeholder_def)
qed

lemma replaceAll_pieces:
  assumes "list_all pieceOk ps" and "pieceOk (Hole n)"
  shows "replaceAll (renderPieces ps) (placeholder n) v = renderPieces (map (subst1 n v) ps)"
  using assms(1)
proof (induction ps)
  case (Cons p ps)
  show ?case
  proof (cases p)
    case (Lit t)
    then show ?thesis using Cons by (simp add: renderPieces_def replaceAll_prefix)
  next
    case (Hole m)
    have "placeholder m \<noteq> []" by (simp add: placeholder_def)
    with Hole Cons assms(2) show ?thesis
      by (cases "m = n") (simp_all add: renderPieces_def replaceAll_match replaceAll_other)
  qed
qed (simp add: renderPieces_def)

text \<open>The value of an argument: supplied, or empty when it is optional.\<close>

definition argValue :: "(string \<rightharpoonup> string) \<Rightarrow> promptArgument \<Rightarrow> string" where
  "argValue args a = (case args (paName a) of Some v \<Rightarrow> v | None \<Rightarrow> [])"

definition argSubst :: "(string \<rightharpoonup> string) \<Rightarrow> promptArgument list \<Rightarrow> piece \<Rightarrow> piece" where
  "argSubst args as p = (case p of Lit t \<Rightarrow> Lit t
     | Hole m \<Rightarrow> (case find (\<lambda>a. paName a = m) as of Some a \<Rightarrow> Lit (argValue args a) | None \<Rightarrow> Hole m))"

lemma substituteArguments_pieces:
  assumes "list_all pieceOk ps" and "missingArgument as args = None"
    and "\<forall>a \<in> set as. pieceOk (Hole (paName a)) \<and> pieceOk (Lit (argValue args a))"
  shows "substituteArguments (renderPieces ps) as args = renderPieces (map (argSubst args as) ps)"
  using assms
proof (induction as arbitrary: ps)
  case Nil
  have "map (argSubst args []) ps = ps" by (intro map_idI) (simp add: argSubst_def split: piece.splits)
  then show ?case by simp
next
  case (Cons a as)
  let ?qs = "map (subst1 (paName a) (argValue args a)) ps"
  have step: "substituteArguments (renderPieces ps) (a # as) args = substituteArguments (renderPieces ?qs) as args"
    using Cons.prems replaceAll_pieces [OF Cons.prems(1), of "paName a"]
    by (auto simp: argValue_def split: option.splits if_splits)
  have "list_all pieceOk ?qs"
    using Cons.prems(1,3) by (auto simp: list_all_iff) (metis pieceOk.simps subst1.elims)
  then have "substituteArguments (renderPieces ?qs) as args = renderPieces (map (argSubst args as) ?qs)"
    using Cons.prems by (intro Cons.IH) (auto split: if_splits)
  moreover have "argSubst args as (subst1 (paName a) (argValue args a) p) = argSubst args (a # as) p" for p
    by (cases p) (auto simp: argSubst_def)
  ultimately show ?case using step by (simp add: comp_def)
qed

text \<open>
  For a template whose text and whose argument names and values are free of braces, the
  handler of a configured prompt substitutes every declared placeholder at once: a supplied
  argument by its value, an optional one that was not supplied by nothing, and undeclared
  placeholders stay. Without a required argument it fails and names the first one missing.
\<close>

lemma prompt_substitution:
  assumes "list_all pieceOk ps" and "cpTemplates p = [\<lparr>ptRole = role, ptContent = renderPieces ps\<rparr>]"
    and "\<forall>a \<in> set (cpArguments p). pieceOk (Hole (paName a)) \<and> pieceOk (Lit (argValue args a))"
  shows "createPromptHandler p args =
    (case find (\<lambda>a. paRequired a \<and> args (paName a) = None) (cpArguments p) of
       Some a \<Rightarrow> Inl (paName a)
     | None \<Rightarrow> Inr \<lparr>prDescription = cpDescription p,
         prMessages = [\<lparr>pmRole = role, pmType = ''text'',
           pmText = renderPieces (map (argSubst args (cpArguments p)) ps)\<rparr>], prError = None\<rparr>)"
proof -
  have m: "missingArgument as args = map_option paName (find (\<lambda>a. paRequired a \<and> args (paName a) = None) as)" for as
    by (induction as) auto
  show ?thesis
    using substituteArguments_pieces [OF assms(1) _ assms(3)] assms(2) m [of "cpArguments p"]
    by (auto simp: createPromptHandler_def split: option.splits)
qed

text \<open>
  An argument's value is scanned again by the rounds of the arguments declared after it: a
  value that looks like a later placeholder is replaced by that argument's value.
\<close>

lemma prompt_values_are_rescanned:
  "createPromptHandler
     \<lparr>cpName = ''p'', cpTitle = [], cpDescription = [],
      cpArguments = [\<lparr>paName = ''a'', paDescription = [], paRequired = True\<rparr>,
                     \<lparr>paName = ''b'', paDescription = [], paRequired = True\<rparr>],
      cpTemplates = [\<lparr>ptRole = ''user'', ptContent = ''{{a}}''\<rparr>]\<rparr>
     [''a'' \<mapsto> ''{{b}}'', ''b'' \<mapsto> ''x''] =
   Inr \<lparr>prDescription = [], prMessages = [\<lparr>pmRole = ''user'', pmType = ''text'', pmText = ''x''\<rparr>], prError = None\<rparr>"
  by (simp add: createPromptHandler_def placeholder_def replaceAll.simps hasPrefix_def)

lemma overrideMap_None: "fold (\<lambda>p m. m(name p \<mapsto> p)) ps m k = None \<longleftrightarrow> m k = None \<and> k \<notin> name ` set ps"
  by (induction ps arbitrary: m) auto

text \<open>
  Merging keeps every overriding prompt and exactly the base prompts whose name is not
  overridden, in their order; when neither list repeats a name, neither does the merge, so each
  name has one prompt and the overriding one wins.
\<close>

lemma merge_prompts_override_wins:
  "MergePrompts name base override = filter (\<lambda>p. name p \<notin> name ` set override) base @ override
   \<and> (if distinct (map name base) \<and> distinct (map name override)
      then distinct (map name (MergePrompts name base override)) else True)"
proof -
  have "MergePrompts name base override = filter (\<lambda>p. name p \<notin> name ` set override) base @ override"
    by (simp add: MergePrompts_def overrideMap_None Let_def)
  then show ?thesis by (auto simp: distinct_map_filter)
qed

end
