(* ===== verification/Registries.thy ===== *)
theory Registries
  imports Go_Prelude "HOL-Library.Multiset"
begin

text \<open>
  The process-wide registries filled by \<open>init\<close> functions: toolsets (\<open>pkg/toolsets\<close>), cluster
  providers (\<open>pkg/kubernetes/provider_registry.go\<close>), request validators
  (\<open>pkg/kubernetes/validator_registry.go\<close>), token exchangers (\<open>pkg/tokenexchange/registry.go\<close>)
  and extended configuration parsers (\<open>pkg/config/extended.go\<close>). They share one contract, the
  locale \<open>registry\<close>: registering a name twice panics (\<^const>\<open>None\<close>), a lookup returns what was
  registered, and the listing is sorted, so that neither the order in which Go runs \<open>init\<close>
  functions nor its random map iteration is visible.
\<close>

section \<open>The contract\<close>

locale registry =
  fixes register :: "string \<Rightarrow> 'a \<Rightarrow> 'r \<Rightarrow> 'r option"
    and lookup :: "string \<Rightarrow> 'r \<Rightarrow> 'a option"
    and names :: "'r \<Rightarrow> string list"
    and wf :: "'r \<Rightarrow> bool"
    and init :: 'r
  assumes wf_init: "wf init"
    and lookup_init: "lookup k init = None"
    and register_panics: "wf r \<Longrightarrow> register k v r = None \<longleftrightarrow> lookup k r \<noteq> None"
    and register_wf: "wf r \<Longrightarrow> register k v r = Some r' \<Longrightarrow> wf r'"
    and register_lookup: "wf r \<Longrightarrow> register k v r = Some r' \<Longrightarrow> lookup j r' = (if j = k then Some v else lookup j r)"
    and names_set: "wf r \<Longrightarrow> set (names r) = {k. lookup k r \<noteq> None}"
    and names_sorted: "wf r \<Longrightarrow> sorted (names r) \<and> distinct (names r)"
begin

fun registerAll :: "(string \<times> 'a) list \<Rightarrow> 'r \<Rightarrow> 'r option" where
  "registerAll [] r = Some r"
| "registerAll ((k, v) # kvs) r = Option.bind (register k v r) (registerAll kvs)"

lemma registerAll_spec:
  assumes "wf r" and "distinct (map fst kvs)" and "\<forall>k \<in> set (map fst kvs). lookup k r = None"
  shows "\<exists>r'. registerAll kvs r = Some r' \<and> wf r' \<and>
    (\<forall>k. lookup k r' = (case map_of kvs k of Some v \<Rightarrow> Some v | None \<Rightarrow> lookup k r))"
  using assms
proof (induction kvs arbitrary: r)
  case (Cons kv kvs)
  obtain k v where kv: "kv = (k, v)" by (cases kv)
  obtain r1 where r1: "register k v r = Some r1"
    using register_panics [OF Cons.prems(1), of k v] Cons.prems(3) kv by (cases "register k v r") auto
  note lk = register_lookup [OF Cons.prems(1) r1]
  have "\<forall>j \<in> set (map fst kvs). lookup j r1 = None"
    using Cons.prems(2,3) kv lk by auto
  then obtain r' where r': "registerAll kvs r1 = Some r'" "wf r'"
      "\<forall>k. lookup k r' = (case map_of kvs k of Some v \<Rightarrow> Some v | None \<Rightarrow> lookup k r1)"
    using Cons.IH [of r1] register_wf [OF Cons.prems(1) r1] Cons.prems(2) by auto
  have "map_of kvs k = None" using Cons.prems(2) kv by (simp add: map_of_eq_None_iff)
  with r' r1 kv lk show ?case by (intro exI [of _ r']) (auto split: option.splits)
qed simp

lemma registerAll_duplicate:
  assumes "wf r" and "\<not> distinct (map fst kvs) \<or> (\<exists>k \<in> set (map fst kvs). lookup k r \<noteq> None)"
  shows "registerAll kvs r = None"
  using assms
proof (induction kvs arbitrary: r)
  case (Cons kv kvs)
  obtain k v where kv: "kv = (k, v)" by (cases kv)
  show ?case
  proof (cases "register k v r")
    case (Some r1)
    have none: "lookup k r = None" using register_panics [OF Cons.prems(1), of k v] Some by auto
    note lk = register_lookup [OF Cons.prems(1) Some]
    have "\<not> distinct (map fst kvs) \<or> (\<exists>j \<in> set (map fst kvs). lookup j r1 \<noteq> None)"
      using Cons.prems(2) kv lk none by auto
    with Some Cons.IH [OF register_wf [OF Cons.prems(1) Some]] kv show ?thesis by simp
  qed (simp add: kv)
qed simp

lemma names_determined: "wf r \<Longrightarrow> wf r' \<Longrightarrow> \<forall>k. lookup k r = lookup k r' \<Longrightarrow> names r = names r'"
  using names_set names_sorted by (intro sorted_distinct_set_unique) auto

lemma registerAll_init:
  assumes "distinct (map fst kvs)"
  shows "\<exists>r. registerAll kvs init = Some r \<and> wf r \<and> (\<forall>k. lookup k r = map_of kvs k)
    \<and> names r = sort (map fst kvs)"
proof -
  obtain r where r: "registerAll kvs init = Some r" "wf r"
      "\<forall>k. lookup k r = (case map_of kvs k of Some v \<Rightarrow> Some v | None \<Rightarrow> lookup k init)"
    using registerAll_spec [OF wf_init assms] by (auto simp: lookup_init)
  have lk: "\<forall>k. lookup k r = map_of kvs k"
  proof
    fix k show "lookup k r = map_of kvs k" using r(3) lookup_init by (cases "map_of kvs k") simp_all
  qed
  have "set (names r) = dom (map_of kvs)" using names_set [OF r(2)] lk by auto
  then have "names r = sort (map fst kvs)"
    using assms names_sorted [OF r(2)]
    by (intro sorted_distinct_set_unique) (simp_all add: dom_map_of_conv_image_fst)
  with r lk show ?thesis by blast
qed

lemma registerAll_order_irrelevant:
  assumes "distinct (map fst kvs)" and "mset kvs = mset kvs'"
  shows "\<exists>r r'. registerAll kvs init = Some r \<and> registerAll kvs' init = Some r'
    \<and> names r = names r' \<and> (\<forall>k. lookup k r = lookup k r')"
proof -
  have d': "distinct (map fst kvs')"
    using assms by (metis mset_map mset_eq_imp_distinct_iff)
  have "map_of kvs = map_of kvs'"
    using map_of_inject_set [OF assms(1) d'] mset_eq_setD [OF assms(2)] by simp
  moreover have "sort (map fst kvs) = sort (map fst kvs')"
    using assms(2) by (metis mset_map mset_sort properties_for_sort sorted_sort)
  ultimately show ?thesis using registerAll_init [OF assms(1)] registerAll_init [OF d'] by metis
qed

end

section \<open>Go maps as registries\<close>

type_synonym 'a goRegistry = "(string \<times> 'a) list"

definition sortedKeys :: "'a goRegistry \<Rightarrow> string list" where
  "sortedKeys m = sort (map fst m)"

lemma sortedKeys_registry_laws:
  assumes "distinct (map fst m)"
  shows "set (sortedKeys m) = {k. map_of m k \<noteq> None}" "sorted (sortedKeys m) \<and> distinct (sortedKeys m)"
  using assms by (auto simp: sortedKeys_def dom_map_of_conv_image_fst [symmetric] domD)

subsection \<open>Cluster providers\<close>

definition providerRegister :: "string \<Rightarrow> 'f \<Rightarrow> 'f goRegistry \<Rightarrow> 'f goRegistry option" where
  "providerRegister strategy factory r =
     (if map_of r strategy \<noteq> None then None else Some (assocUpd strategy factory r))"

definition providerStrategies :: "'f goRegistry \<Rightarrow> string list" where
  "providerStrategies r = sortedKeys r"

text \<open>The error carries the requested strategy and the available ones.\<close>

definition providerGet :: "string \<Rightarrow> 'f goRegistry \<Rightarrow> (string \<times> string list) + 'f" where
  "providerGet strategy r =
     (case map_of r strategy of
        None \<Rightarrow> Inl (strategy, providerStrategies r)
      | Some factory \<Rightarrow> Inr factory)"

interpretation providers: registry providerRegister "\<lambda>k r. map_of r k" providerStrategies
    "\<lambda>r. distinct (map fst r)" "[]"
  by unfold_locales
    (auto simp: providerRegister_def providerStrategies_def sortedKeys_registry_laws
      distinct_keys_assocUpd split: if_splits)

subsection \<open>Token exchangers\<close>

definition exchangerRegister :: "string \<Rightarrow> 'x \<Rightarrow> 'x goRegistry \<Rightarrow> 'x goRegistry option" where
  "exchangerRegister strategy exchanger r =
     (if map_of r strategy \<noteq> None then None else Some (assocUpd strategy exchanger r))"

definition exchangerGet :: "string \<Rightarrow> 'x goRegistry \<Rightarrow> 'x option" where
  "exchangerGet strategy r = map_of r strategy"

definition exchangerStrategies :: "'x goRegistry \<Rightarrow> string list" where
  "exchangerStrategies r = sortedKeys r"

interpretation exchangers: registry exchangerRegister exchangerGet exchangerStrategies
    "\<lambda>r. distinct (map fst r)" "[]"
  by unfold_locales
    (auto simp: exchangerRegister_def exchangerGet_def exchangerStrategies_def sortedKeys_registry_laws
      distinct_keys_assocUpd split: if_splits)

subsection \<open>Request validators\<close>

definition validatorRegister :: "string \<Rightarrow> ('p \<Rightarrow> 'v) \<Rightarrow> ('p \<Rightarrow> 'v) goRegistry \<Rightarrow> ('p \<Rightarrow> 'v) goRegistry option" where
  "validatorRegister name factory r =
     (if map_of r name \<noteq> None then None else Some (assocUpd name factory r))"

definition createAll :: "'p \<Rightarrow> ('p \<Rightarrow> 'v) goRegistry \<Rightarrow> 'v list" where
  "createAll providers r = map (\<lambda>name. the (map_of r name) providers) (sortedKeys r)"

interpretation validators: registry validatorRegister "\<lambda>k r. map_of r k" sortedKeys
    "\<lambda>r. distinct (map fst r)" "[]"
  by unfold_locales
    (auto simp: validatorRegister_def sortedKeys_registry_laws distinct_keys_assocUpd split: if_splits)

subsection \<open>Extended configuration parsers\<close>

definition parserRegister :: "string \<Rightarrow> 'p \<Rightarrow> 'p goRegistry \<Rightarrow> 'p goRegistry option" where
  "parserRegister name parser r =
     (if map_of r name \<noteq> None then None else Some (assocUpd name parser r))"

interpretation parsers: registry parserRegister "\<lambda>k r. map_of r k" sortedKeys
    "\<lambda>r. distinct (map fst r)" "[]"
  by unfold_locales
    (auto simp: parserRegister_def sortedKeys_registry_laws distinct_keys_assocUpd split: if_splits)

subsection \<open>Toolsets\<close>

text \<open>A toolset is known here by its name; the registry never looks at the rest of it.\<close>

record 'c toolset =
  tsName :: string
  tsContent :: 'c

definition toolsetRegister :: "'c toolset \<Rightarrow> 'c toolset goRegistry \<Rightarrow> 'c toolset goRegistry option" where
  "toolsetRegister toolset r =
     (let name = tsName toolset
      in if map_of r name \<noteq> None then None else Some (assocUpd name toolset r))"

definition toolsetGet :: "string \<Rightarrow> 'c toolset goRegistry \<Rightarrow> 'c toolset option" where
  "toolsetGet name r = map_of r name"

definition Toolsets :: "'c toolset goRegistry \<Rightarrow> 'c toolset list" where
  "Toolsets r = sort_key tsName (map snd r)"

definition ToolsetNames :: "'c toolset goRegistry \<Rightarrow> string list" where
  "ToolsetNames r = sort (map tsName (Toolsets r))"

definition ToolsetFromString :: "string \<Rightarrow> 'c toolset goRegistry \<Rightarrow> 'c toolset option" where
  "ToolsetFromString name r = toolsetGet (trimSpace name) r"

text \<open>The error carries the unknown names and the valid ones.\<close>

definition toolsetsValidate ::
    "string list \<Rightarrow> 'c toolset goRegistry \<Rightarrow> (string list \<times> string list) option" where
  "toolsetsValidate toolsets r =
     (let unknown = filter (\<lambda>toolset. ToolsetFromString toolset r = None) toolsets
      in if unknown = [] then None else Some (unknown, ToolsetNames r))"

text \<open>Registered under its own name: the invariant of this registry.\<close>

definition wfToolsets :: "'c toolset goRegistry \<Rightarrow> bool" where
  "wfToolsets r \<longleftrightarrow> distinct (map fst r) \<and> map fst r = map (tsName \<circ> snd) r"

definition toolsetRegisterAt :: "string \<Rightarrow> 'c \<Rightarrow> 'c toolset goRegistry \<Rightarrow> 'c toolset goRegistry option" where
  "toolsetRegisterAt name content r = toolsetRegister \<lparr>tsName = name, tsContent = content\<rparr> r"

lemma mset_Toolsets: "mset (Toolsets r) = mset (map snd r)"
  by (simp add: Toolsets_def)

lemma ToolsetNames_eq: "wfToolsets r \<Longrightarrow> ToolsetNames r = sortedKeys r"
proof -
  assume wf: "wfToolsets r"
  have "mset (map tsName (Toolsets r)) = mset (map (tsName \<circ> snd) r)"
    by (metis list.map_comp mset_Toolsets mset_map)
  also have "\<dots> = mset (map fst r)" using wf by (simp only: wfToolsets_def)
  finally show ?thesis unfolding ToolsetNames_def sortedKeys_def
    by (metis mset_sort properties_for_sort sorted_sort)
qed

lemma assocUpd_fresh: "map_of r k = None \<Longrightarrow> assocUpd k v r = r @ [(k, v)]"
  by (induction k v r rule: assocUpd.induct) (auto split: if_splits)

interpretation toolsets: registry toolsetRegisterAt
    "\<lambda>k r. map_option tsContent (toolsetGet k r)" ToolsetNames wfToolsets "[]"
proof
  fix k :: string and v :: 'c and r r' :: "'c toolset goRegistry" and j
  show "wfToolsets ([] :: 'c toolset goRegistry)" by (simp add: wfToolsets_def)
  show "map_option tsContent (toolsetGet k ([] :: 'c toolset goRegistry)) = None" by (simp add: toolsetGet_def)
  assume wf: "wfToolsets r"
  show "toolsetRegisterAt k v r = None \<longleftrightarrow> map_option tsContent (toolsetGet k r) \<noteq> None"
    by (auto simp: toolsetRegisterAt_def toolsetRegister_def toolsetGet_def Let_def)
  show "set (ToolsetNames r) = {k. map_option tsContent (toolsetGet k r) \<noteq> None}"
    using wf sortedKeys_registry_laws(1) [of r] by (auto simp: ToolsetNames_eq toolsetGet_def wfToolsets_def)
  show "sorted (ToolsetNames r) \<and> distinct (ToolsetNames r)"
    using wf sortedKeys_registry_laws(2) [of r] by (simp add: ToolsetNames_eq wfToolsets_def)
  assume reg: "toolsetRegisterAt k v r = Some r'"
  then have r': "r' = assocUpd k \<lparr>tsName = k, tsContent = v\<rparr> r" "map_of r k = None"
    by (auto simp: toolsetRegisterAt_def toolsetRegister_def Let_def split: if_splits)
  show "wfToolsets r'"
    using wf r' by (simp add: assocUpd_fresh wfToolsets_def map_of_eq_None_iff)
  show "map_option tsContent (toolsetGet j r') = (if j = k then Some v else map_option tsContent (toolsetGet j r))"
    using r' by (simp add: toolsetGet_def)
qed

text \<open>The \<open>init\<close> functions, run one after the other.\<close>

fun registerToolsets :: "'c toolset list \<Rightarrow> 'c toolset goRegistry \<Rightarrow> 'c toolset goRegistry option" where
  "registerToolsets [] r = Some r"
| "registerToolsets (t # ts) r = Option.bind (toolsetRegister t r) (registerToolsets ts)"

lemma toolsetRegisterAt_self: "toolsetRegisterAt (tsName t) (tsContent t) r = toolsetRegister t r"
  by (cases t) (simp add: toolsetRegisterAt_def)

lemma registerToolsets_registerAll:
  "registerToolsets ts = toolsets.registerAll (map (\<lambda>t. (tsName t, tsContent t)) ts)"
proof (induction ts)
  case (Cons t ts)
  show ?case by (rule ext) (simp add: Cons toolsetRegisterAt_self)
qed (rule ext, simp)

lemma registerToolsets_listing: "registerToolsets ts r = Some r' \<Longrightarrow> map snd r' = map snd r @ ts"
  by (induction ts arbitrary: r)
    (auto simp: toolsetRegister_def Let_def assocUpd_fresh bind_eq_Some_conv split: if_splits)

lemma sort_key_permuted:
  assumes "distinct (map f xs)" and "mset xs = mset ys"
  shows "sort_key f xs = sort_key f ys"
  using assms by (intro sort_key_inj_key_eq) (simp_all add: distinct_map)

text \<open>
  Toolset registration is independent of the order in which the packages' \<open>init\<close> functions
  run: with distinct names every order succeeds and yields the same listing, sorted by name,
  and a configured name is valid exactly when it is, up to surrounding blanks, one of the
  registered names. With a repeated name every order panics.
\<close>

lemma toolset_registration_order:
  assumes "mset ts = mset ts'"
  shows "if distinct (map tsName ts)
    then \<exists>r r'. registerToolsets ts [] = Some r \<and> registerToolsets ts' [] = Some r'
      \<and> Toolsets r = sort_key tsName ts \<and> Toolsets r' = Toolsets r
      \<and> ToolsetNames r = sort (map tsName ts)
      \<and> (\<forall>n. toolsetsValidate [n] r = None \<longleftrightarrow> trimSpace n \<in> tsName ` set ts)
    else registerToolsets ts [] = None \<and> registerToolsets ts' [] = None"
proof -
  let ?kv = "\<lambda>t. (tsName t, tsContent t)"
  have keys: "map fst (map ?kv xs) = map tsName xs" for xs :: "'a toolset list" by simp
  have d: "distinct (map tsName ts') = distinct (map tsName ts)"
    using assms by (metis mset_eq_imp_distinct_iff mset_map)
  show ?thesis
  proof (cases "distinct (map tsName ts)")
    case True
    have d': "distinct (map fst (map ?kv ts))" "distinct (map fst (map ?kv ts'))"
      using True d by (simp_all only: keys)
    from toolsets.registerAll_init [OF d'(1)] obtain r where r: "registerToolsets ts [] = Some r"
        "\<forall>k. map_option tsContent (toolsetGet k r) = map_of (map ?kv ts) k" "ToolsetNames r = sort (map tsName ts)"
      by (auto simp: registerToolsets_registerAll comp_def)
    from toolsets.registerAll_init [OF d'(2)] obtain r' where r': "registerToolsets ts' [] = Some r'"
      by (auto simp: registerToolsets_registerAll comp_def)
    have l: "Toolsets r = sort_key tsName ts" "Toolsets r' = sort_key tsName ts'"
      using registerToolsets_listing [OF r(1)] registerToolsets_listing [OF r'] by (simp_all add: Toolsets_def)
    have v: "toolsetsValidate [n] r = None \<longleftrightarrow> trimSpace n \<in> tsName ` set ts" for n
    proof -
      have "toolsetsValidate [n] r = None \<longleftrightarrow> map_of (map ?kv ts) (trimSpace n) \<noteq> None"
        unfolding r(2) [rule_format, symmetric] by (auto simp: toolsetsValidate_def ToolsetFromString_def)
      then show ?thesis by (auto simp: map_of_eq_None_iff image_iff)
    qed
    show ?thesis using True r r' l v sort_key_permuted [OF True assms] by auto
  next
    case False
    then have "\<not> distinct (map fst (map ?kv ts))" "\<not> distinct (map fst (map ?kv ts'))"
      using d by (simp_all only: keys) simp_all
    then show ?thesis
      using False toolsets.registerAll_duplicate [OF toolsets.wf_init]
      by (simp only: registerToolsets_registerAll if_False) blast
  qed
qed

end
