(* ===== verification/Tool_Surface.thy ===== *)
theory Tool_Surface
  imports Prompts Registries
begin

text \<open>
  \<open>pkg/mcp/mcp.go\<close>, \<open>tool_filter.go\<close>, \<open>tool_mutator.go\<close> and \<open>prompt_mutator.go\<close>: which tools,
  prompts and resources the server offers under a configuration, and how a configuration is
  installed. What the toolsets contribute, the URL parsers, the cluster provider and the SDK's
  catalogs are parameters; the catalogs' documented behaviour (add replaces by key, remove
  deletes by key) is the predicate \<open>catLaws\<close>.
\<close>

section \<open>Tools with their switches\<close>

record toolApp =
  taId :: nat
  taURI :: string
  taName :: string
  taDescription :: string
  taMeta :: metaMap
  taHasHandler :: bool

record surfaceTool =
  stTool :: serverTool
  stApp :: "toolApp option"
  stClusterAware :: "bool option"
  stTargetListProvider :: "bool option"
  stCompatibility :: "bool list"

definition IsClusterAware :: "surfaceTool \<Rightarrow> bool" where
  "IsClusterAware t = (case stClusterAware t of Some b \<Rightarrow> b | None \<Rightarrow> True)"

definition IsTargetListProvider :: "surfaceTool \<Rightarrow> bool" where
  "IsTargetListProvider t = (case stTargetListProvider t of Some b \<Rightarrow> b | None \<Rightarrow> False)"

text \<open>\<open>parseURL\<close> gives an error or the scheme and host of a URI.\<close>

datatype appErr = InvalidAppURI string string | AppURINotAbsolute string | AppURINotUI string | NilAppHandler

definition appValidate :: "(string \<Rightarrow> string + string \<times> string) \<Rightarrow> toolApp \<Rightarrow> appErr option" where
  "appValidate parseURL a =
     (case parseURL (taURI a) of
        Inl err \<Rightarrow> Some (InvalidAppURI (taURI a) err)
      | Inr (scheme, host) \<Rightarrow>
          if scheme = [] then Some (AppURINotAbsolute (taURI a))
          else if scheme \<noteq> ''ui'' \<or> host = [] then Some (AppURINotUI (taURI a))
          else if \<not> taHasHandler a then Some NilAppHandler
          else None)"

text \<open>The part of a configuration that decides the surface; a nil list is None.\<close>

record surfaceCfg =
  sfReadOnly :: bool
  sfDisableDestructive :: bool
  sfEnabledTools :: "string list option"
  sfOptInTools :: "string list"
  sfDisabledTools :: "string list option"
  sfCompatibilityFilters :: bool
  sfAppsEnabled :: bool
  sfToolOverrides :: "(string \<rightharpoonup> string) option"
  sfToolsets :: "string list"
  sfPrompts :: "configPrompt list"

section \<open>Filters\<close>

fun CompositeFilter :: "('t \<Rightarrow> bool) list \<Rightarrow> 't \<Rightarrow> bool" where
  "CompositeFilter [] tool = True"
| "CompositeFilter (f # filters) tool = (if \<not> f tool then False else CompositeFilter filters tool)"

text \<open>
  The results of the compatibility filters in the order in which they arrive on the channel;
  with several filters that order is not determined.
\<close>

fun receiveLoop :: "bool list \<Rightarrow> bool" where
  "receiveLoop [] = True"
| "receiveLoop (r # rs) = (if \<not> r then False else receiveLoop rs)"

definition targetCompatible :: "(bool list \<Rightarrow> bool list) \<Rightarrow> bool list \<Rightarrow> bool" where
  "targetCompatible arrival filters =
     (case filters of [] \<Rightarrow> True | [f] \<Rightarrow> f | _ \<Rightarrow> receiveLoop (arrival filters))"

definition isToolApplicable :: "(bool list \<Rightarrow> bool list) \<Rightarrow> surfaceCfg \<Rightarrow> surfaceTool \<Rightarrow> bool" where
  "isToolApplicable arrival c t =
     (if sfReadOnly c \<and> \<not> derefFalse (toReadOnlyHint (stTool t)) then False
      else if sfDisableDestructive c \<and> derefFalse (toDestructiveHint (stTool t)) then False
      else if sfEnabledTools c \<noteq> None \<and> toName (stTool t) \<notin> set (the (sfEnabledTools c))
              \<and> toName (stTool t) \<notin> set (sfOptInTools c) then False
      else if sfDisabledTools c \<noteq> None \<and> toName (stTool t) \<in> set (the (sfDisabledTools c)) then False
      else if sfCompatibilityFilters c \<and> \<not> targetCompatible arrival (stCompatibility t) then False
      else True)"

definition KubeConfigTargetParameterName :: string where
  "KubeConfigTargetParameterName = ''context''"

definition ShouldIncludeTargetListTool :: "string \<Rightarrow> bool \<Rightarrow> surfaceTool \<Rightarrow> bool" where
  "ShouldIncludeTargetListTool targetName isMultiTarget t =
     (if \<not> IsTargetListProvider t then True
      else if \<not> isMultiTarget then False
      else if toName (stTool t) = ''configuration_contexts_list''
              \<and> targetName \<noteq> KubeConfigTargetParameterName then False
      else if toName (stTool t) = targetName @ ''_list''
              \<and> targetName = KubeConfigTargetParameterName then False
      else True)"

definition configurationViewToolName :: string where
  "configurationViewToolName = ''configuration_view''"

definition ShouldIncludeConfigurationViewTool :: "bool \<Rightarrow> string list \<Rightarrow> surfaceTool \<Rightarrow> bool" where
  "ShouldIncludeConfigurationViewTool isHTTP enabledTools t \<longleftrightarrow>
     \<not> isHTTP \<or> toName (stTool t) \<noteq> configurationViewToolName \<or> toName (stTool t) \<in> set enabledTools"

section \<open>Mutators\<close>

fun ComposeMutators :: "('t \<Rightarrow> 't) list \<Rightarrow> 't \<Rightarrow> 't" where
  "ComposeMutators [] tool = tool"
| "ComposeMutators (m # mutators) tool = ComposeMutators mutators (m tool)"

definition createTargetProperty :: "string \<Rightarrow> string \<Rightarrow> goVal" where
  "createTargetProperty defaultCluster targetName =
     GMap [(''type'', GStr ''string''),
           (''description'', GStr (''Optional parameter selecting which '' @ targetName
              @ '' to run the tool in. Defaults to '' @ defaultCluster @ '' if not set''))]"

definition WithTargetParameter :: "string \<Rightarrow> string \<Rightarrow> bool \<Rightarrow> surfaceTool \<Rightarrow> surfaceTool" where
  "WithTargetParameter defaultCluster targetParameterName isMultiTarget t =
     (if \<not> IsClusterAware t then t
      else
        let schema = (case toInputSchema (stTool t) of
                        None \<Rightarrow> \<lparr>jsType = ''object'', jsProperties = None\<rparr> | Some s \<Rightarrow> s);
            props = (case jsProperties schema of None \<Rightarrow> Map.empty | Some p \<Rightarrow> p);
            props = (if isMultiTarget
                     then props(targetParameterName \<mapsto> createTargetProperty defaultCluster targetParameterName)
                     else props)
        in t\<lparr>stTool := (stTool t)\<lparr>toInputSchema := Some (schema\<lparr>jsProperties := Some props\<rparr>)\<rparr>\<rparr>)"

definition TargetsListToolName :: string where
  "TargetsListToolName = ''targets_list''"

definition capitalizeFirst :: "string \<Rightarrow> string" where
  "capitalizeFirst s = (case s of [] \<Rightarrow> [] | c # cs \<Rightarrow> upperChar c # cs)"

text \<open>The replacement of the tool's handler is the target list, modelled below.\<close>

definition WithTargetListTool :: "string \<Rightarrow> surfaceTool \<Rightarrow> surfaceTool" where
  "WithTargetListTool targetParameterName t =
     (if toName (stTool t) \<noteq> TargetsListToolName then t
      else t\<lparr>stTool := (stTool t)\<lparr>
             toName := targetParameterName @ ''_list'',
             toDescription := ''List all available '' @ targetParameterName @ ''s that can be targeted by tools'',
             toTitle := capitalizeFirst targetParameterName @ '' List''\<rparr>\<rparr>)"

definition WithToolOverrides :: "(string \<rightharpoonup> string) option \<Rightarrow> surfaceTool \<Rightarrow> surfaceTool" where
  "WithToolOverrides overrides t =
     (case overrides of None \<Rightarrow> t
      | Some o1 \<Rightarrow>
          (case o1 (toName (stTool t)) of
             Some d \<Rightarrow> if d \<noteq> [] then t\<lparr>stTool := (stTool t)\<lparr>toDescription := d\<rparr>\<rparr> else t
           | None \<Rightarrow> t))"

definition createTargetListHandler ::
    "string \<Rightarrow> string \<Rightarrow> string + string list \<Rightarrow> 'v toolCallResult" where
  "createTargetListHandler p defaultTarget targets =
     (case targets of
        Inl err \<Rightarrow> NewToolCallResult [] (Some (''failed to find any targets: '' @ err))
      | Inr ts \<Rightarrow>
          if ts = [] then NewToolCallResult (''No '' @ p @ ''s available'') None
          else NewToolCallResult
            (''Available '' @ p @ ''s ('' @ goItoa (length ts) @ '' total, default: '' @ defaultTarget @ ''):'' @ [nl, nl]
             @ ''Format: [*] '' @ toUpper p @ ''_NAME'' @ [nl]
             @ '' (* indicates the default '' @ p @ '' used in tools if '' @ p @ '' is not set)'' @ [nl, nl]
             @ capitalizeFirst p @ ''s:'' @ [nl] @ ''---------'' @ [nl]
             @ concat (map (\<lambda>t. (if t = defaultTarget then ''*'' else '' '') @ '' '' @ t @ [nl]) (sort ts))
             @ ''---------'' @ [nl, nl]
             @ ''To use a specific '' @ p @ '' with any tool, set the '' @ CHR 39 # p @ CHR 39 #
               '' parameter in the tool call arguments'') None)"

definition WithPromptTargetParameter ::
    "string \<Rightarrow> string \<Rightarrow> bool \<Rightarrow> bool option \<Rightarrow> serverPrompt \<Rightarrow> serverPrompt" where
  "WithPromptTargetParameter defaultTarget targetParameterName isMultiTarget clusterAware p =
     (if (case clusterAware of Some b \<Rightarrow> \<not> b | None \<Rightarrow> False) then p
      else if isMultiTarget
      then p\<lparr>spArguments := spArguments p @
              [\<lparr>paName = targetParameterName,
                paDescription = ''Optional parameter selecting which '' @ targetParameterName
                  @ '' to run the prompt in. Defaults to '' @ defaultTarget @ '' if not set'',
                paRequired = False\<rparr>]\<rparr>
      else p)"

section \<open>Collecting the surface\<close>

record target =
  tgDefault :: string
  tgParameterName :: string
  tgMulti :: bool

definition withAppResourceURI :: "metaMap \<Rightarrow> string \<Rightarrow> metaMap" where
  "withAppResourceURI meta uri =
     (let m = (case meta of None \<Rightarrow> Map.empty | Some f \<Rightarrow> f);
          ui = (case m ''ui'' of Some (MetaVal (GMap existing)) \<Rightarrow> existing | _ \<Rightarrow> [])
      in Some (m(''ui'' \<mapsto> MetaVal (GMap (assocUpd ''resourceUri'' (GStr uri) ui)))))"

definition collectApplicableTools ::
    "(bool list \<Rightarrow> bool list) \<Rightarrow> target \<Rightarrow> bool \<Rightarrow> surfaceCfg \<Rightarrow> surfaceTool list list \<Rightarrow> surfaceTool list" where
  "collectApplicableTools arrival tg httpTransport c toolsetTools =
     (let flt = CompositeFilter
            [isToolApplicable arrival c,
             ShouldIncludeTargetListTool (tgParameterName tg) (tgMulti tg),
             ShouldIncludeConfigurationViewTool httpTransport
               ((case sfEnabledTools c of None \<Rightarrow> [] | Some e \<Rightarrow> e) @ sfOptInTools c)];
          mutator = ComposeMutators
            [WithTargetParameter (tgDefault tg) (tgParameterName tg) (tgMulti tg),
             WithTargetListTool (tgParameterName tg),
             WithToolOverrides (sfToolOverrides c)]
      in concat (map (\<lambda>tools.
           map (\<lambda>t. if sfAppsEnabled c \<and> stApp t \<noteq> None
                    then t\<lparr>stTool := (stTool t)\<lparr>toMeta := withAppResourceURI (toMeta (stTool t)) (taURI (the (stApp t)))\<rparr>\<rparr>
                    else t)
             (filter flt (map mutator tools))) toolsetTools))"

datatype surfaceErr =
    InvalidApp string appErr
  | AppURIConflict string string
  | ConvertFailed string string publishErr

fun appResourcesLoop ::
    "(string \<Rightarrow> string + string \<times> string) \<Rightarrow> surfaceTool list \<Rightarrow> (string \<rightharpoonup> toolApp) \<Rightarrow>
     surfaceErr + serverResource list" where
  "appResourcesLoop parseURL [] seen = Inr []"
| "appResourcesLoop parseURL (t # ts) seen =
     (case stApp t of
        None \<Rightarrow> appResourcesLoop parseURL ts seen
      | Some app \<Rightarrow>
          (case appValidate parseURL app of
             Some e \<Rightarrow> Inl (InvalidApp (toName (stTool t)) e)
           | None \<Rightarrow>
               (case seen (taURI app) of
                  Some firstApp \<Rightarrow>
                    if taId firstApp = taId app then appResourcesLoop parseURL ts seen
                    else Inl (AppURIConflict (toName (stTool t)) (taURI app))
                | None \<Rightarrow>
                    map_sum id ((#) \<lparr>srURI = taURI app, srName = taName app, srDescription = taDescription app,
                        srMIMEType = ''text/html;profile=mcp-app'', srMeta = taMeta app, srRBAC = None\<rparr>)
                      (appResourcesLoop parseURL ts (seen(taURI app \<mapsto> app))))))"

definition appResources ::
    "(string \<Rightarrow> string + string \<times> string) \<Rightarrow> surfaceTool list \<Rightarrow> surfaceErr + serverResource list" where
  "appResources parseURL tools = appResourcesLoop parseURL tools Map.empty"

definition collectApplicablePrompts ::
    "target \<Rightarrow> surfaceCfg \<Rightarrow> (serverPrompt \<times> bool option) list list \<Rightarrow> serverPrompt list" where
  "collectApplicablePrompts tg c toolsetPrompts =
     MergePrompts spName
       (concat (map (map (\<lambda>(p, aware). WithPromptTargetParameter (tgDefault tg) (tgParameterName tg) (tgMulti tg) aware p))
          toolsetPrompts))
       (map fst (ToServerPrompts (sfPrompts c)))"

text \<open>No filter and no mutator is installed for resources and templates.\<close>

definition collectApplicableResources :: "serverResource list list \<Rightarrow> serverResource list" where
  "collectApplicableResources toolsetResources =
     concat (map (\<lambda>rs. filter (CompositeFilter []) (map (ComposeMutators []) rs)) toolsetResources)"

definition collectApplicableResourceTemplates :: "serverResource list list \<Rightarrow> serverResource list" where
  "collectApplicableResourceTemplates toolsetTemplates =
     concat (map (\<lambda>rs. filter (CompositeFilter []) (map (ComposeMutators []) rs)) toolsetTemplates)"

fun convertItems ::
    "string \<Rightarrow> ('t \<Rightarrow> string) \<Rightarrow> ('t \<Rightarrow> publishErr + 'm) \<Rightarrow> 't list \<Rightarrow> surfaceErr + (string \<times> 'm) list" where
  "convertItems kind getName convert [] = Inr []"
| "convertItems kind getName convert (item # items) =
     (case convert item of
        Inl err \<Rightarrow> Inl (ConvertFailed kind (getName item) err)
      | Inr m \<Rightarrow> map_sum id ((#) (getName item, m)) (convertItems kind getName convert items))"

section \<open>Installing a surface\<close>

text \<open>
  One catalog of the SDK: what it offers under a key, adding an item and removing keys. The laws
  are the SDK's documented behaviour; \<open>key\<close> is the item's own name or URI.
\<close>

record ('s, 'm) catOps =
  coLook :: "'s \<Rightarrow> string \<Rightarrow> 'm option"
  coAdd :: "'m \<Rightarrow> 's \<Rightarrow> 's"
  coRemove :: "string list \<Rightarrow> 's \<Rightarrow> 's"

definition catLaws :: "('m \<Rightarrow> string) \<Rightarrow> ('s, 'm) catOps \<Rightarrow> bool" where
  "catLaws key ops \<longleftrightarrow>
     (\<forall>m s k. coLook ops (coAdd ops m s) k = (if k = key m then Some m else coLook ops s k))
   \<and> (\<forall>ks s k. coLook ops (coRemove ops ks s) k = (if k \<in> set ks then None else coLook ops s k))"

definition commitItems ::
    "('s, 'm) catOps \<Rightarrow> string list \<Rightarrow> (string \<times> 'm) list \<Rightarrow> 's \<Rightarrow> string list \<times> 's" where
  "commitItems ops previous items s =
     (let enabled = map fst items;
          toRemove = filter (\<lambda>old. old \<notin> set enabled) previous;
          s = coRemove ops toRemove s;
          s = fold (\<lambda>(_, m). coAdd ops m) items s
      in (enabled, s))"

record ('a, 'b, 'c) sdkOps =
  soTools :: "('a, sdkTool) catOps"
  soPrompts :: "('b, sdkPrompt) catOps"
  soResources :: "('c, sdkResource) catOps"
  soTemplates :: "('c, sdkResource) catOps"

definition sdkLaws :: "('a, 'b, 'c) sdkOps \<Rightarrow> bool" where
  "sdkLaws so \<longleftrightarrow> catLaws sdName (soTools so) \<and> catLaws sqName (soPrompts so) \<and> catLaws sxURI (soResources so)
     \<and> catLaws sxURI (soTemplates so)"

text \<open>
  The server: the published MCP configuration, the configuration that the Kubernetes clients
  enforce, the provider's own copy, the SDK's four catalogs and the bookkeeping.
\<close>

record ('a, 'b, 'c) mcpServer =
  svConfig :: surfaceCfg
  svKubernetes :: surfaceCfg
  svProvider :: surfaceCfg
  svTools :: 'a
  svPrompts :: 'b
  svResources :: 'c
  svTemplates :: 'c
  svEnabledTools :: "string list"
  svEnabledPrompts :: "string list"
  svEnabledResources :: "string list"
  svEnabledTemplates :: "string list"

text \<open>What surrounds the server, as functions of the candidate configuration.\<close>

record surfaceEnv =
  seArrival :: "bool list \<Rightarrow> bool list"
  seTarget :: target
  seHTTP :: bool
  seParseURL :: "string \<Rightarrow> string + string \<times> string"
  seURIParses :: "string \<Rightarrow> bool"
  seTemplateParses :: "string \<Rightarrow> bool"
  seTools :: "surfaceCfg \<Rightarrow> surfaceTool list list"
  sePrompts :: "surfaceCfg \<Rightarrow> (serverPrompt \<times> bool option) list list"
  seResources :: "surfaceCfg \<Rightarrow> serverResource list list"
  seTemplates :: "surfaceCfg \<Rightarrow> serverResource list list"

record plan =
  plTools :: "(string \<times> sdkTool) list"
  plPrompts :: "(string \<times> sdkPrompt) list"
  plResources :: "(string \<times> sdkResource) list"
  plTemplates :: "(string \<times> sdkResource) list"

definition surfaceTools :: "surfaceEnv \<Rightarrow> surfaceCfg \<Rightarrow> surfaceTool list" where
  "surfaceTools env c = collectApplicableTools (seArrival env) (seTarget env) (seHTTP env) c (seTools env c)"

text \<open>The first phase: collect against the candidate and convert, without touching the server.\<close>

definition convertPhase :: "surfaceEnv \<Rightarrow> surfaceCfg \<Rightarrow> surfaceErr + plan" where
  "convertPhase env c =
     (let tools = surfaceTools env c;
          prompts = collectApplicablePrompts (seTarget env) c (sePrompts env c);
          resources = collectApplicableResources (seResources env c);
          templates = collectApplicableResourceTemplates (seTemplates env c)
      in (case (if sfAppsEnabled c then map_sum id ((@) resources) (appResources (seParseURL env) tools)
                else Inr resources) of
            Inl e \<Rightarrow> Inl e
          | Inr resources \<Rightarrow>
              (case convertItems ''tool'' (\<lambda>t. toName (stTool t)) (\<lambda>t. ServerToolToGoSdkTool (stTool t)) tools of
                 Inl e \<Rightarrow> Inl e
               | Inr ts \<Rightarrow>
                   (case convertItems ''prompt'' spName ServerPromptToGoSdkPrompt prompts of
                      Inl e \<Rightarrow> Inl e
                    | Inr ps \<Rightarrow>
                        (case convertItems ''resource'' srURI (ServerResourceToGoSdkResource (seURIParses env)) resources of
                           Inl e \<Rightarrow> Inl e
                         | Inr rs \<Rightarrow>
                             (case convertItems ''resource template'' srURI
                                     (ServerResourceTemplateToGoSdkResourceTemplate (seTemplateParses env)) templates of
                                Inl e \<Rightarrow> Inl e
                              | Inr xs \<Rightarrow>
                                  Inr \<lparr>plTools = ts, plPrompts = ps, plResources = rs, plTemplates = xs\<rparr>))))))"

text \<open>The second phase, as the steps that a concurrent reader can observe one by one.\<close>

definition commitSteps ::
    "('a, 'b, 'c) sdkOps \<Rightarrow> surfaceCfg \<Rightarrow> plan \<Rightarrow> (('a, 'b, 'c) mcpServer \<Rightarrow> ('a, 'b, 'c) mcpServer) list" where
  "commitSteps so c pl =
     [\<lambda>s. s\<lparr>svResources := snd (commitItems (soResources so) (svEnabledResources s) (plResources pl) (svResources s))\<rparr>,
      \<lambda>s. s\<lparr>svTemplates := snd (commitItems (soTemplates so) (svEnabledTemplates s) (plTemplates pl) (svTemplates s))\<rparr>,
      \<lambda>s. s\<lparr>svTools := snd (commitItems (soTools so) (svEnabledTools s) (plTools pl) (svTools s))\<rparr>,
      \<lambda>s. s\<lparr>svPrompts := snd (commitItems (soPrompts so) (svEnabledPrompts s) (plPrompts pl) (svPrompts s))\<rparr>,
      \<lambda>s. s\<lparr>svKubernetes := c\<rparr>,
      \<lambda>s. s\<lparr>svConfig := c\<rparr>,
      \<lambda>s. s\<lparr>svEnabledTools := map fst (plTools pl), svEnabledPrompts := map fst (plPrompts pl),
             svEnabledResources := map fst (plResources pl), svEnabledTemplates := map fst (plTemplates pl)\<rparr>]"

definition runSteps :: "('s \<Rightarrow> 's) list \<Rightarrow> 's \<Rightarrow> 's" where
  "runSteps steps s = fold (\<lambda>f s. f s) steps s"

definition applyToolsetsLocked ::
    "surfaceEnv \<Rightarrow> ('a, 'b, 'c) sdkOps \<Rightarrow> surfaceCfg option \<Rightarrow> ('a, 'b, 'c) mcpServer \<Rightarrow>
     surfaceErr option \<times> ('a, 'b, 'c) mcpServer" where
  "applyToolsetsLocked env so co s =
     (let c = (case co of None \<Rightarrow> svConfig s | Some c \<Rightarrow> c)
      in (case convertPhase env c of
            Inl e \<Rightarrow> (Some e, s)
          | Inr pl \<Rightarrow> (None, runSteps (commitSteps so c pl) s)))"

datatype reloadErr = ReloadRejected string | ProviderReloadFailed string | ToolsetsReloadFailed surfaceErr

text \<open>
  \<open>validate\<close> is the joint check of the toolset names and the configuration, \<open>providerReload\<close> the
  provider's \<open>ReloadConfig\<close>, which keeps its configuration when it fails.
\<close>

definition ReloadConfiguration ::
    "surfaceEnv \<Rightarrow> ('a, 'b, 'c) sdkOps \<Rightarrow> (surfaceCfg \<Rightarrow> string option) \<Rightarrow> (surfaceCfg \<Rightarrow> string option) \<Rightarrow>
     surfaceCfg \<Rightarrow> ('a, 'b, 'c) mcpServer \<Rightarrow> reloadErr option \<times> ('a, 'b, 'c) mcpServer" where
  "ReloadConfiguration env so validate providerReload newConfig s =
     (case validate newConfig of
        Some err \<Rightarrow> (Some (ReloadRejected err), s)
      | None \<Rightarrow>
          (case providerReload newConfig of
             Some err \<Rightarrow> (Some (ProviderReloadFailed err), s)
           | None \<Rightarrow>
               let s = s\<lparr>svProvider := newConfig\<rparr>
               in (case applyToolsetsLocked env so (Some newConfig) s of
                     (Some err, s) \<Rightarrow>
                       (Some (ToolsetsReloadFailed err),
                        if providerReload (svConfig s) = None then s\<lparr>svProvider := svConfig s\<rparr> else s)
                   | (None, s) \<Rightarrow> (None, s))))"

text \<open>
  \<open>NewServer\<close>: the new SDK server is \<open>sdk\<close>, the configuration is stored and its surface installed. The
  provider was made with the same configuration. Metrics, middleware and the start of the watchers
  are left out.
\<close>

definition NewServer ::
    "surfaceEnv \<Rightarrow> ('a, 'b, 'c) sdkOps \<Rightarrow> ('a, 'b, 'c) mcpServer \<Rightarrow> surfaceCfg \<Rightarrow> surfaceErr + ('a, 'b, 'c) mcpServer" where
  "NewServer env so sdk configuration =
     (let s = sdk\<lparr>svConfig := configuration, svKubernetes := configuration, svProvider := configuration, svEnabledTools := [],
                svEnabledPrompts := [], svEnabledResources := [], svEnabledTemplates := []\<rparr>
      in (case applyToolsetsLocked env so (Some (svConfig s)) s of
            (Some err, _) \<Rightarrow> Inl err
          | (None, s) \<Rightarrow> Inr s))"

text \<open>\<open>reapplyToolsets\<close>, which the watchers call: the surface of the current configuration anew.\<close>

definition reapplyToolsets :: "surfaceEnv \<Rightarrow> ('a, 'b, 'c) sdkOps \<Rightarrow> ('a, 'b, 'c) mcpServer \<Rightarrow> ('a, 'b, 'c) mcpServer" where
  "reapplyToolsets env so s = snd (applyToolsetsLocked env so None s)"

section \<open>The policy of a configuration\<close>

lemma receiveLoop_all: "receiveLoop rs = list_all id rs"
  by (induction rs) auto

lemma targetCompatible_all:
  assumes "\<forall>xs. mset (arrival xs) = mset xs"
  shows "targetCompatible arrival filters = list_all id filters"
proof -
  have "set (arrival filters) = set filters" using assms mset_eq_setD by blast
  then show ?thesis by (auto simp: targetCompatible_def receiveLoop_all list_all_iff split: list.splits)
qed

lemma CompositeFilter_all: "CompositeFilter fs t \<longleftrightarrow> (\<forall>f \<in> set fs. f t)"
  by (induction fs) auto

text \<open>
  C9. Every tool that the server offers obeys the policy of the configuration: in read-only mode
  it is declared read-only, with destructive tools disabled it is not declared destructive, an
  allow list contains it, a deny list does not, over HTTP the kubeconfig view was asked for by
  name, and every compatibility filter accepted it, in whatever order the filters answered.
\<close>

theorem offered_tools_obey_policy:
  assumes "t \<in> set (collectApplicableTools arrival tg http c toolsetTools)"
    and "\<forall>xs. mset (arrival xs) = mset xs"
  shows "(sfReadOnly c \<longrightarrow> toReadOnlyHint (stTool t) = Some True)
    \<and> (sfDisableDestructive c \<longrightarrow> toDestructiveHint (stTool t) \<noteq> Some True)
    \<and> (\<forall>allowed. sfEnabledTools c = Some allowed \<longrightarrow> toName (stTool t) \<in> set allowed \<union> set (sfOptInTools c))
    \<and> (\<forall>denied. sfDisabledTools c = Some denied \<longrightarrow> toName (stTool t) \<notin> set denied)
    \<and> (http \<and> toName (stTool t) = configurationViewToolName \<longrightarrow>
         toName (stTool t) \<in> set (sfOptInTools c) \<or> (\<exists>allowed. sfEnabledTools c = Some allowed \<and> toName (stTool t) \<in> set allowed))
    \<and> (sfCompatibilityFilters c \<longrightarrow> list_all id (stCompatibility t))"
proof -
  from assms(1) obtain u where u: "isToolApplicable arrival c u"
    "ShouldIncludeConfigurationViewTool http ((case sfEnabledTools c of None \<Rightarrow> [] | Some e \<Rightarrow> e) @ sfOptInTools c) u"
    and t: "toReadOnlyHint (stTool t) = toReadOnlyHint (stTool u)" "toName (stTool t) = toName (stTool u)"
      "toDestructiveHint (stTool t) = toDestructiveHint (stTool u)" "stCompatibility t = stCompatibility u"
    by (auto simp: collectApplicableTools_def CompositeFilter_all Let_def)
  from u(1) have p: "\<not> (sfReadOnly c \<and> \<not> derefFalse (toReadOnlyHint (stTool u)))"
    "\<not> (sfDisableDestructive c \<and> derefFalse (toDestructiveHint (stTool u)))"
    "\<not> (sfEnabledTools c \<noteq> None \<and> toName (stTool u) \<notin> set (the (sfEnabledTools c))
        \<and> toName (stTool u) \<notin> set (sfOptInTools c))"
    "\<not> (sfDisabledTools c \<noteq> None \<and> toName (stTool u) \<in> set (the (sfDisabledTools c)))"
    "\<not> (sfCompatibilityFilters c \<and> \<not> targetCompatible arrival (stCompatibility u))"
    by (simp_all add: isToolApplicable_def split: if_splits)
  have d: "derefFalse h \<longleftrightarrow> h = Some True" for h by (cases h) (simp_all add: derefFalse_def)
  show ?thesis
    using p u(2) unfolding t d targetCompatible_all [OF assms(2)]
    by (auto simp: ShouldIncludeConfigurationViewTool_def split: option.splits)
qed

theorem offered_tools_obey_policy_witness:
  "collectApplicableTools id \<lparr>tgDefault = [], tgParameterName = ''context'', tgMulti = False\<rparr> True
      \<lparr>sfReadOnly = True, sfDisableDestructive = False, sfEnabledTools = None, sfOptInTools = [], sfDisabledTools = None,
       sfCompatibilityFilters = False, sfAppsEnabled = False, sfToolOverrides = None, sfToolsets = [], sfPrompts = []\<rparr>
      [[\<lparr>stTool = exampleTool\<lparr>toReadOnlyHint := Some True\<rparr>, stApp = None, stClusterAware = None, stTargetListProvider = None,
         stCompatibility = []\<rparr>]] \<noteq> []
   \<and> toReadOnlyHint (stTool (hd (collectApplicableTools id \<lparr>tgDefault = [], tgParameterName = ''context'', tgMulti = False\<rparr> True
      \<lparr>sfReadOnly = True, sfDisableDestructive = False, sfEnabledTools = None, sfOptInTools = [], sfDisabledTools = None,
       sfCompatibilityFilters = False, sfAppsEnabled = False, sfToolOverrides = None, sfToolsets = [], sfPrompts = []\<rparr>
      [[\<lparr>stTool = exampleTool\<lparr>toReadOnlyHint := Some True\<rparr>, stApp = None, stClusterAware = None, stTargetListProvider = None,
         stCompatibility = []\<rparr>]]))) = Some True"
  (is "collectApplicableTools id ?tg True ?c ?ts \<noteq> [] \<and> _")
proof
  show ne: "collectApplicableTools id ?tg True ?c ?ts \<noteq> []"
    by (simp add: collectApplicableTools_def isToolApplicable_def ShouldIncludeTargetListTool_def
        ShouldIncludeConfigurationViewTool_def IsTargetListProvider_def IsClusterAware_def WithTargetParameter_def
        WithTargetListTool_def TargetsListToolName_def WithToolOverrides_def exampleTool_def derefFalse_def
        configurationViewToolName_def)
  from ne show "toReadOnlyHint (stTool (hd (collectApplicableTools id ?tg True ?c ?ts))) = Some True"
    using offered_tools_obey_policy [of "hd (collectApplicableTools id ?tg True ?c ?ts)" id ?tg True ?c ?ts] by simp
qed

section \<open>Installing is exact and transactional\<close>

lemma fold_coAdd_look:
  assumes "catLaws key ops" and "\<forall>(n, m) \<in> set items. key m = n"
  shows "coLook ops (fold (\<lambda>(_, m). coAdd ops m) items s) k =
    (case map_of (rev items) k of Some m \<Rightarrow> Some m | None \<Rightarrow> coLook ops s k)"
  using assms(2)
proof (induction items arbitrary: s)
  case (Cons x items)
  obtain n m where x: "x = (n, m)" by (cases x)
  have "coLook ops (coAdd ops m s) k = (if k = n then Some m else coLook ops s k)"
    using assms(1) Cons.prems x by (simp add: catLaws_def)
  with Cons x show ?case by (auto simp: map_add_def split: option.splits)
qed simp

lemma commitItems_exact:
  assumes "catLaws key ops" and "\<forall>(n, m) \<in> set items. key m = n" and "dom (coLook ops s) = set previous"
  shows "coLook ops (snd (commitItems ops previous items s)) = map_of (rev items)"
proof
  fix k
  let ?r = "coRemove ops (filter (\<lambda>old. old \<notin> set (map fst items)) previous) s"
  have r: "coLook ops ?r k = (if k \<in> set (filter (\<lambda>old. old \<notin> set (map fst items)) previous) then None else coLook ops s k)"
    using assms(1) by (simp add: catLaws_def)
  have "map_of (rev items) k = None \<longleftrightarrow> k \<notin> set (map fst items)"
    by (simp add: map_of_eq_None_iff)
  moreover have "k \<notin> set previous \<longleftrightarrow> coLook ops s k = None" using assms(3) by auto
  ultimately show "coLook ops (snd (commitItems ops previous items s)) k = map_of (rev items) k"
    using fold_coAdd_look [OF assms(1,2), of ?r k] r
    by (auto simp: commitItems_def Let_def split: option.splits)
qed

lemma convertItems_names:
  "convertItems kind getName convert items = Inr out \<Longrightarrow>
    (\<And>item m. convert item = Inr m \<Longrightarrow> key m = getName item) \<Longrightarrow> \<forall>(n, m) \<in> set out. key m = n"
  by (induction items arbitrary: out) (auto split: sum.splits simp: map_sum_def)

lemma converters_keep_names:
  "ServerToolToGoSdkTool tool = Inr sdk \<Longrightarrow> sdName sdk = toName tool"
  "ServerPromptToGoSdkPrompt p = Inr sp \<Longrightarrow> sqName sp = spName p"
  "ServerResourceToGoSdkResource parses r = Inr sr \<Longrightarrow> sxURI sr = srURI r"
  "ServerResourceTemplateToGoSdkResourceTemplate parses r = Inr sr \<Longrightarrow> sxURI sr = srURI r"
  by (auto simp: ServerToolToGoSdkTool_def ServerPromptToGoSdkPrompt_def ServerResourceToGoSdkResource_def
      ServerResourceTemplateToGoSdkResourceTemplate_def Let_def split: option.splits if_splits)

definition planNamed :: "plan \<Rightarrow> bool" where
  "planNamed pl \<longleftrightarrow> (\<forall>(n, m) \<in> set (plTools pl). sdName m = n) \<and> (\<forall>(n, m) \<in> set (plPrompts pl). sqName m = n)
     \<and> (\<forall>(n, m) \<in> set (plResources pl). sxURI m = n) \<and> (\<forall>(n, m) \<in> set (plTemplates pl). sxURI m = n)"

lemma convertPhase_named: "convertPhase env c = Inr pl \<Longrightarrow> planNamed pl"
  by (auto simp: convertPhase_def planNamed_def Let_def split: sum.splits if_splits
      dest!: convertItems_names [where key = sdName] convertItems_names [where key = sqName]
        convertItems_names [where key = sxURI] converters_keep_names)

text \<open>Each catalog offers exactly the names of the bookkeeping.\<close>

definition serverOk :: "('a, 'b, 'c) sdkOps \<Rightarrow> ('a, 'b, 'c) mcpServer \<Rightarrow> bool" where
  "serverOk so s \<longleftrightarrow> dom (coLook (soTools so) (svTools s)) = set (svEnabledTools s)
     \<and> dom (coLook (soPrompts so) (svPrompts s)) = set (svEnabledPrompts s)
     \<and> dom (coLook (soResources so) (svResources s)) = set (svEnabledResources s)
     \<and> dom (coLook (soTemplates so) (svTemplates s)) = set (svEnabledTemplates s)"

text \<open>The catalogs offer exactly a plan.\<close>

definition offers :: "('a, 'b, 'c) sdkOps \<Rightarrow> plan \<Rightarrow> ('a, 'b, 'c) mcpServer \<Rightarrow> bool" where
  "offers so pl s \<longleftrightarrow> coLook (soTools so) (svTools s) = map_of (rev (plTools pl))
     \<and> coLook (soPrompts so) (svPrompts s) = map_of (rev (plPrompts pl))
     \<and> coLook (soResources so) (svResources s) = map_of (rev (plResources pl))
     \<and> coLook (soTemplates so) (svTemplates s) = map_of (rev (plTemplates pl))"

lemma serverOk_provider [simp]: "serverOk so (s\<lparr>svProvider := x\<rparr>) = serverOk so s"
  by (simp add: serverOk_def)

lemma commitSteps_result:
  assumes "sdkLaws so" and "serverOk so s" and "planNamed pl" and "s' = runSteps (commitSteps so c pl) s"
  shows "offers so pl s' \<and> serverOk so s' \<and> svConfig s' = c \<and> svKubernetes s' = c \<and> svProvider s' = svProvider s"
proof -
  have "offers so pl s'"
    unfolding offers_def assms(4) runSteps_def commitSteps_def
    using assms(1-3) by (simp add: commitItems_exact [where key = sdName] commitItems_exact [where key = sqName]
        commitItems_exact [where key = sxURI] sdkLaws_def serverOk_def planNamed_def)
  moreover have "svEnabledTools s' = map fst (plTools pl)" "svEnabledPrompts s' = map fst (plPrompts pl)"
    "svEnabledResources s' = map fst (plResources pl)" "svEnabledTemplates s' = map fst (plTemplates pl)"
    "svConfig s' = c" "svKubernetes s' = c" "svProvider s' = svProvider s"
    by (simp_all add: assms(4) runSteps_def commitSteps_def)
  ultimately show ?thesis by (simp add: offers_def serverOk_def dom_map_of_conv_image_fst)
qed

lemma ReloadConfiguration_transactional:
  assumes "sdkLaws so" and "serverOk so s"
    and "ReloadConfiguration env so validate providerReload newConfig s = (err, s')"
  shows "serverOk so s' \<and> (case err of
      Some e \<Rightarrow> s'\<lparr>svProvider := svProvider s\<rparr> = s
        \<and> (svProvider s' = svProvider s \<or> svProvider s' = svConfig s \<or> providerReload (svConfig s) \<noteq> None)
    | None \<Rightarrow> validate newConfig = None \<and> svConfig s' = newConfig \<and> svKubernetes s' = newConfig
        \<and> svProvider s' = newConfig \<and> (\<exists>pl. convertPhase env newConfig = Inr pl \<and> offers so pl s'))"
proof (cases "validate newConfig = None \<and> providerReload newConfig = None")
  case False
  then show ?thesis using assms(2,3) by (auto simp: ReloadConfiguration_def split: option.splits)
next
  case True
  let ?s = "s\<lparr>svProvider := newConfig\<rparr>"
  have ok: "serverOk so ?s" using assms(2) by simp
  show ?thesis
  proof (cases "convertPhase env newConfig")
    case (Inl e)
    then show ?thesis using True assms(2,3)
      by (auto simp: ReloadConfiguration_def applyToolsetsLocked_def Let_def split: if_splits)
  next
    case (Inr pl)
    then have "err = None" "s' = runSteps (commitSteps so newConfig pl) ?s"
      using True assms(3) by (auto simp: ReloadConfiguration_def applyToolsetsLocked_def Let_def)
    with commitSteps_result [OF assms(1) ok convertPhase_named [OF Inr]] True Inr show ?thesis by auto
  qed
qed

text \<open>Whatever installs a surface leaves the catalogs as they were or makes them exactly a plan.\<close>

lemma applyToolsetsLocked_result:
  assumes "sdkLaws so" and "serverOk so s" and "applyToolsetsLocked env so co s = (err, s')"
    and "c = (case co of None \<Rightarrow> svConfig s | Some c \<Rightarrow> c)"
  shows "serverOk so s' \<and> (if err = None
      then svConfig s' = c \<and> svKubernetes s' = c \<and> (\<exists>pl. convertPhase env c = Inr pl \<and> offers so pl s') else s' = s)"
proof (cases "convertPhase env c")
  case (Inl e)
  then show ?thesis using assms(2,3) unfolding assms(4) by (auto simp: applyToolsetsLocked_def Let_def)
next
  case (Inr pl)
  then have "err = None" "s' = runSteps (commitSteps so c pl) s"
    using assms(3) unfolding assms(4) by (auto simp: applyToolsetsLocked_def Let_def)
  with commitSteps_result [OF assms(1,2) convertPhase_named [OF Inr]] Inr show ?thesis by auto
qed

text \<open>A new SDK server has nothing to offer.\<close>

definition emptySdk :: "('a, 'b, 'c) sdkOps \<Rightarrow> ('a, 'b, 'c) mcpServer \<Rightarrow> bool" where
  "emptySdk so sdk \<longleftrightarrow> coLook (soTools so) (svTools sdk) = Map.empty \<and> coLook (soPrompts so) (svPrompts sdk) = Map.empty
     \<and> coLook (soResources so) (svResources sdk) = Map.empty \<and> coLook (soTemplates so) (svTemplates sdk) = Map.empty"

lemma NewServer_result:
  assumes "sdkLaws so" and "emptySdk so sdk" and "NewServer env so sdk c = Inr s"
  shows "serverOk so s \<and> svConfig s = c \<and> svKubernetes s = c \<and> (\<exists>pl. convertPhase env c = Inr pl \<and> offers so pl s)"
proof -
  let ?s = "sdk\<lparr>svConfig := c, svKubernetes := c, svProvider := c, svEnabledTools := [],
    svEnabledPrompts := [], svEnabledResources := [], svEnabledTemplates := []\<rparr>"
  have "serverOk so ?s" using assms(2) by (simp add: serverOk_def emptySdk_def)
  moreover have "applyToolsetsLocked env so (Some c) ?s = (None, s)"
    using assms(3) by (auto simp: NewServer_def Let_def split: prod.splits option.splits)
  ultimately show ?thesis using applyToolsetsLocked_result [OF assms(1)] by fastforce
qed

text \<open>
  C8. Reloading a configuration is all or nothing: with any error the SDK's catalogs, the
  bookkeeping, the published configuration and the configuration that the Kubernetes clients
  enforce are what they were (and the provider's copy too, if its rollback succeeds); on success
  all four catalogs offer exactly the converted candidate, nothing older, and both published
  configurations are the candidate. Either way the bookkeeping matches the catalogs, so the next
  reload starts from the same invariant.
\<close>

theorem reload_is_transactional:
  assumes "sdkLaws so" and "serverOk so s"
    and "ReloadConfiguration env so validate providerReload newConfig s = (err, s')"
  shows "serverOk so s' \<and> (case err of
      Some e \<Rightarrow> s'\<lparr>svProvider := svProvider s\<rparr> = s
        \<and> (svProvider s' = svProvider s \<or> svProvider s' = svConfig s \<or> providerReload (svConfig s) \<noteq> None)
    | None \<Rightarrow> validate newConfig = None \<and> svConfig s' = newConfig \<and> svKubernetes s' = newConfig
        \<and> svProvider s' = newConfig \<and> (\<exists>pl. convertPhase env newConfig = Inr pl \<and> offers so pl s'))"
  by (rule ReloadConfiguration_transactional [OF assms])

text \<open>A catalog that satisfies the laws: a map.\<close>

definition mapCatalog :: "('m \<Rightarrow> string) \<Rightarrow> (string \<rightharpoonup> 'm, 'm) catOps" where
  "mapCatalog key =
     \<lparr>coLook = (\<lambda>s. s), coAdd = (\<lambda>m s. s(key m \<mapsto> m)), coRemove = (\<lambda>ks s k. if k \<in> set ks then None else s k)\<rparr>"

lemma mapCatalog_laws: "catLaws key (mapCatalog key)"
  by (simp add: catLaws_def mapCatalog_def)

definition exampleSdk :: "(string \<rightharpoonup> sdkTool, string \<rightharpoonup> sdkPrompt, string \<rightharpoonup> sdkResource) sdkOps" where
  "exampleSdk = \<lparr>soTools = mapCatalog sdName, soPrompts = mapCatalog sqName, soResources = mapCatalog sxURI,
     soTemplates = mapCatalog sxURI\<rparr>"

definition exampleSurfaceCfg :: "bool \<Rightarrow> surfaceCfg" where
  "exampleSurfaceCfg readOnly = \<lparr>sfReadOnly = readOnly, sfDisableDestructive = False, sfEnabledTools = None,
     sfOptInTools = [], sfDisabledTools = None, sfCompatibilityFilters = False, sfAppsEnabled = False,
     sfToolOverrides = None, sfToolsets = [], sfPrompts = []\<rparr>"

definition exampleServer :: "(string \<rightharpoonup> sdkTool, string \<rightharpoonup> sdkPrompt, string \<rightharpoonup> sdkResource) mcpServer" where
  "exampleServer = \<lparr>svConfig = exampleSurfaceCfg False, svKubernetes = exampleSurfaceCfg False,
     svProvider = exampleSurfaceCfg False, svTools = Map.empty, svPrompts = Map.empty, svResources = Map.empty,
     svTemplates = Map.empty, svEnabledTools = [], svEnabledPrompts = [], svEnabledResources = [], svEnabledTemplates = []\<rparr>"

definition exampleSurfaceEnv :: surfaceEnv where
  "exampleSurfaceEnv = \<lparr>seArrival = id, seTarget = \<lparr>tgDefault = ''dev'', tgParameterName = ''context'', tgMulti = True\<rparr>,
     seHTTP = False, seParseURL = (\<lambda>_. Inl []), seURIParses = (\<lambda>_. True), seTemplateParses = (\<lambda>_. True),
     seTools = (\<lambda>_. [[\<lparr>stTool = exampleTool, stApp = None, stClusterAware = None, stTargetListProvider = None, stCompatibility = []\<rparr>]]),
     sePrompts = (\<lambda>_. []), seResources = (\<lambda>_. []), seTemplates = (\<lambda>_. [])\<rparr>"

lemma exampleSdk_ok: "sdkLaws exampleSdk"
  by (simp add: sdkLaws_def exampleSdk_def mapCatalog_laws)

lemma exampleServer_ok: "serverOk exampleSdk exampleServer"
  by (simp add: serverOk_def exampleServer_def exampleSdk_def mapCatalog_def)

lemma exampleServer_empty: "emptySdk exampleSdk exampleServer"
  by (simp add: emptySdk_def exampleServer_def exampleSdk_def mapCatalog_def)

lemmas exampleSdk_laws = exampleSdk_ok exampleServer_ok

lemma exampleConvert: "\<exists>pl. convertPhase exampleSurfaceEnv (exampleSurfaceCfg True) = Inr pl"
  by (simp add: convertPhase_def surfaceTools_def exampleSurfaceEnv_def exampleSurfaceCfg_def
      collectApplicableTools_def collectApplicablePrompts_def collectApplicableResources_def
      collectApplicableResourceTemplates_def isToolApplicable_def ShouldIncludeTargetListTool_def
      ShouldIncludeConfigurationViewTool_def IsTargetListProvider_def IsClusterAware_def WithTargetParameter_def
      WithTargetListTool_def TargetsListToolName_def WithToolOverrides_def exampleTool_def derefFalse_def
      ServerToolToGoSdkTool_def metaLookup_def MergePrompts_def ToServerPrompts_def)

theorem reload_is_transactional_witness:
  "svKubernetes (snd (ReloadConfiguration exampleSurfaceEnv exampleSdk (\<lambda>_. None) (\<lambda>_. None)
      (exampleSurfaceCfg True) exampleServer)) = exampleSurfaceCfg True"
proof -
  let ?r = "ReloadConfiguration exampleSurfaceEnv exampleSdk (\<lambda>_. None) (\<lambda>_. None) (exampleSurfaceCfg True) exampleServer"
  have "fst ?r = None"
    using exampleConvert by (auto simp: ReloadConfiguration_def applyToolsetsLocked_def Let_def)
  then have r: "?r = (None, snd ?r)" by (simp add: prod_eq_iff)
  show ?thesis using reload_is_transactional [OF exampleSdk_laws r] by simp
qed

section \<open>What a concurrent reader sees\<close>

text \<open>The state after the first \<open>k\<close> steps of a commit.\<close>

definition duringCommit ::
    "('a, 'b, 'c) sdkOps \<Rightarrow> surfaceCfg \<Rightarrow> plan \<Rightarrow> nat \<Rightarrow> ('a, 'b, 'c) mcpServer \<Rightarrow> ('a, 'b, 'c) mcpServer" where
  "duringCommit so c pl k s = runSteps (take k (commitSteps so c pl)) s"

lemma duringCommit_cases:
  "k \<le> 7 \<Longrightarrow> k = 0 \<or> k = 1 \<or> k = 2 \<or> k = 3 \<or> k = 4 \<or> k = 5 \<or> k = 6 \<or> k = (7::nat)"
  by auto

text \<open>
  At every point of a commit, a reader that sees the candidate as the MCP configuration finds
  the Kubernetes clients already enforcing it, and a reader that sees the tools changed finds
  every resource and template of the candidate already registered, so a tool is never announced
  before the resource it refers to.
\<close>

lemma commit_order_safe:
  assumes "sdkLaws so" and "serverOk so s" and "planNamed pl" and "k \<le> 7"
    and "t = duringCommit so c pl k s"
  shows "(svConfig t \<noteq> svConfig s \<longrightarrow> svKubernetes t = c)
    \<and> (svTools t \<noteq> svTools s \<longrightarrow>
        coLook (soResources so) (svResources t) = map_of (rev (plResources pl))
      \<and> coLook (soTemplates so) (svTemplates t) = map_of (rev (plTemplates pl)))"
proof -
  have r: "coLook (soResources so) (snd (commitItems (soResources so) (svEnabledResources s) (plResources pl)
      (svResources s))) = map_of (rev (plResources pl))"
    "coLook (soTemplates so) (snd (commitItems (soTemplates so) (svEnabledTemplates s) (plTemplates pl)
      (svTemplates s))) = map_of (rev (plTemplates pl))"
    using assms(1-3) by (simp_all add: commitItems_exact [where key = sxURI] sdkLaws_def serverOk_def planNamed_def)
  show ?thesis
    using duringCommit_cases [OF assms(4)] r
    by (elim disjE) (simp_all add: assms(5) duringCommit_def runSteps_def commitSteps_def take_Cons')
qed

text \<open>
  In every commit there is a moment at which clients see exactly the candidate's tools while
  the Kubernetes clients still enforce the previous configuration: a call of a newly offered tool
  in that moment is not checked against resources that the candidate denies.
\<close>

lemma new_tools_before_new_access_control:
  assumes "sdkLaws so" and "serverOk so s" and "convertPhase env c = Inr pl"
  shows "\<exists>k \<le> 7. coLook (soTools so) (svTools (duringCommit so c pl k s)) = map_of (rev (plTools pl))
    \<and> svKubernetes (duringCommit so c pl k s) = svKubernetes s"
proof (intro exI conjI)
  show "coLook (soTools so) (svTools (duringCommit so c pl 3 s)) = map_of (rev (plTools pl))"
    using assms(1,2) convertPhase_named [OF assms(3)]
    by (simp add: duringCommit_def runSteps_def commitSteps_def take_Cons' commitItems_exact [where key = sdName]
        sdkLaws_def serverOk_def planNamed_def)
qed (simp_all add: duringCommit_def runSteps_def commitSteps_def take_Cons')

end
