(* ===== verification/MCP_Middleware.thy ===== *)
theory MCP_Middleware
  imports Go_Values "HOL-Library.Multiset"
begin

text \<open>
  \<open>pkg/mcp/middleware.go\<close>: the middlewares with state. The cap on concurrent calls and the
  in-flight gauge are a state machine over calls that start, finish (by returning, failing or
  panicking) and configuration reloads; the per-session rate limiter is a function of the
  sequence of requests and reaper ticks, for any limiter (\<open>golang.org/x/time/rate\<close> is a
  parameter). The propagation of headers into the context is modelled as functions.
\<close>

section \<open>The cap on concurrent calls\<close>

definition methodSubscriptionsListen :: string where
  "methodSubscriptionsListen = ''subscriptions/listen''"

definition inFlightLimitedMethod :: "string \<Rightarrow> bool" where
  "inFlightLimitedMethod method \<longleftrightarrow>
     method = ''tools/call'' \<or> method = ''prompts/get'' \<or> method = ''resources/read''"

definition CodeRateLimitExceeded :: int where
  "CodeRateLimitExceeded = -32029"

definition CodeInFlightLimitExceeded :: int where
  "CodeInFlightLimitExceeded = -32030"

text \<open>
  The critical section on entry: the error code of a rejected call or nothing, and the counter.
\<close>

definition inFlightEnter :: "int \<Rightarrow> string \<Rightarrow> int \<Rightarrow> int option \<times> int" where
  "inFlightEnter limit method inFlight =
     (if \<not> inFlightLimitedMethod method then (None, inFlight)
      else if limit > 0 \<and> inFlight \<ge> limit then (Some CodeInFlightLimitExceeded, inFlight)
      else (None, inFlight + 1))"

text \<open>The deferred function, for a method that took a slot.\<close>

definition inFlightLeave :: "string \<Rightarrow> int \<Rightarrow> int" where
  "inFlightLeave method inFlight = (if inFlightLimitedMethod method then inFlight - 1 else inFlight)"

text \<open>The gauge of \<open>inFlightRequestsMiddleware\<close>: its change on entry and, negated, on exit.\<close>

definition gaugeDelta :: "string \<Rightarrow> string \<Rightarrow> int" where
  "gaugeDelta method m = (if method = methodSubscriptionsListen then 0 else if m = method then 1 else 0)"

record serverLoad =
  slInFlight :: int
  slGauge :: "string \<Rightarrow> int"
  slRunning :: "(nat \<times> string) list"
  slLimit :: int

definition idleServer :: "int \<Rightarrow> serverLoad" where
  "idleServer limit = \<lparr>slInFlight = 0, slGauge = (\<lambda>_. 0), slRunning = [], slLimit = limit\<rparr>"

datatype loadEvent = Started nat string | Rejected string | Finished nat string | LimitSet int

text \<open>
  The steps. The gauge wraps the cap, so a rejected call raises and lowers it at once.
\<close>

inductive loadStep :: "serverLoad \<Rightarrow> loadEvent \<Rightarrow> serverLoad \<Rightarrow> bool" where
  start: "inFlightEnter (slLimit s) m (slInFlight s) = (None, n) \<Longrightarrow> i \<notin> fst ` set (slRunning s) \<Longrightarrow>
    loadStep s (Started i m)
      (s\<lparr>slInFlight := n, slGauge := (\<lambda>x. slGauge s x + gaugeDelta m x), slRunning := (i, m) # slRunning s\<rparr>)"
| reject: "inFlightEnter (slLimit s) m (slInFlight s) = (Some code, n) \<Longrightarrow>
    loadStep s (Rejected m) (s\<lparr>slInFlight := n\<rparr>)"
| finish: "(i, m) \<in> set (slRunning s) \<Longrightarrow>
    loadStep s (Finished i m)
      (s\<lparr>slInFlight := inFlightLeave m (slInFlight s), slGauge := (\<lambda>x. slGauge s x - gaugeDelta m x),
         slRunning := remove1 (i, m) (slRunning s)\<rparr>)"
| reload: "loadStep s (LimitSet limit) (s\<lparr>slLimit := limit\<rparr>)"

inductive_cases loadStep_StartedE: "loadStep s (Started i m) s'"
inductive_cases loadStep_RejectedE: "loadStep s (Rejected m) s'"
inductive_cases loadStep_FinishedE: "loadStep s (Finished i m) s'"
inductive_simps loadStep_LimitSet: "loadStep s (LimitSet l) s'"

inductive loadRun :: "serverLoad \<Rightarrow> loadEvent list \<Rightarrow> serverLoad \<Rightarrow> bool" where
  stop: "loadRun s [] s"
| more: "loadRun s es s1 \<Longrightarrow> loadStep s1 e s2 \<Longrightarrow> loadRun s (es @ [e]) s2"

text \<open>The calls that hold a slot, and the calls of a method that are counted by the gauge.\<close>

definition slots :: "serverLoad \<Rightarrow> int" where
  "slots s = int (length (filter (\<lambda>(_, m). inFlightLimitedMethod m) (slRunning s)))"

definition gauged :: "string \<Rightarrow> serverLoad \<Rightarrow> int" where
  "gauged m s = int (length (filter (\<lambda>(_, x). x = m \<and> m \<noteq> methodSubscriptionsListen) (slRunning s)))"

definition loadOk :: "serverLoad \<Rightarrow> bool" where
  "loadOk s \<longleftrightarrow> slInFlight s = slots s \<and> (\<forall>m. slGauge s m = gauged m s)"

lemma filter_remove1_length:
  "x \<in> set xs \<Longrightarrow> int (length (filter P (remove1 x xs))) = int (length (filter P xs)) - (if P x then 1 else 0)"
  by (induction xs) auto

lemma loadOk_idle: "loadOk (idleServer limit)"
  by (simp add: loadOk_def idleServer_def slots_def gauged_def)

lemma loadStep_ok: "loadStep s e s' \<Longrightarrow> loadOk s \<Longrightarrow> loadOk s'"
proof (induction rule: loadStep.induct)
  case (start s m n i)
  then show ?case
    by (auto simp: loadOk_def slots_def gauged_def inFlightEnter_def gaugeDelta_def split: if_splits)
next
  case (finish i m s)
  then show ?case
    by (auto simp: loadOk_def slots_def gauged_def inFlightLeave_def gaugeDelta_def filter_remove1_length)
qed (auto simp: loadOk_def slots_def gauged_def inFlightEnter_def split: if_splits)

lemma loadRun_ok: "loadRun s es s' \<Longrightarrow> loadOk s \<Longrightarrow> loadOk s'"
  by (induction rule: loadRun.induct) (auto intro: loadStep_ok)

text \<open>
  The same seen from outside, on the events alone: the limit in force after them, and the calls
  that have started and not finished.
\<close>

fun limitAfter :: "int \<Rightarrow> loadEvent list \<Rightarrow> int" where
  "limitAfter limit [] = limit"
| "limitAfter limit (LimitSet l # es) = limitAfter l es"
| "limitAfter limit (_ # es) = limitAfter limit es"

fun stillRunning :: "(nat \<times> string) list \<Rightarrow> loadEvent list \<Rightarrow> (nat \<times> string) list" where
  "stillRunning cs [] = cs"
| "stillRunning cs (Started i m # es) = stillRunning ((i, m) # cs) es"
| "stillRunning cs (Finished i m # es) = stillRunning (remove1 (i, m) cs) es"
| "stillRunning cs (_ # es) = stillRunning cs es"

definition limitedRunning :: "loadEvent list \<Rightarrow> int" where
  "limitedRunning es = int (length (filter (\<lambda>(_, m). inFlightLimitedMethod m) (stillRunning [] es)))"

lemma limitAfter_append: "limitAfter limit (es @ fs) = limitAfter (limitAfter limit es) fs"
  by (induction limit es rule: limitAfter.induct) auto

lemma stillRunning_append: "stillRunning cs (es @ fs) = stillRunning (stillRunning cs es) fs"
  by (induction cs es rule: stillRunning.induct) auto

lemma loadRun_observed:
  "loadRun s es s' \<Longrightarrow> slLimit s' = limitAfter (slLimit s) es \<and> slRunning s' = stillRunning (slRunning s) es"
  by (induction rule: loadRun.induct) (auto elim!: loadStep.cases simp: limitAfter_append stillRunning_append)

lemma slots_observed: "loadRun (idleServer limit) es s \<Longrightarrow> slots s = limitedRunning es"
  by (auto dest: loadRun_observed simp: slots_def limitedRunning_def idleServer_def)

text \<open>A run up to one of its events.\<close>

lemma loadRun_split: "loadRun s es s' \<Longrightarrow> es = pre @ e # post \<Longrightarrow> \<exists>s1 s2. loadRun s pre s1 \<and> loadStep s1 e s2 \<and> loadRun s (pre @ [e]) s2"
proof (induction arbitrary: post rule: loadRun.induct)
  case (more s es s1 f s2)
  show ?case
  proof (cases post rule: rev_cases)
    case Nil
    then show ?thesis using more.prems more.hyps loadRun.more [OF more.hyps(1,2)] by auto
  next
    case (snoc post' x)
    then have "es = pre @ e # post'" using more.prems by simp
    then show ?thesis by (rule more.IH)
  qed
qed simp

text \<open>
  C35. However calls start, finish and panic, and however the limit is reloaded: the counter is
  the number of slots held, the gauge the number of running calls of each method other than the
  long poll, and both are zero when nothing runs. A limited call starts only when the limit that
  is in force at that moment is disabled or not exceeded with this call, and a call is rejected
  only when it is limited and that limit is positive and reached.
\<close>

theorem in_flight_cap_holds:
  assumes "loadRun (idleServer limit) es s"
  shows "slInFlight s = limitedRunning es
    \<and> (\<forall>m. slGauge s m = (if m = methodSubscriptionsListen then 0 else int (length (filter (\<lambda>(_, x). x = m) (stillRunning [] es)))))
    \<and> (\<forall>pre i m post. es = pre @ Started i m # post \<longrightarrow> inFlightLimitedMethod m \<longrightarrow>
         limitAfter limit pre \<le> 0 \<or> limitedRunning (pre @ [Started i m]) \<le> limitAfter limit pre)
    \<and> (\<forall>pre m post. es = pre @ Rejected m # post \<longrightarrow>
         inFlightLimitedMethod m \<and> 0 < limitAfter limit pre \<and> limitAfter limit pre \<le> limitedRunning pre)"
proof (intro conjI allI impI)
  have ok: "loadOk s" by (rule loadRun_ok [OF assms loadOk_idle])
  show "slInFlight s = limitedRunning es" using ok slots_observed [OF assms] by (simp add: loadOk_def)
  show "slGauge s m = (if m = methodSubscriptionsListen then 0 else int (length (filter (\<lambda>(_, x). x = m) (stillRunning [] es))))" for m
    using ok loadRun_observed [OF assms] by (auto simp: loadOk_def gauged_def idleServer_def)
  fix pre post m
  have pre: "loadOk s1 \<and> slInFlight s1 = limitedRunning pre \<and> slLimit s1 = limitAfter limit pre" if "loadRun (idleServer limit) pre s1" for s1
    using loadRun_ok [OF that loadOk_idle] slots_observed [OF that] loadRun_observed [OF that] by (auto simp: loadOk_def idleServer_def)
  show "limitAfter limit pre \<le> 0 \<or> limitedRunning (pre @ [Started i m]) \<le> limitAfter limit pre"
    if es: "es = pre @ Started i m # post" and m: "inFlightLimitedMethod m" for i
  proof -
    from loadRun_split [OF assms es] obtain s1 s2 where r: "loadRun (idleServer limit) pre s1" "loadStep s1 (Started i m) s2" by blast
    have "limitedRunning (pre @ [Started i m]) = limitedRunning pre + 1" using m by (simp add: limitedRunning_def stillRunning_append)
    with r(2) m pre [OF r(1)] show ?thesis by (auto elim!: loadStep_StartedE simp: inFlightEnter_def split: if_splits)
  qed
  assume es: "es = pre @ Rejected m # post"
  from loadRun_split [OF assms es] obtain s1 s2 where r: "loadRun (idleServer limit) pre s1" "loadStep s1 (Rejected m) s2" by blast
  from r(2) pre [OF r(1)] show "inFlightLimitedMethod m" "0 < limitAfter limit pre" "limitAfter limit pre \<le> limitedRunning pre"
    by (auto elim!: loadStep_RejectedE simp: inFlightEnter_def split: if_splits)
qed

text \<open>A limit of two is lowered to one while a call runs; the next call is rejected.\<close>

definition loweredLoad :: serverLoad where
  "loweredLoad = \<lparr>slInFlight = 1, slGauge = (\<lambda>x. 0 + gaugeDelta ''tools/call'' x), slRunning = [(0, ''tools/call'')], slLimit = 1\<rparr>"

lemma exampleLoadRun:
  "loadRun (idleServer 2) [Started 0 ''tools/call'', LimitSet 1, Rejected ''prompts/get''] loweredLoad"
proof -
  have a: "loadStep (idleServer 2) (Started 0 ''tools/call'') (loweredLoad\<lparr>slLimit := 2\<rparr>)"
    using start [of "idleServer 2" "''tools/call''" 1 0]
    by (simp add: idleServer_def inFlightEnter_def inFlightLimitedMethod_def loweredLoad_def)
  have b: "loadStep (loweredLoad\<lparr>slLimit := 2\<rparr>) (LimitSet 1) loweredLoad"
    using reload [of "loweredLoad\<lparr>slLimit := 2\<rparr>" 1] by (simp add: loweredLoad_def)
  have c: "loadStep loweredLoad (Rejected ''prompts/get'') loweredLoad"
    using reject [of loweredLoad "''prompts/get''" CodeInFlightLimitExceeded 1]
    by (simp add: inFlightEnter_def inFlightLimitedMethod_def loweredLoad_def)
  from more [OF more [OF more [OF stop a] b] c] show ?thesis by simp
qed

theorem in_flight_cap_holds_witness:
  "slInFlight loweredLoad = 1 \<and> inFlightLimitedMethod ''prompts/get''"
proof -
  let ?es = "[Started 0 ''tools/call'', LimitSet 1, Rejected ''prompts/get'']"
  note holds = in_flight_cap_holds [OF exampleLoadRun]
  have e: "?es = [Started 0 ''tools/call'', LimitSet 1] @ Rejected ''prompts/get'' # []" by simp
  from holds have 1: "slInFlight loweredLoad = limitedRunning ?es" by blast
  from holds e have 2: "inFlightLimitedMethod ''prompts/get''" by blast
  have "limitedRunning ?es = 1" by code_simp
  with 1 2 show ?thesis by simp
qed

section \<open>The per-session rate limiter\<close>

text \<open>
  The limiter is a parameter: \<open>newL limit burst now\<close> creates one and \<open>allow now l\<close> takes a
  token at a time or refuses.
\<close>

text \<open>A \<open>rate.Limit\<close> is a \<open>float64\<close>; a finite one is \<open>n\<close> times the smallest positive one, \<open>2 ^ -1074\<close>.\<close>

datatype goLimit = NaN | PosInf | NegInf | Num int

definition limitOff :: "goLimit \<Rightarrow> bool" where
  "limitOff l = (case l of Num n \<Rightarrow> n \<le> 0 | NegInf \<Rightarrow> True | _ \<Rightarrow> False)"

definition limitDiffers :: "goLimit \<Rightarrow> goLimit \<Rightarrow> bool" where
  "limitDiffers a b \<longleftrightarrow> a = NaN \<or> a \<noteq> b"

record 'l rateEntry =
  reLimiter :: 'l
  reLastSeen :: int

record 'l rateState =
  rtLimiters :: "(string \<times> 'l rateEntry) list"
  rtCurrentLimit :: goLimit
  rtCurrentBurst :: int

definition reapAfter :: int where
  "reapAfter = 10 * 60 * 1000000000"

definition reapStale :: "int \<Rightarrow> 'l rateState \<Rightarrow> 'l rateState" where
  "reapStale now st =
     st\<lparr>rtLimiters := filter (\<lambda>(_, e). \<not> now - reLastSeen e > reapAfter) (rtLimiters st)\<rparr>"

text \<open>
  One request: the configured limit and burst, the session (none, or its id, which may be
  empty) and the time. The result is whether the request goes on. The limiter is asked right
  after the mutex is released; the two are one step here.
\<close>

definition rateLimitRequest ::
    "(goLimit \<Rightarrow> int \<Rightarrow> 'l) \<Rightarrow> (int \<Rightarrow> 'l \<Rightarrow> bool \<times> 'l) \<Rightarrow> goLimit \<Rightarrow> int \<Rightarrow> string option \<Rightarrow> int \<Rightarrow>
     'l rateState \<Rightarrow> int option \<times> 'l rateState" where
  "rateLimitRequest newL allow limit burst session now st =
     (if limitOff limit then (None, st)
      else (case session of
          None \<Rightarrow> (None, st)
        | Some sessionID \<Rightarrow>
            if sessionID = [] then (None, st)
            else
              let st = (if limitDiffers limit (rtCurrentLimit st) \<or> burst \<noteq> rtCurrentBurst st
                        then st\<lparr>rtLimiters := [], rtCurrentLimit := limit, rtCurrentBurst := burst\<rparr>
                        else st);
                  entry = (case map_of (rtLimiters st) sessionID of
                             None \<Rightarrow> \<lparr>reLimiter = newL limit burst, reLastSeen = now\<rparr>
                           | Some e \<Rightarrow> e\<lparr>reLastSeen := now\<rparr>);
                  (ok, l) = allow now (reLimiter entry);
                  st = st\<lparr>rtLimiters := assocUpd sessionID (entry\<lparr>reLimiter := l\<rparr>) (rtLimiters st)\<rparr>
              in (if \<not> ok then Some CodeRateLimitExceeded else None, st)))"

definition newRateState :: "'l rateState" where
  "newRateState = \<lparr>rtLimiters = [], rtCurrentLimit = Num 0, rtCurrentBurst = 0\<rparr>"

text \<open>What the middleware sees: requests with the configuration of their time, and ticks.\<close>

datatype rateEvent = Request goLimit int "string option" int | Tick int

definition rateStep ::
    "(goLimit \<Rightarrow> int \<Rightarrow> 'l) \<Rightarrow> (int \<Rightarrow> 'l \<Rightarrow> bool \<times> 'l) \<Rightarrow> rateEvent \<Rightarrow> 'l rateState \<Rightarrow> int option \<times> 'l rateState" where
  "rateStep newL allow e st =
     (case e of Request limit burst session now \<Rightarrow> rateLimitRequest newL allow limit burst session now st
      | Tick now \<Rightarrow> (None, reapStale now st))"

text \<open>
  The specification: a session has a limiter of its own, or none yet, under the configuration
  last seen by a limited request; it is reset by a change of configuration, dropped by a tick
  after ten idle minutes, and used by its own requests only.
\<close>

type_synonym 'l sessionView = "goLimit \<times> int \<times> 'l rateEntry option"

fun specStep ::
    "(goLimit \<Rightarrow> int \<Rightarrow> 'l) \<Rightarrow> (int \<Rightarrow> 'l \<Rightarrow> bool \<times> 'l) \<Rightarrow> string \<Rightarrow> rateEvent \<Rightarrow> 'l sessionView \<Rightarrow>
     int option \<times> 'l sessionView" where
  "specStep newL allow sid (Tick now) (cl, cb, eo) =
     (None, cl, cb, case eo of None \<Rightarrow> None | Some e \<Rightarrow> if now - reLastSeen e > reapAfter then None else Some e)"
| "specStep newL allow sid (Request limit burst session now) (cl, cb, eo) =
     (if limitOff limit \<or> session = None \<or> session = Some [] then (None, cl, cb, eo)
      else
        let eo = (if \<not> limitDiffers limit cl \<and> burst = cb then eo else None)
        in if session = Some sid then
             (case allow now (case eo of None \<Rightarrow> newL limit burst | Some e \<Rightarrow> reLimiter e) of
                (ok, l) \<Rightarrow> (if ok then None else Some CodeRateLimitExceeded, limit, burst,
                             Some \<lparr>reLimiter = l, reLastSeen = now\<rparr>))
           else (None, limit, burst, eo))"

definition sessionView :: "string \<Rightarrow> 'l rateState \<Rightarrow> 'l sessionView" where
  "sessionView sid st = (rtCurrentLimit st, rtCurrentBurst st, map_of (rtLimiters st) sid)"

lemma map_of_filter_entry:
  "distinct (map fst xs) \<Longrightarrow> map_of (filter (\<lambda>(_, e). P e) xs) k =
    (case map_of xs k of None \<Rightarrow> None | Some e \<Rightarrow> if P e then Some e else None)"
proof (induction xs)
  case (Cons x xs)
  obtain a b where x: "x = (a, b)" by (cases x)
  have "k = a \<Longrightarrow> map_of xs k = None" using Cons.prems x by (simp add: map_of_eq_None_iff)
  with Cons x show ?case by auto
qed simp

lemma rateStep_distinct:
  "distinct (map fst (rtLimiters st)) \<Longrightarrow> distinct (map fst (rtLimiters (snd (rateStep newL allow e st))))"
  by (auto simp: rateStep_def rateLimitRequest_def reapStale_def Let_def split_def distinct_map_filter
      intro!: distinct_keys_assocUpd split: rateEvent.splits option.splits)

lemma rateStep_view:
  assumes "distinct (map fst (rtLimiters st))"
  shows "sessionView sid (snd (rateStep newL allow e st)) = snd (specStep newL allow sid e (sessionView sid st))"
proof (cases e)
  case (Tick now)
  then show ?thesis
    using assms by (auto simp: rateStep_def reapStale_def sessionView_def map_of_filter_entry split: option.splits)
next
  case (Request limit burst session now)
  then show ?thesis
    by (auto simp: rateStep_def rateLimitRequest_def sessionView_def limitDiffers_def Let_def split_def split: option.splits)
qed

lemma rateStep_outcome:
  assumes "e = Request limit burst (Some sid) now"
  shows "fst (rateStep newL allow e st) = fst (specStep newL allow sid e (sessionView sid st))"
  using assms
  by (auto simp: rateStep_def rateLimitRequest_def sessionView_def Let_def split_def split: option.splits)

definition rateAll ::
    "(goLimit \<Rightarrow> int \<Rightarrow> 'l) \<Rightarrow> (int \<Rightarrow> 'l \<Rightarrow> bool \<times> 'l) \<Rightarrow> rateEvent list \<Rightarrow> 'l rateState \<Rightarrow> 'l rateState" where
  "rateAll newL allow es st = fold (\<lambda>e st. snd (rateStep newL allow e st)) es st"

definition specAll ::
    "(goLimit \<Rightarrow> int \<Rightarrow> 'l) \<Rightarrow> (int \<Rightarrow> 'l \<Rightarrow> bool \<times> 'l) \<Rightarrow> string \<Rightarrow> rateEvent list \<Rightarrow> 'l sessionView \<Rightarrow> 'l sessionView" where
  "specAll newL allow sid es v = fold (\<lambda>e v. snd (specStep newL allow sid e v)) es v"

text \<open>
  C36. The shared map of limiters implements one limiter per session: after any history of
  requests of all sessions, reaper ticks and configuration changes, a session's request is
  admitted or refused exactly as by a limiter that saw this session's requests only.
\<close>

theorem rate_limit_sessions_isolated:
  "fst (rateStep newL allow (Request limit burst (Some sid) now) (rateAll newL allow es newRateState)) =
    fst (specStep newL allow sid (Request limit burst (Some sid) now) (specAll newL allow sid es (Num 0, 0, None)))"
proof -
  have "sessionView sid (rateAll newL allow es st) = specAll newL allow sid es (sessionView sid st)"
    if "distinct (map fst (rtLimiters st))" for st
    using that
    by (induction es arbitrary: st)
      (auto simp: rateAll_def specAll_def rateStep_view rateStep_distinct)
  from this [of newRateState] show ?thesis
    by (subst rateStep_outcome [OF refl]) (simp add: newRateState_def sessionView_def)
qed

text \<open>In the specification, a request of another session under the same configuration is inert.\<close>

lemma specStep_other:
  "sid' \<noteq> sid \<Longrightarrow> cl \<noteq> NaN \<Longrightarrow> snd (specStep newL allow sid (Request cl cb (Some sid') now) (cl, cb, eo)) = (cl, cb, eo)"
  by (simp add: limitDiffers_def)

section \<open>Headers into the context\<close>

text \<open>
  The request's extra data: absent, or its headers, read by canonical name; an absent header
  reads as the empty string.
\<close>

type_synonym headers = "(string \<Rightarrow> string) option"

definition authHeaderPropagation :: "headers \<Rightarrow> string option \<Rightarrow> string option" where
  "authHeaderPropagation hdrs ctxAuth =
     (case hdrs of
        None \<Rightarrow> ctxAuth
      | Some get \<Rightarrow>
          if get ''Authorization'' \<noteq> [] then Some (get ''Authorization'')
          else if get ''kubernetes-authorization'' \<noteq> [] then Some (get ''kubernetes-authorization'')
          else ctxAuth)"

text \<open>The client info of the session's initialization: absent, or its name and version.\<close>

definition getMcpReqUserAgent :: "headers \<Rightarrow> (string \<times> string) option \<Rightarrow> string" where
  "getMcpReqUserAgent hdrs clientInfo =
     (let fallback = (case clientInfo of None \<Rightarrow> []
            | Some (name, version) \<Rightarrow> if name = [] \<and> version = [] then [] else name @ ''/'' @ version)
      in (case hdrs of None \<Rightarrow> fallback
          | Some get \<Rightarrow> if get ''User-Agent'' \<noteq> [] then get ''User-Agent'' else fallback))"

definition userAgentHeader ::
    "string \<Rightarrow> string \<Rightarrow> string \<Rightarrow> string \<Rightarrow> headers \<Rightarrow> (string \<times> string) option \<Rightarrow> string" where
  "userAgentHeader serverName serverVersion goos goarch hdrs clientInfo =
     trimSpace (serverName @ ''/'' @ serverVersion @ '' ('' @ goos @ ''/'' @ goarch @ '') ''
       @ getMcpReqUserAgent hdrs clientInfo)"

definition metaCarrierGet :: "goMap \<Rightarrow> string \<Rightarrow> string" where
  "metaCarrierGet meta key = (case map_of meta key of Some (GStr str) \<Rightarrow> str | _ \<Rightarrow> [])"

end
