(* ===== verification/Config_Merge.thy ===== *)
theory Config_Merge
  imports Go_Values
begin

text \<open>
  The TOML documents of \<open>pkg/config/config.go\<close>: deep merging of the files of a configuration
  with the record of which file set which key, lookup of dotted keys and the list of all keys.
  A document is an association list; the order of a range over a Go map is the order of that
  list, and no lemma below depends on it. Reading a file and decoding TOML are parameters.
\<close>

named_theorems cfg_path \<open>laws of dotted paths and of lookup along a path\<close>

section \<open>Dotted keys\<close>

abbreviation dot :: char where "dot \<equiv> CHR ''.''"

definition joinPath :: "string \<Rightarrow> string \<Rightarrow> string" where
  "joinPath prefix key =
     (if prefix \<noteq> [] \<and> key \<noteq> [] then prefix @ dot # key
      else if prefix \<noteq> [] then prefix
      else key)"

text \<open>The assertion \<open>v.(map[string]any)\<close>.\<close>

fun asTable :: "goVal \<Rightarrow> goMap option" where
  "asTable (GMap m) = Some m"
| "asTable _ = None"

abbreviation entriesSize :: "goMap \<Rightarrow> nat" where
  "entriesSize m \<equiv> size_list (size_prod (\<lambda>_. 0) size) m"

lemma asTable_Some: "asTable v = Some m \<longleftrightarrow> v = GMap m"
  by (cases v) auto

lemma asTable_size [termination_simp]: "asTable v = Some m \<Longrightarrow> entriesSize m < size v"
  by (simp add: asTable_Some)

fun walkParts :: "goVal \<Rightarrow> string list \<Rightarrow> goVal option" where
  "walkParts cur [] = Some cur"
| "walkParts cur (p # ps) =
     (case asTable cur of None \<Rightarrow> None
      | Some mm \<Rightarrow> (case map_of mm p of None \<Rightarrow> None | Some nxt \<Rightarrow> walkParts nxt ps))"

definition mapLookup :: "goMap \<Rightarrow> string \<Rightarrow> goVal option" where
  "mapLookup m dotted = walkParts (GMap m) (goSplit dot dotted)"

function flattenKeys :: "goMap \<Rightarrow> string \<Rightarrow> string list" where
  "flattenKeys [] prefix = []"
| "flattenKeys ((k, v) # m) prefix =
     (let path = joinPath prefix k
      in path # (case asTable v of Some child \<Rightarrow> flattenKeys child path | None \<Rightarrow> []) @ flattenKeys m prefix)"
  by pat_completeness auto
termination
  by (relation "measure (\<lambda>(m, _). entriesSize m)") (auto simp: termination_simp)

section \<open>Sources and merging\<close>

type_synonym cfgSources = "string \<rightharpoonup> string"

text \<open>The loop of \<open>recordSources\<close> over the entries of a table is the second function.\<close>

function recordSources :: "cfgSources \<Rightarrow> string \<Rightarrow> goVal \<Rightarrow> string \<Rightarrow> cfgSources"
  and recordEntries :: "cfgSources \<Rightarrow> string \<Rightarrow> goMap \<Rightarrow> string \<Rightarrow> cfgSources" where
  "recordSources sources path val srcFile =
     (let sources = (if path \<noteq> [] then sources(path \<mapsto> srcFile) else sources)
      in (case asTable val of None \<Rightarrow> sources | Some child \<Rightarrow> recordEntries sources path child srcFile))"
| "recordEntries sources path [] srcFile = sources"
| "recordEntries sources path ((k, v) # child) srcFile =
     recordEntries (recordSources sources (joinPath path k) v srcFile) path child srcFile"
  by pat_completeness auto
termination
  by (relation "measure (\<lambda>x. case x of Inl (_, _, v, _) \<Rightarrow> size v | Inr (_, _, m, _) \<Rightarrow> entriesSize m)")
    (auto simp: termination_simp)

function deepMerge :: "goMap \<Rightarrow> goMap \<Rightarrow> string \<Rightarrow> cfgSources \<Rightarrow> string \<Rightarrow> goMap \<times> cfgSources" where
  "deepMerge dst [] srcFile sources prefix = (dst, sources)"
| "deepMerge dst ((key, srcVal) # src) srcFile sources prefix =
     (let path = joinPath prefix key
      in (case (Option.bind (map_of dst key) asTable, asTable srcVal) of
            (Some dstMap, Some srcMap) \<Rightarrow>
              (case deepMerge dstMap srcMap srcFile sources path of
                 (dstMap, sources) \<Rightarrow> deepMerge (assocUpd key (GMap dstMap) dst) src srcFile sources prefix)
          | _ \<Rightarrow>
              deepMerge (assocUpd key srcVal dst) src srcFile (recordSources sources path srcVal srcFile) prefix))"
  by pat_completeness auto
termination
  by (relation "measure (\<lambda>(_, src, _, _, _). entriesSize src)") (auto simp: termination_simp)

section \<open>What a merge gives\<close>

text \<open>The merge without its bookkeeping.\<close>

function overlay :: "goMap \<Rightarrow> goMap \<Rightarrow> goMap" where
  "overlay d [] = d"
| "overlay d ((k, v) # s) =
     overlay (assocUpd k (case (Option.bind (map_of d k) asTable, asTable v) of
         (Some dm, Some sm) \<Rightarrow> GMap (overlay dm sm) | _ \<Rightarrow> v) d) s"
  by pat_completeness auto
termination
  by (relation "measure (\<lambda>(_, s). entriesSize s)") (auto simp: termination_simp)

definition mergeVal :: "goVal option \<Rightarrow> goVal \<Rightarrow> goVal" where
  "mergeVal d v = (case (Option.bind d asTable, asTable v) of
     (Some dm, Some sm) \<Rightarrow> GMap (overlay dm sm) | _ \<Rightarrow> v)"

lemma overlay_Cons: "overlay d ((k, v) # s) = overlay (assocUpd k (mergeVal (map_of d k) v) d) s"
  by (simp add: mergeVal_def)

lemma fst_deepMerge: "fst (deepMerge dst src f so prefix) = overlay dst src"
proof (induction dst src f so prefix rule: deepMerge.induct)
  case (2 dst key srcVal src f so prefix)
  show ?case
  proof (cases "Option.bind (map_of dst key) asTable \<noteq> None \<and> asTable srcVal \<noteq> None")
    case True
    then obtain dm sm where v: "Option.bind (map_of dst key) asTable = Some dm" "asTable srcVal = Some sm" by auto
    obtain dm' so' where r: "deepMerge dm sm f so (joinPath prefix key) = (dm', so')" by force
    show ?thesis using "2.IH" v r by (simp del: recordSources.simps)
  next
    case False
    then show ?thesis using "2.IH" by (cases "Option.bind (map_of dst key) asTable"; cases "asTable srcVal")
        (simp_all del: recordSources.simps)
  qed
qed simp

lemma map_of_overlay:
  "distinct (map fst s) \<Longrightarrow> map_of (overlay d s) k =
     (case map_of s k of None \<Rightarrow> map_of d k | Some v \<Rightarrow> Some (mergeVal (map_of d k) v))"
proof (induction s arbitrary: d)
  case (Cons x s)
  obtain k' v where x: "x = (k', v)" by (cases x)
  have "map_of s k' = None" using Cons.prems x by (simp add: map_of_eq_None_iff)
  with Cons x show ?case by (simp only: overlay_Cons) (auto split: option.splits)
qed simp

text \<open>The value at a path that is no table, and whether a document hides what lies below.\<close>

definition leaf :: "goVal option \<Rightarrow> goVal option" where
  "leaf r = (if Option.bind r asTable = None then r else None)"

definition leafAt :: "goVal \<Rightarrow> string list \<Rightarrow> goVal option" where
  "leafAt v ks = leaf (walkParts v ks)"

fun shadows :: "goVal \<Rightarrow> string list \<Rightarrow> bool" where
  "shadows v [] = (asTable v \<noteq> None)"
| "shadows v (k # ks) =
     (case asTable v of None \<Rightarrow> True
      | Some m \<Rightarrow> (case map_of m k of None \<Rightarrow> False | Some w \<Rightarrow> shadows w ks))"

text \<open>Tables of decoded TOML: the keys of a table are distinct.\<close>

fun keysDistinct :: "goVal \<Rightarrow> bool" and entriesDistinct :: "goMap \<Rightarrow> bool" where
  "keysDistinct (GMap m) = entriesDistinct m"
| "keysDistinct _ = True"
| "entriesDistinct [] = True"
| "entriesDistinct ((k, v) # m) = (k \<notin> fst ` set m \<and> keysDistinct v \<and> entriesDistinct m)"

lemma entriesDistinct_distinct: "entriesDistinct m \<Longrightarrow> distinct (map fst m)"
  by (induction m) force+

lemma entriesDistinct_entry: "entriesDistinct m \<Longrightarrow> map_of m k = Some (GMap s) \<Longrightarrow> entriesDistinct s"
  by (induction m) (auto split: if_splits)

lemma leafAt_Nil: "leafAt v [] = (if asTable v = None then Some v else None)"
  by (simp add: leafAt_def leaf_def)

lemma leafAt_Cons [cfg_path]:
  "leafAt (GMap m) (k # ks) = (case map_of m k of None \<Rightarrow> None | Some v \<Rightarrow> leafAt v ks)"
  by (simp add: leafAt_def leaf_def split: option.splits)

lemma leafAt_noTable: "asTable v = None \<Longrightarrow> leafAt v (k # ks) = None"
  by (simp add: leafAt_def leaf_def)

lemma leafAt_overlay:
  assumes "entriesDistinct s" and "ks \<noteq> []"
  shows "leafAt (GMap (overlay d s)) ks =
    (case leafAt (GMap s) ks of Some v \<Rightarrow> Some v
     | None \<Rightarrow> if shadows (GMap s) ks then None else leafAt (GMap d) ks)"
  using assms
proof (induction ks arbitrary: d s)
  case (Cons k ks)
  note look = map_of_overlay [OF entriesDistinct_distinct [OF Cons.prems(1)], of d k]
  show ?case
  proof (cases "map_of s k")
    case None
    then show ?thesis using look by (simp add: leafAt_Cons)
  next
    case (Some v)
    have at: "leafAt (GMap (overlay d s)) (k # ks) = leafAt (mergeVal (map_of d k) v) ks"
      using look Some by (simp add: leafAt_Cons)
    show ?thesis
    proof (cases "asTable v \<noteq> None \<and> Option.bind (map_of d k) asTable \<noteq> None")
      case True
      then obtain sm dm where v: "v = GMap sm" "map_of d k = Some (GMap dm)"
        by (auto simp: asTable_Some bind_eq_Some_conv)
      have "entriesDistinct sm" using entriesDistinct_entry Cons.prems(1) Some v by blast
      moreover have "leafAt (GMap d) (k # ks) = leafAt (GMap dm) ks" "leafAt (GMap s) (k # ks) = leafAt (GMap sm) ks"
        using Some v by (simp_all add: leafAt_Cons)
      ultimately show ?thesis using Cons.IH [of sm dm] at Some v
        by (cases "ks = []") (simp_all add: mergeVal_def leafAt_Nil split: option.splits)
    next
      case other: False
      then have m: "mergeVal (map_of d k) v = v" by (auto simp: mergeVal_def split: option.splits)
      have rest: "leafAt (GMap d) (k # ks) = None" if "asTable v \<noteq> None" "ks \<noteq> []"
        using that other by (cases ks) (auto simp: leafAt_Cons leafAt_noTable split: option.splits)
      show ?thesis using at m Some rest
        by (cases ks; cases "asTable v") (auto simp: leafAt_Cons leafAt_Nil leafAt_noTable split: option.splits)
    qed
  qed
qed simp

section \<open>Where a key comes from\<close>

definition dotted :: "string list \<Rightarrow> string" where
  "dotted ks = goJoin [dot] ks"

text \<open>Keys that are not empty and contain no dot; only for those are dotted paths unambiguous.\<close>

definition plainKeys :: "string list \<Rightarrow> bool" where
  "plainKeys ks \<longleftrightarrow> (\<forall>k \<in> set ks. k \<noteq> [] \<and> dot \<notin> set k)"

fun plainDoc :: "goVal \<Rightarrow> bool" and plainEntries :: "goMap \<Rightarrow> bool" where
  "plainDoc (GMap m) = plainEntries m"
| "plainDoc _ = True"
| "plainEntries [] = True"
| "plainEntries ((k, v) # m) = (k \<noteq> [] \<and> dot \<notin> set k \<and> plainDoc v \<and> plainEntries m)"

lemma plainKeys_simps [simp]:
  "plainKeys []" "plainKeys (k # ks) \<longleftrightarrow> k \<noteq> [] \<and> dot \<notin> set k \<and> plainKeys ks"
  "plainKeys (ks @ ls) \<longleftrightarrow> plainKeys ks \<and> plainKeys ls"
  by (auto simp: plainKeys_def)

lemma dotted_simps: "dotted [] = []" "dotted [k] = k" "dotted (k # l # ks) = k @ dot # dotted (l # ks)"
  by (simp_all add: dotted_def)

lemma dotted_empty [simp]: "plainKeys ks \<Longrightarrow> dotted ks = [] \<longleftrightarrow> ks = []"
  by (cases ks; cases "tl ks") (auto simp: dotted_simps)

lemma goSplit_dotted: "plainKeys ks \<Longrightarrow> ks \<noteq> [] \<Longrightarrow> goSplit dot (dotted ks) = ks"
  by (auto simp: dotted_def plainKeys_def intro!: goSplit_goJoin)

lemma dotted_inject: "plainKeys ks \<Longrightarrow> plainKeys ls \<Longrightarrow> dotted ks = dotted ls \<longleftrightarrow> ks = ls"
  by (metis dotted_empty goSplit_dotted)

lemma dotted_snoc: "plainKeys (ks @ [k]) \<Longrightarrow> joinPath (dotted ks) k = dotted (ks @ [k])"
proof (induction ks)
  case (Cons x ks)
  have "plainKeys ks" using Cons.prems by simp
  with Cons show ?case by (cases ks) (auto simp: dotted_simps joinPath_def)
qed (simp add: dotted_simps joinPath_def)

lemma walkParts_table_Cons:
  "k \<notin> fst ` set m \<Longrightarrow> walkParts (GMap ((k, v) # m)) (a # ks) =
     (if a = k then walkParts v ks else walkParts (GMap m) (a # ks))"
  by simp

lemma walkParts_empty: "walkParts (GMap []) ks = (if ks = [] then Some (GMap []) else None)"
  by (cases ks) auto

lemma walkParts_noTable: "asTable v = None \<Longrightarrow> walkParts v ks = (if ks = [] then Some v else None)"
  by (cases ks) auto

lemma walkParts_absent: "k \<notin> fst ` set m \<Longrightarrow> walkParts (GMap m) (k # ks) = None"
  using map_of_eq_None_iff [of m k] by simp

lemma if_or: "(if A then x else if B then x else y) = (if A \<or> B then x else y)"
  by simp

text \<open>What \<open>recordSources\<close> writes below a path.\<close>

lemma recordSources_at:
  "path = dotted pre \<Longrightarrow> plainDoc v \<Longrightarrow> plainKeys pre \<Longrightarrow> plainKeys ps \<Longrightarrow> keysDistinct v \<Longrightarrow>
    recordSources so path v f (dotted ps) =
      (if ps \<noteq> [] \<and> (\<exists>ks. ps = pre @ ks \<and> walkParts v ks \<noteq> None) then Some f else so (dotted ps))"
  and recordEntries_at:
  "path = dotted pre \<Longrightarrow> plainEntries m \<Longrightarrow> plainKeys pre \<Longrightarrow> plainKeys ps \<Longrightarrow> entriesDistinct m \<Longrightarrow>
    recordEntries so path m f (dotted ps) =
      (if \<exists>ks. ks \<noteq> [] \<and> ps = pre @ ks \<and> walkParts (GMap m) ks \<noteq> None then Some f else so (dotted ps))"
proof (induction so path v f and so path m f arbitrary: pre and pre rule: recordSources_recordEntries.induct)
  case (1 so path v f)
  show ?case
  proof (cases "asTable v")
    case None
    then show ?thesis using 1 by (auto simp: walkParts_noTable dotted_inject simp del: walkParts.simps)
  next
    case (Some m)
    then have v: "v = GMap m" by (simp add: asTable_Some)
    let ?so = "if path \<noteq> [] then so(path \<mapsto> f) else so"
    have ih: "recordEntries ?so path m f (dotted ps) =
        (if \<exists>ks. ks \<noteq> [] \<and> ps = pre @ ks \<and> walkParts (GMap m) ks \<noteq> None then Some f else ?so (dotted ps))"
      using "1.IH" [OF refl Some "1.prems"(1)] "1.prems" v by simp
    have so: "?so (dotted ps) = (if ps \<noteq> [] \<and> ps = pre then Some f else so (dotted ps))"
      using "1.prems" by (auto simp: dotted_inject)
    have w: "(\<exists>ks. ps = pre @ ks \<and> walkParts v ks \<noteq> None) \<longleftrightarrow>
        (\<exists>ks. ks \<noteq> [] \<and> ps = pre @ ks \<and> walkParts (GMap m) ks \<noteq> None) \<or> ps = pre"
      using v by (metis append_Nil2 option.distinct(1) walkParts.simps(1))
    show ?thesis using ih so v unfolding w by (auto simp del: walkParts.simps)
  qed
next
  case (2 so path f)
  show ?case by (auto simp: walkParts_empty)
next
  case (3 so path k v m f)
  have k: "k \<notin> fst ` set m" "plainKeys (pre @ [k])" and p: "joinPath path k = dotted (pre @ [k])"
    using 3 dotted_snoc by auto
  have w: "(\<exists>ks. ks \<noteq> [] \<and> ps = pre @ ks \<and> walkParts (GMap ((k, v) # m)) ks \<noteq> None) \<longleftrightarrow>
      (\<exists>ks. ks \<noteq> [] \<and> ps = pre @ ks \<and> walkParts (GMap m) ks \<noteq> None)
    \<or> (\<exists>ks. ps = (pre @ [k]) @ ks \<and> walkParts v ks \<noteq> None)" (is "?L \<longleftrightarrow> ?R")
  proof
    assume ?L
    then obtain a ks where "ps = pre @ a # ks" "walkParts (GMap ((k, v) # m)) (a # ks) \<noteq> None"
      by (metis neq_Nil_conv)
    then show ?R unfolding walkParts_table_Cons [OF k(1)] by (auto split: if_splits simp del: walkParts.simps)
  next
    assume ?R
    then show ?L
    proof
      assume "\<exists>ks. ks \<noteq> [] \<and> ps = pre @ ks \<and> walkParts (GMap m) ks \<noteq> None"
      then obtain a ks where a: "ps = pre @ a # ks" "walkParts (GMap m) (a # ks) \<noteq> None" by (metis neq_Nil_conv)
      then have "a \<noteq> k" using walkParts_absent [OF k(1)] by metis
      with a show ?L using walkParts_table_Cons [OF k(1)] by (metis list.distinct(1))
    next
      assume "\<exists>ks. ps = (pre @ [k]) @ ks \<and> walkParts v ks \<noteq> None"
      then show ?L using walkParts_table_Cons [OF k(1), of v k] by (metis append.assoc append_Cons append_Nil list.distinct(1))
    qed
  qed
  have "recordSources so (joinPath path k) v f (dotted ps) =
      (if \<exists>ks. ps = (pre @ [k]) @ ks \<and> walkParts v ks \<noteq> None then Some f else so (dotted ps))"
    using "3.IH"(1) [OF p] "3.prems" k by auto
  moreover have "recordEntries (recordSources so (joinPath path k) v f) path m f (dotted ps) =
      (if \<exists>ks. ks \<noteq> [] \<and> ps = pre @ ks \<and> walkParts (GMap m) ks \<noteq> None then Some f
       else recordSources so (joinPath path k) v f (dotted ps))"
    using "3.IH"(2) [of pre] "3.prems" by simp
  ultimately show ?case by (simp only: recordEntries.simps w if_or)
qed

text \<open>The keys of \<open>s\<close> that a merge into \<open>d\<close> sets, rather than merging two tables.\<close>

definition setsVal :: "goVal option \<Rightarrow> goVal \<Rightarrow> string list \<Rightarrow> bool" where
  "setsVal d v ks \<longleftrightarrow> walkParts v ks \<noteq> None
     \<and> \<not> (Option.bind (walkParts v ks) asTable \<noteq> None
          \<and> Option.bind (Option.bind d (\<lambda>x. walkParts x ks)) asTable \<noteq> None)"

lemma setsVal_Cons:
  "k \<notin> fst ` set src \<Longrightarrow> setsVal (Some (GMap d)) (GMap ((k, v) # src)) (a # ks) =
     (if a = k then setsVal (map_of d k) v ks else setsVal (Some (GMap d)) (GMap src) (a # ks))"
  by (cases "map_of d k") (simp_all add: setsVal_def walkParts_absent)

lemma setsVal_upd: "a \<noteq> k \<Longrightarrow> setsVal (Some (GMap (assocUpd k v d))) (GMap s) (a # ks) = setsVal (Some (GMap d)) (GMap s) (a # ks)"
  by (simp add: setsVal_def)

lemma setsVal_absent: "k \<notin> fst ` set src \<Longrightarrow> \<not> setsVal d (GMap src) (k # ks)"
  by (simp add: setsVal_def walkParts_absent del: walkParts.simps)

lemma setsVal_noTable:
  assumes "Option.bind d asTable = None \<or> asTable v = None"
  shows "setsVal d v ks \<longleftrightarrow> walkParts v ks \<noteq> None"
proof (cases ks)
  case Nil
  then show ?thesis using assms by (auto simp: setsVal_def split: option.splits)
next
  case (Cons k r)
  then show ?thesis using assms by (cases d) (auto simp: setsVal_def split: option.splits)
qed

lemma below_Cons:
  assumes "k \<notin> fst ` set src"
  shows "(\<exists>ks. ks \<noteq> [] \<and> ps = pre @ ks \<and> setsVal (Some (GMap d)) (GMap ((k, v) # src)) ks) \<longleftrightarrow>
      (\<exists>ks. ks \<noteq> [] \<and> ps = pre @ ks \<and> setsVal (Some (GMap (assocUpd k w d))) (GMap src) ks)
    \<or> (\<exists>ks. ps = (pre @ [k]) @ ks \<and> setsVal (map_of d k) v ks)" (is "?L \<longleftrightarrow> ?R1 \<or> ?R2")
proof
  assume ?L
  then obtain a ks where ps: "ps = pre @ a # ks" "setsVal (Some (GMap d)) (GMap ((k, v) # src)) (a # ks)"
    by (metis neq_Nil_conv)
  show "?R1 \<or> ?R2"
  proof (cases "a = k")
    case True
    then show ?thesis using ps setsVal_Cons [OF assms, of d v a ks] by auto
  next
    case False
    then have "setsVal (Some (GMap (assocUpd k w d))) (GMap src) (a # ks)"
      using ps(2) unfolding setsVal_upd [OF False] setsVal_Cons [OF assms] by simp
    with ps(1) show ?thesis by blast
  qed
next
  assume "?R1 \<or> ?R2"
  then show ?L
  proof
    assume ?R1
    then obtain a ks where ps: "ps = pre @ a # ks" "setsVal (Some (GMap (assocUpd k w d))) (GMap src) (a # ks)"
      by (metis neq_Nil_conv)
    then have "a \<noteq> k" using setsVal_absent [OF assms] by metis
    with ps show ?L unfolding setsVal_upd [OF \<open>a \<noteq> k\<close>]
      using setsVal_Cons [OF assms, of d v a ks] by (metis list.distinct(1))
  next
    assume ?R2
    then show ?L using setsVal_Cons [OF assms, of d v k] by (metis append.assoc append_Cons append_Nil list.distinct(1))
  qed
qed

lemma deepMerge_sources:
  "prefix = dotted pre \<Longrightarrow> plainEntries src \<Longrightarrow> entriesDistinct src \<Longrightarrow> plainKeys pre \<Longrightarrow> plainKeys ps \<Longrightarrow>
    snd (deepMerge dst src f so prefix) (dotted ps) =
      (if \<exists>ks. ks \<noteq> [] \<and> ps = pre @ ks \<and> setsVal (Some (GMap dst)) (GMap src) ks then Some f else so (dotted ps))"
proof (induction dst src f so prefix arbitrary: pre rule: deepMerge.induct)
  case (1 dst f so prefix)
  have "\<not> setsVal (Some (GMap dst)) (GMap []) ks" if "ks \<noteq> []" for ks
    using that by (cases ks) (auto simp: setsVal_def)
  then show ?case by auto
next
  case (2 dst k v src f so prefix)
  have k: "k \<notin> fst ` set src" "plainKeys (pre @ [k])" and p: "joinPath prefix k = dotted (pre @ [k])"
    using "2.prems" dotted_snoc by auto
  show ?case
  proof (cases "Option.bind (map_of dst k) asTable \<noteq> None \<and> asTable v \<noteq> None")
    case True
    then obtain dm sm where v: "map_of dst k = Some (GMap dm)" "v = GMap sm"
      by (auto simp: asTable_Some bind_eq_Some_conv)
    obtain dm' so' where r: "deepMerge dm sm f so (joinPath prefix k) = (dm', so')" by force
    have t: "Option.bind (map_of dst k) asTable = Some dm" "asTable v = Some sm" by (simp_all add: v)
    have e: "setsVal (map_of dst k) v [] = False" by (simp add: v setsVal_def)
    have ih1: "so' (dotted ps) = (if \<exists>ks. ks \<noteq> [] \<and> ps = (pre @ [k]) @ ks \<and> setsVal (map_of dst k) v ks
        then Some f else so (dotted ps))"
      using "2.IH"(3) [OF refl refl t p] "2.prems" v r k by simp
    have "snd (deepMerge (assocUpd k (GMap dm') dst) src f so' prefix) (dotted ps) =
        (if \<exists>ks. ks \<noteq> [] \<and> ps = pre @ ks \<and> setsVal (Some (GMap (assocUpd k (GMap dm') dst))) (GMap src) ks
         then Some f else so' (dotted ps))"
      using "2.IH"(4) [OF refl refl t r [symmetric] "2.prems"(1)] "2.prems" by simp
    moreover have "(\<exists>ks. ks \<noteq> [] \<and> ps = (pre @ [k]) @ ks \<and> setsVal (map_of dst k) v ks) \<longleftrightarrow>
        (\<exists>ks. ps = (pre @ [k]) @ ks \<and> setsVal (map_of dst k) v ks)" using e by metis
    ultimately show ?thesis using v r ih1 below_Cons [OF k(1), of ps pre dst v "GMap dm'"]
      by (simp only: deepMerge.simps Let_def asTable.simps bind.bind_lunit prod.case option.case if_or snd_conv)
  next
    case False
    have step: "deepMerge dst ((k, v) # src) f so prefix =
        deepMerge (assocUpd k v dst) src f (recordSources so (joinPath prefix k) v f) prefix"
      using False by (auto simp: Let_def split: option.splits)
    have "snd (deepMerge (assocUpd k v dst) src f (recordSources so (joinPath prefix k) v f) prefix) (dotted ps) =
        (if \<exists>ks. ks \<noteq> [] \<and> ps = pre @ ks \<and> setsVal (Some (GMap (assocUpd k v dst))) (GMap src) ks
         then Some f else recordSources so (joinPath prefix k) v f (dotted ps))"
      using "2.IH"(1,2) [OF refl refl, where pre = pre] "2.prems" False
      by (cases "Option.bind (map_of dst k) asTable") (simp_all del: recordSources.simps)
    moreover have "recordSources so (joinPath prefix k) v f (dotted ps) =
        (if \<exists>ks. ps = (pre @ [k]) @ ks \<and> setsVal (map_of dst k) v ks then Some f else so (dotted ps))"
      using recordSources_at [OF p, of v ps so f] "2.prems" k False by (auto simp: setsVal_noTable)
    ultimately show ?thesis using below_Cons [OF k(1), of ps pre dst v v] by (simp only: step if_or)
  qed
qed

lemma leafAt_table_shadows: "walkParts v ks = Some w \<Longrightarrow> asTable w \<noteq> None \<Longrightarrow> shadows v ks"
  by (induction v ks rule: shadows.induct) (auto split: option.splits)

lemma flattenKeys_iff:
  "prefix = dotted pre \<Longrightarrow> plainEntries m \<Longrightarrow> entriesDistinct m \<Longrightarrow> plainKeys pre \<Longrightarrow>
    q \<in> set (flattenKeys m prefix) \<longleftrightarrow> (\<exists>ks. ks \<noteq> [] \<and> q = dotted (pre @ ks) \<and> walkParts (GMap m) ks \<noteq> None)"
proof (induction m prefix arbitrary: pre rule: flattenKeys.induct)
  case (1 prefix)
  show ?case by (auto simp: walkParts_empty)
next
  case (2 k v m prefix)
  have k: "k \<notin> fst ` set m" "plainKeys (pre @ [k])" and p: "joinPath prefix k = dotted (pre @ [k])"
    using "2.prems" dotted_snoc by auto
  have sub: "q \<in> set (case asTable v of Some child \<Rightarrow> flattenKeys child (joinPath prefix k) | None \<Rightarrow> [])
      \<longleftrightarrow> (\<exists>ks. ks \<noteq> [] \<and> q = dotted ((pre @ [k]) @ ks) \<and> walkParts v ks \<noteq> None)"
  proof (cases "asTable v")
    case None
    then show ?thesis by (simp add: walkParts_noTable)
  next
    case (Some c)
    then show ?thesis using "2.IH"(1) [OF refl Some p] "2.prems" k by (simp add: asTable_Some del: walkParts.simps)
  qed
  have rest: "q \<in> set (flattenKeys m prefix) \<longleftrightarrow> (\<exists>ks. ks \<noteq> [] \<and> q = dotted (pre @ ks) \<and> walkParts (GMap m) ks \<noteq> None)"
    using "2.IH"(2) [OF refl "2.prems"(1)] "2.prems" by simp
  have "(\<exists>ks. ks \<noteq> [] \<and> q = dotted (pre @ ks) \<and> walkParts (GMap ((k, v) # m)) ks \<noteq> None) \<longleftrightarrow>
      q = dotted (pre @ [k]) \<or> (\<exists>ks. ks \<noteq> [] \<and> q = dotted ((pre @ [k]) @ ks) \<and> walkParts v ks \<noteq> None)
    \<or> (\<exists>ks. ks \<noteq> [] \<and> q = dotted (pre @ ks) \<and> walkParts (GMap m) ks \<noteq> None)" (is "?L \<longleftrightarrow> ?A \<or> ?B \<or> ?C")
  proof
    assume ?L
    then obtain a ks where q: "q = dotted (pre @ a # ks)" "walkParts (GMap ((k, v) # m)) (a # ks) \<noteq> None"
      by (metis neq_Nil_conv)
    then show "?A \<or> ?B \<or> ?C" unfolding walkParts_table_Cons [OF k(1)]
      by (cases "a = k"; cases "ks = []") (auto simp del: walkParts.simps)
  next
    assume "?A \<or> ?B \<or> ?C"
    then consider ?A | ?B | ?C by blast
    then show ?L
    proof cases
      case 1
      then show ?thesis using walkParts_table_Cons [OF k(1), of v k "[]"] by (intro exI [of _ "[k]"]) simp
    next
      case 2
      then obtain ks where "q = dotted (pre @ k # ks)" "walkParts v ks \<noteq> None" by auto
      then show ?thesis using walkParts_table_Cons [OF k(1), of v k ks] by (intro exI [of _ "k # ks"]) simp
    next
      case 3
      then obtain a ks where a: "q = dotted (pre @ a # ks)" "walkParts (GMap m) (a # ks) \<noteq> None" by (metis neq_Nil_conv)
      then have "a \<noteq> k" using walkParts_absent [OF k(1)] by metis
      with a show ?thesis using walkParts_table_Cons [OF k(1), of v a ks] by (intro exI [of _ "a # ks"]) simp
    qed
  qed
  then show ?case using sub rest p by (simp add: Let_def del: walkParts.simps)
qed

section \<open>The files of a configuration\<close>

definition SourceStdin :: string where
  "SourceStdin = ''<Stdin>''"

datatype cfgErr =
    DecodeFailed string string
  | ReadFailed string string
  | ReadDirFailed string
  | StatFailed string
  | NotADirectory string
  | StaleConfD string "string list"
  | OptionFailed string string
  | UnknownKey string string
  | RemovedKey string string string
  | ExpectedTable string string string
  | NonReloadable "string list"
  | ExtensionFailed string

definition mergeTOML ::
    "(string \<Rightarrow> string + goMap) \<Rightarrow> goMap \<Rightarrow> cfgSources \<Rightarrow> string \<Rightarrow> string \<Rightarrow> cfgErr + goMap \<times> cfgSources" where
  "mergeTOML decode merged sources data src =
     (case decode data of
        Inl err \<Rightarrow> Inl (DecodeFailed src err)
      | Inr doc \<Rightarrow> Inr (deepMerge merged doc src sources []))"

fun mergeFileLoop ::
    "(string \<Rightarrow> string + string) \<Rightarrow> (string \<Rightarrow> string + goMap) \<Rightarrow> string list \<Rightarrow> goMap \<Rightarrow> cfgSources \<Rightarrow>
     cfgErr + goMap \<times> cfgSources" where
  "mergeFileLoop readFile decode [] merged sources = Inr (merged, sources)"
| "mergeFileLoop readFile decode (file # files) merged sources =
     (case readFile file of
        Inl err \<Rightarrow> Inl (ReadFailed file err)
      | Inr data \<Rightarrow>
          (case mergeTOML decode merged sources data file of
             Inl err \<Rightarrow> Inl err
           | Inr (merged, sources) \<Rightarrow> mergeFileLoop readFile decode files merged sources))"

definition mergeTOMLFiles ::
    "(string \<Rightarrow> string + string) \<Rightarrow> (string \<Rightarrow> string + goMap) \<Rightarrow> string \<Rightarrow> string list \<Rightarrow> cfgErr + goMap \<times> cfgSources" where
  "mergeTOMLFiles readFile decode stdinConfig files =
     (case (if length stdinConfig > 0 then mergeTOML decode [] Map.empty stdinConfig SourceStdin
            else Inr ([], Map.empty)) of
        Inl err \<Rightarrow> Inl err
      | Inr (merged, sources) \<Rightarrow> mergeFileLoop readFile decode files merged sources)"

text \<open>
  The file system as the loader sees it: the result of \<open>os.Stat\<close> and the entries of a directory
  with their names and whether they are directories.
\<close>

datatype statResult = StatNotExist | StatErr string | StatDir | StatOther

record cfgFS =
  fsStat :: "string \<Rightarrow> statResult"
  fsReadDir :: "string \<Rightarrow> string + (string \<times> bool) list"
  fsReadFile :: "string \<Rightarrow> string + string"

text \<open>\<open>filepath.Join\<close> of a clean absolute directory and a file name.\<close>

definition fileJoin :: "string \<Rightarrow> string \<Rightarrow> string" where
  "fileJoin dir name = (if dir = ''/'' then dir @ name else dir @ ''/'' @ name)"

definition configFileName :: "string \<times> bool \<Rightarrow> bool" where
  "configFileName entry =
     (case entry of (name, isDir) \<Rightarrow>
        \<not> isDir \<and> \<not> hasPrefix name ''.'' \<and> hasSuffix name ''.toml'')"

definition getSortedConfigFiles :: "cfgFS \<Rightarrow> string \<Rightarrow> cfgErr + string list" where
  "getSortedConfigFiles fs dir =
     (case fsReadDir fs dir of
        Inl err \<Rightarrow> Inl (ReadDirFailed err)
      | Inr entries \<Rightarrow> Inr (sort (map (\<lambda>e. fileJoin dir (fst e)) (filter configFileName entries))))"

definition loadDropInConfigs :: "cfgFS \<Rightarrow> string \<Rightarrow> cfgErr + string list" where
  "loadDropInConfigs fs dir =
     (case fsStat fs dir of
        StatNotExist \<Rightarrow> Inr []
      | StatErr err \<Rightarrow> Inl (StatFailed err)
      | StatOther \<Rightarrow> Inl (NotADirectory dir)
      | StatDir \<Rightarrow> getSortedConfigFiles fs dir)"

definition rejectStaleImplicitConfD :: "cfgFS \<Rightarrow> string \<Rightarrow> cfgErr option" where
  "rejectStaleImplicitConfD fs configDir =
     (let implicit = fileJoin configDir ''conf.d''
      in (case fsStat fs implicit of
            StatNotExist \<Rightarrow> None
          | StatErr err \<Rightarrow> Some (StatFailed err)
          | StatOther \<Rightarrow> None
          | StatDir \<Rightarrow>
              (case getSortedConfigFiles fs implicit of
                 Inl err \<Rightarrow> Some err
               | Inr files \<Rightarrow> if files = [] then None else Some (StaleConfD implicit files))))"

section \<open>The last document decides\<close>

text \<open>The documents that a load reads, in the order in which they are merged.\<close>

fun fileDocuments :: "(string \<Rightarrow> string + string) \<Rightarrow> (string \<Rightarrow> string + goMap) \<Rightarrow> string list \<Rightarrow>
    cfgErr + (string \<times> goMap) list" where
  "fileDocuments readFile decode [] = Inr []"
| "fileDocuments readFile decode (file # files) =
     (case readFile file of Inl err \<Rightarrow> Inl (ReadFailed file err)
      | Inr data \<Rightarrow>
          (case decode data of Inl err \<Rightarrow> Inl (DecodeFailed file err)
           | Inr doc \<Rightarrow> map_sum id ((#) (file, doc)) (fileDocuments readFile decode files)))"

definition documents :: "(string \<Rightarrow> string + string) \<Rightarrow> (string \<Rightarrow> string + goMap) \<Rightarrow> string \<Rightarrow> string list \<Rightarrow>
    cfgErr + (string \<times> goMap) list" where
  "documents readFile decode stdinConfig files =
     (if stdinConfig = [] then fileDocuments readFile decode files
      else (case decode stdinConfig of Inl err \<Rightarrow> Inl (DecodeFailed SourceStdin err)
            | Inr doc \<Rightarrow> map_sum id ((#) (SourceStdin, doc)) (fileDocuments readFile decode files)))"

definition mergeDocs :: "(string \<times> goMap) list \<Rightarrow> goMap \<times> cfgSources \<Rightarrow> goMap \<times> cfgSources" where
  "mergeDocs docs s = foldl (\<lambda>(m, so) (file, doc). deepMerge m doc file so []) s docs"

lemma mergeFileLoop_documents:
  "mergeFileLoop readFile decode files m so =
     map_sum id (\<lambda>docs. mergeDocs docs (m, so)) (fileDocuments readFile decode files)"
  by (induction files arbitrary: m so)
    (auto simp: mergeTOML_def mergeDocs_def map_sum_def split: sum.splits prod.splits)

lemma mergeTOMLFiles_documents:
  "mergeTOMLFiles readFile decode stdin files =
     map_sum id (\<lambda>docs. mergeDocs docs ([], Map.empty)) (documents readFile decode stdin files)"
  by (auto simp: mergeTOMLFiles_def documents_def mergeTOML_def mergeFileLoop_documents mergeDocs_def map_sum_def
      split: sum.splits prod.splits)

text \<open>The document that decides a path, newest first: the first that has a value there or hides it.\<close>

fun decides :: "(string \<times> goMap) list \<Rightarrow> string list \<Rightarrow> (string \<times> goVal) option" where
  "decides [] ks = None"
| "decides ((file, doc) # older) ks =
     (case leafAt (GMap doc) ks of Some v \<Rightarrow> Some (file, v)
      | None \<Rightarrow> if shadows (GMap doc) ks then None else decides older ks)"

lemma mergeDocs_leaf:
  assumes "ks \<noteq> []" and "\<forall>d \<in> set docs. entriesDistinct (snd d)"
  shows "leafAt (GMap (fst (mergeDocs docs ([], Map.empty)))) ks = map_option snd (decides (rev docs) ks)"
  using assms(2)
proof (induction docs rule: rev_induct)
  case Nil
  then show ?case using assms(1) by (cases ks) (simp_all add: mergeDocs_def leafAt_Cons)
next
  case (snoc x docs)
  obtain f doc where x: "x = (f, doc)" by (cases x)
  obtain m so where m: "mergeDocs docs ([], Map.empty) = (m, so)" by force
  have "fst (mergeDocs (docs @ [x]) ([], Map.empty)) = overlay m doc"
    using m x by (simp add: mergeDocs_def fst_deepMerge)
  then show ?case using snoc m x leafAt_overlay [of doc ks m] assms(1)
    by (auto split: option.splits)
qed

lemma mergeDocs_source:
  assumes "ks \<noteq> []" and "plainKeys ks" and "\<forall>d \<in> set docs. entriesDistinct (snd d) \<and> plainEntries (snd d)"
    and "decides (rev docs) ks = Some (f, v)"
  shows "snd (mergeDocs docs ([], Map.empty)) (dotted ks) = Some f"
  using assms(3,4)
proof (induction docs rule: rev_induct)
  case (snoc x docs)
  obtain g doc where x: "x = (g, doc)" by (cases x)
  obtain m so where m: "mergeDocs docs ([], Map.empty) = (m, so)" by force
  have s: "snd (mergeDocs (docs @ [x]) ([], Map.empty)) (dotted ks) =
      (if setsVal (Some (GMap m)) (GMap doc) ks then Some g else so (dotted ks))"
    using m x snoc.prems assms(1,2) deepMerge_sources [of "[]" "[]" doc ks m g so]
    by (auto simp: mergeDocs_def dotted_simps)
  show ?case
  proof (cases "leafAt (GMap doc) ks")
    case (Some w)
    then have "setsVal (Some (GMap m)) (GMap doc) ks"
      by (auto simp: leafAt_def leaf_def setsVal_def simp del: walkParts.simps split: if_splits)
    then show ?thesis using s snoc.prems x Some by simp
  next
    case None
    then have d: "\<not> shadows (GMap doc) ks" "decides (rev docs) ks = Some (f, v)"
      using snoc.prems x by (auto split: if_splits)
    have "walkParts (GMap doc) ks = None"
      using None d(1) leafAt_table_shadows [of "GMap doc" ks]
      by (cases "walkParts (GMap doc) ks") (auto simp: leafAt_def leaf_def simp del: walkParts.simps split: if_splits)
    then have "\<not> setsVal (Some (GMap m)) (GMap doc) ks" by (simp add: setsVal_def del: walkParts.simps)
    then show ?thesis using s snoc.IH snoc.prems d(2) m by simp
  qed
qed simp

text \<open>
  The documents of a load are merged so that the last one decides. At every path the value
  of the merged configuration is that of the newest document that has a value there, unless a
  newer one replaced a table on the way (or the path itself) by something of the other kind; and
  for keys without dots the recorded source of every value is the document that decided it.
\<close>

lemma last_document_decides:
  assumes "documents readFile decode stdin files = Inr docs"
    and "\<forall>d \<in> set docs. entriesDistinct (snd d) \<and> plainEntries (snd d)"
  shows "\<exists>m so. mergeTOMLFiles readFile decode stdin files = Inr (m, so)
    \<and> (\<forall>ks. ks \<noteq> [] \<longrightarrow> leafAt (GMap m) ks = map_option snd (decides (rev docs) ks))
    \<and> (\<forall>ks f v. ks \<noteq> [] \<and> plainKeys ks \<and> decides (rev docs) ks = Some (f, v) \<longrightarrow> so (dotted ks) = Some f)"
proof -
  obtain m so where m: "mergeDocs docs ([], Map.empty) = (m, so)" by force
  have "mergeTOMLFiles readFile decode stdin files = Inr (m, so)"
    using assms(1) m by (simp add: mergeTOMLFiles_documents)
  moreover have "\<forall>ks. ks \<noteq> [] \<longrightarrow> leafAt (GMap m) ks = map_option snd (decides (rev docs) ks)"
    using mergeDocs_leaf [of _ docs] assms(2) m by auto
  moreover have "\<forall>ks f v. ks \<noteq> [] \<and> plainKeys ks \<and> decides (rev docs) ks = Some (f, v) \<longrightarrow> so (dotted ks) = Some f"
    using mergeDocs_source [OF _ _ assms(2)] m by fastforce
  ultimately show ?thesis by blast
qed

definition exampleDecode :: "string \<Rightarrow> string + goMap" where
  "exampleDecode data =
     (if data = ''main'' then Inr [(''http'', GMap [(''max_body_bytes'', GInt64 1), (''rate_limit_burst'', GInt64 2)])]
      else Inr [(''http'', GMap [(''max_body_bytes'', GInt64 3)])])"

end
