(* ===== verification/Config_Load.thy ===== *)
theory Config_Load
  imports Config_Merge
begin

text \<open>
  \<open>pkg/config/option.go\<close>, \<open>extended.go\<close> and the loading half of \<open>config.go\<close>: options with
  their metadata, how TOML and the environment set them, the rejection of unknown keys, of
  tables of the wrong type and of changes that need a restart, and \<open>resolve\<close> that puts them
  together. The TOML library's decoder, \<open>time.ParseDuration\<close> and \<open>strconv.ParseFloat\<close> are fields
  of \<open>cfgLib\<close>; option values are dynamic values whose shape the option's type fixes.
\<close>

section \<open>Option values\<close>

datatype optType =
    TString | TStrings | TInt | TInt64 | TDuration | TBool | TBoolPtr | TFloat32 | TFloat64 | TFloat64Ptr
  | TStructs "(string \<times> tomlType) list" | TStructMap "(string \<times> tomlType) list"
and tomlType = TyOther | TyStruct "(string \<times> tomlType) list" | TySlice tomlType | TyMap tomlType

record cfgLib =
  clDecode :: "optType \<Rightarrow> goVal \<Rightarrow> string + goVal"
  clParseDuration :: "string \<Rightarrow> string + int"
  clParseFloat :: "nat \<Rightarrow> string \<Rightarrow> string + goFloat"
  clFloatOut :: "goFloat \<Rightarrow> int"
  clFloatSame :: "goFloat \<Rightarrow> bool"

definition asString :: "goVal \<Rightarrow> string + string" where
  "asString v = (case v of GStr s \<Rightarrow> Inr s | _ \<Rightarrow> Inl ''expected string'')"

text \<open>
  A float is accepted when converting it to \<open>int64\<close> and back gives the same float. Out of range
  the conversion is left to the implementation (\<open>clFloatOut\<close>), and \<open>clFloatSame\<close> says whether
  converting that back gives the float again.
\<close>

definition asInt64 :: "cfgLib \<Rightarrow> goVal \<Rightarrow> string + int" where
  "asInt64 lib v =
     (case v of
        GInt64 n \<Rightarrow> Inr n
      | GInt n \<Rightarrow> Inr n
      | GFloat f \<Rightarrow>
          if (if is_int64 (truncFloat f) then floatIntegral f else clFloatSame lib f)
          then Inr (floatToInt64 (clFloatOut lib) f) else Inl ''expected integer, got float''
      | _ \<Rightarrow> Inl ''expected integer'')"

definition trimStrings :: "goVal \<Rightarrow> goVal" where
  "trimStrings v = (case v of GList xs \<Rightarrow> GList (map (\<lambda>x. case x of GStr s \<Rightarrow> GStr (trimSpace s) | _ \<Rightarrow> x) xs) | _ \<Rightarrow> v)"

definition parseTyped :: "cfgLib \<Rightarrow> optType \<Rightarrow> goVal \<Rightarrow> string + goVal" where
  "parseTyped lib ty v =
     (case ty of
        TString \<Rightarrow> map_sum id (\<lambda>s. GStr (trimSpace s)) (asString v)
      | TStrings \<Rightarrow> map_sum id trimStrings (clDecode lib ty v)
      | TInt \<Rightarrow> map_sum id GInt (asInt64 lib v)
      | TInt64 \<Rightarrow> map_sum id GInt64 (asInt64 lib v)
      | TDuration \<Rightarrow>
          (case asString v of
             Inl _ \<Rightarrow> Inl ''expected duration string''
           | Inr s \<Rightarrow> map_sum id GInt64 (clParseDuration lib (trimSpace s)))
      | _ \<Rightarrow> clDecode lib ty v)"

section \<open>Unknown keys of structures\<close>

fun tableItems :: "goVal list \<Rightarrow> goMap list" where
  "tableItems [] = []"
| "tableItems (item # s) = (case asTable item of Some m \<Rightarrow> m # tableItems s | None \<Rightarrow> tableItems s)"

definition asSliceOfMaps :: "goVal \<Rightarrow> goMap list" where
  "asSliceOfMaps raw = (case raw of GList s \<Rightarrow> tableItems s | _ \<Rightarrow> [])"

lemma tableItems_size: "size_list (\<lambda>m. Suc (entriesSize m)) (tableItems xs) \<le> size_list size xs"
  by (induction xs) (auto simp: asTable_Some split: option.splits)

lemma asSliceOfMaps_size: "size_list (\<lambda>m. Suc (entriesSize m)) (asSliceOfMaps v) < Suc (size v)"
  using tableItems_size by (cases v) (simp_all add: asSliceOfMaps_def less_Suc_eq_le le_SucI)

text \<open>The result is the first unknown key, with its path.\<close>

function rejectUnknownStructKeys :: "goMap \<Rightarrow> (string \<times> tomlType) list \<Rightarrow> string \<Rightarrow> string option"
  and rejectUnknownField :: "goVal \<Rightarrow> tomlType \<Rightarrow> string \<Rightarrow> string option"
  and rejectUnknownSlice :: "nat \<Rightarrow> goMap list \<Rightarrow> (string \<times> tomlType) list \<Rightarrow> string \<Rightarrow> string option"
  and rejectUnknownMapOfStruct :: "goMap \<Rightarrow> (string \<times> tomlType) list \<Rightarrow> string \<Rightarrow> string option" where
  "rejectUnknownStructKeys [] known prefix = None"
| "rejectUnknownStructKeys ((key, val) # raw) known prefix =
     (case map_of known key of
        None \<Rightarrow> Some (prefix @ ''.'' @ key)
      | Some ft \<Rightarrow>
          (case rejectUnknownField val ft (prefix @ ''.'' @ key) of
             Some err \<Rightarrow> Some err
           | None \<Rightarrow> rejectUnknownStructKeys raw known prefix))"
| "rejectUnknownField val ft prefix =
     (case ft of
        TyStruct fs \<Rightarrow> (case asTable val of Some child \<Rightarrow> rejectUnknownStructKeys child fs prefix | None \<Rightarrow> None)
      | TySlice (TyStruct fs) \<Rightarrow> rejectUnknownSlice 0 (asSliceOfMaps val) fs prefix
      | TyMap (TyStruct fs) \<Rightarrow> (case asTable val of Some child \<Rightarrow> rejectUnknownMapOfStruct child fs prefix | None \<Rightarrow> None)
      | _ \<Rightarrow> None)"
| "rejectUnknownSlice i [] fs prefix = None"
| "rejectUnknownSlice i (m # ms) fs prefix =
     (case rejectUnknownStructKeys m fs (prefix @ ''['' @ goItoa i @ '']'') of
        Some err \<Rightarrow> Some err
      | None \<Rightarrow> rejectUnknownSlice (Suc i) ms fs prefix)"
| "rejectUnknownMapOfStruct [] fs prefix = None"
| "rejectUnknownMapOfStruct ((k, v) # raw) fs prefix =
     (case (case asTable v of Some m \<Rightarrow> rejectUnknownStructKeys m fs (prefix @ ''.'' @ k) | None \<Rightarrow> None) of
        Some err \<Rightarrow> Some err
      | None \<Rightarrow> rejectUnknownMapOfStruct raw fs prefix)"
  by pat_completeness auto

termination
  by (relation "measure (\<lambda>x. case x of
      Inl (Inl (raw, _)) \<Rightarrow> entriesSize raw | Inl (Inr (v, _)) \<Rightarrow> Suc (size v)
    | Inr (Inl (_, ms, _)) \<Rightarrow> size_list (\<lambda>m. Suc (entriesSize m)) ms | Inr (Inr (raw, _)) \<Rightarrow> entriesSize raw)")
    (auto simp: asSliceOfMaps_size dest: asTable_size)

definition rejectContainerUnknown :: "goVal \<Rightarrow> optType \<Rightarrow> string \<Rightarrow> string option" where
  "rejectContainerUnknown raw ty path =
     (case ty of
        TStructMap fs \<Rightarrow> (case asTable raw of None \<Rightarrow> None | Some child \<Rightarrow> rejectUnknownMapOfStruct child fs path)
      | TStructs fs \<Rightarrow> rejectUnknownSlice 0 (asSliceOfMaps raw) fs path
      | _ \<Rightarrow> None)"

section \<open>Options\<close>

definition SourceDefault :: string where "SourceDefault = ''<Default>''"

definition SourceEnv :: string where "SourceEnv = ''<Env>''"

definition SourceTest :: string where "SourceTest = ''<Test>''"

record cfgOption =
  opTOMLKey :: string
  opEnvName :: string
  opType :: optType
  opDefault :: goVal
  opParseEnv :: "(cfgLib \<Rightarrow> string \<Rightarrow> string + goVal) option"
  opReloadable :: bool
  opSensitive :: bool
  opValue :: goVal
  opSource :: string

definition setParsed :: "goVal \<Rightarrow> string \<Rightarrow> cfgOption \<Rightarrow> cfgOption" where
  "setParsed parsed src o1 = o1\<lparr>opValue := parsed, opSource := src\<rparr>"

definition resetToDefault :: "cfgOption \<Rightarrow> cfgOption" where
  "resetToDefault o1 = setParsed (opDefault o1) SourceDefault o1"

definition SetForTest :: "goVal \<Rightarrow> cfgOption \<Rightarrow> cfgOption" where
  "SetForTest v o1 = setParsed v SourceTest o1"

definition keepFrom :: "cfgOption \<Rightarrow> cfgOption \<Rightarrow> cfgOption" where
  "keepFrom other o1 = (if opType other = opType o1 then setParsed (opValue other) (opSource other) o1 else o1)"

definition equalValue :: "cfgOption \<Rightarrow> cfgOption \<Rightarrow> bool" where
  "equalValue o1 other \<longleftrightarrow> opType other = opType o1 \<and> opValue o1 = opValue other"

definition isContainer :: "cfgOption \<Rightarrow> bool" where
  "isContainer o1 = (case opType o1 of TStructs _ \<Rightarrow> True | TStructMap _ \<Rightarrow> True | _ \<Rightarrow> False)"

definition optApplyTOML :: "cfgLib \<Rightarrow> goVal \<Rightarrow> string \<Rightarrow> string \<Rightarrow> cfgOption \<Rightarrow> cfgErr + cfgOption" where
  "optApplyTOML lib raw source path o1 =
     (if opTOMLKey o1 = [] then Inr o1
      else (case parseTyped lib (opType o1) raw of
          Inl err \<Rightarrow> Inl (OptionFailed path err)
        | Inr parsed \<Rightarrow>
            (case (if isContainer o1 then rejectContainerUnknown raw (opType o1) path else None) of
               Some key \<Rightarrow> Inl (UnknownKey key [])
             | None \<Rightarrow> Inr (setParsed parsed source o1))))"

text \<open>\<open>lookupEnv\<close> is the process environment; an empty variable counts as unset.\<close>

definition optApplyEnv :: "cfgLib \<Rightarrow> (string \<Rightarrow> string option) \<Rightarrow> string \<Rightarrow> cfgOption \<Rightarrow> cfgErr + cfgOption" where
  "optApplyEnv lib lookupEnv path o1 =
     (if opEnvName o1 = [] then Inr o1
      else (case lookupEnv (opEnvName o1) of
          None \<Rightarrow> Inr o1
        | Some raw \<Rightarrow>
            if raw = [] then Inr o1
            else (case opParseEnv o1 of
                None \<Rightarrow> Inl (OptionFailed path (''option '' @ opEnvName o1 @ '' is missing ParseEnv''))
              | Some parse \<Rightarrow>
                  (case parse lib raw of
                     Inl err \<Rightarrow> Inl (OptionFailed path (''env '' @ opEnvName o1 @ '': '' @ err))
                   | Inr parsed \<Rightarrow> Inr (setParsed parsed SourceEnv o1)))))"

subsection \<open>Environment parsers\<close>

definition parseEnvString :: "cfgLib \<Rightarrow> string \<Rightarrow> string + goVal" where
  "parseEnvString lib s = Inr (GStr (trimSpace s))"

text \<open>\<open>strconv.Atoi\<close>: an optional sign and decimal digits within the range of \<open>int\<close>.\<close>

fun digitsValue :: "int \<Rightarrow> string \<Rightarrow> int option" where
  "digitsValue acc [] = Some acc"
| "digitsValue acc (c # cs) =
     (let n = of_char c :: int in if 48 \<le> n \<and> n \<le> 57 then digitsValue (10 * acc + (n - 48)) cs else None)"

definition goAtoi :: "string \<Rightarrow> int option" where
  "goAtoi s =
     (let neg = (s \<noteq> [] \<and> hd s = CHR ''-'');
          ds = (if s \<noteq> [] \<and> (hd s = CHR ''-'' \<or> hd s = CHR ''+'') then tl s else s)
      in if ds = [] then None
         else (case digitsValue 0 ds of
             None \<Rightarrow> None
           | Some n \<Rightarrow> let v = (if neg then - n else n) in if is_int64 v then Some v else None))"

definition parseEnvInt :: "cfgLib \<Rightarrow> string \<Rightarrow> string + goVal" where
  "parseEnvInt lib s = (case goAtoi s of None \<Rightarrow> Inl ''invalid syntax'' | Some n \<Rightarrow> Inr (GInt n))"

definition parseEnvFloat32 :: "cfgLib \<Rightarrow> string \<Rightarrow> string + goVal" where
  "parseEnvFloat32 lib s = map_sum id GFloat (clParseFloat lib 32 s)"

definition parseEnvFloat64Ptr :: "cfgLib \<Rightarrow> string \<Rightarrow> string + goVal" where
  "parseEnvFloat64Ptr lib s = map_sum id GFloat (clParseFloat lib 64 s)"

definition parseEnvStringSlice :: "cfgLib \<Rightarrow> string \<Rightarrow> string + goVal" where
  "parseEnvStringSlice lib s =
     Inr (GList (map GStr (filter (\<lambda>p. p \<noteq> []) (map trimSpace (goSplit (CHR '','') s)))))"

definition parseEnvDurationMS :: "cfgLib \<Rightarrow> string \<Rightarrow> string + goVal" where
  "parseEnvDurationMS lib s =
     (case goAtoi s of
        None \<Rightarrow> Inl ''expected integer milliseconds''
      | Some ms \<Rightarrow>
          if ms < 0 then Inl ''duration must not be negative''
          else Inr (GInt64 (wrap64 (ms * 1000000))))"

section \<open>Walking a configuration\<close>

text \<open>
  The exported fields of a configuration structure in declaration order: an option, or a nested
  structure with the name of its \<open>toml\<close> tag.
\<close>

datatype cfgField = OptField cfgOption | StructField string "cfgField list"

fun walkOptions :: "string \<Rightarrow> cfgField list \<Rightarrow> (string \<times> cfgOption) list" where
  "walkOptions prefix [] = []"
| "walkOptions prefix (OptField o1 # fs) = (joinPath prefix (opTOMLKey o1), o1) # walkOptions prefix fs"
| "walkOptions prefix (StructField name sub # fs) =
     (if name = ''-'' then [] else walkOptions (joinPath prefix name) sub) @ walkOptions prefix fs"

fun wrappingTables :: "string \<Rightarrow> cfgField list \<Rightarrow> string list" where
  "wrappingTables prefix [] = []"
| "wrappingTables prefix (OptField o1 # fs) = wrappingTables prefix fs"
| "wrappingTables prefix (StructField name sub # fs) =
     (if name = ''-'' then []
      else (if name \<noteq> [] then [joinPath prefix name] else []) @ wrappingTables (joinPath prefix name) sub)
     @ wrappingTables prefix fs"

type_synonym options = "(string \<times> cfgOption) list"

text \<open>A configuration: the options in walk order and the parsed extension tables.\<close>

record 'x config =
  cfOptions :: options
  cfTables :: "string list"
  cfTokenExchangePresent :: bool
  cfConfigDirPath :: string
  cfProviderConfigs :: "(string \<times> 'x) list"
  cfToolsetConfigs :: "(string \<times> 'x) list"
  cfProviderSource :: string
  cfToolsetSource :: string

definition newFrom :: "cfgField list \<Rightarrow> 'x config" where
  "newFrom schema =
     \<lparr>cfOptions = map (\<lambda>(path, o1). (path, resetToDefault o1)) (walkOptions [] schema),
      cfTables = wrappingTables [] schema, cfTokenExchangePresent = False, cfConfigDirPath = [],
      cfProviderConfigs = [], cfToolsetConfigs = [], cfProviderSource = [], cfToolsetSource = []\<rparr>"

text \<open>Upstream's \<open>defaultOverrides\<close> changes nothing, so that \<open>New\<close> and \<open>BaseDefault\<close> agree.\<close>

definition defaultOverrides :: "cfgField list \<Rightarrow> cfgField list" where
  "defaultOverrides schema = schema"

definition New :: "cfgField list \<Rightarrow> 'x config" where
  "New schema = newFrom (defaultOverrides schema)"

definition BaseDefault :: "cfgField list \<Rightarrow> 'x config" where
  "BaseDefault schema = newFrom schema"

fun walkApply :: "(string \<Rightarrow> cfgOption \<Rightarrow> cfgErr + cfgOption) \<Rightarrow> options \<Rightarrow> cfgErr + options" where
  "walkApply fn [] = Inr []"
| "walkApply fn ((path, o1) # os) =
     (case fn path o1 of
        Inl err \<Rightarrow> Inl err
      | Inr o2 \<Rightarrow> map_sum id ((#) (path, o2)) (walkApply fn os))"

definition tomlStep :: "cfgLib \<Rightarrow> goMap \<Rightarrow> cfgSources \<Rightarrow> string \<Rightarrow> cfgOption \<Rightarrow> cfgErr + cfgOption" where
  "tomlStep lib merged sources path o1 =
     (if path = [] then Inr o1
      else (case mapLookup merged path of
          None \<Rightarrow> Inr o1
        | Some raw \<Rightarrow>
            let src = (case sources path of None \<Rightarrow> [] | Some f \<Rightarrow> f);
                src = (if src = [] then ''<file>'' else src)
            in optApplyTOML lib raw src path o1))"

definition applyTOML :: "cfgLib \<Rightarrow> goMap \<Rightarrow> cfgSources \<Rightarrow> options \<Rightarrow> cfgErr + options" where
  "applyTOML lib merged sources os = walkApply (tomlStep lib merged sources) os"

definition optionsByPath :: "options \<Rightarrow> string \<Rightarrow> cfgOption option" where
  "optionsByPath os = map_of (rev os)"

definition KeepPreviousIfDefault :: "options \<Rightarrow> options \<Rightarrow> options" where
  "KeepPreviousIfDefault prev nxt =
     map (\<lambda>(path, o1). (path,
       case optionsByPath prev path of
         None \<Rightarrow> o1
       | Some p \<Rightarrow> if opSource o1 = SourceDefault \<and> opSource p \<noteq> SourceDefault then keepFrom p o1 else o1)) nxt"

section \<open>Rejections\<close>

definition extensionToolsetTable :: string where "extensionToolsetTable = ''toolset_configs''"

definition extensionProviderTable :: string where "extensionProviderTable = ''cluster_provider_configs''"

definition removedKeyReplacements :: "(string \<times> string) list" where
  "removedKeyReplacements =
     [(''token_exchange_strategy'', ''token_exchange.strategy''),
      (''sts_audience'', ''token_exchange.audience''),
      (''sts_scopes'', ''token_exchange.scopes''),
      (''sts_subject_token_type'', ''token_exchange.subject_token_type''),
      (''sts_requested_token_type'', ''token_exchange.requested_token_type''),
      (''sts_client_id'', ''token_exchange.client_auth.client_id''),
      (''sts_client_secret'', ''token_exchange.client_auth.client_secret''),
      (''sts_auth_style'', ''token_exchange.client_auth.method''),
      (''sts_client_cert_file'', ''token_exchange.client_auth.certificate_file''),
      (''sts_client_key_file'', ''token_exchange.client_auth.private_key_file''),
      (''sts_federated_token_file'', ''token_exchange.client_auth.token_file'')]"

definition isKnownKey :: "string \<Rightarrow> string list \<Rightarrow> string list \<Rightarrow> string list \<Rightarrow> bool" where
  "isKnownKey key optionKeys wrapping containers =
     (if key \<in> set optionKeys \<or> key \<in> set wrapping then True
      else if key = extensionToolsetTable \<or> hasPrefix key (extensionToolsetTable @ ''.'') then True
      else if key = extensionProviderTable \<or> hasPrefix key (extensionProviderTable @ ''.'') then True
      else list_ex (\<lambda>c. key = c \<or> hasPrefix key (c @ ''.'')) containers)"

definition optionKeys :: "options \<Rightarrow> string list" where
  "optionKeys os = filter (\<lambda>p. p \<noteq> []) (map fst os)"

definition containerKeys :: "options \<Rightarrow> string list" where
  "containerKeys os = map fst (filter (\<lambda>(p, o1). p \<noteq> [] \<and> isContainer o1) os)"

definition knownKey :: "'x config \<Rightarrow> string \<Rightarrow> bool" where
  "knownKey cfg key = isKnownKey key (optionKeys (cfOptions cfg)) (cfTables cfg) (containerKeys (cfOptions cfg))"

definition sourceFile :: "cfgSources \<Rightarrow> string \<Rightarrow> string" where
  "sourceFile sources key =
     (let file = (case sources key of None \<Rightarrow> [] | Some f \<Rightarrow> f) in if file = [] then ''config'' else file)"

fun unknownKeyLoop :: "(string \<Rightarrow> bool) \<Rightarrow> cfgSources \<Rightarrow> string list \<Rightarrow> cfgErr option" where
  "unknownKeyLoop known sources [] = None"
| "unknownKeyLoop known sources (key # keys) =
     (if known key then unknownKeyLoop known sources keys
      else
        let file = sourceFile sources key;
            name = last (goSplit dot key)
        in (case map_of removedKeyReplacements name of
              Some replacement \<Rightarrow> Some (RemovedKey key file replacement)
            | None \<Rightarrow> Some (UnknownKey key file)))"

definition rejectUnknownKeys :: "goMap \<Rightarrow> 'x config \<Rightarrow> cfgSources \<Rightarrow> cfgErr option" where
  "rejectUnknownKeys merged cfg sources = unknownKeyLoop (knownKey cfg) sources (flattenKeys merged [])"

definition isExtensionTableKey :: "string \<Rightarrow> bool" where
  "isExtensionTableKey key =
     (if key = extensionToolsetTable \<or> key = extensionProviderTable then True
      else list_ex (\<lambda>table.
          hasPrefix key (table @ ''.'') \<and> drop (length table + 1) key \<noteq> [] \<and> dot \<notin> set (drop (length table + 1) key))
        [extensionToolsetTable, extensionProviderTable])"

definition tomlKind :: "goVal \<Rightarrow> string" where
  "tomlKind v =
     (case v of GMap _ \<Rightarrow> ''table'' | GList _ \<Rightarrow> ''array'' | GStr _ \<Rightarrow> ''string'' | GBool _ \<Rightarrow> ''bool''
      | GInt _ \<Rightarrow> ''integer'' | GInt64 _ \<Rightarrow> ''integer'' | GFloat _ \<Rightarrow> ''float'' | GNil \<Rightarrow> ''<nil>'')"

fun wrongTableLoop :: "goMap \<Rightarrow> 'x config \<Rightarrow> cfgSources \<Rightarrow> string list \<Rightarrow> cfgErr option" where
  "wrongTableLoop merged cfg sources [] = None"
| "wrongTableLoop merged cfg sources (key # keys) =
     (if key \<notin> set (cfTables cfg) \<and> \<not> isExtensionTableKey key then wrongTableLoop merged cfg sources keys
      else (case mapLookup merged key of
          None \<Rightarrow> wrongTableLoop merged cfg sources keys
        | Some raw \<Rightarrow>
            if asTable raw \<noteq> None then wrongTableLoop merged cfg sources keys
            else Some (ExpectedTable key (sourceFile sources key) (tomlKind raw))))"

definition rejectWrongTableTypes :: "goMap \<Rightarrow> 'x config \<Rightarrow> cfgSources \<Rightarrow> cfgErr option" where
  "rejectWrongTableTypes merged cfg sources = wrongTableLoop merged cfg sources (flattenKeys merged [])"

text \<open>The paths of the options that changed although they need a restart.\<close>

definition rejectNonReloadable :: "'x config \<Rightarrow> 'x config \<Rightarrow> cfgErr option" where
  "rejectNonReloadable prev nxt =
     (let changed = filter (\<lambda>(path, o1). case optionsByPath (cfOptions prev) path of
            None \<Rightarrow> False | Some p \<Rightarrow> \<not> opReloadable o1 \<and> \<not> equalValue o1 p) (cfOptions nxt)
      in if changed = [] then None else Some (NonReloadable (map fst changed)))"

text \<open>Two nil or empty tables are equal; otherwise the entries are compared.\<close>

definition equalExtendedMaps :: "(string \<times> 'x) list \<Rightarrow> (string \<times> 'x) list \<Rightarrow> bool" where
  "equalExtendedMaps a b =
     (if length a = 0 \<and> length b = 0 then True
      else list_all (\<lambda>k. map_of a k = map_of b k) (map fst a @ map fst b))"

definition rejectClusterProviderConfigsChange :: "'x config \<Rightarrow> 'x config \<Rightarrow> cfgErr + 'x config" where
  "rejectClusterProviderConfigsChange prev nxt =
     (if equalExtendedMaps (cfProviderConfigs prev) (cfProviderConfigs nxt)
      then Inr (nxt\<lparr>cfProviderSource := cfProviderSource prev\<rparr>)
      else Inl (NonReloadable [extensionProviderTable]))"

section \<open>Extension tables\<close>

text \<open>
  The parsers that toolsets and providers register, by table and name, with the \<open>toml\<close> fields
  and the validation of what they return.
\<close>

record 'x extLib =
  elParser :: "string \<Rightarrow> string \<Rightarrow> (goVal \<Rightarrow> string + 'x) option"
  elFields :: "'x \<Rightarrow> (string \<times> tomlType) list"
  elValidate :: "'x \<Rightarrow> string option"

fun parseMaps :: "'x extLib \<Rightarrow> string \<Rightarrow> goMap \<Rightarrow> (string \<times> 'x) list \<Rightarrow> cfgErr + (string \<times> 'x) list" where
  "parseMaps xl table [] parsed = Inr parsed"
| "parseMaps xl table ((name, raw) # configs) parsed =
     (case elParser xl table name of
        None \<Rightarrow> Inl (UnknownKey (table @ ''.'' @ name) [])
      | Some parser \<Rightarrow>
          (case parser raw of
             Inl err \<Rightarrow> Inl (ExtensionFailed err)
           | Inr ext \<Rightarrow>
               (case (case asTable raw of None \<Rightarrow> None
                      | Some child \<Rightarrow> rejectUnknownStructKeys child (elFields xl ext) (table @ ''.'' @ name)) of
                  Some key \<Rightarrow> Inl (UnknownKey key [])
                | None \<Rightarrow>
                    (case elValidate xl ext of
                       Some err \<Rightarrow> Inl (ExtensionFailed err)
                     | None \<Rightarrow> parseMaps xl table configs (assocUpd name ext parsed)))))"

definition parseExtensions :: "'x extLib \<Rightarrow> 'x config \<Rightarrow> goMap \<Rightarrow> cfgSources \<Rightarrow> cfgErr + 'x config" where
  "parseExtensions xl cfg merged sources =
     (let src = (\<lambda>t. case sources t of None \<Rightarrow> [] | Some f \<Rightarrow> f)
      in (case (case Option.bind (map_of merged extensionProviderTable) asTable of
              None \<Rightarrow> Inr cfg
            | Some raw \<Rightarrow> map_sum id (\<lambda>p. cfg\<lparr>cfProviderSource := src extensionProviderTable, cfProviderConfigs := p\<rparr>)
                (parseMaps xl extensionProviderTable raw [])) of
          Inl err \<Rightarrow> Inl err
        | Inr cfg \<Rightarrow>
            (case Option.bind (map_of merged extensionToolsetTable) asTable of
               None \<Rightarrow> Inr cfg
             | Some raw \<Rightarrow> map_sum id (\<lambda>p. cfg\<lparr>cfToolsetSource := src extensionToolsetTable, cfToolsetConfigs := p\<rparr>)
                 (parseMaps xl extensionToolsetTable raw []))))"

section \<open>Loading\<close>

record 'x loadSettings =
  lsDirPath :: string
  lsPrevious :: "'x config option"
  lsBaseDefault :: bool

record 'x cfgEnv =
  ceLib :: cfgLib
  ceExt :: "'x extLib"
  ceEnv :: "string \<Rightarrow> string option"
  ceSchema :: "cfgField list"

definition startConfig :: "'x cfgEnv \<Rightarrow> goMap \<Rightarrow> 'x loadSettings \<Rightarrow> 'x config" where
  "startConfig env merged st =
     (let cfg = (if lsBaseDefault st then BaseDefault (ceSchema env) else New (ceSchema env));
          cfg = (if lsDirPath st \<noteq> [] then cfg\<lparr>cfConfigDirPath := lsDirPath st\<rparr> else cfg)
      in if map_of merged ''token_exchange'' \<noteq> None then cfg\<lparr>cfTokenExchangePresent := True\<rparr> else cfg)"

definition resolve :: "'x cfgEnv \<Rightarrow> goMap \<Rightarrow> cfgSources \<Rightarrow> 'x loadSettings \<Rightarrow> cfgErr + 'x config" where
  "resolve env merged sources st =
     (let cfg = startConfig env merged st
      in (case applyTOML (ceLib env) merged sources (cfOptions cfg) of
            Inl err \<Rightarrow> Inl err
          | Inr os \<Rightarrow>
              let cfg = cfg\<lparr>cfOptions := os\<rparr>
              in (case rejectUnknownKeys merged cfg sources of
                    Some err \<Rightarrow> Inl err
                  | None \<Rightarrow>
                      (case rejectWrongTableTypes merged cfg sources of
                         Some err \<Rightarrow> Inl err
                       | None \<Rightarrow>
                           (case walkApply (optApplyEnv (ceLib env) (ceEnv env)) os of
                              Inl err \<Rightarrow> Inl err
                            | Inr os \<Rightarrow>
                                let cfg = cfg\<lparr>cfOptions := os\<rparr>
                                in (case (case lsPrevious st of None \<Rightarrow> None | Some prev \<Rightarrow> rejectNonReloadable prev cfg) of
                                      Some err \<Rightarrow> Inl err
                                    | None \<Rightarrow>
                                        (case parseExtensions (ceExt env) cfg merged sources of
                                           Inl err \<Rightarrow> Inl err
                                         | Inr cfg \<Rightarrow>
                                             (case lsPrevious st of
                                                None \<Rightarrow> Inr cfg
                                              | Some prev \<Rightarrow> rejectClusterProviderConfigsChange prev cfg))))))))"

definition ReadToml :: "'x cfgEnv \<Rightarrow> (string \<Rightarrow> string + goMap) \<Rightarrow> string \<Rightarrow> 'x loadSettings \<Rightarrow> cfgErr + 'x config" where
  "ReadToml env decode configData st =
     (if trimSpace configData = [] then resolve env [] Map.empty st
      else (case decode configData of
          Inl err \<Rightarrow> Inl (DecodeFailed [] err)
        | Inr merged \<Rightarrow>
            let src = (if lsDirPath st \<noteq> [] then lsDirPath st else ''<toml>'')
            in resolve env merged (recordSources Map.empty [] (GMap merged) src) st))"

text \<open>
  \<open>read\<close>: drop-in files follow the main file. Paths are already absolute; resolving them cannot
  fail then.
\<close>

definition readConfig ::
    "'x cfgEnv \<Rightarrow> cfgFS \<Rightarrow> (string \<Rightarrow> string + goMap) \<Rightarrow> string \<Rightarrow> string list \<Rightarrow> string \<Rightarrow> string \<Rightarrow>
     'x loadSettings \<Rightarrow> cfgErr + 'x config" where
  "readConfig env fs decode stdinConfig configFiles configDir dropInConfigDir st =
     (case (if dropInConfigDir \<noteq> []
            then map_sum id (\<lambda>dropIns. (configFiles @ dropIns, if configDir = [] then dropInConfigDir else configDir))
                   (loadDropInConfigs fs dropInConfigDir)
            else Inr (configFiles, configDir)) of
        Inl err \<Rightarrow> Inl err
      | Inr (files, dir) \<Rightarrow>
          (case mergeTOMLFiles (fsReadFile fs) decode stdinConfig files of
             Inl err \<Rightarrow> Inl err
           | Inr (merged, sources) \<Rightarrow>
               resolve env merged sources (if lsDirPath st = [] then st\<lparr>lsDirPath := dir\<rparr> else st)))"

definition Read ::
    "'x cfgEnv \<Rightarrow> cfgFS \<Rightarrow> (string \<Rightarrow> string + goMap) \<Rightarrow> (string \<Rightarrow> string) \<Rightarrow> string \<Rightarrow> string \<Rightarrow>
     'x loadSettings \<Rightarrow> cfgErr + 'x config" where
  "Read env fs decode dirOf configPath dropInConfigDir st =
     (if configPath = [] then readConfig env fs decode [] [] [] dropInConfigDir st
      else (case (if dropInConfigDir = [] then rejectStaleImplicitConfD fs (dirOf configPath) else None) of
          Some err \<Rightarrow> Inl err
        | None \<Rightarrow> readConfig env fs decode [] [configPath] (dirOf configPath) dropInConfigDir st))"

definition ReadStdin ::
    "'x cfgEnv \<Rightarrow> cfgFS \<Rightarrow> (string \<Rightarrow> string + goMap) \<Rightarrow> string \<Rightarrow> string \<Rightarrow> string \<Rightarrow>
     'x loadSettings \<Rightarrow> cfgErr + 'x config" where
  "ReadStdin env fs decode workingDir data dropInConfigDir st =
     readConfig env fs decode data [] workingDir dropInConfigDir st"

section \<open>What a load guarantees\<close>

lemma walkApply_Inr:
  "walkApply fn os = Inr os' \<longleftrightarrow> list_all2 (\<lambda>(p, o1) (p', o2). p' = p \<and> fn p o1 = Inr o2) os os'"
proof (induction os arbitrary: os')
  case Nil
  then show ?case by auto
next
  case (Cons x os)
  obtain p o1 where x: "x = (p, o1)" by (cases x)
  show ?case
  proof (cases "fn p o1")
    case (Inl e)
    then show ?thesis using x by (auto simp: list_all2_Cons1)
  next
    case (Inr o2)
    then show ?thesis using x Cons.IH
      by (cases "walkApply fn os") (auto simp: list_all2_Cons1)
  qed
qed

lemma walkApply_paths: "walkApply fn os = Inr os' \<Longrightarrow> map fst os' = map fst os"
  unfolding walkApply_Inr by (induction rule: list_all2_induct) auto

lemma cfOptions_start: "cfOptions (startConfig env merged st) =
    map (\<lambda>(p, o1). (p, resetToDefault o1)) (walkOptions [] (ceSchema env))"
  by (simp add: startConfig_def Let_def New_def BaseDefault_def defaultOverrides_def newFrom_def)

lemma cfTables_start: "cfTables (startConfig env merged st) = wrappingTables [] (ceSchema env)"
  by (simp add: startConfig_def Let_def New_def BaseDefault_def defaultOverrides_def newFrom_def)

lemma parseExtensions_keeps:
  "parseExtensions xl cfg merged so = Inr cfg' \<Longrightarrow> cfOptions cfg' = cfOptions cfg \<and> cfTables cfg' = cfTables cfg"
  by (auto simp: parseExtensions_def Let_def map_sum_def split: option.splits sum.splits)

lemma equalExtendedMaps_iff: "equalExtendedMaps a b \<longleftrightarrow> map_of a = map_of b"
proof
  assume e: "equalExtendedMaps a b"
  show "map_of a = map_of b"
  proof
    fix k
    show "map_of a k = map_of b k"
    proof (cases "k \<in> fst ` set a \<union> fst ` set b")
      case True
      then show ?thesis using e by (auto simp: equalExtendedMaps_def list_all_iff split: if_splits)
    next
      case False
      then have "map_of a k = None" "map_of b k = None" by (simp_all add: map_of_eq_None_iff)
      then show ?thesis by simp
    qed
  qed
qed (simp add: equalExtendedMaps_def list_all_iff)

lemma rejectClusterProviderConfigsChange_Inr:
  "rejectClusterProviderConfigsChange prev cfg = Inr cfg' \<longleftrightarrow>
     map_of (cfProviderConfigs prev) = map_of (cfProviderConfigs cfg) \<and> cfg' = cfg\<lparr>cfProviderSource := cfProviderSource prev\<rparr>"
  by (auto simp: rejectClusterProviderConfigsChange_def equalExtendedMaps_iff)

text \<open>The steps of a successful load.\<close>

lemma resolve_steps:
  assumes "resolve env merged so st = Inr cfg"
  shows "\<exists>os1. applyTOML (ceLib env) merged so (cfOptions (startConfig env merged st)) = Inr os1
    \<and> rejectUnknownKeys merged (startConfig env merged st\<lparr>cfOptions := os1\<rparr>) so = None
    \<and> rejectWrongTableTypes merged (startConfig env merged st\<lparr>cfOptions := os1\<rparr>) so = None
    \<and> walkApply (optApplyEnv (ceLib env) (ceEnv env)) os1 = Inr (cfOptions cfg)
    \<and> (\<forall>prev. lsPrevious st = Some prev \<longrightarrow>
         rejectNonReloadable prev (startConfig env merged st\<lparr>cfOptions := cfOptions cfg\<rparr>) = None
       \<and> map_of (cfProviderConfigs prev) = map_of (cfProviderConfigs cfg))"
proof -
  let ?c = "startConfig env merged st"
  obtain os1 where 1: "applyTOML (ceLib env) merged so (cfOptions ?c) = Inr os1"
    "rejectUnknownKeys merged (?c\<lparr>cfOptions := os1\<rparr>) so = None"
    "rejectWrongTableTypes merged (?c\<lparr>cfOptions := os1\<rparr>) so = None"
    using assms by (auto simp: resolve_def Let_def split: sum.splits option.splits)
  obtain os2 where 2: "walkApply (optApplyEnv (ceLib env) (ceEnv env)) os1 = Inr os2"
    using assms 1 by (auto simp: resolve_def Let_def split: sum.splits option.splits)
  have np: "(case lsPrevious st of None \<Rightarrow> None | Some prev \<Rightarrow> rejectNonReloadable prev (?c\<lparr>cfOptions := os2\<rparr>)) = None"
    using assms 1 2 by (auto simp: resolve_def Let_def split: option.splits)
  obtain cfg1 where 3: "parseExtensions (ceExt env) (?c\<lparr>cfOptions := os2\<rparr>) merged so = Inr cfg1"
    using assms 1 2 np by (auto simp: resolve_def Let_def split: sum.splits)
  have "cfOptions cfg1 = os2" using parseExtensions_keeps [OF 3] by simp
  moreover have fin: "(case lsPrevious st of None \<Rightarrow> Inr cfg1 | Some prev \<Rightarrow> rejectClusterProviderConfigsChange prev cfg1) = Inr cfg"
    using assms 1 2 3 np by (auto simp: resolve_def Let_def)
  ultimately have "cfOptions cfg = os2"
    by (cases "lsPrevious st") (auto simp: rejectClusterProviderConfigsChange_Inr)
  with 1 2 np fin show ?thesis
    by (cases "lsPrevious st") (auto simp: rejectClusterProviderConfigsChange_Inr)
qed

subsection \<open>Precedence\<close>

definition envSetting :: "'x cfgEnv \<Rightarrow> cfgOption \<Rightarrow> string option" where
  "envSetting env o1 =
     (if opEnvName o1 = [] then None
      else (case ceEnv env (opEnvName o1) of Some raw \<Rightarrow> if raw = [] then None else Some raw | None \<Rightarrow> None))"

definition fileSetting :: "goMap \<Rightarrow> string \<Rightarrow> cfgOption \<Rightarrow> goVal option" where
  "fileSetting merged path o1 = (if path = [] \<or> opTOMLKey o1 = [] then None else mapLookup merged path)"

definition settled :: "'x cfgEnv \<Rightarrow> goMap \<Rightarrow> cfgSources \<Rightarrow> string \<Rightarrow> cfgOption \<Rightarrow> goVal \<Rightarrow> string \<Rightarrow> bool" where
  "settled env merged so path d v src \<longleftrightarrow>
     (case envSetting env d of
        Some raw \<Rightarrow> src = SourceEnv \<and> (\<exists>parse. opParseEnv d = Some parse \<and> parse (ceLib env) raw = Inr v)
      | None \<Rightarrow>
          (case fileSetting merged path d of
             Some raw \<Rightarrow> parseTyped (ceLib env) (opType d) raw = Inr v
               \<and> src = (case so path of Some f \<Rightarrow> if f = [] then ''<file>'' else f | None \<Rightarrow> ''<file>'')
           | None \<Rightarrow> v = opDefault d \<and> src = SourceDefault))"

lemma tomlStep_settles:
  assumes "tomlStep lib merged so path (resetToDefault d) = Inr o1"
  shows "(case fileSetting merged path d of
      Some raw \<Rightarrow> \<exists>v. parseTyped lib (opType d) raw = Inr v
        \<and> o1 = setParsed v (case so path of Some f \<Rightarrow> if f = [] then ''<file>'' else f | None \<Rightarrow> ''<file>'') d
    | None \<Rightarrow> o1 = resetToDefault d)"
proof (cases "fileSetting merged path d")
  case None
  then show ?thesis using assms
    by (auto simp: fileSetting_def tomlStep_def optApplyTOML_def resetToDefault_def setParsed_def Let_def
        split: if_splits option.splits)
next
  case (Some raw)
  then have "path \<noteq> []" "opTOMLKey d \<noteq> []" "mapLookup merged path = Some raw"
    by (auto simp: fileSetting_def split: if_splits)
  then show ?thesis using assms Some
    by (auto simp: tomlStep_def optApplyTOML_def resetToDefault_def setParsed_def Let_def
        split: if_splits option.splits sum.splits)
qed

lemma envStep_settles:
  assumes "optApplyEnv (ceLib env) (ceEnv env) path o1 = Inr o2"
    and "opEnvName o1 = opEnvName d" and "opParseEnv o1 = opParseEnv d"
  shows "(case envSetting env d of
      Some raw \<Rightarrow> \<exists>parse v. opParseEnv d = Some parse \<and> parse (ceLib env) raw = Inr v \<and> o2 = setParsed v SourceEnv o1
    | None \<Rightarrow> o2 = o1)"
  using assms by (auto simp: envSetting_def optApplyEnv_def split: if_splits option.splits sum.splits)

lemma setParsed_simps [simp]:
  "opEnvName (setParsed v s d) = opEnvName d" "opParseEnv (setParsed v s d) = opParseEnv d"
  "opValue (setParsed v s d) = v" "opSource (setParsed v s d) = s" "opReloadable (setParsed v s d) = opReloadable d"
  "opType (setParsed v s d) = opType d" "setParsed v s (setParsed w t d) = setParsed v s d"
  "isContainer (setParsed v s d) = isContainer d" "isContainer (resetToDefault d) = isContainer d"
  "resetToDefault d = setParsed (opDefault d) SourceDefault d"
  by (simp_all add: setParsed_def resetToDefault_def isContainer_def)

lemma step_settles:
  assumes "tomlStep (ceLib env) merged so path (resetToDefault d) = Inr o1"
    and "optApplyEnv (ceLib env) (ceEnv env) path o1 = Inr o2"
  shows "\<exists>v src. o2 = setParsed v src d \<and> settled env merged so path d v src"
proof -
  have "opEnvName o1 = opEnvName d \<and> opParseEnv o1 = opParseEnv d"
    using tomlStep_settles [OF assms(1)] by (auto split: option.splits)
  with envStep_settles [OF assms(2), of d] tomlStep_settles [OF assms(1)] show ?thesis
    unfolding settled_def by (cases "envSetting env d"; cases "fileSetting merged path d") fastforce+
qed

lemma resolve_options:
  assumes "resolve env merged so st = Inr cfg"
  shows "list_all2 (\<lambda>(path, d) (path', o2). path' = path
      \<and> (\<exists>v src. o2 = setParsed v src d \<and> settled env merged so path d v src))
    (walkOptions [] (ceSchema env)) (cfOptions cfg)"
proof -
  from resolve_steps [OF assms] obtain os1 where
    a: "list_all2 (\<lambda>(p, o1) (p', o2). p' = p \<and> tomlStep (ceLib env) merged so p o1 = Inr o2)
        (map (\<lambda>(p, o1). (p, resetToDefault o1)) (walkOptions [] (ceSchema env))) os1"
    and b: "list_all2 (\<lambda>(p, o1) (p', o2). p' = p \<and> optApplyEnv (ceLib env) (ceEnv env) p o1 = Inr o2) os1 (cfOptions cfg)"
    unfolding applyTOML_def walkApply_Inr cfOptions_start by blast
  show ?thesis
    unfolding list_all2_conv_all_nth
  proof (intro conjI allI impI)
    show "length (walkOptions [] (ceSchema env)) = length (cfOptions cfg)"
      using list_all2_lengthD [OF a] list_all2_lengthD [OF b] by simp
    fix i assume i: "i < length (walkOptions [] (ceSchema env))"
    obtain p d where d: "walkOptions [] (ceSchema env) ! i = (p, d)" by force
    obtain p1 o1 where 1: "os1 ! i = (p1, o1)" by force
    obtain p2 o2 where 2: "cfOptions cfg ! i = (p2, o2)" by force
    have "p1 = p \<and> tomlStep (ceLib env) merged so p (resetToDefault d) = Inr o1"
      using list_all2_nthD [OF a, of i] i d 1 by simp
    moreover have "p2 = p1 \<and> optApplyEnv (ceLib env) (ceEnv env) p1 o1 = Inr o2"
      using list_all2_nthD [OF b, of i] list_all2_lengthD [OF a] i 1 2 by simp
    ultimately have "p2 = p \<and> (\<exists>v src. o2 = setParsed v src d \<and> settled env merged so p d v src)"
      using step_settles by blast
    then show "(case walkOptions [] (ceSchema env) ! i of (path, d) \<Rightarrow> \<lambda>(path', o2). path' = path
        \<and> (\<exists>v src. o2 = setParsed v src d \<and> settled env merged so path d v src)) (cfOptions cfg ! i)"
      unfolding d 2 by simp
  qed
qed

lemma resolve_paths:
  "resolve env merged so st = Inr cfg \<Longrightarrow> map fst (cfOptions cfg) = map fst (walkOptions [] (ceSchema env))"
  by (drule resolve_options, induction rule: list_all2_induct) auto

lemma resolve_option_at:
  assumes "resolve env merged so st = Inr cfg" and "i < length (walkOptions [] (ceSchema env))"
    and "walkOptions [] (ceSchema env) ! i = (path, d)"
  obtains v src where "cfOptions cfg ! i = (path, setParsed v src d)" and "settled env merged so path d v src"
  using list_all2_nthD [OF resolve_options [OF assms(1)] assms(2)] assms(3) by (auto split: prod.splits)

text \<open>
  C28. A load settles every option by one precedence: a set environment variable, else the value
  in the merged files, else the default; value and recorded source always belong together, and
  nothing else of an option changes.
\<close>

theorem resolve_precedence:
  assumes "resolve env merged so st = Inr cfg"
  shows "map fst (cfOptions cfg) = map fst (walkOptions [] (ceSchema env))
    \<and> (\<forall>i < length (cfOptions cfg).
         let (path, d) = walkOptions [] (ceSchema env) ! i; o2 = snd (cfOptions cfg ! i)
         in o2 = setParsed (opValue o2) (opSource o2) d \<and> settled env merged so path d (opValue o2) (opSource o2))"
proof -
  note r = resolve_options [OF assms]
  have "let (path, d) = walkOptions [] (ceSchema env) ! i; o2 = snd (cfOptions cfg ! i)
      in o2 = setParsed (opValue o2) (opSource o2) d \<and> settled env merged so path d (opValue o2) (opSource o2)"
    if "i < length (cfOptions cfg)" for i
    using list_all2_nthD2 [OF r that] by (auto simp: Let_def split: prod.splits)
  then show ?thesis using resolve_paths [OF assms] by blast
qed

subsection \<open>Unknown keys\<close>

lemma unknownKeyLoop_None: "unknownKeyLoop known so keys = None \<longleftrightarrow> (\<forall>k \<in> set keys. known k)"
  by (induction keys) (auto simp: Let_def split: option.splits)

lemma wrongTableLoop_None:
  "wrongTableLoop merged cfg so keys = None \<longleftrightarrow>
     (\<forall>k \<in> set keys. k \<in> set (cfTables cfg) \<or> isExtensionTableKey k \<longrightarrow>
        (\<forall>raw. mapLookup merged k = Some raw \<longrightarrow> asTable raw \<noteq> None))"
  by (induction keys) (auto split: option.splits)

lemma containerKeys_resolved:
  assumes "list_all2 (\<lambda>(p, o1) (p', o2). p' = p \<and> isContainer o1 = isContainer o2) os os'"
  shows "optionKeys os' = optionKeys os" "containerKeys os' = containerKeys os"
  using assms by (induction rule: list_all2_induct) (auto simp: optionKeys_def containerKeys_def)

lemma tomlStep_container: "tomlStep lib merged so p o1 = Inr o2 \<Longrightarrow> isContainer o2 = isContainer o1"
  by (auto simp: tomlStep_def optApplyTOML_def Let_def split: if_splits option.splits sum.splits)

lemma knownKey_start:
  assumes "applyTOML lib merged so (cfOptions (startConfig env merged st)) = Inr os1"
  shows "knownKey (startConfig env merged st\<lparr>cfOptions := os1\<rparr>) key = knownKey (New (ceSchema env)) key"
proof -
  have "list_all2 (\<lambda>(p, o1) (p', o2). p' = p \<and> isContainer o1 = isContainer o2)
      (cfOptions (startConfig env merged st)) os1"
    using assms unfolding applyTOML_def walkApply_Inr
    by (rule list_all2_mono) (auto dest: tomlStep_container)
  from containerKeys_resolved [OF this] show ?thesis
    by (simp add: knownKey_def cfTables_start cfOptions_start New_def newFrom_def defaultOverrides_def)
qed


end
