(* ===== verification/Config_Schema.thy ===== *)
theory Config_Schema
  imports Config_Load
begin

text \<open>
  The options that \<open>newConfig\<close> of \<open>pkg/config/config.go\<close> declares, with their keys, types,
  defaults, environment variables and reload marks, and what follows for loads and reloads of
  this schema. Descriptions and the per-option validators are not part of it; the validators are
  in \<open>Config_Validate\<close>.
\<close>

section \<open>The schema\<close>

definition opt :: "string \<Rightarrow> optType \<Rightarrow> goVal \<Rightarrow> cfgOption" where
  "opt key ty def = \<lparr>opTOMLKey = key, opEnvName = [], opType = ty, opDefault = def, opParseEnv = None,
     opReloadable = False, opSensitive = False, opValue = GNil, opSource = []\<rparr>"

definition reload :: "cfgOption \<Rightarrow> cfgOption" where
  "reload o1 = o1\<lparr>opReloadable := True\<rparr>"

definition optEnv :: "string \<Rightarrow> (cfgLib \<Rightarrow> string \<Rightarrow> string + goVal) \<Rightarrow> cfgOption \<Rightarrow> cfgOption" where
  "optEnv name parse o1 = o1\<lparr>opEnvName := name, opParseEnv := Some parse\<rparr>"

definition secret :: "cfgOption \<Rightarrow> cfgOption" where
  "secret o1 = o1\<lparr>opSensitive := True\<rparr>"

definition DefaultMaxInFlight :: int where "DefaultMaxInFlight = 64"

definition DefaultMaxResultBytes :: int where "DefaultMaxResultBytes = 16 * 2 ^ 20"

definition DefaultMaxBackendResponseBytes :: int where "DefaultMaxBackendResponseBytes = 4 * 2 ^ 20"

text \<open>The structures that options hold, by their \<open>toml\<close> tags (\<open>pkg/config/schema.go\<close>).\<close>

definition groupVersionKindFields :: "(string \<times> tomlType) list" where
  "groupVersionKindFields = [(''group'', TyOther), (''version'', TyOther), (''kind'', TyOther)]"

definition toolOverrideFields :: "(string \<times> tomlType) list" where
  "toolOverrideFields = [(''description'', TyOther)]"

definition promptFields :: "(string \<times> tomlType) list" where
  "promptFields =
     [(''name'', TyOther), (''title'', TyOther), (''description'', TyOther),
      (''arguments'', TySlice (TyStruct [(''name'', TyOther), (''description'', TyOther), (''required'', TyOther)])),
      (''messages'', TySlice (TyStruct [(''role'', TyOther), (''content'', TyOther)]))]"

definition confirmationRuleFields :: "(string \<times> tomlType) list" where
  "confirmationRuleFields =
     [(''tool'', TyOther), (''destructive'', TyOther), (''verb'', TyOther), (''kind'', TyOther), (''group'', TyOther),
      (''version'', TyOther), (''name'', TyOther), (''namespace'', TyOther), (''message'', TyOther)]"

definition second :: int where "second = 1000000000"

definition newHTTPConfig :: "cfgField list" where
  "newHTTPConfig = map OptField
     [opt ''read_header_timeout'' TDuration (GInt64 (10 * second)),
      reload (opt ''max_body_bytes'' TInt64 (GInt64 (16 * 2 ^ 20))),
      reload (opt ''rate_limit_rps'' TFloat64 (GFloat (Float 0 0))),
      reload (opt ''rate_limit_burst'' TInt (GInt 0))]"

definition newTelemetryConfig :: "cfgField list" where
  "newTelemetryConfig = map OptField
     [opt ''enabled'' TBoolPtr GNil,
      optEnv ''OTEL_SERVICE_NAME'' parseEnvString (opt ''service_name'' TString (GStr [])),
      optEnv ''OTEL_EXPORTER_OTLP_ENDPOINT'' parseEnvString (opt ''endpoint'' TString (GStr [])),
      optEnv ''OTEL_EXPORTER_OTLP_PROTOCOL'' parseEnvString (opt ''protocol'' TString (GStr ''grpc'')),
      optEnv ''OTEL_TRACES_SAMPLER'' parseEnvString (opt ''traces_sampler'' TString (GStr [])),
      optEnv ''OTEL_TRACES_SAMPLER_ARG'' parseEnvFloat64Ptr (opt ''traces_sampler_arg'' TFloat64Ptr GNil),
      optEnv ''OTEL_LOGS_EXPORTER'' parseEnvString (opt ''logs_exporter'' TString (GStr [])),
      optEnv ''OTEL_METRICS_EXPORTER'' parseEnvString (opt ''metrics_exporter'' TString (GStr []))]"

definition newTokenExchangeClientAuth :: "cfgField list" where
  "newTokenExchangeClientAuth = map OptField
     [reload (opt ''method'' TString (GStr [])),
      reload (opt ''client_id'' TString (GStr [])),
      secret (reload (opt ''client_secret'' TString (GStr []))),
      reload (opt ''certificate_file'' TString (GStr [])),
      reload (opt ''private_key_file'' TString (GStr [])),
      reload (opt ''token_file'' TString (GStr []))]"

definition newTokenExchangeConfig :: "cfgField list" where
  "newTokenExchangeConfig = map OptField
     [reload (opt ''strategy'' TString (GStr [])),
      reload (opt ''audience'' TString (GStr [])),
      reload (opt ''scopes'' TStrings GNil),
      reload (opt ''subject_token_type'' TString (GStr [])),
      reload (opt ''requested_token_type'' TString (GStr [])),
      reload (opt ''token_url'' TString (GStr []))]
     @ [StructField ''client_auth'' newTokenExchangeClientAuth]"

definition EnvTLSMinVersion :: string where "EnvTLSMinVersion = ''TLS_MIN_VERSION''"

definition EnvTLSCipherSuites :: string where "EnvTLSCipherSuites = ''TLS_CIPHER_SUITES''"

text \<open>The server's own options, up to the HTTP table.\<close>

definition serverOptions :: "cfgField list" where
  "serverOptions = map OptField
     [reload (opt ''log_level'' TInt (GInt 0)),
      reload (opt ''log_file'' TString (GStr [])),
      opt ''port'' TString (GStr []),
      opt ''bind_address'' TString (GStr ''0.0.0.0''),
      opt ''metrics_port'' TString (GStr []),
      reload (opt ''list_output'' TString (GStr ''table'')),
      reload (opt ''max_backend_response_bytes'' TInt64 (GInt64 DefaultMaxBackendResponseBytes)),
      reload (opt ''max_in_flight'' TInt (GInt DefaultMaxInFlight)),
      reload (opt ''max_result_bytes'' TInt64 (GInt64 DefaultMaxResultBytes)),
      opt ''apps_enabled'' TBool (GBool False),
      opt ''stateless'' TBool (GBool False),
      opt ''disable_localhost_protection'' TBool (GBool False),
      opt ''server_instructions'' TString (GStr []),
      opt ''kubeconfig'' TString (GStr []),
      opt ''cluster_provider_strategy'' TString (GStr []),
      reload (opt ''cluster_auth_mode'' TString (GStr [])),
      reload (opt ''denied_resources'' (TStructs groupVersionKindFields) GNil),
      reload (opt ''read_only'' TBool (GBool False)),
      reload (opt ''disable_destructive'' TBool (GBool False)),
      reload (opt ''validation_enabled'' TBool (GBool False)),
      reload (opt ''experimental_enable_target_compatibility_tool_filters'' TBool (GBool False)),
      reload (opt ''toolsets'' TStrings (GList [GStr ''core'', GStr ''config''])),
      reload (opt ''enabled_tools'' TStrings GNil),
      reload (opt ''opt_in_tools'' TStrings GNil),
      reload (opt ''disabled_tools'' TStrings GNil),
      reload (opt ''tool_overrides'' (TStructMap toolOverrideFields) GNil),
      reload (opt ''prompts'' (TStructs promptFields) GNil),
      reload (opt ''confirmation_fallback'' TString (GStr ''allow'')),
      reload (opt ''confirmation_rules'' (TStructs confirmationRuleFields) GNil),
      opt ''tls_cert'' TString (GStr []),
      opt ''tls_key'' TString (GStr []),
      opt ''require_tls'' TBool (GBool False),
      optEnv EnvTLSMinVersion parseEnvString (opt ''tls_min_version'' TString (GStr [])),
      optEnv EnvTLSCipherSuites parseEnvStringSlice (opt ''tls_cipher_suites'' TStrings GNil)]"

text \<open>The OAuth options between the HTTP table and the token exchange table.\<close>

definition oauthOptions :: "cfgField list" where
  "oauthOptions = map OptField
     [reload (opt ''require_oauth'' TBool (GBool False)),
      reload (opt ''oauth_audience'' TString (GStr [])),
      reload (opt ''authorization_url'' TString (GStr [])),
      reload (opt ''skip_jwt_verification'' TBool (GBool False)),
      reload (opt ''disable_dynamic_client_registration'' TBool (GBool False)),
      reload (opt ''oauth_scopes'' TStrings GNil),
      reload (opt ''server_url'' TString (GStr [])),
      reload (opt ''certificate_authority'' TString (GStr [])),
      reload (opt ''trust_proxy_headers'' TBool (GBool False))]"

definition clientOptions :: "cfgField list" where
  "clientOptions = map OptField
     [optEnv ''KUBE_CLIENT_QPS'' parseEnvFloat32 (opt ''kube_client_qps'' TFloat32 (GFloat (Float 0 0))),
      optEnv ''KUBE_CLIENT_BURST'' parseEnvInt (opt ''kube_client_burst'' TInt (GInt 0)),
      optEnv ''KUBECONFIG_DEBOUNCE_WINDOW_MS'' parseEnvDurationMS (opt ''kubeconfig_debounce_window'' TDuration (GInt64 (second div 10))),
      optEnv ''CLUSTER_STATE_POLL_INTERVAL_MS'' parseEnvDurationMS (opt ''cluster_state_poll_interval'' TDuration (GInt64 (30 * second))),
      optEnv ''CLUSTER_STATE_DEBOUNCE_WINDOW_MS'' parseEnvDurationMS (opt ''cluster_state_debounce_window'' TDuration (GInt64 (5 * second))),
      optEnv ''WORKSPACE_POLL_INTERVAL_MS'' parseEnvDurationMS (opt ''workspace_poll_interval'' TDuration (GInt64 (60 * second))),
      optEnv ''WORKSPACE_DEBOUNCE_WINDOW_MS'' parseEnvDurationMS (opt ''workspace_debounce_window'' TDuration (GInt64 (5 * second)))]"

definition newConfig :: "cfgField list" where
  "newConfig =
     serverOptions @ [StructField ''http'' newHTTPConfig] @ oauthOptions
     @ [StructField ''token_exchange'' newTokenExchangeConfig, StructField ''telemetry'' newTelemetryConfig]
     @ clientOptions"

section \<open>The schema is addressable\<close>

text \<open>
  Every option has its own path of keys that are not empty, outside the extension tables and
  apart from the tables, and every environment variable sets one option and has a parser.
\<close>

definition schemaOk :: "cfgField list \<Rightarrow> bool" where
  "schemaOk schema \<longleftrightarrow>
     (let os = walkOptions [] schema; paths = map fst os; envs = filter (\<lambda>n. n \<noteq> []) (map (opEnvName \<circ> snd) os)
      in distinct paths \<and> distinct envs
       \<and> list_all (\<lambda>p. list_all (\<lambda>k. k \<noteq> []) (goSplit dot p) \<and> p \<notin> set (wrappingTables [] schema)
             \<and> \<not> isExtensionTableKey p) paths
       \<and> list_all (\<lambda>(_, o1). opEnvName o1 = [] \<or> opParseEnv o1 \<noteq> None) os)"

lemma newConfig_schemaOk: "schemaOk newConfig"
  by code_simp

section \<open>Keys that look like options\<close>

lemma mapLookup_dotted_key:
  assumes "dot \<in> set p"
  shows "mapLookup [(p, v)] q = None"
proof -
  obtain a ks where q: "goSplit dot q = a # ks" by (cases "goSplit dot q") auto
  then have "a \<noteq> p" using goSplit_no_sep [of a dot q] assms by auto
  with q show ?thesis by (simp add: mapLookup_def)
qed

lemma mapLookup_empty: "mapLookup [] q = None"
  by (cases "goSplit dot q") (auto simp: mapLookup_def)

lemma tomlStep_absent: "mapLookup merged path = None \<Longrightarrow> tomlStep lib merged so path o1 = Inr o1"
  by (simp add: tomlStep_def)

lemma applyTOML_absent: "(\<And>q. mapLookup merged q = None) \<Longrightarrow> applyTOML lib merged so os = Inr os"
  unfolding applyTOML_def walkApply_Inr by (auto simp: list_all2_conv_all_nth tomlStep_absent split: prod.splits)

text \<open>
  A quoted key that spells the dotted path of an option, such as \<open>"http.max_body_bytes" = 1\<close>,
  is taken for that option by the check for unknown keys but never read: the load behaves exactly
  as if the key were absent, and the option keeps its default without an error.
\<close>

lemma quoted_key_ignored:
  fixes env :: "'x cfgEnv"
  assumes "ceSchema env = newConfig" and "p \<in> set (map fst (walkOptions [] newConfig))"
    and "dot \<in> set p" and "asTable v = None"
  shows "resolve env [(p, v)] so st = resolve env [] so st"
proof -
  have ok: "list_all (\<lambda>p. p \<notin> set (wrappingTables [] newConfig) \<and> \<not> isExtensionTableKey p) (map fst (walkOptions [] newConfig))"
    using newConfig_schemaOk by (simp add: schemaOk_def Let_def list_all_iff)
  have ne: "p \<noteq> []" "p \<noteq> ''token_exchange''" "p \<noteq> extensionProviderTable" "p \<noteq> extensionToolsetTable"
    using assms(3) by (auto simp: extensionProviderTable_def extensionToolsetTable_def)
  have start: "startConfig env [(p, v)] st = startConfig env [] st" using ne by (simp add: startConfig_def Let_def)
  have toml: "applyTOML (ceLib env) m so os = Inr os" if "m = [(p, v)] \<or> m = []" for m os
    using that assms(3) by (intro applyTOML_absent) (auto simp: mapLookup_dotted_key mapLookup_empty)
  let ?c = "startConfig env [] st"
  have c: "?c\<lparr>cfOptions := cfOptions ?c\<rparr> = ?c" by simp
  have keys: "flattenKeys [(p, v)] [] = [p]" "flattenKeys [] [] = []"
    using assms(4) ne by (simp_all add: joinPath_def)
  have "p \<in> set (optionKeys (cfOptions ?c))"
    using assms(1,2) ne by (force simp: optionKeys_def cfOptions_start image_iff)
  then have unk: "rejectUnknownKeys [(p, v)] ?c so = None" "rejectUnknownKeys [] ?c so = None"
    using keys by (simp_all add: rejectUnknownKeys_def unknownKeyLoop_None knownKey_def isKnownKey_def)
  have wrong: "rejectWrongTableTypes [(p, v)] ?c so = None" "rejectWrongTableTypes [] ?c so = None"
    using keys assms(1,2) ok
    by (auto simp: rejectWrongTableTypes_def wrongTableLoop_None cfTables_start list_all_iff)
  have ext: "parseExtensions (ceExt env) cfg [(p, v)] so = parseExtensions (ceExt env) cfg [] so" for cfg
    using ne by (simp add: parseExtensions_def)
  show ?thesis
    unfolding resolve_def Let_def start toml [OF disjI1, OF refl] toml [OF disjI2, OF refl] sum.case c unk wrong option.case ext ..
qed

text \<open>
  C30. A reload never changes what needs a restart: when a load against a previous configuration
  succeeds, every option that is not marked reloadable has the value it had, and so have the
  cluster provider tables.
\<close>

theorem reload_pins_restart_options:
  assumes "resolve env merged so st = Inr cfg" and "lsPrevious st = Some prev"
    and "(path, o1) \<in> set (cfOptions cfg)" and "\<not> opReloadable o1" and "optionsByPath (cfOptions prev) path = Some p"
  shows "opValue o1 = opValue p \<and> opType o1 = opType p \<and> map_of (cfProviderConfigs cfg) = map_of (cfProviderConfigs prev)"
  using resolve_steps [OF assms(1)] assms(2-5)
  by (fastforce simp: rejectNonReloadable_def equalValue_def Let_def filter_empty_conv split: if_splits)

definition exampleLib :: cfgLib where
  "exampleLib = \<lparr>clDecode = (\<lambda>_ v. Inr v), clParseDuration = (\<lambda>_. Inl ''duration''), clParseFloat = (\<lambda>_ _. Inl ''float''),
     clFloatOut = (\<lambda>_. 0), clFloatSame = (\<lambda>_. False)\<rparr>"

definition exampleEnv :: "unit cfgEnv" where
  "exampleEnv = \<lparr>ceLib = exampleLib,
     ceExt = \<lparr>elParser = (\<lambda>_ _. None), elFields = (\<lambda>_. []), elValidate = (\<lambda>_. None)\<rparr>,
     ceEnv = (\<lambda>n. if n = ''TLS_MIN_VERSION'' then Some ''1.3'' else None), ceSchema = newConfig\<rparr>"

definition freshLoad :: "unit loadSettings" where
  "freshLoad = \<lparr>lsDirPath = [], lsPrevious = None, lsBaseDefault = False\<rparr>"

definition exampleDoc :: goMap where
  "exampleDoc = [(''port'', GStr '' 80 ''), (''tls_min_version'', GStr ''1.2''), (''http'', GMap [(''rate_limit_burst'', GInt64 5)])]"

definition exampleSources :: cfgSources where
  "exampleSources = recordSources Map.empty [] (GMap exampleDoc) ''main.toml''"

lemma exampleDoc_loads: "\<exists>cfg. resolve exampleEnv exampleDoc exampleSources freshLoad = Inr cfg"
proof -
  have "\<not> isl (resolve exampleEnv exampleDoc exampleSources freshLoad)" by code_simp
  then show ?thesis by (cases "resolve exampleEnv exampleDoc exampleSources freshLoad") auto
qed

theorem resolve_precedence_witness:
  "\<exists>cfg. resolve exampleEnv exampleDoc exampleSources freshLoad = Inr cfg
    \<and> opValue (snd (cfOptions cfg ! 32)) = GStr ''1.3'' \<and> opSource (snd (cfOptions cfg ! 32)) = SourceEnv
    \<and> opValue (snd (cfOptions cfg ! 2)) = GStr ''80'' \<and> opSource (snd (cfOptions cfg ! 2)) = ''main.toml''"
proof -
  obtain cfg where cfg: "resolve exampleEnv exampleDoc exampleSources freshLoad = Inr cfg" using exampleDoc_loads ..
  note r = resolve_precedence [OF cfg]
  have schema: "ceSchema exampleEnv = newConfig" by (simp add: exampleEnv_def)
  have len: "length (cfOptions cfg) = length (walkOptions [] newConfig)" using r schema by (metis length_map)
  have "length (walkOptions [] newConfig) > 32" by code_simp
  then have at: "settled exampleEnv exampleDoc exampleSources path d (opValue (snd (cfOptions cfg ! i))) (opSource (snd (cfOptions cfg ! i)))"
    if "i \<le> 32" "walkOptions [] newConfig ! i = (path, d)" for i path d
    using r [THEN conjunct2, rule_format, of i] len schema that by (simp add: Let_def)
  have w: "walkOptions [] newConfig ! 2 = (''port'', opt ''port'' TString (GStr []))"
    "walkOptions [] newConfig ! 32 =
       (''tls_min_version'', optEnv EnvTLSMinVersion parseEnvString (opt ''tls_min_version'' TString (GStr [])))"
    by (simp_all add: newConfig_def serverOptions_def joinPath_def opt_def reload_def optEnv_def)
  have look: "mapLookup exampleDoc ''port'' = Some (GStr '' 80 '')" "exampleSources ''port'' = Some ''main.toml''"
    "trimSpace '' 80 '' = ''80''" "trimSpace ''1.3'' = ''1.3''"
    by code_simp+
  show ?thesis using cfg at [OF _ w(1)] at [OF _ w(2)] look
    by (auto simp: settled_def envSetting_def fileSetting_def opt_def optEnv_def exampleEnv_def EnvTLSMinVersion_def
        parseTyped_def asString_def parseEnvString_def)
qed


definition smallEnv :: "unit cfgEnv" where
  "smallEnv = exampleEnv\<lparr>ceSchema :=
     [OptField (opt ''port'' TString (GStr [])), OptField (reload (opt ''read_only'' TBool (GBool False)))]\<rparr>"

definition smallLoaded :: "unit config" where
  "smallLoaded = projr (resolve smallEnv [(''port'', GStr ''80'')] Map.empty freshLoad)"

theorem reload_pins_restart_options_witness:
  "\<exists>cfg o1 p. resolve smallEnv [(''read_only'', GBool True), (''port'', GStr '' 80'')] Map.empty
      (freshLoad\<lparr>lsPrevious := Some smallLoaded\<rparr>) = Inr cfg
    \<and> (''port'', o1) \<in> set (cfOptions cfg) \<and> optionsByPath (cfOptions smallLoaded) ''port'' = Some p
    \<and> opValue o1 = opValue p"
proof -
  let ?st = "freshLoad\<lparr>lsPrevious := Some smallLoaded\<rparr>" and ?doc = "[(''read_only'', GBool True), (''port'', GStr '' 80'')]"
  have "\<not> isl (resolve smallEnv ?doc Map.empty ?st)" by code_simp
  then obtain cfg where cfg: "resolve smallEnv ?doc Map.empty ?st = Inr cfg"
    by (cases "resolve smallEnv ?doc Map.empty ?st") auto
  have "\<not> isl (resolve smallEnv [(''port'', GStr ''80'')] Map.empty freshLoad)" by code_simp
  then have prev: "resolve smallEnv [(''port'', GStr ''80'')] Map.empty freshLoad = Inr smallLoaded"
    unfolding smallLoaded_def by (cases "resolve smallEnv [(''port'', GStr ''80'')] Map.empty freshLoad") auto
  have w: "walkOptions [] (ceSchema smallEnv) = [(''port'', opt ''port'' TString (GStr [])),
      (''read_only'', reload (opt ''read_only'' TBool (GBool False)))]"
    by (simp add: smallEnv_def joinPath_def opt_def reload_def)
  obtain v src where o1: "cfOptions cfg ! 0 = (''port'', setParsed v src (opt ''port'' TString (GStr [])))"
    by (rule resolve_option_at [OF cfg, of 0]) (use w in auto)
  have mem: "(''port'', setParsed v src (opt ''port'' TString (GStr []))) \<in> set (cfOptions cfg)"
    using o1 resolve_paths [OF cfg] w by (cases "cfOptions cfg") auto
  have "''port'' \<in> fst ` set (cfOptions smallLoaded)"
    using resolve_paths [OF prev] w by (cases "cfOptions smallLoaded") auto
  then obtain p where p: "optionsByPath (cfOptions smallLoaded) ''port'' = Some p"
    by (cases "optionsByPath (cfOptions smallLoaded) ''port''") (auto simp: optionsByPath_def map_of_eq_None_iff)
  show ?thesis using cfg mem p reload_pins_restart_options [OF cfg _ mem _ p] by (auto simp: opt_def)
qed

end
