(* ===== verification/Config_Validate.thy ===== *)
theory Config_Validate
  imports Config_Load Confirmation
begin

text \<open>
  \<open>pkg/config/validate.go\<close>, \<open>tls.go\<close> and \<open>pkg/tlsutil/tlsutil.go\<close>: the checks that a resolved
  configuration must pass at startup and on every reload, as the list of all problems in the
  order in which they are reported, and a declarative account of the configurations that pass.
  A configuration is the record of the values that the checks read. The URL parser, the file
  system and the cipher suites of \<open>crypto/tls\<close> are parameters.
\<close>

section \<open>Values\<close>

record cfgValues =
  cvPort :: string
  cvMetricsPort :: string
  cvListOutput :: string
  cvMaxBackendResponseBytes :: int
  cvMaxInFlight :: int
  cvMaxResultBytes :: int
  cvClusterProviderStrategy :: string
  cvClusterAuthMode :: string
  cvConfirmationFallback :: string
  cvConfirmationRules :: "confirmationRule list"
  cvTLSCert :: string
  cvTLSKey :: string
  cvRequireTLS :: bool
  cvTLSMinVersion :: string
  cvTLSCipherSuites :: "string list"
  cvRateLimitRPS :: goFloat
  cvRateLimitBurst :: int
  cvRequireOAuth :: bool
  cvOAuthAudience :: string
  cvAuthorizationURL :: string
  cvSkipJWTVerification :: bool
  cvServerURL :: string
  cvCertificateAuthority :: string
  cvTokenExchangePresent :: bool
  cvTokenExchangeNonDefault :: bool
  cvStrategy :: string
  cvTokenURL :: string
  cvMethod :: string
  cvClientID :: string
  cvClientSecret :: string
  cvCertificateFile :: string
  cvPrivateKeyFile :: string
  cvTokenFile :: string
  cvProviderStrategies :: "string list"
  cvTokenExchangeStrategies :: "string list"
  cvToolsetTLS :: "(string \<times> (bool \<Rightarrow> string option) option) list"
  cvProviderTLS :: "(string \<times> (bool \<Rightarrow> string option) option) list"

text \<open>What surrounds the checks; \<open>vlRegistered\<close> are the registered token exchange strategies.\<close>

record valLib =
  vlFileExists :: "string \<Rightarrow> bool"
  vlParseURL :: "string \<Rightarrow> string + string \<times> string"
  vlCipherSuites :: "string list"
  vlRegistered :: "string list"

datatype valErr =
    OAuthNeedsHTTP
  | OptionInvalid string
  | MetricsPortNeedsPort
  | MetricsPortIsPort
  | InvalidProviderStrategy string
  | OAuthFieldsWithoutOAuth
  | AuthorizationURLUnparsable string
  | AuthorizationURLScheme
  | JWTCannotBeVerified
  | CertWithoutKey
  | URLsNotTLS "string list"
  | ExtensionNotTLS string string string
  | KubeconfigModeWithOAuth
  | TokenExchangeWithKubeconfigMode
  | TokenExchangeWithoutOAuth
  | TokenExchangeNoEndpoint
  | TokenURLUnparsable string
  | TokenURLScheme string
  | TokenURLNoHost
  | InvalidStrategy string
  | ClientAuthMethodMissing
  | ClientIDMissing string
  | ClientSecretMissing string
  | FileMissing string
  | FileNotFound string
  | InvalidClientAuthMethod string
  | TLSNeedsHTTP
  | RequireTLSWithoutCert

section \<open>Transport security\<close>

definition isSecureHTTPScheme :: "string \<Rightarrow> bool" where
  "isSecureHTTPScheme scheme \<longleftrightarrow> scheme = ''https'' \<or> scheme = ''wss''"

definition ValidateURLRequiresTLS :: "valLib \<Rightarrow> string \<Rightarrow> bool" where
  "ValidateURLRequiresTLS lib url =
     (if url = [] then True
      else (case vlParseURL lib url of
          Inl _ \<Rightarrow> False
        | Inr (scheme, _) \<Rightarrow> isSecureHTTPScheme scheme))"

text \<open>The names of the fields that fail, in the order of their names.\<close>

definition ValidateURLsRequireTLS :: "valLib \<Rightarrow> (string \<times> string) list \<Rightarrow> string list" where
  "ValidateURLsRequireTLS lib urls = filter (\<lambda>n. \<not> ValidateURLRequiresTLS lib (the (map_of urls n))) (sort (map fst urls))"

text \<open>The transport of outgoing requests: None is a blocked request.\<close>

definition tlsRoundTrip :: "(unit \<Rightarrow> bool) option \<Rightarrow> string \<Rightarrow> (unit \<Rightarrow> 'r) \<Rightarrow> 'r option" where
  "tlsRoundTrip requireTLS scheme base =
     (if requireTLS \<noteq> None \<and> the requireTLS () \<and> \<not> isSecureHTTPScheme scheme then None else Some (base ()))"

definition tlsVersionMap :: "(string \<times> nat) list" where
  "tlsVersionMap =
     [(''1.0'', 0x0301), (''1.1'', 0x0302), (''1.2'', 0x0303), (''1.3'', 0x0304),
      (''VersionTLS10'', 0x0301), (''VersionTLS11'', 0x0302), (''VersionTLS12'', 0x0303), (''VersionTLS13'', 0x0304)]"

definition ParseTLSVersion :: "string \<Rightarrow> nat option" where
  "ParseTLSVersion version = (let version = trimSpace version in if version = [] then Some 0x0303 else map_of tlsVersionMap version)"

text \<open>The suites that were recognised, or the unknown names.\<close>

definition ParseTLSCipherSuites :: "string list \<Rightarrow> string list \<Rightarrow> string list + string list" where
  "ParseTLSCipherSuites known suites =
     (let names = filter (\<lambda>n. n \<noteq> []) (map trimSpace suites); errs = filter (\<lambda>n. n \<notin> set known) names
      in if errs \<noteq> [] then Inl errs else Inr names)"

text \<open>A suite stands for its number. Options are applied last, in their order.\<close>

record tlsConfig =
  tcMinVersion :: nat
  tcCipherSuites :: "string list"
  tcRootCAs :: "string option"
  tcInsecureSkipVerify :: bool

definition WithRootCAs :: "string \<Rightarrow> tlsConfig \<Rightarrow> tlsConfig" where
  "WithRootCAs pool cfg = cfg\<lparr>tcRootCAs := Some pool\<rparr>"

definition WithInsecureSkipVerify :: "bool \<Rightarrow> tlsConfig \<Rightarrow> tlsConfig" where
  "WithInsecureSkipVerify skip cfg = cfg\<lparr>tcInsecureSkipVerify := skip\<rparr>"

datatype tlsErr = BadMinVersion | BadCipherSuites "string list"

definition BuildTLSConfig :: "string list \<Rightarrow> string \<Rightarrow> string list \<Rightarrow> (tlsConfig \<Rightarrow> tlsConfig) list \<Rightarrow> tlsErr + tlsConfig" where
  "BuildTLSConfig known minVersion cipherSuites opts =
     (case ParseTLSVersion minVersion of
        None \<Rightarrow> Inl BadMinVersion
      | Some v \<Rightarrow>
          (case ParseTLSCipherSuites known cipherSuites of
             Inl errs \<Rightarrow> Inl (BadCipherSuites errs)
           | Inr suites \<Rightarrow>
               Inr (fold (\<lambda>f c. f c) opts
                 \<lparr>tcMinVersion = v, tcCipherSuites = suites, tcRootCAs = None, tcInsecureSkipVerify = False\<rparr>)))"

section \<open>Checks of single options\<close>

definition fromString :: "string \<Rightarrow> bool" where
  "fromString name \<longleftrightarrow> name = ''yaml'' \<or> name = ''table''"

definition validateMetricsPortNumber :: "string \<Rightarrow> bool" where
  "validateMetricsPortNumber v \<longleftrightarrow> v = [] \<or> (case goAtoi v of None \<Rightarrow> False | Some p \<Rightarrow> 1 \<le> p \<and> p \<le> 65535)"

definition ClusterAuthPassthrough :: string where "ClusterAuthPassthrough = ''passthrough''"

definition ClusterAuthKubeconfig :: string where "ClusterAuthKubeconfig = ''kubeconfig''"

definition validateClusterAuthModeValue :: "string \<Rightarrow> bool" where
  "validateClusterAuthModeValue mode \<longleftrightarrow> mode = [] \<or> mode = ClusterAuthPassthrough \<or> mode = ClusterAuthKubeconfig"

definition requireExistingFile :: "valLib \<Rightarrow> string \<Rightarrow> bool" where
  "requireExistingFile lib path \<longleftrightarrow> path = [] \<or> vlFileExists lib path"

definition floatNegative :: "goFloat \<Rightarrow> bool" where
  "floatNegative f = (case f of Float m _ \<Rightarrow> m < 0)"

text \<open>The options with a check, in walk order.\<close>

definition optionChecks :: "valLib \<Rightarrow> cfgValues \<Rightarrow> (string \<times> bool) list" where
  "optionChecks lib c =
     [(''metrics_port'', validateMetricsPortNumber (cvMetricsPort c)),
      (''list_output'', fromString (cvListOutput c)),
      (''max_backend_response_bytes'', 0 \<le> cvMaxBackendResponseBytes c),
      (''max_in_flight'', 0 \<le> cvMaxInFlight c),
      (''max_result_bytes'', 0 \<le> cvMaxResultBytes c),
      (''cluster_auth_mode'', validateClusterAuthModeValue (cvClusterAuthMode c)),
      (''confirmation_fallback'', validateConfirmationFallback (cvConfirmationFallback c) = None),
      (''confirmation_rules'', validateConfirmationRules (cvConfirmationRules c) = None),
      (''tls_cert'', requireExistingFile lib (trimSpace (cvTLSCert c))),
      (''tls_key'', requireExistingFile lib (trimSpace (cvTLSKey c))),
      (''tls_min_version'', ParseTLSVersion (cvTLSMinVersion c) \<noteq> None),
      (''tls_cipher_suites'', \<not> isl (ParseTLSCipherSuites (vlCipherSuites lib) (cvTLSCipherSuites c))),
      (''http.rate_limit_rps'', \<not> floatNegative (cvRateLimitRPS c)),
      (''http.rate_limit_burst'', 0 \<le> cvRateLimitBurst c),
      (''certificate_authority'', requireExistingFile lib (trimSpace (cvCertificateAuthority c)))]"

definition optionErrors :: "valLib \<Rightarrow> cfgValues \<Rightarrow> valErr list" where
  "optionErrors lib c = map (\<lambda>(n, _). OptionInvalid n) (filter (\<lambda>(_, ok). \<not> ok) (optionChecks lib c))"

section \<open>Checks across options\<close>

definition addIf :: "bool \<Rightarrow> 'e \<Rightarrow> 'e list" where
  "addIf b e = (if b then [e] else [])"

definition hasTokenExchangeConfig :: "cfgValues \<Rightarrow> bool" where
  "hasTokenExchangeConfig c = (if \<not> cvTokenExchangePresent c \<and> \<not> cvTokenExchangeNonDefault c then False else True)"

definition clientAuthConfigured :: "cfgValues \<Rightarrow> bool" where
  "clientAuthConfigured c \<longleftrightarrow> cvMethod c \<noteq> [] \<or> cvClientID c \<noteq> [] \<or> cvClientSecret c \<noteq> [] \<or> cvCertificateFile c \<noteq> []
     \<or> cvPrivateKeyFile c \<noteq> [] \<or> cvTokenFile c \<noteq> []"

definition ResolveClusterAuthMode :: "cfgValues \<Rightarrow> string" where
  "ResolveClusterAuthMode c = (if cvClusterAuthMode c \<noteq> [] then cvClusterAuthMode c else ClusterAuthPassthrough)"

definition validateSkipJWTVerification :: "cfgValues \<Rightarrow> valErr list" where
  "validateSkipJWTVerification c =
     (if \<not> cvRequireOAuth c \<or> cvAuthorizationURL c \<noteq> [] then []
      else if cvSkipJWTVerification c then []
      else [JWTCannotBeVerified])"

definition validateTokenExchangeFile :: "valLib \<Rightarrow> string \<Rightarrow> string \<Rightarrow> valErr list" where
  "validateTokenExchangeFile lib name path =
     (if path = [] then [FileMissing name] else if \<not> requireExistingFile lib path then [FileNotFound name] else [])"

definition tokenURLErrors :: "valLib \<Rightarrow> string \<Rightarrow> valErr list" where
  "tokenURLErrors lib url =
     (if url = [] then []
      else (case vlParseURL lib url of
          Inl err \<Rightarrow> [TokenURLUnparsable err]
        | Inr (scheme, host) \<Rightarrow>
            if scheme \<noteq> ''https'' \<and> scheme \<noteq> ''http'' then [TokenURLScheme scheme]
            else if host = [] then [TokenURLNoHost] else []))"

definition clientAuthErrors :: "valLib \<Rightarrow> cfgValues \<Rightarrow> valErr list" where
  "clientAuthErrors lib c =
     (if \<not> clientAuthConfigured c then []
      else if cvMethod c = []
      then (if cvClientID c \<noteq> [] \<and> cvClientSecret c = [] \<and> cvCertificateFile c = [] \<and> cvPrivateKeyFile c = []
               \<and> cvTokenFile c = [] then [] else [ClientAuthMethodMissing])
      else addIf (cvClientID c = []) (ClientIDMissing (cvMethod c)) @
        (if cvMethod c = ''client_secret_basic'' \<or> cvMethod c = ''client_secret_post''
         then addIf (cvClientSecret c = []) (ClientSecretMissing (cvMethod c))
         else if cvMethod c = ''private_key_jwt''
         then validateTokenExchangeFile lib ''certificate_file'' (cvCertificateFile c)
              @ validateTokenExchangeFile lib ''private_key_file'' (cvPrivateKeyFile c)
         else if cvMethod c = ''jwt_file'' then validateTokenExchangeFile lib ''token_file'' (cvTokenFile c)
         else [InvalidClientAuthMethod (cvMethod c)]))"

definition validateTokenExchange :: "valLib \<Rightarrow> cfgValues \<Rightarrow> valErr list" where
  "validateTokenExchange lib c =
     (if \<not> hasTokenExchangeConfig c then []
      else
        let strategies = (if cvTokenExchangeStrategies c = [] then vlRegistered lib else cvTokenExchangeStrategies c)
        in addIf (cvTokenURL c = [] \<and> cvAuthorizationURL c = []) TokenExchangeNoEndpoint
         @ tokenURLErrors lib (cvTokenURL c)
         @ addIf (cvStrategy c = [] \<or> cvStrategy c \<notin> set strategies) (InvalidStrategy (cvStrategy c))
         @ clientAuthErrors lib c)"

definition validateExtendedRequireTLS ::
    "string \<Rightarrow> bool \<Rightarrow> (string \<times> (bool \<Rightarrow> string option) option) list \<Rightarrow> valErr list" where
  "validateExtendedRequireTLS table requireTLS cfgs =
     concat (map (\<lambda>name. case map_of cfgs name of
         Some (Some v) \<Rightarrow> (case v requireTLS of Some err \<Rightarrow> [ExtensionNotTLS table name err] | None \<Rightarrow> [])
       | _ \<Rightarrow> []) (sort (remdups (map fst cfgs))))"

definition ValidateRequireTLS :: "valLib \<Rightarrow> cfgValues \<Rightarrow> valErr list" where
  "ValidateRequireTLS lib c =
     (let requireTLS = cvRequireTLS c;
          bad = ValidateURLsRequireTLS lib
            [(''authorization_url'', cvAuthorizationURL c), (''server_url'', cvServerURL c),
             (''token_exchange.token_url'', cvTokenURL c)]
      in addIf (requireTLS \<and> bad \<noteq> []) (URLsNotTLS bad)
       @ validateExtendedRequireTLS extensionToolsetTable requireTLS (cvToolsetTLS c)
       @ validateExtendedRequireTLS extensionProviderTable requireTLS (cvProviderTLS c))"

definition ValidateClusterAuthMode :: "cfgValues \<Rightarrow> valErr list" where
  "ValidateClusterAuthMode c =
     (let mode = cvClusterAuthMode c
      in addIf (mode = ClusterAuthKubeconfig \<and> cvRequireOAuth c) KubeconfigModeWithOAuth
       @ addIf (mode = ClusterAuthKubeconfig \<and> hasTokenExchangeConfig c) TokenExchangeWithKubeconfigMode
       @ addIf (\<not> cvRequireOAuth c \<and> hasTokenExchangeConfig c) TokenExchangeWithoutOAuth)"

definition authorizationURLErrors :: "valLib \<Rightarrow> string \<Rightarrow> valErr list" where
  "authorizationURLErrors lib url =
     (if url = [] then []
      else (case vlParseURL lib url of
          Inl err \<Rightarrow> [AuthorizationURLUnparsable err]
        | Inr (scheme, _) \<Rightarrow> addIf (scheme \<noteq> ''https'' \<and> scheme \<noteq> ''http'') AuthorizationURLScheme))"

definition configValidate :: "valLib \<Rightarrow> cfgValues \<Rightarrow> valErr list" where
  "configValidate lib c =
     addIf (cvPort c = [] \<and> cvRequireOAuth c) OAuthNeedsHTTP
     @ optionErrors lib c
     @ addIf (cvMetricsPort c \<noteq> [] \<and> cvPort c = []) MetricsPortNeedsPort
     @ addIf (cvMetricsPort c \<noteq> [] \<and> cvMetricsPort c = cvPort c) MetricsPortIsPort
     @ addIf (cvClusterProviderStrategy c \<noteq> [] \<and> cvProviderStrategies c \<noteq> []
         \<and> cvClusterProviderStrategy c \<notin> set (cvProviderStrategies c)) (InvalidProviderStrategy (cvClusterProviderStrategy c))
     @ addIf (\<not> cvRequireOAuth c \<and> (cvOAuthAudience c \<noteq> [] \<or> cvAuthorizationURL c \<noteq> [] \<or> cvServerURL c \<noteq> []
         \<or> cvCertificateAuthority c \<noteq> [])) OAuthFieldsWithoutOAuth
     @ authorizationURLErrors lib (cvAuthorizationURL c)
     @ validateSkipJWTVerification c
     @ addIf ((cvTLSCert c \<noteq> [] \<and> cvTLSKey c = []) \<or> (cvTLSCert c = [] \<and> cvTLSKey c \<noteq> [])) CertWithoutKey
     @ ValidateRequireTLS lib c
     @ ValidateClusterAuthMode c
     @ validateTokenExchange lib c
     @ addIf (cvTLSCert c \<noteq> [] \<and> cvPort c = []) TLSNeedsHTTP
     @ addIf (cvRequireTLS c \<and> cvPort c \<noteq> [] \<and> (cvTLSCert c = [] \<or> cvTLSKey c = [])) RequireTLSWithoutCert"

section \<open>The configurations that pass\<close>

definition secureURL :: "valLib \<Rightarrow> string \<Rightarrow> bool" where
  "secureURL lib url \<longleftrightarrow> url = [] \<or> (\<exists>host. vlParseURL lib url = Inr (''https'', host) \<or> vlParseURL lib url = Inr (''wss'', host))"

definition webURL :: "valLib \<Rightarrow> string \<Rightarrow> string option" where
  "webURL lib url = (case vlParseURL lib url of
     Inr (scheme, host) \<Rightarrow> if scheme = ''https'' \<or> scheme = ''http'' then Some host else None | Inl _ \<Rightarrow> None)"

text \<open>Users are told apart on the cluster, and their tokens are verified somewhere.\<close>

definition identityOk :: "valLib \<Rightarrow> cfgValues \<Rightarrow> bool" where
  "identityOk lib c \<longleftrightarrow>
     (if cvRequireOAuth c
      then cvPort c \<noteq> [] \<and> cvClusterAuthMode c \<noteq> ClusterAuthKubeconfig \<and> (cvAuthorizationURL c = [] \<longrightarrow> cvSkipJWTVerification c)
      else cvOAuthAudience c = [] \<and> cvAuthorizationURL c = [] \<and> cvServerURL c = [] \<and> cvCertificateAuthority c = []
         \<and> \<not> hasTokenExchangeConfig c)
   \<and> (cvAuthorizationURL c \<noteq> [] \<longrightarrow> webURL lib (cvAuthorizationURL c) \<noteq> None)"

definition extensionsOk :: "bool \<Rightarrow> (string \<times> (bool \<Rightarrow> string option) option) list \<Rightarrow> bool" where
  "extensionsOk requireTLS cfgs \<longleftrightarrow> (\<forall>name v. map_of cfgs name = Some (Some v) \<longrightarrow> v requireTLS = None)"

text \<open>With \<open>require_tls\<close> nothing travels in the clear.\<close>

definition transportOk :: "valLib \<Rightarrow> cfgValues \<Rightarrow> bool" where
  "transportOk lib c \<longleftrightarrow>
     (cvTLSCert c = [] \<longleftrightarrow> cvTLSKey c = []) \<and> (cvTLSCert c \<noteq> [] \<longrightarrow> cvPort c \<noteq> [])
   \<and> (cvRequireTLS c \<longrightarrow> secureURL lib (cvAuthorizationURL c) \<and> secureURL lib (cvServerURL c) \<and> secureURL lib (cvTokenURL c)
        \<and> (cvPort c \<noteq> [] \<longrightarrow> cvTLSCert c \<noteq> []))
   \<and> extensionsOk (cvRequireTLS c) (cvToolsetTLS c) \<and> extensionsOk (cvRequireTLS c) (cvProviderTLS c)"

definition credentialsOk :: "valLib \<Rightarrow> cfgValues \<Rightarrow> bool" where
  "credentialsOk lib c \<longleftrightarrow>
     (if cvMethod c = []
      then cvClientSecret c = [] \<and> cvCertificateFile c = [] \<and> cvPrivateKeyFile c = [] \<and> cvTokenFile c = []
      else cvClientID c \<noteq> []
        \<and> (cvMethod c \<in> {''client_secret_basic'', ''client_secret_post''} \<and> cvClientSecret c \<noteq> []
          \<or> cvMethod c = ''private_key_jwt'' \<and> cvCertificateFile c \<noteq> [] \<and> vlFileExists lib (cvCertificateFile c)
              \<and> cvPrivateKeyFile c \<noteq> [] \<and> vlFileExists lib (cvPrivateKeyFile c)
          \<or> cvMethod c = ''jwt_file'' \<and> cvTokenFile c \<noteq> [] \<and> vlFileExists lib (cvTokenFile c)))"

definition tokenExchangeOk :: "valLib \<Rightarrow> cfgValues \<Rightarrow> bool" where
  "tokenExchangeOk lib c \<longleftrightarrow>
     (hasTokenExchangeConfig c \<longrightarrow>
        cvClusterAuthMode c \<noteq> ClusterAuthKubeconfig
      \<and> (cvTokenURL c = [] \<longrightarrow> cvAuthorizationURL c \<noteq> [])
      \<and> (cvTokenURL c \<noteq> [] \<longrightarrow> (\<exists>host. webURL lib (cvTokenURL c) = Some host \<and> host \<noteq> []))
      \<and> cvStrategy c \<noteq> []
      \<and> cvStrategy c \<in> set (if cvTokenExchangeStrategies c = [] then vlRegistered lib else cvTokenExchangeStrategies c)
      \<and> credentialsOk lib c)"

definition portsOk :: "cfgValues \<Rightarrow> bool" where
  "portsOk c \<longleftrightarrow>
     (cvMetricsPort c \<noteq> [] \<longrightarrow> cvPort c \<noteq> [] \<and> cvMetricsPort c \<noteq> cvPort c)
   \<and> (cvClusterProviderStrategy c \<noteq> [] \<longrightarrow> cvProviderStrategies c = [] \<or> cvClusterProviderStrategy c \<in> set (cvProviderStrategies c))"

lemma addIf_Nil [simp]: "addIf b e = [] \<longleftrightarrow> \<not> b"
  by (simp add: addIf_def)

lemma optionErrors_Nil: "optionErrors lib c = [] \<longleftrightarrow> list_all snd (optionChecks lib c)"
  by (auto simp: optionErrors_def filter_empty_conv list_all_iff)

lemma ValidateURLRequiresTLS_secure: "ValidateURLRequiresTLS lib url \<longleftrightarrow> secureURL lib url"
  by (auto simp: ValidateURLRequiresTLS_def secureURL_def isSecureHTTPScheme_def split: sum.splits)

lemma validateExtendedRequireTLS_Nil: "validateExtendedRequireTLS table tls cfgs = [] \<longleftrightarrow> extensionsOk tls cfgs"
proof -
  have "map_of cfgs name = Some (Some v) \<Longrightarrow> name \<in> fst ` set cfgs" for name v
    by (metis domI dom_map_of_conv_image_fst)
  then show ?thesis
    by (force simp: validateExtendedRequireTLS_def extensionsOk_def split: option.splits)
qed

lemma ValidateURLs_Nil:
  "ValidateURLsRequireTLS lib [(''authorization_url'', a), (''server_url'', b), (''token_exchange.token_url'', t)] = []
    \<longleftrightarrow> secureURL lib a \<and> secureURL lib b \<and> secureURL lib t"
  by (simp add: ValidateURLsRequireTLS_def ValidateURLRequiresTLS_secure filter_empty_conv)

lemma tokenURLErrors_Nil:
  "tokenURLErrors lib url = [] \<longleftrightarrow> (url \<noteq> [] \<longrightarrow> (\<exists>host. webURL lib url = Some host \<and> host \<noteq> []))"
  by (auto simp: tokenURLErrors_def webURL_def split: sum.splits)

lemma authorizationURLErrors_Nil:
  "authorizationURLErrors lib url = [] \<longleftrightarrow> (url \<noteq> [] \<longrightarrow> webURL lib url \<noteq> None)"
  by (auto simp: authorizationURLErrors_def webURL_def split: sum.splits)

lemma clientAuthErrors_Nil: "clientAuthErrors lib c = [] \<longleftrightarrow> credentialsOk lib c"
  by (auto simp: clientAuthErrors_def credentialsOk_def clientAuthConfigured_def validateTokenExchangeFile_def
      requireExistingFile_def)

lemmas validate_parts = optionErrors_Nil authorizationURLErrors_Nil validateExtendedRequireTLS_Nil ValidateURLs_Nil
  tokenURLErrors_Nil clientAuthErrors_Nil

text \<open>
  C21. Validation accepts exactly the configurations in which every single value is valid and the
  values fit together: users that OAuth tells apart keep their identity on the cluster and their
  tokens can be verified, nothing travels in the clear under \<open>require_tls\<close>, token exchange has an
  endpoint, a known strategy and complete credentials, and ports and providers are consistent.
\<close>

theorem validate_accepts_exactly:
  "configValidate lib c = [] \<longleftrightarrow>
     list_all snd (optionChecks lib c) \<and> portsOk c \<and> identityOk lib c \<and> transportOk lib c \<and> tokenExchangeOk lib c"
proof -
  have "configValidate lib c = [] \<longleftrightarrow> list_all snd (optionChecks lib c) \<and> portsOk c
    \<and> ((cvPort c = [] \<longrightarrow> \<not> cvRequireOAuth c)
      \<and> (\<not> cvRequireOAuth c \<longrightarrow> cvOAuthAudience c = [] \<and> cvAuthorizationURL c = [] \<and> cvServerURL c = [] \<and> cvCertificateAuthority c = [])
      \<and> (cvAuthorizationURL c \<noteq> [] \<longrightarrow> webURL lib (cvAuthorizationURL c) \<noteq> None)
      \<and> validateSkipJWTVerification c = [] \<and> ValidateClusterAuthMode c = []
      \<and> (cvTLSCert c = [] \<longleftrightarrow> cvTLSKey c = []) \<and> ValidateRequireTLS lib c = [] \<and> validateTokenExchange lib c = []
      \<and> (cvTLSCert c \<noteq> [] \<longrightarrow> cvPort c \<noteq> [])
      \<and> (cvRequireTLS c \<and> cvPort c \<noteq> [] \<longrightarrow> cvTLSCert c \<noteq> [] \<and> cvTLSKey c \<noteq> []))"
    by (simp add: configValidate_def validate_parts portsOk_def) blast
  also have "\<dots> \<longleftrightarrow> list_all snd (optionChecks lib c) \<and> portsOk c \<and> identityOk lib c \<and> transportOk lib c \<and> tokenExchangeOk lib c"
    by (auto simp: identityOk_def transportOk_def tokenExchangeOk_def ValidateRequireTLS_def validateTokenExchange_def
        validateSkipJWTVerification_def ValidateClusterAuthMode_def Let_def validate_parts)
  finally show ?thesis .
qed

end
