(* ===== verification/HTTP_Auth.thy ===== *)
theory HTTP_Auth
  imports Config_Validate
begin

text \<open>
  \<open>pkg/http\<close> and \<open>pkg/oauth\<close>: who gets through to the handlers of the HTTP server
  (\<open>authorization.go\<close>), the state of the OIDC provider across reloads (\<open>oauth/state.go\<close>) and
  the proxy for the well-known documents (\<open>wellknown.go\<close>). The JWT library, the OIDC verifier
  and discovery, the HTTP client and \<open>url.JoinPath\<close> are parameters.
\<close>

section \<open>Paths without authorization\<close>

definition healthEndpoint :: string where "healthEndpoint = ''/healthz''"
definition statsEndpoint :: string where "statsEndpoint = ''/stats''"
definition metricsEndpoint :: string where "metricsEndpoint = ''/metrics''"

definition infraPaths :: "bool \<Rightarrow> string list" where
  "infraPaths metricsOnSeparatePort =
     (if metricsOnSeparatePort then [healthEndpoint] else [healthEndpoint, metricsEndpoint, statsEndpoint])"

definition oauthAuthorizationServerEndpoint :: string where
  "oauthAuthorizationServerEndpoint = ''/.well-known/oauth-authorization-server''"

definition oauthProtectedResourceEndpoint :: string where
  "oauthProtectedResourceEndpoint = ''/.well-known/oauth-protected-resource''"

definition openIDConfigurationEndpoint :: string where
  "openIDConfigurationEndpoint = ''/.well-known/openid-configuration''"

definition WellKnownEndpoints :: "string list" where
  "WellKnownEndpoints =
     [oauthAuthorizationServerEndpoint, oauthProtectedResourceEndpoint, openIDConfigurationEndpoint]"

fun endpointLoop :: "string list \<Rightarrow> string \<Rightarrow> string" where
  "endpointLoop [] path = []"
| "endpointLoop (ep # eps) path = (if path = ep \<or> hasPrefix path (ep @ ''/'') then ep else endpointLoop eps path)"

definition matchWellKnownEndpoint :: "string \<Rightarrow> string" where
  "matchWellKnownEndpoint path = (if containsSub path ''..'' then [] else endpointLoop WellKnownEndpoints path)"

definition isWellKnownPath :: "string \<Rightarrow> bool" where
  "isWellKnownPath path \<longleftrightarrow> matchWellKnownEndpoint path \<noteq> []"

section \<open>Authorization\<close>

record webRequest =
  wqMethod :: string
  wqPath :: string
  wqEscapedPath :: string
  wqHost :: string
  wqRemoteAddr :: string
  wqTLS :: bool
  wqHeader :: "string \<Rightarrow> string"

record authConfig =
  auMetricsPort :: string
  auRequireOAuth :: bool
  auOAuthAudience :: string
  auSkipJWTVerification :: bool
  auAuthorizationURL :: string
  auServerURL :: string
  auTrustProxyHeaders :: bool
  auMaxBodyBytes :: int

text \<open>
  The JWT library: parsing a token into its claims without verification, the library's check of
  claims against an expected audience (None is no expectation), and the verification of a token
  by a provider for a client ID (None skips that check).
\<close>

record ('claims, 'prov) jwtLib =
  jlParse :: "string \<Rightarrow> string + 'claims"
  jlValidate :: "string option \<Rightarrow> 'claims \<Rightarrow> string option"
  jlVerify :: "'prov \<Rightarrow> string option \<Rightarrow> string \<Rightarrow> string option"

datatype authOutcome = Next | Unauthorized string string | VerificationNotConfigured

definition validateOffline :: "('c, 'p) jwtLib \<Rightarrow> string \<Rightarrow> 'c \<Rightarrow> string option" where
  "validateOffline jl audience claims = jlValidate jl (if audience \<noteq> [] then Some audience else None) claims"

definition ValidateWithProvider :: "('c, 'p) jwtLib \<Rightarrow> string \<Rightarrow> string \<Rightarrow> 'p option \<Rightarrow> string option" where
  "ValidateWithProvider jl audience token provider =
     (case provider of None \<Rightarrow> None
      | Some p \<Rightarrow> jlVerify jl p (if audience = [] then None else Some audience) token)"

definition wwwAuthenticate :: "authConfig \<Rightarrow> string" where
  "wwwAuthenticate c =
     ''Bearer realm='' @ CHR 34 # ''Kubernetes MCP Server'' @ CHR 34 #
     (if auOAuthAudience c \<noteq> [] then '', audience='' @ CHR 34 # auOAuthAudience c @ [CHR 34] else [])"

text \<open>\<open>provider\<close> is the provider of the current OAuth snapshot, if there is one.\<close>

definition AuthorizationMiddleware :: "('c, 'p) jwtLib \<Rightarrow> authConfig \<Rightarrow> 'p option \<Rightarrow> webRequest \<Rightarrow> authOutcome" where
  "AuthorizationMiddleware jl c provider r =
     (if wqPath r \<in> set (infraPaths (auMetricsPort c \<noteq> [])) \<or> isWellKnownPath (wqEscapedPath r) then Next
      else if \<not> auRequireOAuth c then Next
      else
        let authHeader = wqHeader r ''Authorization''
        in if authHeader = [] \<or> \<not> hasPrefix authHeader ''Bearer '' then Unauthorized (wwwAuthenticate c) ''missing_token''
           else
             let token = trimPrefix authHeader ''Bearer ''
             in if token = [] then Unauthorized (wwwAuthenticate c) ''invalid_token''
                else if auSkipJWTVerification c \<and> auAuthorizationURL c = [] then Next
                else (case jlParse jl token of
                    Inl _ \<Rightarrow> Unauthorized (wwwAuthenticate c) ''invalid_token''
                  | Inr claims \<Rightarrow>
                      (case validateOffline jl (auOAuthAudience c) claims of
                         Some _ \<Rightarrow> Unauthorized (wwwAuthenticate c) ''invalid_token''
                       | None \<Rightarrow>
                           if provider = None
                           then (if auAuthorizationURL c \<noteq> [] then Unauthorized (wwwAuthenticate c) ''temporarily_unavailable''
                                 else VerificationNotConfigured)
                           else (case ValidateWithProvider jl (auOAuthAudience c) token provider of
                               Some _ \<Rightarrow> Unauthorized (wwwAuthenticate c) ''invalid_token''
                             | None \<Rightarrow> Next))))"

text \<open>
  On a path that is neither an infrastructure endpoint nor a well-known document, a request
  reaches the handlers of a server that requires OAuth exactly when it carries a non-empty bearer
  token and either the operator chose to leave verification to the cluster (no authorization URL,
  verification skipped), or the token parses, its claims pass for the configured audience, and the
  OIDC provider is there and verifies it for that audience.
\<close>

lemma protected_Next_iff:
  assumes "auRequireOAuth c" and "wqPath r \<notin> set (infraPaths (auMetricsPort c \<noteq> []))"
    and "\<not> isWellKnownPath (wqEscapedPath r)"
  shows "AuthorizationMiddleware jl c provider r = Next \<longleftrightarrow>
    (\<exists>token. wqHeader r ''Authorization'' = ''Bearer '' @ token \<and> token \<noteq> []
      \<and> (auSkipJWTVerification c \<and> auAuthorizationURL c = []
        \<or> (\<exists>claims p. jlParse jl token = Inr claims \<and> validateOffline jl (auOAuthAudience c) claims = None
            \<and> provider = Some p \<and> jlVerify jl p (if auOAuthAudience c = [] then None else Some (auOAuthAudience c)) token = None)))"
proof -
  have bearer: "hasPrefix h ''Bearer '' \<longleftrightarrow> (\<exists>t. h = ''Bearer '' @ t)" for h by (simp only: hasPrefix_iff)
  have trim: "trimPrefix (''Bearer '' @ t) ''Bearer '' = t" for t by (rule trimPrefix_append)
  show ?thesis
  proof (cases "\<exists>t. wqHeader r ''Authorization'' = ''Bearer '' @ t")
    case False
    then show ?thesis using assms bearer by (auto simp: AuthorizationMiddleware_def Let_def)
  next
    case True
    then obtain t where t: "wqHeader r ''Authorization'' = ''Bearer '' @ t" ..
    then have "hasPrefix (wqHeader r ''Authorization'') ''Bearer ''" "trimPrefix (wqHeader r ''Authorization'') ''Bearer '' = t"
      "wqHeader r ''Authorization'' \<noteq> []" by (simp_all only: hasPrefix_append trim) simp
    then show ?thesis using assms t
      by (auto simp: AuthorizationMiddleware_def ValidateWithProvider_def Let_def split: sum.splits option.splits)
  qed
qed

lemma NotConfigured_only:
  "AuthorizationMiddleware jl c provider r = VerificationNotConfigured \<Longrightarrow>
     auRequireOAuth c \<and> auAuthorizationURL c = [] \<and> \<not> auSkipJWTVerification c"
  by (auto simp: AuthorizationMiddleware_def Let_def split: if_splits sum.splits option.splits)

section \<open>Other middleware\<close>

definition chain :: "'h \<Rightarrow> ('h \<Rightarrow> 'h) list \<Rightarrow> 'h" where
  "chain handler middlewares = foldr (\<lambda>m h. m h) middlewares handler"

definition getHTTPRoute :: "string \<Rightarrow> string" where
  "getHTTPRoute path =
     (if path = ''/healthz'' \<or> path = ''/mcp'' \<or> path = ''/stats'' then path
      else if hasPrefix path ''/.well-known/'' then ''/.well-known/*''
      else path)"

definition getScheme :: "webRequest \<Rightarrow> bool \<Rightarrow> string" where
  "getScheme r trustProxy =
     (if trustProxy \<and> wqHeader r ''X-Forwarded-Proto'' \<noteq> [] then wqHeader r ''X-Forwarded-Proto''
      else if wqTLS r then ''https'' else ''http'')"

text \<open>\<open>splitHostPort\<close> is \<open>net.SplitHostPort\<close>, None its error.\<close>

definition getClientIP :: "(string \<Rightarrow> string option) \<Rightarrow> webRequest \<Rightarrow> bool \<Rightarrow> string" where
  "getClientIP splitHostPort r trustProxy =
     (let xff = wqHeader r ''X-Forwarded-For''; xri = wqHeader r ''X-Real-IP''
      in if trustProxy \<and> xff \<noteq> [] then trimSpace (hd (goSplit (CHR '','') xff))
         else if trustProxy \<and> xri \<noteq> [] then trimSpace xri
         else (case splitHostPort (wqRemoteAddr r) of None \<Rightarrow> wqRemoteAddr r | Some host \<Rightarrow> host))"

text \<open>The limit put on the body of a request, None when there is none.\<close>

definition MaxBodyMiddleware :: "authConfig \<Rightarrow> webRequest \<Rightarrow> int option" where
  "MaxBodyMiddleware c r =
     (if wqMethod r = ''GET'' \<or> wqMethod r = ''HEAD'' \<or> wqMethod r = ''OPTIONS'' then None
      else if auMaxBodyBytes c \<le> 0 then None
      else Some (auMaxBodyBytes c))"

section \<open>The OAuth state\<close>

record providerFields =
  pfAuthorizationURL :: string
  pfCertificateAuthority :: string
  pfTLSMinVersion :: string
  pfTLSCipherSuites :: "string list"

text \<open>The client of a provider: its TLS settings and whether it refuses plain HTTP.\<close>

record httpClient =
  hcTLS :: tlsConfig
  hcRequireTLS :: bool

record 'p snapshot =
  snProvider :: "'p option"
  snHTTPClient :: "httpClient option"
  snFields :: providerFields
  snOAuthScopes :: "string list"
  snDisableDynamicClientRegistration :: bool

record oauthConfig =
  ocFields :: providerFields
  ocRequireTLS :: bool
  ocOAuthScopes :: "string list"
  ocDisableDynamicClientRegistration :: bool

text \<open>The two methods compare with a nil receiver or argument as well.\<close>

definition HasProviderConfigChanged :: "'p snapshot option \<Rightarrow> 'p snapshot option \<Rightarrow> bool" where
  "HasProviderConfigChanged s other =
     (case (s, other) of
        (Some a, Some b) \<Rightarrow>
          pfAuthorizationURL (snFields a) \<noteq> pfAuthorizationURL (snFields b)
          \<or> pfCertificateAuthority (snFields a) \<noteq> pfCertificateAuthority (snFields b)
          \<or> pfTLSMinVersion (snFields a) \<noteq> pfTLSMinVersion (snFields b)
          \<or> pfTLSCipherSuites (snFields a) \<noteq> pfTLSCipherSuites (snFields b)
      | (None, None) \<Rightarrow> False
      | _ \<Rightarrow> True)"

definition HasWellKnownConfigChanged :: "'p snapshot option \<Rightarrow> 'p snapshot option \<Rightarrow> bool" where
  "HasWellKnownConfigChanged s other =
     (case (s, other) of
        (Some a, Some b) \<Rightarrow>
          HasProviderConfigChanged s other
          \<or> snDisableDynamicClientRegistration a \<noteq> snDisableDynamicClientRegistration b
          \<or> snOAuthScopes a \<noteq> snOAuthScopes b
      | (None, None) \<Rightarrow> False
      | _ \<Rightarrow> True)"

definition SnapshotFromConfig :: "oauthConfig \<Rightarrow> 'p option \<Rightarrow> httpClient option \<Rightarrow> 'p snapshot" where
  "SnapshotFromConfig cfg provider client =
     \<lparr>snProvider = provider, snHTTPClient = client, snFields = ocFields cfg, snOAuthScopes = ocOAuthScopes cfg,
      snDisableDynamicClientRegistration = ocDisableDynamicClientRegistration cfg\<rparr>"

definition emptySnapshot :: "'p snapshot" where
  "emptySnapshot =
     \<lparr>snProvider = None, snHTTPClient = None, snFields = \<lparr>pfAuthorizationURL = [], pfCertificateAuthority = [],
        pfTLSMinVersion = [], pfTLSCipherSuites = []\<rparr>, snOAuthScopes = [], snDisableDynamicClientRegistration = False\<rparr>"

text \<open>
  What discovery depends on: the file system, the PEM parser (a pool of certificates is named by
  the text it was read from), the cipher suites and the discovery of the OIDC library.
\<close>

record 'p oidcLib =
  olReadFile :: "string \<Rightarrow> string + string"
  olAppendCerts :: "string \<Rightarrow> bool"
  olCipherSuites :: "string list"
  olNewProvider :: "httpClient \<Rightarrow> string \<Rightarrow> string + 'p"

datatype oidcErr = CAUnreadable string | CAWithoutCertificates | TLSSettings tlsErr | DiscoveryFailed string

definition caOptions :: "'p oidcLib \<Rightarrow> string \<Rightarrow> oidcErr + (tlsConfig \<Rightarrow> tlsConfig) list" where
  "caOptions ol path =
     (if path = [] then Inr []
      else (case olReadFile ol path of
          Inl err \<Rightarrow> Inl (CAUnreadable err)
        | Inr pem \<Rightarrow> if \<not> olAppendCerts ol pem then Inl CAWithoutCertificates else Inr [WithRootCAs pem]))"

definition CreateOIDCProviderAndClient :: "'p oidcLib \<Rightarrow> oauthConfig \<Rightarrow> oidcErr + 'p option \<times> httpClient option" where
  "CreateOIDCProviderAndClient ol cfg =
     (let f = ocFields cfg
      in if pfAuthorizationURL f = [] then Inr (None, None)
         else (case caOptions ol (pfCertificateAuthority f) of
             Inl err \<Rightarrow> Inl err
           | Inr opts \<Rightarrow>
               (case BuildTLSConfig (olCipherSuites ol) (pfTLSMinVersion f) (pfTLSCipherSuites f) opts of
                  Inl err \<Rightarrow> Inl (TLSSettings err)
                | Inr tls \<Rightarrow>
                    let client = \<lparr>hcTLS = tls, hcRequireTLS = ocRequireTLS cfg\<rparr>
                    in (case olNewProvider ol client (pfAuthorizationURL f) of
                          Inl err \<Rightarrow> Inl (DiscoveryFailed err)
                        | Inr p \<Rightarrow> Inr (Some p, Some client)))))"

definition SnapshotForReload ::
    "'p oidcLib \<Rightarrow> 'p snapshot option \<Rightarrow> oauthConfig \<Rightarrow> oidcErr + 'p snapshot" where
  "SnapshotForReload ol current cfg =
     (let current = (case current of None \<Rightarrow> emptySnapshot | Some s \<Rightarrow> s);
          nxt = SnapshotFromConfig cfg (snProvider current) (snHTTPClient current)
      in if \<not> HasProviderConfigChanged (Some current) (Some nxt) then Inr nxt
         else (case CreateOIDCProviderAndClient ol cfg of
             Inl err \<Rightarrow> Inl err
           | Inr (provider, client) \<Rightarrow> Inr (nxt\<lparr>snProvider := provider, snHTTPClient := client\<rparr>)))"

text \<open>
  The provider and the client belong to the fields of the snapshot: they were made by a discovery
  with one of the library states \<open>W\<close> that the process saw (files and issuers change over time).
\<close>

definition providerMatches :: "'p oidcLib set \<Rightarrow> 'p snapshot \<Rightarrow> bool" where
  "providerMatches W a \<longleftrightarrow>
     (if pfAuthorizationURL (snFields a) = [] then snProvider a = None \<and> snHTTPClient a = None
      else (\<exists>ol \<in> W. \<exists>cfg p client. ocFields cfg = snFields a \<and> CreateOIDCProviderAndClient ol cfg = Inr (Some p, Some client)
        \<and> snProvider a = Some p \<and> snHTTPClient a = Some client))"

lemma HasProviderConfigChanged_Some: "\<not> HasProviderConfigChanged (Some a) (Some b) \<longleftrightarrow> snFields a = snFields b"
  by (auto simp: HasProviderConfigChanged_def)

lemma SnapshotFromConfig_sel [simp]:
  "snFields (SnapshotFromConfig cfg p c) = ocFields cfg" "snProvider (SnapshotFromConfig cfg p c) = p"
  "snHTTPClient (SnapshotFromConfig cfg p c) = c" "snOAuthScopes (SnapshotFromConfig cfg p c) = ocOAuthScopes cfg"
  "snDisableDynamicClientRegistration (SnapshotFromConfig cfg p c) = ocDisableDynamicClientRegistration cfg"
  by (simp_all add: SnapshotFromConfig_def)

lemma providerMatches_empty: "providerMatches W emptySnapshot"
  by (simp add: providerMatches_def emptySnapshot_def)

lemma Create_cases:
  assumes "CreateOIDCProviderAndClient ol cfg = Inr (provider, client)"
  shows "if pfAuthorizationURL (ocFields cfg) = [] then provider = None \<and> client = None
    else (\<exists>p c. provider = Some p \<and> client = Some c \<and> hcRequireTLS c = ocRequireTLS cfg)"
  using assms by (auto simp: CreateOIDCProviderAndClient_def Let_def split: if_splits sum.splits)

lemma Create_matches:
  assumes "ol \<in> W" "CreateOIDCProviderAndClient ol cfg = Inr (provider, client)"
    "snFields a = ocFields cfg" "snProvider a = provider" "snHTTPClient a = client"
  shows "providerMatches W a"
  using Create_cases [OF assms(2)] assms by (auto simp: providerMatches_def split: if_splits; blast)

lemma SnapshotForReload_matches:
  assumes "case current of None \<Rightarrow> True | Some s \<Rightarrow> providerMatches W s" and "ol \<in> W"
    and "SnapshotForReload ol current cfg = Inr snap"
  shows "providerMatches W snap \<and> snFields snap = ocFields cfg"
proof -
  define cur where "cur = (case current of None \<Rightarrow> emptySnapshot | Some s \<Rightarrow> s)"
  let ?nxt = "SnapshotFromConfig cfg (snProvider cur) (snHTTPClient cur)"
  have cur: "providerMatches W cur"
    using assms(1) by (cases current) (simp_all add: cur_def providerMatches_empty)
  have snap: "(if snFields cur = ocFields cfg then Inr ?nxt
      else (case CreateOIDCProviderAndClient ol cfg of Inl err \<Rightarrow> Inl err
        | Inr (provider, client) \<Rightarrow> Inr (?nxt\<lparr>snProvider := provider, snHTTPClient := client\<rparr>))) = Inr snap"
    using assms(3) HasProviderConfigChanged_Some [of cur ?nxt]
    by (simp add: SnapshotForReload_def Let_def cur_def [symmetric])
  show ?thesis
  proof (cases "snFields cur = ocFields cfg")
    case True
    then show ?thesis using snap cur by (auto simp: providerMatches_def)
  next
    case False
    then obtain provider client where "CreateOIDCProviderAndClient ol cfg = Inr (provider, client)"
      "snap = ?nxt\<lparr>snProvider := provider, snHTTPClient := client\<rparr>"
      using snap by (auto split: sum.splits prod.splits)
    with Create_matches [OF assms(2)] show ?thesis by simp
  qed
qed

section \<open>The well-known documents\<close>

text \<open>An upstream answer: an error of the client, or a status with its body and headers.\<close>

datatype upstreamBody = EmptyBody | BadBody string | NullDoc | Doc goMap

datatype upstream = FetchError string | Answer nat upstreamBody "(string \<times> string list) list"

record wellKnownState =
  wkCache :: "goMap option"
  wkCacheTime :: int
  wkCacheURL :: string
  wkFetched :: "string list"

definition oidcConfigCacheTTL :: int where "oidcConfigCacheTTL = 300000000000"

definition authorizationURL :: "'p snapshot option \<Rightarrow> string" where
  "authorizationURL snap = (case snap of None \<Rightarrow> [] | Some s \<Rightarrow> trimSuffix (pfAuthorizationURL (snFields s)) ''/'')"

definition fetchWellKnownEndpointFromRequest ::
    "(string \<Rightarrow> string \<Rightarrow> upstream) \<Rightarrow> string \<Rightarrow> string \<Rightarrow> wellKnownState \<Rightarrow>
     (string + (goMap \<times> (string \<times> string list) list) option) \<times> wellKnownState" where
  "fetchWellKnownEndpointFromRequest up method url st =
     ((case up method url of
         FetchError err \<Rightarrow> Inl err
       | Answer status body headers \<Rightarrow>
           if status = 404 then Inr None
           else if status < 200 \<or> status \<ge> 300 then Inl ''upstream returned status''
           else (case body of
               EmptyBody \<Rightarrow> Inr None
             | BadBody err \<Rightarrow> Inl err
             | NullDoc \<Rightarrow> Inr None
             | Doc m \<Rightarrow> Inr (Some (m, headers)))),
      st\<lparr>wkFetched := wkFetched st @ [url]\<rparr>)"

text \<open>Times are nanoseconds; \<open>now\<close> is the clock at the request.\<close>

definition fetchOpenIDConfiguration ::
    "(string \<Rightarrow> string \<Rightarrow> upstream) \<Rightarrow> int \<Rightarrow> string \<Rightarrow> wellKnownState \<Rightarrow> (string + goMap option) \<times> wellKnownState" where
  "fetchOpenIDConfiguration up now authURL st =
     (if wkCache st \<noteq> None \<and> wkCacheURL st = authURL \<and> now - wkCacheTime st < oidcConfigCacheTTL
      then (Inr (wkCache st), st)
      else (case fetchWellKnownEndpointFromRequest up ''GET'' (authURL @ openIDConfigurationEndpoint) st of
          (Inl err, st) \<Rightarrow> (Inl err, st)
        | (Inr None, st) \<Rightarrow> (Inr None, st)
        | (Inr (Some (m, _)), st) \<Rightarrow>
            (Inr (Some m), st\<lparr>wkCache := Some m, wkCacheTime := now, wkCacheURL := authURL\<rparr>)))"

definition GenerateAuthorizationServerMetadata :: "goMap \<Rightarrow> goMap" where
  "GenerateAuthorizationServerMetadata oidcConfig = oidcConfig"

definition GenerateProtectedResourceMetadata :: "goMap \<Rightarrow> string \<Rightarrow> goMap" where
  "GenerateProtectedResourceMetadata oidcConfig resourceURL =
     (let metadata = [(''resource'', GStr resourceURL)];
          metadata = (case map_of oidcConfig ''issuer'' of
              Some (GStr issuer) \<Rightarrow> if issuer \<noteq> [] then assocUpd ''authorization_servers'' (GList [GStr issuer]) metadata else metadata
            | _ \<Rightarrow> metadata);
          metadata = (case map_of oidcConfig ''scopes_supported'' of
              Some scopes \<Rightarrow> assocUpd ''scopes_supported'' scopes metadata | None \<Rightarrow> metadata)
      in assocUpd ''bearer_methods_supported'' (GList [GStr ''header'']) metadata)"

definition buildResourceURL :: "authConfig \<Rightarrow> webRequest \<Rightarrow> string" where
  "buildResourceURL c r =
     (if auServerURL c \<noteq> [] then trimSuffix (auServerURL c) ''/''
      else
        let scheme = (if auTrustProxyHeaders c
              then (if \<not> wqTLS r \<and> \<not> hasPrefix (wqHeader r ''X-Forwarded-Proto'') ''https'' then ''http'' else ''https'')
              else (if \<not> wqTLS r then ''http'' else ''https''));
            host = (if auTrustProxyHeaders c \<and> wqHeader r ''X-Forwarded-Host'' \<noteq> [] then wqHeader r ''X-Forwarded-Host''
                    else wqHost r)
        in scheme @ ''://'' @ host @ trimPrefix (wqEscapedPath r) oauthProtectedResourceEndpoint)"

definition applyConfigOverrides :: "'p snapshot option \<Rightarrow> goMap \<Rightarrow> goMap" where
  "applyConfigOverrides snap m =
     (case snap of None \<Rightarrow> m
      | Some s \<Rightarrow>
          let m = (if snDisableDynamicClientRegistration s
                   then assocUpd ''require_request_uri_registration'' (GBool False) (assocDel ''registration_endpoint'' m)
                   else m)
          in if length (snOAuthScopes s) > 0 then assocUpd ''scopes_supported'' (GList (map GStr (snOAuthScopes s))) m else m)"

definition allowedResponseHeaders :: "string list" where
  "allowedResponseHeaders = [''Cache-Control'', ''Date'', ''Etag'', ''Expires'', ''Last-Modified'', ''Pragma'']"

text \<open>What the client gets: a status with an error text, or a document with the copied headers.\<close>

datatype wkResponse = WKError nat | WKServed goMap "(string \<times> string list) list"

definition generateMetadata ::
    "(string \<Rightarrow> string \<Rightarrow> upstream) \<Rightarrow> int \<Rightarrow> authConfig \<Rightarrow> webRequest \<Rightarrow> string \<Rightarrow> string \<Rightarrow> wellKnownState \<Rightarrow>
     (string + goMap option) \<times> wellKnownState" where
  "generateMetadata up now c r authURL endpoint st =
     (if endpoint = oauthAuthorizationServerEndpoint
      then (case fetchOpenIDConfiguration up now authURL st of
          (res, st) \<Rightarrow> (map_sum id (map_option GenerateAuthorizationServerMetadata) res, st))
      else if endpoint = oauthProtectedResourceEndpoint
      then (case fetchOpenIDConfiguration up now authURL st of
          (res, st) \<Rightarrow> (map_sum id (map_option (\<lambda>m. GenerateProtectedResourceMetadata m (buildResourceURL c r))) res, st))
      else (Inr None, st))"

text \<open>\<open>join\<close> is \<open>url.JoinPath\<close>, \<open>canonical\<close> is \<open>http.CanonicalHeaderKey\<close> and \<open>marshals\<close> whether JSON encoding succeeds.\<close>

definition wellKnownServe ::
    "(string \<Rightarrow> string \<Rightarrow> string option) \<Rightarrow> (string \<Rightarrow> string) \<Rightarrow> (goMap \<Rightarrow> bool) \<Rightarrow> (string \<Rightarrow> string \<Rightarrow> upstream) \<Rightarrow> int \<Rightarrow>
     authConfig \<Rightarrow> 'p snapshot option \<Rightarrow> webRequest \<Rightarrow> wellKnownState \<Rightarrow> wkResponse \<times> wellKnownState" where
  "wellKnownServe join canonical marshals up now c snap r st =
     (let authURL = authorizationURL snap
      in if authURL = [] then (WKError 404, st)
         else
           let endpoint = matchWellKnownEndpoint (wqEscapedPath r)
           in if endpoint = [] then (WKError 404, st)
              else (case join authURL endpoint of
                  None \<Rightarrow> (WKError 400, st)
                | Some upstreamURL \<Rightarrow>
                    if \<not> hasPrefix upstreamURL (authURL @ ''/'') then (WKError 400, st)
                    else (case fetchWellKnownEndpointFromRequest up (wqMethod r) upstreamURL st of
                        (Inl _, st) \<Rightarrow> (WKError 500, st)
                      | (Inr found, st) \<Rightarrow>
                          (case (case found of
                                   Some (m, headers) \<Rightarrow> (Inr (Some (m, headers)), st)
                                 | None \<Rightarrow> (case generateMetadata up now c r authURL endpoint st of
                                     (res, st) \<Rightarrow> (map_sum id (map_option (\<lambda>m. (m, []))) res, st))) of
                             (Inl _, st) \<Rightarrow> (WKError 500, st)
                           | (Inr None, st) \<Rightarrow> (WKError 404, st)
                           | (Inr (Some (m, headers)), st) \<Rightarrow>
                               let m = applyConfigOverrides snap m
                               in if \<not> marshals m then (WKError 500, st)
                                  else (WKServed m (filter (\<lambda>(k, _). canonical k \<in> set allowedResponseHeaders) headers), st)))))"

lemma matchWellKnownEndpoint_in: "matchWellKnownEndpoint path \<noteq> [] \<Longrightarrow> matchWellKnownEndpoint path \<in> set WellKnownEndpoints"
proof -
  have "endpointLoop eps path = [] \<or> endpointLoop eps path \<in> set eps" for eps by (induction eps) auto
  then show "matchWellKnownEndpoint path \<noteq> [] \<Longrightarrow> matchWellKnownEndpoint path \<in> set WellKnownEndpoints"
    by (auto simp: matchWellKnownEndpoint_def split: if_splits)
qed

lemma fetch_fetched: "fetchWellKnownEndpointFromRequest up method url st = (res, st') \<Longrightarrow> wkFetched st' = wkFetched st @ [url]"
  by (auto simp: fetchWellKnownEndpointFromRequest_def)

lemma fetchOpenID_fetched:
  "fetchOpenIDConfiguration up now authURL st = (res, st') \<Longrightarrow>
     \<exists>n. wkFetched st' = wkFetched st @ n \<and> set n \<subseteq> {authURL @ openIDConfigurationEndpoint}"
  by (auto simp: fetchOpenIDConfiguration_def dest!: fetch_fetched split: if_splits prod.splits sum.splits option.splits)

lemma generate_fetched:
  "generateMetadata up now c r authURL endpoint st = (res, st') \<Longrightarrow>
     \<exists>n. wkFetched st' = wkFetched st @ n \<and> set n \<subseteq> {authURL @ openIDConfigurationEndpoint}"
  by (auto simp: generateMetadata_def dest!: fetchOpenID_fetched split: if_splits prod.splits)

lemma applyConfigOverrides_obeys:
  "snap = Some s \<Longrightarrow> snDisableDynamicClientRegistration s \<Longrightarrow> map_of (applyConfigOverrides snap m) ''registration_endpoint'' = None"
  "snap = Some s \<Longrightarrow> snOAuthScopes s \<noteq> [] \<Longrightarrow>
     map_of (applyConfigOverrides snap m) ''scopes_supported'' = Some (GList (map GStr (snOAuthScopes s)))"
  by (simp_all add: applyConfigOverrides_def Let_def)

text \<open>Which URLs are asked, and what a served document went through.\<close>

lemma wellKnownServe_cases:
  assumes "wellKnownServe join canonical marshals up now c snap r st = (resp, st')"
  obtains "st' = st" and "\<exists>e. resp = WKError e"
  | u n where "authorizationURL snap \<noteq> []" and "join (authorizationURL snap) (matchWellKnownEndpoint (wqEscapedPath r)) = Some u"
      and "matchWellKnownEndpoint (wqEscapedPath r) \<noteq> []" and "hasPrefix u (authorizationURL snap @ ''/'')"
      and "wkFetched st' = wkFetched st @ u # n" and "set n \<subseteq> {authorizationURL snap @ openIDConfigurationEndpoint}"
      and "\<forall>m hs. resp = WKServed m hs \<longrightarrow>
        m \<in> range (applyConfigOverrides snap) \<and> (\<forall>(k, _) \<in> set hs. canonical k \<in> set allowedResponseHeaders)"
proof -
  let ?a = "authorizationURL snap" and ?e = "matchWellKnownEndpoint (wqEscapedPath r)"
  show thesis
  proof (cases "?a = [] \<or> ?e = [] \<or> (\<forall>u. join ?a ?e = Some u \<longrightarrow> \<not> hasPrefix u (?a @ ''/''))")
    case True
    then have "st' = st \<and> (\<exists>e. resp = WKError e)"
      using assms by (auto simp: wellKnownServe_def Let_def split: if_splits option.splits)
    then show thesis using that(1) by blast
  next
    case False
    then obtain u where u: "?a \<noteq> []" "?e \<noteq> []" "join ?a ?e = Some u" "hasPrefix u (?a @ ''/'')" by blast
    obtain res1 st1 where f: "fetchWellKnownEndpointFromRequest up (wqMethod r) u st = (res1, st1)" by force
    obtain res2 st2 where g: "generateMetadata up now c r ?a ?e st1 = (res2, st2)" by force
    from generate_fetched [OF g] obtain n where n: "wkFetched st2 = wkFetched st1 @ n"
      "set n \<subseteq> {?a @ openIDConfigurationEndpoint}" by blast
    have step: "(wkFetched st' = wkFetched st1 \<or> wkFetched st' = wkFetched st2)
      \<and> (\<forall>m hs. resp = WKServed m hs \<longrightarrow>
        m \<in> range (applyConfigOverrides snap) \<and> (\<forall>(k, _) \<in> set hs. canonical k \<in> set allowedResponseHeaders))"
      using assms u f g
      by (cases res1; cases res2) (auto simp: wellKnownServe_def Let_def split: if_splits option.splits)
    then show thesis using that(2) [OF u(1,3,2,4), of "if wkFetched st' = wkFetched st1 then [] else n"]
        fetch_fetched [OF f] n by auto
  qed
qed

text \<open>
  C37. The proxy for the well-known documents asks no URL but the three well-known documents of the
  configured authorization server, whatever path the client sent, and what it serves obeys the
  configuration: no registration endpoint when dynamic registration is disabled, the configured
  scopes, and only allowed headers of the upstream answer.
\<close>

theorem well_known_proxy_is_confined:
  assumes "wellKnownServe join canonical marshals up now c snap r st = (resp, st')"
  shows "(\<exists>n. wkFetched st' = wkFetched st @ n \<and> (\<forall>u \<in> set n. authorizationURL snap \<noteq> []
        \<and> (u = authorizationURL snap @ openIDConfigurationEndpoint
          \<or> (\<exists>ep \<in> set WellKnownEndpoints. join (authorizationURL snap) ep = Some u \<and> hasPrefix u (authorizationURL snap @ ''/'')))))
    \<and> (\<forall>m hs. resp = WKServed m hs \<longrightarrow>
        (\<exists>s. snap = Some s
          \<and> (snDisableDynamicClientRegistration s \<longrightarrow> map_of m ''registration_endpoint'' = None)
          \<and> (snOAuthScopes s \<noteq> [] \<longrightarrow> map_of m ''scopes_supported'' = Some (GList (map GStr (snOAuthScopes s)))))
        \<and> (\<forall>(k, _) \<in> set hs. canonical k \<in> set allowedResponseHeaders))"
proof (rule wellKnownServe_cases [OF assms], goal_cases)
  case 1
  then show ?case by (intro conjI exI [of _ "[]"]) auto
next
  case (2 u n)
  then have "matchWellKnownEndpoint (wqEscapedPath r) \<in> set WellKnownEndpoints" using matchWellKnownEndpoint_in by blast
  moreover obtain s where "snap = Some s" using 2(1) by (auto simp: authorizationURL_def split: option.splits)
  ultimately show ?case using 2
    by (intro conjI exI [of _ "u # n"])
      (auto simp: subset_iff applyConfigOverrides_obeys(1) [OF refl] applyConfigOverrides_obeys(2) [OF refl])
qed

theorem well_known_proxy_is_confined_witness:
  "\<exists>m hs st. wellKnownServe (\<lambda>a e. Some (a @ e)) id (\<lambda>_. True)
      (\<lambda>_ _. Answer 200 (Doc [(''issuer'', GStr ''https://sso''), (''registration_endpoint'', GStr ''https://sso/reg'')])
        [(''Set-Cookie'', [''x'']), (''Etag'', [''1''])]) 0
      \<lparr>auMetricsPort = [], auRequireOAuth = True, auOAuthAudience = [], auSkipJWTVerification = False,
       auAuthorizationURL = ''https://sso'', auServerURL = [], auTrustProxyHeaders = False, auMaxBodyBytes = 0\<rparr>
      (Some \<lparr>snProvider = Some (), snHTTPClient = None, snFields = \<lparr>pfAuthorizationURL = ''https://sso/'', pfCertificateAuthority = [],
          pfTLSMinVersion = [], pfTLSCipherSuites = []\<rparr>, snOAuthScopes = [], snDisableDynamicClientRegistration = True\<rparr>)
      \<lparr>wqMethod = ''GET'', wqPath = ''/.well-known/openid-configuration'', wqEscapedPath = ''/.well-known/openid-configuration'',
       wqHost = [], wqRemoteAddr = [], wqTLS = True, wqHeader = (\<lambda>_. [])\<rparr>
      \<lparr>wkCache = None, wkCacheTime = 0, wkCacheURL = [], wkFetched = []\<rparr> = (WKServed m hs, st)
    \<and> map_of m ''registration_endpoint'' = None"
  (is "\<exists>m hs st. ?call = (WKServed m hs, st) \<and> _")
proof -
  have "\<exists>m hs st. ?call = (WKServed m hs, st)"
    by (simp add: wellKnownServe_def authorizationURL_def trimSuffix_def hasSuffix_def matchWellKnownEndpoint_def
        WellKnownEndpoints_def oauthAuthorizationServerEndpoint_def oauthProtectedResourceEndpoint_def
        openIDConfigurationEndpoint_def hasPrefix_def fetchWellKnownEndpointFromRequest_def Let_def)
  then obtain m hs st where call: "?call = (WKServed m hs, st)" by blast
  from well_known_proxy_is_confined [OF call] call show ?thesis by auto
qed

end
