(* ===== verification/Config_Views.thy ===== *)
theory Config_Views
  imports Config_Schema HTTP_Auth Tool_Surface
begin

text \<open>
  How the components read a loaded configuration: \<open>Option.Get\<close> at the path of an option, and the
  records of the validation, the HTTP middleware, the OAuth state and the MCP surface as functions
  of one and the same configuration.
\<close>

section \<open>Reading options\<close>

definition optGet :: "'x config \<Rightarrow> string \<Rightarrow> goVal" where
  "optGet cfg path = (case map_of (cfOptions cfg) path of None \<Rightarrow> GNil | Some o1 \<Rightarrow> opValue o1)"

fun strOf :: "goVal \<Rightarrow> string" where
  "strOf (GStr s) = s"
| "strOf _ = []"

fun boolOf :: "goVal \<Rightarrow> bool" where
  "boolOf (GBool b) = b"
| "boolOf _ = False"

fun boolPtrOf :: "goVal \<Rightarrow> bool option" where
  "boolPtrOf (GBool b) = Some b"
| "boolPtrOf _ = None"

fun intOf :: "goVal \<Rightarrow> int" where
  "intOf (GInt n) = n"
| "intOf (GInt64 n) = n"
| "intOf _ = 0"

fun floatOf :: "goVal \<Rightarrow> goFloat" where
  "floatOf (GFloat f) = f"
| "floatOf _ = Float 0 0"

text \<open>A nil slice or map is None.\<close>

fun listOf :: "goVal \<Rightarrow> goVal list option" where
  "listOf (GList xs) = Some xs"
| "listOf _ = None"

fun fieldOf :: "goVal \<Rightarrow> string \<Rightarrow> goVal" where
  "fieldOf (GMap m) k = (case map_of m k of None \<Rightarrow> GNil | Some v \<Rightarrow> v)"
| "fieldOf _ k = GNil"

definition itemsOf :: "goVal \<Rightarrow> goVal list" where
  "itemsOf v = (case listOf v of None \<Rightarrow> [] | Some xs \<Rightarrow> xs)"

definition stringsOf :: "goVal \<Rightarrow> string list option" where
  "stringsOf v = map_option (map strOf) (listOf v)"

definition ruleOf :: "goVal \<Rightarrow> confirmationRule" where
  "ruleOf v =
     \<lparr>crTool = strOf (fieldOf v ''tool''), crDestructive = boolPtrOf (fieldOf v ''destructive''),
      crVerb = strOf (fieldOf v ''verb''), crKind = strOf (fieldOf v ''kind''), crGroup = strOf (fieldOf v ''group''),
      crVersion = strOf (fieldOf v ''version''), crName = strOf (fieldOf v ''name''),
      crNamespace = strOf (fieldOf v ''namespace''), crMessage = strOf (fieldOf v ''message'')\<rparr>"

definition promptOf :: "goVal \<Rightarrow> configPrompt" where
  "promptOf v =
     \<lparr>cpName = strOf (fieldOf v ''name''), cpTitle = strOf (fieldOf v ''title''),
      cpDescription = strOf (fieldOf v ''description''),
      cpArguments = map (\<lambda>a. \<lparr>paName = strOf (fieldOf a ''name''), paDescription = strOf (fieldOf a ''description''),
        paRequired = boolOf (fieldOf a ''required'')\<rparr>) (itemsOf (fieldOf v ''arguments'')),
      cpTemplates = map (\<lambda>t. \<lparr>ptRole = strOf (fieldOf t ''role''), ptContent = strOf (fieldOf t ''content'')\<rparr>)
        (itemsOf (fieldOf v ''messages''))\<rparr>"

fun overridesOf :: "goVal \<Rightarrow> (string \<rightharpoonup> string) option" where
  "overridesOf (GMap m) = Some (\<lambda>n. map_option (\<lambda>o1. strOf (fieldOf o1 ''description'')) (map_of m n))"
| "overridesOf _ = None"

section \<open>The views\<close>

definition tokenExchangeHasNonDefault :: "'x config \<Rightarrow> bool" where
  "tokenExchangeHasNonDefault cfg =
     list_ex (\<lambda>(path, o1). hasPrefix path ''token_exchange.'' \<and> opSource o1 \<noteq> SourceDefault) (cfOptions cfg)"

text \<open>
  \<open>providers\<close> and \<open>exchangers\<close> are the registered strategies that \<open>validateConfig\<close> sets on the
  configuration first; \<open>xtls\<close> is the TLS check of an extension that has one.
\<close>

definition valuesView ::
    "string list \<Rightarrow> string list \<Rightarrow> ('x \<Rightarrow> (bool \<Rightarrow> string option) option) \<Rightarrow> 'x config \<Rightarrow> cfgValues" where
  "valuesView providers exchangers xtls cfg =
     (let str = (\<lambda>p. strOf (optGet cfg p)); bool = (\<lambda>p. boolOf (optGet cfg p)); int = (\<lambda>p. intOf (optGet cfg p))
      in \<lparr>cvPort = str ''port'', cvMetricsPort = str ''metrics_port'', cvListOutput = str ''list_output'',
          cvMaxBackendResponseBytes = int ''max_backend_response_bytes'', cvMaxInFlight = int ''max_in_flight'',
          cvMaxResultBytes = int ''max_result_bytes'', cvClusterProviderStrategy = str ''cluster_provider_strategy'',
          cvClusterAuthMode = str ''cluster_auth_mode'', cvConfirmationFallback = str ''confirmation_fallback'',
          cvConfirmationRules = map ruleOf (itemsOf (optGet cfg ''confirmation_rules'')),
          cvTLSCert = str ''tls_cert'', cvTLSKey = str ''tls_key'', cvRequireTLS = bool ''require_tls'',
          cvTLSMinVersion = str ''tls_min_version'', cvTLSCipherSuites = map strOf (itemsOf (optGet cfg ''tls_cipher_suites'')),
          cvRateLimitRPS = floatOf (optGet cfg ''http.rate_limit_rps''), cvRateLimitBurst = int ''http.rate_limit_burst'',
          cvRequireOAuth = bool ''require_oauth'', cvOAuthAudience = str ''oauth_audience'',
          cvAuthorizationURL = str ''authorization_url'', cvSkipJWTVerification = bool ''skip_jwt_verification'',
          cvServerURL = str ''server_url'', cvCertificateAuthority = str ''certificate_authority'',
          cvTokenExchangePresent = cfTokenExchangePresent cfg, cvTokenExchangeNonDefault = tokenExchangeHasNonDefault cfg,
          cvStrategy = str ''token_exchange.strategy'', cvTokenURL = str ''token_exchange.token_url'',
          cvMethod = str ''token_exchange.client_auth.method'', cvClientID = str ''token_exchange.client_auth.client_id'',
          cvClientSecret = str ''token_exchange.client_auth.client_secret'',
          cvCertificateFile = str ''token_exchange.client_auth.certificate_file'',
          cvPrivateKeyFile = str ''token_exchange.client_auth.private_key_file'',
          cvTokenFile = str ''token_exchange.client_auth.token_file'',
          cvProviderStrategies = providers, cvTokenExchangeStrategies = exchangers,
          cvToolsetTLS = map (\<lambda>(n, x). (n, xtls x)) (cfToolsetConfigs cfg),
          cvProviderTLS = map (\<lambda>(n, x). (n, xtls x)) (cfProviderConfigs cfg)\<rparr>)"

definition authView :: "'x config \<Rightarrow> authConfig" where
  "authView cfg =
     \<lparr>auMetricsPort = strOf (optGet cfg ''metrics_port''), auRequireOAuth = boolOf (optGet cfg ''require_oauth''),
      auOAuthAudience = strOf (optGet cfg ''oauth_audience''),
      auSkipJWTVerification = boolOf (optGet cfg ''skip_jwt_verification''),
      auAuthorizationURL = strOf (optGet cfg ''authorization_url''), auServerURL = strOf (optGet cfg ''server_url''),
      auTrustProxyHeaders = boolOf (optGet cfg ''trust_proxy_headers''),
      auMaxBodyBytes = intOf (optGet cfg ''http.max_body_bytes'')\<rparr>"

definition oauthView :: "'x config \<Rightarrow> oauthConfig" where
  "oauthView cfg =
     \<lparr>ocFields = \<lparr>pfAuthorizationURL = strOf (optGet cfg ''authorization_url''),
        pfCertificateAuthority = strOf (optGet cfg ''certificate_authority''),
        pfTLSMinVersion = strOf (optGet cfg ''tls_min_version''),
        pfTLSCipherSuites = map strOf (itemsOf (optGet cfg ''tls_cipher_suites''))\<rparr>,
      ocRequireTLS = boolOf (optGet cfg ''require_tls''),
      ocOAuthScopes = map strOf (itemsOf (optGet cfg ''oauth_scopes'')),
      ocDisableDynamicClientRegistration = boolOf (optGet cfg ''disable_dynamic_client_registration'')\<rparr>"

definition surfaceView :: "'x config \<Rightarrow> surfaceCfg" where
  "surfaceView cfg =
     \<lparr>sfReadOnly = boolOf (optGet cfg ''read_only''), sfDisableDestructive = boolOf (optGet cfg ''disable_destructive''),
      sfEnabledTools = stringsOf (optGet cfg ''enabled_tools''),
      sfOptInTools = map strOf (itemsOf (optGet cfg ''opt_in_tools'')),
      sfDisabledTools = stringsOf (optGet cfg ''disabled_tools''),
      sfCompatibilityFilters = boolOf (optGet cfg ''experimental_enable_target_compatibility_tool_filters''),
      sfAppsEnabled = boolOf (optGet cfg ''apps_enabled''), sfToolOverrides = overridesOf (optGet cfg ''tool_overrides''),
      sfToolsets = map strOf (itemsOf (optGet cfg ''toolsets'')),
      sfPrompts = map promptOf (itemsOf (optGet cfg ''prompts''))\<rparr>"

lemma views_agree:
  "auAuthorizationURL (authView cfg) = cvAuthorizationURL (valuesView ps es xtls cfg)"
  "pfAuthorizationURL (ocFields (oauthView cfg)) = cvAuthorizationURL (valuesView ps es xtls cfg)"
  "auRequireOAuth (authView cfg) = cvRequireOAuth (valuesView ps es xtls cfg)"
  "auSkipJWTVerification (authView cfg) = cvSkipJWTVerification (valuesView ps es xtls cfg)"
  by (simp_all add: authView_def oauthView_def valuesView_def Let_def)

end
