(* ===== verification/Process.thy ===== *)
theory Process
  imports Config_Views Registries
begin

text \<open>
  \<open>pkg/kubernetes-mcp-server/cmd/root.go\<close>: the life of the process. The command line selects the
  configuration (\<open>Complete\<close>), it is validated, \<open>Run\<close> publishes it together with the OAuth
  snapshot, and every SIGHUP reads it again, discovers the provider, publishes both and reloads
  the MCP server, or takes everything back. The published states are listed one by one, so that
  requests served in between can be placed among them.
\<close>

section \<open>Selecting and validating the configuration\<close>

definition stdinConfigPath :: string where "stdinConfigPath = ''-''"

record mcpOptions =
  moConfigPath :: string
  moConfigDir :: string
  moStdinConfig :: string

text \<open>
  What the process meets at one moment: environment, files and standard input, the registries,
  the OIDC library, the MCP surface and the provider's own reload. \<open>weValAgain\<close> is the file system
  and so on as the second validation, inside the reload of the MCP server, finds them.
\<close>

record ('x, 'p, 'c) world =
  weCfg :: "'x cfgEnv"
  weFS :: cfgFS
  weDecode :: "string \<Rightarrow> string + goMap"
  weDirOf :: "string \<Rightarrow> string"
  weWorkingDir :: string
  weConfigPathEnv :: string
  weStdin :: "string + string"
  weToolsets :: "'c toolset goRegistry"
  weProviders :: "string list"
  weExchangers :: "string list"
  weExtTLS :: "'x \<Rightarrow> (bool \<Rightarrow> string option) option"
  weVal :: valLib
  weValAgain :: valLib
  weOIDC :: "'p oidcLib"
  weSurface :: surfaceEnv
  weProviderReload :: "surfaceCfg \<Rightarrow> string option"

definition cmdReadConfig :: "('x, 'p, 'c) world \<Rightarrow> mcpOptions \<Rightarrow> 'x config option \<Rightarrow> cfgErr + 'x config" where
  "cmdReadConfig w m previous =
     (let st = \<lparr>lsDirPath = [], lsPrevious = previous, lsBaseDefault = False\<rparr>
      in if moConfigPath m = stdinConfigPath
         then ReadStdin (weCfg w) (weFS w) (weDecode w) (weWorkingDir w) (moStdinConfig m) (moConfigDir m) st
         else Read (weCfg w) (weFS w) (weDecode w) (weDirOf w) (moConfigPath m) (moConfigDir m) st)"

datatype completeErr = StdinUnreadable string | ConfigUnreadable cfgErr

definition Complete :: "('x, 'p, 'c) world \<Rightarrow> mcpOptions \<Rightarrow> completeErr + mcpOptions \<times> 'x config" where
  "Complete w m =
     (let m = (if moConfigPath m = [] \<and> weConfigPathEnv w \<noteq> [] then m\<lparr>moConfigPath := weConfigPathEnv w\<rparr> else m)
      in (case (if moConfigPath m = stdinConfigPath
                then map_sum StdinUnreadable (\<lambda>text. m\<lparr>moStdinConfig := text\<rparr>) (weStdin w) else Inr m) of
            Inl err \<Rightarrow> Inl err
          | Inr m \<Rightarrow>
              map_sum ConfigUnreadable (Pair m)
                (if moConfigPath m \<noteq> [] \<or> moConfigDir m \<noteq> [] then cmdReadConfig w m None
                 else ReadToml (weCfg w) (weDecode w) [] \<lparr>lsDirPath = [], lsPrevious = None, lsBaseDefault = False\<rparr>)))"

datatype cmdErr = UnknownToolsets "string list" "string list" | ConfigInvalid valErr | StdinNeedsHTTP

definition validateWith :: "valLib \<Rightarrow> ('x, 'p, 'c) world \<Rightarrow> 'x config \<Rightarrow> cmdErr list" where
  "validateWith lib w cfg =
     (case toolsetsValidate (sfToolsets (surfaceView cfg)) (weToolsets w) of
        None \<Rightarrow> [] | Some (unknown, names) \<Rightarrow> [UnknownToolsets unknown names])
     @ map ConfigInvalid (configValidate lib (valuesView (weProviders w) (weExchangers w) (weExtTLS w) cfg))"

definition validateConfig :: "('x, 'p, 'c) world \<Rightarrow> 'x config \<Rightarrow> cmdErr list" where
  "validateConfig w cfg = validateWith (weVal w) w cfg"

definition cmdValidate :: "('x, 'p, 'c) world \<Rightarrow> mcpOptions \<Rightarrow> 'x config \<Rightarrow> cmdErr list" where
  "cmdValidate w m cfg =
     (if moConfigPath m = stdinConfigPath \<and> strOf (optGet cfg ''port'') = [] then [StdinNeedsHTTP] else [])
     @ validateConfig w cfg"

section \<open>The published state\<close>

record ('x, 'p, 't, 'q, 'r) process =
  prConfig :: "'x config"
  prOAuth :: "'p snapshot option"
  prServer :: "('t, 'q, 'r) mcpServer"
  prExited :: bool

text \<open>
  \<open>Run\<close> up to the point where it serves. \<open>newProvider\<close> stands for the construction of the provider and
  gives its error; \<open>sdk\<close> is the new SDK server.
\<close>

datatype runErr = OIDCFailed oidcErr | ProviderFailed string | ServerFailed surfaceErr

definition Run :: "('x, 'p, 'c) world \<Rightarrow> ('t, 'q, 'r) sdkOps \<Rightarrow> ('t, 'q, 'r) mcpServer \<Rightarrow> (surfaceCfg \<Rightarrow> string option) \<Rightarrow> 'x config \<Rightarrow>
    runErr + ('x, 'p, 't, 'q, 'r) process" where
  "Run w so sdk newProvider cfg =
     (case CreateOIDCProviderAndClient (weOIDC w) (oauthView cfg) of
        Inl err \<Rightarrow> Inl (OIDCFailed err)
      | Inr (provider, client) \<Rightarrow>
          (case newProvider (surfaceView cfg) of
             Some err \<Rightarrow> Inl (ProviderFailed err)
           | None \<Rightarrow>
               (case NewServer (weSurface w) so sdk (surfaceView cfg) of
                  Inl err \<Rightarrow> Inl (ServerFailed err)
                | Inr srv \<Rightarrow>
                    Inr \<lparr>prConfig = cfg, prOAuth = Some (SnapshotFromConfig (oauthView cfg) provider client),
                         prServer = srv, prExited = False\<rparr>)))"

datatype hupResult =
    HupReadFailed cfgErr
  | HupInvalid "cmdErr list"
  | HupDiscoveryFailed oidcErr
  | HupReloadFailed reloadErr
  | HupReloaded

text \<open>One SIGHUP: its result and the states it publishes, in order.\<close>

definition sighup ::
    "('t, 'q, 'r) sdkOps \<Rightarrow> mcpOptions \<Rightarrow> ('x, 'p, 'c) world \<Rightarrow> ('x, 'p, 't, 'q, 'r) process \<Rightarrow>
     hupResult \<times> ('x, 'p, 't, 'q, 'r) process list" where
  "sighup so m w s =
     (case cmdReadConfig w m (Some (prConfig s)) of
        Inl err \<Rightarrow> (HupReadFailed err, [s\<lparr>prExited := True\<rparr>])
      | Inr nxtConfig \<Rightarrow>
          if validateConfig w nxtConfig \<noteq> [] then (HupInvalid (validateConfig w nxtConfig), [s\<lparr>prExited := True\<rparr>])
          else
            let prev = prConfig s;
                prevOAuth = (case prOAuth s of None \<Rightarrow> emptySnapshot | Some a \<Rightarrow> a)
            in (case SnapshotForReload (weOIDC w) (Some prevOAuth) (oauthView nxtConfig) of
                  Inl err \<Rightarrow> (HupDiscoveryFailed err, [])
                | Inr nextOAuth \<Rightarrow>
                    let oauthChanged = HasWellKnownConfigChanged (Some prevOAuth) (Some nextOAuth);
                        s1 = (if oauthChanged then s\<lparr>prOAuth := Some nextOAuth\<rparr> else s);
                        s2 = s1\<lparr>prConfig := nxtConfig\<rparr>;
                        (err, srv) = ReloadConfiguration (weSurface w) so
                          (\<lambda>_. if validateWith (weValAgain w) w nxtConfig = [] then None else Some ''invalid'')
                          (weProviderReload w) (surfaceView nxtConfig) (prServer s2);
                        s3 = s2\<lparr>prServer := srv\<rparr>
                    in (case err of
                          None \<Rightarrow> (HupReloaded, [s1, s2, s3])
                        | Some e \<Rightarrow>
                            let s4 = s3\<lparr>prConfig := prev\<rparr>;
                                s5 = (if oauthChanged then s4\<lparr>prOAuth := Some prevOAuth\<rparr> else s4);
                                s6 = (case e of ReloadRejected _ \<Rightarrow> s5\<lparr>prExited := True\<rparr> | _ \<Rightarrow> s5)
                            in (HupReloadFailed e, [s1, s2, s3, s4, s5, s6]))))"

definition hupStates ::
    "('t, 'q, 'r) sdkOps \<Rightarrow> mcpOptions \<Rightarrow> ('x, 'p, 'c) world \<Rightarrow> ('x, 'p, 't, 'q, 'r) process \<Rightarrow>
     ('x, 'p, 't, 'q, 'r) process list" where
  "hupStates so m w s = s # snd (sighup so m w s)"

section \<open>One SIGHUP\<close>

text \<open>The snapshot carries the OAuth settings of a configuration.\<close>

definition snapshotFor :: "'x config \<Rightarrow> 'p snapshot \<Rightarrow> bool" where
  "snapshotFor cfg a \<longleftrightarrow> snFields a = ocFields (oauthView cfg) \<and> snOAuthScopes a = ocOAuthScopes (oauthView cfg)
     \<and> snDisableDynamicClientRegistration a = ocDisableDynamicClientRegistration (oauthView cfg)"

text \<open>The reload of the MCP server that a SIGHUP makes.\<close>

definition hupReloadMCP ::
    "('t, 'q, 'r) sdkOps \<Rightarrow> ('x, 'p, 'c) world \<Rightarrow> 'x config \<Rightarrow> ('t, 'q, 'r) mcpServer \<Rightarrow> reloadErr option \<times> ('t, 'q, 'r) mcpServer" where
  "hupReloadMCP so w nc srv =
     ReloadConfiguration (weSurface w) so (\<lambda>_. if validateWith (weValAgain w) w nc = [] then None else Some ''invalid'')
       (weProviderReload w) (surfaceView nc) srv"

lemma ReloadConfiguration_config:
  assumes "ReloadConfiguration env so v pr c s = (err, s')"
  shows "svConfig s' = (if err = None then c else svConfig s)"
  using assms
  by (auto simp: ReloadConfiguration_def applyToolsetsLocked_def commitSteps_def runSteps_def Let_def
      split: option.splits sum.splits if_splits)

lemma SnapshotForReload_for:
  assumes "SnapshotForReload ol current (oauthView cfg) = Inr nx"
  shows "snapshotFor cfg nx"
  using assms by (auto simp: SnapshotForReload_def snapshotFor_def Let_def split: if_splits sum.splits)

text \<open>The snapshot that is published with the new configuration: the old one when nothing changed.\<close>

definition publishedSnapshot :: "'p snapshot \<Rightarrow> 'p snapshot \<Rightarrow> 'p snapshot" where
  "publishedSnapshot a nx = (if HasWellKnownConfigChanged (Some a) (Some nx) then nx else a)"

lemma publishedSnapshot_for: "snapshotFor cfg nx \<Longrightarrow> snapshotFor cfg (publishedSnapshot a nx)"
  by (auto simp: publishedSnapshot_def snapshotFor_def HasWellKnownConfigChanged_def HasProviderConfigChanged_Some)

lemma publishedSnapshot_matches: "providerMatches W a \<Longrightarrow> providerMatches W nx \<Longrightarrow> providerMatches W (publishedSnapshot a nx)"
  by (simp add: publishedSnapshot_def)

lemma sighup_cases:
  fixes s :: "('x, 'p, 't, 'q, 'r) process"
  assumes "prOAuth s = Some a"
  obtains (quiet) res where "res \<noteq> HupReloaded" "\<And>e. res \<noteq> HupReloadFailed e"
      "sighup so m w s = (res, []) \<or> sighup so m w s = (res, [s\<lparr>prExited := True\<rparr>])"
  | (reloaded) nc nx srv where
      "cmdReadConfig w m (Some (prConfig s)) = Inr nc" "validateConfig w nc = []" "SnapshotForReload (weOIDC w) (Some a) (oauthView nc) = Inr nx"
      "hupReloadMCP so w nc (prServer s) = (None, srv)"
      "sighup so m w s = (HupReloaded,
         [s\<lparr>prOAuth := Some (publishedSnapshot a nx)\<rparr>,
          s\<lparr>prOAuth := Some (publishedSnapshot a nx), prConfig := nc\<rparr>,
          s\<lparr>prOAuth := Some (publishedSnapshot a nx), prConfig := nc, prServer := srv\<rparr>])"
  | (rolledBack) nc nx srv e b where
      "cmdReadConfig w m (Some (prConfig s)) = Inr nc" "validateConfig w nc = []" "SnapshotForReload (weOIDC w) (Some a) (oauthView nc) = Inr nx"
      "hupReloadMCP so w nc (prServer s) = (Some e, srv)"
      "sighup so m w s = (HupReloadFailed e,
         [s\<lparr>prOAuth := Some (publishedSnapshot a nx)\<rparr>,
          s\<lparr>prOAuth := Some (publishedSnapshot a nx), prConfig := nc\<rparr>,
          s\<lparr>prOAuth := Some (publishedSnapshot a nx), prConfig := nc, prServer := srv\<rparr>,
          s\<lparr>prOAuth := Some (publishedSnapshot a nx), prServer := srv\<rparr>,
          s\<lparr>prServer := srv\<rparr>, s\<lparr>prServer := srv, prExited := b\<rparr>])"
proof (cases "cmdReadConfig w m (Some (prConfig s))")
  case (Inl e)
  then show thesis by (intro quiet [of "HupReadFailed e"]) (simp_all add: sighup_def)
next
  case nc: (Inr nc)
  show thesis
  proof (cases "validateConfig w nc = []")
    case False
    then show thesis using nc by (intro quiet [of "HupInvalid (validateConfig w nc)"]) (simp_all add: sighup_def)
  next
    case True
    show thesis
    proof (cases "SnapshotForReload (weOIDC w) (Some a) (oauthView nc)")
      case (Inl e)
      then show thesis using nc True assms by (intro quiet [of "HupDiscoveryFailed e"]) (simp_all add: sighup_def)
    next
      case nx: (Inr nx)
      obtain err srv where r: "ReloadConfiguration (weSurface w) so
          (\<lambda>_. if validateWith (weValAgain w) w nc = [] then None else Some ''invalid'')
          (weProviderReload w) (surfaceView nc) (prServer s) = (err, srv)" by (metis prod.exhaust)
      show thesis
      proof (cases err)
        case None
        have "sighup so m w s = (HupReloaded,
           [s\<lparr>prOAuth := Some (publishedSnapshot a nx)\<rparr>,
            s\<lparr>prOAuth := Some (publishedSnapshot a nx), prConfig := nc\<rparr>,
            s\<lparr>prOAuth := Some (publishedSnapshot a nx), prConfig := nc, prServer := srv\<rparr>])"
          using nc True nx assms r None by (cases s) (simp add: sighup_def publishedSnapshot_def Let_def)
        then show thesis using r None by (intro reloaded [OF nc True nx]) (simp_all add: hupReloadMCP_def)
      next
        case (Some e)
        let ?b = "case e of ReloadRejected _ \<Rightarrow> True | _ \<Rightarrow> prExited s"
        have "sighup so m w s = (HupReloadFailed e,
         [s\<lparr>prOAuth := Some (publishedSnapshot a nx)\<rparr>,
          s\<lparr>prOAuth := Some (publishedSnapshot a nx), prConfig := nc\<rparr>,
          s\<lparr>prOAuth := Some (publishedSnapshot a nx), prConfig := nc, prServer := srv\<rparr>,
          s\<lparr>prOAuth := Some (publishedSnapshot a nx), prServer := srv\<rparr>,
          s\<lparr>prServer := srv\<rparr>, s\<lparr>prServer := srv, prExited := ?b\<rparr>])"
          using nc True nx assms r Some by (cases s; cases e) (simp_all add: sighup_def publishedSnapshot_def Let_def)
        then show thesis using r Some by (intro rolledBack [OF nc True nx]) (simp_all add: hupReloadMCP_def)
      qed
    qed
  qed
qed

section \<open>Histories\<close>

text \<open>
  A process starts on a validated configuration and handles one SIGHUP after the other, each in
  one of the worlds \<open>W\<close>, until it exits; in between the watchers have the surface installed anew.
\<close>

inductive running ::
    "('t, 'q, 'r) sdkOps \<Rightarrow> mcpOptions \<Rightarrow> ('x, 'p, 'c) world set \<Rightarrow> ('x, 'p, 't, 'q, 'r) process \<Rightarrow> bool"
  for so :: "('t, 'q, 'r) sdkOps" and m :: mcpOptions and W :: "('x, 'p, 'c) world set" where
  start: "\<lbrakk>w \<in> W; cmdValidate w m cfg = []; emptySdk so sdk; Run w so sdk newProvider cfg = Inr s\<rbrakk> \<Longrightarrow> running so m W s"
| hup: "\<lbrakk>running so m W s; \<not> prExited s; w \<in> W; s' = last (hupStates so m w s)\<rbrakk> \<Longrightarrow> running so m W s'"
| watch: "\<lbrakk>running so m W s; \<not> prExited s; w \<in> W\<rbrakk> \<Longrightarrow>
    running so m W (s\<lparr>prServer := reapplyToolsets (weSurface w) so (prServer s)\<rparr>)"

definition consistent :: "('x, 'p, 'c) world set \<Rightarrow> ('x, 'p, 't, 'q, 'r) process \<Rightarrow> bool" where
  "consistent W s \<longleftrightarrow> (\<exists>w \<in> W. validateConfig w (prConfig s) = [])
     \<and> (\<exists>a. prOAuth s = Some a \<and> snapshotFor (prConfig s) a \<and> providerMatches (weOIDC ` W) a)"

lemma consistent_exit [simp]: "consistent W (s\<lparr>prExited := b\<rparr>) = consistent W s"
  and consistent_server [simp]: "consistent W (s\<lparr>prServer := srv\<rparr>) = consistent W s"
  by (simp_all add: consistent_def)

lemma Run_process:
  assumes "Run w so sdk newProvider cfg = Inr s"
  obtains provider client where "CreateOIDCProviderAndClient (weOIDC w) (oauthView cfg) = Inr (provider, client)"
    "NewServer (weSurface w) so sdk (surfaceView cfg) = Inr (prServer s)" "prConfig s = cfg"
    "prOAuth s = Some (SnapshotFromConfig (oauthView cfg) provider client)"
  using assms by (auto simp: Run_def split: sum.splits prod.splits option.splits)

lemma consistent_start:
  assumes "w \<in> W" "cmdValidate w m cfg = []" "Run w so sdk newProvider cfg = Inr s"
  shows "consistent W s"
proof (rule Run_process [OF assms(3)])
  fix provider client
  assume c: "CreateOIDCProviderAndClient (weOIDC w) (oauthView cfg) = Inr (provider, client)" "prConfig s = cfg"
    "prOAuth s = Some (SnapshotFromConfig (oauthView cfg) provider client)"
  have "providerMatches (weOIDC ` W) (SnapshotFromConfig (oauthView cfg) provider client)"
    by (rule Create_matches [OF _ c(1)]) (use assms(1) in simp_all)
  then show ?thesis using assms(1,2) c by (auto simp: consistent_def cmdValidate_def snapshotFor_def)
qed

lemma consistent_hup:
  assumes "consistent W s" "w \<in> W"
  shows "consistent W (last (hupStates so m w s))"
proof -
  from assms(1) obtain a where a: "prOAuth s = Some a" "snapshotFor (prConfig s) a" "providerMatches (weOIDC ` W) a"
    by (auto simp: consistent_def)
  have nx: "snapshotFor nc (publishedSnapshot a nx) \<and> providerMatches (weOIDC ` W) (publishedSnapshot a nx)"
    if r: "SnapshotForReload (weOIDC w) (Some a) (oauthView nc) = Inr nx" for nc nx
  proof -
    have "providerMatches (weOIDC ` W) nx"
      using SnapshotForReload_matches [OF _ _ r, of "weOIDC ` W"] a(3) assms(2) by simp
    then show ?thesis using SnapshotForReload_for [OF r] a(3) publishedSnapshot_for publishedSnapshot_matches by blast
  qed
  from a(1) show ?thesis
  proof (cases rule: sighup_cases [where so = so and m = m and w = w])
    case (quiet res)
    then show ?thesis using assms(1) by (auto simp: hupStates_def)
  next
    case (reloaded nc nxs srv)
    then show ?thesis using assms(2) nx [OF reloaded(3)] by (auto simp: hupStates_def consistent_def)
  next
    case (rolledBack nc nxs srv e b)
    then show ?thesis using assms(1) a by (auto simp: hupStates_def)
  qed
qed

lemma running_consistent: "running so m W s \<Longrightarrow> consistent W s"
  by (induction rule: running.induct) (auto intro: consistent_start consistent_hup)

text \<open>The MCP server runs on the configuration and offers exactly its surface, as collected in one of the worlds.\<close>

definition surfaceInstalled ::
    "('t, 'q, 'r) sdkOps \<Rightarrow> ('x, 'p, 'c) world set \<Rightarrow> 'x config \<Rightarrow> ('t, 'q, 'r) mcpServer \<Rightarrow> bool" where
  "surfaceInstalled so W cfg srv \<longleftrightarrow> serverOk so srv \<and> svConfig srv = surfaceView cfg \<and> svKubernetes srv = surfaceView cfg
     \<and> (\<exists>w \<in> W. \<exists>pl. convertPhase (weSurface w) (surfaceView cfg) = Inr pl \<and> offers so pl srv)"

lemma surfaceInstalled_provider [simp]: "surfaceInstalled so W cfg (srv\<lparr>svProvider := x\<rparr>) = surfaceInstalled so W cfg srv"
  by (simp add: surfaceInstalled_def offers_def)

lemma surfaceInstalled_hup:
  assumes "sdkLaws so" "consistent W s" "surfaceInstalled so W (prConfig s) (prServer s)" "w \<in> W"
  shows "surfaceInstalled so W (prConfig (last (hupStates so m w s))) (prServer (last (hupStates so m w s)))"
proof -
  from assms(2) obtain a where "prOAuth s = Some a" by (auto simp: consistent_def)
  have ok: "serverOk so (prServer s)" using assms(3) by (simp add: surfaceInstalled_def)
  from \<open>prOAuth s = Some a\<close> show ?thesis
  proof (cases rule: sighup_cases [where so = so and m = m and w = w])
    case (quiet res)
    then show ?thesis using assms(3) by (auto simp: hupStates_def)
  next
    case (reloaded nc nxs srv)
    have "surfaceInstalled so W nc srv"
      using ReloadConfiguration_transactional [OF assms(1) ok reloaded(4) [unfolded hupReloadMCP_def]] assms(4)
      by (auto simp: surfaceInstalled_def)
    then show ?thesis using reloaded(5) by (simp add: hupStates_def)
  next
    case (rolledBack nc nxs srv e b)
    have "srv\<lparr>svProvider := svProvider (prServer s)\<rparr> = prServer s"
      using ReloadConfiguration_transactional [OF assms(1) ok rolledBack(4) [unfolded hupReloadMCP_def]] by simp
    then have "surfaceInstalled so W (prConfig s) srv" using assms(3) by (metis surfaceInstalled_provider)
    then show ?thesis using rolledBack(5) by (simp add: hupStates_def)
  qed
qed

lemma surfaceInstalled_reapply:
  assumes "sdkLaws so" "surfaceInstalled so W cfg srv" "w \<in> W"
  shows "surfaceInstalled so W cfg (reapplyToolsets (weSurface w) so srv)"
proof -
  obtain err srv' where r: "applyToolsetsLocked (weSurface w) so None srv = (err, srv')" by fastforce
  have "serverOk so srv" "svConfig srv = surfaceView cfg" using assms(2) by (simp_all add: surfaceInstalled_def)
  with applyToolsetsLocked_result [OF assms(1) _ r refl] assms(2,3) show ?thesis
    unfolding reapplyToolsets_def r snd_conv surfaceInstalled_def by (cases err) auto
qed

lemma running_installed:
  assumes "running so m W s" and laws: "sdkLaws so"
  shows "surfaceInstalled so W (prConfig s) (prServer s)"
  using assms(1)
proof (induction rule: running.induct)
  case (start w cfg sdk newProvider s)
  show ?case
  proof (rule Run_process [OF start.hyps(4)])
    assume new: "NewServer (weSurface w) so sdk (surfaceView cfg) = Inr (prServer s)" and cfg: "prConfig s = cfg"
    show ?thesis unfolding surfaceInstalled_def cfg using NewServer_result [OF laws start.hyps(3) new] start.hyps(1) by blast
  qed
next
  case (hup s w s')
  then show ?case using surfaceInstalled_hup [OF laws running_consistent] by blast
next
  case (watch s w)
  then show ?case using surfaceInstalled_reapply [OF laws] by simp
qed


section \<open>Requests during a reload\<close>

lemma validated_delegates:
  assumes "validateConfig w cfg = []" "auRequireOAuth (authView cfg)" "auAuthorizationURL (authView cfg) = []"
  shows "auSkipJWTVerification (authView cfg)"
proof -
  let ?c = "valuesView (weProviders w) (weExchangers w) (weExtTLS w) cfg"
  have "validateSkipJWTVerification ?c = []"
    using assms(1) by (simp add: validateConfig_def validateWith_def configValidate_def)
  then show ?thesis using assms(2,3)
    unfolding views_agree [of cfg "weProviders w" "weExchangers w" "weExtTLS w"]
    by (simp add: validateSkipJWTVerification_def split: if_splits)
qed

lemma states_during_hup:
  assumes "consistent W s" "w \<in> W" "i \<le> j" "j < length (hupStates so m w s)"
  shows "(\<exists>v \<in> W. validateConfig v (prConfig (hupStates so m w s ! i)) = [])
    \<and> (\<exists>b. prOAuth (hupStates so m w s ! j) = Some b
        \<and> (snapshotFor (prConfig (hupStates so m w s ! i)) b \<or> prConfig (hupStates so m w s ! i) = prConfig s
          \<or> (\<exists>e. fst (sighup so m w s) = HupReloadFailed e)))"
proof -
  from assms(1) obtain a v where a: "prOAuth s = Some a" "v \<in> W" "validateConfig v (prConfig s) = []"
    by (auto simp: consistent_def)
  from a(1) show ?thesis
  proof (cases rule: sighup_cases [where so = so and m = m and w = w])
    case (quiet res)
    then have "prConfig t = prConfig s \<and> prOAuth t = Some a" if "t \<in> set (hupStates so m w s)" for t
      using that a(1) by (auto simp: hupStates_def)
    from this [OF nth_mem [OF le_less_trans [OF assms(3,4)]]] this [OF nth_mem [OF assms(4)]]
    show ?thesis using a(2,3) by auto
  next
    case (reloaded nc nxs srv)
    have f: "snapshotFor nc (publishedSnapshot a nxs)"
      by (rule publishedSnapshot_for [OF SnapshotForReload_for [OF reloaded(3)]])
    have st: "hupStates so m w s =
        [s, s\<lparr>prOAuth := Some (publishedSnapshot a nxs)\<rparr>, s\<lparr>prOAuth := Some (publishedSnapshot a nxs), prConfig := nc\<rparr>,
         s\<lparr>prOAuth := Some (publishedSnapshot a nxs), prConfig := nc, prServer := srv\<rparr>]"
      by (simp only: hupStates_def reloaded(5) snd_conv)
    have j: "j = 0 \<or> j = 1 \<or> j = 2 \<or> j = 3" using assms(4) unfolding st by auto
    show ?thesis
    proof (cases "i < 2")
      case True
      then have "i = 0 \<or> i = 1" by auto
      then have "prConfig (hupStates so m w s ! i) = prConfig s" unfolding st by auto
      moreover have "\<exists>b. prOAuth (hupStates so m w s ! j) = Some b" using j a(1) unfolding st by auto
      ultimately show ?thesis using a(2,3) by auto
    next
      case False
      then have "i = 2 \<or> i = 3" "j = 2 \<or> j = 3" using assms(3) j by auto
      then have "prConfig (hupStates so m w s ! i) = nc" "prOAuth (hupStates so m w s ! j) = Some (publishedSnapshot a nxs)"
        unfolding st by auto
      then show ?thesis using assms(2) f reloaded(2) by auto
    qed
  next
    case (rolledBack nc nxs srv e b)
    then have "(\<exists>v \<in> W. validateConfig v (prConfig t) = []) \<and> (\<exists>b. prOAuth t = Some b)"
      if "t \<in> set (hupStates so m w s)" for t
      using that a assms(2) by (auto simp: hupStates_def)
    from this [OF nth_mem [OF le_less_trans [OF assms(3,4)]]] this [OF nth_mem [OF assms(4)]]
    show ?thesis using rolledBack(5) by (simp only: fst_conv) blast
  qed
qed

text \<open>
  C6. At every moment of its life, after any history of SIGHUPs with any outcomes and of reloads by
  the watchers, a process serves a configuration that passed validation; the OAuth snapshot has
  exactly the OAuth settings of that configuration, its provider and client were discovered with
  them (there is none without an authorization URL). The MCP server and its Kubernetes clients run
  on the same configuration, and the four catalogs of the server offer exactly the tools, prompts,
  resources and templates that were collected and converted for it, nothing of an older one.
\<close>

theorem process_serves_validated_state:
  assumes "running so m W s" and "sdkLaws so"
  shows "(\<exists>w \<in> W. validateConfig w (prConfig s) = [])
    \<and> svConfig (prServer s) = surfaceView (prConfig s) \<and> svKubernetes (prServer s) = surfaceView (prConfig s)
    \<and> (\<exists>w \<in> W. \<exists>pl. convertPhase (weSurface w) (surfaceView (prConfig s)) = Inr pl
        \<and> coLook (soTools so) (svTools (prServer s)) = map_of (rev (plTools pl))
        \<and> coLook (soPrompts so) (svPrompts (prServer s)) = map_of (rev (plPrompts pl))
        \<and> coLook (soResources so) (svResources (prServer s)) = map_of (rev (plResources pl))
        \<and> coLook (soTemplates so) (svTemplates (prServer s)) = map_of (rev (plTemplates pl)))
    \<and> (\<exists>a. prOAuth s = Some a \<and> a = SnapshotFromConfig (oauthView (prConfig s)) (snProvider a) (snHTTPClient a)
        \<and> providerMatches (weOIDC ` W) a)"
proof -
  have "snapshotFor cfg a \<longleftrightarrow> a = SnapshotFromConfig (oauthView cfg) (snProvider a) (snHTTPClient a)"
    for cfg :: "'x config" and a :: "'p snapshot"
    by (cases a) (auto simp: snapshotFor_def SnapshotFromConfig_def)
  then show ?thesis using running_consistent [OF assms(1)] running_installed [OF assms]
    unfolding consistent_def surfaceInstalled_def offers_def by auto
qed

text \<open>
  C3. A request that reads the configuration and then the OAuth snapshot at any two moments of a
  SIGHUP, whatever its result, is never let through for lack of a verifier: on a protected path it
  passes exactly when its bearer token is verified by the provider it found, or the configuration
  it read, which passed validation, leaves verification to the cluster. Unless the MCP server
  refuses the reload, a request that read the new configuration finds the snapshot of that
  configuration.
\<close>

theorem requests_during_reload_are_authenticated:
  assumes "running so m W s" and "w \<in> W" and "i \<le> j" and "j < length (hupStates so m w s)"
    and "cfg = prConfig (hupStates so m w s ! i)" and "prOAuth (hupStates so m w s ! j) = Some a"
    and "auRequireOAuth (authView cfg)" and "wqPath r \<notin> set (infraPaths (auMetricsPort (authView cfg) \<noteq> []))"
    and "\<not> isWellKnownPath (wqEscapedPath r)"
  shows "AuthorizationMiddleware jl (authView cfg) (snProvider a) r \<noteq> VerificationNotConfigured
    \<and> (AuthorizationMiddleware jl (authView cfg) (snProvider a) r = Next \<longleftrightarrow>
        (\<exists>token. wqHeader r ''Authorization'' = ''Bearer '' @ token \<and> token \<noteq> []
          \<and> (auAuthorizationURL (authView cfg) = []
            \<or> (\<exists>claims p. jlParse jl token = Inr claims \<and> validateOffline jl (auOAuthAudience (authView cfg)) claims = None
                \<and> snProvider a = Some p
                \<and> jlVerify jl p (if auOAuthAudience (authView cfg) = [] then None else Some (auOAuthAudience (authView cfg))) token = None))))
    \<and> (snFields a = ocFields (oauthView cfg) \<or> cfg = prConfig s \<or> (\<exists>e. fst (sighup so m w s) = HupReloadFailed e))"
proof -
  from states_during_hup [OF running_consistent [OF assms(1)] assms(2-4)] assms(5,6)
  obtain v where v: "v \<in> W" "validateConfig v cfg = []"
    and pair: "snapshotFor cfg a \<or> cfg = prConfig s \<or> (\<exists>e. fst (sighup so m w s) = HupReloadFailed e)" by force
  have skip: "auAuthorizationURL (authView cfg) = [] \<Longrightarrow> auSkipJWTVerification (authView cfg)"
    using validated_delegates [OF v(2) assms(7)] .
  then show ?thesis
    using pair NotConfigured_only [of jl "authView cfg" "snProvider a" r] protected_Next_iff [OF assms(7-9), of jl "snProvider a"]
    by (auto simp: snapshotFor_def)
qed

text \<open>
  When the MCP server refuses a reload that changes the provider, a request can see the new
  configuration together with the old snapshot: the configuration is taken back before the
  snapshot, but a request that has already read the new configuration reads the snapshot later.
\<close>

lemma rollback_mixes_new_flags_and_old_provider:
  assumes "prOAuth s = Some a" and "cmdReadConfig w m (Some (prConfig s)) = Inr nc"
    and "fst (sighup so m w s) = HupReloadFailed e" and "ocFields (oauthView nc) \<noteq> snFields a"
  shows "\<exists>i j. i \<le> j \<and> j < length (hupStates so m w s) \<and> prConfig (hupStates so m w s ! i) = nc
    \<and> prOAuth (hupStates so m w s ! j) = Some a \<and> \<not> snapshotFor nc a"
  using assms(1)
proof (cases rule: sighup_cases [where so = so and m = m and w = w])
  case (quiet res)
  then show ?thesis using assms(3) by auto
next
  case (reloaded nc' nxs srv)
  then show ?thesis using assms(3) by simp
next
  case (rolledBack nc' nxs srv e' b)
  then have "prConfig (hupStates so m w s ! 2) = nc" "prOAuth (hupStates so m w s ! 6) = Some a"
    "6 < length (hupStates so m w s)"
    using assms(1,2) by (simp_all add: hupStates_def numeral_nat)
  moreover have "\<not> snapshotFor nc a" using assms(4) by (simp add: snapshotFor_def)
  ultimately show ?thesis by (intro exI [of _ 2] exI [of _ 6]) simp
qed


section \<open>An example process\<close>

text \<open>A server with an issuer, its configuration read from standard input.\<close>

definition hupSchema :: "cfgField list" where
  "hupSchema = map OptField
     [opt ''port'' TString (GStr ''8080''), opt ''list_output'' TString (GStr ''table''),
      opt ''confirmation_fallback'' TString (GStr ''allow''), reload (opt ''require_oauth'' TBool (GBool True)),
      reload (opt ''authorization_url'' TString (GStr []))]"

definition hupWorld :: "string \<Rightarrow> string option \<Rightarrow> (unit, string, unit) world" where
  "hupWorld issuer refusal =
     \<lparr>weCfg = Config_Schema.exampleEnv\<lparr>ceSchema := hupSchema\<rparr>,
      weFS = \<lparr>fsStat = (\<lambda>_. StatNotExist), fsReadDir = (\<lambda>_. Inl []), fsReadFile = (\<lambda>_. Inl [])\<rparr>,
      weDecode = (\<lambda>_. Inr [(''authorization_url'', GStr issuer)]), weDirOf = id, weWorkingDir = ''/'', weConfigPathEnv = [],
      weStdin = Inr ''x'', weToolsets = [], weProviders = [], weExchangers = [], weExtTLS = (\<lambda>_. None),
      weVal = \<lparr>vlFileExists = (\<lambda>_. True), vlParseURL = (\<lambda>u. Inr (takeWhile (\<lambda>c. c \<noteq> CHR '':'') u, u)), vlCipherSuites = [], vlRegistered = []\<rparr>,
      weValAgain = \<lparr>vlFileExists = (\<lambda>_. True), vlParseURL = (\<lambda>u. Inr (takeWhile (\<lambda>c. c \<noteq> CHR '':'') u, u)), vlCipherSuites = [], vlRegistered = []\<rparr>,
      weOIDC = \<lparr>olReadFile = (\<lambda>_. Inl []), olAppendCerts = (\<lambda>_. False), olCipherSuites = [], olNewProvider = (\<lambda>_ u. Inr u)\<rparr>,
      weSurface = exampleSurfaceEnv, weProviderReload = (\<lambda>_. refusal)\<rparr>"

definition hupOptions :: mcpOptions where
  "hupOptions = \<lparr>moConfigPath = stdinConfigPath, moConfigDir = [], moStdinConfig = ''x''\<rparr>"

definition hupConfig :: "unit config" where
  "hupConfig = projr (cmdReadConfig (hupWorld ''https://a'' None) hupOptions None)"

definition hupStarted :: "(unit, string, string \<rightharpoonup> sdkTool, string \<rightharpoonup> sdkPrompt, string \<rightharpoonup> sdkResource) process" where
  "hupStarted = projr (Run (hupWorld ''https://a'' None) exampleSdk exampleServer (\<lambda>_. None) hupConfig)"

lemma hupValid: "cmdValidate (hupWorld ''https://a'' None) hupOptions hupConfig = []"
  by code_simp

lemma hupStarted_runs: "Run (hupWorld ''https://a'' None) exampleSdk exampleServer (\<lambda>_. None) hupConfig = Inr hupStarted"
proof -
  have "\<not> isl (Run (hupWorld ''https://a'' None) exampleSdk exampleServer (\<lambda>_. None) hupConfig)" by code_simp
  then show ?thesis unfolding hupStarted_def by simp
qed

lemma hupRunning: "w = hupWorld ''https://a'' None \<Longrightarrow> running exampleSdk hupOptions {w, v} hupStarted"
  using running.start [OF _ hupValid exampleServer_empty hupStarted_runs] by simp

definition hupReloads :: "(unit, string, string \<rightharpoonup> sdkTool, string \<rightharpoonup> sdkPrompt, string \<rightharpoonup> sdkResource) process list" where
  "hupReloads = hupStates exampleSdk hupOptions (hupWorld ''https://b'' None) hupStarted"

definition hupRequest :: webRequest where
  "hupRequest = \<lparr>wqMethod = ''POST'', wqPath = ''/mcp'', wqEscapedPath = ''/mcp'', wqHost = [], wqRemoteAddr = [], wqTLS = True,
     wqHeader = (\<lambda>h. if h = ''Authorization'' then ''Bearer good'' else [])\<rparr>"

definition hupJWT :: "(unit, string) jwtLib" where
  "hupJWT = \<lparr>jlParse = (\<lambda>t. if t = ''good'' then Inr () else Inl ''malformed''), jlValidate = (\<lambda>_ _. None),
     jlVerify = (\<lambda>p _ _. if p = ''https://b'' then None else Some ''unknown key'')\<rparr>"

text \<open>After a SIGHUP with another issuer: the new settings are served, with the one tool there is.\<close>

theorem process_serves_validated_state_witness:
  "\<exists>a. \<exists>pl :: plan. prOAuth (last hupReloads) = Some a \<and> snProvider a = Some ''https://b''
     \<and> providerMatches (weOIDC ` {hupWorld ''https://a'' None, hupWorld ''https://b'' None}) a
     \<and> svTools (prServer (last hupReloads)) = map_of (rev (plTools pl)) \<and> map fst (plTools pl) = [toName exampleTool]"
proof -
  let ?w = "hupWorld ''https://b'' None" and ?s = "last hupReloads"
  have start: "running exampleSdk hupOptions {hupWorld ''https://a'' None, ?w} hupStarted" by (rule hupRunning [OF refl])
  have "\<not> prExited hupStarted" by code_simp
  from running.hup [OF start this] have "running exampleSdk hupOptions {hupWorld ''https://a'' None, ?w} ?s"
    by (simp add: hupReloads_def)
  from process_serves_validated_state [OF this exampleSdk_ok]
  obtain w a pl where w: "w \<in> {hupWorld ''https://a'' None, ?w}" and pl: "convertPhase (weSurface w) (surfaceView (prConfig ?s)) = Inr pl"
      "coLook (soTools exampleSdk) (svTools (prServer ?s)) = map_of (rev (plTools pl))"
    and a: "prOAuth ?s = Some a" "providerMatches (weOIDC ` {hupWorld ''https://a'' None, ?w}) a" by blast
  have "map_option snProvider (prOAuth ?s) = Some (Some ''https://b'')" by code_simp
  then have "snProvider a = Some ''https://b''" using a(1) by simp
  moreover have "weSurface w = exampleSurfaceEnv" using w by (auto simp: hupWorld_def)
  moreover have "map_sum id (\<lambda>pl. map fst (plTools pl)) (convertPhase exampleSurfaceEnv (surfaceView (prConfig ?s))) = Inr [toName exampleTool]"
    by code_simp
  then have "map fst (plTools pl) = [toName exampleTool]" using pl(1) \<open>weSurface w = exampleSurfaceEnv\<close> by simp
  moreover have "svTools (prServer ?s) = map_of (rev (plTools pl))" using pl(2) by (simp add: exampleSdk_def mapCatalog_def)
  ultimately show ?thesis using a by (intro exI [of _ a] exI [of _ pl] conjI)
qed

theorem requests_during_reload_are_authenticated_witness:
  "AuthorizationMiddleware hupJWT (authView (prConfig (hupReloads ! 2))) (snProvider (the (prOAuth (hupReloads ! 3)))) hupRequest = Next"
proof -
  have "3 < length hupReloads" by code_simp
  moreover have "prOAuth (hupReloads ! 3) \<noteq> None" by code_simp
  then have "prOAuth (hupReloads ! 3) = Some (the (prOAuth (hupReloads ! 3)))" by simp
  moreover have "auRequireOAuth (authView (prConfig (hupReloads ! 2)))" by code_simp
  moreover have "wqPath hupRequest \<notin> set (infraPaths (auMetricsPort (authView (prConfig (hupReloads ! 2))) \<noteq> []))" by code_simp
  moreover have "\<not> isWellKnownPath (wqEscapedPath hupRequest)" by code_simp
  moreover have "snProvider (the (prOAuth (hupReloads ! 3))) = Some ''https://b''" by code_simp
  moreover have "auOAuthAudience (authView (prConfig (hupReloads ! 2))) = []" by code_simp
  ultimately show ?thesis
    using requests_during_reload_are_authenticated [OF hupRunning [OF refl, of "hupWorld ''https://b'' None"], of "hupWorld ''https://b'' None"
        2 3 "prConfig (hupReloads ! 2)" "the (prOAuth (hupReloads ! 3))" hupRequest hupJWT]
    unfolding hupReloads_def [symmetric] by (simp add: hupRequest_def hupJWT_def validateOffline_def)
qed

end
