(* ===== verification/Token_Exchange.thy ===== *)
theory Token_Exchange
  imports Config_Validate Registries
begin

text \<open>
  \<open>pkg/tokenexchange\<close>, \<open>pkg/kubernetes/token_exchange.go\<close> and \<open>provider_token_exchange.go\<close>: how
  the bearer token of a caller is exchanged for one that the cluster accepts. The memoized
  configuration and its HTTP client, the request of every strategy with its client
  authentication, and the decision what the Kubernetes client may use. The file system, the PEM
  and X.509 parsers, the JWT signer, the HTTP client and the JSON decoder are parameters.
\<close>

section \<open>The configuration of an exchange\<close>

definition AuthStyleParams :: string where "AuthStyleParams = ''params''"
definition AuthStyleHeader :: string where "AuthStyleHeader = ''header''"
definition AuthStyleAssertion :: string where "AuthStyleAssertion = ''assertion''"
definition AuthStyleFederated :: string where "AuthStyleFederated = ''federated''"

lemmas authStyle_defs = AuthStyleParams_def AuthStyleHeader_def AuthStyleAssertion_def AuthStyleFederated_def

record teConfig =
  teTokenURL :: string
  teClientID :: string
  teClientSecret :: string
  teAudience :: string
  teSubjectTokenType :: string
  teRequestedTokenType :: string
  teSubjectIssuer :: string
  teScopes :: "string list"
  teCAFile :: string
  teAuthStyle :: string
  teClientCertFile :: string
  teClientKeyFile :: string
  teAssertionLifetime :: int
  teFederatedTokenFile :: string
  teTLSMinVersion :: string
  teTLSCipherSuites :: "string list"
  teRequireTLS :: "bool option"

text \<open>The memoized client with the settings it was built from.\<close>

record clientMemo =
  cmTLS :: tlsConfig
  cmCAFile :: string
  cmTLSMinVersion :: string
  cmTLSCipherSuites :: "string list"

record teTarget =
  ttConfig :: teConfig
  ttClient :: "clientMemo option"

datatype signKey = RSAKey | ECKey string | OtherKey

datatype keyParse = Signer signKey | NotSigner | NoParse

record stsRequest =
  rqURL :: string
  rqForm :: "(string \<times> string) list"
  rqHeader :: "(string \<times> string) list"

record stsAnswer =
  saAccessToken :: string
  saTokenType :: string
  saExpiresIn :: int
  saRefreshToken :: string

record stsLib =
  slReadFile :: "string \<Rightarrow> string + string"
  slAppendCerts :: "string \<Rightarrow> bool"
  slCipherSuites :: "string list"
  slPemDecode :: "string \<Rightarrow> string option"
  slParseCertificate :: "string \<Rightarrow> string option"
  slParsePKCS8 :: "string \<Rightarrow> keyParse"
  slParsePKCS1 :: "string \<Rightarrow> signKey option"
  slSign :: "string \<Rightarrow> signKey \<Rightarrow> string \<Rightarrow> string \<Rightarrow> string \<Rightarrow> int \<Rightarrow> string + string"
  slScheme :: "string \<Rightarrow> string option"
  slPost :: "tlsConfig \<Rightarrow> stsRequest \<Rightarrow> string + nat \<times> string"
  slUnmarshal :: "string \<Rightarrow> stsAnswer option"

datatype teErr =
    CertFileMissing | KeyFileMissing | FederatedFileMissing | InvalidAuthStyle string
  | CAFileUnreadable string | CAFileInvalid | ClientTLS tlsErr
  | CertUnreadable string | CertNoPEM | CertInvalid | KeyUnreadable string | KeyNoPEM | KeyNotSigner | KeyUnparsable
  | UnsupportedCurve string | UnsupportedKey | SigningFailed string
  | FederatedUnreadable string | FederatedEmpty
  | BadTokenURL | PlainHTTPBlocked | RequestFailed string | STSStatus nat string | BadAnswer
  | StrategyNotFound string | NoTokenEndpoint string | UnknownAuthMode string

definition teValidate :: "teConfig \<Rightarrow> teErr option" where
  "teValidate c =
     (if teAuthStyle c = [] \<or> teAuthStyle c = AuthStyleParams \<or> teAuthStyle c = AuthStyleHeader then None
      else if teAuthStyle c = AuthStyleAssertion then
        (if teClientCertFile c = [] then Some CertFileMissing else if teClientKeyFile c = [] then Some KeyFileMissing else None)
      else if teAuthStyle c = AuthStyleFederated then (if teFederatedTokenFile c = [] then Some FederatedFileMissing else None)
      else Some (InvalidAuthStyle (teAuthStyle c)))"

definition SetRequireTLS :: "bool \<Rightarrow> teTarget \<Rightarrow> teTarget" where
  "SetRequireTLS b t = t\<lparr>ttConfig := (ttConfig t)\<lparr>teRequireTLS := Some b\<rparr>\<rparr>"

definition currentRequireTLS :: "teConfig \<Rightarrow> bool" where
  "currentRequireTLS c = (teRequireTLS c \<noteq> None \<and> the (teRequireTLS c))"

definition teCAOptions :: "stsLib \<Rightarrow> string \<Rightarrow> teErr + (tlsConfig \<Rightarrow> tlsConfig) list" where
  "teCAOptions lib path =
     (if path = [] then Inr []
      else (case slReadFile lib path of
          Inl err \<Rightarrow> Inl (CAFileUnreadable err)
        | Inr pem \<Rightarrow> if \<not> slAppendCerts lib pem then Inl CAFileInvalid else Inr [WithRootCAs pem]))"

definition HTTPClient :: "stsLib \<Rightarrow> teTarget \<Rightarrow> (teErr + tlsConfig) \<times> teTarget" where
  "HTTPClient lib t =
     (let c = ttConfig t;
          hit = (case ttClient t of None \<Rightarrow> False
            | Some m \<Rightarrow> cmCAFile m = teCAFile c \<and> cmTLSMinVersion m = teTLSMinVersion c \<and> cmTLSCipherSuites m = teTLSCipherSuites c)
      in if hit then (Inr (cmTLS (the (ttClient t))), t)
         else (case teCAOptions lib (teCAFile c) of
             Inl err \<Rightarrow> (Inl err, t)
           | Inr opts \<Rightarrow>
               (case BuildTLSConfig (slCipherSuites lib) (teTLSMinVersion c) (teTLSCipherSuites c) opts of
                  Inl err \<Rightarrow> (Inl (ClientTLS err), t)
                | Inr tls \<Rightarrow>
                    (Inr tls, t\<lparr>ttClient := Some \<lparr>cmTLS = tls, cmCAFile = teCAFile c, cmTLSMinVersion = teTLSMinVersion c,
                      cmTLSCipherSuites = teTLSCipherSuites c\<rparr>\<rparr>))))"

section \<open>Client assertions\<close>

text \<open>RSA keys, and EC keys on the two curves that have a signature algorithm.\<close>

definition supportedKey :: "signKey \<Rightarrow> teErr option" where
  "supportedKey k =
     (case k of RSAKey \<Rightarrow> None
      | ECKey curve \<Rightarrow> if curve \<noteq> ''P-256'' \<and> curve \<noteq> ''P-384'' then Some (UnsupportedCurve curve) else None
      | OtherKey \<Rightarrow> Some UnsupportedKey)"

definition parseKey :: "stsLib \<Rightarrow> string \<Rightarrow> teErr + signKey" where
  "parseKey lib der =
     (case slParsePKCS8 lib der of
        Signer k \<Rightarrow> Inr k
      | NotSigner \<Rightarrow> Inl KeyNotSigner
      | NoParse \<Rightarrow> (case slParsePKCS1 lib der of Some k \<Rightarrow> Inr k | None \<Rightarrow> Inl KeyUnparsable))"

definition loadCertificateAndKey :: "stsLib \<Rightarrow> string \<Rightarrow> string \<Rightarrow> teErr + string \<times> signKey" where
  "loadCertificateAndKey lib certFile keyFile =
     (case slReadFile lib certFile of
        Inl err \<Rightarrow> Inl (CertUnreadable err)
      | Inr certPEM \<Rightarrow>
          (case slPemDecode lib certPEM of
             None \<Rightarrow> Inl CertNoPEM
           | Some certDER \<Rightarrow>
               (case slParseCertificate lib certDER of
                  None \<Rightarrow> Inl CertInvalid
                | Some cert \<Rightarrow>
                    (case slReadFile lib keyFile of
                       Inl err \<Rightarrow> Inl (KeyUnreadable err)
                     | Inr keyPEM \<Rightarrow>
                         (case slPemDecode lib keyPEM of
                            None \<Rightarrow> Inl KeyNoPEM
                          | Some keyDER \<Rightarrow>
                              (case parseKey lib keyDER of
                                 Inl err \<Rightarrow> Inl err
                               | Inr k \<Rightarrow> (case supportedKey k of Some err \<Rightarrow> Inl err | None \<Rightarrow> Inr (cert, k))))))))"

definition getSignatureAlgorithm :: "signKey \<Rightarrow> teErr + string" where
  "getSignatureAlgorithm k =
     (case k of RSAKey \<Rightarrow> Inr ''RS256''
      | ECKey curve \<Rightarrow> if curve = ''P-256'' then Inr ''ES256'' else if curve = ''P-384'' then Inr ''ES384'' else Inl (UnsupportedCurve curve)
      | OtherKey \<Rightarrow> Inl UnsupportedKey)"

definition DefaultAssertionLifetime :: int where "DefaultAssertionLifetime = 300000000000"

text \<open>The claims are the client as issuer and subject, the token URL as audience and the lifetime.\<close>

definition BuildClientAssertion :: "stsLib \<Rightarrow> string \<Rightarrow> string \<Rightarrow> string \<Rightarrow> string \<Rightarrow> int \<Rightarrow> teErr + string" where
  "BuildClientAssertion lib clientID tokenURL certFile keyFile lifetime =
     (let lifetime = (if lifetime = 0 then DefaultAssertionLifetime else lifetime)
      in (case loadCertificateAndKey lib certFile keyFile of
            Inl err \<Rightarrow> Inl err
          | Inr (cert, k) \<Rightarrow>
              (case getSignatureAlgorithm k of
                 Inl err \<Rightarrow> Inl err
               | Inr alg \<Rightarrow> map_sum SigningFailed id (slSign lib alg k cert clientID tokenURL lifetime))))"

definition BuildAssertion :: "stsLib \<Rightarrow> teConfig \<Rightarrow> teErr + string" where
  "BuildAssertion lib c =
     BuildClientAssertion lib (teClientID c) (teTokenURL c) (teClientCertFile c) (teClientKeyFile c) (teAssertionLifetime c)"

lemma loaded_key_has_algorithm:
  assumes "loadCertificateAndKey lib certFile keyFile = Inr (cert, k)"
  shows "\<exists>alg. getSignatureAlgorithm k = Inr alg"
  using assms
  by (auto simp: loadCertificateAndKey_def getSignatureAlgorithm_def supportedKey_def
      split: sum.splits option.splits signKey.splits if_splits)

section \<open>The request\<close>

text \<open>\<open>base64.StdEncoding\<close>.\<close>

definition b64Char :: "nat \<Rightarrow> char" where
  "b64Char n = (''ABCDEFGHIJKLMNOPQRSTUVWXYZabcdefghijklmnopqrstuvwxyz0123456789+/'') ! (n mod 64)"

fun b64Encode :: "string \<Rightarrow> string" where
  "b64Encode [] = []"
| "b64Encode [a] =
     (let n = of_char a * 65536 in [b64Char (n div 262144), b64Char (n div 4096), CHR ''='', CHR ''=''])"
| "b64Encode [a, b] =
     (let n = of_char a * 65536 + of_char b * 256
      in [b64Char (n div 262144), b64Char (n div 4096), b64Char (n div 64), CHR ''=''])"
| "b64Encode (a # b # c # s) =
     (let n = of_char a * 65536 + of_char b * 256 + of_char c
      in b64Char (n div 262144) # b64Char (n div 4096) # b64Char (n div 64) # b64Char n # b64Encode s)"

definition ClientAssertionType :: string where
  "ClientAssertionType = ''urn:ietf:params:oauth:client-assertion-type:jwt-bearer''"

definition setAll :: "(string \<times> string) list \<Rightarrow> (string \<times> string) list \<Rightarrow> (string \<times> string) list" where
  "setAll kvs form = fold (\<lambda>(k, v). assocUpd k v) kvs form"

definition injectClientAuth ::
    "stsLib \<Rightarrow> teConfig \<Rightarrow> (string \<times> string) list \<Rightarrow> (string \<times> string) list \<Rightarrow>
     teErr + (string \<times> string) list \<times> (string \<times> string) list" where
  "injectClientAuth lib c form header =
     (if teClientID c = [] then Inr (form, header)
      else if teAuthStyle c = AuthStyleHeader then
        Inr (form, assocUpd ''Authorization'' (''Basic '' @ b64Encode (teClientID c @ '':'' @ teClientSecret c)) header)
      else if teAuthStyle c = AuthStyleAssertion then
        (case BuildAssertion lib c of
           Inl err \<Rightarrow> Inl err
         | Inr assertion \<Rightarrow>
             Inr (setAll [(''client_id'', teClientID c), (''client_assertion_type'', ClientAssertionType),
               (''client_assertion'', assertion)] form, header))
      else if teAuthStyle c = AuthStyleFederated then
        (case slReadFile lib (teFederatedTokenFile c) of
           Inl err \<Rightarrow> Inl (FederatedUnreadable err)
         | Inr bytes \<Rightarrow>
             if trimSpace bytes = [] then Inl FederatedEmpty
             else Inr (setAll [(''client_id'', teClientID c), (''client_assertion_type'', ClientAssertionType),
               (''client_assertion'', trimSpace bytes)] form, header))
      else
        let form = assocUpd ''client_id'' (teClientID c) form
        in Inr (if teClientSecret c \<noteq> [] then assocUpd ''client_secret'' (teClientSecret c) form else form, header))"

record oauthToken =
  otAccessToken :: string
  otTokenType :: string
  otRefreshToken :: string
  otExpiresAfter :: "int option"

text \<open>
  The transport refuses plain HTTP while TLS is required. The lifetime is a \<open>time.Duration\<close>, so
  the product with a second wraps around.
\<close>

definition doTokenExchange ::
    "stsLib \<Rightarrow> bool \<Rightarrow> tlsConfig \<Rightarrow> string \<Rightarrow> (string \<times> string) list \<Rightarrow> (string \<times> string) list \<Rightarrow> teErr + oauthToken" where
  "doTokenExchange lib requireTLS client tokenURL form header =
     (case slScheme lib tokenURL of
        None \<Rightarrow> Inl BadTokenURL
      | Some scheme \<Rightarrow>
          if requireTLS \<and> \<not> isSecureHTTPScheme scheme then Inl PlainHTTPBlocked
          else (case slPost lib client \<lparr>rqURL = tokenURL, rqForm = form,
              rqHeader = (''Content-Type'', ''application/x-www-form-urlencoded'') # header\<rparr> of
            Inl err \<Rightarrow> Inl (RequestFailed err)
          | Inr (status, body) \<Rightarrow>
              if status \<noteq> 200 then Inl (STSStatus status body)
              else (case slUnmarshal lib body of
                  None \<Rightarrow> Inl BadAnswer
                | Some a \<Rightarrow>
                    Inr \<lparr>otAccessToken = saAccessToken a, otTokenType = saTokenType a, otRefreshToken = saRefreshToken a,
                      otExpiresAfter = (if 0 < saExpiresIn a then Some (wrap64 (saExpiresIn a * 1000000000)) else None)\<rparr>)))"

definition GrantTypeTokenExchange :: string where
  "GrantTypeTokenExchange = ''urn:ietf:params:oauth:grant-type:token-exchange''"

definition TokenTypeAccessToken :: string where
  "TokenTypeAccessToken = ''urn:ietf:params:oauth:token-type:access_token''"

definition GrantTypeJWTBearer :: string where
  "GrantTypeJWTBearer = ''urn:ietf:params:oauth:grant-type:jwt-bearer''"

definition orElse :: "string \<Rightarrow> string \<Rightarrow> string" where
  "orElse s d = (if s = [] then d else s)"

definition scopeEntry :: "string list \<Rightarrow> (string \<times> string) list" where
  "scopeEntry scopes = (if scopes \<noteq> [] then [(''scope'', goJoin '' '' scopes)] else [])"

datatype exchanger = KeycloakV1 | RFC8693 | EntraOBO

text \<open>The form that each strategy posts, before client authentication.\<close>

fun exchangeForm :: "exchanger \<Rightarrow> teConfig \<Rightarrow> string \<Rightarrow> (string \<times> string) list" where
  "exchangeForm KeycloakV1 c subject = setAll
     ([(''grant_type'', GrantTypeTokenExchange), (''subject_token'', subject),
       (''subject_token_type'', orElse (teSubjectTokenType c) TokenTypeAccessToken), (''audience'', teAudience c)]
      @ (if teSubjectIssuer c \<noteq> [] then [(''subject_issuer'', teSubjectIssuer c)] else []) @ scopeEntry (teScopes c)) []"
| "exchangeForm RFC8693 c subject = setAll
     ([(''grant_type'', GrantTypeTokenExchange), (''subject_token'', subject),
       (''subject_token_type'', orElse (teSubjectTokenType c) TokenTypeAccessToken), (''audience'', teAudience c),
       (''requested_token_type'', orElse (teRequestedTokenType c) TokenTypeAccessToken)] @ scopeEntry (teScopes c)) []"
| "exchangeForm EntraOBO c subject = setAll
     ([(''grant_type'', GrantTypeJWTBearer), (''assertion'', subject), (''requested_token_use'', ''on_behalf_of'')]
      @ (if teScopes c \<noteq> [] then scopeEntry (teScopes c) else if teAudience c \<noteq> [] then [(''scope'', teAudience c)] else [])) []"

definition Exchange :: "stsLib \<Rightarrow> exchanger \<Rightarrow> string \<Rightarrow> teTarget \<Rightarrow> (teErr + oauthToken) \<times> teTarget" where
  "Exchange lib e subject t =
     (case HTTPClient lib t of
        (Inl err, t) \<Rightarrow> (Inl err, t)
      | (Inr client, t) \<Rightarrow>
          ((case injectClientAuth lib (ttConfig t) (exchangeForm e (ttConfig t) subject) [] of
              Inl err \<Rightarrow> Inl err
            | Inr (form, header) \<Rightarrow>
                doTokenExchange lib (currentRequireTLS (ttConfig t)) client (teTokenURL (ttConfig t)) form header), t))"

definition exchangerRegistry :: "exchanger goRegistry" where
  "exchangerRegistry = [(''keycloak-v1'', KeycloakV1), (''rfc8693'', RFC8693), (''entra-obo'', EntraOBO)]"

section \<open>The memoized configuration\<close>

record clientAuthCfg =
  caMethod :: string
  caClientID :: string
  caClientSecret :: string
  caCertificateFile :: string
  caPrivateKeyFile :: string
  caTokenFile :: string

record teGlobal =
  tgStrategy :: string
  tgAudience :: string
  tgScopes :: "string list"
  tgSubjectTokenType :: string
  tgRequestedTokenType :: string
  tgTokenURL :: string
  tgClientAuth :: clientAuthCfg

text \<open>The part of the configuration that decides an exchange.\<close>

record exchangeCfg =
  xcTokenExchange :: "teGlobal option"
  xcClusterAuthMode :: string
  xcCertificateAuthority :: string
  xcTLSMinVersion :: string
  xcTLSCipherSuites :: "string list"
  xcRequireTLS :: bool

definition GetClientAuth :: "teGlobal \<Rightarrow> clientAuthCfg option" where
  "GetClientAuth g =
     (let a = tgClientAuth g
      in if caMethod a \<noteq> [] \<or> caClientID a \<noteq> [] \<or> caClientSecret a \<noteq> [] \<or> caCertificateFile a \<noteq> []
            \<or> caPrivateKeyFile a \<noteq> [] \<or> caTokenFile a \<noteq> [] then Some a else None)"

definition applyClientAuth :: "clientAuthCfg option \<Rightarrow> teConfig \<Rightarrow> teConfig" where
  "applyClientAuth auth c =
     (case auth of
        None \<Rightarrow> c
      | Some a \<Rightarrow>
          let c = c\<lparr>teClientID := caClientID a, teClientSecret := caClientSecret a\<rparr>
          in if caMethod a = ''client_secret_basic'' then c\<lparr>teAuthStyle := AuthStyleHeader\<rparr>
             else if caMethod a = ''client_secret_post'' then c\<lparr>teAuthStyle := AuthStyleParams\<rparr>
             else if caMethod a = ''private_key_jwt'' then
               c\<lparr>teAuthStyle := AuthStyleAssertion, teClientCertFile := caCertificateFile a, teClientKeyFile := caPrivateKeyFile a\<rparr>
             else if caMethod a = ''jwt_file'' then c\<lparr>teAuthStyle := AuthStyleFederated, teFederatedTokenFile := caTokenFile a\<rparr>
             else c\<lparr>teAuthStyle := caMethod a\<rparr>)"

record teKey =
  tkTokenURL :: string
  tkStrategy :: string
  tkClientID :: string
  tkClientSecret :: string
  tkAudience :: string
  tkSubjectTokenType :: string
  tkRequestedTokenType :: string
  tkScopes :: string
  tkAuthStyle :: string
  tkClientCertFile :: string
  tkClientKeyFile :: string
  tkFederatedTokenFile :: string
  tkCAFile :: string
  tkTLSMinVersion :: string
  tkTLSCipherSuites :: string
  tkRequireTLS :: bool

abbreviation nul :: char where "nul \<equiv> CHR 0x00"

definition newTokenExchangeConfigCacheKey :: "string \<Rightarrow> teGlobal \<Rightarrow> exchangeCfg \<Rightarrow> teKey" where
  "newTokenExchangeConfigCacheKey tokenURL g cfg =
     (let a = (case GetClientAuth g of Some a \<Rightarrow> a
        | None \<Rightarrow> \<lparr>caMethod = [], caClientID = [], caClientSecret = [], caCertificateFile = [], caPrivateKeyFile = [], caTokenFile = []\<rparr>)
      in \<lparr>tkTokenURL = tokenURL, tkStrategy = tgStrategy g, tkClientID = caClientID a, tkClientSecret = caClientSecret a,
          tkAudience = tgAudience g, tkSubjectTokenType = tgSubjectTokenType g, tkRequestedTokenType = tgRequestedTokenType g,
          tkScopes = goJoin [nul] (tgScopes g), tkAuthStyle = caMethod a, tkClientCertFile = caCertificateFile a,
          tkClientKeyFile = caPrivateKeyFile a, tkFederatedTokenFile = caTokenFile a, tkCAFile = xcCertificateAuthority cfg,
          tkTLSMinVersion = xcTLSMinVersion cfg, tkTLSCipherSuites = goJoin [nul] (xcTLSCipherSuites cfg),
          tkRequireTLS = xcRequireTLS cfg\<rparr>)"

definition buildTarget :: "string \<Rightarrow> teGlobal \<Rightarrow> exchangeCfg \<Rightarrow> teTarget" where
  "buildTarget tokenURL g cfg =
     SetRequireTLS (xcRequireTLS cfg)
       \<lparr>ttConfig = applyClientAuth (GetClientAuth g)
          \<lparr>teTokenURL = tokenURL, teClientID = [], teClientSecret = [], teAudience = tgAudience g,
           teSubjectTokenType = tgSubjectTokenType g, teRequestedTokenType = tgRequestedTokenType g, teSubjectIssuer = [],
           teScopes = tgScopes g, teCAFile = xcCertificateAuthority cfg, teAuthStyle = [], teClientCertFile = [],
           teClientKeyFile = [], teAssertionLifetime = 0, teFederatedTokenFile = [], teTLSMinVersion = xcTLSMinVersion cfg,
           teTLSCipherSuites = xcTLSCipherSuites cfg, teRequireTLS = None\<rparr>,
        ttClient = None\<rparr>"

definition getOrReplace :: "'k \<Rightarrow> 'v \<Rightarrow> ('k \<times> 'v) option \<Rightarrow> 'v \<times> ('k \<times> 'v) option" where
  "getOrReplace key next cache =
     (case cache of
        Some (k, v) \<Rightarrow> if k = key then (v, cache) else (next, Some (key, next))
      | None \<Rightarrow> (next, Some (key, next)))"

text \<open>\<open>endpoint\<close> is the token endpoint of the provider in the OAuth snapshot, empty without one.\<close>

definition getOrBuildTokenExchangeConfig ::
    "string \<Rightarrow> exchangeCfg \<Rightarrow> (teKey \<times> teTarget) option \<Rightarrow> teTarget option \<times> (teKey \<times> teTarget) option" where
  "getOrBuildTokenExchangeConfig endpoint cfg cache =
     (case xcTokenExchange cfg of
        None \<Rightarrow> (None, None)
      | Some g \<Rightarrow>
          let tokenURL = (if tgTokenURL g = [] then endpoint else tgTokenURL g)
          in if tokenURL = [] then (None, None)
             else (case getOrReplace (newTokenExchangeConfigCacheKey tokenURL g cfg) (buildTarget tokenURL g cfg) cache of
                 (t, cache) \<Rightarrow> (Some t, cache)))"

section \<open>The decision\<close>

record callCtx =
  cxAuthorization :: "string option"
  cxUserAgent :: "string option"

definition exchangeToken ::
    "stsLib \<Rightarrow> exchangeCfg \<Rightarrow> string \<Rightarrow> string \<Rightarrow> callCtx \<Rightarrow> teTarget \<Rightarrow> (teErr + callCtx) \<times> teTarget" where
  "exchangeToken lib cfg subject strategy ctx t =
     (case teValidate (ttConfig t) of
        Some err \<Rightarrow> (Inl err, t)
      | None \<Rightarrow>
          (case exchangerGet strategy exchangerRegistry of
             None \<Rightarrow> (Inl (StrategyNotFound strategy), t)
           | Some e \<Rightarrow>
               (case Exchange lib e subject (SetRequireTLS (xcRequireTLS cfg) t) of
                  (Inl err, t) \<Rightarrow> (Inl err, t)
                | (Inr tok, t) \<Rightarrow> (Inr (ctx\<lparr>cxAuthorization := Some (''Bearer '' @ otAccessToken tok)\<rparr>), t))))"

text \<open>
  \<open>perTarget\<close> is the strategy and configuration of a provider that has its own for the target,
  \<open>glob\<close> the memoized one. Both come back, since an exchange memoizes their HTTP client.
\<close>

definition ExchangeTokenInContext ::
    "stsLib \<Rightarrow> exchangeCfg \<Rightarrow> (string \<times> teTarget) option \<Rightarrow> teTarget option \<Rightarrow> callCtx \<Rightarrow>
     (teErr + callCtx) \<times> (string \<times> teTarget) option \<times> teTarget option" where
  "ExchangeTokenInContext lib cfg perTarget glob ctx =
     (case cxAuthorization ctx of
        None \<Rightarrow> (Inr ctx, perTarget, glob)
      | Some auth \<Rightarrow>
          if \<not> hasPrefix auth ''Bearer '' then (Inr ctx, perTarget, glob)
          else
            let subject = trimPrefix auth ''Bearer ''
            in (case perTarget of
                  Some (strategy, t) \<Rightarrow>
                    (case exchangeToken lib cfg subject strategy ctx t of (res, t) \<Rightarrow> (res, Some (strategy, t), glob))
                | None \<Rightarrow>
                    if xcClusterAuthMode cfg = ClusterAuthKubeconfig then (Inr (ctx\<lparr>cxAuthorization := Some []\<rparr>), perTarget, glob)
                    else if xcClusterAuthMode cfg = ClusterAuthPassthrough then
                      (case xcTokenExchange cfg of
                         None \<Rightarrow> (Inr ctx, perTarget, glob)
                       | Some g \<Rightarrow>
                           (case glob of
                              None \<Rightarrow> (Inl (NoTokenEndpoint (tgStrategy g)), perTarget, glob)
                            | Some t \<Rightarrow>
                                (case exchangeToken lib cfg subject (tgStrategy g) ctx t of (res, t) \<Rightarrow> (res, perTarget, Some t))))
                    else (Inl (UnknownAuthMode (xcClusterAuthMode cfg)), perTarget, glob)))"

text \<open>The layer of the token exchanging provider around the provider proper.\<close>

definition exchangeLayer ::
    "stsLib \<Rightarrow> string option \<Rightarrow> exchangeCfg \<Rightarrow> (string \<times> teTarget) option \<Rightarrow> callCtx \<Rightarrow> (teKey \<times> teTarget) option \<Rightarrow>
     (teErr + callCtx) \<times> (teKey \<times> teTarget) option" where
  "exchangeLayer lib snap cfg perTarget ctx cache =
     (case snap of
        None \<Rightarrow> (Inr ctx, cache)
      | Some endpoint \<Rightarrow>
          (case getOrBuildTokenExchangeConfig endpoint cfg cache of
             (glob, cache) \<Rightarrow>
               (case ExchangeTokenInContext lib cfg perTarget glob ctx of
                  (res, _, glob') \<Rightarrow>
                    (res, (case (cache, glob') of (Some (k, _), Some t) \<Rightarrow> Some (k, t) | _ \<Rightarrow> cache)))))"

section \<open>What an exchange sends\<close>

lemma map_of_setAll: "map_of (setAll kvs form) k = (case map_of (rev kvs) k of Some v \<Rightarrow> Some v | None \<Rightarrow> map_of form k)"
  unfolding setAll_def by (induction kvs arbitrary: form) (auto simp: map_add_def split: option.splits)

lemma exchangeForm_subject:
  "map_of (exchangeForm e c subject) (if e = EntraOBO then ''assertion'' else ''subject_token'') = Some subject"
  by (cases e) (auto simp: map_of_setAll scopeEntry_def map_add_def split: option.splits)

lemma exchangeForm_no_secret: "map_of (exchangeForm e c subject) ''client_secret'' = None"
  by (cases e) (auto simp: map_of_setAll scopeEntry_def map_add_def split: option.splits)

definition postsSecret :: "teConfig \<Rightarrow> bool" where
  "postsSecret c \<longleftrightarrow> teClientID c \<noteq> [] \<and> teClientSecret c \<noteq> []
     \<and> teAuthStyle c \<notin> {AuthStyleHeader, AuthStyleAssertion, AuthStyleFederated}"

text \<open>
  C25. Every strategy posts the caller's token as its subject and nothing of the client
  authentication overwrites it. The client secret leaves the server only in the way that the
  configuration names: in the form for \<open>params\<close> (and the empty style), in the \<open>Authorization\<close>
  header for \<open>header\<close>, and not at all when the client proves itself by an assertion.
\<close>

theorem client_secret_only_as_configured:
  assumes "injectClientAuth lib c (exchangeForm e c subject) [] = Inr (form, header)"
  shows "map_of form (if e = EntraOBO then ''assertion'' else ''subject_token'') = Some subject
    \<and> map_of form ''client_secret'' = (if postsSecret c then Some (teClientSecret c) else None)
    \<and> (header \<noteq> [] \<longleftrightarrow> teClientID c \<noteq> [] \<and> teAuthStyle c = AuthStyleHeader)"
  using assms exchangeForm_subject [of e c subject] exchangeForm_no_secret [of e c subject]
  by (auto simp: injectClientAuth_def postsSecret_def map_of_setAll authStyle_defs Let_def
      split: if_splits sum.splits)


definition exampleSts :: stsLib where
  "exampleSts = \<lparr>slReadFile = (\<lambda>_. Inl []), slAppendCerts = (\<lambda>_. True), slCipherSuites = [], slPemDecode = Some,
     slParseCertificate = Some, slParsePKCS8 = (\<lambda>_. Signer RSAKey), slParsePKCS1 = (\<lambda>_. None),
     slSign = (\<lambda>_ _ _ _ _ _. Inr ''jwt''), slScheme = (\<lambda>_. Some ''https''), slPost = (\<lambda>_ r. Inr (200, ''cluster-token'')),
     slUnmarshal = (\<lambda>body. Some \<lparr>saAccessToken = body, saTokenType = ''Bearer'', saExpiresIn = 60, saRefreshToken = []\<rparr>)\<rparr>"

definition exampleTE :: teConfig where
  "exampleTE = \<lparr>teTokenURL = ''https://sts'', teClientID = ''mcp'', teClientSecret = ''s3'', teAudience = ''k8s'',
     teSubjectTokenType = [], teRequestedTokenType = [], teSubjectIssuer = [], teScopes = [], teCAFile = [], teAuthStyle = ''params'',
     teClientCertFile = [], teClientKeyFile = [], teAssertionLifetime = 0, teFederatedTokenFile = [], teTLSMinVersion = [],
     teTLSCipherSuites = [], teRequireTLS = None\<rparr>"

theorem client_secret_only_as_configured_witness:
  "\<exists>form. injectClientAuth exampleSts exampleTE (exchangeForm RFC8693 exampleTE ''user'') [] = Inr (form, [])
    \<and> map_of form ''subject_token'' = Some ''user'' \<and> map_of form ''client_secret'' = Some ''s3''"
proof -
  obtain form where f: "injectClientAuth exampleSts exampleTE (exchangeForm RFC8693 exampleTE ''user'') [] = Inr (form, [])"
    by (simp add: injectClientAuth_def authStyle_defs exampleTE_def)
  then show ?thesis
    using client_secret_only_as_configured [OF f] by (simp add: postsSecret_def authStyle_defs exampleTE_def)
qed

section \<open>A memo by key\<close>

text \<open>
  A value is built once per key and kept. \<open>agrees\<close> says that a kept value, which may have changed
  where it does not matter, still stands for a freshly built one.
\<close>

locale keyed_memo =
  fixes key :: "'i \<Rightarrow> 'k" and build :: "'i \<Rightarrow> 'v" and good :: "'i \<Rightarrow> bool" and agrees :: "'v \<Rightarrow> 'v \<Rightarrow> bool"
  assumes agrees_refl: "agrees v v"
    and agrees_trans: "agrees u v \<Longrightarrow> agrees v w \<Longrightarrow> agrees u w"
    and key_determines: "good i \<Longrightarrow> good j \<Longrightarrow> key i = key j \<Longrightarrow> agrees (build i) (build j)"
begin

definition coherent :: "('k \<times> 'v) option \<Rightarrow> bool" where
  "coherent cache \<longleftrightarrow> (\<forall>k v. cache = Some (k, v) \<longrightarrow> (\<exists>i. good i \<and> key i = k \<and> agrees v (build i)))"

lemma coherent_empty: "coherent None"
  by (simp add: coherent_def)

lemma coherent_update: "coherent (Some (k, v)) \<Longrightarrow> agrees w v \<Longrightarrow> coherent (Some (k, w))"
  unfolding coherent_def using agrees_trans by blast

lemma current:
  assumes "coherent cache" "good i" "getOrReplace (key i) (build i) cache = (v, cache')"
  shows "agrees v (build i)" "coherent cache'" "\<exists>k. cache' = Some (k, v)"
  using assms agrees_refl agrees_trans key_determines
  by (auto simp: getOrReplace_def coherent_def split: option.splits prod.splits if_splits; blast)+

end

text \<open>Scopes and suites are joined in the key by a NUL byte, which their names do not contain.\<close>

definition plainNames :: "string list \<Rightarrow> bool" where
  "plainNames xs \<longleftrightarrow> list_all (\<lambda>x. x \<noteq> [] \<and> nul \<notin> set x) xs"

lemma goJoin_inj:
  assumes "plainNames xs" "plainNames ys" "goJoin [nul] xs = goJoin [nul] ys"
  shows "xs = ys"
proof -
  have ne: "goJoin [nul] zs \<noteq> []" if "zs \<noteq> []" "plainNames zs" for zs
    using that by (cases zs rule: goJoin.cases [of "([nul], zs)" for zs, simplified]) (auto simp: plainNames_def)
  show ?thesis
  proof (cases "xs = [] \<or> ys = []")
    case True
    then show ?thesis using assms ne by (metis goJoin.simps(1))
  next
    case False
    have split: "goSplit nul (goJoin [nul] zs) = zs" if "zs \<noteq> []" "plainNames zs" for zs
      using that by (intro goSplit_goJoin) (auto simp: plainNames_def list_all_iff)
    from False have "xs \<noteq> []" "ys \<noteq> []" by auto
    then show ?thesis using split assms by metis
  qed
qed

type_synonym memoInput = "string \<times> teGlobal \<times> exchangeCfg"

definition memoKey :: "memoInput \<Rightarrow> teKey" where
  "memoKey = (\<lambda>(url, g, cfg). newTokenExchangeConfigCacheKey url g cfg)"

definition memoBuild :: "memoInput \<Rightarrow> teTarget" where
  "memoBuild = (\<lambda>(url, g, cfg). buildTarget url g cfg)"

definition memoGood :: "memoInput \<Rightarrow> bool" where
  "memoGood = (\<lambda>(url, g, cfg). plainNames (tgScopes g) \<and> plainNames (xcTLSCipherSuites cfg))"

definition sameSettings :: "teTarget \<Rightarrow> teTarget \<Rightarrow> bool" where
  "sameSettings t u \<longleftrightarrow> ttConfig t = ttConfig u"

text \<open>Client authentication that is left out has empty fields, in the key and in the settings.\<close>

lemma GetClientAuth_fields:
  assumes "GetClientAuth g = None"
  shows "tgClientAuth g = \<lparr>caMethod = [], caClientID = [], caClientSecret = [], caCertificateFile = [], caPrivateKeyFile = [], caTokenFile = []\<rparr>"
  using assms by (cases "tgClientAuth g") (auto simp: GetClientAuth_def Let_def split: if_splits)

lemma GetClientAuth_Some: "GetClientAuth g = Some a \<Longrightarrow> a = tgClientAuth g"
  by (auto simp: GetClientAuth_def Let_def split: if_splits)

lemma key_auth:
  "(case GetClientAuth g of Some a \<Rightarrow> a
    | None \<Rightarrow> \<lparr>caMethod = [], caClientID = [], caClientSecret = [], caCertificateFile = [], caPrivateKeyFile = [], caTokenFile = []\<rparr>)
   = tgClientAuth g"
  by (auto simp: GetClientAuth_fields GetClientAuth_Some split: option.splits)

lemma apply_auth:
  assumes "tgClientAuth g1 = tgClientAuth g2"
  shows "GetClientAuth g1 = GetClientAuth g2"
  using assms by (simp add: GetClientAuth_def)

lemma key_determines_target:
  assumes "memoGood (u1, g1, c1)" "memoGood (u2, g2, c2)"
    "newTokenExchangeConfigCacheKey u1 g1 c1 = newTokenExchangeConfigCacheKey u2 g2 c2"
  shows "ttConfig (buildTarget u1 g1 c1) = ttConfig (buildTarget u2 g2 c2)"
proof -
  note key = assms(3) [unfolded newTokenExchangeConfigCacheKey_def key_auth Let_def]
  have "tgScopes g1 = tgScopes g2" "xcTLSCipherSuites c1 = xcTLSCipherSuites c2"
    using assms(1,2) key goJoin_inj by (auto simp: memoGood_def)
  moreover have "tgClientAuth g1 = tgClientAuth g2"
    using key by (cases "tgClientAuth g1"; cases "tgClientAuth g2") simp
  ultimately show ?thesis using key apply_auth [of g1 g2] by (simp add: buildTarget_def SetRequireTLS_def)
qed

interpretation tokenMemo: keyed_memo memoKey memoBuild memoGood sameSettings
  by unfold_locales
    (auto simp: sameSettings_def memoKey_def memoBuild_def intro: key_determines_target)

lemma HTTPClient_keeps: "ttConfig (snd (HTTPClient lib t)) = ttConfig t"
  by (auto simp: HTTPClient_def Let_def split: sum.splits option.splits)

lemma Exchange_keeps: "ttConfig (snd (Exchange lib e subject t)) = ttConfig t"
  using HTTPClient_keeps [of lib t] by (auto simp: Exchange_def split: sum.splits prod.splits)

lemma exchangeToken_keeps:
  assumes "teRequireTLS (ttConfig t) = Some (xcRequireTLS cfg)"
  shows "ttConfig (snd (exchangeToken lib cfg subject strategy ctx t)) = ttConfig t"
proof -
  have "ttConfig (SetRequireTLS (xcRequireTLS cfg) t) = ttConfig t"
    using assms by (cases t; cases "ttConfig t") (simp add: SetRequireTLS_def)
  then show ?thesis using Exchange_keeps [of lib _ subject "SetRequireTLS (xcRequireTLS cfg) t"]
    by (auto simp: exchangeToken_def split: option.splits sum.splits prod.splits; metis snd_conv)
qed

lemma ExchangeTokenInContext_keeps:
  assumes "teRequireTLS (ttConfig t) = Some (xcRequireTLS cfg)"
  shows "\<exists>u. snd (snd (ExchangeTokenInContext lib cfg pt (Some t) ctx)) = Some u \<and> sameSettings u t"
  using exchangeToken_keeps [OF assms, of lib "trimPrefix (the (cxAuthorization ctx)) ''Bearer ''" _ ctx]
  by (auto simp: ExchangeTokenInContext_def sameSettings_def Let_def split: option.splits prod.splits; metis snd_conv)

lemma buildTarget_requireTLS: "teRequireTLS (ttConfig (buildTarget url g cfg)) = Some (xcRequireTLS cfg)"
  by (simp add: buildTarget_def SetRequireTLS_def)

text \<open>A history of calls, each with the endpoint and the configuration of its moment.\<close>

fun exchangeHistory ::
    "(stsLib \<times> string option \<times> exchangeCfg \<times> (string \<times> teTarget) option \<times> callCtx) list \<Rightarrow> (teKey \<times> teTarget) option \<Rightarrow>
     (teKey \<times> teTarget) option" where
  "exchangeHistory [] cache = cache"
| "exchangeHistory ((lib, snap, cfg, pt, ctx) # calls) cache = exchangeHistory calls (snd (exchangeLayer lib snap cfg pt ctx cache))"

definition plainCfg :: "exchangeCfg \<Rightarrow> bool" where
  "plainCfg cfg \<longleftrightarrow> plainNames (xcTLSCipherSuites cfg) \<and> (\<forall>g. xcTokenExchange cfg = Some g \<longrightarrow> plainNames (tgScopes g))"

lemma getOrBuild_current:
  assumes "tokenMemo.coherent cache" "plainCfg cfg" "getOrBuildTokenExchangeConfig endpoint cfg cache = (Some t, cache')"
  shows "\<exists>g k. xcTokenExchange cfg = Some g \<and> cache' = Some (k, t) \<and> tokenMemo.coherent cache'
    \<and> ttConfig t = ttConfig (buildTarget (if tgTokenURL g = [] then endpoint else tgTokenURL g) g cfg)"
proof -
  from assms(3) obtain g where g: "xcTokenExchange cfg = Some g"
    by (auto simp: getOrBuildTokenExchangeConfig_def split: option.splits)
  let ?i = "(if tgTokenURL g = [] then endpoint else tgTokenURL g, g, cfg)"
  from assms(3) g have r: "getOrReplace (memoKey ?i) (memoBuild ?i) cache = (t, cache')"
    by (auto simp: getOrBuildTokenExchangeConfig_def memoKey_def memoBuild_def Let_def split: if_splits prod.splits)
  have "memoGood ?i" using assms(2) g by (simp add: memoGood_def plainCfg_def)
  from tokenMemo.current [OF assms(1) this r] g show ?thesis by (auto simp: sameSettings_def memoBuild_def)
qed

lemma getOrBuild_None:
  "getOrBuildTokenExchangeConfig endpoint cfg cache = (None, cache') \<Longrightarrow> cache' = None"
  by (auto simp: getOrBuildTokenExchangeConfig_def Let_def split: option.splits if_splits prod.splits)

lemma exchangeLayer_coherent:
  assumes "tokenMemo.coherent cache" "plainCfg cfg"
  shows "tokenMemo.coherent (snd (exchangeLayer lib snap cfg pt ctx cache))"
proof (cases snap)
  case None
  then show ?thesis using assms(1) by (simp add: exchangeLayer_def)
next
  case (Some endpoint)
  obtain glob cache1 where gb: "getOrBuildTokenExchangeConfig endpoint cfg cache = (glob, cache1)" by (metis prod.exhaust)
  obtain res p glob' where ex: "ExchangeTokenInContext lib cfg pt glob ctx = (res, p, glob')" by (metis prod.exhaust)
  have layer: "snd (exchangeLayer lib snap cfg pt ctx cache) = (case (cache1, glob') of (Some (k, _), Some t) \<Rightarrow> Some (k, t) | _ \<Rightarrow> cache1)"
    using Some gb ex by (simp add: exchangeLayer_def)
  show ?thesis
  proof (cases glob)
    case None
    then have "cache1 = None" using getOrBuild_None gb by blast
    then show ?thesis using layer by (simp add: tokenMemo.coherent_empty)
  next
    case t: (Some t)
    from getOrBuild_current [OF assms] gb t obtain g k where gk: "cache1 = Some (k, t)" "tokenMemo.coherent cache1"
      "ttConfig t = ttConfig (buildTarget (if tgTokenURL g = [] then endpoint else tgTokenURL g) g cfg)" by blast
    then have "teRequireTLS (ttConfig t) = Some (xcRequireTLS cfg)" by (simp add: buildTarget_requireTLS)
    from ExchangeTokenInContext_keeps [OF this, of lib pt ctx] ex t obtain u where "glob' = Some u" "sameSettings u t" by auto
    then show ?thesis using layer gk(1,2) tokenMemo.coherent_update by auto
  qed
qed

lemma exchangeHistory_coherent:
  "tokenMemo.coherent cache \<Longrightarrow> \<forall>(lib, snap, cfg, pt, ctx) \<in> set calls. plainCfg cfg \<Longrightarrow>
    tokenMemo.coherent (exchangeHistory calls cache)"
  by (induction calls cache rule: exchangeHistory.induct) (auto intro: exchangeLayer_coherent)

text \<open>
  C26. Whatever calls came before, with whatever configurations, the memoized settings that an
  exchange uses are those of the configuration of its own moment: the key that decides about
  reuse determines every setting, as long as no scope or cipher suite is empty or contains the
  NUL byte that separates them in the key.
\<close>

theorem exchange_settings_are_current:
  assumes "\<forall>(lib, snap, cfg, pt, ctx) \<in> set calls. plainCfg cfg" and "plainCfg cfg" and "xcTokenExchange cfg = Some g"
    and "url = (if tgTokenURL g = [] then endpoint else tgTokenURL g)" and "url \<noteq> []"
  shows "\<exists>t. fst (getOrBuildTokenExchangeConfig endpoint cfg (exchangeHistory calls None)) = Some t
    \<and> ttConfig t = ttConfig (buildTarget url g cfg)"
proof -
  obtain r cache' where r: "getOrBuildTokenExchangeConfig endpoint cfg (exchangeHistory calls None) = (r, cache')"
    by (metis prod.exhaust)
  have "r \<noteq> None" using r assms(3-5) by (auto simp: getOrBuildTokenExchangeConfig_def Let_def split: prod.splits)
  then obtain t where t: "r = Some t" by auto
  from getOrBuild_current [OF exchangeHistory_coherent [OF tokenMemo.coherent_empty assms(1)] assms(2) r [unfolded t]]
  show ?thesis using r t assms(3,4) by auto
qed

definition exampleGlobal :: "string list \<Rightarrow> teGlobal" where
  "exampleGlobal scopes = \<lparr>tgStrategy = ''rfc8693'', tgAudience = ''k8s'', tgScopes = scopes, tgSubjectTokenType = [],
     tgRequestedTokenType = [], tgTokenURL = ''https://sts'', tgClientAuth = \<lparr>caMethod = ''client_secret_post'', caClientID = ''mcp'',
     caClientSecret = ''s3'', caCertificateFile = [], caPrivateKeyFile = [], caTokenFile = []\<rparr>\<rparr>"

definition exampleExchangeCfg :: "string list \<Rightarrow> exchangeCfg" where
  "exampleExchangeCfg scopes = \<lparr>xcTokenExchange = Some (exampleGlobal scopes), xcClusterAuthMode = ''passthrough'',
     xcCertificateAuthority = [], xcTLSMinVersion = [], xcTLSCipherSuites = [], xcRequireTLS = True\<rparr>"

definition exampleCtx :: callCtx where
  "exampleCtx = \<lparr>cxAuthorization = Some ''Bearer user'', cxUserAgent = None\<rparr>"

theorem exchange_settings_are_current_witness:
  "\<exists>t. fst (getOrBuildTokenExchangeConfig [] (exampleExchangeCfg [''b''])
       (exchangeHistory [(exampleSts, Some [], exampleExchangeCfg [''a''], None, exampleCtx)] None)) = Some t
    \<and> teScopes (ttConfig t) = [''b'']"
proof -
  have "\<exists>t. fst (getOrBuildTokenExchangeConfig [] (exampleExchangeCfg [''b''])
       (exchangeHistory [(exampleSts, Some [], exampleExchangeCfg [''a''], None, exampleCtx)] None)) = Some t
    \<and> ttConfig t = ttConfig (buildTarget ''https://sts'' (exampleGlobal [''b'']) (exampleExchangeCfg [''b'']))"
    by (rule exchange_settings_are_current) (simp_all add: plainCfg_def plainNames_def exampleExchangeCfg_def exampleGlobal_def)
  then show ?thesis
    by (auto simp: buildTarget_def SetRequireTLS_def applyClientAuth_def GetClientAuth_def exampleGlobal_def Let_def)
qed

text \<open>
  What a caller's bearer token becomes. When the target or the configuration asks for an
  exchange, the Kubernetes client gets the token that the named strategy's endpoint issued for it,
  asked with validated settings and under the current TLS requirement, or the call fails; in
  kubeconfig mode the token is removed. It goes on as it is only in passthrough mode without any
  token exchange.
\<close>

lemma exchange_outcomes:
  assumes "cxAuthorization ctx = Some (''Bearer '' @ subject)"
    and "ExchangeTokenInContext lib cfg perTarget glob ctx = (Inr ctx', perTarget', glob')"
  shows "(\<exists>strategy t e tok. (perTarget = Some (strategy, t)
            \<or> (perTarget = None \<and> xcClusterAuthMode cfg = ClusterAuthPassthrough \<and> glob = Some t
               \<and> (\<exists>g. xcTokenExchange cfg = Some g \<and> strategy = tgStrategy g)))
          \<and> teValidate (ttConfig t) = None \<and> exchangerGet strategy exchangerRegistry = Some e
          \<and> fst (Exchange lib e subject (SetRequireTLS (xcRequireTLS cfg) t)) = Inr tok
          \<and> ctx' = ctx\<lparr>cxAuthorization := Some (''Bearer '' @ otAccessToken tok)\<rparr>)
    \<or> (perTarget = None \<and> xcClusterAuthMode cfg = ClusterAuthKubeconfig \<and> ctx' = ctx\<lparr>cxAuthorization := Some []\<rparr>)
    \<or> (perTarget = None \<and> xcClusterAuthMode cfg = ClusterAuthPassthrough \<and> xcTokenExchange cfg = None \<and> ctx' = ctx)"
proof -
  have auth: "hasPrefix (''Bearer '' @ subject) ''Bearer ''" "trimPrefix (''Bearer '' @ subject) ''Bearer '' = subject"
    by (simp_all only: hasPrefix_append trimPrefix_append)
  have ex: "\<exists>e tok. teValidate (ttConfig t) = None \<and> exchangerGet strategy exchangerRegistry = Some e
      \<and> fst (Exchange lib e subject (SetRequireTLS (xcRequireTLS cfg) t)) = Inr tok
      \<and> ctx' = ctx\<lparr>cxAuthorization := Some (''Bearer '' @ otAccessToken tok)\<rparr>"
    if "exchangeToken lib cfg subject strategy ctx t = (Inr ctx', t')" for strategy t t'
    using that by (auto simp: exchangeToken_def split: option.splits sum.splits prod.splits)
  have step: "ExchangeTokenInContext lib cfg perTarget glob ctx =
      (case perTarget of
         Some (strategy, t) \<Rightarrow> (case exchangeToken lib cfg subject strategy ctx t of (res, t) \<Rightarrow> (res, Some (strategy, t), glob))
       | None \<Rightarrow>
           if xcClusterAuthMode cfg = ClusterAuthKubeconfig then (Inr (ctx\<lparr>cxAuthorization := Some []\<rparr>), perTarget, glob)
           else if xcClusterAuthMode cfg = ClusterAuthPassthrough then
             (case xcTokenExchange cfg of
                None \<Rightarrow> (Inr ctx, perTarget, glob)
              | Some g \<Rightarrow>
                  (case glob of
                     None \<Rightarrow> (Inl (NoTokenEndpoint (tgStrategy g)), perTarget, glob)
                   | Some t \<Rightarrow> (case exchangeToken lib cfg subject (tgStrategy g) ctx t of (res, t) \<Rightarrow> (res, perTarget, Some t))))
           else (Inl (UnknownAuthMode (xcClusterAuthMode cfg)), perTarget, glob))"
    unfolding ExchangeTokenInContext_def assms(1) Let_def by (simp only: option.case auth simp_thms if_False)
  show ?thesis
  proof (cases perTarget)
    case (Some p)
    then obtain strategy t t' where p: "perTarget = Some (strategy, t)" "exchangeToken lib cfg subject strategy ctx t = (Inr ctx', t')"
      using assms(2) step by (cases p) (auto split: prod.splits)
    from ex [OF p(2)] p(1) show ?thesis by blast
  next
    case None
    show ?thesis
    proof (cases "xcClusterAuthMode cfg = ClusterAuthPassthrough \<and> xcTokenExchange cfg \<noteq> None")
      case True
      then obtain g t t' where "xcTokenExchange cfg = Some g" "glob = Some t"
        "exchangeToken lib cfg subject (tgStrategy g) ctx t = (Inr ctx', t')"
        using assms(2) step None
        by (auto simp: ClusterAuthPassthrough_def ClusterAuthKubeconfig_def split: option.splits prod.splits)
      with ex [of "tgStrategy g" t t'] None True show ?thesis by blast
    next
      case False
      then show ?thesis using assms(2) step None by (auto split: if_splits option.splits)
    qed
  qed
qed

end
