(* ===== verification/Cluster_Providers.thy ===== *)
theory Cluster_Providers
  imports Token_Exchange
begin

text \<open>
  \<open>pkg/kubernetes\<close>: \<open>manager.go\<close>, \<open>provider_kubeconfig.go\<close>, \<open>provider_single.go\<close> and the choice of
  a strategy in \<open>provider.go\<close>. Which kubeconfig context a manager is for, with which credentials a
  tool call reaches the cluster, how the managers of a provider follow the configuration, and the
  token exchanging provider around them. Loading a kubeconfig and building the client-go clients
  are parameters.
\<close>

section \<open>Managers\<close>

text \<open>
  The configuration as the managers read it; \<open>kcPolicy\<close> is what the access control round tripper
  enforces.
\<close>

record 'p clusterCfg =
  kcKubeConfig :: string
  kcStrategy :: string
  kcRequireOAuth :: bool
  kcQPS :: goFloat
  kcBurst :: int
  kcPolicy :: 'p

record restConfig =
  rcHost :: string
  rcAPIPath :: string
  rcInsecure :: bool
  rcServerName :: string
  rcCAFile :: string
  rcCAData :: string
  rcClientCert :: string
  rcBearerToken :: string
  rcBearerTokenFile :: string
  rcUsername :: string
  rcPassword :: string
  rcExec :: "string option"
  rcImpersonate :: string
  rcUserAgent :: string
  rcQPS :: goFloat
  rcBurst :: int
  rcTimeout :: int

text \<open>A kubeconfig: its current context and the names of its contexts.\<close>

record kubeRaw =
  krCurrent :: string
  krContexts :: "string list"

record kubeWorld =
  kwInCluster :: "restConfig option"
  kwLoad :: "string \<Rightarrow> string + kubeRaw"
  kwClientConfig :: "string \<Rightarrow> string \<Rightarrow> string + restConfig"
  kwNewClient :: "restConfig \<Rightarrow> string option"

datatype kubeErr =
    KubeconfigInClusterNotAllowed | InClusterNotInCluster | KubeconfigWithInCluster string
  | LoadFailed string | NoContexts | AmbiguousContexts "string list"
  | RestConfigFailed string | ClientFailed string | RawConfigFailed string
  | TokenRequired | UnknownTarget kubeErr | OtherTarget string | NotInitialized | ProviderClosed | ConfigNil
  | ExchangeFailed teErr
  | NoCurrentContext | ContextClusterMissing | NoWorkspaceInURL | BaseManagerFailed kubeErr | DiscoveryFailed string
  | NoBaseClient kubeErr | WorkspaceUnknown string | NilDereference

record 'p manager =
  mgRest :: restConfig
  mgContext :: string
  mgRaw :: "string + kubeRaw"
  mgConfig :: "'p clusterCfg"

definition IsInCluster :: "kubeWorld \<Rightarrow> string \<Rightarrow> bool" where
  "IsInCluster w path = (if path \<noteq> [] then False else kwInCluster w \<noteq> None)"

definition resolveKubeconfigContext :: "kubeWorld \<Rightarrow> string \<Rightarrow> string \<Rightarrow> kubeErr + string" where
  "resolveKubeconfigContext w path ctx =
     (if ctx \<noteq> [] then Inr ctx
      else (case kwLoad w path of
          Inl err \<Rightarrow> Inl (LoadFailed err)
        | Inr raw \<Rightarrow>
            if krCurrent raw \<noteq> [] then Inr (krCurrent raw)
            else (case krContexts raw of
                [] \<Rightarrow> Inl NoContexts
              | [name] \<Rightarrow> Inr name
              | names \<Rightarrow> Inl (AmbiguousContexts (sort names)))))"

definition floatZero :: "goFloat \<Rightarrow> bool" where
  "floatZero f = (case f of Float m _ \<Rightarrow> m = 0)"

definition applyRateLimit :: "'p clusterCfg \<Rightarrow> restConfig \<Rightarrow> restConfig" where
  "applyRateLimit cfg rc =
     (let rc = (if \<not> floatZero (kcQPS cfg) then rc\<lparr>rcQPS := kcQPS cfg\<rparr> else rc)
      in if kcBurst cfg \<noteq> 0 then rc\<lparr>rcBurst := kcBurst cfg\<rparr> else rc)"

definition NewManager :: "kubeWorld \<Rightarrow> 'p clusterCfg \<Rightarrow> restConfig \<Rightarrow> string + kubeRaw \<Rightarrow> kubeErr + 'p manager" where
  "NewManager w cfg rc raw =
     (let rc = applyRateLimit cfg rc
      in (case kwNewClient w rc of
            Some err \<Rightarrow> Inl (ClientFailed err)
          | None \<Rightarrow> Inr \<lparr>mgRest = rc, mgContext = [], mgRaw = raw, mgConfig = cfg\<rparr>))"

definition NewKubeconfigManager :: "kubeWorld \<Rightarrow> 'p clusterCfg \<Rightarrow> string \<Rightarrow> kubeErr + 'p manager" where
  "NewKubeconfigManager w cfg ctx =
     (if IsInCluster w (kcKubeConfig cfg) then Inl KubeconfigInClusterNotAllowed
      else (case resolveKubeconfigContext w (kcKubeConfig cfg) ctx of
          Inl err \<Rightarrow> Inl err
        | Inr resolved \<Rightarrow>
            (case kwClientConfig w (kcKubeConfig cfg) resolved of
               Inl err \<Rightarrow> Inl (RestConfigFailed err)
             | Inr rc \<Rightarrow>
                 map_sum id (\<lambda>m. m\<lparr>mgContext := resolved\<rparr>) (NewManager w cfg rc (kwLoad w (kcKubeConfig cfg))))))"

definition NewInClusterManager :: "kubeWorld \<Rightarrow> 'p clusterCfg \<Rightarrow> kubeErr + 'p manager" where
  "NewInClusterManager w cfg =
     (if kcKubeConfig cfg \<noteq> [] then Inl (KubeconfigWithInCluster (kcKubeConfig cfg))
      else if \<not> IsInCluster w (kcKubeConfig cfg) then Inl InClusterNotInCluster
      else NewManager w cfg ((the (kwInCluster w))\<lparr>rcHost := ''https://kubernetes.default.svc''\<rparr>)
        (Inr \<lparr>krCurrent = ''in-cluster'', krContexts = [''in-cluster'']\<rparr>))"

definition SetConfig :: "'p clusterCfg \<Rightarrow> 'p manager \<Rightarrow> 'p manager" where
  "SetConfig cfg m = m\<lparr>mgConfig := cfg\<rparr>"

text \<open>
  The client of one call: the manager's own, or a new one. The configuration it enforces is read
  from its manager at every request.
\<close>

record derivedClient =
  dvRest :: restConfig
  dvShared :: bool
  dvContext :: string

definition CustomUserAgent :: string where
  "CustomUserAgent = ''kubernetes-mcp-server/bearer-token-auth''"

definition derivedRest :: "restConfig \<Rightarrow> string \<Rightarrow> string \<Rightarrow> restConfig" where
  "derivedRest rc token userAgent =
     \<lparr>rcHost = rcHost rc, rcAPIPath = rcAPIPath rc, rcInsecure = rcInsecure rc, rcServerName = rcServerName rc,
      rcCAFile = rcCAFile rc, rcCAData = rcCAData rc, rcClientCert = [], rcBearerToken = token, rcBearerTokenFile = [],
      rcUsername = [], rcPassword = [], rcExec = None, rcImpersonate = [], rcUserAgent = userAgent, rcQPS = rcQPS rc,
      rcBurst = rcBurst rc, rcTimeout = rcTimeout rc\<rparr>"

definition Derived :: "kubeWorld \<Rightarrow> 'p manager \<Rightarrow> callCtx \<Rightarrow> kubeErr + derivedClient" where
  "Derived w m ctx =
     (let hasToken = (case cxAuthorization ctx of None \<Rightarrow> False | Some a \<Rightarrow> hasPrefix a ''Bearer '')
      in if \<not> hasToken then
           (if kcRequireOAuth (mgConfig m) then Inl TokenRequired
            else Inr \<lparr>dvRest = mgRest m, dvShared = True, dvContext = mgContext m\<rparr>)
         else
           let userAgent = (case cxUserAgent ctx of None \<Rightarrow> CustomUserAgent | Some ua \<Rightarrow> if ua \<noteq> [] then ua else CustomUserAgent);
               rc = derivedRest (mgRest m) (trimPrefix (the (cxAuthorization ctx)) ''Bearer '') userAgent
           in (case mgRaw m of
                 Inl err \<Rightarrow> Inl (RawConfigFailed err)
               | Inr raw \<Rightarrow>
                   let current = (if mgContext m \<noteq> [] then mgContext m else krCurrent raw)
                   in (case kwNewClient w rc of
                         Some err \<Rightarrow> Inl (ClientFailed err)
                       | None \<Rightarrow> Inr \<lparr>dvRest = rc, dvShared = False, dvContext = current\<rparr>)))"

section \<open>The kubeconfig provider\<close>

text \<open>A context without a manager yet is a nil entry.\<close>

record 'p kubeProvider =
  kpConfig :: "'p clusterCfg"
  kpDefault :: string
  kpManagers :: "(string \<times> 'p manager option) list"
  kpClosed :: bool

text \<open>
  The last step of a reset replaces the watchers, which fails when the group was closed in the
  meantime (\<open>closing\<close>); the managers are then already the new ones.
\<close>

definition kpReset :: "bool \<Rightarrow> kubeWorld \<Rightarrow> 'p kubeProvider \<Rightarrow> kubeErr option \<times> 'p kubeProvider" where
  "kpReset closing w p =
     (if kpClosed p then (Some ProviderClosed, p)
      else (case NewKubeconfigManager w (kpConfig p) [] of
          Inl err \<Rightarrow> (Some err, p)
        | Inr m \<Rightarrow>
            (case mgRaw m of
               Inl err \<Rightarrow> (Some (RawConfigFailed err), p)
             | Inr raw \<Rightarrow>
                 let def = (if krCurrent raw = [] \<and> length (krContexts raw) = 1 then hd (krContexts raw) else krCurrent raw)
                 in (if closing then Some ProviderClosed else None,
                     p\<lparr>kpManagers := (def, Some m) # map (\<lambda>n. (n, None)) (filter (\<lambda>n. n \<noteq> def) (krContexts raw)),
                       kpDefault := def, kpClosed := closing\<rparr>))))"

definition kpManagerForContext :: "kubeWorld \<Rightarrow> string \<Rightarrow> 'p kubeProvider \<Rightarrow> (kubeErr + 'p manager) \<times> 'p kubeProvider" where
  "kpManagerForContext w ctx p =
     (case map_of (kpManagers p) ctx of
        Some (Some m) \<Rightarrow> (Inr m, p)
      | _ \<Rightarrow>
          (case NewKubeconfigManager w (kpConfig p) ctx of
             Inl err \<Rightarrow> (Inl (UnknownTarget err), p)
           | Inr m \<Rightarrow> (Inr m, p\<lparr>kpManagers := assocUpd ctx (Some m) (kpManagers p)\<rparr>)))"

definition kpGetDerived ::
    "kubeWorld \<Rightarrow> string \<Rightarrow> callCtx \<Rightarrow> 'p kubeProvider \<Rightarrow> (kubeErr + derivedClient) \<times> 'p kubeProvider" where
  "kpGetDerived w target ctx p =
     (case kpManagerForContext w target p of
        (Inl err, p) \<Rightarrow> (Inl err, p)
      | (Inr m, p) \<Rightarrow> (Derived w m ctx, p))"

definition kpIsMultiTarget :: "'p kubeProvider \<Rightarrow> bool" where
  "kpIsMultiTarget p \<longleftrightarrow> 1 < length (kpManagers p)"

definition kpGetTargets :: "'p kubeProvider \<Rightarrow> string list" where
  "kpGetTargets p = map fst (kpManagers p)"

definition kpReloadConfig :: "'p clusterCfg \<Rightarrow> 'p kubeProvider \<Rightarrow> 'p kubeProvider" where
  "kpReloadConfig cfg p = p\<lparr>kpConfig := cfg\<rparr>"

definition kpPublish :: "'p clusterCfg \<Rightarrow> 'p kubeProvider \<Rightarrow> 'p kubeProvider" where
  "kpPublish cfg p = p\<lparr>kpManagers := map (\<lambda>(n, m). (n, map_option (SetConfig cfg) m)) (kpManagers p)\<rparr>"

definition newKubeConfigClusterProvider :: "kubeWorld \<Rightarrow> 'p clusterCfg \<Rightarrow> kubeErr + 'p kubeProvider" where
  "newKubeConfigClusterProvider w cfg =
     (case kpReset False w \<lparr>kpConfig = cfg, kpDefault = [], kpManagers = [], kpClosed = False\<rparr> of
        (Some err, _) \<Rightarrow> Inl err | (None, p) \<Rightarrow> Inr p)"

section \<open>The single-cluster provider\<close>

record 'p singleProvider =
  spConfig :: "'p clusterCfg"
  spStrategy :: string
  spManager :: "'p manager option"
  spClosed :: bool

definition spReset :: "bool \<Rightarrow> kubeWorld \<Rightarrow> 'p singleProvider \<Rightarrow> kubeErr option \<times> 'p singleProvider" where
  "spReset closing w p =
     (if spClosed p then (Some ProviderClosed, p)
      else if kcKubeConfig (spConfig p) \<noteq> [] \<and> spStrategy p = ''in-cluster''
        then (Some (KubeconfigWithInCluster (kcKubeConfig (spConfig p))), p)
      else (case (if spStrategy p = ''in-cluster'' \<or> IsInCluster w (kcKubeConfig (spConfig p))
                  then NewInClusterManager w (spConfig p) else NewKubeconfigManager w (spConfig p) []) of
          Inl err \<Rightarrow> (Some err, p)
        | Inr m \<Rightarrow> (if closing then Some ProviderClosed else None, p\<lparr>spManager := Some m, spClosed := closing\<rparr>)))"

definition spGetDerived ::
    "kubeWorld \<Rightarrow> string \<Rightarrow> callCtx \<Rightarrow> 'p singleProvider \<Rightarrow> (kubeErr + derivedClient) \<times> 'p singleProvider" where
  "spGetDerived w target ctx p =
     (if target \<noteq> [] then (Inl (OtherTarget (spStrategy p)), p)
      else (case spManager p of None \<Rightarrow> (Inl NotInitialized, p) | Some m \<Rightarrow> (Derived w m ctx, p)))"

definition spReloadConfig :: "'p clusterCfg \<Rightarrow> 'p singleProvider \<Rightarrow> 'p singleProvider" where
  "spReloadConfig cfg p = p\<lparr>spConfig := cfg\<rparr>"

definition spPublish :: "'p clusterCfg \<Rightarrow> 'p singleProvider \<Rightarrow> 'p singleProvider" where
  "spPublish cfg p = p\<lparr>spManager := map_option (SetConfig cfg) (spManager p)\<rparr>"

definition resolveStrategy :: "kubeWorld \<Rightarrow> 'p clusterCfg \<Rightarrow> string" where
  "resolveStrategy w cfg =
     (if kcStrategy cfg \<noteq> [] then kcStrategy cfg
      else if kcKubeConfig cfg \<noteq> [] then ''kubeconfig''
      else if kwInCluster w \<noteq> None then ''in-cluster''
      else ''kubeconfig'')"

section \<open>Who a call is on the cluster\<close>

definition bearerOf :: "callCtx \<Rightarrow> string option" where
  "bearerOf ctx = (case cxAuthorization ctx of None \<Rightarrow> None
     | Some a \<Rightarrow> if hasPrefix a ''Bearer '' then Some (trimPrefix a ''Bearer '') else None)"

definition onlyBearer :: "restConfig \<Rightarrow> string \<Rightarrow> bool" where
  "onlyBearer rc token \<longleftrightarrow> rcBearerToken rc = token \<and> rcClientCert rc = [] \<and> rcBearerTokenFile rc = [] \<and> rcUsername rc = []
     \<and> rcPassword rc = [] \<and> rcExec rc = None \<and> rcImpersonate rc = []"

definition sameServer :: "restConfig \<Rightarrow> restConfig \<Rightarrow> bool" where
  "sameServer a b \<longleftrightarrow> rcHost a = rcHost b \<and> rcAPIPath a = rcAPIPath b \<and> rcInsecure a = rcInsecure b
     \<and> rcServerName a = rcServerName b \<and> rcCAFile a = rcCAFile b \<and> rcCAData a = rcCAData b"

text \<open>The identity that a call has: the caller's token and nothing else, or the manager's own.\<close>

definition identityOf :: "'p manager \<Rightarrow> callCtx \<Rightarrow> derivedClient \<Rightarrow> bool" where
  "identityOf m ctx k \<longleftrightarrow> sameServer (dvRest k) (mgRest m)
     \<and> (case bearerOf ctx of
          Some token \<Rightarrow> onlyBearer (dvRest k) token \<and> \<not> dvShared k
        | None \<Rightarrow> dvShared k \<and> dvRest k = mgRest m \<and> \<not> kcRequireOAuth (mgConfig m))"

lemma Derived_identity: "Derived w m ctx = Inr k \<Longrightarrow> identityOf m ctx k"
  by (auto simp: Derived_def identityOf_def bearerOf_def onlyBearer_def sameServer_def derivedRest_def Let_def
      split: option.splits if_splits sum.splits)

text \<open>What the token exchanging provider needs of the provider it wraps.\<close>

locale cluster_provider =
  fixes getDerived :: "'w \<Rightarrow> string \<Rightarrow> callCtx \<Rightarrow> 's \<Rightarrow> (kubeErr + derivedClient) \<times> 's"
    and managerOf :: "'s \<Rightarrow> string \<Rightarrow> 'p manager option"
  assumes derived_by_manager:
    "getDerived w target ctx s = (Inr k, s') \<Longrightarrow> \<exists>m. managerOf s' target = Some m \<and> (\<exists>kw. Derived kw m ctx = Inr k)"
begin

lemma derived_identity: "getDerived w target ctx s = (Inr k, s') \<Longrightarrow> \<exists>m. managerOf s' target = Some m \<and> identityOf m ctx k"
  using derived_by_manager Derived_identity by blast

lemma oauth_never_shares:
  assumes "getDerived w target ctx s = (Inr k, s')" "\<forall>m. managerOf s' target = Some m \<longrightarrow> kcRequireOAuth (mgConfig m)"
  shows "\<exists>token. bearerOf ctx = Some token \<and> onlyBearer (dvRest k) token"
  using derived_identity [OF assms(1)] assms(2) by (auto simp: identityOf_def split: option.splits)

end

text \<open>\<open>GetDerivedKubernetes\<close> of the token exchanging provider.\<close>

definition teGetDerived ::
    "('w \<Rightarrow> string \<Rightarrow> callCtx \<Rightarrow> 's \<Rightarrow> (kubeErr + derivedClient) \<times> 's) \<Rightarrow> stsLib \<Rightarrow> 'w \<Rightarrow> string option \<Rightarrow>
     exchangeCfg \<Rightarrow> (string \<times> teTarget) option \<Rightarrow> string \<Rightarrow> callCtx \<Rightarrow> (teKey \<times> teTarget) option \<times> 's \<Rightarrow>
     (kubeErr + derivedClient) \<times> (teKey \<times> teTarget) option \<times> 's" where
  "teGetDerived getDerived lib w snap cfg perTarget target ctx st =
     (case exchangeLayer lib snap cfg perTarget ctx (fst st) of
        (Inl err, cache) \<Rightarrow> (Inl (ExchangeFailed err), cache, snd st)
      | (Inr ctx', cache) \<Rightarrow>
          (case getDerived w target ctx' (snd st) of (res, s) \<Rightarrow> (res, cache, s)))"

definition kpManagersOf :: "'p kubeProvider \<Rightarrow> 'p manager set" where
  "kpManagersOf p = {m. \<exists>n. (n, Some m) \<in> set (kpManagers p)}"

lemma assocUpd_mem: "\<exists>n. (n, v) \<in> set (assocUpd k v ps)"
  by (induction k v ps rule: assocUpd.induct) auto

lemma assocUpd_subset: "set (assocUpd k v ps) \<subseteq> insert (k, v) (set ps)"
  by (induction k v ps rule: assocUpd.induct) auto

lemma kpManagerForContext_mem: "kpManagerForContext w ctx p = (Inr m, p') \<Longrightarrow> m \<in> kpManagersOf p'"
  by (auto simp: kpManagerForContext_def kpManagersOf_def intro: assocUpd_mem
      split: option.splits sum.splits dest: map_of_SomeD)

definition kpManagerOf :: "'p kubeProvider \<Rightarrow> string \<Rightarrow> 'p manager option" where
  "kpManagerOf p target = (case map_of (kpManagers p) target of Some (Some m) \<Rightarrow> Some m | _ \<Rightarrow> None)"

definition spManagerOf :: "'p singleProvider \<Rightarrow> string \<Rightarrow> 'p manager option" where
  "spManagerOf p target = (if target = [] then spManager p else None)"

text \<open>The manager of a context is the one it had, or a new one for that very context.\<close>

lemma kpManagerForContext_of:
  "kpManagerForContext w ctx p = (Inr m, p') \<Longrightarrow> kpManagerOf p' ctx = Some m
    \<and> (kpManagerOf p ctx = Some m \<or> kpManagerOf p ctx = None \<and> NewKubeconfigManager w (kpConfig p) ctx = Inr m)"
  by (auto simp: kpManagerForContext_def kpManagerOf_def split: option.splits sum.splits)

lemma kpGetDerived_by:
  "kpGetDerived w target ctx p = (Inr k, p') \<Longrightarrow> \<exists>m. Derived w m ctx = Inr k \<and> kpManagerOf p' target = Some m
    \<and> (kpManagerOf p target = Some m \<or> kpManagerOf p target = None \<and> NewKubeconfigManager w (kpConfig p) target = Inr m)"
  by (auto simp: kpGetDerived_def split: prod.splits sum.splits dest: kpManagerForContext_of)

interpretation kp: cluster_provider kpGetDerived kpManagerOf
  by unfold_locales (use kpGetDerived_by in blast)

interpretation sp: cluster_provider spGetDerived spManagerOf
  by unfold_locales (auto simp: spGetDerived_def spManagerOf_def split: option.splits if_splits)

lemma exchangeLayer_Some:
  assumes "exchangeLayer lib (Some endpoint) cfg perTarget ctx cache = (Inr ctx', cache')"
  shows "\<exists>glob pt glob'. ExchangeTokenInContext lib cfg perTarget glob ctx = (Inr ctx', pt, glob')
    \<and> glob = fst (getOrBuildTokenExchangeConfig endpoint cfg cache)"
  using assms by (auto simp: exchangeLayer_def split: prod.splits)

lemma ExchangeTokenInContext_no_bearer:
  "bearerOf ctx = None \<Longrightarrow> ExchangeTokenInContext lib cfg perTarget glob ctx = (Inr ctx, perTarget, glob)"
  by (auto simp: ExchangeTokenInContext_def bearerOf_def split: option.splits if_splits)

lemma bearerOf_Some: "bearerOf ctx = Some subject \<Longrightarrow> cxAuthorization ctx = Some (''Bearer '' @ subject)"
  by (auto simp: bearerOf_def hasPrefix_iff trimPrefix_def hasPrefix_def split: option.splits if_splits)

lemma bearerOf_upd: "bearerOf (ctx\<lparr>cxAuthorization := Some (''Bearer '' @ t)\<rparr>) = Some t"
  "bearerOf (ctx\<lparr>cxAuthorization := Some []\<rparr>) = None"
proof -
  have "hasPrefix (''Bearer '' @ t) ''Bearer ''" "trimPrefix (''Bearer '' @ t) ''Bearer '' = t"
    by (simp_all only: hasPrefix_append trimPrefix_append)
  moreover have "cxAuthorization (ctx\<lparr>cxAuthorization := x\<rparr>) = x" for x by simp
  ultimately show "bearerOf (ctx\<lparr>cxAuthorization := Some (''Bearer '' @ t)\<rparr>) = Some t"
    by (simp only: bearerOf_def option.case if_True)
qed (simp add: bearerOf_def hasPrefix_def)

text \<open>
  C4. A call through the kubeconfig provider is served by the manager of its target, the one that
  the target had or a new one made for it, at the server and with the certificate checks of that
  manager. A caller with a bearer token is that caller on the cluster: without token exchange the
  bearer token is the caller's own, with it the one that the configured strategy got for it, and
  no client certificate, exec plugin or impersonation of the kubeconfig comes along. The
  credentials of the manager are used only for a caller without a token, or when the cluster
  authentication mode is \<open>kubeconfig\<close>, and never by a manager whose configuration requires OAuth.
\<close>

theorem cluster_calls_have_callers_identity:
  assumes "teGetDerived kpGetDerived lib w (Some endpoint) cfg None target ctx (cache, p) = (Inr k, cache', p')"
  shows "\<exists>m. kpManagerOf p' target = Some m
    \<and> (kpManagerOf p target = Some m \<or> kpManagerOf p target = None \<and> NewKubeconfigManager w (kpConfig p) target = Inr m)
    \<and> sameServer (dvRest k) (mgRest m)
    \<and> (if bearerOf ctx = None \<or> xcClusterAuthMode cfg = ClusterAuthKubeconfig
        then dvRest k = mgRest m \<and> \<not> kcRequireOAuth (mgConfig m)
        else (case xcTokenExchange cfg of
            None \<Rightarrow> onlyBearer (dvRest k) (the (bearerOf ctx))
          | Some g \<Rightarrow> \<exists>t e tok. fst (getOrBuildTokenExchangeConfig endpoint cfg cache) = Some t
              \<and> exchangerGet (tgStrategy g) exchangerRegistry = Some e
              \<and> fst (Exchange lib e (the (bearerOf ctx)) (SetRequireTLS (xcRequireTLS cfg) t)) = Inr tok
              \<and> onlyBearer (dvRest k) (otAccessToken tok)))"
proof -
  from assms(1) obtain ctx' c1 where x: "exchangeLayer lib (Some endpoint) cfg None ctx cache = (Inr ctx', c1)"
    and d: "kpGetDerived w target ctx' p = (Inr k, p')"
    by (auto simp: teGetDerived_def split: prod.splits sum.splits)
  obtain m where derived: "Derived w m ctx' = Inr k"
    and m: "kpManagerOf p' target = Some m"
      "kpManagerOf p target = Some m \<or> kpManagerOf p target = None \<and> NewKubeconfigManager w (kpConfig p) target = Inr m"
    using kpGetDerived_by [OF d] by blast
  have id: "identityOf m ctx' k" by (rule Derived_identity [OF derived])
  then have server: "sameServer (dvRest k) (mgRest m)" by (simp add: identityOf_def)
  have own: "dvRest k = mgRest m \<and> \<not> kcRequireOAuth (mgConfig m)" if "bearerOf ctx' = None"
    using id that by (simp add: identityOf_def)
  have token: "onlyBearer (dvRest k) t" if "bearerOf ctx' = Some t" for t
    using id that by (simp add: identityOf_def)
  from exchangeLayer_Some [OF x] obtain glob pt glob' where
    ex: "ExchangeTokenInContext lib cfg None glob ctx = (Inr ctx', pt, glob')"
    and glob: "glob = fst (getOrBuildTokenExchangeConfig endpoint cfg cache)" by blast
  show ?thesis
  proof (cases "bearerOf ctx")
    case None
    then have "ctx' = ctx" using ex ExchangeTokenInContext_no_bearer by fastforce
    then show ?thesis using m server own None by auto
  next
    case (Some subject)
    have modes: "ClusterAuthPassthrough \<noteq> ClusterAuthKubeconfig" by (simp add: ClusterAuthPassthrough_def ClusterAuthKubeconfig_def)
    from exchange_outcomes [OF bearerOf_Some [OF Some] ex] consider
        (exchanged) g t e tok where "xcClusterAuthMode cfg = ClusterAuthPassthrough" "xcTokenExchange cfg = Some g" "glob = Some t"
          "exchangerGet (tgStrategy g) exchangerRegistry = Some e"
          "fst (Exchange lib e subject (SetRequireTLS (xcRequireTLS cfg) t)) = Inr tok"
          "ctx' = ctx\<lparr>cxAuthorization := Some (''Bearer '' @ otAccessToken tok)\<rparr>"
      | (removed) "xcClusterAuthMode cfg = ClusterAuthKubeconfig" "ctx' = ctx\<lparr>cxAuthorization := Some []\<rparr>"
      | (kept) "xcClusterAuthMode cfg = ClusterAuthPassthrough" "xcTokenExchange cfg = None" "ctx' = ctx"
      by auto
    then show ?thesis
    proof cases
      case exchanged
      then show ?thesis using m server Some token [unfolded exchanged(6), OF bearerOf_upd(1)] glob modes by auto
    next
      case removed
      then show ?thesis using m server own bearerOf_upd(2) by auto
    next
      case kept
      then show ?thesis using m server token Some modes by auto
    qed
  qed
qed

section \<open>Managers follow the configuration\<close>

definition enforce :: "'p clusterCfg \<Rightarrow> 'p kubeProvider \<Rightarrow> bool" where
  "enforce cfg p \<longleftrightarrow> (\<forall>m \<in> kpManagersOf p. mgConfig m = cfg)"

lemma NewManager_config: "NewManager w cfg rc raw = Inr m \<Longrightarrow> mgConfig m = cfg"
  by (auto simp: NewManager_def Let_def split: option.splits)

lemma NewKubeconfigManager_config: "NewKubeconfigManager w cfg ctx = Inr m \<Longrightarrow> mgConfig m = cfg"
  by (auto simp: NewKubeconfigManager_def NewManager_config map_sum_def split: if_splits sum.splits)

lemma enforce_publish: "enforce cfg (kpPublish cfg p)"
proof -
  have "Some m = map_option (SetConfig cfg) b \<Longrightarrow> mgConfig m = cfg" for m b
    by (cases b) (auto simp: SetConfig_def)
  then show ?thesis by (auto simp: enforce_def kpManagersOf_def kpPublish_def)
qed

lemma enforce_reset: "enforce (kpConfig p) p \<Longrightarrow> enforce (kpConfig p) (snd (kpReset closing w p))"
  by (auto simp: kpReset_def enforce_def kpManagersOf_def Let_def NewKubeconfigManager_config
      split: sum.splits)

lemma enforce_derive: "enforce (kpConfig p) p \<Longrightarrow> enforce (kpConfig p) (snd (kpGetDerived w target ctx p))"
  using assocUpd_subset [of target _ "kpManagers p"]
  by (fastforce simp: kpGetDerived_def kpManagerForContext_def enforce_def kpManagersOf_def NewKubeconfigManager_config
      split: sum.splits option.splits)

lemma kpConfig_ops [simp]: "kpConfig (snd (kpReset closing w p)) = kpConfig p"
  "kpConfig (snd (kpGetDerived w target ctx p)) = kpConfig p" "kpConfig (kpReloadConfig cfg p) = cfg"
  "kpConfig (kpPublish cfg p) = kpConfig p"
  by (auto simp: kpReset_def kpGetDerived_def kpManagerForContext_def kpReloadConfig_def kpPublish_def Let_def
      split: sum.splits option.splits)

text \<open>What happens to a provider: a call, a change of the kubeconfig, a reload of the configuration.\<close>

datatype 'p providerOp = Call kubeWorld string callCtx | Rebuild bool kubeWorld | Reload "'p clusterCfg"

fun providerStep :: "'p providerOp \<Rightarrow> 'p kubeProvider \<Rightarrow> 'p kubeProvider" where
  "providerStep (Call w target ctx) p = snd (kpGetDerived w target ctx p)"
| "providerStep (Rebuild closing w) p = snd (kpReset closing w p)"
| "providerStep (Reload cfg) p = kpPublish cfg (kpReloadConfig cfg p)"

text \<open>
  C10. As long as a reload publishes what it installed without a call in between, every manager,
  whenever it was made, enforces the configuration that was published last.
\<close>

theorem managers_enforce_published_config:
  assumes "newKubeConfigClusterProvider w cfg = Inr p"
  shows "enforce (kpConfig (fold providerStep ops p)) (fold providerStep ops p)"
proof -
  have start: "enforce (kpConfig p) p"
  proof -
    let ?p0 = "\<lparr>kpConfig = cfg, kpDefault = [], kpManagers = [], kpClosed = False\<rparr> :: 'a kubeProvider"
    have "p = snd (kpReset False w ?p0)"
      using assms by (auto simp: newKubeConfigClusterProvider_def split: prod.splits option.splits)
    moreover have "enforce (kpConfig ?p0) ?p0" by (simp add: enforce_def kpManagersOf_def)
    ultimately show ?thesis using enforce_reset by fastforce
  qed
  have step: "enforce (kpConfig q) q \<Longrightarrow> enforce (kpConfig (providerStep op q)) (providerStep op q)" for op and q :: "'a kubeProvider"
    by (cases op) (simp_all add: enforce_derive enforce_reset enforce_publish)
  show ?thesis using start
    by (induction ops arbitrary: p) (simp_all add: step)
qed

text \<open>
  The reload of the MCP server installs the candidate in the provider first and publishes it
  later, or restores the old one when the candidate is refused. A call in between that needs a new
  manager makes it with the candidate, and restoring does not reach that manager: the refused
  configuration stays in force for its context.
\<close>

lemma refused_config_stays_in_force:
  assumes "enforce old p" and "map_of (kpManagers p) target = Some None"
    and "NewKubeconfigManager w candidate target = Inr m"
    and "p' = kpReloadConfig old (snd (kpGetDerived w target ctx (kpReloadConfig candidate p)))"
  shows "kpConfig p' = old \<and> map_of (kpManagers p') target = Some (Some m) \<and> mgConfig m = candidate
    \<and> (\<forall>c. c \<noteq> target \<longrightarrow> (\<forall>n. map_of (kpManagers p') c = Some (Some n) \<longrightarrow> mgConfig n = old))"
proof -
  have p': "p' = p\<lparr>kpManagers := assocUpd target (Some m) (kpManagers p), kpConfig := old\<rparr>"
    using assms(2-4) by (simp add: kpReloadConfig_def kpGetDerived_def kpManagerForContext_def)
  have "mgConfig n = old" if "map_of (kpManagers p) c = Some (Some n)" for c n
    using assms(1) map_of_SomeD [OF that] by (auto simp: enforce_def kpManagersOf_def)
  then show ?thesis using p' NewKubeconfigManager_config [OF assms(3)] by auto
qed

section \<open>An example cluster\<close>

definition exampleRest :: restConfig where
  "exampleRest = \<lparr>rcHost = ''https://k8s'', rcAPIPath = [], rcInsecure = False, rcServerName = [], rcCAFile = ''ca.crt'', rcCAData = [],
     rcClientCert = ''admin.crt'', rcBearerToken = [], rcBearerTokenFile = [], rcUsername = [], rcPassword = [], rcExec = None,
     rcImpersonate = [], rcUserAgent = [], rcQPS = Float 5 0, rcBurst = 10, rcTimeout = 0\<rparr>"

definition exampleKube :: kubeWorld where
  "exampleKube = \<lparr>kwInCluster = None, kwLoad = (\<lambda>_. Inr \<lparr>krCurrent = ''dev'', krContexts = [''dev'', ''prod'']\<rparr>),
     kwClientConfig = (\<lambda>_ _. Inr exampleRest), kwNewClient = (\<lambda>_. None)\<rparr>"

definition exampleCluster :: "string \<Rightarrow> string clusterCfg" where
  "exampleCluster policy = \<lparr>kcKubeConfig = ''/kube'', kcStrategy = [], kcRequireOAuth = True, kcQPS = Float 0 0, kcBurst = 0,
     kcPolicy = policy\<rparr>"

definition exampleProvider :: "string kubeProvider" where
  "exampleProvider = projr (newKubeConfigClusterProvider exampleKube (exampleCluster ''strict''))"

lemma exampleProvider_eq:
  "exampleProvider = \<lparr>kpConfig = exampleCluster ''strict'', kpDefault = ''dev'',
     kpManagers = [(''dev'', Some \<lparr>mgRest = exampleRest, mgContext = ''dev'',
        mgRaw = Inr \<lparr>krCurrent = ''dev'', krContexts = [''dev'', ''prod'']\<rparr>, mgConfig = exampleCluster ''strict''\<rparr>), (''prod'', None)],
     kpClosed = False\<rparr>"
  by (simp add: exampleProvider_def newKubeConfigClusterProvider_def kpReset_def NewKubeconfigManager_def NewManager_def
      IsInCluster_def resolveKubeconfigContext_def exampleKube_def exampleCluster_def applyRateLimit_def floatZero_def Let_def)

lemma exampleProvider_new: "newKubeConfigClusterProvider exampleKube (exampleCluster ''strict'') = Inr exampleProvider"
  unfolding exampleProvider_eq
  by (simp add: newKubeConfigClusterProvider_def kpReset_def NewKubeconfigManager_def NewManager_def
      IsInCluster_def resolveKubeconfigContext_def exampleKube_def exampleCluster_def applyRateLimit_def floatZero_def Let_def)

lemma exampleManager_new:
  "NewKubeconfigManager exampleKube (exampleCluster c) ''prod'' = Inr \<lparr>mgRest = exampleRest, mgContext = ''prod'',
     mgRaw = Inr \<lparr>krCurrent = ''dev'', krContexts = [''dev'', ''prod'']\<rparr>, mgConfig = exampleCluster c\<rparr>"
  by (simp add: NewKubeconfigManager_def NewManager_def IsInCluster_def resolveKubeconfigContext_def exampleKube_def
      exampleCluster_def applyRateLimit_def floatZero_def Let_def)

theorem managers_enforce_published_config_witness:
  "enforce (exampleCluster ''open'') (fold providerStep
     [Call exampleKube ''prod'' exampleCtx, Reload (exampleCluster ''open''), Rebuild False exampleKube] exampleProvider)"
  using managers_enforce_published_config [OF exampleProvider_new,
      of "[Call exampleKube ''prod'' exampleCtx, Reload (exampleCluster ''open''), Rebuild False exampleKube]"] by simp

definition openCluster :: "string clusterCfg" where
  "openCluster = (exampleCluster ''open'')\<lparr>kcRequireOAuth := False\<rparr>"

lemma openProvider_new: "\<exists>p. newKubeConfigClusterProvider exampleKube openCluster = Inr p \<and> kpConfig p = openCluster \<and> kpManagerOf p ''prod'' = None"
  by (simp add: newKubeConfigClusterProvider_def kpReset_def NewKubeconfigManager_def NewManager_def kpManagerOf_def openCluster_def
      IsInCluster_def resolveKubeconfigContext_def exampleKube_def exampleCluster_def applyRateLimit_def floatZero_def Let_def)

text \<open>A caller with a token, and one without where OAuth is not required, on a context that has no manager yet.\<close>

theorem cluster_calls_have_callers_identity_witness:
  "(\<exists>k st'. teGetDerived kpGetDerived exampleSts exampleKube (Some []) (exampleExchangeCfg []) None ''dev'' exampleCtx
       (None, exampleProvider) = (Inr k, st') \<and> onlyBearer (dvRest k) ''cluster-token'')
   \<and> (\<exists>p k st'. newKubeConfigClusterProvider exampleKube openCluster = Inr p
       \<and> teGetDerived kpGetDerived exampleSts exampleKube (Some []) (exampleExchangeCfg []) None ''prod'' (exampleCtx\<lparr>cxAuthorization := None\<rparr>)
           (None, p) = (Inr k, st') \<and> rcClientCert (dvRest k) = ''admin.crt'')"
proof
  let ?r = "teGetDerived kpGetDerived exampleSts exampleKube (Some []) (exampleExchangeCfg []) None ''dev'' exampleCtx (None, exampleProvider)"
  have "\<not> isl (fst ?r)" by code_simp
  then obtain k where "fst ?r = Inr k" by (cases "fst ?r") auto
  then have r: "?r = (Inr k, fst (snd ?r), snd (snd ?r))" by (metis prod.collapse)
  let ?t = "buildTarget ''https://sts'' (exampleGlobal []) (exampleExchangeCfg [])"
  have "fst (getOrBuildTokenExchangeConfig [] (exampleExchangeCfg []) None) = Some ?t"
    by (simp add: getOrBuildTokenExchangeConfig_def getOrReplace_def exampleExchangeCfg_def exampleGlobal_def Let_def)
  moreover have "fst (Exchange exampleSts RFC8693 ''user'' (SetRequireTLS True ?t)) =
      Inr \<lparr>otAccessToken = ''cluster-token'', otTokenType = ''Bearer'', otRefreshToken = [], otExpiresAfter = Some 60000000000\<rparr>"
    by code_simp
  moreover have "bearerOf exampleCtx = Some ''user''" by code_simp
  moreover have "xcClusterAuthMode (exampleExchangeCfg []) \<noteq> ClusterAuthKubeconfig" by code_simp
  ultimately have "onlyBearer (dvRest k) ''cluster-token''"
    using cluster_calls_have_callers_identity [OF r]
    by (auto simp: exampleExchangeCfg_def exampleGlobal_def exchangerGet_def exchangerRegistry_def)
  with r show "\<exists>k st'. ?r = (Inr k, st') \<and> onlyBearer (dvRest k) ''cluster-token''" by blast
next
  obtain p where p: "newKubeConfigClusterProvider exampleKube openCluster = Inr p" "kpConfig p = openCluster" "kpManagerOf p ''prod'' = None"
    using openProvider_new by blast
  let ?ctx = "exampleCtx\<lparr>cxAuthorization := None\<rparr>"
  let ?r = "teGetDerived kpGetDerived exampleSts exampleKube (Some []) (exampleExchangeCfg []) None ''prod'' ?ctx (None, projr (newKubeConfigClusterProvider exampleKube openCluster))"
  have "\<not> isl (fst ?r)" by code_simp
  then obtain k where "fst ?r = Inr k" by (cases "fst ?r") auto
  then have r: "teGetDerived kpGetDerived exampleSts exampleKube (Some []) (exampleExchangeCfg []) None ''prod'' ?ctx (None, p)
      = (Inr k, fst (snd ?r), snd (snd ?r))" using p(1) by (metis prod.collapse sum.sel(2))
  have "bearerOf ?ctx = None" by (simp add: bearerOf_def)
  moreover have "rcClientCert (mgRest m) = ''admin.crt''" if "NewKubeconfigManager exampleKube openCluster ''prod'' = Inr m" for m
    using that by (auto simp: NewKubeconfigManager_def NewManager_def openCluster_def IsInCluster_def resolveKubeconfigContext_def
        exampleKube_def exampleCluster_def exampleRest_def applyRateLimit_def floatZero_def Let_def)
  ultimately have "rcClientCert (dvRest k) = ''admin.crt''"
    using cluster_calls_have_callers_identity [OF r] p(2,3) by auto
  with p(1) r show "\<exists>p k st'. newKubeConfigClusterProvider exampleKube openCluster = Inr p
       \<and> teGetDerived kpGetDerived exampleSts exampleKube (Some []) (exampleExchangeCfg []) None ''prod'' ?ctx (None, p) = (Inr k, st')
       \<and> rcClientCert (dvRest k) = ''admin.crt''" by blast
qed

end
