(* ===== verification/Kcp_Workspaces.thy ===== *)
theory Kcp_Workspaces
  imports Go_Prelude
begin

text \<open>
  \<open>pkg/kcp/workspace.go\<close>: the URL of a workspace, and the discovery of all workspaces below a
  root through the tenancy API. What the API lists for a workspace is a parameter; whether the
  recursion ends depends on it, so a run that does not end is the value \<^const>\<open>None\<close>.
\<close>

section \<open>URLs\<close>

text \<open>\<open>strings.Index\<close>\<close>

fun indexSub :: "string \<Rightarrow> string \<Rightarrow> nat option" where
  "indexSub [] p = (if p = [] then Some 0 else None)"
| "indexSub (x # xs) p = (if hasPrefix (x # xs) p then Some 0 else map_option Suc (indexSub xs p))"

definition ParseServerURL :: "string \<Rightarrow> string \<times> string" where
  "ParseServerURL serverURL =
     (case indexSub serverURL ''/clusters/'' of
        None \<Rightarrow> (serverURL, [])
      | Some i \<Rightarrow> (take i serverURL, trimSuffix (drop (i + length ''/clusters/'') serverURL) ''/''))"

definition ExtractWorkspaceFromURL :: "string \<Rightarrow> string" where
  "ExtractWorkspaceFromURL serverURL = snd (ParseServerURL serverURL)"

definition ConstructWorkspaceURL :: "string \<Rightarrow> string \<Rightarrow> string" where
  "ConstructWorkspaceURL baseURL workspace = baseURL @ ''/clusters/'' @ workspace"

lemma indexSub_Some:
  "indexSub s p = Some i \<Longrightarrow> i \<le> length s \<and> hasPrefix (drop i s) p \<and> (\<forall>j < i. \<not> hasPrefix (drop j s) p)"
proof (induction s arbitrary: i)
  case (Cons x xs)
  show ?case
  proof (cases "hasPrefix (x # xs) p")
    case False
    then obtain k where k: "indexSub xs p = Some k" "i = Suc k" using Cons.prems by auto
    have "\<not> hasPrefix (drop j (x # xs)) p" if "j < i" for j
      using that False Cons.IH [OF k(1)] k(2) by (cases j) auto
    then show ?thesis using Cons.IH [OF k(1)] k(2) by simp
  qed (use Cons.prems in auto)
qed (auto simp: hasPrefix_def split: if_splits)

lemma indexSub_first:
  assumes "hasPrefix (drop i s) p" "\<forall>j < i. \<not> hasPrefix (drop j s) p" "i \<le> length s"
  shows "indexSub s p = Some i"
  using assms
proof (induction s arbitrary: i)
  case (Cons x xs)
  show ?case
  proof (cases i)
    case (Suc k)
    have "\<not> hasPrefix (x # xs) p" using Cons.prems(2) Suc by force
    moreover have "\<forall>j < k. \<not> hasPrefix (drop j xs) p" using Cons.prems(2) Suc by force
    ultimately show ?thesis using Cons Suc by simp
  qed (use Cons.prems in auto)
qed (auto simp: hasPrefix_def)

lemma hasPrefix_append_long: "length p \<le> length a \<Longrightarrow> hasPrefix (a @ b) p \<longleftrightarrow> hasPrefix a p"
  by (simp add: hasPrefix_def)

text \<open>Another tail after the first occurrence does not move it.\<close>

lemma indexSub_other_tail:
  assumes "indexSub s p = Some i"
  shows "indexSub (take i s @ p @ r) p = Some i"
proof (rule indexSub_first)
  have i: "i \<le> length s" "hasPrefix (drop i s) p" "\<forall>j < i. \<not> hasPrefix (drop j s) p"
    using indexSub_Some [OF assms] by auto
  obtain t where s: "s = take i s @ p @ t" using i(2) by (metis append_take_drop_id hasPrefix_iff)
  have len: "length (take i s) = i" using i(1) by simp
  show "hasPrefix (drop i (take i s @ p @ r)) p" using len by simp
  show "i \<le> length (take i s @ p @ r)" using len by simp
  show "\<forall>j < i. \<not> hasPrefix (drop j (take i s @ p @ r)) p"
  proof (intro allI impI)
    fix j assume "j < i"
    then have "drop j (take i s @ p @ u) = (drop j (take i s) @ p) @ u" for u using len by simp
    then have "hasPrefix (drop j (take i s @ p @ u)) p \<longleftrightarrow> hasPrefix (drop j (take i s) @ p) p" for u
      by (simp only: hasPrefix_append_long length_append)
    moreover have "\<not> hasPrefix (drop j (take i s @ p @ t)) p" using i(3) \<open>j < i\<close> s by metis
    ultimately show "\<not> hasPrefix (drop j (take i s @ p @ r)) p" by simp
  qed
qed

text \<open>
  The base of a parsed URL makes URLs that are read back as the workspace they were made for.
\<close>

lemma workspace_url_roundtrip:
  assumes "ParseServerURL url = (base, ws)" "ws \<noteq> []" "\<not> hasSuffix w ''/''"
  shows "ParseServerURL (ConstructWorkspaceURL base w) = (base, w)"
proof -
  obtain i where i: "indexSub url ''/clusters/'' = Some i" "base = take i url"
    using assms(1,2) by (auto simp: ParseServerURL_def split: option.splits)
  moreover have "length base = i" using i indexSub_Some [OF i(1)] by simp
  ultimately show ?thesis using indexSub_other_tail [OF i(1), of w] assms(3)
    by (simp add: ParseServerURL_def ConstructWorkspaceURL_def trimSuffix_def)
qed

section \<open>Discovery\<close>

text \<open>
  \<open>api\<close> gives the names of the child workspaces, None when the client or the list fails.
  \<open>discoverItems\<close> is the loop over the children of \<open>parent\<close> with the recursion in it; it returns
  the error of the Go function and the map of discovered paths.
\<close>

definition listChildren :: "(string \<Rightarrow> string list option) \<Rightarrow> string \<Rightarrow> string list" where
  "listChildren api parent = (case api parent of None \<Rightarrow> [] | Some names \<Rightarrow> names)"

partial_function (option) discoverItems ::
    "(string \<Rightarrow> string list option) \<Rightarrow> string \<Rightarrow> string list \<Rightarrow> string list \<Rightarrow> (string option \<times> string list) option" where
  "discoverItems api parent items discovered =
     (case items of
        [] \<Rightarrow> Some (None, discovered)
      | childName # rest \<Rightarrow>
          if childName = [] then discoverItems api parent rest discovered
          else if parent @ '':'' @ childName \<in> set discovered then discoverItems api parent rest discovered
          else Option.bind
            (discoverItems api (parent @ '':'' @ childName) (listChildren api (parent @ '':'' @ childName))
               ((parent @ '':'' @ childName) # discovered))
            (\<lambda>(err, discovered). discoverItems api parent rest discovered))"

definition DiscoverWorkspacesRecursive ::
    "(string \<Rightarrow> string list option) \<Rightarrow> string \<Rightarrow> string list \<Rightarrow> (string option \<times> string list) option" where
  "DiscoverWorkspacesRecursive api parent discovered = discoverItems api parent (listChildren api parent) discovered"

definition DiscoverAllWorkspaces :: "(string \<Rightarrow> string list option) \<Rightarrow> string \<Rightarrow> (string + string list) option" where
  "DiscoverAllWorkspaces api root =
     (case DiscoverWorkspacesRecursive api root [root] of
        None \<Rightarrow> None
      | Some (Some err, _) \<Rightarrow> Some (Inl err)
      | Some (None, discovered) \<Rightarrow> Some (Inr discovered))"

text \<open>The workspaces that exist below a root.\<close>

inductive workspaceBelow :: "(string \<Rightarrow> string list option) \<Rightarrow> string \<Rightarrow> string \<Rightarrow> bool"
  for api :: "string \<Rightarrow> string list option" and root :: string where
  root: "workspaceBelow api root root"
| child: "workspaceBelow api root ws \<Longrightarrow> name \<in> set (listChildren api ws) \<Longrightarrow> name \<noteq> [] \<Longrightarrow>
    workspaceBelow api root (ws @ '':'' @ name)"

definition childPaths :: "(string \<Rightarrow> string list option) \<Rightarrow> string \<Rightarrow> string set" where
  "childPaths api ws = {ws @ '':'' @ name |name. name \<in> set (listChildren api ws) \<and> name \<noteq> []}"

lemma discoverItems_Nil [simp]: "discoverItems api parent [] d = Some (None, d)"
  by (simp add: discoverItems.simps)

lemma discoverItems_skip:
  "name = [] \<or> parent @ '':'' @ name \<in> set d \<Longrightarrow> discoverItems api parent (name # rest) d = discoverItems api parent rest d"
  by (subst discoverItems.simps) auto

lemma discoverItems_enter:
  "name \<noteq> [] \<Longrightarrow> ws = parent @ '':'' @ name \<Longrightarrow> ws \<notin> set d \<Longrightarrow> discoverItems api parent (name # rest) d =
     Option.bind (discoverItems api ws (listChildren api ws) (ws # d)) (\<lambda>(err, d). discoverItems api parent rest d)"
  by (subst discoverItems.simps) auto

text \<open>
  Inside a finite set of workspaces that is closed under listing, the loop ends without an error,
  keeps what was discovered, adds the children it was given and is closed under listing again.
\<close>

definition closedOver :: "(string \<Rightarrow> string list option) \<Rightarrow> string set \<Rightarrow> string set \<Rightarrow> bool" where
  "closedOver api D X \<longleftrightarrow> (\<forall>ws \<in> D. childPaths api ws \<subseteq> X)"

lemma discoverItems_ends:
  assumes "finite R" "closedOver api R R" "parent \<in> R" "set items \<subseteq> set (listChildren api parent)" "set d \<subseteq> R" "distinct d"
  shows "\<exists>d'. discoverItems api parent items d = Some (None, d') \<and> set d \<subseteq> set d' \<and> set d' \<subseteq> R \<and> distinct d'
    \<and> (\<forall>name \<in> set items. name \<noteq> [] \<longrightarrow> parent @ '':'' @ name \<in> set d') \<and> closedOver api (set d' - set d) (set d')"
  using assms(3-)
proof (induction "(card (R - set d), length items)" arbitrary: parent items d rule: wf_induct_rule [OF wf_lex_prod [OF wf_less_than wf_less_than]])
  case 1
  note IH = "1.hyps" and prems = "1.prems"
  show ?case
  proof (cases items)
    case Nil
    then show ?thesis using prems by (auto simp: closedOver_def)
  next
    case (Cons name rest)
    have rest: "set rest \<subseteq> set (listChildren api parent)" using prems(2) Cons by auto
    show ?thesis
    proof (cases "name = [] \<or> parent @ '':'' @ name \<in> set d")
      case True
      have "((card (R - set d), length rest), card (R - set d), length items) \<in> less_than <*lex*> less_than"
        using Cons by simp
      from IH [OF this prems(1) rest prems(3,4)] True show ?thesis
        unfolding Cons by (auto simp: discoverItems_skip)
    next
      case False
      define ws where "ws = parent @ '':'' @ name"
      have ws: "name \<noteq> []" "ws \<notin> set d" using False by (auto simp: ws_def)
      have "ws \<in> childPaths api parent" using ws(1) prems(2) Cons by (auto simp: childPaths_def ws_def)
      then have R: "ws \<in> R" using assms(2) prems(1) by (auto simp: closedOver_def)
      then have less: "card (R - set (ws # d)) < card (R - set d)"
        using ws(2) assms(1) by (intro psubset_card_mono) auto
      then have "((card (R - set (ws # d)), length (listChildren api ws)), card (R - set d), length items) \<in> less_than <*lex*> less_than"
        by simp
      from IH [OF this R subset_refl] R prems(3,4) ws(2) obtain d1 where
        d1: "discoverItems api ws (listChildren api ws) (ws # d) = Some (None, d1)" "set (ws # d) \<subseteq> set d1" "set d1 \<subseteq> R"
          "distinct d1" "\<forall>n \<in> set (listChildren api ws). n \<noteq> [] \<longrightarrow> ws @ '':'' @ n \<in> set d1"
          "closedOver api (set d1 - set (ws # d)) (set d1)"
        by auto
      have "card (R - set d1) \<le> card (R - set (ws # d))" using d1(2) assms(1) by (intro card_mono) auto
      then have "((card (R - set d1), length rest), card (R - set d), length items) \<in> less_than <*lex*> less_than"
        using less by simp
      from IH [OF this prems(1) rest d1(3,4)] obtain d2 where
        d2: "discoverItems api parent rest d1 = Some (None, d2)" "set d1 \<subseteq> set d2" "set d2 \<subseteq> R" "distinct d2"
          "\<forall>n \<in> set rest. n \<noteq> [] \<longrightarrow> parent @ '':'' @ n \<in> set d2" "closedOver api (set d2 - set d1) (set d2)"
        by auto
      have "discoverItems api parent items d = Some (None, d2)"
        unfolding Cons discoverItems_enter [OF ws(1) ws_def ws(2)] using d1(1) d2(1) by simp
      moreover have "childPaths api x \<subseteq> set d2" if x: "x \<in> set d2 - set d" for x
      proof (cases "x \<in> set d1")
        case True
        have "childPaths api x \<subseteq> set d1"
        proof (cases "x = ws")
          case True
          then show ?thesis using d1(5) by (auto simp: childPaths_def)
        next
          case False
          then show ?thesis using True x d1(6) by (auto simp: closedOver_def)
        qed
        then show ?thesis using d2(2) by blast
      next
        case False
        then show ?thesis using x d2(6) by (auto simp: closedOver_def)
      qed
      ultimately show ?thesis using d1(2) d2 ws_def Cons by (auto simp: closedOver_def)
    qed
  qed
qed

text \<open>
  C22. Discovery ends whenever the workspaces below the root are finitely many, however the tenancy
  API nests them and whichever listings fail, and finds each of them exactly once.
\<close>

theorem discovery_finds_every_workspace:
  assumes "finite {ws. workspaceBelow api root ws}"
  shows "\<exists>found. DiscoverAllWorkspaces api root = Some (Inr found) \<and> distinct found
    \<and> set found = {ws. workspaceBelow api root ws}"
proof -
  let ?R = "{ws. workspaceBelow api root ws}"
  have closed: "closedOver api ?R ?R" by (auto simp: closedOver_def childPaths_def intro: workspaceBelow.child [unfolded append_Cons append_Nil])
  have "root \<in> ?R" by (simp add: workspaceBelow.root)
  from discoverItems_ends [OF assms closed this subset_refl, of "[root]"] this obtain d where
    d: "discoverItems api root (listChildren api root) [root] = Some (None, d)" "root \<in> set d" "set d \<subseteq> ?R" "distinct d"
      "\<forall>n \<in> set (listChildren api root). n \<noteq> [] \<longrightarrow> root @ '':'' @ n \<in> set d" "closedOver api (set d - {root}) (set d)"
    by auto
  have "ws \<in> set d" if "workspaceBelow api root ws" for ws
    using that
  proof induction
    case (child ws name)
    then show ?case using d(5,6) by (cases "ws = root") (auto simp: closedOver_def childPaths_def)
  qed (rule d(2))
  then have "set d = ?R" using d(3) by auto
  then show ?thesis using d(1,4) by (simp add: DiscoverAllWorkspaces_def DiscoverWorkspacesRecursive_def)
qed

definition exampleTenancy :: "string \<Rightarrow> string list option" where
  "exampleTenancy = map_of [(''root'', [''a'', [], ''b'']), (''root:a'', [''a''])]"

lemma exampleTenancy_below:
  "{ws. workspaceBelow exampleTenancy ''root'' ws} = {''root'', ''root:a'', ''root:b'', ''root:a:a''}" (is "?R = ?S")
proof
  have "workspaceBelow exampleTenancy ''root'' ws \<Longrightarrow> ws \<in> ?S" for ws
    by (induction rule: workspaceBelow.induct) (auto simp: listChildren_def exampleTenancy_def)
  then show "?R \<subseteq> ?S" by blast
  have step: "workspaceBelow exampleTenancy ''root'' ws \<Longrightarrow> n \<in> set (listChildren exampleTenancy ws) \<Longrightarrow> n \<noteq> [] \<Longrightarrow>
      x = ws @ '':'' @ n \<Longrightarrow> workspaceBelow exampleTenancy ''root'' x" for ws n x
    by (simp only:) (rule workspaceBelow.child)
  have root: "workspaceBelow exampleTenancy ''root'' ''root''" by (rule workspaceBelow.root)
  have a: "workspaceBelow exampleTenancy ''root'' ''root:a''"
    by (rule step [OF root, of "''a''"]) (simp_all add: listChildren_def exampleTenancy_def)
  have b: "workspaceBelow exampleTenancy ''root'' ''root:b''"
    by (rule step [OF root, of "''b''"]) (simp_all add: listChildren_def exampleTenancy_def)
  have "workspaceBelow exampleTenancy ''root'' ''root:a:a''"
    by (rule step [OF a, of "''a''"]) (simp_all add: listChildren_def exampleTenancy_def)
  with root a b show "?S \<subseteq> ?R" by simp
qed

theorem discovery_finds_every_workspace_witness:
  "\<exists>found. DiscoverAllWorkspaces exampleTenancy ''root'' = Some (Inr found) \<and> distinct found
     \<and> set found = {''root'', ''root:a'', ''root:b'', ''root:a:a''}"
  using discovery_finds_every_workspace [of exampleTenancy "''root''"] unfolding exampleTenancy_below by simp

text \<open>Whatever discovery returns lies below the root, whether or not there are finitely many workspaces.\<close>

lemma discoverItems_below:
  assumes "discoverItems api parent items d = Some r" "workspaceBelow api root parent"
    "set items \<subseteq> set (listChildren api parent)" "set d \<subseteq> {ws. workspaceBelow api root ws}"
  shows "set (snd r) \<subseteq> {ws. workspaceBelow api root ws}"
proof -
  let ?P = "\<lambda>api parent items d r. workspaceBelow api root parent \<longrightarrow> set items \<subseteq> set (listChildren api parent)
    \<longrightarrow> set d \<subseteq> {ws. workspaceBelow api root ws} \<longrightarrow> set (snd r) \<subseteq> {ws. workspaceBelow api root ws}"
  from assms(1) have "?P api parent items d r"
  proof (rule discoverItems.raw_induct [where P = ?P, rotated])
    fix f :: "(string \<Rightarrow> string list option) \<Rightarrow> string \<Rightarrow> string list \<Rightarrow> string list \<Rightarrow> (string option \<times> string list) option"
      and api parent items d r
    assume IH: "\<And>api parent items d r. f api parent items d = Some r \<Longrightarrow> ?P api parent items d r"
      and r: "(case items of [] \<Rightarrow> Some (None, d)
        | childName # rest \<Rightarrow>
            if childName = [] then f api parent rest d
            else if parent @ '':'' @ childName \<in> set d then f api parent rest d
            else Option.bind (f api (parent @ '':'' @ childName) (listChildren api (parent @ '':'' @ childName)) ((parent @ '':'' @ childName) # d))
              (\<lambda>(err, d). f api parent rest d)) = Some r"
    show "?P api parent items d r"
    proof (intro impI)
      assume p: "workspaceBelow api root parent" "set items \<subseteq> set (listChildren api parent)"
        "set d \<subseteq> {ws. workspaceBelow api root ws}"
      show "set (snd r) \<subseteq> {ws. workspaceBelow api root ws}"
      proof (cases items)
        case (Cons name rest)
        define ws where "ws = parent @ '':'' @ name"
        note r' = r [unfolded Cons list.case, folded ws_def]
        show ?thesis
        proof (cases "name = [] \<or> ws \<in> set d")
          case True
          then have "f api parent rest d = Some r" using r' by (auto split: if_splits)
          from IH [OF this] p Cons show ?thesis by auto
        next
          case False
          then obtain r1 where r1: "f api ws (listChildren api ws) (ws # d) = Some r1" "f api parent rest (snd r1) = Some r"
            using r' by (auto split: Option.bind_splits prod.splits)
          have "workspaceBelow api root ws" unfolding ws_def using p(1,2) Cons False by (intro workspaceBelow.child) auto
          with IH [OF r1(1)] p(3) have "set (snd r1) \<subseteq> {ws. workspaceBelow api root ws}" by auto
          with IH [OF r1(2)] p Cons show ?thesis by auto
        qed
      qed (use r p in auto)
    qed
  qed
  then show ?thesis using assms(2-) by blast
qed

lemma discovery_below:
  "DiscoverAllWorkspaces api root = Some (Inr found) \<Longrightarrow> set found \<subseteq> {ws. workspaceBelow api root ws}"
  by (auto simp: DiscoverAllWorkspaces_def DiscoverWorkspacesRecursive_def split: option.splits
      dest!: discoverItems_below [OF _ workspaceBelow.root subset_refl, of _ _ "[_]"] intro: workspaceBelow.root)

text \<open>A failed listing is skipped, so discovery as a whole never fails.\<close>

lemma discoverItems_no_error:
  assumes "discoverItems api parent items d = Some r"
  shows "fst r = None"
  using assms
proof (rule discoverItems.raw_induct [where P = "\<lambda>_ _ _ _ r. fst r = None", rotated])
  fix f :: "(string \<Rightarrow> string list option) \<Rightarrow> string \<Rightarrow> string list \<Rightarrow> string list \<Rightarrow> (string option \<times> string list) option"
    and api parent items d r
  assume IH: "\<And>api parent items d r. f api parent items d = Some r \<Longrightarrow> fst r = None"
    and r: "(case items of [] \<Rightarrow> Some (None, d)
      | childName # rest \<Rightarrow>
          if childName = [] then f api parent rest d
          else if parent @ '':'' @ childName \<in> set d then f api parent rest d
          else Option.bind (f api (parent @ '':'' @ childName) (listChildren api (parent @ '':'' @ childName)) ((parent @ '':'' @ childName) # d))
            (\<lambda>(err, d). f api parent rest d)) = Some r"
  from r show "fst r = None"
    by (auto dest: IH split: list.splits if_splits Option.bind_splits)
qed

lemma discovery_never_fails: "DiscoverAllWorkspaces api root \<noteq> Some (Inl err)"
  by (auto simp: DiscoverAllWorkspaces_def DiscoverWorkspacesRecursive_def split: option.splits dest!: discoverItems_no_error)

end
