(* ===== verification/Kcp_Provider.thy ===== *)
theory Kcp_Provider
  imports Cluster_Providers Kcp_Workspaces
begin

text \<open>
  \<open>pkg/kcp/provider.go\<close>: the provider whose targets are kcp workspaces. It is rebuilt from the
  kubeconfig and the tenancy API, and makes the manager of a workspace when it is first needed.
  Go's map iteration order is the order of the association lists, which is arbitrary.
\<close>

section \<open>State\<close>

record kcpCluster =
  kclServer :: string
  kclCAData :: string
  kclCA :: string
  kclInsecure :: bool

record kcpContext =
  kcxCluster :: string
  kcxAuthInfo :: string

record kcpRaw =
  kxrCurrent :: string
  kxrContexts :: "(string \<times> kcpContext) list"
  kxrClusters :: "(string \<times> kcpCluster) list"

record kcpWorld =
  kxRaw :: "string \<Rightarrow> string + kcpRaw"
  kxInCluster :: "restConfig option"
  kxClientConfig :: "string \<Rightarrow> string \<Rightarrow> string + restConfig"
  kxNewClient :: "restConfig \<Rightarrow> string option"
  kxTenancy :: "restConfig \<Rightarrow> string \<Rightarrow> string list option"

definition kubeRawOf :: "kcpRaw \<Rightarrow> kubeRaw" where
  "kubeRawOf raw = \<lparr>krCurrent = kxrCurrent raw, krContexts = map fst (kxrContexts raw)\<rparr>"

definition kubeOf :: "kcpWorld \<Rightarrow> kubeWorld" where
  "kubeOf w = \<lparr>kwInCluster = kxInCluster w, kwLoad = (\<lambda>path. map_sum id kubeRawOf (kxRaw w path)),
     kwClientConfig = kxClientConfig w, kwNewClient = kxNewClient w\<rparr>"

record 'p kcpProvider =
  kcpConfig :: "'p clusterCfg"
  kcpBaseURL :: string
  kcpRest :: restConfig
  kcpDefault :: string
  kcpManagers :: "(string \<times> 'p manager option) list"
  kcpClosed :: bool

section \<open>Rebuilding\<close>

text \<open>The fallback: the workspaces that the clusters of the kubeconfig name, each once.\<close>

definition workspacesFromKubeconfig :: "string + kcpRaw \<Rightarrow> string + string list" where
  "workspacesFromKubeconfig r =
     (case r of
        Inl err \<Rightarrow> Inl err
      | Inr raw \<Rightarrow> Inr (remdups (filter (\<lambda>ws. ws \<noteq> []) (map (\<lambda>(_, c). ExtractWorkspaceFromURL (kclServer c)) (kxrClusters raw)))))"

text \<open>
  \<open>newManagers\<close>: an entry for every workspace, nil but for the default one. The watchers that
  \<open>Replace\<close> installs belong to the watcher group.
\<close>

definition newManagers :: "string list \<Rightarrow> string \<Rightarrow> 'p manager \<Rightarrow> (string \<times> 'p manager option) list" where
  "newManagers workspaceList defaultWorkspace base =
     assocUpd defaultWorkspace (Some base) (map (\<lambda>ws. (ws, None)) workspaceList)"

text \<open>
  None is a discovery that does not end. The last step replaces the watchers, which fails when the
  group was closed in the meantime (\<open>closing\<close>): the error is returned, and the managers are already
  the new ones.
\<close>

definition kcpReset :: "bool \<Rightarrow> kcpWorld \<Rightarrow> callCtx \<Rightarrow> 'p kcpProvider \<Rightarrow> (kubeErr option \<times> 'p kcpProvider) option" where
  "kcpReset closing w ctx p =
     (if kcpClosed p then Some (Some ProviderClosed, p)
      else
        let path = kcKubeConfig (kcpConfig p)
        in (case kxRaw w path of
              Inl err \<Rightarrow> Some (Some (LoadFailed err), p)
            | Inr raw \<Rightarrow>
                (case map_of (kxrContexts raw) (kxrCurrent raw) of
                   None \<Rightarrow> Some (Some NoCurrentContext, p)
                 | Some currentContext \<Rightarrow>
                     (case map_of (kxrClusters raw) (kcxCluster currentContext) of
                        None \<Rightarrow> Some (Some ContextClusterMissing, p)
                      | Some currentCluster \<Rightarrow>
                          (case ParseServerURL (kclServer currentCluster) of
                             (baseServerURL, defaultWorkspace) \<Rightarrow>
                               if defaultWorkspace = [] then Some (Some NoWorkspaceInURL, p)
                               else (case kxClientConfig w path (kxrCurrent raw) of
                                   Inl err \<Rightarrow> Some (Some (RestConfigFailed err), p)
                                 | Inr rc \<Rightarrow>
                                     (case NewKubeconfigManager (kubeOf w) (kcpConfig p) (kxrCurrent raw) of
                                        Inl err \<Rightarrow> Some (Some (BaseManagerFailed err), p)
                                      | Inr base \<Rightarrow>
                                          (case DiscoverAllWorkspaces (kxTenancy w rc) defaultWorkspace of
                                             None \<Rightarrow> None
                                           | Some discovered \<Rightarrow>
                                               (case (case discovered of Inr wss \<Rightarrow> Inr wss | Inl _ \<Rightarrow> workspacesFromKubeconfig (kxRaw w path)) of
                                                  Inl err \<Rightarrow> Some (Some (DiscoveryFailed err), p)
                                                | Inr workspaceList \<Rightarrow>
                                                    (case Derived (kubeOf w) base ctx of
                                                       Inl err \<Rightarrow> Some (Some (NoBaseClient err), p)
                                                     | Inr k8s \<Rightarrow>
                                                         Some (if closing then Some ProviderClosed else None,
                                                           p\<lparr>kcpBaseURL := baseServerURL, kcpDefault := defaultWorkspace, kcpRest := rc,
                                                             kcpManagers := newManagers workspaceList defaultWorkspace base, kcpClosed := closing\<rparr>)))))))))))"

definition newKcpClusterProvider :: "kcpWorld \<Rightarrow> callCtx \<Rightarrow> 'p clusterCfg \<Rightarrow> restConfig \<Rightarrow> (kubeErr + 'p kcpProvider) option" where
  "newKcpClusterProvider w ctx cfg zero =
     (case kcpReset False w ctx \<lparr>kcpConfig = cfg, kcpBaseURL = [], kcpRest = zero, kcpDefault = [], kcpManagers = [], kcpClosed = False\<rparr> of
        None \<Rightarrow> None
      | Some (Some err, _) \<Rightarrow> Some (Inl err)
      | Some (None, p) \<Rightarrow> Some (Inr p))"

section \<open>The manager of a workspace\<close>

text \<open>
  The search for a context that points to the workspace: the outer None is the nil dereference at
  a context whose cluster the kubeconfig does not define.
\<close>

fun findWorkspaceContext :: "(string \<times> kcpCluster) list \<Rightarrow> string \<Rightarrow> (string \<times> kcpContext) list \<Rightarrow> string option option" where
  "findWorkspaceContext clusters ws [] = Some None"
| "findWorkspaceContext clusters ws ((name, cx) # rest) =
     (case map_of clusters (kcxCluster cx) of
        None \<Rightarrow> None
      | Some cluster \<Rightarrow> if ExtractWorkspaceFromURL (kclServer cluster) = ws then Some (Some name) else findWorkspaceContext clusters ws rest)"

definition findOrCreateWorkspaceContext :: "string \<Rightarrow> kcpRaw \<Rightarrow> string \<Rightarrow> (string \<times> kcpRaw) option" where
  "findOrCreateWorkspaceContext base raw ws =
     (case findWorkspaceContext (kxrClusters raw) ws (kxrContexts raw) of
        None \<Rightarrow> None
      | Some (Some name) \<Rightarrow> Some (name, raw)
      | Some None \<Rightarrow>
          let contextName = ''kcp-'' @ ws; clusterName = ''kcp-cluster-'' @ ws
          in (case map_of (kxrContexts raw) (kxrCurrent raw) of
                None \<Rightarrow> None
              | Some currentContext \<Rightarrow>
                  (case map_of (kxrClusters raw) (kcxCluster currentContext) of
                     None \<Rightarrow> None
                   | Some currentCluster \<Rightarrow>
                       Some (contextName,
                         raw\<lparr>kxrClusters := assocUpd clusterName
                               (currentCluster\<lparr>kclServer := ConstructWorkspaceURL base ws\<rparr>) (kxrClusters raw),
                             kxrContexts := assocUpd contextName
                               \<lparr>kcxCluster = clusterName, kcxAuthInfo = kcxAuthInfo currentContext\<rparr> (kxrContexts raw)\<rparr>))))"

definition managerForWorkspace :: "kcpWorld \<Rightarrow> string \<Rightarrow> 'p kcpProvider \<Rightarrow> (kubeErr + 'p manager) \<times> 'p kcpProvider" where
  "managerForWorkspace w ws p =
     (case map_of (kcpManagers p) ws of
        Some (Some m) \<Rightarrow> (Inr m, p)
      | None \<Rightarrow> (Inl (WorkspaceUnknown ws), p)
      | Some None \<Rightarrow>
          (case kxRaw w (kcKubeConfig (kcpConfig p)) of
             Inl err \<Rightarrow> (Inl (RawConfigFailed err), p)
           | Inr raw \<Rightarrow>
               (case findOrCreateWorkspaceContext (kcpBaseURL p) raw ws of
                  None \<Rightarrow> (Inl NilDereference, p)
                | Some (contextName, raw) \<Rightarrow>
                    (case NewManager (kubeOf w) (kcpConfig p)
                        ((kcpRest p)\<lparr>rcHost := ConstructWorkspaceURL (kcpBaseURL p) ws\<rparr>) (Inr (kubeRawOf raw)) of
                       Inl err \<Rightarrow> (Inl err, p)
                     | Inr m \<Rightarrow> (Inr m, p\<lparr>kcpManagers := assocUpd ws (Some m) (kcpManagers p)\<rparr>)))))"

definition kcpGetDerived ::
    "kcpWorld \<Rightarrow> string \<Rightarrow> callCtx \<Rightarrow> 'p kcpProvider \<Rightarrow> (kubeErr + derivedClient) \<times> 'p kcpProvider" where
  "kcpGetDerived w ws ctx p =
     (let ws = (if ws = [] then kcpDefault p else ws)
      in (case managerForWorkspace w ws p of
            (Inl err, p) \<Rightarrow> (Inl err, p)
          | (Inr m, p) \<Rightarrow> (Derived (kubeOf w) m ctx, p)))"

definition kcpIsMultiTarget :: "'p kcpProvider \<Rightarrow> bool" where
  "kcpIsMultiTarget p \<longleftrightarrow> 1 < length (kcpManagers p)"

definition kcpGetTargets :: "'p kcpProvider \<Rightarrow> string list" where
  "kcpGetTargets p = sort (map fst (kcpManagers p))"

definition kcpReloadConfig :: "'p clusterCfg \<Rightarrow> 'p kcpProvider \<Rightarrow> 'p kcpProvider" where
  "kcpReloadConfig cfg p = p\<lparr>kcpConfig := cfg\<rparr>"

definition kcpPublish :: "'p clusterCfg \<Rightarrow> 'p kcpProvider \<Rightarrow> 'p kcpProvider" where
  "kcpPublish cfg p = p\<lparr>kcpManagers := map (\<lambda>(n, m). (n, map_option (SetConfig cfg) m)) (kcpManagers p)\<rparr>"

section \<open>Calls\<close>

definition kcpManagerOf :: "'p kcpProvider \<Rightarrow> string \<Rightarrow> 'p manager option" where
  "kcpManagerOf p target =
     (case map_of (kcpManagers p) (if target = [] then kcpDefault p else target) of Some (Some m) \<Rightarrow> Some m | _ \<Rightarrow> None)"

lemma managerForWorkspace_mem:
  "managerForWorkspace w ws p = (Inr m, p') \<Longrightarrow> map_of (kcpManagers p') ws = Some (Some m) \<and> kcpDefault p' = kcpDefault p"
  by (auto simp: managerForWorkspace_def split: option.splits sum.splits prod.splits)

interpretation kcp: cluster_provider kcpGetDerived kcpManagerOf
proof
  fix w target ctx s k s'
  assume "kcpGetDerived w target ctx s = (Inr k, s')"
  then obtain m where "managerForWorkspace w (if target = [] then kcpDefault s else target) s = (Inr m, s')" "Derived (kubeOf w) m ctx = Inr k"
    by (auto simp: kcpGetDerived_def Let_def split: prod.splits sum.splits)
  with managerForWorkspace_mem [OF this(1)] show "\<exists>m. kcpManagerOf s' target = Some m \<and> (\<exists>kw. Derived kw m ctx = Inr k)"
    by (auto simp: kcpManagerOf_def)
qed

section \<open>A call reaches its workspace\<close>

text \<open>
  What is assumed of the kubeconfig loader and of the tenancy API: no context has the empty name,
  the client configuration of the current context has the server of its cluster, and the names of workspaces have no slash, as
  Kubernetes names have none.
\<close>

definition goodWorld :: "kcpWorld \<Rightarrow> bool" where
  "goodWorld w \<longleftrightarrow>
     (\<forall>path raw cx. kxRaw w path = Inr raw \<longrightarrow> map_of (kxrContexts raw) (kxrCurrent raw) = Some cx \<longrightarrow> kxrCurrent raw \<noteq> [])
     \<and> (\<forall>path raw cx cl rc. kxRaw w path = Inr raw \<longrightarrow> map_of (kxrContexts raw) (kxrCurrent raw) = Some cx
        \<longrightarrow> map_of (kxrClusters raw) (kcxCluster cx) = Some cl \<longrightarrow> kxClientConfig w path (kxrCurrent raw) = Inr rc
        \<longrightarrow> rcHost rc = kclServer cl)
     \<and> (\<forall>rc ws name. name \<in> set (listChildren (kxTenancy w rc) ws) \<longrightarrow> CHR ''/'' \<notin> set name)"

definition workspaceServer :: "string \<Rightarrow> string \<Rightarrow> string" where
  "workspaceServer server ws =
     (if ws = snd (ParseServerURL server) then server else ConstructWorkspaceURL (fst (ParseServerURL server)) ws)"

definition servesWorkspace :: "string \<Rightarrow> string \<Rightarrow> 'p manager \<Rightarrow> bool" where
  "servesWorkspace server ws m \<longleftrightarrow> rcHost (mgRest m) = workspaceServer server ws \<and> ExtractWorkspaceFromURL (rcHost (mgRest m)) = ws"

definition kcpInv :: "string \<Rightarrow> 'p kcpProvider \<Rightarrow> bool" where
  "kcpInv server p \<longleftrightarrow> ParseServerURL server = (kcpBaseURL p, kcpDefault p) \<and> kcpDefault p \<noteq> []
     \<and> map_of (kcpManagers p) (kcpDefault p) \<noteq> Some None
     \<and> (\<forall>ws. map_of (kcpManagers p) ws = Some None \<longrightarrow> \<not> hasSuffix ws ''/'')
     \<and> (\<forall>ws m. map_of (kcpManagers p) ws = Some (Some m) \<longrightarrow> servesWorkspace server ws m)"

lemma hasSuffix_slash: "hasSuffix s ''/'' \<longleftrightarrow> s \<noteq> [] \<and> last s = CHR ''/''"
  by (cases s rule: rev_cases) (auto simp: hasSuffix_def)

lemma workspaceBelow_no_slash:
  "workspaceBelow api root ws \<Longrightarrow> \<forall>ws name. name \<in> set (listChildren api ws) \<longrightarrow> CHR ''/'' \<notin> set name
     \<Longrightarrow> ws = root \<or> \<not> hasSuffix ws ''/''"
proof (induction rule: workspaceBelow.induct)
  case (child ws name)
  then have "last name \<in> set name" "CHR ''/'' \<notin> set name" by auto
  then have "last name \<noteq> CHR ''/''" by metis
  then show ?case using child.hyps(3) by (auto simp: hasSuffix_slash)
qed simp

lemma applyRateLimit_host [simp]: "rcHost (applyRateLimit cfg rc) = rcHost rc"
  by (simp add: applyRateLimit_def Let_def)

lemma NewManager_host: "NewManager w cfg rc raw = Inr m \<Longrightarrow> rcHost (mgRest m) = rcHost rc"
  by (auto simp: NewManager_def Let_def split: option.splits)

lemma NewKubeconfigManager_host:
  "NewKubeconfigManager w cfg ctx = Inr m \<Longrightarrow> ctx \<noteq> [] \<Longrightarrow> \<exists>rc. kwClientConfig w (kcKubeConfig cfg) ctx = Inr rc \<and> rcHost (mgRest m) = rcHost rc"
  by (auto simp: NewKubeconfigManager_def resolveKubeconfigContext_def map_sum_def NewManager_host split: if_splits sum.splits)

lemma kcpReset_completed:
  assumes "kcpReset False w ctx p = Some (None, p')"
  obtains raw cx cl rc base found k8s where
    "kxRaw w (kcKubeConfig (kcpConfig p)) = Inr raw" "map_of (kxrContexts raw) (kxrCurrent raw) = Some cx"
    "map_of (kxrClusters raw) (kcxCluster cx) = Some cl" "ParseServerURL (kclServer cl) = (kcpBaseURL p', kcpDefault p')"
    "kcpDefault p' \<noteq> []" "kxClientConfig w (kcKubeConfig (kcpConfig p)) (kxrCurrent raw) = Inr rc"
    "NewKubeconfigManager (kubeOf w) (kcpConfig p) (kxrCurrent raw) = Inr base"
    "DiscoverAllWorkspaces (kxTenancy w rc) (kcpDefault p') = Some (Inr found)"
    "Derived (kubeOf w) base ctx = Inr k8s" "kcpManagers p' = newManagers found (kcpDefault p') base" "kcpConfig p' = kcpConfig p"
  using assms discovery_never_fails unfolding kcpReset_def Let_def
  by (auto split: if_splits sum.splits option.splits prod.splits)

lemma kcpReset_refused: "kcpReset False w ctx p = Some (Some err, p') \<Longrightarrow> p' = p"
  unfolding kcpReset_def Let_def by (auto split: if_splits sum.splits option.splits prod.splits)

lemma kcpReset_closing:
  "kcpReset closing w ctx p =
     (case kcpReset False w ctx p of
        Some (None, q) \<Rightarrow> Some (if closing then Some ProviderClosed else None, q\<lparr>kcpClosed := closing\<rparr>)
      | refused \<Rightarrow> refused)"
  unfolding kcpReset_def Let_def by (simp split: sum.split option.split prod.split)

lemma kcpReset_cases:
  assumes "kcpReset closing w ctx p = Some (err, p')" "err = None \<or> p' \<noteq> p"
  obtains raw cx cl rc base found k8s where
    "kxRaw w (kcKubeConfig (kcpConfig p)) = Inr raw" "map_of (kxrContexts raw) (kxrCurrent raw) = Some cx"
    "map_of (kxrClusters raw) (kcxCluster cx) = Some cl" "ParseServerURL (kclServer cl) = (kcpBaseURL p', kcpDefault p')"
    "kcpDefault p' \<noteq> []" "kxClientConfig w (kcKubeConfig (kcpConfig p)) (kxrCurrent raw) = Inr rc"
    "NewKubeconfigManager (kubeOf w) (kcpConfig p) (kxrCurrent raw) = Inr base"
    "DiscoverAllWorkspaces (kxTenancy w rc) (kcpDefault p') = Some (Inr found)"
    "Derived (kubeOf w) base ctx = Inr k8s" "kcpManagers p' = newManagers found (kcpDefault p') base" "kcpConfig p' = kcpConfig p"
proof -
  from assms kcpReset_refused [of w ctx p] obtain q where q: "kcpReset False w ctx p = Some (None, q)" "p' = q\<lparr>kcpClosed := closing\<rparr>"
    unfolding kcpReset_closing [of closing] by (fastforce split: option.splits prod.splits)
  show thesis by (rule kcpReset_completed [OF q(1)]) (rule that; simp add: q(2))
qed

lemmas kcpReset_success = kcpReset_cases [OF _ disjI1 [OF refl]]

text \<open>The server of the current context, which a rebuild takes as the base.\<close>

definition currentServer :: "kcpWorld \<Rightarrow> 'p clusterCfg \<Rightarrow> string option" where
  "currentServer w cfg =
     (case kxRaw w (kcKubeConfig cfg) of
        Inl _ \<Rightarrow> None
      | Inr raw \<Rightarrow>
          (case map_of (kxrContexts raw) (kxrCurrent raw) of
             None \<Rightarrow> None
           | Some cx \<Rightarrow> map_option kclServer (map_of (kxrClusters raw) (kcxCluster cx))))"

lemma map_of_map_None: "map_of (map (\<lambda>x. (x, None)) xs) k = (if k \<in> set xs then Some None else None)"
  by (induction xs) auto

lemma kcpInv_reset:
  assumes "goodWorld w" "kcpReset closing w ctx p = Some (err, p')" "err = None \<or> p' \<noteq> p" "currentServer w (kcpConfig p) = Some server"
  shows "kcpInv server p'"
  using assms(2,3)
proof (rule kcpReset_cases)
  fix raw cx cl rc base found k8s
  assume raw: "kxRaw w (kcKubeConfig (kcpConfig p)) = Inr raw" "map_of (kxrContexts raw) (kxrCurrent raw) = Some cx"
    "map_of (kxrClusters raw) (kcxCluster cx) = Some cl" "ParseServerURL (kclServer cl) = (kcpBaseURL p', kcpDefault p')"
    "kcpDefault p' \<noteq> []" "kxClientConfig w (kcKubeConfig (kcpConfig p)) (kxrCurrent raw) = Inr rc"
    "NewKubeconfigManager (kubeOf w) (kcpConfig p) (kxrCurrent raw) = Inr base"
    "DiscoverAllWorkspaces (kxTenancy w rc) (kcpDefault p') = Some (Inr found)"
    "kcpManagers p' = newManagers found (kcpDefault p') base"
  have server: "server = kclServer cl" using assms(4) raw(1-3) by (simp add: currentServer_def)
  have "kxrCurrent raw \<noteq> []" and "rcHost rc = kclServer cl" using assms(1) raw unfolding goodWorld_def by blast+
  then have base: "rcHost (mgRest base) = server"
    using NewKubeconfigManager_host [OF raw(7)] raw(6) server by (auto simp: kubeOf_def)
  have plain: "\<not> hasSuffix ws ''/''" if "ws \<in> set found" "ws \<noteq> kcpDefault p'" for ws
    using workspaceBelow_no_slash [of "kxTenancy w rc" "kcpDefault p'" ws] discovery_below [OF raw(8)] that assms(1)
    unfolding goodWorld_def by blast
  have "map_of (kcpManagers p') ws = (if ws = kcpDefault p' then Some (Some base) else if ws \<in> set found then Some None else None)" for ws
    unfolding raw(9) newManagers_def by (simp add: map_of_map_None)
  with base plain show ?thesis using raw(4,5) server unfolding kcpInv_def servesWorkspace_def workspaceServer_def ExtractWorkspaceFromURL_def
    by (auto split: if_splits)
qed

lemma managerForWorkspace_created:
  assumes "map_of (kcpManagers p) ws = Some None" "managerForWorkspace w ws p = (Inr m, p')"
  shows "rcHost (mgRest m) = ConstructWorkspaceURL (kcpBaseURL p) ws \<and> p' = p\<lparr>kcpManagers := assocUpd ws (Some m) (kcpManagers p)\<rparr>"
  using assms by (auto simp: managerForWorkspace_def NewManager_host split: sum.splits option.splits prod.splits)

lemma managerForWorkspace_other:
  "map_of (kcpManagers p) ws \<noteq> Some None \<or> (\<exists>err. fst (managerForWorkspace w ws p) = Inl err) \<Longrightarrow> snd (managerForWorkspace w ws p) = p"
  by (auto simp: managerForWorkspace_def split: sum.splits option.splits prod.splits)

lemma kcpInv_manager:
  assumes "kcpInv server p" "managerForWorkspace w ws p = (r, p')"
  shows "kcpInv server p'" and "r = Inr m \<Longrightarrow> servesWorkspace server ws m"
proof -
  have "kcpInv server p' \<and> (r = Inr m \<longrightarrow> servesWorkspace server ws m)"
  proof (cases "map_of (kcpManagers p) ws = Some None \<and> isl r = False")
    case True
    then obtain n where r: "r = Inr n" by (cases r) auto
    have url: "ParseServerURL server = (kcpBaseURL p, kcpDefault p)" "kcpDefault p \<noteq> []" "\<not> hasSuffix ws ''/''" "ws \<noteq> kcpDefault p"
      using assms(1) True by (auto simp: kcpInv_def)
    have n: "rcHost (mgRest n) = ConstructWorkspaceURL (kcpBaseURL p) ws" "p' = p\<lparr>kcpManagers := assocUpd ws (Some n) (kcpManagers p)\<rparr>"
      using managerForWorkspace_created [OF _ assms(2) [unfolded r]] True by auto
    then have "servesWorkspace server ws n"
      using workspace_url_roundtrip [OF url(1-3)] url by (simp add: servesWorkspace_def ExtractWorkspaceFromURL_def workspaceServer_def)
    then show ?thesis using assms(1) n(2) r by (auto simp: kcpInv_def)
  next
    case False
    then have "p' = p" using managerForWorkspace_other [of p ws w] assms(2) by (cases r) auto
    moreover have "map_of (kcpManagers p) ws = Some (Some m)" if "r = Inr m"
      using managerForWorkspace_mem [OF assms(2) [unfolded that]] \<open>p' = p\<close> by simp
    ultimately show ?thesis using assms(1) by (auto simp: kcpInv_def)
  qed
  then show "kcpInv server p'" and "r = Inr m \<Longrightarrow> servesWorkspace server ws m"
    by auto
qed

lemma map_of_publish: "map_of (kcpManagers (kcpPublish cfg p)) ws = map_option (map_option (SetConfig cfg)) (map_of (kcpManagers p) ws)"
  by (simp add: kcpPublish_def map_of_map)

lemma servesWorkspace_SetConfig [simp]: "servesWorkspace server ws (SetConfig cfg m) = servesWorkspace server ws m"
  by (simp add: servesWorkspace_def SetConfig_def)

lemma kcpInv_reload: "kcpInv server p \<Longrightarrow> kcpInv server (kcpPublish cfg (kcpReloadConfig cfg p))"
proof -
  assume inv: "kcpInv server p"
  have "kcpBaseURL (kcpPublish cfg (kcpReloadConfig cfg p)) = kcpBaseURL p" "kcpDefault (kcpPublish cfg (kcpReloadConfig cfg p)) = kcpDefault p"
    "kcpManagers (kcpReloadConfig cfg p) = kcpManagers p"
    by (simp_all add: kcpPublish_def kcpReloadConfig_def)
  then show ?thesis using inv unfolding kcpInv_def map_of_publish by auto
qed

lemma kcpInv_derived: "kcpInv server p \<Longrightarrow> kcpInv server (snd (kcpGetDerived w ws ctx p))"
  by (auto simp: kcpGetDerived_def Let_def split: prod.splits sum.splits dest: kcpInv_manager(1))

text \<open>
  The history of a provider: it is made, rebuilt, called and reconfigured. The first argument is
  the server of the kubeconfig's current context when the provider was built last.
\<close>

inductive kcpReach :: "string \<Rightarrow> 'p kcpProvider \<Rightarrow> bool" where
  new: "goodWorld w \<Longrightarrow> newKcpClusterProvider w ctx cfg zero = Some (Inr p) \<Longrightarrow> currentServer w cfg = Some server \<Longrightarrow> kcpReach server p"
| rebuild: "kcpReach before p \<Longrightarrow> goodWorld w \<Longrightarrow> kcpReset closing w ctx p = Some (err, p') \<Longrightarrow> p' \<noteq> p \<Longrightarrow>
    currentServer w (kcpConfig p) = Some server \<Longrightarrow> kcpReach server p'"
| call: "kcpReach server p \<Longrightarrow> kcpReach server (snd (kcpGetDerived w ws ctx p))"
| reload: "kcpReach server p \<Longrightarrow> kcpReach server (kcpPublish cfg (kcpReloadConfig cfg p))"

lemma kcpInv_reach: "kcpReach server p \<Longrightarrow> kcpInv server p"
proof (induction rule: kcpReach.induct)
  case (new w ctx cfg zero p server)
  then have r: "kcpReset False w ctx \<lparr>kcpConfig = cfg, kcpBaseURL = [], kcpRest = zero, kcpDefault = [], kcpManagers = [], kcpClosed = False\<rparr> = Some (None, p)"
    by (auto simp: newKcpClusterProvider_def split: option.splits)
  show ?case by (rule kcpInv_reset [OF new.hyps(1) r]) (simp_all add: new.hyps(3))
next
  case (rebuild before p w closing ctx err p' server)
  then show ?case using kcpInv_reset by blast
qed (simp_all add: kcpInv_derived kcpInv_reload)

text \<open>
  C23. Through all rebuilds, calls and reloads of the kcp provider, a call for a workspace that gets
  a client gets one for the server of that workspace: the server of the kubeconfig's current
  context for the default workspace, which the empty name stands for, and its base URL with
  \<open>/clusters/\<close> and the workspace for every other one. The workspace is read back from that URL, and
  it is one that the provider lists.
\<close>

theorem workspace_calls_reach_their_workspace:
  assumes "kcpReach server p" and "kcpGetDerived w target ctx p = (Inr k, p')"
    and "ParseServerURL server = (base, home)" and "ws = (if target = [] then home else target)"
  shows "rcHost (dvRest k) = (if ws = home then server else base @ ''/clusters/'' @ ws)
    \<and> ExtractWorkspaceFromURL (rcHost (dvRest k)) = ws \<and> ws \<in> set (kcpGetTargets p)"
proof -
  have inv: "kcpInv server p" by (rule kcpInv_reach [OF assms(1)])
  then have "home = kcpDefault p" using assms(3) by (simp add: kcpInv_def)
  then obtain m where m: "managerForWorkspace w ws p = (Inr m, p')" "Derived (kubeOf w) m ctx = Inr k"
    using assms(2,4) by (auto simp: kcpGetDerived_def Let_def split: prod.splits sum.splits)
  have "servesWorkspace server ws m" using kcpInv_manager(2) [OF inv m(1)] by simp
  moreover have "workspaceServer server ws = (if ws = home then server else base @ ''/clusters/'' @ ws)"
    using assms(3) by (simp add: workspaceServer_def ConstructWorkspaceURL_def)
  moreover have "map_of (kcpManagers p) ws \<noteq> None"
    using m(1) by (auto simp: managerForWorkspace_def split: option.splits)
  then have "ws \<in> set (kcpGetTargets p)" by (simp add: kcpGetTargets_def map_of_eq_None_iff)
  ultimately show ?thesis using Derived_identity [OF m(2)] by (auto simp: servesWorkspace_def identityOf_def sameServer_def)
qed

section \<open>Where the provider fails\<close>

text \<open>
  A server that requires OAuth cannot use the kcp strategy: the provider derives a client for
  its watchers from the base manager, at the start of the server there is no token in the context,
  and the manager refuses to fall back to its own credentials.
\<close>

lemma kcp_cannot_start_with_oauth:
  assumes "kcRequireOAuth cfg" and "bearerOf ctx = None"
  shows "newKcpClusterProvider w ctx cfg zero \<noteq> Some (Inr p)"
proof
  let ?p0 = "\<lparr>kcpConfig = cfg, kcpBaseURL = [], kcpRest = zero, kcpDefault = [], kcpManagers = [], kcpClosed = False\<rparr>"
  assume "newKcpClusterProvider w ctx cfg zero = Some (Inr p)"
  then have "kcpReset False w ctx ?p0 = Some (None, p)" by (auto simp: newKcpClusterProvider_def split: option.splits)
  then obtain base k current where "NewKubeconfigManager (kubeOf w) cfg current = Inr base" "Derived (kubeOf w) base ctx = Inr k"
    by (elim kcpReset_success) auto
  with assms Derived_identity [OF this(2)] NewKubeconfigManager_config [OF this(1)] show False by (simp add: identityOf_def)
qed

text \<open>
  The workspaces of the kubeconfig are never used: discovery skips every listing that fails and
  never fails as a whole, so without the tenancy API the provider has the default workspace only.
\<close>

lemma kubeconfig_workspaces_never_used:
  assumes "kcpReset closing w ctx p = Some (None, p')" and "\<forall>rc ws. kxTenancy w rc ws = None"
  shows "kcpGetTargets p' = [kcpDefault p']"
  using assms(1)
proof (rule kcpReset_success)
  fix rc base found
  assume "DiscoverAllWorkspaces (kxTenancy w rc) (kcpDefault p') = Some (Inr found)"
    and m: "kcpManagers p' = newManagers found (kcpDefault p') base"
  then have "found = [kcpDefault p']"
    using assms(2) by (simp add: DiscoverAllWorkspaces_def DiscoverWorkspacesRecursive_def listChildren_def)
  then show ?thesis using m by (simp add: kcpGetTargets_def newManagers_def)
qed

text \<open>
  A context of the kubeconfig that names a cluster the file does not define stops the search for
  the context of a workspace with a nil dereference.
\<close>

lemma dangling_context_panics:
  assumes "map_of (kcpManagers p) ws = Some None" "kxRaw w (kcKubeConfig (kcpConfig p)) = Inr raw"
    "\<forall>(n, cx) \<in> set (kxrContexts raw). \<forall>cl. map_of (kxrClusters raw) (kcxCluster cx) = Some cl \<longrightarrow> ExtractWorkspaceFromURL (kclServer cl) \<noteq> ws"
    "\<exists>(n, cx) \<in> set (kxrContexts raw). map_of (kxrClusters raw) (kcxCluster cx) = None"
  shows "fst (managerForWorkspace w ws p) = Inl NilDereference"
proof -
  have "findWorkspaceContext cls ws cxs = None" if "\<forall>(n, cx) \<in> set cxs. \<forall>cl. map_of cls (kcxCluster cx) = Some cl \<longrightarrow> ExtractWorkspaceFromURL (kclServer cl) \<noteq> ws"
    "\<exists>(n, cx) \<in> set cxs. map_of cls (kcxCluster cx) = None" for cls cxs
    using that by (induction cls ws cxs rule: findWorkspaceContext.induct) (auto split: option.splits)
  from this [OF assms(3,4)] show ?thesis using assms(1,2)
    by (simp add: managerForWorkspace_def findOrCreateWorkspaceContext_def)
qed

section \<open>An example\<close>

definition exampleKcp :: "(string \<Rightarrow> string list option) \<Rightarrow> kcpWorld" where
  "exampleKcp tenancy =
     \<lparr>kxRaw = (\<lambda>_. Inr \<lparr>kxrCurrent = ''kcp'', kxrContexts = [(''kcp'', \<lparr>kcxCluster = ''c'', kcxAuthInfo = ''u''\<rparr>)],
        kxrClusters = [(''c'', \<lparr>kclServer = ''https://kcp/clusters/root'', kclCAData = [], kclCA = [], kclInsecure = False\<rparr>),
          (''d'', \<lparr>kclServer = ''https://kcp/clusters/team'', kclCAData = [], kclCA = [], kclInsecure = False\<rparr>)]\<rparr>),
      kxInCluster = None, kxClientConfig = (\<lambda>_ _. Inr (exampleRest\<lparr>rcHost := ''https://kcp/clusters/root''\<rparr>)),
      kxNewClient = (\<lambda>_. None), kxTenancy = (\<lambda>_. tenancy)\<rparr>"

abbreviation oneChild :: "string \<Rightarrow> string list option" where
  "oneChild \<equiv> [''root'' \<mapsto> [''a'']]"

definition kcpOpen :: "string clusterCfg" where
  "kcpOpen = (exampleCluster [])\<lparr>kcRequireOAuth := False\<rparr>"

definition noToken :: callCtx where "noToken = \<lparr>cxAuthorization = None, cxUserAgent = None\<rparr>"

definition exampleKcpManager :: "string \<Rightarrow> string \<Rightarrow> string manager" where
  "exampleKcpManager host ctx = \<lparr>mgRest = exampleRest\<lparr>rcHost := host\<rparr>, mgContext = ctx,
     mgRaw = Inr \<lparr>krCurrent = ''kcp'', krContexts = [''kcp'']\<rparr>, mgConfig = kcpOpen\<rparr>"

definition exampleKcpProvider :: "string list \<Rightarrow> string kcpProvider" where
  "exampleKcpProvider others = \<lparr>kcpConfig = kcpOpen, kcpBaseURL = ''https://kcp'', kcpRest = exampleRest\<lparr>rcHost := ''https://kcp/clusters/root''\<rparr>,
     kcpDefault = ''root'', kcpManagers = map (\<lambda>n. (n, None)) others @ [(''root'', Some (exampleKcpManager ''https://kcp/clusters/root'' ''kcp''))],
     kcpClosed = False\<rparr>"

lemma discover_oneChild: "DiscoverAllWorkspaces oneChild ''root'' = Some (Inr [''root:a'', ''root''])"
proof -
  have "discoverItems oneChild ''root'' [''a''] [''root''] = Some (None, [''root:a'', ''root''])"
    by (subst discoverItems.simps) (simp add: listChildren_def)
  then show ?thesis by (simp add: DiscoverAllWorkspaces_def DiscoverWorkspacesRecursive_def listChildren_def)
qed

lemma discover_none: "DiscoverAllWorkspaces Map.empty ''root'' = Some (Inr [''root''])"
  by (simp add: DiscoverAllWorkspaces_def DiscoverWorkspacesRecursive_def listChildren_def)

lemmas kcp_example = exampleKcp_def exampleKcpProvider_def exampleKcpManager_def kcpOpen_def exampleCluster_def kubeOf_def kubeRawOf_def
  NewKubeconfigManager_def NewManager_def IsInCluster_def resolveKubeconfigContext_def applyRateLimit_def floatZero_def

lemma exampleURL: "ParseServerURL ''https://kcp/clusters/root'' = (''https://kcp'', ''root'')"
  by code_simp

lemma exampleKcp_reset:
  assumes "DiscoverAllWorkspaces t ''root'' = Some (Inr (others @ [''root'']))" "''root'' \<notin> set others"
  shows "kcpReset False (exampleKcp t) noToken \<lparr>kcpConfig = kcpOpen, kcpBaseURL = b, kcpRest = exampleRest, kcpDefault = d, kcpManagers = ms, kcpClosed = False\<rparr>
    = Some (None, exampleKcpProvider others)"
proof -
  have upd: "assocUpd ''root'' v (map (\<lambda>n. (n, None)) others @ [(''root'', None)]) = map (\<lambda>n. (n, None)) others @ [(''root'', v)]" for v :: "string manager option"
    using assms(2) by (induction others) auto
  show ?thesis using assms(1)
    by (simp add: kcp_example kcpReset_def exampleURL Derived_def noToken_def newManagers_def upd exampleRest_def Let_def)
qed

lemma exampleKcp_good: "(\<And>ws name. name \<in> set (listChildren t ws) \<Longrightarrow> CHR ''/'' \<notin> set name) \<Longrightarrow> goodWorld (exampleKcp t)"
  unfolding goodWorld_def exampleKcp_def by (auto split: if_splits)

lemma exampleKcp_new: "newKcpClusterProvider (exampleKcp oneChild) noToken kcpOpen exampleRest = Some (Inr (exampleKcpProvider [''root:a'']))"
  unfolding newKcpClusterProvider_def by (subst exampleKcp_reset) (simp_all add: discover_oneChild)

theorem workspace_calls_reach_their_workspace_witness:
  "\<exists>k p'. kcpGetDerived (exampleKcp oneChild) ''root:a'' noToken (exampleKcpProvider [''root:a'']) = (Inr k, p')
     \<and> rcHost (dvRest k) = ''https://kcp/clusters/root:a''"
proof -
  let ?r = "kcpGetDerived (exampleKcp oneChild) ''root:a'' noToken (exampleKcpProvider [''root:a''])"
  have server: "currentServer (exampleKcp oneChild) kcpOpen = Some ''https://kcp/clusters/root''"
    by (simp add: currentServer_def exampleKcp_def)
  have reach: "kcpReach ''https://kcp/clusters/root'' (exampleKcpProvider [''root:a''])"
    by (rule kcpReach.new [OF exampleKcp_good exampleKcp_new server]) (auto simp: listChildren_def split: if_splits)
  have "\<not> isl (fst ?r)" by code_simp
  then obtain k where "fst ?r = Inr k" by (cases "fst ?r") auto
  then have "?r = (Inr k, snd ?r)" by (metis prod.collapse)
  with workspace_calls_reach_their_workspace [OF reach this exampleURL refl] show ?thesis by auto
qed

end
