(* ===== verification/Watchers.thy ===== *)
theory Watchers
  imports Go_Prelude
begin

text \<open>
  \<open>pkg/kubernetes/watcher/cluster.go\<close>, \<open>pkg/kcp/workspace_watcher.go\<close> and
  \<open>pkg/kubernetes/watcher_group.go\<close>: how the server notices that a cluster changed. Two watchers
  poll a state and reload after a debounce window; the group starts, replaces and stops the
  watchers of a provider, with every access to its fields under a lock but not across them.
  Times are in nanoseconds.
\<close>

section \<open>What is polled\<close>

record clusterState =
  csGroups :: "string list"
  csOpenShift :: bool

text \<open>
  The API groups, and the kinds of \<open>project.openshift.io/v1\<close>; None is an error of discovery.
\<close>

definition captureState :: "string list option \<Rightarrow> string list option \<Rightarrow> clusterState" where
  "captureState groups kinds =
     \<lparr>csGroups = (case groups of None \<Rightarrow> [] | Some gs \<Rightarrow> sort gs),
      csOpenShift = (case kinds of None \<Rightarrow> False | Some ks \<Rightarrow> ''Project'' \<in> set ks)\<rparr>"

fun differAt :: "string list \<Rightarrow> string list \<Rightarrow> bool" where
  "differAt (x # xs) (y # ys) = (if x \<noteq> y then True else differAt xs ys)"
| "differAt _ _ = False"

definition clusterChanged :: "clusterState \<Rightarrow> clusterState \<Rightarrow> bool" where
  "clusterChanged current lastKnown =
     (if csOpenShift current \<noteq> csOpenShift lastKnown \<or> length (csGroups current) \<noteq> length (csGroups lastKnown) then True
      else differAt (csGroups current) (csGroups lastKnown))"

definition captureWorkspaces :: "string list option \<Rightarrow> string list" where
  "captureWorkspaces items = (case items of None \<Rightarrow> [] | Some names \<Rightarrow> sort (filter (\<lambda>n. n \<noteq> []) names))"

definition workspacesChanged :: "string list \<Rightarrow> string list \<Rightarrow> bool" where
  "workspacesChanged current lastKnown = (if length current \<noteq> length lastKnown then True else differAt current lastKnown)"

lemma differAt_iff: "length xs = length ys \<Longrightarrow> differAt xs ys \<longleftrightarrow> xs \<noteq> ys"
  by (induction xs ys rule: list_induct2) auto

section \<open>Polling with a debounce window\<close>

definition DefaultClusterStatePollInterval :: int where "DefaultClusterStatePollInterval = 30000000000"

definition DefaultClusterStateDebounceWindow :: int where "DefaultClusterStateDebounceWindow = 5000000000"

text \<open>
  The environment of a watcher: its timings, the state that a capture finds at a time, whether a
  reload at a time succeeds, and who goes first when the timer and a tick fall together.
\<close>

record 's pollEnv =
  peStart :: int
  peInterval :: int
  peDebounce :: int
  peState :: "int \<Rightarrow> 's"
  peReloadOk :: "int \<Rightarrow> bool"
  peTimerFirst :: bool

record 's poller =
  poLast :: 's
  poTimer :: "int option"
  poReloads :: "int list"

definition NewClusterState :: "int \<Rightarrow> int \<Rightarrow> int \<times> int" where
  "NewClusterState pollInterval debounceWindow =
     (if pollInterval \<le> 0 then DefaultClusterStatePollInterval else pollInterval,
      if debounceWindow \<le> 0 then DefaultClusterStateDebounceWindow else debounceWindow)"

text \<open>The timer runs out: reload, and on success take the state of that moment as known.\<close>

definition fireDue :: "'s pollEnv \<Rightarrow> int \<Rightarrow> 's poller \<Rightarrow> 's poller" where
  "fireDue e t p =
     (case poTimer p of
        None \<Rightarrow> p
      | Some d \<Rightarrow>
          if d < t \<or> (d = t \<and> peTimerFirst e) then
            let p = p\<lparr>poTimer := None, poReloads := d # poReloads p\<rparr>
            in if peReloadOk e d then p\<lparr>poLast := peState e d\<rparr> else p
          else p)"

text \<open>A tick: a changed state stops the timer and starts it anew.\<close>

definition pollTick :: "('s \<Rightarrow> 's \<Rightarrow> bool) \<Rightarrow> 's pollEnv \<Rightarrow> int \<Rightarrow> 's poller \<Rightarrow> 's poller" where
  "pollTick changed e t p =
     (let p = fireDue e t p
      in if changed (peState e t) (poLast p) then p\<lparr>poTimer := Some (t + peDebounce e)\<rparr> else p)"

fun pollTicks :: "('s \<Rightarrow> 's \<Rightarrow> bool) \<Rightarrow> 's pollEnv \<Rightarrow> nat \<Rightarrow> 's poller \<Rightarrow> 's poller" where
  "pollTicks changed e 0 p = p"
| "pollTicks changed e (Suc n) p = pollTick changed e (peStart e + int (Suc n) * peInterval e) (pollTicks changed e n p)"

text \<open>What \<open>Watch\<close> starts with.\<close>

definition watchStart :: "'s pollEnv \<Rightarrow> 's poller" where
  "watchStart e = \<lparr>poLast = peState e (peStart e), poTimer = None, poReloads = []\<rparr>"

section \<open>When a change is noticed\<close>

text \<open>The two comparisons tell any two states apart.\<close>

locale change_detector =
  fixes changed :: "'s \<Rightarrow> 's \<Rightarrow> bool"
  assumes changed_iff: "changed a b \<longleftrightarrow> a \<noteq> b"
begin

text \<open>
  A state that is \<open>s0\<close> until some moment and differs from it ever after; the tick \<open>k\<close> is the first
  that comes after the change.
\<close>

lemma quiet_before_change:
  assumes "\<And>t. peStart e \<le> t \<Longrightarrow> t < c \<Longrightarrow> peState e t = peState e (peStart e)" "0 < peInterval e"
    "peStart e + int n * peInterval e < c"
  shows "pollTicks changed e n (watchStart e) = watchStart e"
  using assms(3)
proof (induction n)
  case (Suc n)
  have "peStart e + int n * peInterval e < c" using Suc.prems assms(2) by (simp add: algebra_simps)
  moreover have "peState e (peStart e + int (Suc n) * peInterval e) = peState e (peStart e)"
    using assms(1) [OF _ Suc.prems] assms(2) by simp
  ultimately show ?case using Suc.IH by (simp add: pollTick_def fireDue_def watchStart_def changed_iff)
qed simp

lemma first_tick_after:
  assumes "0 < peInterval e" "peStart e < c"
  obtains k where "peStart e + int k * peInterval e < c" "c \<le> peStart e + int (Suc k) * peInterval e"
proof -
  let ?P = "\<lambda>k. c \<le> peStart e + int k * peInterval e"
  have "int (nat (c - peStart e)) \<le> int (nat (c - peStart e)) * peInterval e" using assms by (simp add: mult_le_cancel_left1)
  then have "?P (nat (c - peStart e))" using assms(2) by linarith
  moreover have "\<not> ?P 0" using assms(2) by simp
  ultimately obtain k where k: "\<forall>i\<le>k. \<not> ?P i" "?P (Suc k)" using ex_least_nat_less [of ?P] by blast
  show ?thesis by (rule that [OF _ k(2)]) (use k(1) in \<open>simp add: not_le\<close>)
qed

lemma restarted_by_every_tick:
  assumes "pollTicks changed e k (watchStart e) = watchStart e" "c \<le> peStart e + int (Suc k) * peInterval e"
    "\<And>t. c \<le> t \<Longrightarrow> peState e t \<noteq> peState e (peStart e)" "0 < peInterval e"
    "peInterval e < peDebounce e \<or> (peInterval e = peDebounce e \<and> \<not> peTimerFirst e)"
  shows "poReloads (pollTicks changed e (Suc (k + m)) (watchStart e)) = []
    \<and> poLast (pollTicks changed e (Suc (k + m)) (watchStart e)) = peState e (peStart e)
    \<and> poTimer (pollTicks changed e (Suc (k + m)) (watchStart e)) = Some (peStart e + int (Suc (k + m)) * peInterval e + peDebounce e)"
proof (induction m)
  case 0
  have "changed (peState e (peStart e + int (Suc k) * peInterval e)) (peState e (peStart e))" using assms(2,3) by (simp add: changed_iff)
  then show ?case by (simp add: assms(1)) (simp add: pollTick_def fireDue_def watchStart_def)
next
  case (Suc m)
  let ?p = "pollTicks changed e (Suc (k + m)) (watchStart e)" and ?t = "peStart e + int (Suc (Suc (k + m))) * peInterval e"
  have timer: "poTimer ?p = Some (peStart e + int (Suc (k + m)) * peInterval e + peDebounce e)"
    and last: "poLast ?p = peState e (peStart e)" and none: "poReloads ?p = []" using Suc by blast+
  have quiet: "fireDue e ?t ?p = ?p" using timer assms(5) by (auto simp: fireDue_def algebra_simps)
  have "int (Suc k) * peInterval e \<le> int (Suc (Suc (k + m))) * peInterval e" using assms(4) by (intro mult_right_mono) auto
  then have "peState e ?t \<noteq> peState e (peStart e)" using assms(2,3) by simp
  then have ch: "changed (peState e ?t) (poLast ?p)" unfolding last changed_iff .
  have "pollTicks changed e (Suc (k + Suc m)) (watchStart e) = ?p\<lparr>poTimer := Some (?t + peDebounce e)\<rparr>"
    unfolding add_Suc_right pollTicks.simps(2) [of _ _ "Suc (k + m)"] pollTick_def Let_def quiet if_P [OF ch] ..
  then show ?case using last none by simp
qed

lemma reloaded_after_change:
  assumes "pollTicks changed e k (watchStart e) = watchStart e" "c \<le> peStart e + int (Suc k) * peInterval e"
    "\<And>t. c \<le> t \<Longrightarrow> peState e t \<noteq> peState e (peStart e)"
    "peDebounce e < peInterval e \<or> (peInterval e = peDebounce e \<and> peTimerFirst e)"
  shows "peStart e + int (Suc k) * peInterval e + peDebounce e \<in> set (poReloads (pollTicks changed e (Suc (Suc k)) (watchStart e)))"
proof -
  let ?t = "peStart e + int (Suc k) * peInterval e"
  have "changed (peState e ?t) (peState e (peStart e))" using assms(2,3) by (simp add: changed_iff)
  then have first: "pollTicks changed e (Suc k) (watchStart e) = (watchStart e)\<lparr>poTimer := Some (?t + peDebounce e)\<rparr>"
    by (simp add: assms(1)) (simp add: pollTick_def fireDue_def watchStart_def)
  show ?thesis unfolding pollTicks.simps(2) [of _ _ "Suc k"] first using assms(4)
    by (auto simp: pollTick_def fireDue_def watchStart_def Let_def algebra_simps)
qed

text \<open>A change that persists leads to a reload exactly if the window is not longer than the interval.\<close>

lemma persistent_change:
  assumes "peStart e < c" "\<And>t. peStart e \<le> t \<Longrightarrow> t < c \<Longrightarrow> peState e t = peState e (peStart e)"
    "\<And>t. c \<le> t \<Longrightarrow> peState e t \<noteq> peState e (peStart e)" "0 < peInterval e"
  shows "\<exists>k. peStart e + int k * peInterval e < c \<and> c \<le> peStart e + int (Suc k) * peInterval e
    \<and> (if peDebounce e < peInterval e \<or> (peInterval e = peDebounce e \<and> peTimerFirst e)
       then peStart e + int (Suc k) * peInterval e + peDebounce e \<in> set (poReloads (pollTicks changed e (Suc (Suc k)) (watchStart e)))
       else \<forall>n. poReloads (pollTicks changed e n (watchStart e)) = [])"
proof -
  obtain k where k: "peStart e + int k * peInterval e < c" "c \<le> peStart e + int (Suc k) * peInterval e"
    using first_tick_after [OF assms(4,1)] .
  have quiet: "pollTicks changed e n (watchStart e) = watchStart e" if "n \<le> k" for n
  proof (rule quiet_before_change [OF assms(2) assms(4)])
    have "int n * peInterval e \<le> int k * peInterval e" using that assms(4) by simp
    then show "peStart e + int n * peInterval e < c" using k(1) by linarith
  qed
  have "poReloads (pollTicks changed e n (watchStart e)) = []"
    if "\<not> (peDebounce e < peInterval e \<or> (peInterval e = peDebounce e \<and> peTimerFirst e))" for n
  proof (cases "n \<le> k")
    case True
    then show ?thesis using quiet by (simp add: watchStart_def)
  next
    case False
    then obtain m where "n = Suc (k + m)" by (metis less_imp_Suc_add not_le_imp_less)
    moreover have "peInterval e < peDebounce e \<or> (peInterval e = peDebounce e \<and> \<not> peTimerFirst e)" using that by auto
    ultimately show ?thesis using restarted_by_every_tick [OF quiet [OF order_refl] k(2) assms(3,4)] by simp
  qed
  with k reloaded_after_change [OF quiet [OF order_refl] k(2) assms(3)] show ?thesis by (intro exI [of _ k]) simp
qed

end

interpretation clusterWatch: change_detector clusterChanged
  by unfold_locales (auto simp: clusterChanged_def differAt_iff)

interpretation workspaceWatch: change_detector workspacesChanged
  by unfold_locales (auto simp: workspacesChanged_def differAt_iff)

text \<open>
  C39. When the cluster changes for good, at any time after the watcher started, the first poll after
  the change schedules a reload, and it takes place one debounce window later if the window is
  shorter than the poll interval. With a longer window it never does: the state still differs at
  every poll, every poll starts the timer anew, and the timer never runs out.
\<close>

theorem persistent_change_reloads_iff:
  assumes "peStart e < c" and "\<And>t. peStart e \<le> t \<Longrightarrow> t < c \<Longrightarrow> peState e t = peState e (peStart e)"
    and "\<And>t. c \<le> t \<Longrightarrow> peState e t \<noteq> peState e (peStart e)"
    and "(peInterval e, peDebounce e) = NewClusterState interval window" and "peInterval e \<noteq> peDebounce e"
  shows "\<exists>k. peStart e + int k * peInterval e < c \<and> c \<le> peStart e + int (Suc k) * peInterval e
    \<and> (if peDebounce e < peInterval e
       then peStart e + int (Suc k) * peInterval e + peDebounce e \<in> set (poReloads (pollTicks clusterChanged e (Suc (Suc k)) (watchStart e)))
       else \<forall>n. poReloads (pollTicks clusterChanged e n (watchStart e)) = [])"
proof -
  have "0 < peInterval e"
    using assms(4) by (auto simp: NewClusterState_def DefaultClusterStatePollInterval_def split: if_splits)
  from clusterWatch.persistent_change [OF assms(1-3) this] assms(5) show ?thesis by auto
qed

text \<open>The groups change between the first and the second poll.\<close>

definition exampleEnvPoll :: "int \<Rightarrow> int \<Rightarrow> clusterState pollEnv" where
  "exampleEnvPoll interval window =
     \<lparr>peStart = 0, peInterval = interval, peDebounce = window,
      peState = (\<lambda>t. captureState (Some (if t < interval + 1 then [''apps''] else [''apps'', ''batch''])) None),
      peReloadOk = (\<lambda>_. True), peTimerFirst = False\<rparr>"

theorem persistent_change_reloads_iff_witness:
  "65 \<in> set (poReloads (pollTicks clusterChanged (exampleEnvPoll 30 5) 3 (watchStart (exampleEnvPoll 30 5))))
   \<and> (\<forall>n. poReloads (pollTicks clusterChanged (exampleEnvPoll 1 5) n (watchStart (exampleEnvPoll 1 5))) = [])"
proof -
  let ?e = exampleEnvPoll
  have f: "peStart (?e i d) = 0" "peInterval (?e i d) = i" "peDebounce (?e i d) = d" for i d by (simp_all add: exampleEnvPoll_def)
  have quiet: "peState (?e i d) t = peState (?e i d) (peStart (?e i d))" if "0 < i" "t < i + 1" for i d t
    using that by (simp add: exampleEnvPoll_def captureState_def)
  have lasting: "peState (?e i d) t \<noteq> peState (?e i d) (peStart (?e i d))" if "0 < i" "i + 1 \<le> t" for i d t
    using that by (simp add: exampleEnvPoll_def captureState_def)
  have timings: "(peInterval (?e i d), peDebounce (?e i d)) = NewClusterState i d" if "0 < i" "0 < d" for i d
    using that by (simp add: f NewClusterState_def)
  have concl: "\<exists>k. 0 + int k * i < i + 1 \<and> i + 1 \<le> 0 + int (Suc k) * i
    \<and> (if d < i then 0 + int (Suc k) * i + d \<in> set (poReloads (pollTicks clusterChanged (?e i d) (Suc (Suc k)) (watchStart (?e i d))))
       else \<forall>n. poReloads (pollTicks clusterChanged (?e i d) n (watchStart (?e i d))) = [])"
    if "0 < i" "0 < d" "i \<noteq> d" for i d
  proof (rule persistent_change_reloads_iff [of "?e i d" "i + 1" i d, unfolded f])
    show "0 < i + 1" "i \<noteq> d" using that by simp_all
    show "(i, d) = NewClusterState i d" using timings [OF that(1,2)] unfolding f .
    show "peState (?e i d) t = peState (?e i d) 0" if t: "t < i + 1" for t using quiet [OF \<open>0 < i\<close> t] unfolding f .
    show "peState (?e i d) t \<noteq> peState (?e i d) 0" if t: "i + 1 \<le> t" for t using lasting [OF \<open>0 < i\<close> t] unfolding f .
  qed
  obtain k where k: "int k * 30 < 31" "31 \<le> int (Suc k) * 30"
    and reload: "int (Suc k) * 30 + 5 \<in> set (poReloads (pollTicks clusterChanged (?e 30 5) (Suc (Suc k)) (watchStart (?e 30 5))))"
    using concl [of 30 5] by (simp del: pollTicks.simps of_nat_Suc) blast
  have "k = 1" using k unfolding of_nat_Suc by presburger
  then have "65 \<in> set (poReloads (pollTicks clusterChanged (?e 30 5) 3 (watchStart (?e 30 5))))"
    using reload by (simp del: pollTicks.simps add: numeral_3_eq_3)
  moreover have "\<forall>n. poReloads (pollTicks clusterChanged (?e 1 5) n (watchStart (?e 1 5))) = []"
    using concl [of 1 5] by (simp del: pollTicks.simps) blast
  ultimately show ?thesis ..
qed

section \<open>The kubeconfig watcher\<close>

definition DefaultKubeconfigDebounceWindow :: int where "DefaultKubeconfigDebounceWindow = 100000000"

definition NewKubeconfig :: "int \<Rightarrow> int" where
  "NewKubeconfig debounceWindow = (if debounceWindow \<le> 0 then DefaultKubeconfigDebounceWindow else debounceWindow)"

text \<open>
  The times at which \<open>onChange\<close> runs, given the times of the file events in order: an event stops a
  timer that has not run out and starts it anew.
\<close>

fun kubeconfigReloads :: "int \<Rightarrow> int list \<Rightarrow> int list" where
  "kubeconfigReloads window [] = []"
| "kubeconfigReloads window [t] = [t + window]"
| "kubeconfigReloads window (t # u # ts) =
     (if t + window < u then (t + window) # kubeconfigReloads window (u # ts) else kubeconfigReloads window (u # ts))"

lemma kubeconfig_last_event: "ts \<noteq> [] \<Longrightarrow> last (kubeconfigReloads window ts) = last ts + window"
proof (induction window ts rule: kubeconfigReloads.induct)
  case (3 window t u ts)
  have "kubeconfigReloads window (u # ts) \<noteq> []" by (induction ts arbitrary: u) auto
  then show ?case using 3 by simp
qed simp_all

section \<open>The watcher group\<close>

text \<open>
  The watchers are numbered; the primary watcher or the cluster watcher may be nil. A call of
  \<open>WatchTargets\<close> holds the two pointers it copied while it starts one after the other, and the
  group lock is free in between: \<open>gThreads\<close> says how far each call has come.
\<close>

datatype watchCall =
    Copied "nat option" "nat option"
  | PrimaryStarted "nat option"
  | ClusterStarted

record watcherGroup =
  gClosed :: bool
  gPrimary :: "nat option"
  gCluster :: "nat option"
  gStarted :: "nat set"
  gThreads :: "nat \<rightharpoonup> watchCall"

definition watchOne :: "(nat \<Rightarrow> bool) \<Rightarrow> nat option \<Rightarrow> watcherGroup \<Rightarrow> watcherGroup" where
  "watchOne starts w g =
     (case w of None \<Rightarrow> g | Some i \<Rightarrow> if starts i then g\<lparr>gStarted := insert i (gStarted g)\<rparr> else g)"

definition closeWatcher :: "nat option \<Rightarrow> watcherGroup \<Rightarrow> watcherGroup" where
  "closeWatcher w g = (case w of None \<Rightarrow> g | Some i \<Rightarrow> g\<lparr>gStarted := gStarted g - {i}\<rparr>)"

definition ErrClosed :: "watcherGroup \<Rightarrow> string option" where
  "ErrClosed g = (if gClosed g then Some ''provider closed'' else None)"

definition ReplaceWatchers :: "nat option \<Rightarrow> nat option \<Rightarrow> watcherGroup \<Rightarrow> watcherGroup \<times> string option" where
  "ReplaceWatchers primary cluster g =
     (if gClosed g then (closeWatcher cluster (closeWatcher primary g), Some ''provider closed'')
      else let g = closeWatcher (gCluster g) (closeWatcher (gPrimary g) g)
           in (g\<lparr>gPrimary := primary, gCluster := cluster\<rparr>, None))"

definition CloseGroup :: "watcherGroup \<Rightarrow> watcherGroup" where
  "CloseGroup g = (let g = g\<lparr>gClosed := True\<rparr> in closeWatcher (gCluster g) (closeWatcher (gPrimary g) g))"

text \<open>The steps of \<open>WatchTargets\<close>, one for each stretch between two acquisitions of a lock.\<close>

definition watchTargetsCopy :: "nat \<Rightarrow> watcherGroup \<Rightarrow> watcherGroup" where
  "watchTargetsCopy k g =
     (if gClosed g then g else g\<lparr>gThreads := (gThreads g)(k \<mapsto> Copied (gPrimary g) (gCluster g))\<rparr>)"

definition watchTargetsStep :: "(nat \<Rightarrow> bool) \<Rightarrow> nat \<Rightarrow> watcherGroup \<Rightarrow> watcherGroup" where
  "watchTargetsStep starts k g =
     (case gThreads g k of
        None \<Rightarrow> g
      | Some (Copied p c) \<Rightarrow> (watchOne starts p g)\<lparr>gThreads := (gThreads g)(k \<mapsto> PrimaryStarted c)\<rparr>
      | Some (PrimaryStarted c) \<Rightarrow> (watchOne starts c g)\<lparr>gThreads := (gThreads g)(k \<mapsto> ClusterStarted)\<rparr>
      | Some ClusterStarted \<Rightarrow>
          (let g = g\<lparr>gThreads := (gThreads g)(k := None)\<rparr> in if gClosed g then CloseGroup g else g))"

text \<open>
  What can happen next. \<open>overlap\<close> says whether a \<open>Replace\<close> may come while a call of
  \<open>WatchTargets\<close> is under way.
\<close>

inductive groupStep :: "(nat \<Rightarrow> bool) \<Rightarrow> bool \<Rightarrow> watcherGroup \<Rightarrow> watcherGroup \<Rightarrow> bool"
  for starts :: "nat \<Rightarrow> bool" and overlap :: bool where
  replace: "overlap \<or> gThreads g = Map.empty \<Longrightarrow> set_option p \<inter> gStarted g = {} \<Longrightarrow> set_option c \<inter> gStarted g = {}
    \<Longrightarrow> groupStep starts overlap g (fst (ReplaceWatchers p c g))"
| close: "groupStep starts overlap g (CloseGroup g)"
| copy: "gThreads g k = None \<Longrightarrow> groupStep starts overlap g (watchTargetsCopy k g)"
| step: "groupStep starts overlap g (watchTargetsStep starts k g)"

definition newGroup :: watcherGroup where
  "newGroup = \<lparr>gClosed = False, gPrimary = None, gCluster = None, gStarted = {}, gThreads = Map.empty\<rparr>"

inductive groupReach :: "(nat \<Rightarrow> bool) \<Rightarrow> bool \<Rightarrow> watcherGroup \<Rightarrow> bool"
  for starts :: "nat \<Rightarrow> bool" and overlap :: bool where
  start: "groupReach starts overlap newGroup"
| more: "groupReach starts overlap g \<Longrightarrow> groupStep starts overlap g g' \<Longrightarrow> groupReach starts overlap g'"

text \<open>What a call under way still holds is what the group has installed.\<close>

fun holdsInstalled :: "nat option \<Rightarrow> nat option \<Rightarrow> watchCall \<Rightarrow> bool" where
  "holdsInstalled primary cluster (Copied p c) \<longleftrightarrow> p = primary \<and> c = cluster"
| "holdsInstalled primary cluster (PrimaryStarted c) \<longleftrightarrow> c = cluster"
| "holdsInstalled primary cluster ClusterStarted \<longleftrightarrow> True"

definition installed :: "watcherGroup \<Rightarrow> nat set" where
  "installed g = set_option (gPrimary g) \<union> set_option (gCluster g)"

definition groupInv :: "watcherGroup \<Rightarrow> bool" where
  "groupInv g \<longleftrightarrow> gStarted g \<subseteq> installed g \<and> (\<forall>k w. gThreads g k = Some w \<longrightarrow> holdsInstalled (gPrimary g) (gCluster g) w)
     \<and> (gClosed g \<and> gThreads g = Map.empty \<longrightarrow> gStarted g = {})"

lemma closeWatcher_simps [simp]:
  "gStarted (closeWatcher w g) = gStarted g - set_option w"
  "gClosed (closeWatcher w g) = gClosed g" "gPrimary (closeWatcher w g) = gPrimary g"
  "gCluster (closeWatcher w g) = gCluster g" "gThreads (closeWatcher w g) = gThreads g"
  by (auto simp: closeWatcher_def split: option.splits)

lemma watchOne_simps [simp]:
  "gStarted (watchOne starts w g) = gStarted g \<union> {i \<in> set_option w. starts i}"
  "gClosed (watchOne starts w g) = gClosed g" "gPrimary (watchOne starts w g) = gPrimary g"
  "gCluster (watchOne starts w g) = gCluster g" "gThreads (watchOne starts w g) = gThreads g"
  by (auto simp: watchOne_def split: option.splits)

lemma CloseGroup_simps [simp]:
  "gStarted (CloseGroup g) = gStarted g - installed g"
  "gClosed (CloseGroup g) = True" "gPrimary (CloseGroup g) = gPrimary g"
  "gCluster (CloseGroup g) = gCluster g" "gThreads (CloseGroup g) = gThreads g"
  by (auto simp: CloseGroup_def installed_def Let_def)

lemma groupInv_close: "groupInv g \<Longrightarrow> groupInv (CloseGroup g)"
  by (auto simp: groupInv_def installed_def)

lemma groupInv_replace:
  assumes "groupInv g" "gThreads g = Map.empty" "set_option p \<inter> gStarted g = {}" "set_option c \<inter> gStarted g = {}"
  shows "groupInv (fst (ReplaceWatchers p c g))"
  using assms by (auto simp: groupInv_def installed_def ReplaceWatchers_def Let_def)

lemma groupInv_copy: "groupInv g \<Longrightarrow> groupInv (watchTargetsCopy k g)"
  by (auto simp: groupInv_def installed_def watchTargetsCopy_def split: if_splits)

lemma groupInv_step: "groupInv g \<Longrightarrow> groupInv (watchTargetsStep starts k g)"
proof -
  assume inv: "groupInv g"
  show "groupInv (watchTargetsStep starts k g)"
  proof (cases "gThreads g k")
    case (Some w)
    have held: "holdsInstalled (gPrimary g) (gCluster g) w" using inv Some by (simp add: groupInv_def)
    show ?thesis
    proof (cases w)
      case (Copied p c)
      then show ?thesis using inv Some held
        by (auto simp: groupInv_def installed_def watchTargetsStep_def split: if_splits)
    next
      case (PrimaryStarted c)
      then show ?thesis using inv Some held
        by (auto simp: groupInv_def installed_def watchTargetsStep_def split: if_splits)
    next
      case ClusterStarted
      then show ?thesis using inv Some
        by (auto simp: groupInv_def installed_def watchTargetsStep_def Let_def split: if_splits)
    qed
  qed (simp add: watchTargetsStep_def inv)
qed

lemma groupInv_reach: "groupReach starts False g \<Longrightarrow> groupInv g"
proof (induction rule: groupReach.induct)
  case start
  then show ?case by (simp add: newGroup_def groupInv_def)
next
  case (more g g')
  from more.hyps(2) more.IH show ?case
    by (cases rule: groupStep.cases) (auto intro: groupInv_close groupInv_replace groupInv_copy groupInv_step)
qed

text \<open>
  C27. Close wins against every call of WatchTargets that is under way: however the two interleave,
  once the group is closed and the calls have returned no watcher is running, provided that
  Replace does not come in the middle of a WatchTargets. Until then only installed watchers run.
\<close>

theorem close_stops_every_watcher:
  assumes "groupReach starts False g"
  shows "gStarted g \<subseteq> installed g \<and> (gClosed g \<and> gThreads g = Map.empty \<longrightarrow> gStarted g = {})"
  using groupInv_reach [OF assms] by (simp add: groupInv_def)

text \<open>Two runs: Close in the middle of a WatchTargets, and Replace there.\<close>

lemma groupReach_replace:
  "groupReach starts overlap g \<Longrightarrow> overlap \<or> gThreads g = Map.empty \<Longrightarrow> set_option p \<inter> gStarted g = {}
    \<Longrightarrow> set_option c \<inter> gStarted g = {} \<Longrightarrow> groupReach starts overlap (fst (ReplaceWatchers p c g))"
  by (blast intro: groupReach.more groupStep.replace)

lemma groupReach_close: "groupReach starts overlap g \<Longrightarrow> groupReach starts overlap (CloseGroup g)"
  by (blast intro: groupReach.more groupStep.close)

lemma groupReach_copy:
  "groupReach starts overlap g \<Longrightarrow> gThreads g k = None \<Longrightarrow> groupReach starts overlap (watchTargetsCopy k g)"
  by (blast intro: groupReach.more groupStep.copy)

lemma groupReach_step: "groupReach starts overlap g \<Longrightarrow> groupReach starts overlap (watchTargetsStep starts k g)"
  by (blast intro: groupReach.more groupStep.step)

lemmas group_run = newGroup_def ReplaceWatchers_def CloseGroup_def closeWatcher_def watchTargetsCopy_def
  watchTargetsStep_def watchOne_def Let_def

definition watching :: watcherGroup where
  "watching = watchTargetsCopy 0 (fst (ReplaceWatchers (Some 0) (Some 1) newGroup))"

lemma watching_reach: "groupReach starts overlap watching"
  unfolding watching_def by (intro groupReach_copy groupReach_replace groupReach.start) (simp_all add: group_run)

definition closedMeanwhile :: watcherGroup where
  "closedMeanwhile =
     (let step = watchTargetsStep (\<lambda>_. True) 0 in step (step (CloseGroup (step watching))))"

theorem close_stops_every_watcher_witness:
  "groupReach (\<lambda>_. True) False closedMeanwhile \<and> gClosed closedMeanwhile
   \<and> gThreads closedMeanwhile = Map.empty \<and> gStarted closedMeanwhile = {}"
proof -
  have r: "groupReach (\<lambda>_. True) False closedMeanwhile"
    unfolding closedMeanwhile_def Let_def by (intro groupReach_step groupReach_close watching_reach)
  moreover have "gClosed closedMeanwhile \<and> gThreads closedMeanwhile = Map.empty"
    by (simp add: closedMeanwhile_def watching_def group_run)
  ultimately show ?thesis using close_stops_every_watcher [OF r] by simp
qed

definition replacedMeanwhile :: watcherGroup where
  "replacedMeanwhile =
     (let step = watchTargetsStep (\<lambda>_. True);
          g = fst (ReplaceWatchers (Some 2) (Some 3) (step 0 watching));
          g = step 1 (step 1 (step 1 (watchTargetsCopy 1 g)))
      in CloseGroup (step 0 (step 0 g)))"

text \<open>
  The proviso is needed. WatchTargets of the start of the server does not hold the reload
  lock: when the kubeconfig changes while it is still starting the cluster watcher, Replace closes
  that watcher before it was started, which does nothing, and WatchTargets starts it afterwards.
  The replaced watcher then runs on, also after Close.
\<close>

lemma replaced_watcher_outlives_close:
  "groupReach (\<lambda>_. True) True replacedMeanwhile \<and> gClosed replacedMeanwhile
   \<and> gThreads replacedMeanwhile = Map.empty \<and> gStarted replacedMeanwhile = {1}"
proof -
  have "groupReach (\<lambda>_. True) True replacedMeanwhile"
    unfolding replacedMeanwhile_def Let_def
    by (intro groupReach_step groupReach_close groupReach_copy groupReach_replace watching_reach)
      (simp_all add: watching_def group_run)
  then show ?thesis by (auto simp: replacedMeanwhile_def watching_def group_run)
qed

end
