(* ===== verification/Validators.thy ===== *)
theory Validators
  imports Confirmation Registries
begin

text \<open>
  The request validators that run before a Kubernetes request leaves the server:
  \<open>pkg/kubernetes/rbac_validator.go\<close> with \<open>CanI\<close> of \<open>auth.go\<close>, \<open>schema_validator.go\<close> with
  its cache, \<open>confirmation_validator.go\<close>, \<open>windows_eula_validator.go\<close>, and the errors of
  \<open>pkg/api/validation.go\<close>. What lies outside the server is the environment: the session's
  user, the authorization API, the OpenAPI endpoint with kubectl's schema check, and the YAML
  decoder. The effects of a validator are recorded in the \<open>world\<close>: the prompts shown, the
  access reviews sent, the schema cached.
\<close>

section \<open>Requests and errors\<close>

record groupVersionResource =
  gvrGroup :: string
  gvrVersion :: string
  gvrResource :: string

record httpValidationRequest =
  vrGVR :: "groupVersionResource option"
  vrGVK :: "groupVersionKind option"
  vrHTTPMethod :: string
  vrVerb :: string
  vrNamespace :: string
  vrResourceName :: string
  vrBody :: string
  vrPath :: string

datatype validationErrorCode = ResourceNotFound | InvalidField | PermissionDenied

datatype validationMessage =
    CannotInNamespace string string string
  | CannotClusterScoped string string
  | DoesNotExist string
  | ActionRequiresConfirmation
  | EULARequiredNoSession | EULARequiredNoElicitation | EULARequiredSetParameter | EULANotAccepted
  | SchemaMessage string

record validationError =
  veCode :: validationErrorCode
  veMessage :: validationMessage
  veField :: string

datatype requestErr = Validation validationError | OtherRequestErr string

definition NewPermissionDeniedError :: "string \<Rightarrow> string \<Rightarrow> string \<Rightarrow> validationError" where
  "NewPermissionDeniedError verb resource namespace =
     \<lparr>veCode = PermissionDenied,
      veMessage = (if namespace \<noteq> [] then CannotInNamespace verb resource namespace
                   else CannotClusterScoped verb resource),
      veField = []\<rparr>"

definition FormatResourceName :: "groupVersionResource option \<Rightarrow> string" where
  "FormatResourceName gvro =
     (case gvro of None \<Rightarrow> ''unknown''
      | Some gvr \<Rightarrow>
          if gvrGroup gvr = [] then gvrResource gvr else gvrResource gvr @ ''.'' @ gvrGroup gvr)"

section \<open>Environment and effects\<close>

text \<open>The attributes of a \<open>SelfSubjectAccessReview\<close>; the API's subresource field is last.\<close>

record accessReview =
  arNamespace :: string
  arVerb :: string
  arGroup :: string
  arVersion :: string
  arResource :: string
  arName :: string
  arSubresource :: string

text \<open>
  kubectl's schema errors, as far as the code inspects them: an unknown field, the validation
  wrapper that does not unwrap, an aggregate, anything else.
\<close>

datatype kubectlErr =
    UnknownFieldErr string string
  | ValidationWrapErr kubectlErr string
  | AggregateErr "kubectlErr list" string
  | PlainErr string

fun kubectlMessage :: "kubectlErr \<Rightarrow> string" where
  "kubectlMessage (UnknownFieldErr _ m) = m"
| "kubectlMessage (ValidationWrapErr _ m) = m"
| "kubectlMessage (AggregateErr _ m) = m"
| "kubectlMessage (PlainErr m) = m"

text \<open>The value under the session key of a context: absent, not an elicitor, or a session.\<close>

datatype sessionValue = NoSession | NotElicitor | Session session

datatype 'sch discovery = NoDiscovery | WithoutOpenAPI | OpenAPI "kubectlErr + 'sch"

record pipelineRun =
  prPipelineRefParams :: "(string \<times> string) list option"
  prParams :: "(string \<times> string) list"

record 'sch env =
  eSession :: sessionValue
  eAuthClient :: "(accessReview \<Rightarrow> string + bool) option"
  eDiscovery :: "'sch discovery"
  eNow :: int
  eValidateBytes :: "'sch \<Rightarrow> string \<Rightarrow> kubectlErr option"
  eUnmarshal :: "string \<Rightarrow> pipelineRun option"

record 'sch schemaCache =
  scTTL :: int
  scSchema :: "'sch option"
  scCachedAt :: int

record 'sch world =
  wPrompts :: "string list"
  wReviews :: "accessReview list"
  wCache :: "'sch schemaCache"

section \<open>The RBAC validator\<close>

definition CanI ::
    "(accessReview \<Rightarrow> string + bool) option \<Rightarrow> groupVersionResource \<Rightarrow> string \<Rightarrow> string \<Rightarrow> string \<Rightarrow>
     'sch world \<Rightarrow> (string + bool) \<times> 'sch world" where
  "CanI authClient gvr namespace resourceName verb w =
     (case authClient of
        None \<Rightarrow> (Inr True, w)
      | Some client \<Rightarrow>
          let review = \<lparr>arNamespace = namespace, arVerb = verb, arGroup = gvrGroup gvr,
                        arVersion = gvrVersion gvr, arResource = gvrResource gvr,
                        arName = resourceName, arSubresource = []\<rparr>
          in (client review, w\<lparr>wReviews := wReviews w @ [review]\<rparr>))"

definition rbacValidatorValidate ::
    "'sch env \<Rightarrow> httpValidationRequest \<Rightarrow> 'sch world \<Rightarrow> requestErr option \<times> 'sch world" where
  "rbacValidatorValidate env req w =
     (if vrGVR req = None \<or> vrVerb req = [] then (None, w)
      else if eAuthClient env = None then (None, w)
      else (case CanI (eAuthClient env) (the (vrGVR req)) (vrNamespace req) (vrResourceName req)
                   (vrVerb req) w of
          (Inl _, w) \<Rightarrow> (None, w)
        | (Inr allowed, w) \<Rightarrow>
            if \<not> allowed
            then (Some (Validation (NewPermissionDeniedError (vrVerb req)
                    (FormatResourceName (vrGVR req)) (vrNamespace req))), w)
            else (None, w)))"

section \<open>The schema validator\<close>

definition schemaCacheTTL :: int where
  "schemaCacheTTL = 15 * 60 * 1000000000"

definition newOpenAPISchemaCache :: "'sch schemaCache" where
  "newOpenAPISchemaCache = \<lparr>scTTL = schemaCacheTTL, scSchema = None, scCachedAt = 0\<rparr>"

definition schemaFresh :: "int \<Rightarrow> 'sch schemaCache \<Rightarrow> 'sch option" where
  "schemaFresh now c =
     (if scSchema c = None \<or> scTTL c \<le> 0 \<or> now - scCachedAt c > scTTL c then None else scSchema c)"

definition schemaGet ::
    "'sch env \<Rightarrow> 'sch schemaCache \<Rightarrow> (kubectlErr + 'sch option) \<times> 'sch schemaCache" where
  "schemaGet env c =
     (case schemaFresh (eNow env) c of
        Some s \<Rightarrow> (Inr (Some s), c)
      | None \<Rightarrow>
          (case eDiscovery env of
             NoDiscovery \<Rightarrow> (Inr None, c)
           | WithoutOpenAPI \<Rightarrow> (Inr None, c)
           | OpenAPI fetched \<Rightarrow>
               (case fetched of
                  Inl err \<Rightarrow> (Inl err, c)
                | Inr s \<Rightarrow> (Inr (Some s), c\<lparr>scSchema := Some s, scCachedAt := eNow env\<rparr>))))"

definition extractUnknownField :: "kubectlErr \<Rightarrow> string" where
  "extractUnknownField err =
     (case err of
        UnknownFieldErr f _ \<Rightarrow> f
      | ValidationWrapErr (UnknownFieldErr f _) _ \<Rightarrow> f
      | _ \<Rightarrow> [])"

fun firstUnknownField :: "kubectlErr list \<Rightarrow> string" where
  "firstUnknownField [] = []"
| "firstUnknownField (e # es) =
     (if extractUnknownField e \<noteq> [] then extractUnknownField e else firstUnknownField es)"

definition convertKubectlValidationError :: "kubectlErr \<Rightarrow> validationError" where
  "convertKubectlValidationError err =
     (let field = (case err of AggregateErr es _ \<Rightarrow> firstUnknownField es | _ \<Rightarrow> extractUnknownField err)
      in \<lparr>veCode = InvalidField, veMessage = SchemaMessage (kubectlMessage err), veField = field\<rparr>)"

definition schemaValidatorValidate ::
    "'sch env \<Rightarrow> httpValidationRequest \<Rightarrow> 'sch world \<Rightarrow> requestErr option \<times> 'sch world" where
  "schemaValidatorValidate env req w =
     (if vrGVK req = None \<or> vrBody req = [] then (None, w)
      else if vrVerb req \<noteq> ''create'' \<and> vrVerb req \<noteq> ''update'' then (None, w)
      else (case schemaGet env (wCache w) of (got, c) \<Rightarrow>
          let w = w\<lparr>wCache := c\<rparr>
          in (case got of
                Inl err \<Rightarrow> (Some (Validation (convertKubectlValidationError err)), w)
              | Inr None \<Rightarrow> (None, w)
              | Inr (Some schema) \<Rightarrow>
                  (case eValidateBytes env schema (vrBody req) of
                     None \<Rightarrow> (None, w)
                   | Some err \<Rightarrow>
                       let errMsg = kubectlMessage err
                       in if containsSub errMsg ''yaml:'' \<or> containsSub errMsg ''json:'' then (None, w)
                          else (Some (Validation (convertKubectlValidationError err)), w)))))"

section \<open>The confirmation validator\<close>

definition contextSession :: "sessionValue \<Rightarrow> session option" where
  "contextSession v = (case v of Session s \<Rightarrow> Some s | _ \<Rightarrow> None)"

definition confirmationValidatorValidate ::
    "confirmationRule list \<Rightarrow> string \<Rightarrow> 'sch env \<Rightarrow> httpValidationRequest \<Rightarrow> 'sch world \<Rightarrow>
     requestErr option \<times> 'sch world" where
  "confirmationValidatorValidate rules fallback env req w =
     (let (kind, grp, version) =
            (case vrGVK req of None \<Rightarrow> ([], [], [])
             | Some gvk \<Rightarrow> (gvkKind gvk, gvkGroup gvk, gvkVersion gvk));
          (err, shown) = CheckKubeRules rules fallback (contextElicit (contextSession (eSession env)))
            (vrVerb req) kind grp version (vrResourceName req) (vrNamespace req);
          w = w\<lparr>wPrompts := wPrompts w @ shown\<rparr>
      in (case err of
            None \<Rightarrow> (None, w)
          | Some ConfirmationDenied \<Rightarrow>
              (Some (Validation \<lparr>veCode = PermissionDenied, veMessage = ActionRequiresConfirmation,
                                 veField = []\<rparr>), w)
          | Some (ElicitError (ElicitationNotSupported m)) \<Rightarrow> (Some (OtherRequestErr m), w)
          | Some (ElicitError (ElicitFailed m)) \<Rightarrow> (Some (OtherRequestErr m), w)))"

section \<open>The Windows EULA validator\<close>

definition isWindowsPipelineRun :: "httpValidationRequest \<Rightarrow> bool" where
  "isWindowsPipelineRun req =
     (if vrVerb req \<noteq> ''create'' \<and> vrVerb req \<noteq> ''update'' \<and> vrVerb req \<noteq> ''patch'' then False
      else (case vrGVK req of None \<Rightarrow> False
            | Some gvk \<Rightarrow> gvkKind gvk = ''PipelineRun'' \<and> gvkGroup gvk = ''tekton.dev''))"

fun getPipelineParam :: "(string \<times> string) list \<Rightarrow> string \<Rightarrow> string" where
  "getPipelineParam [] name = []"
| "getPipelineParam ((n, v) # params) name = (if n = name then v else getPipelineParam params name)"

definition isWindowsEFIInstallerPipeline :: "pipelineRun \<Rightarrow> bool" where
  "isWindowsEFIInstallerPipeline pr =
     (case prPipelineRefParams pr of None \<Rightarrow> False
      | Some ps \<Rightarrow> getPipelineParam ps ''name'' = ''windows-efi-installer'')"

definition requiresEULAPrompt :: "pipelineRun \<Rightarrow> bool" where
  "requiresEULAPrompt pr =
     (if \<not> isWindowsEFIInstallerPipeline pr then False
      else getPipelineParam (prParams pr) ''acceptEula'' \<noteq> ''true'')"

definition eulaMessage :: string where
  "eulaMessage = ''Microsoft EULA Notice: This PipelineRun will create a Windows golden image. By proceeding, you agree to the Microsoft Software License Terms for the Windows operating system. Do you accept the Microsoft End User License Agreement (EULA)?''"

definition eulaDenied :: "validationMessage \<Rightarrow> requestErr option" where
  "eulaDenied m = Some (Validation \<lparr>veCode = PermissionDenied, veMessage = m, veField = []\<rparr>)"

definition promptForEULA :: "sessionValue \<Rightarrow> 'sch world \<Rightarrow> requestErr option \<times> 'sch world" where
  "promptForEULA sv w =
     (case sv of
        NoSession \<Rightarrow> (eulaDenied EULARequiredNoSession, w)
      | NotElicitor \<Rightarrow> (eulaDenied EULARequiredNoElicitation, w)
      | Session s \<Rightarrow>
          let w = w\<lparr>wPrompts := wPrompts w @ [eulaMessage]\<rparr>
          in (case s eulaMessage of
                Inl err \<Rightarrow>
                  if isElicitationNotSupportedError err then (eulaDenied EULARequiredSetParameter, w)
                  else (Some (OtherRequestErr err), w)
              | Inr action \<Rightarrow>
                  if action \<noteq> ElicitActionAccept then (eulaDenied EULANotAccepted, w) else (None, w)))"

definition windowsEULAValidate ::
    "'sch env \<Rightarrow> httpValidationRequest \<Rightarrow> 'sch world \<Rightarrow> requestErr option \<times> 'sch world" where
  "windowsEULAValidate env req w =
     (if \<not> isWindowsPipelineRun req then (None, w)
      else (case eUnmarshal env (vrBody req) of
          None \<Rightarrow> (None, w)
        | Some pr \<Rightarrow> if \<not> requiresEULAPrompt pr then (None, w) else promptForEULA (eSession env) w))"

section \<open>The validators of a configuration\<close>

datatype validator = SchemaV | RBACV | ConfirmationV "confirmationRule list" string | WindowsEULAV

definition runValidator ::
    "'sch env \<Rightarrow> validator \<Rightarrow> httpValidationRequest \<Rightarrow> 'sch world \<Rightarrow> requestErr option \<times> 'sch world" where
  "runValidator env v =
     (case v of
        SchemaV \<Rightarrow> schemaValidatorValidate env
      | RBACV \<Rightarrow> rbacValidatorValidate env
      | ConfirmationV rules fallback \<Rightarrow> confirmationValidatorValidate rules fallback env
      | WindowsEULAV \<Rightarrow> windowsEULAValidate env)"

definition validatorReg :: "(unit \<Rightarrow> validator) goRegistry" where
  "validatorReg =
     the (Option.bind (validatorRegister ''schema'' (\<lambda>_. SchemaV) [])
       (validatorRegister ''rbac'' (\<lambda>_. RBACV)))"

definition validatorsFromAccessControlConfig ::
    "bool \<Rightarrow> confirmationRule list \<Rightarrow> string \<Rightarrow> validator list" where
  "validatorsFromAccessControlConfig validationEnabled rules fallback =
     (if validationEnabled then createAll () validatorReg else [])
     @ (if rules \<noteq> [] then [ConfirmationV rules fallback] else [])
     @ [WindowsEULAV]"

section \<open>What the validators guarantee\<close>

lemma CreateValidators_order: "createAll () validatorReg = [RBACV, SchemaV]"
  by code_simp

text \<open>A validator appends to the prompts and reviews, and only the cache may change otherwise.\<close>

definition extendsWorld :: "'sch world \<Rightarrow> 'sch world \<Rightarrow> bool" where
  "extendsWorld w w' \<longleftrightarrow> (\<exists>p r. wPrompts w' = wPrompts w @ p \<and> wReviews w' = wReviews w @ r)"

lemma extendsWorld_refl [simp]: "extendsWorld w w"
  by (auto simp: extendsWorld_def)

lemma extendsWorld_trans: "extendsWorld w w1 \<Longrightarrow> extendsWorld w1 w2 \<Longrightarrow> extendsWorld w w2"
  unfolding extendsWorld_def by (metis append.assoc)

lemma runValidator_extends: "extendsWorld w (snd (runValidator env v req w))"
proof (cases v)
  case (ConfirmationV rules fallback)
  then show ?thesis
    by (auto simp: runValidator_def confirmationValidatorValidate_def extendsWorld_def Let_def
        split: prod.splits option.splits confirmErr.splits elicitErr.splits)
qed (auto simp: runValidator_def schemaValidatorValidate_def rbacValidatorValidate_def
      windowsEULAValidate_def promptForEULA_def CanI_def extendsWorld_def Let_def
      split: prod.splits option.splits sum.splits sessionValue.splits)

text \<open>
  A Windows golden-image run that does not carry \<open>acceptEula=true\<close> is let through only when
  the user of this session accepted the EULA prompt: without a session, without elicitation
  support, or on any other answer the request is rejected.
\<close>

lemma eula_needs_acceptance:
  assumes "isWindowsPipelineRun req" and "eUnmarshal env (vrBody req) = Some pr"
    and "isWindowsEFIInstallerPipeline pr" and "getPipelineParam (prParams pr) ''acceptEula'' \<noteq> ''true''"
  shows "fst (runValidator env WindowsEULAV req w) = None \<longleftrightarrow>
    (\<exists>s. eSession env = Session s \<and> s eulaMessage = Inr ''accept'')"
  using assms
  by (auto simp: runValidator_def windowsEULAValidate_def requiresEULAPrompt_def promptForEULA_def
      eulaDenied_def ElicitActionAccept_def Let_def split: sessionValue.splits sum.splits)

text \<open>
  The RBAC pre-check asks the authorization API about the parent resource only: whatever
  request it validates, every access review it sends leaves the subresource empty, so the
  permission checked for a request on a subresource is the one for its resource.
\<close>

lemma rbac_review_has_no_subresource:
  assumes "rbacValidatorValidate env req w = (err, w')" and "review \<in> set (wReviews w') - set (wReviews w)"
  shows "arSubresource review = [] \<and> arResource review = gvrResource (the (vrGVR req))
    \<and> arVerb review = vrVerb req"
  using assms
  by (auto simp: rbacValidatorValidate_def CanI_def Let_def split: if_splits option.splits sum.splits prod.splits)

end
