(* ===== verification/Check_Chain.thy ===== *)
theory Check_Chain
  imports Go_Prelude
begin

text \<open>
  A chain of checks that may have effects and of which the first error stops the chain: the
  contract between the round tripper and its validators, and between the MCP server and its
  middlewares. The effects a check may have are bounded by a preorder on the state.
\<close>

locale check_chain =
  fixes run :: "'v \<Rightarrow> 'r \<Rightarrow> 'w \<Rightarrow> 'e option \<times> 'w"
    and ext :: "'w \<Rightarrow> 'w \<Rightarrow> bool"
  assumes ext_refl: "ext w w"
    and ext_trans: "ext w w1 \<Longrightarrow> ext w1 w2 \<Longrightarrow> ext w w2"
    and run_ext: "ext w (snd (run v r w))"
begin

fun chain :: "'v list \<Rightarrow> 'r \<Rightarrow> 'w \<Rightarrow> 'e option \<times> 'w" where
  "chain [] r w = (None, w)"
| "chain (v # vs) r w = (case run v r w of (Some e, w) \<Rightarrow> (Some e, w) | (None, w) \<Rightarrow> chain vs r w)"

lemma chain_ext: "ext w (snd (chain vs r w))"
proof (induction vs arbitrary: w)
  case (Cons v vs)
  obtain e w1 where r: "run v r w = (e, w1)" by (cases "run v r w")
  have "ext w w1" using run_ext [of w v r] r by simp
  with Cons [of w1] r ext_trans show ?case by (cases e) auto
qed (simp add: ext_refl)

lemma chain_append:
  "chain (vs @ us) r w =
    (case chain vs r w of (Some e, w) \<Rightarrow> (Some e, w) | (None, w) \<Rightarrow> chain us r w)"
  by (induction vs arbitrary: w) (auto split: prod.splits option.splits)

lemma chain_passes_all:
  assumes "chain vs r w = (None, w')" and "vs = us @ v # ts"
  shows "\<exists>w1 w2. ext w w1 \<and> run v r w1 = (None, w2) \<and> ext w2 w'"
proof -
  obtain w1 where u: "chain us r w = (None, w1)" and "chain (v # ts) r w1 = (None, w')"
    using assms by (auto simp: chain_append split: prod.splits option.splits)
  then obtain w2 where "run v r w1 = (None, w2)" "chain ts r w2 = (None, w')"
    by (auto split: prod.splits option.splits)
  then show ?thesis using u chain_ext [of w us r] chain_ext [of w2 ts r] by auto
qed

end

end
