(* ===== verification/Access_Control.thy ===== *)
theory Access_Control
  imports Validators Check_Chain
begin

text \<open>
  \<open>pkg/kubernetes/accesscontrol_round_tripper.go\<close>: every Kubernetes request passes this round
  tripper, which derives the resource from the URL path, refuses denied resources, runs the
  validators of the live configuration, and only then hands the request to its delegate. The
  REST mapper, the raw discovery endpoint and the configuration store are parameters; a
  configuration is known by its address, as the code compares pointers.
\<close>

section \<open>Paths\<close>

definition pathParts :: "string \<Rightarrow> string list" where
  "pathParts path = goSplit CHR ''/'' (goTrim CHR ''/'' path)"

definition parseURLToGVR :: "string \<Rightarrow> groupVersionResource option" where
  "parseURLToGVR path =
     (let parts = pathParts path
      in if parts ! 0 = ''api'' then
           (if length parts < 3 then None
            else Some \<lparr>gvrGroup = [], gvrVersion = parts ! 1,
                       gvrResource = (if parts ! 2 = ''namespaces'' \<and> length parts > 4
                                      then parts ! 4 else parts ! 2)\<rparr>)
         else if parts ! 0 = ''apis'' then
           (if length parts < 4 then None
            else Some \<lparr>gvrGroup = parts ! 1, gvrVersion = parts ! 2,
                       gvrResource = (if parts ! 3 = ''namespaces'' \<and> length parts > 5
                                      then parts ! 5 else parts ! 3)\<rparr>)
         else None)"

definition stripAPIPathPrefix :: "string \<Rightarrow> string \<Rightarrow> string" where
  "stripAPIPathPrefix path prefix =
     (let prefix = trimSuffix prefix ''/''
      in if prefix = [] then path
         else if path = prefix then ''/''
         else if hasPrefix path (prefix @ ''/'') then trimPrefix path prefix
         else path)"

definition findResourceTypeIndex :: "string list \<Rightarrow> int" where
  "findResourceTypeIndex parts =
     (if parts = [] then -1
      else if parts ! 0 = ''api'' then
        (if length parts < 3 then -1
         else if parts ! 2 = ''namespaces'' \<and> length parts > 4 then 4
         else 2)
      else if parts ! 0 = ''apis'' then
        (if length parts < 4 then -1
         else if parts ! 3 = ''namespaces'' \<and> length parts > 5 then 5
         else 3)
      else -1)"

text \<open>The loop that takes the segment after the first \<open>namespaces\<close> that has one.\<close>

fun namespaceLoop :: "string list \<Rightarrow> string" where
  "namespaceLoop (p # q # parts) = (if p = ''namespaces'' then q else namespaceLoop (q # parts))"
| "namespaceLoop _ = []"

definition parseURLToNamespaceAndName :: "string \<Rightarrow> string \<times> string" where
  "parseURLToNamespaceAndName path =
     (let parts = pathParts path;
          namespace = namespaceLoop parts;
          resourceIdx = findResourceTypeIndex parts
      in (namespace,
          if resourceIdx \<ge> 0 \<and> resourceIdx + 1 < int (length parts)
          then parts ! nat (resourceIdx + 1) else []))"

definition parseSubresource :: "string \<Rightarrow> string" where
  "parseSubresource path =
     (let parts = pathParts path;
          resourceIdx = findResourceTypeIndex parts
      in if resourceIdx \<ge> 0 \<and> resourceIdx + 2 < int (length parts)
         then parts ! nat (resourceIdx + 2) else [])"

definition isCollectionPath :: "string \<Rightarrow> bool" where
  "isCollectionPath path =
     (let parts = pathParts path;
          resourceIdx = findResourceTypeIndex parts
      in if resourceIdx < 0 then False else resourceIdx = int (length parts) - 1)"

definition httpMethodToVerb :: "string \<Rightarrow> string \<Rightarrow> string" where
  "httpMethodToVerb method path =
     (if method = ''GET'' then (if isCollectionPath path then ''list'' else ''get'')
      else if method = ''POST'' then ''create''
      else if method = ''PUT'' then ''update''
      else if method = ''PATCH'' then ''patch''
      else if method = ''DELETE'' then (if isCollectionPath path then ''deletecollection'' else ''delete'')
      else toLower method)"

section \<open>Raw discovery\<close>

type_synonym apiResourceList = "string list option"

type_synonym rawDiscoveryCache = "string \<rightharpoonup> apiResourceList"

definition ServerResourcesForGroupVersion ::
    "(string \<Rightarrow> string + apiResourceList) \<Rightarrow> string \<Rightarrow> rawDiscoveryCache \<Rightarrow>
     (string + apiResourceList) \<times> rawDiscoveryCache" where
  "ServerResourcesForGroupVersion delegate groupVersion cache =
     (case cache groupVersion of
        Some rl \<Rightarrow> (Inr rl, cache)
      | None \<Rightarrow>
          (case delegate groupVersion of
             Inl err \<Rightarrow> (Inl err, cache)
           | Inr rl \<Rightarrow> (Inr rl, cache(groupVersion \<mapsto> rl))))"

definition resourceExistsInDiscovery ::
    "(string \<Rightarrow> string + apiResourceList) \<Rightarrow> groupVersionResource \<Rightarrow> string \<Rightarrow> rawDiscoveryCache option \<Rightarrow>
     bool \<times> rawDiscoveryCache option" where
  "resourceExistsInDiscovery delegate gvr subresource rawDiscovery =
     (case rawDiscovery of None \<Rightarrow> (False, None)
      | Some cache \<Rightarrow>
          let groupVersion = (if gvrGroup gvr = [] then gvrVersion gvr
                              else gvrGroup gvr @ ''/'' @ gvrVersion gvr)
          in (case ServerResourcesForGroupVersion delegate groupVersion cache of
                (Inl _, cache) \<Rightarrow> (False, Some cache)
              | (Inr None, cache) \<Rightarrow> (False, Some cache)
              | (Inr (Some names), cache) \<Rightarrow>
                  if subresource \<noteq> []
                  then (list_ex (\<lambda>n. n = gvrResource gvr @ ''/'' @ subresource) names, Some cache)
                  else (list_ex (\<lambda>n. n = gvrResource gvr \<or> hasPrefix n (gvrResource gvr @ ''/'')) names,
                        Some cache)))"

section \<open>The round tripper\<close>

text \<open>The part of a configuration that the round tripper reads.\<close>

record acConfig =
  acDeniedResources :: "groupVersionKind list"
  acValidationEnabled :: bool
  acConfirmationRules :: "confirmationRule list"
  acConfirmationFallback :: string

datatype mapperErr = NoMatch | MapperFailed string

text \<open>
  Parameters: the REST mapper (nil before it is set), raw discovery, the text of a group and
  version, the address of the live configuration (nil without a provider) and the
  configuration stored at an address, and the environment of the validators.
\<close>

record 'sch rtEnv =
  reRestMapper :: "(groupVersionResource \<Rightarrow> mapperErr + groupVersionKind) option"
  reRawDiscovery :: "string \<Rightarrow> string + apiResourceList"
  reGVString :: "string \<Rightarrow> string \<Rightarrow> string"
  reLiveConfig :: "nat option"
  reConfigAt :: "nat \<Rightarrow> acConfig"
  reEnv :: "'sch env"

record 'sch rtState =
  rsDenied :: "groupVersionKind list"
  rsPrefix :: string
  rsRaw :: "rawDiscoveryCache option"
  rsSnapshotValidators :: "validator list"
  rsLive :: "(nat \<times> validator list) option"
  rsWorld :: "'sch world"

datatype rtErr =
    RestMapperNotInitialized
  | KindLookupFailed string
  | NotAllowed groupVersionKind
  | BodyReadFailed string
  | Refused requestErr

record httpRequest =
  hrMethod :: string
  hrPath :: string
  hrBody :: "(string + string) option"

definition validatorsFromConfig :: "acConfig \<Rightarrow> validator list" where
  "validatorsFromConfig cfg =
     validatorsFromAccessControlConfig (acValidationEnabled cfg) (acConfirmationRules cfg)
       (acConfirmationFallback cfg)"

definition currentDeniedResources :: "'sch rtEnv \<Rightarrow> 'sch rtState \<Rightarrow> groupVersionKind list" where
  "currentDeniedResources re s =
     (case reLiveConfig re of Some p \<Rightarrow> acDeniedResources (reConfigAt re p) | None \<Rightarrow> rsDenied s)"

definition currentValidators :: "'sch rtEnv \<Rightarrow> 'sch rtState \<Rightarrow> validator list \<times> 'sch rtState" where
  "currentValidators re s =
     (case reLiveConfig re of
        None \<Rightarrow> (rsSnapshotValidators s, s)
      | Some p \<Rightarrow>
          (case rsLive s of
             Some (q, vs) \<Rightarrow>
               if q = p then (vs, s)
               else let vs = validatorsFromConfig (reConfigAt re p) in (vs, s\<lparr>rsLive := Some (p, vs)\<rparr>)
           | None \<Rightarrow>
               let vs = validatorsFromConfig (reConfigAt re p) in (vs, s\<lparr>rsLive := Some (p, vs)\<rparr>)))"

definition isAllowed :: "'sch rtEnv \<Rightarrow> groupVersionKind \<Rightarrow> 'sch rtState \<Rightarrow> bool" where
  "isAllowed re gvk s \<longleftrightarrow>
     \<not> IsDeniedResource (reGVString re (gvkGroup gvk) (gvkVersion gvk)) (gvkKind gvk)
         (currentDeniedResources re s)"

definition getGVK ::
    "'sch rtEnv \<Rightarrow> groupVersionResource \<Rightarrow> string \<Rightarrow> 'sch rtState \<Rightarrow> (rtErr + groupVersionKind) \<times> 'sch rtState" where
  "getGVK re gvr subresource s =
     (case reRestMapper re of
        None \<Rightarrow> (Inl RestMapperNotInitialized, s)
      | Some kindFor \<Rightarrow>
          (case kindFor gvr of
             Inr gvk \<Rightarrow> (Inr gvk, s)
           | Inl NoMatch \<Rightarrow>
               (case resourceExistsInDiscovery (reRawDiscovery re) gvr subresource (rsRaw s) of
                  (exists, raw) \<Rightarrow>
                    let s = s\<lparr>rsRaw := raw\<rparr>
                    in if exists
                       then (Inr \<lparr>gvkGroup = gvrGroup gvr, gvkVersion = gvrVersion gvr, gvkKind = []\<rparr>, s)
                       else (Inl (Refused (Validation \<lparr>veCode = ResourceNotFound,
                                veMessage = DoesNotExist (FormatResourceName (Some gvr)),
                                veField = []\<rparr>)), s))
           | Inl (MapperFailed m) \<Rightarrow> (Inl (KindLookupFailed m), s)))"

fun runValidators ::
    "'sch env \<Rightarrow> validator list \<Rightarrow> httpValidationRequest \<Rightarrow> 'sch world \<Rightarrow> requestErr option \<times> 'sch world" where
  "runValidators env [] req w = (None, w)"
| "runValidators env (v # vs) req w =
     (case runValidator env v req w of
        (Some e, w) \<Rightarrow> (Some e, w)
      | (None, w) \<Rightarrow> runValidators env vs req w)"

text \<open>
  \<open>RoundTrip\<close>: \<^const>\<open>Inr\<close> is the request handed to the delegate, whose answer is returned;
  \<^const>\<open>Inl\<close> is an error without a call of the delegate.
\<close>

definition accessRoundTrip ::
    "'sch rtEnv \<Rightarrow> httpRequest \<Rightarrow> 'sch rtState \<Rightarrow> (rtErr + httpRequest) \<times> 'sch rtState" where
  "accessRoundTrip re req s =
     (let kubernetesPath = stripAPIPathPrefix (hrPath req) (rsPrefix s)
      in (case parseURLToGVR kubernetesPath of
            None \<Rightarrow> (Inr req, s)
          | Some gvr \<Rightarrow>
              (case getGVK re gvr (parseSubresource kubernetesPath) s of
                 (Inl err, s) \<Rightarrow> (Inl err, s)
               | (Inr gvk, s) \<Rightarrow>
                   if \<not> isAllowed re gvk s then (Inl (NotAllowed gvk), s)
                   else if gvrGroup gvr = ''authorization.k8s.io'' \<and> gvrResource gvr = ''selfsubjectaccessreviews''
                   then (Inr req, s)
                   else
                     let (namespace, resourceName) = parseURLToNamespaceAndName kubernetesPath;
                         verb = httpMethodToVerb (hrMethod req) kubernetesPath;
                         readsBody = (hrBody req \<noteq> None \<and>
                           (hrMethod req = ''POST'' \<or> hrMethod req = ''PUT'' \<or> hrMethod req = ''PATCH''))
                     in (case (if readsBody then the (hrBody req) else Inr []) of
                           Inl readErr \<Rightarrow> (Inl (BodyReadFailed readErr), s)
                         | Inr body \<Rightarrow>
                             let req = (if readsBody then req\<lparr>hrBody := Some (Inr body)\<rparr> else req);
                                 validationReq =
                                   \<lparr>vrGVR = Some gvr, vrGVK = Some gvk, vrHTTPMethod = hrMethod req,
                                    vrVerb = verb, vrNamespace = namespace, vrResourceName = resourceName,
                                    vrBody = body, vrPath = kubernetesPath\<rparr>;
                                 (vs, s) = currentValidators re s
                             in (case runValidators (reEnv re) vs validationReq (rsWorld s) of
                                   (Some e, w) \<Rightarrow> (Inl (Refused e), s\<lparr>rsWorld := w\<rparr>)
                                 | (None, w) \<Rightarrow> (Inr req, s\<lparr>rsWorld := w\<rparr>))))))"

section \<open>Reading a path back\<close>

text \<open>
  The URL of a Kubernetes resource as the API conventions write it: the legacy core group under
  \<open>/api\<close>, every other group under \<open>/apis\<close>, a namespace segment for a namespaced resource, then
  the resource type and, in \<open>rest\<close>, its name and subresource.
\<close>

definition apiSegments :: "string \<Rightarrow> string \<Rightarrow> string option \<Rightarrow> string \<Rightarrow> string list \<Rightarrow> string list" where
  "apiSegments g v ns res rest =
     (if g = [] then [''api'', v] else [''apis'', g, v])
     @ (case ns of None \<Rightarrow> [] | Some n \<Rightarrow> [''namespaces'', n]) @ res # rest"

definition apiPath :: "string \<Rightarrow> string \<Rightarrow> string option \<Rightarrow> string \<Rightarrow> string list \<Rightarrow> string" where
  "apiPath g v ns res rest = CHR ''/'' # goJoin ''/'' (apiSegments g v ns res rest)"

definition segOk :: "string \<Rightarrow> bool" where
  "segOk p \<longleftrightarrow> p \<noteq> [] \<and> CHR ''/'' \<notin> set p"

lemma goJoin_ends:
  assumes "ps \<noteq> []" and "\<forall>p \<in> set ps. p \<noteq> []"
  shows "goJoin sep ps \<noteq> []" "hd (goJoin sep ps) = hd (hd ps)" "last (goJoin sep ps) = last (last ps)"
proof -
  have "goJoin sep ps \<noteq> [] \<and> hd (goJoin sep ps) = hd (hd ps) \<and> last (goJoin sep ps) = last (last ps)"
    using assms by (induction sep ps rule: goJoin.induct) auto
  then show "goJoin sep ps \<noteq> []" "hd (goJoin sep ps) = hd (hd ps)" "last (goJoin sep ps) = last (last ps)"
    by auto
qed

lemma pathParts_join:
  assumes "ps \<noteq> []" and "list_all segOk ps"
  shows "pathParts (CHR ''/'' # goJoin ''/'' ps) = ps"
proof -
  have ok: "\<forall>p \<in> set ps. p \<noteq> [] \<and> CHR ''/'' \<notin> set p" using assms(2) by (simp add: list_all_iff segOk_def)
  then have ne: "\<forall>p \<in> set ps. p \<noteq> []" by blast
  have "hd (hd ps) \<in> set (hd ps)" "last (last ps) \<in> set (last ps)" "hd ps \<in> set ps" "last ps \<in> set ps"
    using assms(1) ne by simp_all
  then have "hd (hd ps) \<noteq> CHR ''/''" "last (last ps) \<noteq> CHR ''/''" using ok by metis+
  then have "goTrim CHR ''/'' (CHR ''/'' # goJoin ''/'' ps) = goJoin ''/'' ps"
    using goJoin_ends [OF assms(1) ne, of "''/''"] by (intro goTrim_lead) auto
  then show ?thesis using goSplit_goJoin [OF assms(1), of "CHR ''/''"] ok by (simp add: pathParts_def)
qed

lemma pathParts_apiPath:
  assumes "list_all segOk (apiSegments g v ns res rest)"
  shows "pathParts (apiPath g v ns res rest) = apiSegments g v ns res rest"
  unfolding apiPath_def using assms by (intro pathParts_join) (simp_all add: apiSegments_def)

lemma namespaceLoop_none: "''namespaces'' \<notin> set (butlast ps) \<Longrightarrow> namespaceLoop ps = []"
  by (induction ps rule: namespaceLoop.induct) auto

lemma namespaceLoop_skip:
  "''namespaces'' \<notin> set ps \<Longrightarrow> namespaceLoop (ps @ ''namespaces'' # n # qs) = n"
  by (induction ps rule: namespaceLoop.induct) auto

lemma stripAPIPathPrefix_append:
  assumes "\<not> hasSuffix prefix ''/''" and "hasPrefix path ''/''"
  shows "stripAPIPathPrefix (prefix @ path) prefix = path"
proof -
  obtain rest where "path = ''/'' @ rest" using assms(2) by (auto simp: hasPrefix_iff)
  then have "hasPrefix (prefix @ path) (prefix @ ''/'')" by (simp add: hasPrefix_def)
  then show ?thesis
    using assms \<open>path = _\<close> by (simp add: stripAPIPathPrefix_def trimSuffix_def Let_def)
qed

lemma apiPath_reads:
  assumes ok: "list_all segOk (apiSegments g v ns res rest)"
    and noamb: "''namespaces'' \<notin> {g, v}" "ns = None \<longrightarrow> ''namespaces'' \<notin> set (res # rest)"
    and path: "path = apiPath g v ns res rest"
  shows "parseURLToGVR path = Some \<lparr>gvrGroup = g, gvrVersion = v, gvrResource = res\<rparr>
    \<and> parseURLToNamespaceAndName path
        = (case ns of None \<Rightarrow> [] | Some n \<Rightarrow> n, case rest of [] \<Rightarrow> [] | name # _ \<Rightarrow> name)
    \<and> parseSubresource path = (case rest of _ # sub # _ \<Rightarrow> sub | _ \<Rightarrow> [])
    \<and> (isCollectionPath path \<longleftrightarrow> rest = [])"
proof -
  note parts = pathParts_apiPath [OF ok, folded path]
  let ?i = "(if g = [] then 2 else 3) + (if ns = None then 0 else 2) :: nat"
  have idx: "findResourceTypeIndex (pathParts path) = int ?i"
    unfolding parts findResourceTypeIndex_def using noamb by (cases ns) (auto simp: apiSegments_def)
  have len: "length (pathParts path) = ?i + 1 + length rest"
    unfolding parts by (cases ns) (simp_all add: apiSegments_def)
  have nth: "pathParts path ! (?i + k) = (res # rest) ! k" for k
    unfolding parts by (cases ns) (simp_all add: apiSegments_def numeral_eq_Suc)
  have gvr: "parseURLToGVR path = Some \<lparr>gvrGroup = g, gvrVersion = v, gvrResource = res\<rparr>"
    unfolding parseURLToGVR_def parts using noamb
    by (cases ns) (auto simp: apiSegments_def numeral_eq_Suc)
  have n: "namespaceLoop (pathParts path) = (case ns of None \<Rightarrow> [] | Some n \<Rightarrow> n)"
  proof (cases ns)
    case None
    then show ?thesis unfolding parts using noamb
      by (auto intro!: namespaceLoop_none simp: apiSegments_def dest: in_set_butlastD split: if_splits)
  next
    case (Some n)
    then show ?thesis unfolding parts
      using noamb namespaceLoop_skip [of "if g = [] then [''api'', v] else [''apis'', g, v]" n "res # rest"]
      by (auto simp: apiSegments_def)
  qed
  have "parseURLToNamespaceAndName path
      = (case ns of None \<Rightarrow> [] | Some n \<Rightarrow> n, case rest of [] \<Rightarrow> [] | name # _ \<Rightarrow> name)"
    unfolding parseURLToNamespaceAndName_def Let_def n idx len
    using nth [of 1] by (cases rest) (simp_all add: nat_add_distrib)
  moreover have "parseSubresource path = (case rest of _ # sub # _ \<Rightarrow> sub | _ \<Rightarrow> [])"
    unfolding parseSubresource_def Let_def idx len
    using nth [of 2] by (cases rest; cases "tl rest") (auto simp: nat_add_distrib numeral_eq_Suc)
  moreover have "isCollectionPath path \<longleftrightarrow> rest = []"
    unfolding isCollectionPath_def Let_def idx len by simp
  ultimately show ?thesis using gvr by blast
qed

text \<open>
  C40. Behind any server prefix, the round tripper reads the URL of a resource back: the group,
  version and resource, the namespace, the name, the subresource and whether the path is a
  collection are the ones the URL was built from. The segment \<open>namespaces\<close> must not occur
  where it would be ambiguous.
\<close>

theorem resource_path_roundtrip:
  assumes ok: "list_all segOk (apiSegments g v ns res rest)"
    and noamb: "''namespaces'' \<notin> {g, v}" "ns = None \<longrightarrow> ''namespaces'' \<notin> set (res # rest)"
    and prefix: "\<not> hasSuffix prefix ''/''"
    and path: "path = stripAPIPathPrefix (prefix @ apiPath g v ns res rest) prefix"
  shows "parseURLToGVR path = Some \<lparr>gvrGroup = g, gvrVersion = v, gvrResource = res\<rparr>
    \<and> parseURLToNamespaceAndName path
        = (case ns of None \<Rightarrow> [] | Some n \<Rightarrow> n, case rest of [] \<Rightarrow> [] | name # _ \<Rightarrow> name)
    \<and> parseSubresource path = (case rest of _ # sub # _ \<Rightarrow> sub | _ \<Rightarrow> [])
    \<and> (isCollectionPath path \<longleftrightarrow> rest = [])"
proof -
  have p: "path = apiPath g v ns res rest"
    unfolding path using prefix by (intro stripAPIPathPrefix_append) (simp_all add: apiPath_def hasPrefix_def)
  show ?thesis using apiPath_reads [OF ok noamb p] .
qed

theorem resource_path_roundtrip_witness:
  "parseURLToGVR (stripAPIPathPrefix ''/k8s/clusters/c1/apis/apps/v1/namespaces/web/deployments/d/scale'' ''/k8s/clusters/c1'')
    = Some \<lparr>gvrGroup = ''apps'', gvrVersion = ''v1'', gvrResource = ''deployments''\<rparr>"
  using resource_path_roundtrip [of "''apps''" "''v1''" "Some ''web''" "''deployments''" "[''d'', ''scale'']" "''/k8s/clusters/c1''" _]
  by (simp add: apiSegments_def apiPath_def segOk_def hasSuffix_def)

text \<open>
  A subresource of a namespace is not read back: for \<open>/api/v1/namespaces/NAME/status\<close> or
  \<open>.../finalize\<close> the last segment is taken for a resource type inside the namespace, and a
  cluster whose REST mapper and discovery have no such type refuses the request.
\<close>

lemma namespace_subresource_refused:
  assumes "list_all segOk [v, n, sub]" and "hrPath req = apiPath [] v None ''namespaces'' [n, sub]"
    and "rsPrefix s = []" and "rsRaw s = None" and "reRestMapper re = Some kindFor"
    and "kindFor \<lparr>gvrGroup = [], gvrVersion = v, gvrResource = sub\<rparr> = Inl NoMatch"
  shows "fst (accessRoundTrip re req s) =
    Inl (Refused (Validation \<lparr>veCode = ResourceNotFound, veMessage = DoesNotExist sub, veField = []\<rparr>))"
proof -
  have ok: "list_all segOk (apiSegments [] v None ''namespaces'' [n, sub])"
    using assms(1) by (simp add: apiSegments_def segOk_def)
  have "stripAPIPathPrefix (hrPath req) (rsPrefix s) = hrPath req"
    using assms(3) by (simp add: stripAPIPathPrefix_def trimSuffix_def hasSuffix_def)
  moreover have "parseURLToGVR (hrPath req) = Some \<lparr>gvrGroup = [], gvrVersion = v, gvrResource = sub\<rparr>"
    unfolding parseURLToGVR_def assms(2) pathParts_apiPath [OF ok] by (simp add: apiSegments_def numeral_eq_Suc)
  ultimately show ?thesis
    using assms(4-6) by (simp add: accessRoundTrip_def getGVK_def resourceExistsInDiscovery_def
        FormatResourceName_def)
qed

section \<open>What reaches the API server\<close>

interpretation reqchain: check_chain "runValidator env" extendsWorld for env
  by unfold_locales (auto intro: runValidator_extends extendsWorld_trans)

lemma runValidators_chain: "runValidators env vs req w = reqchain.chain env vs req w"
  by (induction vs arbitrary: w) (auto split: prod.splits option.splits)

text \<open>The validators that the live configuration, or the snapshot, asks for.\<close>

definition wantedValidators :: "'sch rtEnv \<Rightarrow> 'sch rtState \<Rightarrow> validator list" where
  "wantedValidators re s =
     (case reLiveConfig re of None \<Rightarrow> rsSnapshotValidators s | Some p \<Rightarrow> validatorsFromConfig (reConfigAt re p))"

definition cacheOk :: "(nat \<Rightarrow> acConfig) \<Rightarrow> 'sch rtState \<Rightarrow> bool" where
  "cacheOk at s = (case rsLive s of None \<Rightarrow> True | Some (p, vs) \<Rightarrow> vs = validatorsFromConfig (at p))"

lemma currentValidators_wanted:
  assumes "cacheOk (reConfigAt re) s" and "currentValidators re s = (vs, s')"
  shows "vs = wantedValidators re s \<and> cacheOk (reConfigAt re) s' \<and> rsWorld s' = rsWorld s
    \<and> rsSnapshotValidators s' = rsSnapshotValidators s \<and> rsDenied s' = rsDenied s"
  using assms by (auto simp: currentValidators_def wantedValidators_def cacheOk_def Let_def
      split: option.splits prod.splits if_splits)

lemma getGVK_frame:
  "getGVK re gvr sub s = (r, s') \<Longrightarrow> \<exists>raw. s' = s\<lparr>rsRaw := raw\<rparr>"
  by (cases "rsRaw s")
    (fastforce simp: getGVK_def Let_def intro: exI [of _ "rsRaw s"]
      split: option.splits sum.splits mapperErr.splits prod.splits if_splits)+

lemma isAllowed_rsRaw [simp]: "isAllowed re gvk (s\<lparr>rsRaw := raw\<rparr>) = isAllowed re gvk s"
  by (simp add: isAllowed_def currentDeniedResources_def split: option.splits)

lemma cacheOk_frame [simp]:
  "cacheOk at (s\<lparr>rsRaw := raw\<rparr>) = cacheOk at s" "cacheOk at (s\<lparr>rsWorld := w\<rparr>) = cacheOk at s"
  by (simp_all add: cacheOk_def)

lemma wantedValidators_rsRaw [simp]: "wantedValidators re (s\<lparr>rsRaw := raw\<rparr>) = wantedValidators re s"
  by (simp add: wantedValidators_def split: option.splits)

text \<open>The validation request that the round tripper builds for a request.\<close>

definition validationRequestOf ::
    "httpRequest \<Rightarrow> string \<Rightarrow> groupVersionResource \<Rightarrow> groupVersionKind \<Rightarrow> string \<Rightarrow> httpValidationRequest" where
  "validationRequestOf req path gvr gvk body =
     \<lparr>vrGVR = Some gvr, vrGVK = Some gvk, vrHTTPMethod = hrMethod req,
      vrVerb = httpMethodToVerb (hrMethod req) path, vrNamespace = fst (parseURLToNamespaceAndName path),
      vrResourceName = snd (parseURLToNamespaceAndName path), vrBody = body, vrPath = path\<rparr>"

text \<open>The body that a validator may judge by: the one that is sent, for the three methods that carry one.\<close>

definition bodyShown :: "httpRequest \<Rightarrow> string \<Rightarrow> bool" where
  "bodyShown req body \<longleftrightarrow>
     (if hrBody req \<noteq> None \<and> hrMethod req \<in> {''POST'', ''PUT'', ''PATCH''} then hrBody req = Some (Inr body) else body = [])"

lemma accessRoundTrip_sent:
  assumes rt: "accessRoundTrip re req s = (Inr out, s')"
    and path: "path = stripAPIPathPrefix (hrPath req) (rsPrefix s)"
    and gvr: "parseURLToGVR path = Some gvr"
    and ok: "cacheOk (reConfigAt re) s"
  shows "out = req \<and> (\<exists>gvk. fst (getGVK re gvr (parseSubresource path) s) = Inr gvk \<and> isAllowed re gvk s
    \<and> ((gvrGroup gvr = ''authorization.k8s.io'' \<and> gvrResource gvr = ''selfsubjectaccessreviews'')
       \<or> (\<exists>body. bodyShown req body \<and> runValidators (reEnv re) (wantedValidators re s)
             (validationRequestOf req path gvr gvk body) (rsWorld s) = (None, rsWorld s'))))"
proof -
  obtain r s1 where g: "getGVK re gvr (parseSubresource path) s = (r, s1)" by fastforce
  from rt g gvr path obtain gvk where r: "r = Inr gvk"
    by (cases r) (auto simp: accessRoundTrip_def Let_def)
  from getGVK_frame [OF g] obtain raw where s1: "s1 = s\<lparr>rsRaw := raw\<rparr>" by blast
  obtain vs s2 where c: "currentValidators re s1 = (vs, s2)" by fastforce
  have w: "vs = wantedValidators re s" "rsWorld s2 = rsWorld s"
    using currentValidators_wanted [OF _ c] ok s1 by auto
  have allowed: "isAllowed re gvk s"
    using rt g r gvr path s1 by (auto simp: accessRoundTrip_def Let_def split: if_splits)
  show ?thesis
  proof (cases "gvrGroup gvr = ''authorization.k8s.io'' \<and> gvrResource gvr = ''selfsubjectaccessreviews''")
    case True
    then show ?thesis using rt g r gvr path s1 allowed
      by (auto simp: accessRoundTrip_def Let_def split: if_splits)
  next
    case False
    define readsBody where "readsBody = (hrBody req \<noteq> None \<and>
      (hrMethod req = ''POST'' \<or> hrMethod req = ''PUT'' \<or> hrMethod req = ''PATCH''))"
    obtain ns nm where n: "parseURLToNamespaceAndName path = (ns, nm)" by fastforce
    have step: "accessRoundTrip re req s =
      (case (if readsBody then the (hrBody req) else Inr []) of
         Inl readErr \<Rightarrow> (Inl (BodyReadFailed readErr), s1)
       | Inr body \<Rightarrow>
          (case runValidators (reEnv re) vs (validationRequestOf req path gvr gvk body) (rsWorld s2) of
             (Some e, w) \<Rightarrow> (Inl (Refused e), s2\<lparr>rsWorld := w\<rparr>)
           | (None, w) \<Rightarrow> (Inr (if readsBody then req\<lparr>hrBody := Some (Inr body)\<rparr> else req), s2\<lparr>rsWorld := w\<rparr>)))"
      unfolding accessRoundTrip_def Let_def path [symmetric] gvr option.case g r n readsBody_def [symmetric]
        if_not_P [OF False]
      using allowed s1 c n
      by (cases readsBody; cases "the (hrBody req)") (auto simp: validationRequestOf_def)
    obtain body where b: "(if readsBody then the (hrBody req) else Inr []) = Inr body"
      using rt step by (cases "if readsBody then the (hrBody req) else Inr []") auto
    obtain e w where rv: "runValidators (reEnv re) vs (validationRequestOf req path gvr gvk body) (rsWorld s2) = (e, w)"
      by fastforce
    have e: "e = None" using rt step b rv by (cases e) auto
    have "readsBody \<Longrightarrow> hrBody req = Some (Inr body)"
      using b by (auto simp: readsBody_def)
    moreover have "bodyShown req body" using b by (auto simp: bodyShown_def readsBody_def split: if_splits)
    ultimately have "out = req" "rsWorld s' = w" "bodyShown req body" using rt step b rv e by (auto split: if_splits)
    then show ?thesis using rv e w g r allowed by auto
  qed
qed

lemma accessRoundTrip_cacheOk:
  "cacheOk (reConfigAt re) s \<Longrightarrow> cacheOk (reConfigAt re) (snd (accessRoundTrip re req s))"
  unfolding accessRoundTrip_def Let_def
  by (auto split: option.splits prod.splits sum.splits dest!: getGVK_frame
      dest: currentValidators_wanted [rotated])

text \<open>
  Requests served one after the other, each with the configuration that is live at its time;
  a configuration is never modified at its address.
\<close>

definition serveAll :: "('sch rtEnv \<times> httpRequest) list \<Rightarrow> 'sch rtState \<Rightarrow> 'sch rtState" where
  "serveAll history s = fold (\<lambda>(re, req) s. snd (accessRoundTrip re req s)) history s"

lemma serveAll_cacheOk:
  "cacheOk at s \<Longrightarrow> \<forall>(re, req) \<in> set history. reConfigAt re = at \<Longrightarrow> cacheOk at (serveAll history s)"
proof (induction history arbitrary: s)
  case (Cons x history)
  then show ?case using accessRoundTrip_cacheOk [of "fst x" s "snd x"]
    by (auto simp: serveAll_def split_def)
qed (simp add: serveAll_def)

text \<open>
  C2. Whatever requests were served before, with whatever configurations live at their time, a
  request for an API resource reaches the API server only unchanged, only when its kind was
  resolved and is not denied by the configuration that is live now, and only after every
  validator that this configuration asks for accepted it, judging by its path, its kind and, for
  POST, PUT and PATCH, the very body that is sent. The one exception is the access review itself,
  a request for \<open>selfsubjectaccessreviews\<close>, which skips the validators but not the deny list.
\<close>

theorem sent_requests_are_checked:
  assumes "s = serveAll history s0" and "rsLive s0 = None"
    and "\<forall>x. x \<in> set history \<longrightarrow> reConfigAt (fst x) = reConfigAt re"
    and "accessRoundTrip re req s = (Inr out, s')"
    and "path = stripAPIPathPrefix (hrPath req) (rsPrefix s)" and "parseURLToGVR path = Some gvr"
  shows "out = req \<and> (\<exists>gvk. fst (getGVK re gvr (parseSubresource path) s) = Inr gvk \<and> isAllowed re gvk s
    \<and> ((gvrGroup gvr = ''authorization.k8s.io'' \<and> gvrResource gvr = ''selfsubjectaccessreviews'')
       \<or> (\<exists>body. (if hrBody out \<noteq> None \<and> hrMethod out \<in> {''POST'', ''PUT'', ''PATCH''}
                  then hrBody out = Some (Inr body) else body = [])
           \<and> (\<forall>v \<in> set (wantedValidators re s). \<exists>w1 w2.
             extendsWorld (rsWorld s) w1 \<and> extendsWorld w2 (rsWorld s')
           \<and> runValidator (reEnv re) v (validationRequestOf req path gvr gvk body) w1 = (None, w2)))))"
proof -
  have "cacheOk (reConfigAt re) s0" using assms(2) by (simp add: cacheOk_def)
  then have ok: "cacheOk (reConfigAt re) s"
    using assms(1,3) serveAll_cacheOk [of "reConfigAt re" s0 history] by auto
  have passes: "\<exists>w1 w2. extendsWorld (rsWorld s) w1 \<and> extendsWorld w2 (rsWorld s')
      \<and> runValidator (reEnv re) v vreq w1 = (None, w2)"
    if "runValidators (reEnv re) (wantedValidators re s) vreq (rsWorld s) = (None, rsWorld s')"
      and "v \<in> set (wantedValidators re s)" for v vreq
  proof -
    from that(2) obtain us ts where "wantedValidators re s = us @ v # ts" by (auto simp: in_set_conv_decomp)
    with that(1) show ?thesis
      using reqchain.chain_passes_all [of "reEnv re" "wantedValidators re s" vreq "rsWorld s" "rsWorld s'" us v ts]
      unfolding runValidators_chain by blast
  qed
  from accessRoundTrip_sent [OF assms(4-6) ok] obtain gvk where sent: "out = req"
      "fst (getGVK re gvr (parseSubresource path) s) = Inr gvk" "isAllowed re gvk s"
      "(gvrGroup gvr = ''authorization.k8s.io'' \<and> gvrResource gvr = ''selfsubjectaccessreviews'')
       \<or> (\<exists>body. bodyShown req body \<and> runValidators (reEnv re) (wantedValidators re s)
             (validationRequestOf req path gvr gvk body) (rsWorld s) = (None, rsWorld s'))" by blast
  from sent(4) show ?thesis
  proof
    assume "\<exists>body. bodyShown req body \<and> runValidators (reEnv re) (wantedValidators re s)
      (validationRequestOf req path gvr gvk body) (rsWorld s) = (None, rsWorld s')"
    then obtain body where body: "bodyShown req body"
      and ran: "runValidators (reEnv re) (wantedValidators re s) (validationRequestOf req path gvr gvk body) (rsWorld s) = (None, rsWorld s')"
      by blast
    show ?thesis unfolding sent(1) using sent(2,3) body [unfolded bodyShown_def] passes [OF ran] by blast
  qed (use sent(1-3) in blast)
qed

definition exampleEnv :: "bool \<Rightarrow> unit env" where
  "exampleEnv allowed = \<lparr>eSession = NoSession, eAuthClient = Some (\<lambda>_. Inr allowed), eDiscovery = NoDiscovery,
     eNow = 0, eValidateBytes = (\<lambda>_ _. None), eUnmarshal = (\<lambda>_. None)\<rparr>"

definition exampleRtEnv :: "groupVersionKind list \<Rightarrow> bool \<Rightarrow> unit rtEnv" where
  "exampleRtEnv denied allowed =
     \<lparr>reRestMapper = Some (\<lambda>gvr. Inr \<lparr>gvkGroup = [], gvkVersion = ''v1'', gvkKind = ''Secret''\<rparr>),
      reRawDiscovery = (\<lambda>_. Inl ''none''), reGVString = apiVersionOf, reLiveConfig = Some 1,
      reConfigAt = (\<lambda>_. \<lparr>acDeniedResources = denied, acValidationEnabled = True, acConfirmationRules = [],
        acConfirmationFallback = ''deny''\<rparr>), reEnv = exampleEnv allowed\<rparr>"

definition exampleRtState :: "unit rtState" where
  "exampleRtState = \<lparr>rsDenied = [], rsPrefix = [], rsRaw = None, rsSnapshotValidators = [], rsLive = None,
     rsWorld = \<lparr>wPrompts = [], wReviews = [], wCache = newOpenAPISchemaCache\<rparr>\<rparr>"

definition exampleRequest :: httpRequest where
  "exampleRequest = \<lparr>hrMethod = ''GET'', hrPath = ''/api/v1/namespaces/ns/secrets/s'', hrBody = None\<rparr>"

definition exampleCreate :: httpRequest where
  "exampleCreate = \<lparr>hrMethod = ''POST'', hrPath = ''/api/v1/namespaces/ns/secrets'', hrBody = Some (Inr ''{}'')\<rparr>"

theorem sent_requests_are_checked_witness:
  "let s = serveAll [(exampleRtEnv [] True, exampleRequest)] exampleRtState in
   \<exists>gvk. isAllowed (exampleRtEnv [] True) gvk s \<and> (\<forall>v \<in> set (wantedValidators (exampleRtEnv [] True) s). \<exists>w1 w2.
     runValidator (exampleEnv True) v
       (validationRequestOf exampleCreate (hrPath exampleCreate) \<lparr>gvrGroup = [], gvrVersion = ''v1'', gvrResource = ''secrets''\<rparr> gvk ''{}'') w1
     = (None, w2))"
proof -
  let ?s = "serveAll [(exampleRtEnv [] True, exampleRequest)] exampleRtState"
  have "isl (fst (accessRoundTrip (exampleRtEnv [] True) exampleCreate ?s)) = False" by code_simp
  then obtain out s' where rt: "accessRoundTrip (exampleRtEnv [] True) exampleCreate ?s = (Inr out, s')"
    by (cases "accessRoundTrip (exampleRtEnv [] True) exampleCreate ?s"; cases "fst (accessRoundTrip (exampleRtEnv [] True) exampleCreate ?s)") auto
  have path: "hrPath exampleCreate = stripAPIPathPrefix (hrPath exampleCreate) (rsPrefix ?s)" by code_simp
  have gvr: "parseURLToGVR (hrPath exampleCreate) =
      Some \<lparr>gvrGroup = [], gvrVersion = ''v1'', gvrResource = ''secrets''\<rparr>" by code_simp
  have env: "reEnv (exampleRtEnv [] True) = exampleEnv True" by (simp add: exampleRtEnv_def)
  have start: "rsLive exampleRtState = None" by (simp add: exampleRtState_def)
  have same: "\<forall>x. x \<in> set [(exampleRtEnv [] True, exampleRequest)] \<longrightarrow> reConfigAt (fst x) = reConfigAt (exampleRtEnv [] True)" by simp
  from sent_requests_are_checked [OF refl start same rt path gvr] have out: "out = exampleCreate" by blast
  then have "hrBody out = Some (Inr ''{}'')" "hrMethod out = ''POST''" by (simp_all add: exampleCreate_def)
  with sent_requests_are_checked [OF refl start same rt path gvr] show ?thesis unfolding Let_def env by auto blast
qed

text \<open>
  C1. The deny list is final: when the REST mapper resolves a request to a kind that the live
  configuration denies, by kind or by its whole group and version, the request is refused and
  nothing else happens: no prompt, no access review, no call of the API server. This holds for
  every method, access reviews included.
\<close>

theorem denied_resources_never_sent:
  assumes "reGVString re = apiVersionOf"
    and "path = stripAPIPathPrefix (hrPath req) (rsPrefix s)" and "parseURLToGVR path = Some gvr"
    and "reRestMapper re = Some kindFor" and "kindFor gvr = Inr gvk"
    and "list_all slashFree (currentDeniedResources re s)" and "slashFree gvk"
    and "d \<in> set (currentDeniedResources re s)" and "gvkGroup d = gvkGroup gvk"
    and "gvkVersion d = gvkVersion gvk" and "gvkKind d = [] \<or> gvkKind d = gvkKind gvk"
  shows "accessRoundTrip re req s = (Inl (NotAllowed gvk), s)"
proof -
  have "IsDeniedResource (apiVersionOf (gvkGroup gvk) (gvkVersion gvk)) (gvkKind gvk) (currentDeniedResources re s)"
    using assms(8-11) by (subst IsDeniedResource_slashFree [OF assms(6,7)]) (auto simp: agrees_def)
  then have "\<not> isAllowed re gvk s" using assms(1) by (simp add: isAllowed_def)
  then show ?thesis
    using assms(2-5) by (simp add: accessRoundTrip_def Let_def getGVK_def)
qed

theorem denied_resources_never_sent_witness:
  "accessRoundTrip (exampleRtEnv [\<lparr>gvkGroup = [], gvkVersion = ''v1'', gvkKind = ''Secret''\<rparr>] True)
      exampleRequest exampleRtState =
    (Inl (NotAllowed \<lparr>gvkGroup = [], gvkVersion = ''v1'', gvkKind = ''Secret''\<rparr>), exampleRtState)"
proof (rule denied_resources_never_sent [OF _ refl])
  show "parseURLToGVR (stripAPIPathPrefix (hrPath exampleRequest) (rsPrefix exampleRtState)) =
      Some \<lparr>gvrGroup = [], gvrVersion = ''v1'', gvrResource = ''secrets''\<rparr>" by code_simp
qed (auto simp: exampleRtEnv_def currentDeniedResources_def slashFree_def)

end
