(* ===== verification/Tool_Requests.thy ===== *)
theory Tool_Requests
  imports RBAC_Metadata Tool_Params Validators
begin

text \<open>
  What a tool sends to the API server, seen as an authorization request, and when a requirement
  that the tool declares (\<open>pkg/api/rbac.go\<close>) covers it. A requirement names the verbs and the
  resource; its namespace and its object name are fixed or are those of an argument of the
  call, the default namespace when the argument is absent. A requirement without a name covers
  every name, one without a namespace the requests outside of any namespace.
\<close>

section \<open>Requests and requirements\<close>

record kubeRequest =
  krVerb :: string
  krGroup :: string
  krResource :: string
  krSubresource :: string
  krNamespace :: string
  krName :: string

definition onResource :: "string \<Rightarrow> string \<Rightarrow> string \<Rightarrow> rbacTarget" where
  "onResource g r sub =
     \<lparr>tResource = Some \<lparr>rtAPIGroup = g, rtResource = r, rtSubresource = sub\<rparr>, tGVK = None, tManifest = None\<rparr>"

definition inArgument :: "string \<Rightarrow> rbacNamespace option" where
  "inArgument a = Some \<lparr>nsName = [], nsArgument = a, nsAllNamespaces = False\<rparr>"

definition inAllNamespaces :: "rbacNamespace option" where
  "inAllNamespaces = Some \<lparr>nsName = [], nsArgument = [], nsAllNamespaces = True\<rparr>"

definition namedBy :: "string \<Rightarrow> rbacResourceName option" where
  "namedBy a = Some \<lparr>rnName = [], rnArgument = a\<rparr>"

definition requires :: "string list \<Rightarrow> rbacTarget \<Rightarrow> rbacNamespace option \<Rightarrow> rbacResourceName option \<Rightarrow> rbacRequirement" where
  "requires verbs target ns name = \<lparr>rqVerbs = verbs, rqTarget = target, rqNamespace = ns, rqResourceName = name\<rparr>"

text \<open>The scope of a call: its arguments and the namespace used for one that is not given.\<close>

definition argumentString :: "arguments \<Rightarrow> string \<Rightarrow> string \<Rightarrow> string" where
  "argumentString args a d = (case args a of Some (GStr s) \<Rightarrow> s | _ \<Rightarrow> d)"

definition coversTarget :: "rbacTarget \<Rightarrow> kubeRequest \<Rightarrow> bool" where
  "coversTarget t r \<longleftrightarrow>
     (case tResource t of None \<Rightarrow> False
      | Some k \<Rightarrow> rtAPIGroup k = krGroup r \<and> rtResource k = krResource r \<and> rtSubresource k = krSubresource r)"

definition coversNamespace :: "arguments \<Rightarrow> string \<Rightarrow> rbacNamespace option \<Rightarrow> kubeRequest \<Rightarrow> bool" where
  "coversNamespace args ns n r \<longleftrightarrow>
     (case n of None \<Rightarrow> krNamespace r = []
      | Some k \<Rightarrow>
          nsAllNamespaces k \<or> (nsName k \<noteq> [] \<and> krNamespace r = nsName k)
          \<or> (nsArgument k \<noteq> [] \<and> krNamespace r = argumentString args (nsArgument k) ns))"

definition coversName :: "arguments \<Rightarrow> rbacResourceName option \<Rightarrow> kubeRequest \<Rightarrow> bool" where
  "coversName args n r \<longleftrightarrow>
     (case n of None \<Rightarrow> True
      | Some k \<Rightarrow> (rnName k \<noteq> [] \<and> krName r = rnName k)
          \<or> (rnArgument k \<noteq> [] \<and> krName r = argumentString args (rnArgument k) []))"

definition covers :: "arguments \<Rightarrow> string \<Rightarrow> rbacRequirement \<Rightarrow> kubeRequest \<Rightarrow> bool" where
  "covers args ns q r \<longleftrightarrow>
     krVerb r \<in> set (rqVerbs q) \<and> coversTarget (rqTarget q) r
     \<and> coversNamespace args ns (rqNamespace q) r \<and> coversName args (rqResourceName q) r"

definition declaredFor :: "rbacMetadata \<Rightarrow> arguments \<Rightarrow> string \<Rightarrow> kubeRequest \<Rightarrow> bool" where
  "declaredFor m args ns r \<longleftrightarrow>
     rmUnbounded m \<noteq> None \<or> (\<exists>b. rmBounded m = Some b \<and> list_ex (\<lambda>q. covers args ns q r) (bRequirements b))"

text \<open>Evaluation of a declaration on a request.\<close>

lemmas requirement_defs = requires_def onResource_def inArgument_def inAllNamespaces_def namedBy_def

lemma declaredFor_bounded [simp]:
  "declaredFor (RBACBounded qs) args ns r \<longleftrightarrow> list_ex (\<lambda>q. covers args ns q r) qs"
  by (simp add: declaredFor_def RBACBounded_def)

lemma covers_requires [simp]:
  "covers args ns (requires verbs (onResource g k sub) n m) r \<longleftrightarrow>
     krVerb r \<in> set verbs \<and> g = krGroup r \<and> k = krResource r \<and> sub = krSubresource r
     \<and> coversNamespace args ns n r \<and> coversName args m r"
  by (simp add: covers_def coversTarget_def requires_def onResource_def)

lemma coversNamespace_simps [simp]:
  "coversNamespace args ns None r \<longleftrightarrow> krNamespace r = []"
  "coversNamespace args ns inAllNamespaces r"
  "a \<noteq> [] \<Longrightarrow> coversNamespace args ns (inArgument a) r \<longleftrightarrow> krNamespace r = argumentString args a ns"
  by (simp_all add: coversNamespace_def inAllNamespaces_def inArgument_def)

lemma coversName_simps [simp]:
  "coversName args None r"
  "a \<noteq> [] \<Longrightarrow> coversName args (namedBy a) r \<longleftrightarrow> krName r = argumentString args a []"
  by (simp_all add: coversName_def namedBy_def)

section \<open>Declared tools\<close>

text \<open>
  A tool as its toolset declares it: its name, the hints on whether it writes and destroys, its
  permissions, and what a call of it does.
\<close>

record 'run toolDecl =
  tdName :: string
  tdReadOnly :: bool
  tdDestructive :: bool
  tdRBAC :: rbacMetadata
  tdRun :: 'run

definition readVerbs :: "string list" where
  "readVerbs = [''get'', ''list'']"

definition declaresOnly :: "string list \<Rightarrow> rbacMetadata \<Rightarrow> bool" where
  "declaresOnly verbs m \<longleftrightarrow>
     rmUnbounded m = None \<and> (\<forall>b. rmBounded m = Some b \<longrightarrow> (\<forall>q \<in> set (bRequirements b). set (rqVerbs q) \<subseteq> set verbs))"

lemma declared_verb: "declaresOnly verbs m \<Longrightarrow> declaredFor m args ns r \<Longrightarrow> krVerb r \<in> set verbs"
  by (fastforce simp: declaresOnly_def declaredFor_def list_ex_iff covers_def)

lemma declaresOnly_bounded [simp]:
  "declaresOnly verbs (RBACBounded qs) \<longleftrightarrow> (\<forall>q \<in> set qs. set (rqVerbs q) \<subseteq> set verbs)"
  by (simp add: declaresOnly_def RBACBounded_def)

lemma rqVerbs_requires [simp]: "rqVerbs (requires verbs t n m) = verbs"
  by (simp add: requires_def)

section \<open>Arguments that a call has extracted\<close>

lemma RequiredString_value: "RequiredString args k = Inr v \<Longrightarrow> argumentString args k d = v"
  by (auto simp: RequiredString_def argumentString_def split: option.splits goVal.splits)

lemma optionalString_value: "optionalString args k d = Inr v \<Longrightarrow> argumentString args k d = v"
  by (auto simp: optionalString_def argumentString_def split: option.splits goVal.splits)

text \<open>An extraction that leaves no error read its argument, and found none before it.\<close>

lemma pRequiredString_ok:
  "pRequiredString k p = (v, p') \<Longrightarrow> pErr p' = None \<Longrightarrow>
     p' = p \<and> pErr p = None \<and> v = argumentString (pArgs p) k d"
  by (auto simp: pRequiredString_def RequiredString_value split: if_splits sum.splits)

lemma pOptionalString_ok:
  "pOptionalString k d p = (v, p') \<Longrightarrow> pErr p' = None \<Longrightarrow>
     p' = p \<and> pErr p = None \<and> v = argumentString (pArgs p) k d"
  by (auto simp: pOptionalString_def optionalString_value split: if_splits sum.splits)

lemma pOptionalInt64_ok:
  "pOptionalInt64 oob k d p = (v, p') \<Longrightarrow> pErr p' = None \<Longrightarrow> p' = p \<and> pErr p = None"
  by (auto simp: pOptionalInt64_def split: if_splits sum.splits option.splits goVal.splits)

end
