(* ===== verification/Core_Resources.thy ===== *)
theory Core_Resources
  imports Access_Control Tool_Requests
begin

text \<open>
  \<open>pkg/kubernetes/resources.go\<close>, the handlers of \<open>pkg/toolsets/core/resources.go\<close> and
  \<open>pagination.go\<close>: from the arguments of a generic resource tool to the requests it sends to the
  API server. The requests are logged in the order in which they are sent; the answers of the
  server, discovery, the REST mapper, the YAML decoder and the accessors of unstructured objects
  are parameters.
\<close>

section \<open>Requests and their answers\<close>

type_synonym kubeObject = goMap

record listOptions =
  loLimit :: int
  loContinue :: string
  loLabelSelector :: string
  loFieldSelector :: string

datatype apiOp =
    OpList groupVersionResource string listOptions
  | OpTable string listOptions
  | OpGet groupVersionResource string string string
  | OpApply groupVersionResource string string kubeObject
  | OpUpdate groupVersionResource string kubeObject string
  | OpDelete groupVersionResource string string "int option"
  | OpReview groupVersionResource string string

datatype kubeFault = ResponseTooLarge string | Fault string

datatype coreErr =
    MappingFailed string | KindNotFound | DiscoveryErr string | ServerErr kubeFault | DecodeErr string
  | SetReplicasErr string | UpdateScaleErr kubeFault
  | MissingArgument string | ArgumentNotString string | InvalidAPIVersion | InvalidArgument string
  | PageArgument paramErr | NegativeLimit | RetrySmaller coreErr | KindEmpty

datatype mapErr = NoKindMatch | MapErr string

type_synonym kindMap = "groupVersionKind \<Rightarrow> mapErr + groupVersionResource"

record coreEnv =
  ceKinds :: kindMap
  ceDiscovery :: "string \<Rightarrow> string + (string \<times> bool) list"
  ceReviewAllows :: "kubeObject \<Rightarrow> bool"
  ceNamespace :: string
  ceAnswer :: "apiOp list \<Rightarrow> apiOp \<Rightarrow> kubeFault + kubeObject"
  ceDecode :: "string \<Rightarrow> string + kubeObject"
  ceGVK :: "kubeObject \<Rightarrow> groupVersionKind"
  ceNamespaceOf :: "kubeObject \<Rightarrow> string"
  ceNameOf :: "kubeObject \<Rightarrow> string"
  ceSetNamespace :: "string \<Rightarrow> kubeObject \<Rightarrow> kubeObject"
  ceSetReplicas :: "int \<Rightarrow> kubeObject \<Rightarrow> string + kubeObject"
  ceParseGroupVersion :: "string \<Rightarrow> (string \<times> string) option"
  ceOob :: "goFloat \<Rightarrow> int"

text \<open>The REST mapper's snapshot of the kinds, taken when it is first used, and the requests sent.\<close>

record coreState =
  csMapper :: "kindMap option"
  csLog :: "apiOp list"

definition send :: "coreEnv \<Rightarrow> apiOp \<Rightarrow> coreState \<Rightarrow> (kubeFault + kubeObject) \<times> coreState" where
  "send env op s = (ceAnswer env (csLog s) op, s\<lparr>csLog := csLog s @ [op]\<rparr>)"

section \<open>Kinds and namespaces\<close>

definition restMapping :: "coreEnv \<Rightarrow> groupVersionKind \<Rightarrow> coreState \<Rightarrow> (mapErr + groupVersionResource) \<times> coreState" where
  "restMapping env gvk s =
     (let kinds = (case csMapper s of None \<Rightarrow> ceKinds env | Some k \<Rightarrow> k)
      in (kinds gvk, s\<lparr>csMapper := Some kinds\<rparr>))"

definition mapperReset :: "coreState \<Rightarrow> coreState" where
  "mapperReset s = s\<lparr>csMapper := None\<rparr>"

definition resourceFor :: "coreEnv \<Rightarrow> groupVersionKind \<Rightarrow> coreState \<Rightarrow> (coreErr + groupVersionResource) \<times> coreState" where
  "resourceFor env gvk s =
     (case restMapping env gvk s of
        (Inr gvr, s) \<Rightarrow> (Inr gvr, s)
      | (Inl (MapErr e), s) \<Rightarrow> (Inl (MappingFailed e), s)
      | (Inl NoKindMatch, s) \<Rightarrow>
          (case restMapping env gvk (mapperReset s) of
             (Inr gvr, s) \<Rightarrow> (Inr gvr, s)
           | (Inl (MapErr e), s) \<Rightarrow> (Inl (MappingFailed e), s)
           | (Inl NoKindMatch, s) \<Rightarrow> (Inl KindNotFound, s)))"

definition isNamespaced :: "coreEnv \<Rightarrow> groupVersionKind \<Rightarrow> coreErr + bool" where
  "isNamespaced env gvk =
     (case ceDiscovery env (apiVersionOf (gvkGroup gvk) (gvkVersion gvk)) of
        Inl err \<Rightarrow> Inl (DiscoveryErr err)
      | Inr resources \<Rightarrow> Inr (case map_of resources (gvkKind gvk) of None \<Rightarrow> False | Some b \<Rightarrow> b))"

definition NamespaceOrDefault :: "coreEnv \<Rightarrow> string \<Rightarrow> string" where
  "NamespaceOrDefault env namespace = (if namespace = [] then ceNamespace env else namespace)"

definition effectiveNamespace :: "coreEnv \<Rightarrow> groupVersionKind \<Rightarrow> string \<Rightarrow> coreErr + string" where
  "effectiveNamespace env gvk namespace =
     (case isNamespaced env gvk of
        Inl err \<Rightarrow> Inl err
      | Inr namespaced \<Rightarrow> Inr (if namespaced then NamespaceOrDefault env namespace else []))"

section \<open>The operations\<close>

text \<open>
  \<open>AbsPath\<close> of a REST client whose server is at the root of its host: \<open>path.Join\<close>, which cleans what
  it joins. Then the path that \<open>resourcesListAsTable\<close> gives to it.
\<close>

definition cleanSegments :: "string list \<Rightarrow> string list" where
  "cleanSegments segs =
     rev (fold (\<lambda>seg acc. if seg = [] \<or> seg = ''.'' then acc else if seg = ''..'' then drop 1 acc else seg # acc) segs [])"

definition absPath :: "string list \<Rightarrow> string" where
  "absPath segs = CHR ''/'' # goJoin ''/'' (cleanSegments (goSplit CHR ''/'' (goJoin ''/'' segs)))"

definition tablePath :: "groupVersionResource \<Rightarrow> string \<Rightarrow> string" where
  "tablePath gvr namespace =
     absPath ((if gvrGroup gvr = [] then [''api''] else [''apis'', gvrGroup gvr]) @ [gvrVersion gvr]
       @ (if namespace \<noteq> [] then [''namespaces'', namespace] else []) @ [gvrResource gvr])"

text \<open>\<open>canIUse\<close> creates a \<open>SelfSubjectAccessReview\<close>; when that fails the answer is no.\<close>

definition canIUse :: "coreEnv \<Rightarrow> groupVersionResource \<Rightarrow> string \<Rightarrow> string \<Rightarrow> coreState \<Rightarrow> bool \<times> coreState" where
  "canIUse env gvr namespace verb s =
     (case send env (OpReview gvr namespace verb) s of
        (Inl _, s) \<Rightarrow> (False, s)
      | (Inr review, s) \<Rightarrow> (ceReviewAllows env review, s))"

definition ResourcesList ::
    "coreEnv \<Rightarrow> groupVersionKind \<Rightarrow> string \<Rightarrow> bool \<Rightarrow> listOptions \<Rightarrow> coreState \<Rightarrow> (coreErr + kubeObject) \<times> coreState" where
  "ResourcesList env gvk namespace asTable opts s =
     (case resourceFor env gvk s of
        (Inl err, s) \<Rightarrow> (Inl err, s)
      | (Inr gvr, s) \<Rightarrow>
          (case isNamespaced env gvk of
             Inl err \<Rightarrow> (Inl err, s)
           | Inr namespaced \<Rightarrow>
               (case (if namespaced then canIUse env gvr namespace ''list'' s else (False, s)) of
                  (can, s) \<Rightarrow>
                    let namespace = (if namespaced \<and> \<not> can \<and> namespace = [] then NamespaceOrDefault env []
                                     else if \<not> namespaced then [] else namespace)
                    in (case send env (if asTable then OpTable (tablePath gvr namespace) opts else OpList gvr namespace opts) s of
                          (r, s) \<Rightarrow> (map_sum ServerErr id r, s)))))"

definition onNamed ::
    "coreEnv \<Rightarrow> groupVersionKind \<Rightarrow> string \<Rightarrow> (groupVersionResource \<Rightarrow> string \<Rightarrow> coreState \<Rightarrow> (coreErr + 'a) \<times> coreState) \<Rightarrow>
     coreState \<Rightarrow> (coreErr + 'a) \<times> coreState" where
  "onNamed env gvk namespace f s =
     (case resourceFor env gvk s of
        (Inl err, s) \<Rightarrow> (Inl err, s)
      | (Inr gvr, s) \<Rightarrow>
          (case effectiveNamespace env gvk namespace of
             Inl err \<Rightarrow> (Inl err, s)
           | Inr namespace \<Rightarrow> f gvr namespace s))"

definition ResourcesGet ::
    "coreEnv \<Rightarrow> groupVersionKind \<Rightarrow> string \<Rightarrow> string \<Rightarrow> coreState \<Rightarrow> (coreErr + kubeObject) \<times> coreState" where
  "ResourcesGet env gvk namespace name =
     onNamed env gvk namespace (\<lambda>gvr ns s. case send env (OpGet gvr ns name []) s of (r, s) \<Rightarrow> (map_sum ServerErr id r, s))"

definition ResourcesDelete ::
    "coreEnv \<Rightarrow> groupVersionKind \<Rightarrow> string \<Rightarrow> string \<Rightarrow> int option \<Rightarrow> coreState \<Rightarrow> (coreErr + kubeObject) \<times> coreState" where
  "ResourcesDelete env gvk namespace name grace =
     onNamed env gvk namespace (\<lambda>gvr ns s. case send env (OpDelete gvr ns name grace) s of (r, s) \<Rightarrow> (map_sum ServerErr id r, s))"

definition ResourcesScale ::
    "coreEnv \<Rightarrow> groupVersionKind \<Rightarrow> string \<Rightarrow> string \<Rightarrow> int \<Rightarrow> bool \<Rightarrow> coreState \<Rightarrow> (coreErr + kubeObject) \<times> coreState" where
  "ResourcesScale env gvk namespace name desiredScale shouldScale =
     onNamed env gvk namespace (\<lambda>gvr ns s.
       case send env (OpGet gvr ns name ''scale'') s of
         (Inl err, s) \<Rightarrow> (Inl (ServerErr err), s)
       | (Inr scale, s) \<Rightarrow>
           if \<not> shouldScale then (Inr scale, s)
           else (case ceSetReplicas env desiredScale scale of
               Inl err \<Rightarrow> (Inl (SetReplicasErr err), s)
             | Inr scale \<Rightarrow>
                 (case send env (OpUpdate gvr ns scale ''scale'') s of (r, s) \<Rightarrow> (map_sum UpdateScaleErr id r, s))))"

text \<open>The separator \<open>\r?\n---\r?\n\<close> at the head of a text, and the text split at it.\<close>

abbreviation cr :: char where "cr \<equiv> CHR 0x0D"

fun dropCR :: "string \<Rightarrow> string" where
  "dropCR (c # s) = (if c = cr then s else c # s)"
| "dropCR [] = []"

definition matchSeparator :: "string \<Rightarrow> string option" where
  "matchSeparator s =
     (let a = dropCR s
      in if hasPrefix a (nl # ''---'') then
           (let b = dropCR (drop 4 a) in if b \<noteq> [] \<and> hd b = nl then Some (tl b) else None)
         else None)"

lemma length_dropCR: "length (dropCR s) \<le> length s"
  by (cases s) auto

lemma matchSeparator_shorter: "matchSeparator s = Some rest \<Longrightarrow> length rest < length s"
proof -
  assume "matchSeparator s = Some rest"
  then have r: "rest = tl (dropCR (drop 4 (dropCR s)))" "dropCR (drop 4 (dropCR s)) \<noteq> []"
    by (auto simp: matchSeparator_def Let_def split: if_splits)
  have "length (dropCR (drop 4 (dropCR s))) \<le> length s"
    using length_dropCR [of s] length_dropCR [of "drop 4 (dropCR s)"] by simp
  with r show ?thesis by (cases "dropCR (drop 4 (dropCR s))") auto
qed

function splitDocuments :: "string \<Rightarrow> string list" where
  "splitDocuments s =
     (case matchSeparator s of
        Some rest \<Rightarrow> [] # splitDocuments rest
      | None \<Rightarrow>
          (case s of
             [] \<Rightarrow> [[]]
           | c # cs \<Rightarrow> (case splitDocuments cs of [] \<Rightarrow> [[c]] | d # ds \<Rightarrow> (c # d) # ds)))"
  by auto
termination by (relation "measure length") (auto dest: matchSeparator_shorter)

declare splitDocuments.simps [simp del]

definition withoutStatus :: "kubeObject \<Rightarrow> kubeObject" where
  "withoutStatus obj = filter (\<lambda>(k, _). k \<noteq> ''status'') obj"

fun decodeDocuments :: "coreEnv \<Rightarrow> string list \<Rightarrow> coreErr + kubeObject list" where
  "decodeDocuments env [] = Inr []"
| "decodeDocuments env (d # ds) =
     (case ceDecode env d of
        Inl err \<Rightarrow> Inl (DecodeErr err)
      | Inr obj \<Rightarrow> map_sum id (\<lambda>objs. withoutStatus obj # objs) (decodeDocuments env ds))"

fun resourcesCreateOrUpdate :: "coreEnv \<Rightarrow> kubeObject list \<Rightarrow> coreState \<Rightarrow> (coreErr + kubeObject list) \<times> coreState" where
  "resourcesCreateOrUpdate env [] s = (Inr [], s)"
| "resourcesCreateOrUpdate env (obj # objs) s =
     (let gvk = ceGVK env obj
      in (case onNamed env gvk (ceNamespaceOf env obj) (\<lambda>gvr ns s.
              case send env (OpApply gvr ns (ceNameOf env obj) (ceSetNamespace env ns obj)) s of (r, s) \<Rightarrow> (map_sum ServerErr id r, s)) s of
            (Inl err, s) \<Rightarrow> (Inl err, s)
          | (Inr applied, s) \<Rightarrow>
              let s = (if gvkKind gvk = ''CustomResourceDefinition'' then mapperReset s else s)
              in (case resourcesCreateOrUpdate env objs s of (r, s) \<Rightarrow> (map_sum id (\<lambda>rest. applied # rest) r, s))))"

definition ResourcesCreateOrUpdate :: "coreEnv \<Rightarrow> string \<Rightarrow> coreState \<Rightarrow> (coreErr + kubeObject list) \<times> coreState" where
  "ResourcesCreateOrUpdate env resource s =
     (case decodeDocuments env (splitDocuments resource) of
        Inl err \<Rightarrow> (Inl err, s)
      | Inr objs \<Rightarrow> resourcesCreateOrUpdate env objs s)"

text \<open>\<open>APIResourcesList\<close>: the preferred resources, each with its group version, filtered by kind.\<close>

record apiResourceInfo =
  arAPIVersion :: string
  arKind :: string
  arName :: string
  arNamespaced :: bool

definition APIResourcesList :: "(string \<times> (string \<times> string \<times> bool) list) option list \<Rightarrow> string \<Rightarrow> apiResourceInfo list" where
  "APIResourcesList preferred kindFilter =
     concat (map (\<lambda>l. case l of None \<Rightarrow> []
       | Some (gv, rs) \<Rightarrow>
           map (\<lambda>(kind, name, namespaced). \<lparr>arAPIVersion = gv, arKind = kind, arName = name, arNamespaced = namespaced\<rparr>)
             (filter (\<lambda>(kind, _). \<not> (kindFilter \<noteq> [] \<and> toLower kind \<noteq> toLower kindFilter)) rs)) preferred)"

definition filterDeniedAPIResources :: "groupVersionKind list \<Rightarrow> apiResourceInfo list \<Rightarrow> apiResourceInfo list" where
  "filterDeniedAPIResources denied resources =
     (if denied = [] then resources else filter (\<lambda>r. \<not> IsDeniedResource (arAPIVersion r) (arKind r) denied) resources)"

section \<open>Pages\<close>

definition ApplyListPage :: "coreEnv \<Rightarrow> params \<Rightarrow> listOptions \<Rightarrow> coreErr + listOptions" where
  "ApplyListPage env p opts =
     (case pOptionalInt64 (ceOob env) ''limit'' 0 p of
        (limit, p) \<Rightarrow>
          (case pOptionalString ''continue'' [] p of
             (cont, p) \<Rightarrow>
               (case pErr p of
                  Some err \<Rightarrow> Inl (PageArgument err)
                | None \<Rightarrow> if limit < 0 then Inl NegativeLimit else Inr (opts\<lparr>loLimit := limit, loContinue := cont\<rparr>))))"

definition ListErr :: "coreErr \<Rightarrow> coreErr" where
  "ListErr err = (case err of ServerErr (ResponseTooLarge _) \<Rightarrow> RetrySmaller err | _ \<Rightarrow> err)"

text \<open>
  \<open>attachContinue\<close>: the printed text gets a header, the structured content (a map, nothing, or
  any other value) the two fields. \<open>showInt\<close> is the decimal text of the remaining count.
\<close>

definition attachContinue ::
    "(int \<Rightarrow> string) \<Rightarrow> string \<Rightarrow> goVal \<Rightarrow> string \<Rightarrow> int option \<Rightarrow> string \<times> goVal" where
  "attachContinue showInt txt structured cont remaining =
     (if cont = [] then (txt, structured)
      else
        let header = ''# continue: '' @ cont @ [nl]
              @ (case remaining of None \<Rightarrow> [] | Some n \<Rightarrow> ''# remainingItemCount: '' @ showInt n @ [nl]);
            put = (\<lambda>m. let m = assocUpd ''continue'' (GStr cont) m
                       in case remaining of None \<Rightarrow> m | Some n \<Rightarrow> assocUpd ''remainingItemCount'' (GInt64 n) m)
        in (header @ txt,
            GMap (case structured of GMap m \<Rightarrow> put m | GNil \<Rightarrow> put [] | _ \<Rightarrow> put [(''items'', structured)])))"

section \<open>The tools\<close>

definition parseGroupVersionKind :: "coreEnv \<Rightarrow> arguments \<Rightarrow> coreErr + groupVersionKind" where
  "parseGroupVersionKind env args =
     (case args ''apiVersion'' of
        None \<Rightarrow> Inl (MissingArgument ''apiVersion'')
      | Some GNil \<Rightarrow> Inl (MissingArgument ''apiVersion'')
      | Some apiVersion \<Rightarrow>
          (case args ''kind'' of
             None \<Rightarrow> Inl (MissingArgument ''kind'')
           | Some GNil \<Rightarrow> Inl (MissingArgument ''kind'')
           | Some kind \<Rightarrow>
               (case apiVersion of
                  GStr a \<Rightarrow>
                    (case ceParseGroupVersion env a of
                       None \<Rightarrow> Inl InvalidAPIVersion
                     | Some (grp, version) \<Rightarrow>
                         (case kind of GStr k \<Rightarrow> Inr \<lparr>gvkGroup = grp, gvkVersion = version, gvkKind = k\<rparr>
                          | _ \<Rightarrow> Inl (ArgumentNotString ''kind'')))
                | _ \<Rightarrow> Inl (ArgumentNotString ''apiVersion''))))"

text \<open>An argument that may be left out (\<open>namespace\<close>), and one that may not (\<open>name\<close>).\<close>

definition stringArgument :: "arguments \<Rightarrow> string \<Rightarrow> string option \<Rightarrow> coreErr + string" where
  "stringArgument args key fallback =
     (case args key of
        Some (GStr v) \<Rightarrow> Inr v
      | None \<Rightarrow> (case fallback of None \<Rightarrow> Inl (MissingArgument key) | Some d \<Rightarrow> Inr d)
      | Some GNil \<Rightarrow> (case fallback of None \<Rightarrow> Inl (MissingArgument key) | Some d \<Rightarrow> Inr d)
      | Some _ \<Rightarrow> Inl (ArgumentNotString key))"

text \<open>Kind, namespace and name, in the order in which the handlers complain about them.\<close>

definition namedTarget :: "coreEnv \<Rightarrow> arguments \<Rightarrow> coreErr + groupVersionKind \<times> string \<times> string" where
  "namedTarget env args =
     (case parseGroupVersionKind env args of
        Inl err \<Rightarrow> Inl err
      | Inr gvk \<Rightarrow>
          if args ''name'' = None \<or> args ''name'' = Some GNil then Inl (MissingArgument ''name'')
          else (case stringArgument args ''namespace'' (Some []) of
              Inl err \<Rightarrow> Inl err
            | Inr ns \<Rightarrow>
                (case stringArgument args ''name'' None of Inl err \<Rightarrow> Inl err | Inr n \<Rightarrow> Inr (gvk, ns, n))))"

definition selectorArgument :: "arguments \<Rightarrow> string \<Rightarrow> coreErr + string" where
  "selectorArgument args key = stringArgument args key (Some [])"

definition resourcesListTool :: "coreEnv \<Rightarrow> bool \<Rightarrow> arguments \<Rightarrow> coreState \<Rightarrow> (coreErr + kubeObject) \<times> coreState" where
  "resourcesListTool env asTable args s =
     (case selectorArgument args ''labelSelector'' of
        Inl err \<Rightarrow> (Inl err, s)
      | Inr label \<Rightarrow>
          (case selectorArgument args ''fieldSelector'' of
             Inl err \<Rightarrow> (Inl err, s)
           | Inr field \<Rightarrow>
               (case ApplyListPage env (WrapParams args) \<lparr>loLimit = 0, loContinue = [], loLabelSelector = label, loFieldSelector = field\<rparr> of
                  Inl err \<Rightarrow> (Inl err, s)
                | Inr opts \<Rightarrow>
                    (case parseGroupVersionKind env args of
                       Inl err \<Rightarrow> (Inl err, s)
                     | Inr gvk \<Rightarrow>
                         (case stringArgument args ''namespace'' (Some []) of
                            Inl err \<Rightarrow> (Inl err, s)
                          | Inr ns \<Rightarrow>
                              (case ResourcesList env gvk ns asTable opts s of
                                 (Inl err, s) \<Rightarrow> (Inl (ListErr err), s)
                               | (Inr ret, s) \<Rightarrow> (Inr ret, s)))))))"

definition resourcesGetTool :: "coreEnv \<Rightarrow> arguments \<Rightarrow> coreState \<Rightarrow> (coreErr + kubeObject) \<times> coreState" where
  "resourcesGetTool env args s =
     (case namedTarget env args of
        Inl err \<Rightarrow> (Inl err, s)
      | Inr (gvk, ns, n) \<Rightarrow> ResourcesGet env gvk ns n s)"

definition resourcesCreateOrUpdateTool :: "coreEnv \<Rightarrow> arguments \<Rightarrow> coreState \<Rightarrow> (coreErr + kubeObject list) \<times> coreState" where
  "resourcesCreateOrUpdateTool env args s =
     (case args ''resource'' of
        None \<Rightarrow> (Inl (MissingArgument ''resource''), s)
      | Some GNil \<Rightarrow> (Inl (MissingArgument ''resource''), s)
      | Some (GStr r) \<Rightarrow>
          if r = [] then (Inl (MissingArgument ''resource''), s) else ResourcesCreateOrUpdate env r s
      | Some _ \<Rightarrow> (Inl (ArgumentNotString ''resource''), s))"

definition resourcesDeleteTool :: "coreEnv \<Rightarrow> arguments \<Rightarrow> coreState \<Rightarrow> (coreErr + kubeObject) \<times> coreState" where
  "resourcesDeleteTool env args s =
     (case namedTarget env args of
        Inl err \<Rightarrow> (Inl err, s)
      | Inr (gvk, ns, n) \<Rightarrow>
          (case args ''gracePeriodSeconds'' of
             None \<Rightarrow> ResourcesDelete env gvk ns n None s
           | Some value \<Rightarrow>
               (case ParseInt64 (ceOob env) value of
                  Inl _ \<Rightarrow> (Inl (InvalidArgument ''gracePeriodSeconds''), s)
                | Inr grace \<Rightarrow> ResourcesDelete env gvk ns n (Some grace) s)))"

definition resourcesScaleTool :: "coreEnv \<Rightarrow> arguments \<Rightarrow> coreState \<Rightarrow> (coreErr + kubeObject) \<times> coreState" where
  "resourcesScaleTool env args s =
     (case namedTarget env args of
        Inl err \<Rightarrow> (Inl err, s)
      | Inr (gvk, ns, n) \<Rightarrow>
          (case args ''scale'' of
             None \<Rightarrow> ResourcesScale env gvk ns n 0 False s
           | Some value \<Rightarrow>
               (case ParseInt64 (ceOob env) value of
                  Inl _ \<Rightarrow> (Inl (InvalidArgument ''scale''), s)
                | Inr desired \<Rightarrow> ResourcesScale env gvk ns n desired True s)))"

text \<open>
  \<open>discovered\<close> is what preferred discovery returns, with the error of the groups that could not be
  read; the warning says that the list is not complete.
\<close>

definition apiResourcesListTool ::
    "(string \<times> (string \<times> string \<times> bool) list) option list \<times> string option \<Rightarrow> groupVersionKind list \<Rightarrow> arguments \<Rightarrow>
     coreErr + apiResourceInfo list \<times> string option" where
  "apiResourcesListTool discovered denied args =
     (case pRequiredString ''kind'' (WrapParams args) of
        (kind, p) \<Rightarrow>
          (case pErr p of
             Some err \<Rightarrow> Inl (PageArgument err)
           | None \<Rightarrow>
               let kindFilter = trimSpace kind
               in if kindFilter = [] then Inl KindEmpty
                  else let resources = APIResourcesList (fst discovered) kindFilter
                       in (case snd discovered of
                             Some err \<Rightarrow> if resources = [] then Inl (DiscoveryErr err)
                                         else Inr (filterDeniedAPIResources denied resources, Some err)
                           | None \<Rightarrow> Inr (filterDeniedAPIResources denied resources, None))))"

section \<open>What the tools send\<close>

lemma restMapping_log [simp]: "csLog (snd (restMapping env gvk s)) = csLog s"
  by (simp add: restMapping_def Let_def)

lemma mapperReset_log [simp]: "csLog (mapperReset s) = csLog s"
  by (simp add: mapperReset_def)

lemma resourceFor_log [simp]: "csLog (snd (resourceFor env gvk s)) = csLog s"
  unfolding resourceFor_def restMapping_def mapperReset_def Let_def
  by (auto split: sum.splits mapErr.splits)

lemma resourceFor_logD: "resourceFor env gvk s = (r, s') \<Longrightarrow> csLog s' = csLog s"
  using resourceFor_log by (metis snd_conv)

text \<open>A kind that the cluster serves is found, however old the snapshot is that does not have it.\<close>

lemma fresh_kinds_resolve:
  assumes "ceKinds env gvk = Inr gvr" "case csMapper s of None \<Rightarrow> True | Some kinds \<Rightarrow> kinds gvk \<in> {Inl NoKindMatch, Inr gvr}"
  shows "fst (resourceFor env gvk s) = Inr gvr"
  using assms unfolding resourceFor_def restMapping_def mapperReset_def Let_def by (auto split: option.splits)

text \<open>The requests that a call added to the log.\<close>

definition newOps :: "coreState \<Rightarrow> 'r \<times> coreState \<Rightarrow> apiOp list" where
  "newOps s r = drop (length (csLog s)) (csLog (snd r))"

lemma newOps_same: "csLog s' = csLog s \<Longrightarrow> newOps s (r, s') = []"
  by (simp add: newOps_def)

lemma newOps_add: "csLog s' = csLog s @ ops \<Longrightarrow> newOps s (r, s') = ops"
  by (simp add: newOps_def)

lemma send_log: "send env op s = (r, s') \<Longrightarrow> csLog s' = csLog s @ [op]"
  by (auto simp: send_def)

lemma onNamed_cases:
  assumes "onNamed env gvk namespace f s = (r, s')"
  obtains (stopped) err where "r = Inl err" "csLog s' = csLog s"
  | (called) gvr ns s1 where "csLog s1 = csLog s" "fst (resourceFor env gvk s) = Inr gvr"
      "effectiveNamespace env gvk namespace = Inr ns" "f gvr ns s1 = (r, s')"
  using assms unfolding onNamed_def
  by (auto split: prod.splits sum.splits dest: resourceFor_logD)

lemma named_single_send:
  assumes "onNamed env gvk namespace (\<lambda>gvr ns s. case send env (op gvr ns) s of (r, s) \<Rightarrow> (map_sum ServerErr id r, s)) s = (r, s')"
  shows "newOps s (r, s') = [] \<and> isl r \<or> (\<exists>gvr ns. fst (resourceFor env gvk s) = Inr gvr
    \<and> effectiveNamespace env gvk namespace = Inr ns \<and> newOps s (r, s') = [op gvr ns])"
  using assms
proof (cases rule: onNamed_cases)
  case (called gvr ns s1)
  then have "csLog s' = csLog s @ [op gvr ns]" by (auto simp: send_def)
  from newOps_add [OF this, of r] called(2,3) show ?thesis by simp
qed (auto simp: newOps_same)

lemma isl_map_sum [simp]: "isl (map_sum f g x) = isl x"
  by (cases x) simp_all

text \<open>What scaling sends: a read of the scale, and the scale that was read with other replicas.\<close>

definition scaleOps :: "coreEnv \<Rightarrow> coreState \<Rightarrow> string \<Rightarrow> int option \<Rightarrow> groupVersionResource \<Rightarrow> string \<Rightarrow> apiOp list \<Rightarrow> bool" where
  "scaleOps env s n desired gvr ns ops \<longleftrightarrow>
     (case ceAnswer env (csLog s) (OpGet gvr ns n ''scale'') of
        Inl _ \<Rightarrow> ops = [OpGet gvr ns n ''scale'']
      | Inr old \<Rightarrow>
          (case desired of
             None \<Rightarrow> ops = [OpGet gvr ns n ''scale'']
           | Some d \<Rightarrow>
               (case ceSetReplicas env d old of
                  Inl _ \<Rightarrow> ops = [OpGet gvr ns n ''scale'']
                | Inr scale \<Rightarrow> ops = [OpGet gvr ns n ''scale'', OpUpdate gvr ns scale ''scale''])))"

lemma scale_sends:
  assumes "ResourcesScale env gvk namespace name d should s = (r, s')"
  shows "newOps s (r, s') = [] \<and> isl r \<or> (\<exists>gvr ns. fst (resourceFor env gvk s) = Inr gvr \<and> effectiveNamespace env gvk namespace = Inr ns
    \<and> scaleOps env s name (if should then Some d else None) gvr ns (newOps s (r, s')))"
  using assms unfolding ResourcesScale_def
proof (cases rule: onNamed_cases)
  case (called gvr ns s1)
  let ?get = "OpGet gvr ns name ''scale''"
  have g: "send env ?get s1 = (ceAnswer env (csLog s) ?get, s1\<lparr>csLog := csLog s @ [?get]\<rparr>)" using called(1) by (simp add: send_def)
  have "scaleOps env s name (if should then Some d else None) gvr ns (newOps s (r, s'))"
    using called(4) unfolding g
    by (cases "ceAnswer env (csLog s) ?get"; cases should) (auto simp: scaleOps_def newOps_def send_def split: sum.splits prod.splits)
  then show ?thesis using called(2,3) by blast
qed (auto simp: newOps_same)

text \<open>What listing sends: for a namespaced kind the review first, whose answer matters only without a namespace.\<close>

definition listOp :: "bool \<Rightarrow> groupVersionResource \<Rightarrow> string \<Rightarrow> listOptions \<Rightarrow> apiOp" where
  "listOp asTable gvr ns opts = (if asTable then OpTable (tablePath gvr ns) opts else OpList gvr ns opts)"

definition reviewAllowed :: "coreEnv \<Rightarrow> coreState \<Rightarrow> groupVersionResource \<Rightarrow> string \<Rightarrow> bool" where
  "reviewAllowed env s gvr ns \<longleftrightarrow>
     (case ceAnswer env (csLog s) (OpReview gvr ns ''list'') of Inl _ \<Rightarrow> False | Inr review \<Rightarrow> ceReviewAllows env review)"

definition listNamespace :: "coreEnv \<Rightarrow> coreState \<Rightarrow> groupVersionResource \<Rightarrow> string \<Rightarrow> string" where
  "listNamespace env s gvr ns = (if ns \<noteq> [] then ns else if reviewAllowed env s gvr ns then [] else ceNamespace env)"

definition listOps :: "coreEnv \<Rightarrow> coreState \<Rightarrow> bool \<Rightarrow> groupVersionResource \<Rightarrow> bool \<Rightarrow> string \<Rightarrow> listOptions \<Rightarrow> apiOp list" where
  "listOps env s asTable gvr namespaced ns opts =
     (if namespaced then [OpReview gvr ns ''list'', listOp asTable gvr (listNamespace env s gvr ns) opts]
      else [listOp asTable gvr [] opts])"

lemma list_sends:
  assumes "ResourcesList env gvk namespace asTable opts s = (r, s')"
  shows "newOps s (r, s') = [] \<and> isl r \<or> (\<exists>gvr namespaced. fst (resourceFor env gvk s) = Inr gvr \<and> isNamespaced env gvk = Inr namespaced
    \<and> newOps s (r, s') = listOps env s asTable gvr namespaced namespace opts)"
proof (cases "resourceFor env gvk s")
  case (Pair q s1)
  note log = resourceFor_logD [OF Pair]
  show ?thesis
  proof (cases "(\<exists>e. q = Inl e) \<or> (\<exists>e. isNamespaced env gvk = Inl e)")
    case True
    then show ?thesis using assms Pair log by (auto simp: ResourcesList_def newOps_same split: sum.splits)
  next
    case False
    then obtain gvr b where q: "q = Inr gvr" "isNamespaced env gvk = Inr b" by (cases q; cases "isNamespaced env gvk") auto
    have "newOps s (r, s') = listOps env s asTable gvr b namespace opts"
    proof (cases b)
      case True
      let ?rev = "OpReview gvr namespace ''list''"
      have c: "canIUse env gvr namespace ''list'' s1 = (reviewAllowed env s gvr namespace, s1\<lparr>csLog := csLog s @ [?rev]\<rparr>)"
        using log by (simp add: canIUse_def send_def reviewAllowed_def split: sum.splits)
      show ?thesis using assms True q Pair unfolding ResourcesList_def
        by (auto simp: c listOps_def listOp_def listNamespace_def NamespaceOrDefault_def send_def newOps_def Let_def)
    next
      case False
      then show ?thesis using assms q Pair log unfolding ResourcesList_def
        by (auto simp: listOps_def listOp_def send_def newOps_def Let_def)
    qed
    then show ?thesis using Pair q by auto
  qed
qed

text \<open>A request that applies an object, in the namespace that is due to it.\<close>

definition appliedAs :: "coreEnv \<Rightarrow> kubeObject \<Rightarrow> apiOp \<Rightarrow> bool" where
  "appliedAs env obj op \<longleftrightarrow> (\<exists>gvr ns. op = OpApply gvr ns (ceNameOf env obj) (ceSetNamespace env ns obj)
     \<and> effectiveNamespace env (ceGVK env obj) (ceNamespaceOf env obj) = Inr ns)"

lemma createOrUpdate_log:
  "resourcesCreateOrUpdate env objs s = (r, s') \<Longrightarrow> \<exists>ops. csLog s' = csLog s @ ops \<and> length ops \<le> length objs
     \<and> list_all2 (appliedAs env) (take (length ops) objs) ops \<and> (\<not> isl r \<longrightarrow> length ops = length objs)"
proof (induction env objs s arbitrary: r s' rule: resourcesCreateOrUpdate.induct)
  case (2 env obj objs s)
  let ?f = "\<lambda>gvr ns s. case send env (OpApply gvr ns (ceNameOf env obj) (ceSetNamespace env ns obj)) s of (r, s) \<Rightarrow> (map_sum ServerErr id r, s)"
  obtain q s1 where n: "onNamed env (ceGVK env obj) (ceNamespaceOf env obj) ?f s = (q, s1)" by force
  from n show ?case
  proof (cases rule: onNamed_cases)
    case (stopped err)
    then show ?thesis using "2.prems" n by (intro exI [of _ "[]"]) (auto simp: Let_def)
  next
    case (called gvr ns s0)
    then have log: "csLog s1 = csLog s @ [OpApply gvr ns (ceNameOf env obj) (ceSetNamespace env ns obj)]" by (auto simp: send_def)
    have op: "appliedAs env obj (OpApply gvr ns (ceNameOf env obj) (ceSetNamespace env ns obj))" using called(3) by (auto simp: appliedAs_def)
    show ?thesis
    proof (cases q)
      case (Inl err)
      then show ?thesis using "2.prems" n log op by (intro exI [of _ "[_]"]) (auto simp: Let_def)
    next
      case (Inr applied)
      define s2 where "s2 = (if gvkKind (ceGVK env obj) = ''CustomResourceDefinition'' then mapperReset s1 else s1)"
      obtain q2 s3 where rest: "resourcesCreateOrUpdate env objs s2 = (q2, s3)" by force
      have r: "r = map_sum id (\<lambda>rest. applied # rest) q2" "s' = s3" using "2.prems" n Inr rest by (simp_all add: Let_def s2_def)
      from "2.IH" [OF refl n [symmetric] Inr s2_def rest] obtain ops where ops: "csLog s3 = csLog s2 @ ops" "length ops \<le> length objs"
          "list_all2 (appliedAs env) (take (length ops) objs) ops" "\<not> isl q2 \<longrightarrow> length ops = length objs" by blast
      then show ?thesis using r log op by (intro exI [of _ "_ # ops"]) (auto simp: s2_def split: if_splits)
    qed
  qed
qed (auto intro: exI [of _ "[]"])

lemma decodeDocuments_no_status: "decodeDocuments env ds = Inr objs \<Longrightarrow> obj \<in> set objs \<Longrightarrow> ''status'' \<notin> fst ` set obj"
proof (induction env ds arbitrary: objs rule: decodeDocuments.induct)
  case (2 env d ds)
  obtain o1 rest where o: "objs = withoutStatus o1 # rest" "decodeDocuments env ds = Inr rest"
    using "2.prems"(1) by (auto split: sum.splits) (cases "decodeDocuments env ds"; auto)
  have "''status'' \<notin> fst ` set (withoutStatus o1)" by (auto simp: withoutStatus_def)
  then show ?case using "2.IH" o "2.prems" by (auto split: sum.splits)
qed simp

text \<open>
  Creating or updating resources is all or nothing up to the first request: when one document
  does not decode nothing is sent. Otherwise the documents are applied in their order, each in its
  own namespace or the configured one (none for a cluster-scoped kind), up to the first failure,
  and all of them if the call succeeds; none of them carries a status.
\<close>

lemma create_or_update_applies_in_order:
  assumes "ResourcesCreateOrUpdate env txt s = (r, s')"
    and "\<And>ns obj. ''status'' \<notin> fst ` set obj \<Longrightarrow> ''status'' \<notin> fst ` set (ceSetNamespace env ns obj)"
  shows "case decodeDocuments env (splitDocuments txt) of
      Inl err \<Rightarrow> r = Inl err \<and> s' = s
    | Inr objs \<Rightarrow> \<exists>ops. csLog s' = csLog s @ ops \<and> length ops \<le> length objs
        \<and> list_all2 (appliedAs env) (take (length ops) objs) ops \<and> (\<not> isl r \<longrightarrow> length ops = length objs)
        \<and> (\<forall>gvr ns n obj. OpApply gvr ns n obj \<in> set ops \<longrightarrow> ''status'' \<notin> fst ` set obj)"
proof (cases "decodeDocuments env (splitDocuments txt)")
  case (Inl err)
  show ?thesis using assms(1) unfolding ResourcesCreateOrUpdate_def Inl by auto
next
  case (Inr objs)
  then have "resourcesCreateOrUpdate env objs s = (r, s')" using assms(1) by (simp add: ResourcesCreateOrUpdate_def)
  from createOrUpdate_log [OF this] obtain ops where
    ops: "csLog s' = csLog s @ ops" "length ops \<le> length objs" "list_all2 (appliedAs env) (take (length ops) objs) ops"
      "\<not> isl r \<longrightarrow> length ops = length objs" by blast
  have "''status'' \<notin> fst ` set obj" if applied: "OpApply gvr ns n obj \<in> set ops" for gvr ns n obj
  proof -
    obtain j where j: "j < length ops" "ops ! j = OpApply gvr ns n obj" using applied by (auto simp: in_set_conv_nth)
    have "appliedAs env (objs ! j) (OpApply gvr ns n obj)"
      using list_all2_nthD2 [OF ops(3) j(1)] j ops(2) by simp
    moreover have "''status'' \<notin> fst ` set (objs ! j)" using decodeDocuments_no_status [OF Inr] j(1) ops(2) by simp
    ultimately show ?thesis using assms(2) by (auto simp: appliedAs_def)
  qed
  then show ?thesis unfolding Inr sum.case using ops by blast
qed

text \<open>A request on the object that \<open>gvk\<close>, \<open>namespace\<close> and the kinds of the cluster determine.\<close>

definition onTarget :: "coreEnv \<Rightarrow> coreState \<Rightarrow> groupVersionKind \<Rightarrow> string \<Rightarrow> (groupVersionResource \<Rightarrow> string \<Rightarrow> bool) \<Rightarrow> bool" where
  "onTarget env s gvk namespace P \<longleftrightarrow>
     (\<exists>gvr ns. fst (resourceFor env gvk s) = Inr gvr \<and> effectiveNamespace env gvk namespace = Inr ns \<and> P gvr ns)"

text \<open>A call that fails before it sends anything, or whose requests are as given.\<close>

definition sendsExactly :: "coreState \<Rightarrow> (coreErr + 'a) \<times> coreState \<Rightarrow> (apiOp list \<Rightarrow> bool) \<Rightarrow> bool" where
  "sendsExactly s x P \<longleftrightarrow> newOps s x = [] \<and> isl (fst x) \<or> P (newOps s x)"

lemma sendsExactly_refused [simp]: "sendsExactly s (Inl err, s) P"
  by (simp add: sendsExactly_def newOps_def)

lemma get_sends:
  "sendsExactly s (ResourcesGet env gvk namespace n s) (\<lambda>ops. onTarget env s gvk namespace (\<lambda>gvr ns. ops = [OpGet gvr ns n []]))"
  using named_single_send [of env gvk namespace "\<lambda>gvr ns. OpGet gvr ns n []" s] unfolding onTarget_def sendsExactly_def
  by (cases "ResourcesGet env gvk namespace n s") (auto simp: ResourcesGet_def)

lemma delete_sends:
  "sendsExactly s (ResourcesDelete env gvk namespace n grace s) (\<lambda>ops. onTarget env s gvk namespace (\<lambda>gvr ns. ops = [OpDelete gvr ns n grace]))"
  using named_single_send [of env gvk namespace "\<lambda>gvr ns. OpDelete gvr ns n grace" s] unfolding onTarget_def sendsExactly_def
  by (cases "ResourcesDelete env gvk namespace n grace s") (auto simp: ResourcesDelete_def)

lemma scale_sends':
  "sendsExactly s (ResourcesScale env gvk namespace n d should s)
     (\<lambda>ops. onTarget env s gvk namespace (\<lambda>gvr ns. scaleOps env s n (if should then Some d else None) gvr ns ops))"
  using scale_sends [of env gvk namespace n d should s] unfolding onTarget_def sendsExactly_def
  by (cases "ResourcesScale env gvk namespace n d should s") auto

text \<open>A whole number that an argument gives, if it is there.\<close>

definition intArgument :: "coreEnv \<Rightarrow> arguments \<Rightarrow> string \<Rightarrow> int option option" where
  "intArgument env args key =
     (case args key of
        None \<Rightarrow> Some None
      | Some v \<Rightarrow> (case ParseInt64 (ceOob env) v of Inl _ \<Rightarrow> None | Inr i \<Rightarrow> Some (Some i)))"

text \<open>The kind, the namespace and the options that the arguments of a list give.\<close>

definition listRequest :: "coreEnv \<Rightarrow> arguments \<Rightarrow> groupVersionKind \<Rightarrow> string \<Rightarrow> listOptions \<Rightarrow> bool" where
  "listRequest env args gvk namespace opts \<longleftrightarrow>
     parseGroupVersionKind env args = Inr gvk \<and> stringArgument args ''namespace'' (Some []) = Inr namespace
     \<and> stringArgument args ''labelSelector'' (Some []) = Inr (loLabelSelector opts)
     \<and> stringArgument args ''fieldSelector'' (Some []) = Inr (loFieldSelector opts)
     \<and> loContinue opts = argumentString args ''continue'' [] \<and> loLimit opts = fst (pOptionalInt64 (ceOob env) ''limit'' 0 (WrapParams args)) \<and> 0 \<le> loLimit opts"

lemma ApplyListPage_keeps:
  assumes "ApplyListPage env p opts = Inr opts'"
  shows "loLabelSelector opts' = loLabelSelector opts \<and> loFieldSelector opts' = loFieldSelector opts \<and> 0 \<le> loLimit opts'
    \<and> loLimit opts' = fst (pOptionalInt64 (ceOob env) ''limit'' 0 p) \<and> loContinue opts' = argumentString (pArgs p) ''continue'' []"
proof -
  obtain limit p1 where 1: "pOptionalInt64 (ceOob env) ''limit'' 0 p = (limit, p1)" by force
  obtain cont p2 where 2: "pOptionalString ''continue'' [] p1 = (cont, p2)" by force
  have ok: "pErr p2 = None" "0 \<le> limit" "opts' = opts\<lparr>loLimit := limit, loContinue := cont\<rparr>"
    using assms 1 2 by (auto simp: ApplyListPage_def split: option.splits if_splits)
  with pOptionalString_ok [OF 2 ok(1)] pOptionalInt64_ok [OF 1] 1 show ?thesis by auto
qed

lemma list_tool_sends:
  "sendsExactly s (resourcesListTool env asTable args s) (\<lambda>ops. \<exists>gvk namespace opts gvr namespaced.
     listRequest env args gvk namespace opts \<and> fst (resourceFor env gvk s) = Inr gvr \<and> isNamespaced env gvk = Inr namespaced
     \<and> ops = listOps env s asTable gvr namespaced namespace opts)"
proof (cases "\<exists>err. resourcesListTool env asTable args s = (Inl err, s)")
  case False
  then obtain label field opts gvk ns where a: "selectorArgument args ''labelSelector'' = Inr label" "selectorArgument args ''fieldSelector'' = Inr field"
      "ApplyListPage env (WrapParams args) \<lparr>loLimit = 0, loContinue = [], loLabelSelector = label, loFieldSelector = field\<rparr> = Inr opts"
      "parseGroupVersionKind env args = Inr gvk" "stringArgument args ''namespace'' (Some []) = Inr ns"
    unfolding resourcesListTool_def by (auto split: sum.splits)
  obtain r s' where l: "ResourcesList env gvk ns asTable opts s = (r, s')" by force
  then have t: "resourcesListTool env asTable args s = (map_sum ListErr id r, s')"
    using a by (auto simp: resourcesListTool_def split: sum.splits)
  have "listRequest env args gvk ns opts"
    using a ApplyListPage_keeps [OF a(3)] by (auto simp: listRequest_def selectorArgument_def WrapParams_def)
  moreover have "newOps s (map_sum ListErr id r, s') = newOps s (r, s')" by (simp add: newOps_def)
  ultimately show ?thesis using list_sends [OF l] unfolding t sendsExactly_def by fastforce
qed auto

text \<open>
  C12. What a generic resource tool sends is determined by its arguments; when it sends nothing it
  fails. A list is one list request for the kind and the options of the arguments: in the namespace
  of the arguments; without one, in all namespaces if the access review that precedes the list of
  every namespaced kind allows it and in the configured namespace otherwise; and outside of
  namespaces for a cluster-scoped kind. Get reads and delete deletes the one object named, in the
  namespace of the arguments or the configured one, with the grace period that was given. Scale
  reads the scale of that object, and if a number was given updates it to exactly what it read with
  that number of replicas.
\<close>

theorem resource_tools_send_only_their_requests:
  "sendsExactly s (resourcesListTool env asTable args s) (\<lambda>ops. \<exists>gvk namespace opts gvr namespaced.
      listRequest env args gvk namespace opts \<and> fst (resourceFor env gvk s) = Inr gvr \<and> isNamespaced env gvk = Inr namespaced
      \<and> ops = (if namespaced
               then [OpReview gvr namespace ''list'',
                     listOp asTable gvr (if namespace \<noteq> [] then namespace
                                         else if reviewAllowed env s gvr namespace then [] else ceNamespace env) opts]
               else [listOp asTable gvr [] opts]))
   \<and> (case namedTarget env args of
        Inl err \<Rightarrow> newOps s (resourcesGetTool env args s) = [] \<and> newOps s (resourcesDeleteTool env args s) = []
          \<and> newOps s (resourcesScaleTool env args s) = []
      | Inr (gvk, namespace, n) \<Rightarrow>
          sendsExactly s (resourcesGetTool env args s) (\<lambda>ops. onTarget env s gvk namespace (\<lambda>gvr ns. ops = [OpGet gvr ns n []]))
          \<and> sendsExactly s (resourcesDeleteTool env args s) (\<lambda>ops. \<exists>grace. intArgument env args ''gracePeriodSeconds'' = Some grace
              \<and> onTarget env s gvk namespace (\<lambda>gvr ns. ops = [OpDelete gvr ns n grace]))
          \<and> sendsExactly s (resourcesScaleTool env args s) (\<lambda>ops. \<exists>desired. intArgument env args ''scale'' = Some desired
              \<and> onTarget env s gvk namespace (\<lambda>gvr ns. scaleOps env s n desired gvr ns ops)))"
proof (cases "namedTarget env args")
  case (Inl err)
  then show ?thesis using list_tool_sends [of s env asTable args] unfolding listOps_def listNamespace_def
    by (simp add: resourcesGetTool_def resourcesDeleteTool_def resourcesScaleTool_def newOps_def)
next
  case (Inr target)
  obtain gvk namespace n where t: "target = (gvk, namespace, n)" by (cases target)
  note named = Inr [unfolded t]
  have "sendsExactly s (resourcesGetTool env args s) (\<lambda>ops. onTarget env s gvk namespace (\<lambda>gvr ns. ops = [OpGet gvr ns n []]))"
    using get_sends by (simp add: resourcesGetTool_def named)
  moreover have "sendsExactly s (resourcesDeleteTool env args s) (\<lambda>ops. \<exists>grace. intArgument env args ''gracePeriodSeconds'' = Some grace
      \<and> onTarget env s gvk namespace (\<lambda>gvr ns. ops = [OpDelete gvr ns n grace]))"
    using delete_sends [of s env gvk namespace n] by (auto simp: resourcesDeleteTool_def named intArgument_def split: option.split sum.split)
  moreover have "sendsExactly s (resourcesScaleTool env args s) (\<lambda>ops. \<exists>desired. intArgument env args ''scale'' = Some desired
      \<and> onTarget env s gvk namespace (\<lambda>gvr ns. scaleOps env s n desired gvr ns ops))"
    using scale_sends' [of s env gvk namespace n 0 False] scale_sends' [of s env gvk namespace n _ True]
    by (auto simp: resourcesScaleTool_def named intArgument_def split: option.split sum.split)
  ultimately show ?thesis using list_tool_sends [of s env asTable args] unfolding listOps_def listNamespace_def by (simp add: named)
qed

section \<open>The tools and the deny list\<close>

text \<open>A segment that a path keeps: not empty, without a slash, and neither of the two dot segments.\<close>

definition plainName :: "string \<Rightarrow> bool" where
  "plainName n \<longleftrightarrow> segOk n \<and> n \<noteq> ''.'' \<and> n \<noteq> ''..''"

lemma cleanSegments_plain: "list_all plainName ps \<Longrightarrow> cleanSegments ps = ps"
proof -
  assume "list_all plainName ps"
  then have "fold (\<lambda>seg acc. if seg = [] \<or> seg = ''.'' then acc else if seg = ''..'' then drop 1 acc else seg # acc) ps acc = rev ps @ acc" for acc
    by (induction ps arbitrary: acc) (auto simp: plainName_def segOk_def)
  then show ?thesis by (simp add: cleanSegments_def)
qed

lemma plain_segments: "list_all plainName ps \<Longrightarrow> list_all segOk ps"
  by (auto simp: plainName_def list_all_iff)

lemma absPath_plain: "ps \<noteq> [] \<Longrightarrow> list_all plainName ps \<Longrightarrow> absPath ps = CHR ''/'' # goJoin ''/'' ps"
proof -
  assume ps: "ps \<noteq> []" "list_all plainName ps"
  have "goSplit CHR ''/'' (goJoin ''/'' ps) = ps"
    using goSplit_goJoin [OF ps(1), of "CHR ''/''"] plain_segments [OF ps(2)] by (auto simp: list_all_iff segOk_def)
  then show "absPath ps = CHR ''/'' # goJoin ''/'' ps" using cleanSegments_plain [OF ps(2)] by (simp add: absPath_def)
qed

lemma pathParts_absPath: "ps \<noteq> [] \<Longrightarrow> list_all plainName ps \<Longrightarrow> pathParts (absPath ps) = ps"
  using pathParts_join plain_segments absPath_plain by metis

text \<open>What is a single segment of a path, as the names of Kubernetes are.\<close>

definition plainTarget :: "groupVersionResource \<Rightarrow> string \<Rightarrow> bool" where
  "plainTarget gvr namespace \<longleftrightarrow> (gvrGroup gvr = [] \<or> plainName (gvrGroup gvr)) \<and> plainName (gvrVersion gvr) \<and> plainName (gvrResource gvr)
     \<and> (namespace = [] \<or> plainName namespace)"

lemma tablePath_parts:
  assumes "plainTarget gvr namespace"
  shows "pathParts (tablePath gvr namespace) =
    apiSegments (gvrGroup gvr) (gvrVersion gvr) (if namespace = [] then None else Some namespace) (gvrResource gvr) []"
proof -
  let ?ps = "(if gvrGroup gvr = [] then [''api''] else [''apis'', gvrGroup gvr]) @ [gvrVersion gvr]
       @ (if namespace \<noteq> [] then [''namespaces'', namespace] else []) @ [gvrResource gvr]"
  have "?ps \<noteq> []" "list_all plainName ?ps" using assms by (auto simp: plainTarget_def plainName_def segOk_def)
  from pathParts_absPath [OF this] show ?thesis by (auto simp: tablePath_def apiSegments_def)
qed

lemma tablePath_gvr: "plainTarget gvr namespace \<Longrightarrow> parseURLToGVR (tablePath gvr namespace) = Some gvr"
  using tablePath_parts [of gvr namespace] unfolding parseURLToGVR_def
  by (auto simp: apiSegments_def numeral_eq_Suc Let_def)

text \<open>
  C11. A list that is asked for as a table bypasses the dynamic client and builds its own path. As
  long as the group, version, resource and namespaces are single segments of a path, the access
  control round tripper reads the resource back from that path, behind the path prefix of the API
  server if there is one, so that a list of a denied kind is refused there too, before anything is
  sent.
\<close>

theorem denied_kinds_are_not_listed:
  assumes "resourcesListTool env True args s = (r, s')" and "OpTable path opts \<in> set (newOps s (r, s'))"
    and "parseGroupVersionKind env args = Inr gvk" and "fst (resourceFor env gvk s) = Inr gvr"
    and "stringArgument args ''namespace'' (Some []) = Inr namespace" and "list_all (plainTarget gvr) [namespace, ceNamespace env, []]"
    and "reRestMapper re = Some kindFor" and "kindFor gvr = Inr gvk"
    and "reGVString re = apiVersionOf" and "stripAPIPathPrefix (hrPath rq) (rsPrefix st) = path"
    and "IsDeniedResource (apiVersionOf (gvkGroup gvk) (gvkVersion gvk)) (gvkKind gvk) (currentDeniedResources re st)"
  shows "accessRoundTrip re rq st = (Inl (NotAllowed gvk), st)"
proof -
  have "newOps s (r, s') \<noteq> []" using assms(2) by auto
  with list_tool_sends [of s env True args, unfolded sendsExactly_def assms(1)] obtain gvk' namespace' opts' gvr' b where
    l: "listRequest env args gvk' namespace' opts'" "fst (resourceFor env gvk' s) = Inr gvr'"
      "newOps s (r, s') = listOps env s True gvr' b namespace' opts'" by auto
  then have "gvk' = gvk" "namespace' = namespace" "gvr' = gvr" using assms(3-5) by (auto simp: listRequest_def)
  with l(3) assms(2) obtain ns where path: "path = tablePath gvr ns" "ns \<in> {namespace, ceNamespace env, []}"
    by (auto simp: listOps_def listOp_def listNamespace_def split: if_splits)
  then have "parseURLToGVR path = Some gvr" using tablePath_gvr assms(6) by auto
  then show ?thesis using assms(7-11) by (simp add: accessRoundTrip_def getGVK_def isAllowed_def Let_def)
qed

text \<open>
  Without that condition the round tripper still reads the path that is sent, but it is not the
  path of the list: a namespace of two dots lists all namespaces, one dot asks for a namespace with
  the name of the resource.
\<close>

lemma dotted_namespace_leaves_its_namespace:
  "tablePath \<lparr>gvrGroup = [], gvrVersion = ''v1'', gvrResource = ''pods''\<rparr> ''..'' = ''/api/v1/pods''"
  "tablePath \<lparr>gvrGroup = [], gvrVersion = ''v1'', gvrResource = ''pods''\<rparr> ''.'' = ''/api/v1/namespaces/pods''"
  "tablePath \<lparr>gvrGroup = [], gvrVersion = ''v1'', gvrResource = ''pods''\<rparr> ''kube-system/secrets'' = ''/api/v1/namespaces/kube-system/secrets/pods''"
  by code_simp+

lemma listed_iff:
  assumes "apiResourcesListTool discovered denied args = Inr (rs, warning)"
  shows "\<exists>kind. args ''kind'' = Some (GStr kind) \<and> trimSpace kind \<noteq> []
    \<and> rs = filterDeniedAPIResources denied (APIResourcesList (fst discovered) (trimSpace kind))"
  using assms by (auto simp: apiResourcesListTool_def pRequiredString_def RequiredString_def WrapParams_def Let_def
      split: option.splits goVal.splits if_splits)

lemma filterDenied_mem: "r \<in> set (filterDeniedAPIResources denied rs) \<longleftrightarrow> r \<in> set rs \<and> \<not> IsDeniedResource (arAPIVersion r) (arKind r) denied"
  by (auto simp: filterDeniedAPIResources_def)

text \<open>
  api_resources_list and the access control agree: of the resources whose kind was asked for,
  whatever its case, the tool lists exactly those that the round tripper lets requests through for.
\<close>

lemma listed_api_resources_are_the_allowed_ones:
  assumes "apiResourcesListTool discovered (currentDeniedResources re st) args = Inr (rs, warning)"
    and "args ''kind'' = Some (GStr kind)" and "reGVString re = apiVersionOf" and "arAPIVersion r = apiVersionOf g v"
  shows "r \<in> set rs \<longleftrightarrow> isAllowed re \<lparr>gvkGroup = g, gvkVersion = v, gvkKind = arKind r\<rparr> st
    \<and> (\<exists>resources. Some (arAPIVersion r, resources) \<in> set (fst discovered)
         \<and> (arKind r, arName r, arNamespaced r) \<in> set resources) \<and> toLower (arKind r) = toLower (trimSpace kind)"
proof -
  from listed_iff [OF assms(1)] assms(2) have rs: "rs = filterDeniedAPIResources (currentDeniedResources re st)
      (APIResourcesList (fst discovered) (trimSpace kind))" and ne: "trimSpace kind \<noteq> []" by auto
  have "r \<in> set (APIResourcesList (fst discovered) (trimSpace kind)) \<longleftrightarrow>
      (\<exists>resources. Some (arAPIVersion r, resources) \<in> set (fst discovered)
         \<and> (arKind r, arName r, arNamespaced r) \<in> set resources) \<and> toLower (arKind r) = toLower (trimSpace kind)"
    using ne by (cases r) (force simp: APIResourcesList_def split: option.splits)
  then show ?thesis unfolding rs filterDenied_mem isAllowed_def using assms(3,4) by auto
qed

section \<open>Examples\<close>

definition secretKind :: groupVersionKind where
  "secretKind = \<lparr>gvkGroup = [], gvkVersion = ''v1'', gvkKind = ''Secret''\<rparr>"

definition exampleCore :: coreEnv where
  "exampleCore = \<lparr>ceKinds = (\<lambda>_. Inr \<lparr>gvrGroup = [], gvrVersion = ''v1'', gvrResource = ''secrets''\<rparr>),
     ceDiscovery = (\<lambda>_. Inr [(''Secret'', True)]), ceReviewAllows = (\<lambda>_. True), ceNamespace = ''default'',
     ceAnswer = (\<lambda>_ _. Inr []), ceDecode = (\<lambda>d. if d = ''bad'' then Inl ''yaml'' else Inr [(''data'', GStr d), (''status'', GNil)]),
     ceGVK = (\<lambda>_. secretKind), ceNamespaceOf = (\<lambda>_. []), ceNameOf = (\<lambda>_. ''s''), ceSetNamespace = (\<lambda>ns obj. assocUpd ''metadata'' (GStr ns) obj),
     ceSetReplicas = (\<lambda>_ obj. Inr obj), ceParseGroupVersion = (\<lambda>v. Some ([], v)), ceOob = (\<lambda>_. 0)\<rparr>"

definition coreStart :: coreState where "coreStart = \<lparr>csMapper = None, csLog = []\<rparr>"

definition twoDocuments :: string where "twoDocuments = ''a'' @ [nl] @ ''---'' @ [nl] @ ''b''"

lemma assocUpd_keys: "fst ` set (assocUpd k v m) = insert k (fst ` set m)"
  by (induction k v m rule: assocUpd.induct) auto

definition secretArgs :: arguments where
  "secretArgs = [''apiVersion'' \<mapsto> GStr ''v1'', ''kind'' \<mapsto> GStr ''Secret'', ''namespace'' \<mapsto> GStr ''web'', ''name'' \<mapsto> GStr ''s'', ''scale'' \<mapsto> GInt64 3]"

abbreviation secretGVR :: groupVersionResource where
  "secretGVR \<equiv> \<lparr>gvrGroup = [], gvrVersion = ''v1'', gvrResource = ''secrets''\<rparr>"

theorem denied_kinds_are_not_listed_witness:
  "accessRoundTrip (exampleRtEnv [secretKind] True) \<lparr>hrMethod = ''GET'', hrPath = ''/api/v1/namespaces/web/secrets'', hrBody = None\<rparr> exampleRtState
     = (Inl (NotAllowed secretKind), exampleRtState)"
proof -
  let ?r = "resourcesListTool exampleCore True secretArgs coreStart"
  let ?opts = "\<lparr>loLimit = 0, loContinue = [], loLabelSelector = [], loFieldSelector = []\<rparr>"
  have r: "?r = (fst ?r, snd ?r)" by simp
  have "newOps coreStart (fst ?r, snd ?r) = [OpReview secretGVR ''web'' ''list'', OpTable ''/api/v1/namespaces/web/secrets'' ?opts]" by code_simp
  then have "OpTable ''/api/v1/namespaces/web/secrets'' ?opts \<in> set (newOps coreStart (fst ?r, snd ?r))" by simp
  note step = denied_kinds_are_not_listed [OF r this]
  have "parseGroupVersionKind exampleCore secretArgs = Inr secretKind" "fst (resourceFor exampleCore secretKind coreStart) = Inr secretGVR"
    "stringArgument secretArgs ''namespace'' (Some []) = Inr ''web''" "list_all (plainTarget secretGVR) [''web'', ceNamespace exampleCore, []]"
    "IsDeniedResource (apiVersionOf (gvkGroup secretKind) (gvkVersion secretKind)) (gvkKind secretKind)
      (currentDeniedResources (exampleRtEnv [secretKind] True) exampleRtState)"
    "stripAPIPathPrefix ''/api/v1/namespaces/web/secrets'' (rsPrefix exampleRtState) = ''/api/v1/namespaces/web/secrets''"
    by code_simp+
  from step [OF this(1-4) _ _ _ _ this(5)] this(6) show ?thesis by (simp add: exampleRtEnv_def secretKind_def)
qed

text \<open>The list and the scale of the example, to show that the cases occur.\<close>

theorem resource_tools_send_only_their_requests_witness:
  "\<exists>opts. newOps coreStart (resourcesListTool exampleCore True secretArgs coreStart)
       = [OpReview secretGVR ''web'' ''list'', listOp True secretGVR ''web'' opts]
     \<and> listRequest exampleCore secretArgs secretKind ''web'' opts
     \<and> onTarget exampleCore coreStart secretKind ''web'' (\<lambda>gvr ns. newOps coreStart (resourcesScaleTool exampleCore secretArgs coreStart)
         = [OpGet gvr ns ''s'' ''scale'', OpUpdate gvr ns [] ''scale''])"
proof -
  have named: "namedTarget exampleCore secretArgs = Inr (secretKind, ''web'', ''s'')" by code_simp
  have sent: "\<not> isl (fst (resourcesListTool exampleCore True secretArgs coreStart))"
    "\<not> isl (fst (resourcesScaleTool exampleCore secretArgs coreStart))" by code_simp+
  have kind: "parseGroupVersionKind exampleCore secretArgs = Inr secretKind" "fst (resourceFor exampleCore secretKind coreStart) = Inr secretGVR"
    "isNamespaced exampleCore secretKind = Inr True" "stringArgument secretArgs ''namespace'' (Some []) = Inr ''web''"
    "intArgument exampleCore secretArgs ''scale'' = Some (Some 3)" by code_simp+
  note concl = resource_tools_send_only_their_requests [of coreStart exampleCore True secretArgs, unfolded named sum.case prod.case]
  from concl sent(1) obtain opts where list: "newOps coreStart (resourcesListTool exampleCore True secretArgs coreStart)
       = [OpReview secretGVR ''web'' ''list'', listOp True secretGVR ''web'' opts]" "listRequest exampleCore secretArgs secretKind ''web'' opts"
    using kind by (auto simp: sendsExactly_def listRequest_def)
  have "onTarget exampleCore coreStart secretKind ''web'' (\<lambda>gvr ns. newOps coreStart (resourcesScaleTool exampleCore secretArgs coreStart)
      = [OpGet gvr ns ''s'' ''scale'', OpUpdate gvr ns [] ''scale''])"
    using concl sent(2) kind(5) by (auto simp: sendsExactly_def onTarget_def scaleOps_def exampleCore_def)
  with list show ?thesis by blast
qed

text \<open>
  A separator with a blank after the dashes does not split; the decoder reads the first document
  of what it is given.
\<close>

lemma blank_after_separator: "splitDocuments (''a'' @ [nl] @ ''--- '' @ [nl] @ ''b'') = [''a'' @ [nl] @ ''--- '' @ [nl] @ ''b'']"
  by code_simp

end
