(* ===== verification/Inspection.thy ===== *)
theory Inspection
  imports Go_Prelude "HOL-Library.Multiset"
begin

text \<open>
  \<open>pkg/api/inspection.go\<close> with \<open>IsNotFound\<close> of \<open>pkg/api/kubernetes.go\<close>: a question is asked of
  every target at once and the answers are combined in the order in which they arrive. The answers
  arrive over a channel, so that order is any permutation of the targets.
\<close>

section \<open>Errors\<close>

text \<open>
  A Go error: not found (of the API or of the discovery cache), some other error, a wrapped one, or
  several joined.
\<close>

datatype goErr = NotFoundErr | OtherErr string | Wrapped goErr | Joined "goErr list"

fun IsNotFound :: "goErr \<Rightarrow> bool" where
  "IsNotFound (Joined es) \<longleftrightarrow> es \<noteq> [] \<and> list_all IsNotFound es"
| "IsNotFound (Wrapped e) \<longleftrightarrow> IsNotFound e"
| "IsNotFound NotFoundErr \<longleftrightarrow> True"
| "IsNotFound (OtherErr _) \<longleftrightarrow> False"

text \<open>\<open>errors.Join\<close> of the error so far, which may be nil, and another one.\<close>

definition joinErr :: "goErr option \<Rightarrow> goErr \<Rightarrow> goErr option" where
  "joinErr err e = Some (case err of None \<Rightarrow> Joined [e] | Some e0 \<Rightarrow> Joined [e0, e])"

section \<open>Combining answers\<close>

text \<open>The loops of \<open>Any\<close>, \<open>All\<close> and \<open>Values\<close> over the arriving answers.\<close>

fun anyLoop :: "('v \<Rightarrow> bool) \<Rightarrow> goErr option \<Rightarrow> (goErr + 'v) list \<Rightarrow> bool \<times> goErr option" where
  "anyLoop match err [] = (False, err)"
| "anyLoop match err (Inl e # rs) = anyLoop match (joinErr err e) rs"
| "anyLoop match err (Inr v # rs) = (if match v then (True, None) else anyLoop match err rs)"

fun allLoop :: "('v \<Rightarrow> bool) \<Rightarrow> goErr option \<Rightarrow> (goErr + 'v) list \<Rightarrow> bool \<times> goErr option" where
  "allLoop match err [] = (err = None, err)"
| "allLoop match err (Inl e # rs) = allLoop match (joinErr err e) rs"
| "allLoop match err (Inr v # rs) = (if \<not> match v then (False, None) else allLoop match err rs)"

fun valuesLoop :: "goErr option \<Rightarrow> (goErr + 'v) list \<Rightarrow> 'v list \<times> goErr option" where
  "valuesLoop err [] = ([], err)"
| "valuesLoop err (Inl e # rs) = valuesLoop (joinErr err e) rs"
| "valuesLoop err (Inr v # rs) = (case valuesLoop err rs of (vs, err) \<Rightarrow> (v # vs, err))"

text \<open>
  \<open>targets\<close> is what the target provider returns, \<open>order\<close> the targets in the order in which their
  answers arrive.
\<close>

definition resultsAny :: "(string \<Rightarrow> goErr + 'v) \<Rightarrow> goErr + string list \<Rightarrow> string list \<Rightarrow> ('v \<Rightarrow> bool) \<Rightarrow> bool \<times> goErr option" where
  "resultsAny run targets order match =
     (case targets of Inl e \<Rightarrow> (False, Some (Wrapped e)) | Inr _ \<Rightarrow> anyLoop match None (map run order))"

definition resultsAll :: "(string \<Rightarrow> goErr + 'v) \<Rightarrow> goErr + string list \<Rightarrow> string list \<Rightarrow> ('v \<Rightarrow> bool) \<Rightarrow> bool \<times> goErr option" where
  "resultsAll run targets order match =
     (case targets of Inl e \<Rightarrow> (False, Some (Wrapped e)) | Inr _ \<Rightarrow> allLoop match None (map run order))"

definition resultsValues :: "(string \<Rightarrow> goErr + 'v) \<Rightarrow> goErr + string list \<Rightarrow> string list \<Rightarrow> 'v list \<times> goErr option" where
  "resultsValues run targets order =
     (case targets of Inl e \<Rightarrow> ([], Some (Wrapped e)) | Inr _ \<Rightarrow> valuesLoop None (map run order))"

text \<open>\<open>kindsOf\<close> gives the kinds that a target serves under the group and version in question.\<close>

definition AnyTargetHasGVK :: "(string \<Rightarrow> goErr + string list) \<Rightarrow> goErr + string list \<Rightarrow> string list \<Rightarrow> string \<Rightarrow> bool" where
  "AnyTargetHasGVK kindsOf targets order kind =
     (case resultsAny kindsOf targets order (\<lambda>kinds. kind \<in> set kinds) of
        (hasGVK, err) \<Rightarrow> hasGVK \<or> (case err of None \<Rightarrow> False | Some e \<Rightarrow> \<not> IsNotFound e))"

section \<open>The order of arrival does not matter\<close>

fun errorsOf :: "(goErr + 'v) list \<Rightarrow> goErr list" where
  "errorsOf [] = []"
| "errorsOf (Inl e # rs) = e # errorsOf rs"
| "errorsOf (Inr v # rs) = errorsOf rs"

fun valuesOf :: "(goErr + 'v) list \<Rightarrow> 'v list" where
  "valuesOf [] = []"
| "valuesOf (Inl e # rs) = valuesOf rs"
| "valuesOf (Inr v # rs) = v # valuesOf rs"

lemma set_errorsOf: "set (errorsOf (map run order)) = {e. \<exists>t \<in> set order. run t = Inl e}"
proof (induction order)
  case (Cons t order)
  then show ?case by (cases "run t") auto
qed simp

lemma set_valuesOf: "set (valuesOf (map run order)) = {v. \<exists>t \<in> set order. run t = Inr v}"
proof (induction order)
  case (Cons t order)
  then show ?case by (cases "run t") auto
qed simp

lemma anyLoop_match: "v \<in> set (valuesOf rs) \<Longrightarrow> match v \<Longrightarrow> anyLoop match err rs = (True, None)"
  by (induction match err rs rule: anyLoop.induct) auto

lemma anyLoop_no_match: "\<forall>v \<in> set (valuesOf rs). \<not> match v \<Longrightarrow> anyLoop match err rs = (False, foldl joinErr err (errorsOf rs))"
  by (induction match err rs rule: anyLoop.induct) auto

lemma allLoop_mismatch: "v \<in> set (valuesOf rs) \<Longrightarrow> \<not> match v \<Longrightarrow> allLoop match err rs = (False, None)"
  by (induction match err rs rule: allLoop.induct) auto

lemma allLoop_matches:
  "\<forall>v \<in> set (valuesOf rs). match v \<Longrightarrow> allLoop match err rs = (foldl joinErr err (errorsOf rs) = None, foldl joinErr err (errorsOf rs))"
  by (induction match err rs rule: allLoop.induct) auto

lemma valuesLoop_eq: "valuesLoop err rs = (valuesOf rs, foldl joinErr err (errorsOf rs))"
  by (induction err rs rule: valuesLoop.induct) auto

text \<open>Whether the joined error exists and whether it is not found, one asks of its parts.\<close>

definition notFoundOrNil :: "goErr option \<Rightarrow> bool" where
  "notFoundOrNil err = (case err of None \<Rightarrow> True | Some e \<Rightarrow> IsNotFound e)"

lemma joinErrs_None: "foldl joinErr err es = None \<longleftrightarrow> err = None \<and> es = []"
  by (induction es arbitrary: err) (auto simp: joinErr_def)

lemma joinErrs_notFound: "notFoundOrNil (foldl joinErr err es) \<longleftrightarrow> notFoundOrNil err \<and> list_all IsNotFound es"
proof (induction es arbitrary: err)
  case (Cons e es)
  have "notFoundOrNil (joinErr err e) \<longleftrightarrow> notFoundOrNil err \<and> IsNotFound e"
    by (cases err) (auto simp: joinErr_def notFoundOrNil_def)
  then show ?case using Cons by auto
qed simp

lemma AnyTargetHasGVK_loop:
  "AnyTargetHasGVK kindsOf (Inr targets) order kind \<longleftrightarrow>
     (\<exists>t \<in> set order. case kindsOf t of Inl e \<Rightarrow> \<not> IsNotFound e | Inr kinds \<Rightarrow> kind \<in> set kinds)"
proof (cases "\<exists>v \<in> set (valuesOf (map kindsOf order)). kind \<in> set v")
  case True
  then have "AnyTargetHasGVK kindsOf (Inr targets) order kind"
    by (auto simp: AnyTargetHasGVK_def resultsAny_def anyLoop_match)
  moreover have "\<exists>t \<in> set order. case kindsOf t of Inl e \<Rightarrow> \<not> IsNotFound e | Inr kinds \<Rightarrow> kind \<in> set kinds"
    using True unfolding set_valuesOf by (auto intro!: bexI)
  ultimately show ?thesis by simp
next
  case False
  let ?err = "foldl joinErr None (errorsOf (map kindsOf order))"
  have "AnyTargetHasGVK kindsOf (Inr targets) order kind \<longleftrightarrow> \<not> notFoundOrNil ?err"
    using anyLoop_no_match [of "map kindsOf order" "\<lambda>ks. kind \<in> set ks" None] False
    by (auto simp: AnyTargetHasGVK_def resultsAny_def notFoundOrNil_def split: option.splits)
  also have "\<dots> \<longleftrightarrow> (\<exists>t \<in> set order. \<exists>e. kindsOf t = Inl e \<and> \<not> IsNotFound e)"
    unfolding joinErrs_notFound by (auto simp: notFoundOrNil_def list_all_iff set_errorsOf)
  also have "\<dots> \<longleftrightarrow> (\<exists>t \<in> set order. case kindsOf t of Inl e \<Rightarrow> \<not> IsNotFound e | Inr kinds \<Rightarrow> kind \<in> set kinds)"
  proof (rule bex_cong [OF refl])
    fix t assume "t \<in> set order"
    then show "(\<exists>e. kindsOf t = Inl e \<and> \<not> IsNotFound e) \<longleftrightarrow> (case kindsOf t of Inl e \<Rightarrow> \<not> IsNotFound e | Inr kinds \<Rightarrow> kind \<in> set kinds)"
      using False by (cases "kindsOf t") (auto simp: set_valuesOf)
  qed
  finally show ?thesis .
qed

text \<open>The answers of the targets, read in the order of arrival or of the targets, are the same up to order.\<close>

lemma errorsOf_filter: "errorsOf rs = map projl (filter isl rs)"
  by (induction rs rule: errorsOf.induct) auto

lemma valuesOf_filter: "valuesOf rs = map projr (filter (\<lambda>r. \<not> isl r) rs)"
  by (induction rs rule: valuesOf.induct) auto

lemma errorsOf_order: "mset order = mset targets \<Longrightarrow> mset (errorsOf (map run order)) = mset (errorsOf (map run targets))"
  unfolding errorsOf_filter mset_map mset_filter by simp

lemma valuesOf_order: "mset order = mset targets \<Longrightarrow> mset (valuesOf (map run order)) = mset (valuesOf (map run targets))"
  unfolding valuesOf_filter mset_map mset_filter by simp

text \<open>An error that joins all the failures of the targets, each as often as it occurs, and nothing else.\<close>

definition joinsFailures :: "(string \<Rightarrow> goErr + 'v) \<Rightarrow> string list \<Rightarrow> goErr option \<Rightarrow> bool" where
  "joinsFailures run targets err \<longleftrightarrow>
     (\<exists>es. mset es = mset (errorsOf (map run targets)) \<and> err = foldl joinErr None es)"

lemma joinsFailures_order: "mset order = mset targets \<Longrightarrow> joinsFailures run targets (foldl joinErr None (errorsOf (map run order)))"
  unfolding joinsFailures_def using errorsOf_order by blast

lemma any_spec:
  assumes "mset order = mset targets"
  shows "if \<exists>t \<in> set targets. \<exists>v. run t = Inr v \<and> match v then anyLoop match None (map run order) = (True, None)
    else \<exists>err. anyLoop match None (map run order) = (False, err) \<and> joinsFailures run targets err"
proof (cases "\<exists>v \<in> set (valuesOf (map run order)). match v")
  case True
  then have "anyLoop match None (map run order) = (True, None)" by (auto simp: anyLoop_match)
  with True show ?thesis unfolding set_valuesOf mset_eq_setD [OF assms] by auto
next
  case False
  then have "anyLoop match None (map run order) = (False, foldl joinErr None (errorsOf (map run order)))" by (simp add: anyLoop_no_match)
  with False joinsFailures_order [OF assms, of run] show ?thesis unfolding set_valuesOf mset_eq_setD [OF assms] by auto
qed

lemma all_spec:
  assumes "mset order = mset targets"
  shows "if \<exists>t \<in> set targets. \<exists>v. run t = Inr v \<and> \<not> match v then allLoop match None (map run order) = (False, None)
    else \<exists>err. allLoop match None (map run order) = (err = None, err) \<and> joinsFailures run targets err"
proof (cases "\<exists>v \<in> set (valuesOf (map run order)). \<not> match v")
  case True
  then have "allLoop match None (map run order) = (False, None)" by (auto simp: allLoop_mismatch)
  with True show ?thesis unfolding set_valuesOf mset_eq_setD [OF assms] by auto
next
  case False
  then have "allLoop match None (map run order) =
      (foldl joinErr None (errorsOf (map run order)) = None, foldl joinErr None (errorsOf (map run order)))" by (simp add: allLoop_matches)
  with False joinsFailures_order [OF assms, of run] show ?thesis unfolding set_valuesOf mset_eq_setD [OF assms] by auto
qed

lemma values_spec:
  assumes "mset order = mset targets"
  shows "\<exists>vs err. valuesLoop None (map run order) = (vs, err) \<and> mset vs = mset (valuesOf (map run targets)) \<and> joinsFailures run targets err"
  using valuesOf_order [OF assms] joinsFailures_order [OF assms] by (auto simp: valuesLoop_eq)

text \<open>
  C38. In whatever order the answers of the targets arrive, the aggregates agree with their
  sequential reading. Any is true without an error if some answer matches, else false with the
  failures of the targets joined; All is false without an error if some answer does not match, else
  it has the joined failures and is true exactly if there are none; Values has every answer as
  often as it was given, with the joined failures; a tool that needs a kind stays available exactly
  if some target serves it or fails with something other than not found.
\<close>

theorem aggregates_do_not_depend_on_arrival:
  assumes "mset order = mset targets"
  shows "(if \<exists>t \<in> set targets. \<exists>v. run t = Inr v \<and> match v then resultsAny run (Inr targets) order match = (True, None)
      else \<exists>err. resultsAny run (Inr targets) order match = (False, err) \<and> joinsFailures run targets err)
   \<and> (if \<exists>t \<in> set targets. \<exists>v. run t = Inr v \<and> \<not> match v then resultsAll run (Inr targets) order match = (False, None)
      else \<exists>err. resultsAll run (Inr targets) order match = (err = None, err) \<and> joinsFailures run targets err)
   \<and> (\<exists>vs err. resultsValues run (Inr targets) order = (vs, err) \<and> mset vs = mset (valuesOf (map run targets)) \<and> joinsFailures run targets err)
   \<and> (AnyTargetHasGVK kindsOf (Inr targets) order kind \<longleftrightarrow>
        (\<exists>t \<in> set targets. case kindsOf t of Inl e \<Rightarrow> \<not> IsNotFound e | Inr kinds \<Rightarrow> kind \<in> set kinds))"
  unfolding resultsAny_def resultsAll_def resultsValues_def AnyTargetHasGVK_loop sum.case mset_eq_setD [OF assms]
  by (intro conjI any_spec [OF assms] all_spec [OF assms] values_spec [OF assms] refl)

text \<open>The joined error is there exactly when a target failed.\<close>

lemma joinsFailures_None: "joinsFailures run targets err \<Longrightarrow> err = None \<longleftrightarrow> errorsOf (map run targets) = []"
  by (auto simp: joinsFailures_def joinErrs_None)

definition exampleKinds :: "string \<Rightarrow> goErr + string list" where
  "exampleKinds t = (if t = ''a'' then Inl NotFoundErr else if t = ''b'' then Inl (OtherErr ''timeout'') else Inr [''Pod''])"

theorem aggregates_do_not_depend_on_arrival_witness:
  "AnyTargetHasGVK exampleKinds (Inr [''a'', ''b'', ''c'']) [''c'', ''b'', ''a''] ''Route''
   \<and> \<not> AnyTargetHasGVK exampleKinds (Inr [''a'', ''c'']) [''c'', ''a''] ''Route''"
  using aggregates_do_not_depend_on_arrival [of "[''c'', ''b'', ''a'']" "[''a'', ''b'', ''c'']" exampleKinds "\<lambda>_. True" exampleKinds "''Route''"]
    aggregates_do_not_depend_on_arrival [of "[''c'', ''a'']" "[''a'', ''c'']" exampleKinds "\<lambda>_. True" exampleKinds "''Route''"]
  by (auto simp: exampleKinds_def)

end
