(* ===== verification/Log_Sink.thy ===== *)
theory Log_Sink
  imports Go_Prelude
begin

text \<open>
  \<open>pkg/logging/sink.go\<close>: where log records go, at the start and after every reload. An open log
  file is a descriptor; \<open>skOpen\<close> is the ghost set of the descriptors that the sink has not closed.
  Each operation is one step, since the swap and the writes exclude each other by the mutex.
\<close>

section \<open>State\<close>

datatype logDest = HTTPOut | ErrOut | DiscardOut | LogFile nat

record logConfig =
  lcLogFile :: string
  lcPort :: string
  lcLogLevel :: int

record logSink =
  skHTTPMode :: bool
  skWriter :: "logDest option"
  skFile :: "nat option"
  skLastLogFile :: string
  skApplied :: bool
  skVerbosity :: int
  skProvider :: bool
  skOpen :: "nat set"
  skNext :: nat

definition StderrSentinel :: string where "StderrSentinel = ''stderr''"

section \<open>Operations\<close>

text \<open>\<open>opens\<close> says whether a path can be opened; a new descriptor is not one that was used before.\<close>

definition swapDestination :: "logDest \<Rightarrow> nat option \<Rightarrow> logSink \<Rightarrow> logSink" where
  "swapDestination newWriter newFile s =
     s\<lparr>skWriter := Some newWriter, skFile := newFile, skOpen := skOpen s - set_option (skFile s)\<rparr>"

definition applyDestination :: "(string \<Rightarrow> bool) \<Rightarrow> logConfig \<Rightarrow> logSink \<Rightarrow> string option \<times> logSink" where
  "applyDestination opens cfg s =
     (let path = lcLogFile cfg
      in if skApplied s \<and> path = skLastLogFile s \<and> (path = [] \<or> path = StderrSentinel) then (None, s)
         else if path = [] then
           (None, swapDestination (if skHTTPMode s then HTTPOut else DiscardOut) None (s\<lparr>skLastLogFile := path, skApplied := True\<rparr>))
         else if path = StderrSentinel then
           (None, swapDestination ErrOut None (s\<lparr>skLastLogFile := path, skApplied := True\<rparr>))
         else if \<not> opens path then (Some path, s)
         else
           let f = skNext s;
               s = s\<lparr>skOpen := insert f (skOpen s), skNext := Suc f, skLastLogFile := path, skApplied := True\<rparr>
           in (None, swapDestination (LogFile f) (Some f) s))"

definition setVerbosity :: "logConfig \<Rightarrow> logSink \<Rightarrow> logSink" where
  "setVerbosity cfg s = (if lcLogLevel cfg \<ge> 0 then s\<lparr>skVerbosity := lcLogLevel cfg\<rparr> else s)"

definition NewSink :: "(string \<Rightarrow> bool) \<Rightarrow> logConfig \<Rightarrow> bool \<Rightarrow> string + logSink" where
  "NewSink opens cfg otel =
     (case applyDestination opens cfg
         \<lparr>skHTTPMode = (lcPort cfg \<noteq> []), skWriter = None, skFile = None, skLastLogFile = [], skApplied = False,
          skVerbosity = 0, skProvider = False, skOpen = {}, skNext = 0\<rparr> of
        (Some err, _) \<Rightarrow> Inl err
      | (None, s) \<Rightarrow> Inr ((setVerbosity cfg s)\<lparr>skProvider := otel\<rparr>))"

text \<open>Where a write goes.\<close>

definition sinkWrite :: "logSink \<Rightarrow> logDest" where
  "sinkWrite s = (case skWriter s of None \<Rightarrow> DiscardOut | Some w \<Rightarrow> w)"

definition sinkReload :: "(string \<Rightarrow> bool) \<Rightarrow> logConfig \<Rightarrow> logSink \<Rightarrow> string option \<times> logSink" where
  "sinkReload opens cfg s =
     (case applyDestination opens cfg s of
        (Some err, s) \<Rightarrow> (Some err, s)
      | (None, s) \<Rightarrow> (None, setVerbosity cfg s))"

definition sinkClose :: "logSink \<Rightarrow> logSink" where
  "sinkClose s = swapDestination ErrOut None (s\<lparr>skProvider := False\<rparr>)"

section \<open>Writes go where the configuration says\<close>

datatype sinkOp = SinkReload "string \<Rightarrow> bool" logConfig | SinkClose

fun sinkStep :: "sinkOp \<Rightarrow> logSink \<Rightarrow> logSink" where
  "sinkStep (SinkReload opens cfg) s = snd (sinkReload opens cfg s)"
| "sinkStep SinkClose s = sinkClose s"

definition sinkInv :: "logSink \<Rightarrow> bool" where
  "sinkInv s \<longleftrightarrow> skOpen s = set_option (skFile s) \<and> (\<forall>f. skWriter s = Some (LogFile f) \<longleftrightarrow> skFile s = Some f)
     \<and> (\<forall>f \<in> skOpen s. f < skNext s) \<and> (skWriter s = Some HTTPOut \<longrightarrow> skHTTPMode s)"

lemma sinkInv_apply: "sinkInv s \<Longrightarrow> sinkInv (snd (applyDestination opens cfg s))"
  by (auto simp: sinkInv_def applyDestination_def swapDestination_def Let_def split: if_splits)

lemma sinkInv_verbosity [simp]: "sinkInv (setVerbosity cfg s) = sinkInv s" "sinkInv (s\<lparr>skProvider := b\<rparr>) = sinkInv s"
  by (simp_all add: sinkInv_def setVerbosity_def)

lemma sinkInv_step: "sinkInv s \<Longrightarrow> sinkInv (sinkStep op s)"
proof (cases op)
  case (SinkReload opens cfg)
  assume "sinkInv s"
  from sinkInv_apply [OF this, of opens cfg] show ?thesis
    by (cases "applyDestination opens cfg s") (auto simp: SinkReload sinkReload_def split: option.splits)
next
  case SinkClose
  assume "sinkInv s"
  then show ?thesis by (auto simp: SinkClose sinkInv_def sinkClose_def swapDestination_def)
qed

lemma sinkInv_steps: "sinkInv s \<Longrightarrow> sinkInv (fold sinkStep ops s)"
  by (induction ops arbitrary: s) (simp_all add: sinkInv_step)

lemma NewSink_inv:
  assumes "NewSink opens cfg otel = Inr s"
  shows "sinkInv s" "skHTTPMode s \<longleftrightarrow> lcPort cfg \<noteq> []"
proof -
  let ?s0 = "\<lparr>skHTTPMode = (lcPort cfg \<noteq> []), skWriter = None, skFile = None, skLastLogFile = [], skApplied = False,
          skVerbosity = 0, skProvider = False, skOpen = {}, skNext = 0\<rparr>"
  have s: "s = (setVerbosity cfg (snd (applyDestination opens cfg ?s0)))\<lparr>skProvider := otel\<rparr>"
    using assms by (auto simp: NewSink_def split: prod.splits option.splits)
  have "sinkInv ?s0" by (simp add: sinkInv_def)
  then show "sinkInv s" unfolding s by (simp add: sinkInv_apply)
  show "skHTTPMode s \<longleftrightarrow> lcPort cfg \<noteq> []" unfolding s
    by (simp add: setVerbosity_def applyDestination_def swapDestination_def Let_def)
qed

lemma HTTPMode_steps [simp]: "skHTTPMode (fold sinkStep ops s) = skHTTPMode s"
proof (induction ops arbitrary: s)
  case (Cons op ops)
  have "skHTTPMode (sinkStep op s) = skHTTPMode s"
    by (cases op) (auto simp: sinkReload_def sinkClose_def applyDestination_def swapDestination_def setVerbosity_def Let_def split: option.splits)
  then show ?case using Cons by simp
qed simp

text \<open>
  C31. Through every sequence of reloads and closes a log record goes to an open destination: to the
  one log file that is open, and no other descriptor of the sink is open. A process that serves
  MCP over stdio never logs to standard output, whatever later configurations say about the port.
  A reload that cannot open its file changes nothing; one that succeeds routes to the destination
  of its configuration.
\<close>

theorem log_records_reach_an_open_destination:
  assumes "NewSink opens cfg otel = Inr s0" and "s = fold sinkStep ops s0"
  shows "(\<forall>f. sinkWrite s = LogFile f \<longrightarrow> skOpen s = {f}) \<and> card (skOpen s) \<le> 1
    \<and> (lcPort cfg = [] \<longrightarrow> sinkWrite s \<noteq> HTTPOut)
    \<and> (case sinkReload opens' cfg' s of
         (Some err, s') \<Rightarrow> s' = s
       | (None, s') \<Rightarrow> lcLogFile cfg' \<noteq> [] \<and> lcLogFile cfg' \<noteq> StderrSentinel \<longrightarrow> (\<exists>f. sinkWrite s' = LogFile f \<and> skOpen s' = {f}))"
proof -
  have inv: "sinkInv s" unfolding assms(2) by (intro sinkInv_steps NewSink_inv(1) [OF assms(1)])
  have mode: "skHTTPMode s \<longleftrightarrow> lcPort cfg \<noteq> []" using NewSink_inv(2) [OF assms(1)] assms(2) by simp
  have inv': "sinkInv (snd (sinkReload opens' cfg' s))" using sinkInv_step [OF inv, of "SinkReload opens' cfg'"] by simp
  have "case sinkReload opens' cfg' s of
         (Some err, s') \<Rightarrow> s' = s
       | (None, s') \<Rightarrow> lcLogFile cfg' \<noteq> [] \<and> lcLogFile cfg' \<noteq> StderrSentinel \<longrightarrow> (\<exists>f. sinkWrite s' = LogFile f)"
    by (auto simp: sinkReload_def applyDestination_def swapDestination_def sinkWrite_def setVerbosity_def Let_def split: if_splits)
  moreover have one: "sinkInv x \<Longrightarrow> sinkWrite x = LogFile f \<Longrightarrow> skOpen x = {f}" for x f
    by (auto simp: sinkInv_def sinkWrite_def split: option.splits)
  moreover have "card (skOpen s) \<le> 1" using inv by (cases "skFile s") (auto simp: sinkInv_def)
  moreover have "lcPort cfg = [] \<longrightarrow> sinkWrite s \<noteq> HTTPOut"
    using inv mode by (auto simp: sinkInv_def sinkWrite_def split: option.splits)
  ultimately show ?thesis using inv inv' by (auto split: prod.splits option.splits)
qed

definition stdioLog :: "string \<Rightarrow> logConfig" where
  "stdioLog path = \<lparr>lcLogFile = path, lcPort = [], lcLogLevel = 2\<rparr>"

theorem log_records_reach_an_open_destination_witness:
  "\<exists>s0. NewSink (\<lambda>_. True) (stdioLog ''a.log'') False = Inr s0
     \<and> sinkWrite (fold sinkStep [SinkReload (\<lambda>_. True) ((stdioLog [])\<lparr>lcPort := ''8080''\<rparr>)] s0) \<noteq> HTTPOut"
proof -
  obtain s0 where s0: "NewSink (\<lambda>_. True) (stdioLog ''a.log'') False = Inr s0"
    by (simp add: NewSink_def applyDestination_def StderrSentinel_def stdioLog_def Let_def)
  from log_records_reach_an_open_destination [OF s0 refl,
      of "[SinkReload (\<lambda>_. True) ((stdioLog [])\<lparr>lcPort := ''8080''\<rparr>)]" "stdioLog []" "\<lambda>_. True"] s0
  show ?thesis by (auto simp: stdioLog_def)
qed

end
