(* ===== verification/Query_Guardrails.thy ===== *)
theory Query_Guardrails
  imports Go_Prelude
begin

text \<open>
  \<open>pkg/obs/metrics/prometheus/guardrails.go\<close>: which PromQL queries the metrics tools may run. The
  PromQL parser is a parameter: it fails, or gives the vector selectors of the query in the order
  in which \<open>parser.Inspect\<close> visits them. The names that the code collects in a Go map come in the
  order of the query here; only the choice of the reported name depends on it.
\<close>

section \<open>Configuration\<close>

definition explicitName :: string where "explicitName = ''disallow-explicit-name-label''"
definition requireMatcher :: string where "requireMatcher = ''require-label-matcher''"
definition blanketRegex :: string where "blanketRegex = ''disallow-blanket-regex''"
definition metricCardinality :: string where "metricCardinality = ''max-metric-cardinality''"
definition shortcutTSDB :: string where "shortcutTSDB = ''tsdb''"

lemma guardrail_names_differ [simp]:
  "explicitName \<noteq> requireMatcher" "explicitName \<noteq> blanketRegex" "explicitName \<noteq> metricCardinality" "explicitName \<noteq> shortcutTSDB"
  "requireMatcher \<noteq> explicitName" "requireMatcher \<noteq> blanketRegex" "requireMatcher \<noteq> metricCardinality" "requireMatcher \<noteq> shortcutTSDB"
  "blanketRegex \<noteq> explicitName" "blanketRegex \<noteq> requireMatcher" "blanketRegex \<noteq> metricCardinality" "blanketRegex \<noteq> shortcutTSDB"
  "metricCardinality \<noteq> explicitName" "metricCardinality \<noteq> requireMatcher" "metricCardinality \<noteq> blanketRegex" "metricCardinality \<noteq> shortcutTSDB"
  "shortcutTSDB \<noteq> explicitName" "shortcutTSDB \<noteq> requireMatcher" "shortcutTSDB \<noteq> blanketRegex" "shortcutTSDB \<noteq> metricCardinality"
  by (simp_all add: explicitName_def requireMatcher_def blanketRegex_def metricCardinality_def shortcutTSDB_def)

record guardrails =
  grExplicitName :: bool
  grRequireMatcher :: bool
  grBlanketRegex :: bool
  grForceCardinality :: bool
  grMaxMetric :: nat
  grMaxLabel :: nat

datatype guardErr =
    MixedNames | ShortcutPositive | UnknownGuardrail string
  | NoTSDBClient | ParseFailed string | Violation string string | TSDBUnavailable string string

definition DefaultGuardrails :: "bool \<Rightarrow> guardrails" where
  "DefaultGuardrails enableAll = \<lparr>grExplicitName = enableAll, grRequireMatcher = enableAll, grBlanketRegex = enableAll,
     grForceCardinality = enableAll, grMaxMetric = 20000, grMaxLabel = 500\<rparr>"

fun guardrailNames :: "bool \<Rightarrow> string list \<Rightarrow> guardErr + string list" where
  "guardrailNames negative [] = Inr []"
| "guardrailNames negative (tok # toks) =
     (let name = trimSpace tok
      in if name = [] then guardrailNames negative toks
         else if negative \<noteq> hasPrefix name ''!'' then Inl MixedNames
         else map_sum id (\<lambda>names. trimPrefix name ''!'' # names) (guardrailNames negative toks))"

definition setGuardrail :: "bool \<Rightarrow> string \<Rightarrow> guardrails \<Rightarrow> guardErr + guardrails" where
  "setGuardrail negative name g =
     (if name = explicitName then Inr (g\<lparr>grExplicitName := \<not> negative\<rparr>)
      else if name = requireMatcher then Inr (g\<lparr>grRequireMatcher := \<not> negative\<rparr>)
      else if name = blanketRegex then Inr (g\<lparr>grBlanketRegex := \<not> negative\<rparr>)
      else if name = metricCardinality then Inr (g\<lparr>grForceCardinality := \<not> negative\<rparr>)
      else if name = shortcutTSDB then
        (if \<not> negative then Inl ShortcutPositive else Inr (g\<lparr>grForceCardinality := False, grBlanketRegex := False\<rparr>))
      else Inl (UnknownGuardrail name))"

fun setGuardrails :: "bool \<Rightarrow> string list \<Rightarrow> guardrails \<Rightarrow> guardErr + guardrails" where
  "setGuardrails negative [] g = Inr g"
| "setGuardrails negative (n # ns) g =
     (case setGuardrail negative n g of Inl err \<Rightarrow> Inl err | Inr g \<Rightarrow> setGuardrails negative ns g)"

text \<open>None is no guardrails at all.\<close>

definition ParseGuardrails :: "string \<Rightarrow> guardErr + guardrails option" where
  "ParseGuardrails v =
     (let v = trimSpace (toLower v)
      in if v = ''none'' then Inr None
         else if v = ''all'' \<or> v = [] then Inr (Some (DefaultGuardrails True))
         else
           let negative = CHR ''!'' \<in> set v
           in (case guardrailNames negative (goSplit CHR '','' v) of
                 Inl err \<Rightarrow> Inl err
               | Inr names \<Rightarrow> map_sum id Some (setGuardrails negative names (DefaultGuardrails negative))))"

section \<open>Queries\<close>

datatype matchType = MatchEqual | MatchNotEqual | MatchRegexp | MatchNotRegexp

record labelMatcher =
  lmName :: string
  lmType :: matchType
  lmValue :: string

record vectorSelector =
  vsName :: string
  vsMatchers :: "labelMatcher list"

record tsdbStats =
  tdSeriesCount :: "(string \<times> nat) list"
  tdLabelValues :: "(string \<times> nat) list"

definition MetricNameLabel :: string where "MetricNameLabel = ''__name__''"

text \<open>The walk over the selectors stops at the first violation.\<close>

fun inspectSelectors :: "guardrails \<Rightarrow> vectorSelector list \<Rightarrow> guardErr option" where
  "inspectSelectors g [] = None"
| "inspectSelectors g (vs # rest) =
     (if grExplicitName g \<and> vsName vs = [] \<and> list_ex (\<lambda>m. lmName m = MetricNameLabel) (vsMatchers vs)
        then Some (Violation explicitName [])
      else if grRequireMatcher g \<and> \<not> list_ex (\<lambda>m. lmName m \<noteq> MetricNameLabel) (vsMatchers vs)
        then Some (Violation requireMatcher (vsName vs))
      else inspectSelectors g rest)"

definition ExtractMetricNames :: "vectorSelector list \<Rightarrow> string list" where
  "ExtractMetricNames sels =
     remdups (concat (map (\<lambda>vs. (if vsName vs \<noteq> [] then [vsName vs] else [])
       @ map lmValue (filter (\<lambda>m. lmName m = MetricNameLabel \<and> lmType m = MatchEqual) (vsMatchers vs))) sels))"

definition isBlanket :: "labelMatcher \<Rightarrow> bool" where
  "isBlanket m \<longleftrightarrow> (lmType m = MatchRegexp \<or> lmType m = MatchNotRegexp) \<and> (lmValue m = ''.*'' \<or> lmValue m = ''.+'')"

definition ExtractBlanketRegexLabels :: "vectorSelector list \<Rightarrow> string list" where
  "ExtractBlanketRegexLabels sels = remdups (concat (map (\<lambda>vs. map lmName (filter isBlanket (vsMatchers vs))) sels))"

text \<open>The counts that the server reports, the last one of a name; the first name that is over the limit.\<close>

definition overLimit :: "(string \<times> nat) list \<Rightarrow> nat \<Rightarrow> string list \<Rightarrow> string option" where
  "overLimit stats limit names =
     List.find (\<lambda>n. case map_of (rev stats) n of None \<Rightarrow> False | Some count \<Rightarrow> count > limit) names"

text \<open>
  The two checks that need statistics. \<open>client\<close> is nil, or answers with an error or the statistics;
  it is not nil where it is asked.
\<close>

definition checkMetricCardinality :: "guardrails \<Rightarrow> (string + tsdbStats) option \<Rightarrow> vectorSelector list \<Rightarrow> guardErr option" where
  "checkMetricCardinality g client sels =
     (if grForceCardinality g \<and> ExtractMetricNames sels \<noteq> [] then
        (case the client of
           Inl err \<Rightarrow> Some (TSDBUnavailable metricCardinality err)
         | Inr stats \<Rightarrow> map_option (Violation metricCardinality)
             (overLimit (tdSeriesCount stats) (grMaxMetric g) (ExtractMetricNames sels)))
      else None)"

definition checkBlanketRegex :: "guardrails \<Rightarrow> (string + tsdbStats) option \<Rightarrow> vectorSelector list \<Rightarrow> guardErr option" where
  "checkBlanketRegex g client sels =
     (if grBlanketRegex g \<and> ExtractBlanketRegexLabels sels \<noteq> [] then
        (if grMaxLabel g = 0 then Some (Violation blanketRegex (hd (ExtractBlanketRegexLabels sels)))
         else (case the client of
             Inl err \<Rightarrow> Some (TSDBUnavailable blanketRegex err)
           | Inr stats \<Rightarrow> map_option (Violation blanketRegex)
               (overLimit (tdLabelValues stats) (grMaxLabel g) (ExtractBlanketRegexLabels sels))))
      else None)"

definition IsSafeQuery ::
    "(string \<Rightarrow> string + vectorSelector list) \<Rightarrow> guardrails \<Rightarrow> (string + tsdbStats) option \<Rightarrow> string \<Rightarrow> guardErr option" where
  "IsSafeQuery parse g client query =
     (if ((grBlanketRegex g \<and> grMaxLabel g > 0) \<or> grForceCardinality g) \<and> client = None then Some NoTSDBClient
      else (case parse query of
          Inl err \<Rightarrow> Some (ParseFailed err)
        | Inr sels \<Rightarrow>
            (case inspectSelectors g sels of
               Some v \<Rightarrow> Some v
             | None \<Rightarrow>
                 (case checkMetricCardinality g client sels of
                    Some err \<Rightarrow> Some err
                  | None \<Rightarrow> checkBlanketRegex g client sels))))"

section \<open>What the configuration enables\<close>

definition enabled :: "guardrails \<Rightarrow> string \<Rightarrow> bool" where
  "enabled g r \<longleftrightarrow> r = explicitName \<and> grExplicitName g \<or> r = requireMatcher \<and> grRequireMatcher g
     \<or> r = blanketRegex \<and> grBlanketRegex g \<or> r = metricCardinality \<and> grForceCardinality g"

definition knownGuardrails :: "string list" where
  "knownGuardrails = [explicitName, requireMatcher, blanketRegex, metricCardinality]"

text \<open>The guardrails that a name stands for.\<close>

definition standsFor :: "string \<Rightarrow> string set" where
  "standsFor n = (if n = shortcutTSDB then {blanketRegex, metricCardinality} else {n})"

lemma setGuardrail_enabled:
  "setGuardrail negative n g = Inr g' \<Longrightarrow> r \<in> set knownGuardrails \<Longrightarrow>
     enabled g' r = (if r \<in> standsFor n then \<not> negative else enabled g r)
   \<and> grMaxMetric g' = grMaxMetric g \<and> grMaxLabel g' = grMaxLabel g"
  by (auto simp: setGuardrail_def enabled_def standsFor_def knownGuardrails_def split: if_splits)

lemma setGuardrails_enabled:
  "setGuardrails negative ns g = Inr g' \<Longrightarrow> r \<in> set knownGuardrails \<Longrightarrow>
     enabled g' r = (if \<exists>n \<in> set ns. r \<in> standsFor n then \<not> negative else enabled g r)
   \<and> grMaxMetric g' = grMaxMetric g \<and> grMaxLabel g' = grMaxLabel g"
proof (induction negative ns g rule: setGuardrails.induct)
  case (2 negative n ns g)
  then obtain g1 where g1: "setGuardrail negative n g = Inr g1" "setGuardrails negative ns g1 = Inr g'" by (auto split: sum.splits)
  from "2.IH" [OF g1(1) this(2) "2.prems"(2)] setGuardrail_enabled [OF g1(1) "2.prems"(2)] show ?case by auto
qed simp

text \<open>
  A list of guardrail names means what it says: names with an exclamation mark disable these
  guardrails of the full set, names without one enable just these, !tsdb stands for the two
  that need the TSDB statistics, and the thresholds are the default ones.
\<close>

lemma guardrail_list_means_what_it_says:
  assumes "ParseGuardrails v = Inr (Some g)" and "w = trimSpace (toLower v)" and "w \<noteq> ''all''" and "w \<noteq> []"
    and "r \<in> set knownGuardrails"
  shows "\<exists>names. guardrailNames (CHR ''!'' \<in> set w) (goSplit CHR '','' w) = Inr names
    \<and> (enabled g r \<longleftrightarrow> (if CHR ''!'' \<in> set w then \<forall>n \<in> set names. r \<notin> standsFor n else \<exists>n \<in> set names. r \<in> standsFor n))
    \<and> grMaxMetric g = 20000 \<and> grMaxLabel g = 500"
proof -
  let ?neg = "CHR ''!'' \<in> set w"
  from assms(1-4) obtain names where names: "guardrailNames ?neg (goSplit CHR '','' w) = Inr names"
      "setGuardrails ?neg names (DefaultGuardrails ?neg) = Inr g"
    by (auto simp: ParseGuardrails_def Let_def map_sum_def split: if_splits sum.splits)
  have "enabled (DefaultGuardrails b) r \<longleftrightarrow> b" for b using assms(5) by (auto simp: enabled_def DefaultGuardrails_def knownGuardrails_def)
  with setGuardrails_enabled [OF names(2) assms(5)] names(1) show ?thesis by (auto simp: DefaultGuardrails_def)
qed

section \<open>What a query must satisfy\<close>

definition selectorsOk :: "guardrails \<Rightarrow> vectorSelector list \<Rightarrow> bool" where
  "selectorsOk g sels \<longleftrightarrow> (\<forall>vs \<in> set sels.
     (grExplicitName g \<and> vsName vs = [] \<longrightarrow> (\<forall>m \<in> set (vsMatchers vs). lmName m \<noteq> MetricNameLabel))
     \<and> (grRequireMatcher g \<longrightarrow> (\<exists>m \<in> set (vsMatchers vs). lmName m \<noteq> MetricNameLabel)))"

definition withinLimit :: "(string \<times> nat) list \<Rightarrow> nat \<Rightarrow> string list \<Rightarrow> bool" where
  "withinLimit stats limit names \<longleftrightarrow> (\<forall>n \<in> set names. \<forall>c. map_of (rev stats) n = Some c \<longrightarrow> c \<le> limit)"

lemma inspectSelectors_None: "inspectSelectors g sels = None \<longleftrightarrow> selectorsOk g sels"
  by (induction g sels rule: inspectSelectors.induct) (auto simp: list_ex_iff selectorsOk_def)

lemma overLimit_None:
  "overLimit stats limit names = None \<longleftrightarrow> withinLimit stats limit names"
  by (auto simp: withinLimit_def overLimit_def find_None_iff split: option.splits) (metis not_le option.simps(5))

text \<open>
  C24. A query passes exactly if it parses and every enabled guardrail holds: no explicit metric
  name label, a label matcher in every selector, no metric whose reported series are over the
  limit, and no blanket regular expression on a label whose reported values are over the limit
  (on any label when the limit is zero). A guardrail that needs the statistics fails closed
  without them.
\<close>

theorem query_passes_iff_guardrails_hold:
  "IsSafeQuery parse g client query = None \<longleftrightarrow>
     (client = None \<longrightarrow> \<not> grForceCardinality g \<and> (grBlanketRegex g \<longrightarrow> grMaxLabel g = 0))
     \<and> (\<exists>sels. parse query = Inr sels \<and> selectorsOk g sels
        \<and> (grForceCardinality g \<longrightarrow> ExtractMetricNames sels = []
           \<or> (\<exists>stats. client = Some (Inr stats) \<and> withinLimit (tdSeriesCount stats) (grMaxMetric g) (ExtractMetricNames sels)))
        \<and> (grBlanketRegex g \<longrightarrow> ExtractBlanketRegexLabels sels = []
           \<or> grMaxLabel g > 0 \<and> (\<exists>stats. client = Some (Inr stats)
               \<and> withinLimit (tdLabelValues stats) (grMaxLabel g) (ExtractBlanketRegexLabels sels))))"
proof (cases "((grBlanketRegex g \<and> grMaxLabel g > 0) \<or> grForceCardinality g) \<and> client = None")
  case True
  then show ?thesis by (auto simp: IsSafeQuery_def)
next
  case client: False
  have metrics: "checkMetricCardinality g client sels = None \<longleftrightarrow> (grForceCardinality g \<longrightarrow> ExtractMetricNames sels = []
      \<or> (\<exists>stats. client = Some (Inr stats) \<and> withinLimit (tdSeriesCount stats) (grMaxMetric g) (ExtractMetricNames sels)))" for sels
    using client by (cases client; cases "the client") (auto simp: checkMetricCardinality_def overLimit_None)
  have regex: "checkBlanketRegex g client sels = None \<longleftrightarrow> (grBlanketRegex g \<longrightarrow> ExtractBlanketRegexLabels sels = []
      \<or> grMaxLabel g > 0 \<and> (\<exists>stats. client = Some (Inr stats)
          \<and> withinLimit (tdLabelValues stats) (grMaxLabel g) (ExtractBlanketRegexLabels sels)))" for sels
    using client by (cases client; cases "the client") (auto simp: checkBlanketRegex_def overLimit_None)
  have "IsSafeQuery parse g client query = None \<longleftrightarrow> (\<exists>sels. parse query = Inr sels \<and> inspectSelectors g sels = None
      \<and> checkMetricCardinality g client sels = None \<and> checkBlanketRegex g client sels = None)"
    unfolding IsSafeQuery_def if_not_P [OF client] by (auto split: sum.splits option.splits)
  also have "\<dots> \<longleftrightarrow> (client = None \<longrightarrow> \<not> grForceCardinality g \<and> (grBlanketRegex g \<longrightarrow> grMaxLabel g = 0))
      \<and> (\<exists>sels. parse query = Inr sels \<and> inspectSelectors g sels = None
      \<and> checkMetricCardinality g client sels = None \<and> checkBlanketRegex g client sels = None)"
    using client by auto
  finally show ?thesis unfolding metrics regex inspectSelectors_None .
qed

section \<open>Examples\<close>

definition exampleQuery :: "string \<Rightarrow> string + vectorSelector list" where
  "exampleQuery q = Inr [\<lparr>vsName = q, vsMatchers = [\<lparr>lmName = ''pod'', lmType = MatchRegexp, lmValue = ''.*''\<rparr>]\<rparr>]"

theorem query_passes_iff_guardrails_hold_witness:
  "IsSafeQuery exampleQuery (DefaultGuardrails True) (Some (Inr \<lparr>tdSeriesCount = [(''up'', 7)], tdLabelValues = [(''pod'', 500)]\<rparr>)) ''up'' = None
   \<and> IsSafeQuery exampleQuery (DefaultGuardrails True) (Some (Inr \<lparr>tdSeriesCount = [(''up'', 7)], tdLabelValues = [(''pod'', 501)]\<rparr>)) ''up'' \<noteq> None"
  unfolding query_passes_iff_guardrails_hold
  by (auto simp: exampleQuery_def DefaultGuardrails_def selectorsOk_def withinLimit_def MetricNameLabel_def
      ExtractMetricNames_def ExtractBlanketRegexLabels_def isBlanket_def)

end
