(* ===== verification/Go_Utf8.thy ===== *)
theory Go_Utf8
  imports Go_Prelude "HOL-Library.Multiset"
begin

text \<open>
  The parts of Go's \<open>unicode/utf8\<close>, \<open>strings\<close> and \<open>encoding/json\<close> packages that bound texts by
  runes or by encoded size: decoding of one rune, validity, \<open>strings.ToValidUTF8\<close>, and the
  JSON text of strings, numbers, arrays and objects. A string is its bytes.
\<close>

section \<open>Runes\<close>

abbreviation byteOf :: "char \<Rightarrow> nat" where "byteOf c \<equiv> of_char c"

text \<open>Of a leading byte above 0x7F: the size of the rune and the range of the second byte.\<close>

definition leadInfo :: "nat \<Rightarrow> (nat \<times> nat \<times> nat) option" where
  "leadInfo b =
     (if 0xC2 \<le> b \<and> b \<le> 0xDF then Some (2, 0x80, 0xBF)
      else if b = 0xE0 then Some (3, 0xA0, 0xBF)
      else if b = 0xED then Some (3, 0x80, 0x9F)
      else if 0xE1 \<le> b \<and> b \<le> 0xEF then Some (3, 0x80, 0xBF)
      else if b = 0xF0 then Some (4, 0x90, 0xBF)
      else if 0xF1 \<le> b \<and> b \<le> 0xF3 then Some (4, 0x80, 0xBF)
      else if b = 0xF4 then Some (4, 0x80, 0x8F)
      else None)"

definition isCont :: "char \<Rightarrow> bool" where
  "isCont c \<longleftrightarrow> 0x80 \<le> byteOf c \<and> byteOf c \<le> 0xBF"

text \<open>The size of the well-formed rune at the start of a text, 0 where there is none.\<close>

fun runeLen :: "string \<Rightarrow> nat" where
  "runeLen [] = 0"
| "runeLen (c # cs) =
     (if byteOf c < 0x80 then 1
      else (case (leadInfo (byteOf c), cs) of
              (Some (n, lo, hi), d # ds) \<Rightarrow>
                if lo \<le> byteOf d \<and> byteOf d \<le> hi \<and> n - 2 \<le> length ds \<and> list_all isCont (take (n - 2) ds) then n else 0
            | _ \<Rightarrow> 0))"

text \<open>The steps of a decoding loop: a byte that starts no rune is a step of one byte.\<close>

function runes :: "string \<Rightarrow> string list" where
  "runes [] = []"
| "runes (c # cs) = (let n = max 1 (runeLen (c # cs)) in take n (c # cs) # runes (drop n (c # cs)))"
  by pat_completeness auto

termination
  by (relation "measure length") (auto simp: max_def)

definition isRune :: "string \<Rightarrow> bool" where
  "isRune r \<longleftrightarrow> r \<noteq> [] \<and> runeLen r = length r"

definition utf8Valid :: "string \<Rightarrow> bool" where
  "utf8Valid s \<longleftrightarrow> list_all isRune (runes s)"

text \<open>The replacement character, U+FFFD; a run of bytes that start no rune becomes one of it.\<close>

definition replacementChar :: string where
  "replacementChar = [char_of (0xEF :: nat), char_of (0xBF :: nat), char_of (0xBD :: nat)]"

fun replaceRuns :: "bool \<Rightarrow> string list \<Rightarrow> string list" where
  "replaceRuns invalid [] = []"
| "replaceRuns invalid (r # rs) =
     (if isRune r then r # replaceRuns False rs
      else (if invalid then [] else [replacementChar]) @ replaceRuns True rs)"

definition toValidUTF8 :: "string \<Rightarrow> string" where
  "toValidUTF8 s = concat (replaceRuns False (runes s))"

lemma leadInfo_size: "leadInfo b = Some (n, lo, hi) \<Longrightarrow> 2 \<le> n \<and> n \<le> 4"
  by (auto simp: leadInfo_def split: if_splits)

lemma runeLen_le: "runeLen s \<le> length s"
  by (cases s) (auto split: option.splits list.splits dest: leadInfo_size)

lemma runeLen_le_4: "runeLen s \<le> 4"
  by (cases s) (auto split: option.splits list.splits dest: leadInfo_size)

lemma runeLen_take_append: "n = runeLen s \<Longrightarrow> runeLen s \<noteq> 0 \<Longrightarrow> runeLen (take n s @ t) = n"
proof (cases s)
  case (Cons c cs)
  assume n: "n = runeLen s" "runeLen s \<noteq> 0"
  show ?thesis
  proof (cases "byteOf c < 0x80")
    case False
    then obtain m lo hi d ds where l: "leadInfo (byteOf c) = Some (m, lo, hi)" and cs: "cs = d # ds"
      and c: "lo \<le> byteOf d" "byteOf d \<le> hi" "m - 2 \<le> length ds" "list_all isCont (take (m - 2) ds)"
      using n Cons by (auto split: option.splits list.splits if_splits)
    have m: "n = m" "2 \<le> m" using n Cons False l cs c leadInfo_size [OF l] by simp_all
    then obtain k where k: "m = Suc (Suc k)" by (metis Suc_le_D numeral_2_eq_2 Suc_le_mono)
    show ?thesis using False l c m k Cons cs by simp
  qed (use n Cons in simp)
qed simp

lemma isRune_append: "isRune r \<Longrightarrow> runeLen (r @ s) = length r"
  using runeLen_take_append [of "length r" r s] by (simp add: isRune_def)

lemma isRune_length: "isRune r \<Longrightarrow> 0 < length r \<and> length r \<le> 4"
  using runeLen_le_4 [of r] by (auto simp: isRune_def)

lemma isRune_ascii [simp]: "isRune [c] \<longleftrightarrow> byteOf c < 0x80"
  by (auto simp: isRune_def split: option.splits)

lemma isRune_replacementChar [simp]: "isRune replacementChar"
  by (simp add: isRune_def replacementChar_def leadInfo_def isCont_def)

lemma runes_append_rune: "isRune r \<Longrightarrow> runes (r @ s) = r # runes s"
proof -
  assume r: "isRune r"
  then obtain c cs where c: "r = c # cs" by (cases r) (auto simp: isRune_def)
  have n: "max 1 (runeLen (c # cs @ s)) = length r" using isRune_append [OF r, of s] isRune_length [OF r] c by simp
  show ?thesis using n by (simp add: c Let_def del: runeLen.simps)
qed

lemma runes_concat: "list_all isRune rs \<Longrightarrow> runes (concat rs) = rs"
  by (induction rs) (auto simp: runes_append_rune)

lemma concat_runes [simp]: "concat (runes s) = s"
  by (induction s rule: runes.induct) (auto simp: Let_def simp del: runeLen.simps)

lemma runes_not_Nil: "r \<in> set (runes s) \<Longrightarrow> r \<noteq> []"
  by (induction s rule: runes.induct) (auto simp: Let_def simp del: runeLen.simps)

lemma utf8Valid_iff: "utf8Valid s \<longleftrightarrow> (\<exists>rs. list_all isRune rs \<and> s = concat rs)"
  by (metis concat_runes runes_concat utf8Valid_def)

lemma utf8Valid_concat: "list_all isRune rs \<Longrightarrow> utf8Valid (concat rs)"
  by (auto simp: utf8Valid_iff)

lemma utf8Valid_Nil [simp]: "utf8Valid []"
  by (simp add: utf8Valid_def)

lemma utf8Valid_append: "utf8Valid s \<Longrightarrow> utf8Valid t \<Longrightarrow> utf8Valid (s @ t)"
  unfolding utf8Valid_iff by (metis concat_append list_all_append)

lemma utf8Valid_ascii: "list_all (\<lambda>c. byteOf c < 0x80) s \<Longrightarrow> utf8Valid s"
proof -
  assume "list_all (\<lambda>c. byteOf c < 0x80) s"
  then have "list_all isRune (map (\<lambda>c. [c]) s)" by (auto simp: list_all_iff)
  from utf8Valid_concat [OF this] show ?thesis by (simp add: concat_map_singleton)
qed

lemma replaceRuns_all_runes: "list_all isRune (replaceRuns i rs)"
  by (induction i rs rule: replaceRuns.induct) auto

lemma toValidUTF8_valid [simp]: "utf8Valid (toValidUTF8 s)"
  by (simp add: toValidUTF8_def utf8Valid_concat replaceRuns_all_runes)

lemma replaceRuns_id: "list_all isRune rs \<Longrightarrow> replaceRuns i rs = rs"
  by (induction i rs rule: replaceRuns.induct) auto

lemma toValidUTF8_id: "utf8Valid s \<Longrightarrow> toValidUTF8 s = s"
  by (simp add: toValidUTF8_def utf8Valid_def replaceRuns_id)

lemma runes_toValidUTF8: "runes (toValidUTF8 s) = replaceRuns False (runes s)"
  by (simp add: toValidUTF8_def runes_concat replaceRuns_all_runes)

lemma list_all_take: "list_all P xs \<Longrightarrow> list_all P (take n xs)"
  by (metis append_take_drop_id list_all_append)

lemma runes_concat_append: "list_all isRune rs \<Longrightarrow> runes (concat rs @ t) = rs @ runes t"
  by (induction rs) (auto simp: runes_append_rune)

lemma runes_append_valid: "utf8Valid s \<Longrightarrow> runes (s @ t) = runes s @ runes t"
  using runes_concat_append [of "runes s" t] by (simp add: utf8Valid_def)

lemma length_runes_le: "length (runes s) \<le> length s"
proof (induction s rule: runes.induct)
  case (2 c cs)
  from "2" [OF refl] have "length (runes (drop (max 1 (runeLen (c # cs))) (c # cs))) \<le> length cs"
    by (rule order_trans) (auto simp: max_def)
  then show ?case by (simp add: Let_def del: runeLen.simps)
qed simp

section \<open>JSON texts\<close>

definition hexDigit :: "nat \<Rightarrow> char" where
  "hexDigit n = (if n < 10 then char_of (48 + n) else char_of (87 + n))"

text \<open>
  \<open>encoding/json\<close> escapes the quote and the backslash, the control characters, the three
  characters of HTML and the two line separators; a byte that starts no rune is \<open>\ufffd\<close>.
\<close>

definition escapeAscii :: "char \<Rightarrow> string" where
  "escapeAscii c =
     (let b = byteOf c
      in if b = 34 \<or> b = 92 then [CHR 0x5C, c]
         else if b = 8 then [CHR 0x5C, CHR ''b''] else if b = 12 then [CHR 0x5C, CHR ''f'']
         else if b = 10 then [CHR 0x5C, CHR ''n''] else if b = 13 then [CHR 0x5C, CHR ''r'']
         else if b = 9 then [CHR 0x5C, CHR ''t'']
         else if b < 32 \<or> b = 60 \<or> b = 62 \<or> b = 38
           then [CHR 0x5C, CHR ''u'', CHR ''0'', CHR ''0'', hexDigit (b div 16), hexDigit (b mod 16)]
         else [c])"

definition escapeRune :: "string \<Rightarrow> string" where
  "escapeRune r =
     (if \<not> isRune r then CHR 0x5C # ''ufffd''
      else if length r = 1 then escapeAscii (hd r)
      else if r = [char_of (0xE2 :: nat), char_of (0x80 :: nat), char_of (0xA8 :: nat)] then CHR 0x5C # ''u2028''
      else if r = [char_of (0xE2 :: nat), char_of (0x80 :: nat), char_of (0xA9 :: nat)] then CHR 0x5C # ''u2029''
      else r)"

definition jsonString :: "string \<Rightarrow> string" where
  "jsonString s = CHR 0x22 # concat (map escapeRune (runes s)) @ [CHR 0x22]"

definition jsonInt :: "int \<Rightarrow> string" where
  "jsonInt n = (if n < 0 then CHR ''-'' # goItoa (nat (- n)) else goItoa (nat n))"

definition jsonBool :: "bool \<Rightarrow> string" where
  "jsonBool b = (if b then ''true'' else ''false'')"

definition jsonArray :: "string list \<Rightarrow> string" where
  "jsonArray xs = CHR ''['' # goJoin '','' xs @ '']''"

definition jsonObject :: "(string \<times> string) list \<Rightarrow> string" where
  "jsonObject fs = CHR ''{'' # goJoin '','' (map (\<lambda>(k, v). jsonString k @ CHR '':'' # v) fs) @ ''}''"

text \<open>A field whose tag says \<open>omitempty\<close>.\<close>

definition omitEmpty :: "bool \<Rightarrow> string \<Rightarrow> string \<Rightarrow> (string \<times> string) list" where
  "omitEmpty isEmpty k v = (if isEmpty then [] else [(k, v)])"

lemma length_escapeAscii: "length (escapeAscii c) \<le> 6"
  by (simp add: escapeAscii_def Let_def)

lemma length_escapeRune: "r \<noteq> [] \<Longrightarrow> length (escapeRune r) \<le> 6 * length r"
  using length_escapeAscii [of "hd r"] by (cases r) (auto simp: escapeRune_def)

lemma length_jsonString: "length (jsonString s) \<le> 2 + 6 * length s"
proof -
  have "sum_list (map (\<lambda>r. length (escapeRune r)) (runes s)) \<le> sum_list (map (\<lambda>r. 6 * length r) (runes s))"
    by (intro sum_list_mono length_escapeRune runes_not_Nil)
  also have "\<dots> = 6 * length (concat (runes s))"
    unfolding length_concat sum_list_const_mult by simp
  finally show ?thesis by (simp add: jsonString_def length_concat o_def)
qed

definition joinedLength :: "nat list \<Rightarrow> nat" where
  "joinedLength ns = sum_list ns + (length ns - 1)"

lemma length_goJoin1: "length sep = 1 \<Longrightarrow> length (goJoin sep xs) = joinedLength (map length xs)"
  by (induction sep xs rule: goJoin.induct) (auto simp: joinedLength_def)

lemma length_jsonArray: "length (jsonArray xs) = 2 + joinedLength (map length xs)"
  by (simp add: jsonArray_def length_goJoin1)

lemma length_jsonObject: "length (jsonObject fs) = 2 + joinedLength (map (\<lambda>(k, v). length (jsonString k) + 1 + length v) fs)"
  by (simp add: jsonObject_def length_goJoin1 o_def case_prod_unfold)

lemma joinedLength_append: "joinedLength (xs @ ys) =
    joinedLength xs + joinedLength ys + (if xs = [] \<or> ys = [] then 0 else 1)"
  by (cases xs; cases ys) (auto simp: joinedLength_def)

lemma joinedLength_perm: "mset xs = mset ys \<Longrightarrow> joinedLength xs = joinedLength ys"
  unfolding joinedLength_def by (metis mset_eq_length sum_mset_sum_list)

end
