(* ===== verification/Tekton_Base.thy ===== *)
theory Tekton_Base
  imports Tool_Requests Response_Limit Go_Utf8
begin

text \<open>
  What the files of \<open>pkg/toolsets/tekton\<close> share: the resources of \<open>params.go\<close>, the typed objects
  they read, the requests they send, the paged list of a PipelineRun's TaskRuns
  (\<open>pipelinerun.go\<close>), the bounded reading of a container's log (\<open>taskrun.go\<close>), and the failed
  steps and event targets of \<open>pipeline_troubleshoot.go\<close>. The API server, the conversions between
  typed and unstructured objects, selectors, YAML,
  Go-syntax quoting (\<open>%q\<close>) and the clock are parameters.
\<close>

section \<open>Resources and objects\<close>

type_synonym kubeObj = goMap

definition tektonGVR :: "string \<Rightarrow> groupVersionResource" where
  "tektonGVR r = \<lparr>gvrGroup = ''tekton.dev'', gvrVersion = ''v1'', gvrResource = r\<rparr>"

definition pipelineGVR :: groupVersionResource where "pipelineGVR = tektonGVR ''pipelines''"
definition pipelineRunGVR :: groupVersionResource where "pipelineRunGVR = tektonGVR ''pipelineruns''"
definition taskGVR :: groupVersionResource where "taskGVR = tektonGVR ''tasks''"
definition taskRunGVR :: groupVersionResource where "taskRunGVR = tektonGVR ''taskruns''"

definition pacRepositoryGVR :: groupVersionResource where
  "pacRepositoryGVR = \<lparr>gvrGroup = ''pipelinesascode.tekton.dev'', gvrVersion = ''v1alpha1'', gvrResource = ''repositories''\<rparr>"

definition tektonConfigGVR :: groupVersionResource where
  "tektonConfigGVR = \<lparr>gvrGroup = ''operator.tekton.dev'', gvrVersion = ''v1alpha1'', gvrResource = ''tektonconfigs''\<rparr>"

record terminatedState =
  tsExitCode :: int
  tsReason :: string
  tsMessage :: string

record waitingState =
  wsReason :: string
  wsMessage :: string

record stepState =
  ssName :: string
  ssContainer :: string
  ssTerminated :: "terminatedState option"
  ssWaiting :: "waitingState option"
  ssRunning :: bool

record knativeCondition =
  kcType :: string
  kcStatus :: string
  kcReason :: string
  kcMessage :: string

datatype paramValue = PString string | PArray "string list" | PObject "(string \<times> string) list"

text \<open>The spec of a run: the fields the tools set, and the rest of it as it is.\<close>

record runSpec =
  rsRef :: "string option"
  rsParams :: "(string \<times> paramValue) list"
  rsStatus :: string
  rsRest :: kubeObj

record taskRun =
  tkName :: string
  tkUID :: string
  tkGenerateName :: string
  tkLabels :: "string \<rightharpoonup> string"
  tkSpec :: runSpec
  tkPodName :: string
  tkConditions :: "knativeCondition list"
  tkSteps :: "stepState list"
  tkSidecars :: "(string \<times> string) list"

record pipelineRun =
  prName :: string
  prUID :: string
  prGenerateName :: string
  prSpec :: runSpec
  prConditions :: "knativeCondition list"

text \<open>A run that a tool creates.\<close>

record newRun =
  nrKind :: string
  nrNamespace :: string
  nrGenerateName :: string
  nrSpec :: runSpec

record coreEvent =
  evType :: string
  evUID :: string
  evNamespace :: string
  evName :: string
  evKind :: string
  evObject :: string
  evReason :: string
  evMessage :: string
  evCount :: int

section \<open>Requests\<close>

datatype tektonOp =
    TGet groupVersionResource string string
  | TList groupVersionResource string string int string
  | TCreate groupVersionResource string kubeObj
  | TPatch groupVersionResource string string string
  | TLogs string string string int
  | TEvents string string int

record tektonEnv =
  teNamespace :: string
  teOob :: "goFloat \<Rightarrow> int"
  teGet :: "tektonOp list \<Rightarrow> groupVersionResource \<Rightarrow> string \<Rightarrow> string \<Rightarrow> string + kubeObj"
  teList :: "tektonOp list \<Rightarrow> groupVersionResource \<Rightarrow> string \<Rightarrow> string \<Rightarrow> int \<Rightarrow> string \<Rightarrow> string + kubeObj list \<times> string"
  teCreate :: "tektonOp list \<Rightarrow> groupVersionResource \<Rightarrow> string \<Rightarrow> kubeObj \<Rightarrow> string + kubeObj"
  tePatch :: "tektonOp list \<Rightarrow> groupVersionResource \<Rightarrow> string \<Rightarrow> string \<Rightarrow> string \<Rightarrow> string + kubeObj"
  teLogs :: "tektonOp list \<Rightarrow> string \<Rightarrow> string \<Rightarrow> string \<Rightarrow> int \<Rightarrow> string + event list"
  teEvents :: "tektonOp list \<Rightarrow> string \<Rightarrow> string \<Rightarrow> int \<Rightarrow> string + coreEvent list \<times> string"
  teTaskRunOf :: "kubeObj \<Rightarrow> string + taskRun"
  tePipelineRunOf :: "kubeObj \<Rightarrow> string + pipelineRun"
  teUnstructured :: "newRun \<Rightarrow> string + kubeObj"
  teNameOf :: "kubeObj \<Rightarrow> string"
  teUIDOf :: "kubeObj \<Rightarrow> string"
  teNestedMap :: "kubeObj \<Rightarrow> string list \<Rightarrow> string + kubeObj option"
  teNestedString :: "kubeObj \<Rightarrow> string list \<Rightarrow> string + string option"
  teNestedSlice :: "kubeObj \<Rightarrow> string list \<Rightarrow> goVal list option"
  teLabelSelector :: "(string \<times> string) list \<Rightarrow> string + string"
  teFieldSelector :: "(string \<times> string) list \<Rightarrow> string"
  tePipelineRunLabel :: string
  tePipelineTaskLabel :: string
  teCancelled :: string
  teControlledBy :: "taskRun \<Rightarrow> string \<Rightarrow> bool"
  teSucceededFalse :: "taskRun \<Rightarrow> bool"
  teTaskRunJson :: "taskRun \<Rightarrow> string option"
  teYamlMap :: "kubeObj \<Rightarrow> string + string"
  teYamlList :: "kubeObj list \<Rightarrow> string + string"
  teYamlStatus :: "taskRun \<Rightarrow> string + string"
  teYamlEvent :: "coreEvent \<Rightarrow> string + string"
  teNow :: string
  teIoText :: "ioErr \<Rightarrow> string"
  teQuote :: "string \<Rightarrow> string"

text \<open>The authorization request that the API server sees.\<close>

definition groupedRequest :: "string \<Rightarrow> groupVersionResource \<Rightarrow> string \<Rightarrow> string \<Rightarrow> kubeRequest" where
  "groupedRequest verb gvr ns name =
     \<lparr>krVerb = verb, krGroup = gvrGroup gvr, krResource = gvrResource gvr, krSubresource = [], krNamespace = ns, krName = name\<rparr>"

definition podLogRequest :: "string \<Rightarrow> string \<Rightarrow> kubeRequest" where
  "podLogRequest ns pod =
     \<lparr>krVerb = ''get'', krGroup = [], krResource = ''pods'', krSubresource = ''log'', krNamespace = ns, krName = pod\<rparr>"

definition eventListRequest :: "string \<Rightarrow> kubeRequest" where
  "eventListRequest ns =
     \<lparr>krVerb = ''list'', krGroup = [], krResource = ''events'', krSubresource = [], krNamespace = ns, krName = []\<rparr>"

fun tektonRequest :: "tektonOp \<Rightarrow> kubeRequest" where
  "tektonRequest (TGet gvr ns name) = groupedRequest ''get'' gvr ns name"
| "tektonRequest (TList gvr ns sel limit cont) = groupedRequest ''list'' gvr ns []"
| "tektonRequest (TCreate gvr ns obj) = groupedRequest ''create'' gvr ns []"
| "tektonRequest (TPatch gvr ns name patch) = groupedRequest ''patch'' gvr ns name"
| "tektonRequest (TLogs ns pod container tail) = podLogRequest ns pod"
| "tektonRequest (TEvents ns sel limit) = eventListRequest ns"

text \<open>Every call returns its answer and the log of requests with its own at the end.\<close>

type_synonym 'a asking = "tektonOp list \<Rightarrow> 'a \<times> tektonOp list"

definition askGet :: "tektonEnv \<Rightarrow> groupVersionResource \<Rightarrow> string \<Rightarrow> string \<Rightarrow> (string + kubeObj) asking" where
  "askGet env gvr ns name l = (teGet env l gvr ns name, l @ [TGet gvr ns name])"

definition askList :: "tektonEnv \<Rightarrow> groupVersionResource \<Rightarrow> string \<Rightarrow> string \<Rightarrow> int \<Rightarrow> string \<Rightarrow> (string + kubeObj list \<times> string) asking" where
  "askList env gvr ns sel limit cont l = (teList env l gvr ns sel limit cont, l @ [TList gvr ns sel limit cont])"

definition askCreate :: "tektonEnv \<Rightarrow> groupVersionResource \<Rightarrow> string \<Rightarrow> kubeObj \<Rightarrow> (string + kubeObj) asking" where
  "askCreate env gvr ns obj l = (teCreate env l gvr ns obj, l @ [TCreate gvr ns obj])"

definition askPatch :: "tektonEnv \<Rightarrow> groupVersionResource \<Rightarrow> string \<Rightarrow> string \<Rightarrow> string \<Rightarrow> (string + kubeObj) asking" where
  "askPatch env gvr ns name patch l = (tePatch env l gvr ns name patch, l @ [TPatch gvr ns name patch])"

definition askLogs :: "tektonEnv \<Rightarrow> string \<Rightarrow> string \<Rightarrow> string \<Rightarrow> int \<Rightarrow> (string + event list) asking" where
  "askLogs env ns pod container tail l = (teLogs env l ns pod container tail, l @ [TLogs ns pod container tail])"

definition askEvents :: "tektonEnv \<Rightarrow> string \<Rightarrow> string \<Rightarrow> int \<Rightarrow> (string + coreEvent list \<times> string) asking" where
  "askEvents env ns sel limit l = (teEvents env l ns sel limit, l @ [TEvents ns sel limit])"

lemmas ask_defs = askGet_def askList_def askCreate_def askPatch_def askLogs_def askEvents_def

section \<open>TaskRuns of a PipelineRun\<close>

fun convertTaskRuns :: "tektonEnv \<Rightarrow> kubeObj list \<Rightarrow> string + taskRun list" where
  "convertTaskRuns env [] = Inr []"
| "convertTaskRuns env (item # items) =
     (case teTaskRunOf env item of
        Inl err \<Rightarrow> Inl err
      | Inr tr \<Rightarrow> map_sum id (\<lambda>trs. tr # trs) (convertTaskRuns env items))"

definition pipelineRunTaskRuns ::
    "tektonEnv \<Rightarrow> string \<Rightarrow> string \<Rightarrow> string \<Rightarrow> int \<Rightarrow> string \<Rightarrow> (string + taskRun list \<times> string) asking" where
  "pipelineRunTaskRuns env ns prn task limit cont l =
     (let matchLabels = (tePipelineRunLabel env, prn) # (if task \<noteq> [] then [(tePipelineTaskLabel env, task)] else [])
      in (case teLabelSelector env matchLabels of
            Inl err \<Rightarrow> (Inl (''invalid TaskRun label filter: '' @ err), l)
          | Inr sel \<Rightarrow>
              (case askList env taskRunGVR ns sel limit cont l of
                 (Inl err, l) \<Rightarrow> (Inl err, l)
               | (Inr (items, nextToken), l) \<Rightarrow> (map_sum id (\<lambda>trs. (trs, nextToken)) (convertTaskRuns env items), l))))"

section \<open>Steps and events\<close>

definition failedOrErroredStep :: "stepState \<Rightarrow> bool" where
  "failedOrErroredStep st =
     (case ssTerminated st of
        Some t \<Rightarrow> tsExitCode t \<noteq> 0 \<or> (tsReason t \<noteq> [] \<and> tsReason t \<noteq> ''Completed'')
      | None \<Rightarrow>
          (case ssWaiting st of
             Some w \<Rightarrow> wsReason w \<noteq> [] \<and> wsReason w \<noteq> ''PodInitializing'' \<and> wsReason w \<noteq> ''ContainerCreating''
           | None \<Rightarrow> False))"

definition taskRunFailed :: "tektonEnv \<Rightarrow> taskRun \<Rightarrow> bool" where
  "taskRunFailed env tr \<longleftrightarrow> teSucceededFalse env tr \<or> list_ex failedOrErroredStep (tkSteps tr)"

record eventTarget =
  etKind :: string
  etName :: string
  etUID :: string

definition fieldSelector :: "tektonEnv \<Rightarrow> eventTarget \<Rightarrow> string" where
  "fieldSelector env t =
     teFieldSelector env
       ([(''involvedObject.kind'', etKind t), (''involvedObject.name'', etName t), (''type'', ''Warning'')]
        @ (if etUID t \<noteq> [] then [(''involvedObject.uid'', etUID t)] else []))"

definition addTarget :: "eventTarget \<Rightarrow> eventTarget list \<Rightarrow> eventTarget list" where
  "addTarget t ts = (if etName t = [] \<or> t \<in> set ts then ts else ts @ [t])"

text \<open>The owner is the UID of the PipelineRun, or \<open>None\<close> for a nil object.\<close>

definition pipelineRunEventTargets :: "tektonEnv \<Rightarrow> string \<Rightarrow> string option \<Rightarrow> taskRun list \<Rightarrow> eventTarget list" where
  "pipelineRunEventTargets env prn owner taskRuns =
     (let start = (case owner of
            Some uid \<Rightarrow> if uid \<noteq> [] then addTarget \<lparr>etKind = ''PipelineRun'', etName = prn, etUID = uid\<rparr> [] else []
          | None \<Rightarrow> [])
      in fold (\<lambda>tr ts.
           if (case owner of Some uid \<Rightarrow> \<not> teControlledBy env tr uid | None \<Rightarrow> False) then ts
           else addTarget \<lparr>etKind = ''Pod'', etName = tkPodName tr, etUID = []\<rparr>
                  (if tkUID tr \<noteq> [] then addTarget \<lparr>etKind = ''TaskRun'', etName = tkName tr, etUID = tkUID tr\<rparr> ts else ts))
         taskRuns start)"

definition eventKey :: "coreEvent \<Rightarrow> string" where
  "eventKey e = (if evUID e = [] then evNamespace e @ ''/'' @ evName e else evUID e)"

section \<open>Reading a log\<close>

definition readLogTail :: "(ioErr \<Rightarrow> string) \<Rightarrow> event list \<Rightarrow> int \<Rightarrow> string + string \<times> bool" where
  "readLogTail ioText stream maxBytes =
     (if maxBytes \<le> 0 then Inl (''invalid byte limit '' @ jsonInt maxBytes)
      else (case readAllLimited (nat (maxBytes + 1)) stream of
          Inl err \<Rightarrow> Inl (ioText err)
        | Inr logBytes \<Rightarrow>
            if int (length logBytes) > maxBytes then Inr (take (nat maxBytes) logBytes, True)
            else Inr (logBytes, False)))"

definition readContainerLog ::
    "tektonEnv \<Rightarrow> string \<Rightarrow> string \<Rightarrow> string \<Rightarrow> int \<Rightarrow> int \<Rightarrow> (string + string \<times> bool) asking" where
  "readContainerLog env ns pod container maxBytes tailLines l =
     (case askLogs env ns pod container tailLines l of
        (Inl err, l) \<Rightarrow> (Inl err, l)
      | (Inr stream, l) \<Rightarrow>
          (map_sum (\<lambda>err. ''error reading logs for container '' @ container @ '': '' @ err) id
             (readLogTail (teIoText env) stream maxBytes), l))"

lemma readLogTail_bound:
  "readLogTail f es n = Inr (s, wasCut) \<Longrightarrow> int (length s) \<le> n \<and> s = take (nat n) (content es) \<and> wasCut = (n < int (length (content es)))"
  by (auto simp: readLogTail_def dest!: readAllLimited_prefix split: if_splits sum.splits)

lemma readContainerLog_log: "snd (readContainerLog env ns pod c m t l) = l @ [TLogs ns pod c t]"
  by (auto simp: readContainerLog_def ask_defs split: sum.splits)

lemma readContainerLog_bound:
  "fst (readContainerLog env ns pod c m t l) = Inr (s, wasCut) \<Longrightarrow> int (length s) \<le> m"
  by (auto simp: readContainerLog_def ask_defs map_sum_def dest!: readLogTail_bound split: sum.splits)

lemma pipelineRunTaskRuns_log:
  "\<exists>ops. snd (pipelineRunTaskRuns env ns prn task limit cont l) = l @ ops
     \<and> (\<forall>op \<in> set ops. \<exists>sel. op = TList taskRunGVR ns sel limit cont) \<and> length ops \<le> 1"
  by (auto simp: pipelineRunTaskRuns_def ask_defs Let_def split: sum.splits)

section \<open>An example cluster\<close>

text \<open>One PipelineRun with one TaskRun whose step has failed; no events.\<close>

definition exampleStep :: stepState where
  "exampleStep = \<lparr>ssName = ''compile'', ssContainer = ''step-compile'',
     ssTerminated = Some \<lparr>tsExitCode = 1, tsReason = ''Error'', tsMessage = []\<rparr>, ssWaiting = None, ssRunning = False\<rparr>"

definition exampleSpec :: runSpec where
  "exampleSpec = \<lparr>rsRef = Some ''build'', rsParams = [], rsStatus = [], rsRest = []\<rparr>"

definition exampleTaskRun :: taskRun where
  "exampleTaskRun = \<lparr>tkName = ''run-build'', tkUID = ''u2'', tkGenerateName = [], tkLabels = Map.empty, tkSpec = exampleSpec,
     tkPodName = ''pod'', tkConditions = [], tkSteps = [exampleStep], tkSidecars = []\<rparr>"

definition examplePipelineRun :: pipelineRun where
  "examplePipelineRun = \<lparr>prName = ''run'', prUID = ''u1'', prGenerateName = [], prSpec = exampleSpec, prConditions = []\<rparr>"

definition exampleTekton :: tektonEnv where
  "exampleTekton =
     \<lparr>teNamespace = ''default'', teOob = (\<lambda>_. 0), teGet = (\<lambda>_ _ _ _. Inr []), teList = (\<lambda>_ _ _ _ _ _. Inr ([[]], [])),
      teCreate = (\<lambda>_ _ _ _. Inr []), tePatch = (\<lambda>_ _ _ _ _. Inr []), teLogs = (\<lambda>_ _ _ _ _. Inr [(''boom'', None)]),
      teEvents = (\<lambda>_ _ _ _. Inr ([], [])), teTaskRunOf = (\<lambda>_. Inr exampleTaskRun), tePipelineRunOf = (\<lambda>_. Inr examplePipelineRun),
      teUnstructured = (\<lambda>_. Inr []), teNameOf = (\<lambda>_. ''new''), teUIDOf = (\<lambda>_. ''u1''), teNestedMap = (\<lambda>_ _. Inr None),
      teNestedString = (\<lambda>_ _. Inr None), teNestedSlice = (\<lambda>_ _. None), teLabelSelector = (\<lambda>_. Inr ''l''), teFieldSelector = (\<lambda>_. ''f''),
      tePipelineRunLabel = ''tekton.dev/pipelineRun'', tePipelineTaskLabel = ''tekton.dev/pipelineTask'', teCancelled = ''Cancelled'',
      teControlledBy = (\<lambda>_ _. True), teSucceededFalse = (\<lambda>_. True), teTaskRunJson = (\<lambda>_. Some ''{}''), teYamlMap = (\<lambda>_. Inr []),
      teYamlList = (\<lambda>_. Inr []), teYamlStatus = (\<lambda>_. Inr []), teYamlEvent = (\<lambda>_. Inr []), teNow = [], teIoText = (\<lambda>_. []),
      teQuote = (\<lambda>s. s)\<rparr>"

definition exampleArgs :: arguments where
  "exampleArgs = [''namespace'' \<mapsto> GStr ''ci'', ''name'' \<mapsto> GStr ''run'']"

end
