(* ===== verification/Tekton_Diagnosis.thy ===== *)
theory Tekton_Diagnosis
  imports Tekton_Base Result_Limit "HOL-Library.Product_Lexorder"
begin

text \<open>
  \<open>pkg/toolsets/tekton/pipelinerun_diagnose.go\<close>: the tool that collects evidence about a failed
  PipelineRun under caps on every kind of evidence and under half of the live result limit. The
  diagnosis, the budget and the requests sent so far are the state that the collecting functions
  pass on; the JSON text of the diagnosis is written out, since the budget is measured in its
  bytes.
\<close>

section \<open>Limits\<close>

definition maxDiagnosisTaskRuns :: nat where "maxDiagnosisTaskRuns = 50"
definition maxDiagnosisTaskRunPages :: nat where "maxDiagnosisTaskRunPages = 20"
definition maxDiagnosisFailedStepsPerTask :: nat where "maxDiagnosisFailedStepsPerTask = 20"
definition maxDiagnosisWarningEvents :: nat where "maxDiagnosisWarningEvents = 50"
definition maxDiagnosisLogBytesPerStep :: int where "maxDiagnosisLogBytesPerStep = 32 * 1024"
definition maxDiagnosisLogBytesTotal :: int where "maxDiagnosisLogBytesTotal = 128 * 1024"
definition maxDiagnosisLogTailLines :: int where "maxDiagnosisLogTailLines = 100"
definition maxDiagnosisMessageRunes :: nat where "maxDiagnosisMessageRunes = 1024"

section \<open>The diagnosis\<close>

record diagnosedCondition =
  dcType :: string
  dcStatus :: string
  dcReason :: string
  dcMessage :: string

record diagnosedStep =
  dsName :: string
  dsContainer :: string
  dsState :: string
  dsReason :: string
  dsExitCode :: "int option"
  dsMessage :: string
  dsLogTail :: string
  dsLogTruncated :: bool

record diagnosedTaskRun =
  dtName :: string
  dtPipelineTask :: string
  dtPodName :: string
  dtConditions :: "diagnosedCondition list"
  dtFailedSteps :: "diagnosedStep list"

record diagnosedEvent =
  deKind :: string
  deName :: string
  deReason :: string
  deMessage :: string
  deCount :: int

record partialError =
  peSource :: string
  peMessage :: string

text \<open>The conditions of the PipelineRun start as a nil slice, the other slices as empty ones.\<close>

record diagnosis =
  dgNamespace :: string
  dgName :: string
  dgConditions :: "diagnosedCondition list option"
  dgFailedTaskRuns :: "diagnosedTaskRun list"
  dgWarningEvents :: "diagnosedEvent list"
  dgPartialErrors :: "partialError list"
  dgTruncated :: bool

definition emptyDiagnosis :: "string \<Rightarrow> string \<Rightarrow> diagnosis" where
  "emptyDiagnosis ns name =
     \<lparr>dgNamespace = ns, dgName = name, dgConditions = None, dgFailedTaskRuns = [], dgWarningEvents = [],
      dgPartialErrors = [], dgTruncated = False\<rparr>"

section \<open>Its JSON text\<close>

definition strField :: "string \<Rightarrow> string \<Rightarrow> (string \<times> string) list" where
  "strField k v = [(k, jsonString v)]"

definition strOmit :: "string \<Rightarrow> string \<Rightarrow> (string \<times> string) list" where
  "strOmit k v = omitEmpty (v = []) k (jsonString v)"

definition conditionJson :: "diagnosedCondition \<Rightarrow> string" where
  "conditionJson c =
     jsonObject (strField ''type'' (dcType c) @ strField ''status'' (dcStatus c)
       @ strOmit ''reason'' (dcReason c) @ strOmit ''message'' (dcMessage c))"

definition stepJson :: "diagnosedStep \<Rightarrow> string" where
  "stepJson st =
     jsonObject (strField ''name'' (dsName st) @ strOmit ''container'' (dsContainer st)
       @ strField ''state'' (dsState st) @ strOmit ''reason'' (dsReason st)
       @ (case dsExitCode st of None \<Rightarrow> [] | Some n \<Rightarrow> [(''exitCode'', jsonInt n)])
       @ strOmit ''message'' (dsMessage st) @ strOmit ''logTail'' (dsLogTail st)
       @ [(''logTruncated'', jsonBool (dsLogTruncated st))])"

definition taskRunJson :: "diagnosedTaskRun \<Rightarrow> string" where
  "taskRunJson t =
     jsonObject (strField ''name'' (dtName t) @ strOmit ''pipelineTask'' (dtPipelineTask t)
       @ strOmit ''podName'' (dtPodName t)
       @ [(''conditions'', jsonArray (map conditionJson (dtConditions t))),
          (''failedSteps'', jsonArray (map stepJson (dtFailedSteps t)))])"

definition eventJson :: "diagnosedEvent \<Rightarrow> string" where
  "eventJson e =
     jsonObject (strField ''involvedKind'' (deKind e) @ strField ''involvedName'' (deName e)
       @ strOmit ''reason'' (deReason e) @ strOmit ''message'' (deMessage e)
       @ omitEmpty (deCount e = 0) ''count'' (jsonInt (deCount e)))"

definition partialErrorJson :: "partialError \<Rightarrow> string" where
  "partialErrorJson e = jsonObject (strField ''source'' (peSource e) @ strField ''message'' (peMessage e))"

definition conditionsJson :: "diagnosedCondition list option \<Rightarrow> string" where
  "conditionsJson cs = (case cs of None \<Rightarrow> ''null'' | Some cs \<Rightarrow> jsonArray (map conditionJson cs))"

definition pipelineRunJson :: "diagnosis \<Rightarrow> string" where
  "pipelineRunJson d =
     jsonObject (strField ''namespace'' (dgNamespace d) @ strField ''name'' (dgName d)
       @ [(''conditions'', conditionsJson (dgConditions d))])"

definition diagnosisJson :: "diagnosis \<Rightarrow> string" where
  "diagnosisJson d =
     jsonObject (strField ''schemaVersion'' ''1'' @ strField ''dataClassification'' ''untrusted_workload_data''
       @ [(''pipelineRun'', pipelineRunJson d),
          (''failedTaskRuns'', jsonArray (map taskRunJson (dgFailedTaskRuns d))),
          (''warningEvents'', jsonArray (map eventJson (dgWarningEvents d))),
          (''partialErrors'', jsonArray (map partialErrorJson (dgPartialErrors d))),
          (''truncated'', jsonBool (dgTruncated d))])"

section \<open>The budget\<close>

record diagnosisResultBudget =
  bgCapped :: bool
  bgPayloadLimit :: int
  bgReserved :: int
  bgBlocked :: bool

definition newDiagnosisResultBudget :: "budgetCtx \<Rightarrow> diagnosisResultBudget" where
  "newDiagnosisResultBudget ctx =
     (let limit = ResultLimit ctx
      in if limit \<le> 0 then \<lparr>bgCapped = False, bgPayloadLimit = 0, bgReserved = 0, bgBlocked = False\<rparr>
         else \<lparr>bgCapped = True, bgPayloadLimit = limit div 2, bgReserved = 0, bgBlocked = False\<rparr>)"

text \<open>The state of a collection: the diagnosis, its budget, the requests sent.\<close>

record diagState =
  sR :: diagnosis
  sB :: diagnosisResultBudget
  sL :: "tektonOp list"

text \<open>Encoding the diagnosis cannot fail: it consists of strings, numbers and truth values.\<close>

definition encodedSize :: "diagState \<Rightarrow> int" where
  "encodedSize s = int (length (diagnosisJson (sR s)))"

definition setTruncated :: "bool \<Rightarrow> diagState \<Rightarrow> diagState" where
  "setTruncated b s = s\<lparr>sR := (sR s)\<lparr>dgTruncated := dgTruncated (sR s) \<or> b\<rparr>\<rparr>"

definition blockBudget :: "diagState \<Rightarrow> diagState" where
  "blockBudget s = setTruncated True (s\<lparr>sB := (sB s)\<lparr>bgBlocked := True\<rparr>\<rparr>)"

definition remainingBudget :: "diagState \<Rightarrow> int" where
  "remainingBudget s =
     (if \<not> bgCapped (sB s) then -1
      else let remaining = bgPayloadLimit (sB s) - encodedSize s - bgReserved (sB s)
           in if remaining < 0 then 0 else remaining)"

definition canFetch :: "diagState \<Rightarrow> bool \<times> diagState" where
  "canFetch s =
     (if \<not> bgCapped (sB s) then (True, s)
      else if bgBlocked (sB s) \<or> remainingBudget s = 0 then (False, blockBudget s)
      else (True, s))"

definition acceptResult :: "diagState \<Rightarrow> bool \<times> diagState" where
  "acceptResult s =
     (if \<not> bgCapped (sB s) then (True, s)
      else if encodedSize s + bgReserved (sB s) \<le> bgPayloadLimit (sB s) then (True, s)
      else (False, blockBudget s))"

definition reserveFor :: "tektonEnv \<Rightarrow> taskRun \<Rightarrow> diagState \<Rightarrow> bool \<times> diagState" where
  "reserveFor env tr s =
     (if \<not> bgCapped (sB s) then (True, s)
      else (case canFetch s of
          (False, s) \<Rightarrow> (False, s)
        | (True, s) \<Rightarrow>
            (case teTaskRunJson env tr of
               None \<Rightarrow> (False, blockBudget s)
             | Some raw \<Rightarrow>
                 if int (length raw) > remainingBudget s then (False, blockBudget s)
                 else (True, s\<lparr>sB := (sB s)\<lparr>bgReserved := bgReserved (sB s) + int (length raw)\<rparr>\<rparr>))))"

definition releaseFor :: "tektonEnv \<Rightarrow> taskRun \<Rightarrow> diagState \<Rightarrow> diagState" where
  "releaseFor env tr s =
     (if \<not> bgCapped (sB s) then s
      else (case teTaskRunJson env tr of
          None \<Rightarrow> s
        | Some raw \<Rightarrow> s\<lparr>sB := (sB s)\<lparr>bgReserved := max 0 (bgReserved (sB s) - int (length raw))\<rparr>\<rparr>))"

section \<open>Texts\<close>

definition truncationMark :: string where "truncationMark = ''...[truncated]''"

definition truncateDiagnosisText :: "string \<Rightarrow> string \<times> bool" where
  "truncateDiagnosisText text =
     (let text = toValidUTF8 text
      in if length (runes text) \<le> maxDiagnosisMessageRunes then (text, False)
         else (concat (take maxDiagnosisMessageRunes (runes text)) @ truncationMark, True))"

definition truncateText :: "string \<Rightarrow> diagnosis \<Rightarrow> string \<times> diagnosis" where
  "truncateText text d =
     (case truncateDiagnosisText text of (text, truncated) \<Rightarrow> (text, d\<lparr>dgTruncated := dgTruncated d \<or> truncated\<rparr>))"

fun dropInvalidHead :: "string \<Rightarrow> string" where
  "dropInvalidHead [] = []"
| "dropInvalidHead (c # cs) = (if utf8Valid (c # cs) then c # cs else dropInvalidHead cs)"

definition truncateUTF8Bytes :: "string \<Rightarrow> int \<Rightarrow> string \<times> bool" where
  "truncateUTF8Bytes text maxBytes =
     (if int (length text) \<le> maxBytes then (text, False)
      else if maxBytes \<le> 0 then ([], text \<noteq> [])
      else (dropInvalidHead (drop (length text - nat maxBytes) text), True))"

section \<open>Conditions, steps, errors\<close>

definition addPartialError :: "string \<Rightarrow> string \<Rightarrow> diagState \<Rightarrow> diagState" where
  "addPartialError source err s =
     (case truncateText err (sR s) of
        (message, r) \<Rightarrow>
          (case acceptResult (s\<lparr>sR := r\<lparr>dgPartialErrors := dgPartialErrors r @ [\<lparr>peSource = source, peMessage = message\<rparr>]\<rparr>\<rparr>) of
             (True, s) \<Rightarrow> s
           | (False, s) \<Rightarrow> s\<lparr>sR := (sR s)\<lparr>dgPartialErrors := butlast (dgPartialErrors (sR s))\<rparr>\<rparr>))"

definition diagnoseCondition :: "diagnosis \<Rightarrow> knativeCondition \<Rightarrow> diagnosedCondition \<times> diagnosis" where
  "diagnoseCondition d c =
     (case truncateText (kcReason c) d of
        (reason, d) \<Rightarrow>
          (case truncateText (kcMessage c) d of
             (message, d) \<Rightarrow>
               (\<lparr>dcType = kcType c, dcStatus = kcStatus c, dcReason = reason, dcMessage = message\<rparr>, d)))"

definition diagnoseStep :: "diagnosis \<Rightarrow> stepState \<Rightarrow> diagnosedStep \<times> diagnosis" where
  "diagnoseStep d st =
     (let base = \<lparr>dsName = ssName st, dsContainer = ssContainer st, dsState = ''unknown'', dsReason = [],
                  dsExitCode = None, dsMessage = [], dsLogTail = [], dsLogTruncated = False\<rparr>
      in (case (ssTerminated st, ssWaiting st) of
            (Some t, _) \<Rightarrow>
              (case truncateText (tsReason t) d of
                 (reason, d) \<Rightarrow>
                   (case truncateText (tsMessage t) d of
                      (message, d) \<Rightarrow>
                        (base\<lparr>dsState := ''terminated'', dsReason := reason, dsMessage := message,
                              dsExitCode := Some (tsExitCode t)\<rparr>, d)))
          | (None, Some w) \<Rightarrow>
              (case truncateText (wsReason w) d of
                 (reason, d) \<Rightarrow>
                   (case truncateText (wsMessage w) d of
                      (message, d) \<Rightarrow> (base\<lparr>dsState := ''waiting'', dsReason := reason, dsMessage := message\<rparr>, d)))
          | (None, None) \<Rightarrow> (if ssRunning st then base\<lparr>dsState := ''running''\<rparr> else base, d)))"

text \<open>Where the conditions go: the PipelineRun's, or those of the TaskRun that was added last.\<close>

datatype conditionsOf = OfPipelineRun | OfLastTaskRun

definition onLast :: "('a \<Rightarrow> 'a) \<Rightarrow> 'a list \<Rightarrow> 'a list" where
  "onLast f xs = (if xs = [] then [] else butlast xs @ [f (last xs)])"

fun addCondition :: "conditionsOf \<Rightarrow> diagnosedCondition \<Rightarrow> diagnosis \<Rightarrow> diagnosis" where
  "addCondition OfPipelineRun c d =
     d\<lparr>dgConditions := Some ((case dgConditions d of None \<Rightarrow> [] | Some cs \<Rightarrow> cs) @ [c])\<rparr>"
| "addCondition OfLastTaskRun c d =
     d\<lparr>dgFailedTaskRuns := onLast (\<lambda>t. t\<lparr>dtConditions := dtConditions t @ [c]\<rparr>) (dgFailedTaskRuns d)\<rparr>"

fun onConditions :: "conditionsOf \<Rightarrow> (diagnosedCondition list \<Rightarrow> diagnosedCondition list) \<Rightarrow> diagnosis \<Rightarrow> diagnosis" where
  "onConditions OfPipelineRun f d = d\<lparr>dgConditions := map_option f (dgConditions d)\<rparr>"
| "onConditions OfLastTaskRun f d =
     d\<lparr>dgFailedTaskRuns := onLast (\<lambda>t. t\<lparr>dtConditions := f (dtConditions t)\<rparr>) (dgFailedTaskRuns d)\<rparr>"

definition sortDiagnosisConditions :: "diagnosedCondition list \<Rightarrow> diagnosedCondition list" where
  "sortDiagnosisConditions cs = sort_key dcType cs"

fun appendDiagnosisConditions :: "conditionsOf \<Rightarrow> knativeCondition list \<Rightarrow> diagState \<Rightarrow> bool \<times> diagState" where
  "appendDiagnosisConditions dest [] s = (True, s\<lparr>sR := onConditions dest sortDiagnosisConditions (sR s)\<rparr>)"
| "appendDiagnosisConditions dest (c # cs) s =
     (case diagnoseCondition (sR s) c of
        (dc, r) \<Rightarrow>
          (case acceptResult (s\<lparr>sR := addCondition dest dc r\<rparr>) of
             (True, s) \<Rightarrow> appendDiagnosisConditions dest cs s
           | (False, s) \<Rightarrow> (False, s\<lparr>sR := onConditions dest (\<lambda>cs. sortDiagnosisConditions (butlast cs)) (sR s)\<rparr>)))"

section \<open>The failed TaskRuns\<close>

definition getPipelineRun :: "tektonEnv \<Rightarrow> string \<Rightarrow> string \<Rightarrow> (string + pipelineRun) asking" where
  "getPipelineRun env ns name l =
     (case askGet env pipelineRunGVR ns name l of
        (Inl err, l) \<Rightarrow> (Inl err, l)
      | (Inr obj, l) \<Rightarrow> (tePipelineRunOf env obj, l))"

text \<open>The loop over a page; the first component tells that the function returns in it.\<close>

fun scanTaskRuns :: "tektonEnv \<Rightarrow> pipelineRun \<Rightarrow> taskRun list \<Rightarrow> taskRun list \<Rightarrow> diagState \<Rightarrow> bool \<times> taskRun list \<times> diagState" where
  "scanTaskRuns env pr [] acc s = (False, acc, s)"
| "scanTaskRuns env pr (tr # trs) acc s =
     (if \<not> teControlledBy env tr (prUID pr) \<or> \<not> taskRunFailed env tr then scanTaskRuns env pr trs acc s
      else if length acc = maxDiagnosisTaskRuns then (True, acc, setTruncated True s)
      else (case reserveFor env tr s of
          (False, s) \<Rightarrow> (True, acc, s)
        | (True, s) \<Rightarrow> scanTaskRuns env pr trs (acc @ [tr]) s))"

fun taskRunPages ::
    "tektonEnv \<Rightarrow> string \<Rightarrow> pipelineRun \<Rightarrow> nat \<Rightarrow> string \<Rightarrow> taskRun list \<Rightarrow> diagState \<Rightarrow> taskRun list \<times> diagState" where
  "taskRunPages env ns pr 0 cont acc s = (acc, setTruncated True s)"
| "taskRunPages env ns pr (Suc pages) cont acc s =
     (case canFetch s of
        (False, s) \<Rightarrow> (acc, setTruncated True s)
      | (True, s) \<Rightarrow>
          (case pipelineRunTaskRuns env ns (prName pr) [] (int maxDiagnosisTaskRuns) cont (sL s) of
             (Inl err, l) \<Rightarrow>
               (acc, setTruncated True (setTruncated (cont \<noteq> []) (addPartialError ''taskruns'' err (s\<lparr>sL := l\<rparr>))))
           | (Inr (trs, nextToken), l) \<Rightarrow>
               (case scanTaskRuns env pr trs acc (s\<lparr>sL := l\<rparr>) of
                  (True, acc, s) \<Rightarrow> (acc, s)
                | (False, acc, s) \<Rightarrow>
                    if nextToken = [] then (acc, s) else taskRunPages env ns pr pages nextToken acc s)))"

definition failedPipelineRunTaskRuns :: "tektonEnv \<Rightarrow> string \<Rightarrow> pipelineRun \<Rightarrow> diagState \<Rightarrow> taskRun list \<times> diagState" where
  "failedPipelineRunTaskRuns env ns pr s =
     (case taskRunPages env ns pr maxDiagnosisTaskRunPages [] [] s of (acc, s) \<Rightarrow> (sort_key tkName acc, s))"

section \<open>Their steps and logs\<close>

datatype flow = Continue | Return

definition onLastTask :: "(diagnosedTaskRun \<Rightarrow> diagnosedTaskRun) \<Rightarrow> diagState \<Rightarrow> diagState" where
  "onLastTask f s = s\<lparr>sR := (sR s)\<lparr>dgFailedTaskRuns := onLast f (dgFailedTaskRuns (sR s))\<rparr>\<rparr>"

definition onLastStep :: "(diagnosedStep \<Rightarrow> diagnosedStep) \<Rightarrow> diagState \<Rightarrow> diagState" where
  "onLastStep f = onLastTask (\<lambda>t. t\<lparr>dtFailedSteps := onLast f (dtFailedSteps t)\<rparr>)"

definition lastSteps :: "diagState \<Rightarrow> diagnosedStep list" where
  "lastSteps s = (case dgFailedTaskRuns (sR s) of [] \<Rightarrow> [] | ts \<Rightarrow> dtFailedSteps (last ts))"

definition cutLog :: "diagnosedStep \<Rightarrow> diagnosedStep" where
  "cutLog st = st\<lparr>dsLogTruncated := True\<rparr>"

definition logLimitFor :: "int \<Rightarrow> diagState \<Rightarrow> int" where
  "logLimitFor remainingLogBytes s =
     (let logLimit = min remainingLogBytes maxDiagnosisLogBytesPerStep; remaining = remainingBudget s
      in if remaining \<ge> 0 then min logLimit (max 0 (remaining - 32) div 6) else logLimit)"

text \<open>The log of the step that was added last, with the log bytes that are left.\<close>

definition diagnoseLog ::
    "tektonEnv \<Rightarrow> string \<Rightarrow> taskRun \<Rightarrow> stepState \<Rightarrow> int \<Rightarrow> diagState \<Rightarrow> flow \<times> int \<times> diagState" where
  "diagnoseLog env ns tr st remainingLogBytes s =
     (if tkPodName tr = [] \<or> ssContainer st = [] then (Continue, remainingLogBytes, s)
      else if remainingLogBytes \<le> 0 then (Continue, remainingLogBytes, setTruncated True (onLastStep cutLog s))
      else (case canFetch s of
          (False, s) \<Rightarrow> (Continue, remainingLogBytes, onLastStep cutLog s)
        | (True, s) \<Rightarrow>
            let logLimit = logLimitFor remainingLogBytes s
            in if logLimit \<le> 0 then (Continue, remainingLogBytes, blockBudget (onLastStep cutLog s))
               else (case readContainerLog env ns (tkPodName tr) (ssContainer st) logLimit maxDiagnosisLogTailLines (sL s) of
                   (Inl err, l) \<Rightarrow>
                     (Continue, remainingLogBytes,
                      addPartialError (''logs/'' @ tkName tr @ ''/'' @ ssName st) err (s\<lparr>sL := l\<rparr>))
                 | (Inr (logText, readTruncated), l) \<Rightarrow>
                     (case truncateUTF8Bytes (toValidUTF8 logText) logLimit of
                        (tail, tailCut) \<Rightarrow>
                          let wasCut = tailCut \<or> readTruncated;
                              s = setTruncated wasCut
                                    (onLastStep (\<lambda>x. x\<lparr>dsLogTail := tail, dsLogTruncated := wasCut\<rparr>) (s\<lparr>sL := l\<rparr>))
                          in (case acceptResult s of
                                (True, s) \<Rightarrow> (Continue, remainingLogBytes - int (length tail), s)
                              | (False, s) \<Rightarrow>
                                  (Return, remainingLogBytes - int (length tail),
                                   onLastStep (\<lambda>x. x\<lparr>dsLogTail := [], dsLogTruncated := True\<rparr>) s))))))"

fun diagnoseSteps ::
    "tektonEnv \<Rightarrow> string \<Rightarrow> taskRun \<Rightarrow> stepState list \<Rightarrow> int \<Rightarrow> diagState \<Rightarrow> flow \<times> int \<times> diagState" where
  "diagnoseSteps env ns tr [] logBytes s = (Continue, logBytes, s)"
| "diagnoseSteps env ns tr (st # sts) logBytes s =
     (if \<not> failedOrErroredStep st then diagnoseSteps env ns tr sts logBytes s
      else if maxDiagnosisFailedStepsPerTask \<le> length (lastSteps s) then (Continue, logBytes, setTruncated True s)
      else (case diagnoseStep (sR s) st of
          (d, r) \<Rightarrow>
            (case acceptResult (onLastTask (\<lambda>t. t\<lparr>dtFailedSteps := dtFailedSteps t @ [d]\<rparr>) (s\<lparr>sR := r\<rparr>)) of
               (False, s) \<Rightarrow> (Return, logBytes, onLastTask (\<lambda>t. t\<lparr>dtFailedSteps := butlast (dtFailedSteps t)\<rparr>) s)
             | (True, s) \<Rightarrow>
                 (case diagnoseLog env ns tr st logBytes s of
                    (Return, logBytes, s) \<Rightarrow> (Return, logBytes, s)
                  | (Continue, logBytes, s) \<Rightarrow> diagnoseSteps env ns tr sts logBytes s))))"

definition newTaskRun :: "tektonEnv \<Rightarrow> taskRun \<Rightarrow> diagnosedTaskRun" where
  "newTaskRun env tr =
     \<lparr>dtName = tkName tr,
      dtPipelineTask = (case tkLabels tr (tePipelineTaskLabel env) of None \<Rightarrow> [] | Some v \<Rightarrow> v),
      dtPodName = tkPodName tr, dtConditions = [], dtFailedSteps = []\<rparr>"

fun diagnoseTaskRuns :: "tektonEnv \<Rightarrow> string \<Rightarrow> taskRun list \<Rightarrow> int \<Rightarrow> diagState \<Rightarrow> diagState" where
  "diagnoseTaskRuns env ns [] logBytes s = s"
| "diagnoseTaskRuns env ns (tr # trs) logBytes s =
     (let s = releaseFor env tr s;
          s = s\<lparr>sR := (sR s)\<lparr>dgFailedTaskRuns := dgFailedTaskRuns (sR s) @ [newTaskRun env tr]\<rparr>\<rparr>
      in (case acceptResult s of
            (False, s) \<Rightarrow> s\<lparr>sR := (sR s)\<lparr>dgFailedTaskRuns := butlast (dgFailedTaskRuns (sR s))\<rparr>\<rparr>
          | (True, s) \<Rightarrow>
              (case appendDiagnosisConditions OfLastTaskRun (tkConditions tr) s of
                 (False, s) \<Rightarrow> s
               | (True, s) \<Rightarrow>
                   (case diagnoseSteps env ns tr (sort_key ssName (tkSteps tr)) logBytes s of
                      (Return, logBytes, s) \<Rightarrow> s
                    | (Continue, logBytes, s) \<Rightarrow> diagnoseTaskRuns env ns trs logBytes s))))"

definition diagnoseFailedTaskRuns :: "tektonEnv \<Rightarrow> string \<Rightarrow> taskRun list \<Rightarrow> diagState \<Rightarrow> diagState" where
  "diagnoseFailedTaskRuns env ns trs s = diagnoseTaskRuns env ns trs maxDiagnosisLogBytesTotal s"

section \<open>Warning events\<close>

text \<open>\<open>%010d\<close>, and the text that events are sorted by.\<close>

definition padded10 :: "int \<Rightarrow> string" where
  "padded10 n =
     (let digits = goItoa (nat \<bar>n\<bar>); sign = (if n < 0 then ''-'' else [])
      in sign @ replicate (10 - length digits - length sign) CHR ''0'' @ digits)"

definition nul :: char where "nul = CHR 0x00"

definition warningKey :: "diagnosedEvent \<Rightarrow> string" where
  "warningKey e = goJoin [nul] [deKind e, deName e, deReason e, deMessage e] @ [nul] @ padded10 (deCount e)"

fun collectEvents :: "coreEvent list \<Rightarrow> string list \<Rightarrow> diagState \<Rightarrow> flow \<times> string list \<times> diagState" where
  "collectEvents [] seen s = (Continue, seen, s)"
| "collectEvents (e # es) seen s =
     (if evType e \<noteq> ''Warning'' \<or> eventKey e \<in> set seen then collectEvents es seen s
      else (case truncateText (evReason e) (sR s) of
          (reason, r) \<Rightarrow>
            (case truncateText (evMessage e) r of
               (message, r) \<Rightarrow>
                 let we = \<lparr>deKind = evKind e, deName = evObject e, deReason = reason, deMessage = message, deCount = evCount e\<rparr>;
                     s = s\<lparr>sR := r\<lparr>dgWarningEvents := dgWarningEvents r @ [we]\<rparr>\<rparr>
                 in if maxDiagnosisWarningEvents < length (dgWarningEvents (sR s))
                    then (Return, eventKey e # seen,
                          setTruncated True (s\<lparr>sR := (sR s)\<lparr>dgWarningEvents := take maxDiagnosisWarningEvents (dgWarningEvents (sR s))\<rparr>\<rparr>))
                    else (case acceptResult s of
                        (False, s) \<Rightarrow>
                          (Return, eventKey e # seen, s\<lparr>sR := (sR s)\<lparr>dgWarningEvents := butlast (dgWarningEvents (sR s))\<rparr>\<rparr>)
                      | (True, s) \<Rightarrow> collectEvents es (eventKey e # seen) s))))"

fun collectFromTargets :: "tektonEnv \<Rightarrow> string \<Rightarrow> eventTarget list \<Rightarrow> string list \<Rightarrow> diagState \<Rightarrow> diagState" where
  "collectFromTargets env ns [] seen s = s"
| "collectFromTargets env ns (t # ts) seen s =
     (case canFetch s of
        (False, s) \<Rightarrow> s
      | (True, s) \<Rightarrow>
          let remainingEvents = int maxDiagnosisWarningEvents + 1 - int (length (dgWarningEvents (sR s)))
          in if remainingEvents \<le> 0 then setTruncated True s
             else (case askEvents env ns (fieldSelector env t) remainingEvents (sL s) of
                 (Inl err, l) \<Rightarrow>
                   collectFromTargets env ns ts seen
                     (addPartialError (''events/'' @ etKind t @ ''/'' @ etName t) err (s\<lparr>sL := l\<rparr>))
               | (Inr (items, cont), l) \<Rightarrow>
                   (case collectEvents items seen (s\<lparr>sL := l\<rparr>) of
                      (Return, seen, s) \<Rightarrow> s
                    | (Continue, seen, s) \<Rightarrow>
                        if cont \<noteq> [] \<or> (length (dgWarningEvents (sR s)) = maxDiagnosisWarningEvents \<and> ts \<noteq> [])
                        then setTruncated True s
                        else collectFromTargets env ns ts seen s)))"

definition collectWarningEventsForPipelineRun ::
    "tektonEnv \<Rightarrow> string \<Rightarrow> pipelineRun \<Rightarrow> taskRun list \<Rightarrow> diagState \<Rightarrow> diagState" where
  "collectWarningEventsForPipelineRun env ns pr trs s =
     (let s = collectFromTargets env ns (pipelineRunEventTargets env (prName pr) (Some (prUID pr)) trs) [] s
      in s\<lparr>sR := (sR s)\<lparr>dgWarningEvents := sort_key warningKey (dgWarningEvents (sR s))\<rparr>\<rparr>)"

section \<open>The tool\<close>

definition sortPartialErrors :: "diagnosis \<Rightarrow> diagnosis" where
  "sortPartialErrors d =
     d\<lparr>dgPartialErrors := sort_key (\<lambda>e. (peSource e, peMessage e)) (dgPartialErrors d)\<rparr>"

text \<open>The collection for a PipelineRun that was found.\<close>

definition collectDiagnosis ::
    "tektonEnv \<Rightarrow> budgetCtx \<Rightarrow> string \<Rightarrow> string \<Rightarrow> pipelineRun \<Rightarrow> tektonOp list \<Rightarrow> diagState" where
  "collectDiagnosis env ctx ns name pr l =
     (let s = \<lparr>sR = emptyDiagnosis ns name, sB = newDiagnosisResultBudget ctx, sL = l\<rparr>;
          s = snd (appendDiagnosisConditions OfPipelineRun (prConditions pr) s);
          (failed, s) = failedPipelineRunTaskRuns env ns pr s;
          s = diagnoseFailedTaskRuns env ns failed s
      in (case canFetch s of
            (True, s) \<Rightarrow> collectWarningEventsForPipelineRun env ns pr failed s
          | (False, s) \<Rightarrow> s))"

datatype diagnoseErr = DiagnoseArgument paramErr | PipelineRunUnavailable string string string

definition diagnosePipelineRun ::
    "tektonEnv \<Rightarrow> budgetCtx \<Rightarrow> arguments \<Rightarrow> (diagnoseErr + diagnosis) asking" where
  "diagnosePipelineRun env ctx args l =
     (case RequiredString args ''namespace'' of
        Inl err \<Rightarrow> (Inl (DiagnoseArgument err), l)
      | Inr ns \<Rightarrow>
          (case RequiredString args ''name'' of
             Inl err \<Rightarrow> (Inl (DiagnoseArgument err), l)
           | Inr name \<Rightarrow>
               (case getPipelineRun env ns name l of
                  (Inl err, l) \<Rightarrow> (Inl (PipelineRunUnavailable ns name err), l)
                | (Inr pr, l) \<Rightarrow>
                    let s = collectDiagnosis env ctx ns name pr l
                    in (Inr (sortPartialErrors (sR s)), sL s))))"

text \<open>The result of the call, with the diagnosis as text and as structured content.\<close>

definition marshalDiagnosis :: "diagnosis structured \<Rightarrow> string + string" where
  "marshalDiagnosis v = (case v of OtherAny d \<Rightarrow> Inr (diagnosisJson d) | _ \<Rightarrow> Inl [])"

definition diagnosisResult :: "diagnosis \<Rightarrow> diagnosis toolCallResult" where
  "diagnosisResult d = NewToolCallResultStructured marshalDiagnosis (OtherAny d) None"

definition diagnoseRBAC :: rbacMetadata where
  "diagnoseRBAC = RBACBounded
     [requires [''get''] (onResource ''tekton.dev'' ''pipelineruns'' []) (inArgument ''namespace'') (namedBy ''name''),
      requires [''list''] (onResource ''tekton.dev'' ''taskruns'' []) (inArgument ''namespace'') None,
      requires [''get''] (onResource [] ''pods'' ''log'') (inArgument ''namespace'') None,
      requires [''list''] (onResource [] ''events'' []) (inArgument ''namespace'') None]"

section \<open>Texts are well-formed\<close>

definition okText :: "string \<Rightarrow> bool" where
  "okText t \<longleftrightarrow> utf8Valid t \<and> length (runes t) \<le> maxDiagnosisMessageRunes + length truncationMark"

lemma truncationMark_valid [simp]: "utf8Valid truncationMark"
  by (rule utf8Valid_ascii) (simp add: truncationMark_def)

lemma okText_truncate: "truncateDiagnosisText t = (t', b) \<Longrightarrow> okText t'"
proof -
  assume t: "truncateDiagnosisText t = (t', b)"
  define rs where "rs = runes (toValidUTF8 t)"
  have rs: "list_all isRune rs" using toValidUTF8_valid [of t] by (simp add: rs_def utf8Valid_def)
  let ?p = "concat (take maxDiagnosisMessageRunes rs)"
  have p: "utf8Valid ?p" "runes ?p = take maxDiagnosisMessageRunes rs"
    using list_all_take [OF rs] by (simp_all add: utf8Valid_concat runes_concat)
  show ?thesis
  proof (cases "length rs \<le> maxDiagnosisMessageRunes")
    case True
    then show ?thesis using t by (auto simp: truncateDiagnosisText_def Let_def okText_def rs_def)
  next
    case False
    then have "t' = ?p @ truncationMark" using t by (auto simp: truncateDiagnosisText_def Let_def rs_def)
    then show ?thesis using p length_runes_le [of truncationMark]
      by (simp add: okText_def utf8Valid_append runes_append_valid)
  qed
qed

lemma truncateText_flag:
  "truncateText t d = (t', d') \<Longrightarrow> okText t' \<and> (\<exists>b. d' = d\<lparr>dgTruncated := dgTruncated d \<or> b\<rparr>)"
  by (auto simp: truncateText_def split: prod.splits dest: okText_truncate)

lemma dropInvalidHead_suffix: "\<exists>p. s = p @ dropInvalidHead s"
proof (induction s)
  case (Cons c cs)
  then obtain p where "cs = p @ dropInvalidHead cs" by blast
  then show ?case by (cases "utf8Valid (c # cs)") (auto intro: exI [of _ "c # p"])
qed simp

lemma dropInvalidHead_valid: "utf8Valid (dropInvalidHead s)"
  by (induction s) auto

text \<open>A truncated log is the longest valid suffix within the limit.\<close>

lemma dropInvalidHead_longest: "s = p @ q \<Longrightarrow> utf8Valid q \<Longrightarrow> length q \<le> length (dropInvalidHead s)"
proof (induction s arbitrary: p)
  case (Cons c cs)
  show ?case
  proof (cases p)
    case Nil
    then show ?thesis using Cons.prems by auto
  next
    case (Cons x p')
    then show ?thesis using Cons.IH [of p'] Cons.prems by auto
  qed
qed simp

lemma truncateUTF8Bytes_spec:
  assumes "truncateUTF8Bytes t n = (t', b)" and "utf8Valid t" and "0 < n"
  shows "utf8Valid t' \<and> int (length t') \<le> n \<and> (\<exists>p. t = p @ t') \<and> b = (n < int (length t))
    \<and> (\<forall>p q. t = p @ q \<longrightarrow> utf8Valid q \<longrightarrow> int (length q) \<le> n \<longrightarrow> length q \<le> length t')"
proof (cases "int (length t) \<le> n")
  case True
  then show ?thesis using assms by (auto simp: truncateUTF8Bytes_def)
next
  case False
  let ?w = "drop (length t - nat n) t"
  have t': "t' = dropInvalidHead ?w" and b: "b" using assms False by (auto simp: truncateUTF8Bytes_def)
  obtain p where p: "?w = p @ t'" using dropInvalidHead_suffix [of ?w] t' by auto
  have w: "int (length ?w) = n" using False assms(3) by simp
  have "length t' \<le> length ?w" by (metis p length_append le_add2)
  then have len: "int (length t') \<le> n" using w by linarith
  have longest: "length q \<le> length t'" if "t = p' @ q" "utf8Valid q" "int (length q) \<le> n" for p' q
  proof -
    have "?w = drop (length t - nat n) p' @ q" using that(1,3) by simp
    from dropInvalidHead_longest [OF this that(2)] show ?thesis by (simp add: t')
  qed
  have suffix: "t = (take (length t - nat n) t @ p) @ t'" by (metis append.assoc append_take_drop_id p)
  have valid: "utf8Valid t'" by (simp add: t' dropInvalidHead_valid)
  have cut: "b = (n < int (length t))" using b False by simp
  from valid len suffix cut longest show ?thesis by blast
qed

end
