(* ===== verification/Tekton_Evidence.thy ===== *)
theory Tekton_Evidence
  imports Tekton_Diagnosis
begin

text \<open>
  Correctness of the PipelineRun diagnosis. Its collecting functions are sequences of a few
  kinds of moves, each with the guard under which the code makes it; the bounds on the evidence,
  the size of its encoding, the form of its texts and the requests are invariants of the moves.
\<close>

section \<open>Encoded size\<close>

lemma length_jsonBool: "length (jsonBool b) = (if b then 4 else 5)"
  by (simp add: jsonBool_def)

lemma joinedLength_Cons: "joinedLength (x # xs) = (if xs = [] then x else x + 1 + joinedLength xs)"
  by (cases xs) (auto simp: joinedLength_def)

lemma joinedLength_Nil [simp]: "joinedLength [] = 0"
  by (simp add: joinedLength_def)

definition tasksSize :: "diagnosedTaskRun list \<Rightarrow> nat" where
  "tasksSize ts = joinedLength (map (\<lambda>t. length (taskRunJson t)) ts)"

definition stepsSize :: "diagnosedStep list \<Rightarrow> nat" where
  "stepsSize sts = joinedLength (map (\<lambda>x. length (stepJson x)) sts)"

definition conditionsSize :: "diagnosedCondition list \<Rightarrow> nat" where
  "conditionsSize cs = joinedLength (map (\<lambda>c. length (conditionJson c)) cs)"

text \<open>What an object with these fields has beside the fields that vary.\<close>

definition diagnosisFrame :: "string \<Rightarrow> string \<Rightarrow> nat" where
  "diagnosisFrame ns name = length (diagnosisJson (emptyDiagnosis ns name)) - 9"

lemma diagnosis_size:
  "length (diagnosisJson d) =
     diagnosisFrame (dgNamespace d) (dgName d) + length (conditionsJson (dgConditions d)) + tasksSize (dgFailedTaskRuns d)
     + joinedLength (map (\<lambda>e. length (eventJson e)) (dgWarningEvents d))
     + joinedLength (map (\<lambda>e. length (partialErrorJson e)) (dgPartialErrors d)) + (if dgTruncated d then 4 else 5)"
  by (simp add: diagnosisFrame_def diagnosisJson_def pipelineRunJson_def emptyDiagnosis_def conditionsJson_def length_jsonObject
      length_jsonArray joinedLength_Cons strField_def length_jsonBool tasksSize_def o_def)

lemma task_size:
  "length (taskRunJson t) =
     length (taskRunJson (t\<lparr>dtConditions := [], dtFailedSteps := []\<rparr>)) + conditionsSize (dtConditions t) + stepsSize (dtFailedSteps t)"
  by (simp add: taskRunJson_def length_jsonObject length_jsonArray joinedLength_append joinedLength_Cons
      conditionsSize_def stepsSize_def o_def)

definition stepFrame :: "diagnosedStep \<Rightarrow> nat" where
  "stepFrame st = length (stepJson (st\<lparr>dsLogTail := [], dsLogTruncated := True\<rparr>))"

lemma step_size:
  "length (stepJson st) =
     stepFrame st + (if dsLogTail st = [] then 0 else 11 + length (jsonString (dsLogTail st))) + (if dsLogTruncated st then 0 else 1)"
proof -
  have k: "length (jsonString ''logTail'') = 9"
    by (simp add: jsonString_def escapeRune_def escapeAscii_def isRune_def)
  show ?thesis
    by (simp add: stepFrame_def stepJson_def length_jsonObject joinedLength_append joinedLength_Cons strOmit_def omitEmpty_def
        length_jsonBool k strField_def split: option.splits)
qed

lemma stepFrame_log [simp]: "stepFrame (st\<lparr>dsLogTail := t\<rparr>) = stepFrame st"
  "stepFrame (st\<lparr>dsLogTruncated := b\<rparr>) = stepFrame st"
  by (simp_all add: stepFrame_def)

lemma conditions_nil_size: "length (conditionsJson None) = 4" "length (conditionsJson (Some cs)) = 2 + conditionsSize cs"
  by (simp_all add: conditionsJson_def length_jsonArray conditionsSize_def o_def)

lemma conditionsSize_perm: "mset cs = mset cs' \<Longrightarrow> conditionsSize cs = conditionsSize cs'"
  unfolding conditionsSize_def by (rule joinedLength_perm) (simp add: mset_map)

lemma tasksSize_last: "tasksSize (ts @ [t]) = tasksSize ts + length (taskRunJson t) + (if ts = [] then 0 else 1)"
  by (auto simp: tasksSize_def joinedLength_append joinedLength_Cons)

lemma stepsSize_last: "stepsSize (xs @ [x]) = stepsSize xs + length (stepJson x) + (if xs = [] then 0 else 1)"
  by (auto simp: stepsSize_def joinedLength_append joinedLength_Cons)

text \<open>What changes only the last TaskRun or the last step changes the size by its difference.\<close>

lemma onLast_append [simp]: "onLast f (xs @ [x]) = xs @ [f x]" "onLast f [] = []"
  by (simp_all add: onLast_def)

lemma tasksSize_onLast:
  "length (taskRunJson (f (last ts))) \<le> length (taskRunJson (last ts)) + n \<Longrightarrow> tasksSize (onLast f ts) \<le> tasksSize ts + n"
  by (cases ts rule: rev_cases) (auto simp: tasksSize_last)

lemma stepsSize_onLast:
  "length (stepJson (f (last xs))) \<le> length (stepJson (last xs)) + n \<Longrightarrow> stepsSize (onLast f xs) \<le> stepsSize xs + n"
  by (cases xs rule: rev_cases) (auto simp: stepsSize_last)

lemma task_size_steps:
  "length (taskRunJson (t\<lparr>dtFailedSteps := xs\<rparr>)) + stepsSize (dtFailedSteps t) = length (taskRunJson t) + stepsSize xs"
  by (simp add: task_size [of t] task_size [of "t\<lparr>dtFailedSteps := xs\<rparr>"])

lemma task_size_conditions:
  "length (taskRunJson (t\<lparr>dtConditions := cs\<rparr>)) + conditionsSize (dtConditions t) = length (taskRunJson t) + conditionsSize cs"
  by (simp add: task_size [of t] task_size [of "t\<lparr>dtConditions := cs\<rparr>"])

lemma tasksSize_onLastStep:
  assumes "length (stepJson (f (last (dtFailedSteps (last ts))))) \<le> length (stepJson (last (dtFailedSteps (last ts)))) + n"
  shows "tasksSize (onLast (\<lambda>t. t\<lparr>dtFailedSteps := onLast f (dtFailedSteps t)\<rparr>) ts) \<le> tasksSize ts + n"
proof (rule tasksSize_onLast)
  let ?t = "last ts" and ?xs = "onLast f (dtFailedSteps (last ts))"
  have "stepsSize ?xs \<le> stepsSize (dtFailedSteps ?t) + n" using assms by (rule stepsSize_onLast)
  then show "length (taskRunJson (?t\<lparr>dtFailedSteps := ?xs\<rparr>)) \<le> length (taskRunJson ?t) + n"
    using task_size_steps [where t = ?t and xs = ?xs] by linarith
qed

section \<open>Moves\<close>

definition accepted :: "diagState \<Rightarrow> bool" where
  "accepted s \<longleftrightarrow> (bgCapped (sB s) \<longrightarrow> encodedSize s + bgReserved (sB s) \<le> bgPayloadLimit (sB s))"

definition fetchable :: "diagState \<Rightarrow> bool" where
  "fetchable s \<longleftrightarrow> (bgCapped (sB s) \<longrightarrow> \<not> bgBlocked (sB s) \<and> remainingBudget s \<noteq> 0)"

definition logSum :: "diagnosis \<Rightarrow> int" where
  "logSum d = sum_list (map (\<lambda>t. sum_list (map (\<lambda>x. int (length (dsLogTail x))) (dtFailedSteps t))) (dgFailedTaskRuns d))"

definition freshStep :: "diagnosedStep \<Rightarrow> bool" where
  "freshStep d \<longleftrightarrow> okText (dsReason d) \<and> okText (dsMessage d) \<and> dsLogTail d = []"

definition okCondition :: "diagnosedCondition \<Rightarrow> bool" where
  "okCondition c \<longleftrightarrow> okText (dcReason c) \<and> okText (dcMessage c)"

definition okEvent :: "diagnosedEvent \<Rightarrow> bool" where
  "okEvent e \<longleftrightarrow> okText (deReason e) \<and> okText (deMessage e)"

definition addTask :: "diagnosedTaskRun \<Rightarrow> diagState \<Rightarrow> diagState" where
  "addTask t s = s\<lparr>sR := (sR s)\<lparr>dgFailedTaskRuns := dgFailedTaskRuns (sR s) @ [t]\<rparr>\<rparr>"

definition addStep :: "diagnosedStep \<Rightarrow> diagState \<Rightarrow> diagState" where
  "addStep d = onLastTask (\<lambda>t. t\<lparr>dtFailedSteps := dtFailedSteps t @ [d]\<rparr>)"

definition setLog :: "string \<Rightarrow> bool \<Rightarrow> diagState \<Rightarrow> diagState" where
  "setLog tail wasCut = onLastStep (\<lambda>x. x\<lparr>dsLogTail := tail, dsLogTruncated := wasCut\<rparr>)"

definition addEvent :: "diagnosedEvent \<Rightarrow> diagState \<Rightarrow> diagState" where
  "addEvent e s = s\<lparr>sR := (sR s)\<lparr>dgWarningEvents := dgWarningEvents (sR s) @ [e]\<rparr>\<rparr>"

definition addError :: "partialError \<Rightarrow> diagState \<Rightarrow> diagState" where
  "addError e s = s\<lparr>sR := (sR s)\<lparr>dgPartialErrors := dgPartialErrors (sR s) @ [e]\<rparr>\<rparr>"

definition asked :: "tektonOp \<Rightarrow> diagState \<Rightarrow> diagState" where
  "asked op s = s\<lparr>sL := sL s @ [op]\<rparr>"

definition setReserved :: "int \<Rightarrow> diagState \<Rightarrow> diagState" where
  "setReserved n s = s\<lparr>sB := (sB s)\<lparr>bgReserved := n\<rparr>\<rparr>"

text \<open>The requests of a diagnosis of a PipelineRun in a namespace, after the run itself was read.\<close>

fun evidenceOp :: "string \<Rightarrow> tektonOp \<Rightarrow> bool" where
  "evidenceOp ns (TList gvr n sel limit cont) = (gvr = taskRunGVR \<and> n = ns \<and> limit = 50)"
| "evidenceOp ns (TLogs n pod container tail) = (n = ns \<and> tail = 100)"
| "evidenceOp ns (TEvents n sel limit) = (n = ns \<and> 1 \<le> limit \<and> limit \<le> 51)"
| "evidenceOp ns _ = False"

inductive move :: "string \<Rightarrow> diagState \<Rightarrow> diagState \<Rightarrow> bool" for ns where
  flag: "move ns s (setTruncated b s)"
| blocked: "move ns s (blockBudget s)"
| ask: "fetchable s \<Longrightarrow> evidenceOp ns op \<Longrightarrow> move ns s (asked op s)"
| reserve: "fetchable s \<Longrightarrow> bgCapped (sB s) \<Longrightarrow> 0 \<le> n \<Longrightarrow> n \<le> remainingBudget s \<Longrightarrow>
    move ns s (setReserved (bgReserved (sB s) + n) s)"
| release: "bgCapped (sB s) \<Longrightarrow> 0 \<le> n \<Longrightarrow> n \<le> max 0 (bgReserved (sB s)) \<Longrightarrow> move ns s (setReserved n s)"
| error: "okText (peMessage e) \<Longrightarrow> accepted (addError e s) \<Longrightarrow> move ns s (addError e s)"
| condition: "okCondition c \<Longrightarrow> accepted (s\<lparr>sR := addCondition dest c (sR s)\<rparr>) \<Longrightarrow>
    move ns s (s\<lparr>sR := addCondition dest c (sR s)\<rparr>)"
| reorder: "(\<And>cs. mset (f cs) = mset cs) \<Longrightarrow> move ns s (s\<lparr>sR := onConditions dest f (sR s)\<rparr>)"
| emptied: "dgConditions (sR s) = None \<Longrightarrow> move ns s (s\<lparr>sR := (sR s)\<lparr>dgConditions := Some []\<rparr>\<rparr>)"
| task: "dtConditions t = [] \<Longrightarrow> dtFailedSteps t = [] \<Longrightarrow> length (dgFailedTaskRuns (sR s)) < maxDiagnosisTaskRuns \<Longrightarrow>
    accepted (addTask t s) \<Longrightarrow> move ns s (addTask t s)"
| stepAdded: "freshStep d \<Longrightarrow> dgFailedTaskRuns (sR s) \<noteq> [] \<Longrightarrow> length (lastSteps s) < maxDiagnosisFailedStepsPerTask \<Longrightarrow>
    accepted (addStep d s) \<Longrightarrow> move ns s (addStep d s)"
| logCut: "move ns s (onLastStep cutLog s)"
| log: "utf8Valid t \<Longrightarrow> int (length t) \<le> maxDiagnosisLogBytesPerStep \<Longrightarrow>
    logSum (sR s) + int (length t) \<le> maxDiagnosisLogBytesTotal \<Longrightarrow>
    lastSteps s \<noteq> [] \<Longrightarrow> dsLogTail (last (lastSteps s)) = [] \<Longrightarrow>
    accepted (setLog t b s) \<Longrightarrow> move ns s (setLog t b s)"
| event: "okEvent e \<Longrightarrow> length (dgWarningEvents (sR s)) < maxDiagnosisWarningEvents \<Longrightarrow>
    accepted (addEvent e s) \<Longrightarrow> move ns s (addEvent e s)"
| eventsSorted: "mset es = mset (dgWarningEvents (sR s)) \<Longrightarrow> move ns s (s\<lparr>sR := (sR s)\<lparr>dgWarningEvents := es\<rparr>\<rparr>)"

abbreviation moves :: "string \<Rightarrow> diagState \<Rightarrow> diagState \<Rightarrow> bool" where
  "moves ns \<equiv> (move ns)\<^sup>*\<^sup>*"

lemma moves1: "move ns s t \<Longrightarrow> moves ns s t"
  by (rule r_into_rtranclp)

lemma moves2: "move ns s t \<Longrightarrow> move ns t u \<Longrightarrow> moves ns s u"
  by (meson converse_rtranclp_into_rtranclp r_into_rtranclp)

lemma moves_flag: "moves ns s (setTruncated b s)"
  by (rule moves1 [OF flag])

lemma moves_then_flag: "moves ns s t \<Longrightarrow> moves ns s (setTruncated b t)"
  by (rule rtranclp.rtrancl_into_rtrancl [where r = "move ns", OF _ flag])

lemma moves_block: "moves ns s (blockBudget (setTruncated b s))"
  by (rule moves2 [OF flag blocked])

lemmas moves_trans = rtranclp_trans [where r = "move ns" for ns]

subsection \<open>The functions are sequences of moves\<close>

lemma accept_cases:
  assumes "acceptResult s = (b, s')"
  shows "(b \<and> s' = s \<and> accepted s) \<or> (\<not> b \<and> s' = blockBudget s)"
  using assms by (auto simp: acceptResult_def accepted_def split: if_splits)

lemma canFetch_cases:
  assumes "canFetch s = (b, s')"
  shows "(b \<and> s' = s \<and> fetchable s) \<or> (\<not> b \<and> s' = blockBudget s)"
  using assms by (auto simp: canFetch_def fetchable_def split: if_splits)

lemma flagged_state: "s\<lparr>sR := (sR s)\<lparr>dgTruncated := dgTruncated (sR s) \<or> b\<rparr>\<rparr> = setTruncated b s"
  by (simp add: setTruncated_def)

lemma setTruncated_sR: "sR (setTruncated b s) = (sR s)\<lparr>dgTruncated := dgTruncated (sR s) \<or> b\<rparr>"
  "sB (setTruncated b s) = sB s" "sL (setTruncated b s) = sL s"
  by (simp_all add: setTruncated_def)

lemma blockBudget_fields [simp]:
  "sR (blockBudget s) = (sR s)\<lparr>dgTruncated := True\<rparr>" "sL (blockBudget s) = sL s"
  "sB (blockBudget s) = (sB s)\<lparr>bgBlocked := True\<rparr>"
  by (simp_all add: blockBudget_def setTruncated_def)

text \<open>A part that was added, did not fit and was taken back leaves only the flags.\<close>

lemma addError_moves: "moves ns s (addPartialError source err s)"
proof -
  obtain m b where t: "truncateText err (sR s) = (m, (sR s)\<lparr>dgTruncated := dgTruncated (sR s) \<or> b\<rparr>)" and m: "okText m"
    by (metis surj_pair truncateText_flag)
  let ?s = "setTruncated b s" and ?e = "\<lparr>peSource = source, peMessage = m\<rparr>"
  obtain ok s' where a: "acceptResult (addError ?e ?s) = (ok, s')" by (cases "acceptResult (addError ?e ?s)")
  have def: "addPartialError source err s =
      (case acceptResult (addError ?e ?s) of (True, s) \<Rightarrow> s
       | (False, s) \<Rightarrow> s\<lparr>sR := (sR s)\<lparr>dgPartialErrors := butlast (dgPartialErrors (sR s))\<rparr>\<rparr>)"
    by (simp add: addPartialError_def t addError_def setTruncated_def)
  show ?thesis
  proof (cases ok)
    case True
    then have "addPartialError source err s = addError ?e ?s" "accepted (addError ?e ?s)"
      using accept_cases [OF a] a def by auto
    then show ?thesis using m by (auto intro: moves2 [OF flag error])
  next
    case False
    then have "addPartialError source err s = blockBudget ?s"
      using accept_cases [OF a] a def by (auto simp: addError_def blockBudget_def setTruncated_def)
    then show ?thesis by (simp add: moves_block)
  qed
qed

lemma truncateText_obtain:
  obtains t' b where "truncateText t d = (t', d\<lparr>dgTruncated := dgTruncated d \<or> b\<rparr>)" "okText t'"
  by (metis surj_pair truncateText_flag)

text \<open>Two texts that are truncated one after the other leave one flag.\<close>

lemma truncate_two:
  obtains t1 t2 e b where "truncateText x d = (t1, e)" "truncateText y e = (t2, d\<lparr>dgTruncated := dgTruncated d \<or> b\<rparr>)"
    "okText t1" "okText t2"
proof -
  obtain t1 b1 where 1: "truncateText x d = (t1, d\<lparr>dgTruncated := dgTruncated d \<or> b1\<rparr>)" "okText t1"
    by (rule truncateText_obtain)
  obtain t2 b2 where 2: "truncateText y (d\<lparr>dgTruncated := dgTruncated d \<or> b1\<rparr>) =
      (t2, d\<lparr>dgTruncated := dgTruncated d \<or> b1\<rparr>\<lparr>dgTruncated := dgTruncated (d\<lparr>dgTruncated := dgTruncated d \<or> b1\<rparr>) \<or> b2\<rparr>)" "okText t2"
    by (rule truncateText_obtain)
  show ?thesis by (rule that [OF 1(1), of t2 "b1 \<or> b2"]) (use 1 2 in \<open>simp_all add: disj_assoc\<close>)
qed

lemma diagnoseCondition_obtain:
  obtains dc b where "diagnoseCondition d c = (dc, d\<lparr>dgTruncated := dgTruncated d \<or> b\<rparr>)" "okCondition dc"
    "dcType dc = kcType c" "dcStatus dc = kcStatus c"
proof (rule truncate_two [of "kcReason c" d "kcMessage c"])
  fix t1 t2 e b
  assume *: "truncateText (kcReason c) d = (t1, e)" "truncateText (kcMessage c) e = (t2, d\<lparr>dgTruncated := dgTruncated d \<or> b\<rparr>)"
    "okText t1" "okText t2"
  show thesis
    by (rule that [of "\<lparr>dcType = kcType c, dcStatus = kcStatus c, dcReason = t1, dcMessage = t2\<rparr>" b])
      (simp_all add: diagnoseCondition_def okCondition_def *)
qed

lemma okText_Nil [simp]: "okText []"
  by (simp add: okText_def)

lemma diagnoseStep_obtain:
  obtains x b where "diagnoseStep d st = (x, d\<lparr>dgTruncated := dgTruncated d \<or> b\<rparr>)" "freshStep x" "dsName x = ssName st"
proof (cases "ssTerminated st")
  case (Some t)
  show ?thesis
    by (rule truncate_two [of "tsReason t" d "tsMessage t"], rule that)
      (auto simp: Some diagnoseStep_def Let_def freshStep_def)
next
  case N: None
  show ?thesis
  proof (cases "ssWaiting st")
    case (Some t)
    show ?thesis
      by (rule truncate_two [of "wsReason t" d "wsMessage t"], rule that)
        (auto simp: Some N diagnoseStep_def Let_def freshStep_def)
  next
    case None
    show ?thesis by (rule that [of "fst (diagnoseStep d st)" False])
        (use None N in \<open>simp_all add: diagnoseStep_def Let_def freshStep_def\<close>)
  qed
qed

lemma sort_conditions_perm: "mset (sortDiagnosisConditions cs) = mset cs"
  by (simp add: sortDiagnosisConditions_def)

lemma dropped_condition:
  "onConditions dest (\<lambda>cs. f (butlast cs)) (addCondition dest c d) =
     onConditions dest f (if dest = OfPipelineRun \<and> dgConditions d = None then d\<lparr>dgConditions := Some []\<rparr> else d)"
  by (cases dest; cases "dgFailedTaskRuns d" rule: rev_cases) (auto split: option.splits)

lemma addCondition_flag:
  "(addCondition dest c d)\<lparr>dgTruncated := b\<rparr> = addCondition dest c (d\<lparr>dgTruncated := b\<rparr>)"
  by (cases dest) simp_all

lemma emptied_if:
  "moves ns u (if P \<and> dgConditions (sR u) = None then u\<lparr>sR := (sR u)\<lparr>dgConditions := Some []\<rparr>\<rparr> else u)"
  by (auto intro: moves1 [OF emptied])

lemma conditions_moves: "moves ns s (snd (appendDiagnosisConditions dest cs s))"
proof (induction cs arbitrary: s)
  case Nil
  show ?case by (auto intro!: moves1 [OF reorder] simp: sort_conditions_perm)
next
  case (Cons c cs)
  obtain dc b where d: "diagnoseCondition (sR s) c = (dc, (sR s)\<lparr>dgTruncated := dgTruncated (sR s) \<or> b\<rparr>)" "okCondition dc"
    by (rule diagnoseCondition_obtain)
  let ?s = "setTruncated b s"
  let ?t = "?s\<lparr>sR := addCondition dest dc (sR ?s)\<rparr>"
  have t: "s\<lparr>sR := addCondition dest dc ((sR s)\<lparr>dgTruncated := dgTruncated (sR s) \<or> b\<rparr>)\<rparr> = ?t"
    by (simp add: setTruncated_def)
  obtain ok s' where a: "acceptResult ?t = (ok, s')" by (cases "acceptResult ?t")
  show ?case
  proof (cases ok)
    case True
    then have "s' = ?t" "accepted ?t" using accept_cases [OF a] by auto
    moreover from this d(2) have "moves ns s ?t" by (auto intro: moves2 [OF flag condition])
    moreover have "snd (appendDiagnosisConditions dest (c # cs) s) = snd (appendDiagnosisConditions dest cs ?t)"
      using a True d(1) \<open>s' = ?t\<close> by (simp add: t)
    ultimately show ?thesis using Cons.IH [of ?t] by (metis moves_trans)
  next
    case False
    let ?u = "blockBudget ?s"
    let ?v = "if dest = OfPipelineRun \<and> dgConditions (sR ?u) = None then ?u\<lparr>sR := (sR ?u)\<lparr>dgConditions := Some []\<rparr>\<rparr> else ?u"
    have "s' = blockBudget ?t" using accept_cases [OF a] False by auto
    then have "snd (appendDiagnosisConditions dest (c # cs) s) = ?v\<lparr>sR := onConditions dest sortDiagnosisConditions (sR ?v)\<rparr>"
      using a False d(1) by (simp add: t dropped_condition addCondition_flag)
    moreover have "moves ns s ?u" by (rule moves_block)
    moreover have "moves ns ?u ?v" by (rule emptied_if)
    moreover have "moves ns ?v (?v\<lparr>sR := onConditions dest sortDiagnosisConditions (sR ?v)\<rparr>)"
      by (rule moves1 [OF reorder]) (rule sort_conditions_perm)
    ultimately show ?thesis by (metis moves_trans)
  qed
qed

subsection \<open>A log that was asked for fits\<close>

lemma encodedSize_tasks:
  assumes "dgNamespace d = dgNamespace (sR s)" "dgName d = dgName (sR s)" "dgConditions d = dgConditions (sR s)"
    "dgWarningEvents d = dgWarningEvents (sR s)" "dgPartialErrors d = dgPartialErrors (sR s)"
    "dgTruncated (sR s) \<longrightarrow> dgTruncated d"
    "tasksSize (dgFailedTaskRuns d) \<le> tasksSize (dgFailedTaskRuns (sR s)) + n"
  shows "int (length (diagnosisJson d)) \<le> encodedSize s + int n"
  using assms by (auto simp: encodedSize_def diagnosis_size)

lemma lastSteps_nonempty: "lastSteps s \<noteq> [] \<Longrightarrow> dgFailedTaskRuns (sR s) \<noteq> []"
  by (auto simp: lastSteps_def)

lemma lastSteps_last: "dgFailedTaskRuns (sR s) \<noteq> [] \<Longrightarrow> lastSteps s = dtFailedSteps (last (dgFailedTaskRuns (sR s)))"
  by (auto simp: lastSteps_def split: list.splits)

lemma setLog_size:
  assumes "lastSteps s \<noteq> []" "dsLogTail (last (lastSteps s)) = []"
  shows "encodedSize (setTruncated b (setLog t c s)) \<le> encodedSize s + (13 + 6 * int (length t)) + 1"
proof -
  let ?x = "last (lastSteps s)" and ?f = "\<lambda>x. x\<lparr>dsLogTail := t, dsLogTruncated := c\<rparr>"
  have "length (stepJson (?f ?x)) \<le> length (stepJson ?x) + (13 + 6 * length t + 1)"
    using assms(2) length_jsonString [of t] by (simp add: step_size)
  then have "tasksSize (onLast (\<lambda>u. u\<lparr>dtFailedSteps := onLast ?f (dtFailedSteps u)\<rparr>) (dgFailedTaskRuns (sR s)))
      \<le> tasksSize (dgFailedTaskRuns (sR s)) + (13 + 6 * length t + 1)"
    by (intro tasksSize_onLastStep) (simp add: lastSteps_last [OF lastSteps_nonempty [OF assms(1)]])
  then have "int (length (diagnosisJson (sR (setTruncated b (setLog t c s))))) \<le> encodedSize s + int (13 + 6 * length t + 1)"
    by (intro encodedSize_tasks) (simp_all add: setLog_def onLastStep_def onLastTask_def setTruncated_sR)
  then show ?thesis by (simp add: encodedSize_def)
qed

lemma remaining_eq:
  "bgCapped (sB s) \<Longrightarrow> fetchable s \<Longrightarrow>
     remainingBudget s = bgPayloadLimit (sB s) - encodedSize s - bgReserved (sB s) \<and> 0 < remainingBudget s"
  by (auto simp: fetchable_def remainingBudget_def Let_def split: if_splits)

lemma logLimit_room:
  assumes "fetchable s" "bgCapped (sB s)" "0 < logLimitFor n s"
  shows "6 * logLimitFor n s + 32 \<le> remainingBudget s"
proof -
  have r: "0 < remainingBudget s" using remaining_eq assms by blast
  have "logLimitFor n s \<le> max 0 (remainingBudget s - 32) div 6" using r by (simp add: logLimitFor_def Let_def)
  moreover from this assms(3) have "remainingBudget s - 32 > 0" by (cases "remainingBudget s - 32 \<le> 0") auto
  ultimately have "logLimitFor n s \<le> (remainingBudget s - 32) div 6" by simp
  then have "6 * logLimitFor n s \<le> 6 * ((remainingBudget s - 32) div 6)" by simp
  also have "\<dots> \<le> remainingBudget s - 32" using div_times_less_eq_dividend by (simp add: mult.commute)
  finally show ?thesis by simp
qed

lemma logLimit_caps: "logLimitFor n s \<le> n" "logLimitFor n s \<le> maxDiagnosisLogBytesPerStep"
  by (auto simp: logLimitFor_def Let_def min_def)

lemma budget_setLog [simp]: "sB (setLog t b s) = sB s" "sL (setLog t b s) = sL s"
  by (simp_all add: setLog_def onLastStep_def onLastTask_def)

text \<open>
  The 32 bytes and the factor 6 are enough: the field of a log tail within the limit is never
  larger than what was left.
\<close>

lemma log_fits:
  assumes "fetchable s" "0 < logLimitFor n s" "int (length t) \<le> logLimitFor n s"
    "lastSteps s \<noteq> []" "dsLogTail (last (lastSteps s)) = []"
  shows "accepted (setTruncated b (setLog t c s))"
proof (cases "bgCapped (sB s)")
  case True
  have "encodedSize (setTruncated b (setLog t c s)) \<le> encodedSize s + 14 + 6 * int (length t)"
    using setLog_size [OF assms(4,5), of b t c] by simp
  also have "\<dots> + 18 \<le> bgPayloadLimit (sB s) - bgReserved (sB s)"
    using remaining_eq [OF True assms(1)] logLimit_room [OF assms(1) True assms(2)] assms(3) by linarith
  finally show ?thesis by (simp add: accepted_def setTruncated_sR)
qed (simp add: accepted_def setTruncated_sR)

subsection \<open>Steps and TaskRuns\<close>

text \<open>The steps of the TaskRuns so far: what the rest of the collection leaves alone.\<close>

definition stepTable :: "diagState \<Rightarrow> diagnosedStep list list" where
  "stepTable s = map dtFailedSteps (dgFailedTaskRuns (sR s))"

lemma logSum_table: "logSum (sR s) = sum_list (map (\<lambda>x. int (length (dsLogTail x))) (concat (stepTable s)))"
proof -
  have c: "sum_list (concat xss) = sum_list (map sum_list xss)" for xss :: "int list list" by (induction xss) auto
  show ?thesis by (simp add: logSum_def stepTable_def map_concat c o_def)
qed

lemma logSum_truncated [simp]: "logSum (d\<lparr>dgTruncated := b\<rparr>) = logSum d"
  by (simp add: logSum_def)

lemma lastSteps_table: "lastSteps s = (if stepTable s = [] then [] else last (stepTable s))"
  by (auto simp: lastSteps_def stepTable_def last_map split: list.splits)

lemma stepTable_frame [simp]:
  "stepTable (setTruncated b s) = stepTable s" "stepTable (blockBudget s) = stepTable s"
  "stepTable (s\<lparr>sL := l\<rparr>) = stepTable s" "stepTable (s\<lparr>sB := c\<rparr>) = stepTable s"
  by (simp_all add: stepTable_def setTruncated_def)

lemma stepTable_onLastStep: "stepTable (onLastStep f s) = onLast (onLast f) (stepTable s)"
  by (cases "dgFailedTaskRuns (sR s)" rule: rev_cases) (simp_all add: stepTable_def onLastStep_def onLastTask_def)

lemma stepTable_onLastTask: "stepTable (onLastTask (\<lambda>t. t\<lparr>dtFailedSteps := g (dtFailedSteps t)\<rparr>) s) = onLast g (stepTable s)"
  by (cases "dgFailedTaskRuns (sR s)" rule: rev_cases) (simp_all add: stepTable_def onLastTask_def)

lemma onLast_Nil_iff [simp]: "onLast f xs = [] \<longleftrightarrow> xs = []"
  by (simp add: onLast_def)

lemma last_onLast: "xs \<noteq> [] \<Longrightarrow> last (onLast f xs) = f (last xs)"
  by (simp add: onLast_def)

lemma length_onLast [simp]: "length (onLast f xs) = length xs"
  by (cases xs rule: rev_cases) simp_all

lemma stepTable_acceptResult: "stepTable (snd (acceptResult s)) = stepTable s"
  by (simp add: acceptResult_def)

lemma stepTable_sR: "dgFailedTaskRuns (sR s') = dgFailedTaskRuns (sR s) \<Longrightarrow> stepTable s' = stepTable s"
  by (simp add: stepTable_def)

lemma stepTable_addPartialError [simp]: "stepTable (addPartialError source err s) = stepTable s"
  by (rule stepTable_sR) (auto simp: addPartialError_def truncateText_def acceptResult_def split: prod.splits)

lemma logSum_onLastStep:
  assumes "lastSteps s \<noteq> []"
  shows "logSum (sR (onLastStep f s)) =
    logSum (sR s) + int (length (dsLogTail (f (last (lastSteps s))))) - int (length (dsLogTail (last (lastSteps s))))"
proof -
  obtain tss ts where t: "stepTable s = tss @ [ts]"
    using assms by (metis lastSteps_table rev_exhaust)
  moreover from this assms obtain xs x where "ts = xs @ [x]"
    by (metis lastSteps_table rev_exhaust append_is_Nil_conv last_snoc not_Cons_self2)
  ultimately show ?thesis by (simp add: logSum_table stepTable_onLastStep lastSteps_table)
qed

lemma asked_simps [simp]:
  "sR (asked op s) = sR s" "sB (asked op s) = sB s" "stepTable (asked op s) = stepTable s"
  "lastSteps (asked op s) = lastSteps s" "fetchable (asked op s) = fetchable s" "logLimitFor n (asked op s) = logLimitFor n s"
  by (simp_all add: asked_def lastSteps_def fetchable_def remainingBudget_def logLimitFor_def encodedSize_def)

lemma setTruncated_False [simp]: "setTruncated False s = s"
  by (simp add: setTruncated_def)

lemma stepTable_setLog: "length (stepTable (setLog t b s)) = length (stepTable s)"
  by (simp add: setLog_def stepTable_onLastStep)

lemma logSum_setLog:
  "lastSteps s \<noteq> [] \<Longrightarrow> dsLogTail (last (lastSteps s)) = [] \<Longrightarrow> logSum (sR (setLog t b s)) = logSum (sR s) + int (length t)"
  by (simp add: setLog_def logSum_onLastStep)

lemma readLog_flow:
  assumes "lastSteps s \<noteq> []" "dsLogTail (last (lastSteps s)) = []" "n = maxDiagnosisLogBytesTotal - logSum (sR s)"
    "fetchable s" "\<not> (tkPodName tr = [] \<or> ssContainer st = [])" "\<not> n \<le> 0" "canFetch s = (True, s)" "\<not> logLimitFor n s \<le> 0"
  obtains n' s' where "diagnoseLog env ns tr st n s = (Continue, n', s')" "moves ns s s'"
    "n' = maxDiagnosisLogBytesTotal - logSum (sR s')" "length (stepTable s') = length (stepTable s)"
proof -
  let ?m = "logLimitFor n s"
  let ?op = "TLogs ns (tkPodName tr) (ssContainer st) maxDiagnosisLogTailLines"
  let ?s = "asked ?op s"
  obtain r l where rl: "readContainerLog env ns (tkPodName tr) (ssContainer st) ?m maxDiagnosisLogTailLines (sL s) = (r, l)"
    by (metis surj_pair)
  have l: "s\<lparr>sL := l\<rparr> = ?s" using readContainerLog_log [of env ns "tkPodName tr" "ssContainer st" ?m maxDiagnosisLogTailLines "sL s"] rl
    by (simp add: asked_def)
  have ask: "move ns s ?s" by (rule ask [OF assms(4)]) (simp add: maxDiagnosisLogTailLines_def)
  show ?thesis
  proof (cases r)
    case (Inl err)
    then show ?thesis
      by (intro that [of n "addPartialError (''logs/'' @ tkName tr @ ''/'' @ ssName st) err ?s"])
        (use assms rl l ask in
          \<open>auto simp: diagnoseLog_def Let_def logSum_table asked_simps intro: moves_trans [OF moves1 addError_moves]\<close>)
  next
    case (Inr p)
    obtain logText readCut where p: "p = (logText, readCut)" by (cases p)
    obtain t tailCut where t: "truncateUTF8Bytes (toValidUTF8 logText) ?m = (t, tailCut)" by (metis surj_pair)
    have tspec: "utf8Valid t" "int (length t) \<le> ?m"
      using truncateUTF8Bytes_spec [OF t] assms(8) by auto
    let ?w = "tailCut \<or> readCut"
    have fits: "accepted (setTruncated b (setLog t ?w ?s))" for b
      by (rule log_fits [of ?s n]) (use assms tspec in \<open>simp_all add: asked_simps\<close>)
    have log: "move ns ?s (setLog t ?w ?s)"
      using tspec logLimit_caps [of n s] assms fits [of False]
      by (intro log) (auto simp: asked_simps)
    have acc: "acceptResult (setTruncated ?w (setLog t ?w ?s)) = (True, setTruncated ?w (setLog t ?w ?s))"
      using fits [of ?w] by (simp add: acceptResult_def accepted_def)
    show ?thesis
      by (intro that [of "n - int (length t)" "setTruncated ?w (setLog t ?w ?s)"])
        (use assms rl l ask Inr p t acc log moves2 [OF ask log] in
          \<open>auto simp: diagnoseLog_def Let_def setLog_def [symmetric] stepTable_setLog setTruncated_sR logSum_setLog asked_simps
             intro: moves_then_flag\<close>)
  qed
qed

lemma freshLog_flow:
  assumes "lastSteps s \<noteq> []" "dsLogTail (last (lastSteps s)) = []" "n = maxDiagnosisLogBytesTotal - logSum (sR s)"
  obtains n' s' where "diagnoseLog env ns tr st n s = (Continue, n', s')" "moves ns s s'"
    "n' = maxDiagnosisLogBytesTotal - logSum (sR s')" "length (stepTable s') = length (stepTable s)"
proof (cases "tkPodName tr = [] \<or> ssContainer st = []")
  case True
  then show ?thesis by (intro that [of n s]) (use assms in \<open>auto simp: diagnoseLog_def\<close>)
next
  case run: False
  have cutSum: "logSum (sR (onLastStep cutLog s)) = logSum (sR s)"
    using assms by (simp add: logSum_onLastStep cutLog_def)
  show ?thesis
  proof (cases "n \<le> 0")
    case True
    then show ?thesis
      by (intro that [of n "setTruncated True (onLastStep cutLog s)"])
        (use assms run cutSum in \<open>auto simp: diagnoseLog_def stepTable_onLastStep setTruncated_sR logSum_def intro: moves2 [OF logCut flag]\<close>)
  next
    case pos: False
    obtain can s1 where c: "canFetch s = (can, s1)" by (cases "canFetch s")
    show ?thesis
    proof (cases can)
      case False
      then have "s1 = blockBudget s" using canFetch_cases [OF c] by simp
      then show ?thesis
        by (intro that [of n "onLastStep cutLog (blockBudget s)"])
          (use assms run pos c False cutSum in \<open>auto simp: diagnoseLog_def stepTable_onLastStep logSum_table intro: moves2 [OF blocked logCut]\<close>)
    next
      case True
      then have s1: "s1 = s" and f: "fetchable s" using canFetch_cases [OF c] by auto
      let ?m = "logLimitFor n s"
      show ?thesis
      proof (cases "?m \<le> 0")
        case True
        then show ?thesis
          by (intro that [of n "blockBudget (onLastStep cutLog s)"])
            (use assms run pos c s1 \<open>can\<close> cutSum in \<open>auto simp: diagnoseLog_def stepTable_onLastStep logSum_table intro: moves2 [OF logCut blocked]\<close>)
      next
        case m: False
        show ?thesis by (rule readLog_flow [of s n tr st]) (use assms f run pos c s1 \<open>can\<close> m that in auto)
      qed
    qed
  qed
qed

lemma addStep_table: "stepTable (addStep d s) = onLast (\<lambda>xs. xs @ [d]) (stepTable s)"
  unfolding addStep_def by (rule stepTable_onLastTask)

lemma addStep_dropped:
  "onLastTask (\<lambda>t. t\<lparr>dtFailedSteps := butlast (dtFailedSteps t)\<rparr>) (blockBudget (addStep d s)) = blockBudget s"
  by (cases "dgFailedTaskRuns (sR s)" rule: rev_cases) (simp_all add: onLastTask_def addStep_def blockBudget_def setTruncated_def)

lemma logSum_addStep: "dsLogTail d = [] \<Longrightarrow> logSum (sR (addStep d s)) = logSum (sR s)"
  by (cases "stepTable s" rule: rev_cases) (simp_all add: logSum_table addStep_table)

lemma logSum_block [simp]: "logSum (sR (blockBudget s)) = logSum (sR s)" "logSum (sR (setTruncated b s)) = logSum (sR s)"
  by (simp_all add: setTruncated_sR)

lemma stepTable_eq_Nil: "stepTable s = [] \<longleftrightarrow> dgFailedTaskRuns (sR s) = []"
  by (simp add: stepTable_def)

text \<open>What a collecting function keeps: the number of TaskRuns, and the account of the log bytes.\<close>

definition keepsTable :: "string \<Rightarrow> diagState \<Rightarrow> int \<Rightarrow> diagState \<Rightarrow> bool" where
  "keepsTable ns s n s' \<longleftrightarrow>
     moves ns s s' \<and> n = maxDiagnosisLogBytesTotal - logSum (sR s') \<and> length (stepTable s') = length (stepTable s)"

lemma keepsTable_trans: "moves ns s t \<Longrightarrow> length (stepTable t) = length (stepTable s) \<Longrightarrow> keepsTable ns t n u \<Longrightarrow> keepsTable ns s n u"
  by (auto simp: keepsTable_def intro: rtranclp_trans)

lemma addStep_cases:
  assumes "stepTable s \<noteq> []" "length (lastSteps s) < maxDiagnosisFailedStepsPerTask"
  obtains (kept) d b t where "diagnoseStep (sR s) st = (d, sR (setTruncated b s))" "t = addStep d (setTruncated b s)"
      "acceptResult t = (True, t)" "moves ns s t" "freshStep d"
  | (dropped) d b where "diagnoseStep (sR s) st = (d, sR (setTruncated b s))"
      "acceptResult (addStep d (setTruncated b s)) = (False, blockBudget (addStep d (setTruncated b s)))"
proof -
  obtain d b where d: "diagnoseStep (sR s) st = (d, sR (setTruncated b s))" "freshStep d"
    using diagnoseStep_obtain [of "sR s" st] by (metis setTruncated_sR(1))
  let ?t = "addStep d (setTruncated b s)"
  obtain ok s' where a: "acceptResult ?t = (ok, s')" by (cases "acceptResult ?t")
  show ?thesis
  proof (cases ok)
    case True
    then have acc: "accepted ?t" "s' = ?t" using accept_cases [OF a] by auto
    have "move ns (setTruncated b s) ?t"
      by (rule stepAdded) (use d acc assms in \<open>simp_all add: lastSteps_table stepTable_eq_Nil [symmetric]\<close>)
    then have "moves ns s ?t" by (rule moves2 [OF flag])
    then show ?thesis using d a acc True by (intro kept) auto
  next
    case False
    then show ?thesis using accept_cases [OF a] d a by (intro dropped) auto
  qed
qed

lemma with_truncated_result: "s\<lparr>sR := sR (setTruncated b s)\<rparr> = setTruncated b s"
  by (simp add: setTruncated_def)

lemma steps_flow:
  assumes "stepTable s \<noteq> []" "n = maxDiagnosisLogBytesTotal - logSum (sR s)"
  shows "case diagnoseSteps env ns tr sts n s of (fl, n', s') \<Rightarrow> keepsTable ns s n' s'"
  using assms
proof (induction sts arbitrary: n s)
  case Nil
  then show ?case by (simp add: keepsTable_def)
next
  case (Cons st sts)
  consider "\<not> failedOrErroredStep st" | "failedOrErroredStep st" "maxDiagnosisFailedStepsPerTask \<le> length (lastSteps s)"
    | "failedOrErroredStep st" "length (lastSteps s) < maxDiagnosisFailedStepsPerTask" by linarith
  then show ?case
  proof cases
    case 1
    then show ?thesis using Cons by simp
  next
    case 2
    then show ?thesis using Cons.prems by (simp add: keepsTable_def moves_flag)
  next
    case 3
    from Cons.prems(1) 3(2) show ?thesis
    proof (cases rule: addStep_cases [where st = st and ns = ns])
      case (kept d b t)
      have tab: "lastSteps t \<noteq> []" "dsLogTail (last (lastSteps t)) = []" "length (stepTable t) = length (stepTable s)" "stepTable t \<noteq> []"
        "n = maxDiagnosisLogBytesTotal - logSum (sR t)"
        using kept(2,5) Cons.prems by (simp_all add: lastSteps_table addStep_table last_onLast freshStep_def logSum_addStep)
      obtain n' s' where l: "diagnoseLog env ns tr st n t = (Continue, n', s')" "moves ns t s'"
        "n' = maxDiagnosisLogBytesTotal - logSum (sR s')" "length (stepTable s') = length (stepTable t)"
        by (rule freshLog_flow [OF tab(1,2,5)])
      have "stepTable s' \<noteq> []" using l(4) tab(4) by (metis length_0_conv)
      from Cons.IH [OF this l(3)] moves_trans [OF kept(4) l(2)] l(4) tab(3)
      have "case diagnoseSteps env ns tr sts n' s' of (fl, n'', s'') \<Rightarrow> keepsTable ns s n'' s''"
        by (auto intro: keepsTable_trans split: prod.splits)
      moreover have "diagnoseSteps env ns tr (st # sts) n s = diagnoseSteps env ns tr sts n' s'"
        using 3 kept(1,3) l(1) by (simp add: kept(2) addStep_def with_truncated_result)
      ultimately show ?thesis by simp
    next
      case (dropped d b)
      then have "diagnoseSteps env ns tr (st # sts) n s = (Return, n, blockBudget (setTruncated b s))"
        using 3 addStep_dropped [of d "setTruncated b s"] by (simp add: addStep_def with_truncated_result)
      then show ?thesis using Cons.prems by (simp add: keepsTable_def moves_block)
    qed
  qed
qed

lemma conditions_table:
  "stepTable (snd (appendDiagnosisConditions OfLastTaskRun cs s)) = stepTable s"
proof (induction cs arbitrary: s)
  case Nil
  show ?case by (cases "dgFailedTaskRuns (sR s)" rule: rev_cases) (simp_all add: stepTable_def)
next
  case (Cons c cs)
  obtain dc b where d: "diagnoseCondition (sR s) c = (dc, (sR s)\<lparr>dgTruncated := dgTruncated (sR s) \<or> b\<rparr>)"
    by (rule diagnoseCondition_obtain)
  let ?t = "s\<lparr>sR := addCondition OfLastTaskRun dc ((sR s)\<lparr>dgTruncated := dgTruncated (sR s) \<or> b\<rparr>)\<rparr>"
  have t: "stepTable ?t = stepTable s"
    by (cases "dgFailedTaskRuns (sR s)" rule: rev_cases) (simp_all add: stepTable_def)
  obtain ok s' where a: "acceptResult ?t = (ok, s')" by (cases "acceptResult ?t")
  have s': "stepTable s' = stepTable s" using accept_cases [OF a] t by auto
  then show ?case using a d Cons.IH [of s']
    by (cases ok; cases "dgFailedTaskRuns (sR s')" rule: rev_cases) (simp_all add: stepTable_def)
qed

lemma addTask_table: "dtFailedSteps t = [] \<Longrightarrow> stepTable (addTask t s) = stepTable s @ [[]]"
  by (simp add: stepTable_def addTask_def)

lemma addTask_dropped:
  "(blockBudget (addTask t s))\<lparr>sR := (sR (blockBudget (addTask t s)))\<lparr>dgFailedTaskRuns := butlast (dgFailedTaskRuns (sR (blockBudget (addTask t s))))\<rparr>\<rparr>
     = blockBudget s"
  by (simp add: addTask_def blockBudget_def setTruncated_def)

lemma release_moves: "moves ns s (releaseFor env tr s)"
proof -
  have "moves ns s (setReserved (max 0 (bgReserved (sB s) - int k)) s)" if "bgCapped (sB s)" for k
    by (rule moves1, rule release) (use that in auto)
  then show ?thesis by (auto simp: releaseFor_def setReserved_def split: option.splits)
qed

lemma release_table [simp]: "stepTable (releaseFor env tr s) = stepTable s" "sR (releaseFor env tr s) = sR s"
  by (simp_all add: releaseFor_def stepTable_def split: option.splits)

lemma newTaskRun_empty [simp]: "dtConditions (newTaskRun env tr) = []" "dtFailedSteps (newTaskRun env tr) = []"
  by (simp_all add: newTaskRun_def)

lemma tasks_flow:
  assumes "length (stepTable s) + length trs \<le> maxDiagnosisTaskRuns" "n = maxDiagnosisLogBytesTotal - logSum (sR s)"
  shows "moves ns s (diagnoseTaskRuns env ns trs n s)"
  using assms
proof (induction trs arbitrary: n s)
  case (Cons tr trs)
  let ?r = "releaseFor env tr s" and ?t = "addTask (newTaskRun env tr) (releaseFor env tr s)"
  have rel: "moves ns s ?r" by (rule release_moves)
  obtain ok s' where a: "acceptResult ?t = (ok, s')" by (cases "acceptResult ?t")
  show ?case
  proof (cases ok)
    case False
    then have "diagnoseTaskRuns env ns (tr # trs) n s = blockBudget ?r"
      using accept_cases [OF a] a addTask_dropped [of "newTaskRun env tr" ?r] by (simp add: Let_def addTask_def)
    then show ?thesis using rel by (auto intro: rtranclp.rtrancl_into_rtrancl blocked)
  next
    case True
    then have acc: "s' = ?t" "accepted ?t" using accept_cases [OF a] by auto
    have "move ns ?r ?t" using acc(2) Cons.prems(1) by (intro task) (auto simp: stepTable_def)
    with rel have t: "moves ns s ?t" by (rule rtranclp.rtrancl_into_rtrancl)
    obtain go u where c: "appendDiagnosisConditions OfLastTaskRun (tkConditions tr) ?t = (go, u)" by (metis surj_pair)
    have u: "moves ns s u" "stepTable u = stepTable s @ [[]]"
      using moves_trans [OF t conditions_moves, of OfLastTaskRun "tkConditions tr"] conditions_table [of "tkConditions tr" ?t] c
      by (simp_all add: addTask_table)
    have n: "n = maxDiagnosisLogBytesTotal - logSum (sR u)" using Cons.prems(2) u(2) by (simp add: logSum_table)
    obtain fl n' v where st: "diagnoseSteps env ns tr (sort_key ssName (tkSteps tr)) n u = (fl, n', v)" by (metis surj_pair)
    have v: "moves ns s v" "n' = maxDiagnosisLogBytesTotal - logSum (sR v)" "length (stepTable v) = length (stepTable s) + 1"
      using steps_flow [of u n ns env tr "sort_key ssName (tkSteps tr)"] n u st by (auto simp: keepsTable_def)
    have "moves ns v (diagnoseTaskRuns env ns trs n' v)" using Cons.prems(1) v(3) by (intro Cons.IH v(2)) simp
    with v(1) have "moves ns s (diagnoseTaskRuns env ns trs n' v)" by (rule rtranclp_trans)
    then show ?thesis using a acc c st u(1) v(1) True
      by (simp add: Let_def addTask_def split: flow.splits bool.splits)
  qed
qed simp

lemma reserve_moves: "reserveFor env tr s = (b, s') \<Longrightarrow> moves ns s s' \<and> sR s' = (if b then sR s else (sR s)\<lparr>dgTruncated := True\<rparr>)"
proof -
  assume r: "reserveFor env tr s = (b, s')"
  have res: "moves ns s (setReserved (bgReserved (sB s) + int k) s)" if "fetchable s" "bgCapped (sB s)" "int k \<le> remainingBudget s" for k
    by (rule moves1, rule reserve) (use that in auto)
  have f: "fetchable s" if "canFetch s = (True, t)" for t using canFetch_cases [OF that] by auto
  show ?thesis using r res f
    by (auto simp: reserveFor_def setReserved_def split: if_splits prod.splits bool.splits option.splits
        dest!: canFetch_cases intro: moves1 [OF blocked])
qed

lemma scan_moves:
  assumes "length acc \<le> maxDiagnosisTaskRuns" "scanTaskRuns env pr trs acc s = (stop, acc', s')"
  shows "moves ns s s' \<and> length acc' \<le> maxDiagnosisTaskRuns \<and> dgFailedTaskRuns (sR s') = dgFailedTaskRuns (sR s)"
  using assms
proof (induction trs arbitrary: acc s)
  case (Cons tr trs)
  show ?case
  proof (cases "\<not> teControlledBy env tr (prUID pr) \<or> \<not> taskRunFailed env tr")
    case True
    then show ?thesis using Cons by auto
  next
    case False
    obtain b s1 where r: "reserveFor env tr s = (b, s1)" by (metis surj_pair)
    from reserve_moves [OF this, of ns] have "moves ns s s1" "dgFailedTaskRuns (sR s1) = dgFailedTaskRuns (sR s)" by auto
    then show ?thesis using Cons.prems False r Cons.IH [of "acc @ [tr]" s1]
      by (cases b) (auto simp: moves_flag setTruncated_sR split: if_splits intro: rtranclp_trans)
  qed
qed simp

lemma addError_tasks [simp]: "dgFailedTaskRuns (sR (addPartialError source err s)) = dgFailedTaskRuns (sR s)"
  "dgWarningEvents (sR (addPartialError source err s)) = dgWarningEvents (sR s)"
  by (auto simp: addPartialError_def truncateText_def acceptResult_def split: prod.splits)

lemma list_asked:
  assumes "fetchable s" "pipelineRunTaskRuns env ns prn task (int maxDiagnosisTaskRuns) cont (sL s) = (r, l)"
  shows "moves ns s (s\<lparr>sL := l\<rparr>)"
proof -
  obtain ops where ops: "l = sL s @ ops" "\<forall>op \<in> set ops. \<exists>sel. op = TList taskRunGVR ns sel (int maxDiagnosisTaskRuns) cont" "length ops \<le> 1"
    using pipelineRunTaskRuns_log [of env ns prn task "int maxDiagnosisTaskRuns" cont "sL s"] assms(2) by auto
  show ?thesis
  proof (cases ops)
    case (Cons op ops')
    then have op: "ops = [op]" using ops(3) by simp
    then have "evidenceOp ns op" using ops(2) by (auto simp: maxDiagnosisTaskRuns_def)
    from moves1 [OF ask [OF assms(1) this]] show ?thesis by (simp add: asked_def ops(1) op)
  qed (simp add: ops)
qed

lemma pages_moves:
  assumes "length acc \<le> maxDiagnosisTaskRuns" "taskRunPages env ns pr k cont acc s = (acc', s')"
  shows "moves ns s s' \<and> length acc' \<le> maxDiagnosisTaskRuns \<and> dgFailedTaskRuns (sR s') = dgFailedTaskRuns (sR s)"
  using assms
proof (induction k arbitrary: cont acc s)
  case 0
  then show ?case by (auto simp: moves_flag setTruncated_sR)
next
  case (Suc k)
  obtain b s1 where c: "canFetch s = (b, s1)" by (metis surj_pair)
  show ?case
  proof (cases b)
    case False
    then have "s1 = blockBudget s" using canFetch_cases [OF c] by simp
    then show ?thesis using Suc.prems c False by (auto simp: setTruncated_sR intro: moves2 [OF blocked flag])
  next
    case True
    then have s1: "s1 = s" "fetchable s" using canFetch_cases [OF c] by auto
    obtain r l where rl: "pipelineRunTaskRuns env ns (prName pr) [] (int maxDiagnosisTaskRuns) cont (sL s) = (r, l)" by (metis surj_pair)
    have l: "moves ns s (s\<lparr>sL := l\<rparr>)" by (rule list_asked [OF s1(2) rl])
    show ?thesis
    proof (cases r)
      case (Inl err)
      then show ?thesis using Suc.prems c True s1 rl l
        by (auto simp: setTruncated_sR intro!: moves_then_flag moves_trans [OF l addError_moves])
    next
      case (Inr p)
      obtain trs tok where p: "p = (trs, tok)" by (cases p)
      obtain stop acc1 s2 where sc: "scanTaskRuns env pr trs acc (s\<lparr>sL := l\<rparr>) = (stop, acc1, s2)" by (metis surj_pair)
      note sm = scan_moves [OF Suc.prems(1) sc, of ns]
      show ?thesis
      proof (cases "stop \<or> tok = []")
        case True
        then have "acc' = acc1" "s' = s2" using Suc.prems c \<open>b\<close> s1 rl sc Inr p by (auto split: bool.splits)
        then show ?thesis using sm l by (auto intro: rtranclp_trans)
      next
        case False
        then have "taskRunPages env ns pr k tok acc1 s2 = (acc', s')" using Suc.prems c \<open>b\<close> s1 rl sc Inr p by simp
        from Suc.IH [OF _ this] sm l show ?thesis by (auto intro: rtranclp_trans)
      qed
    qed
  qed
qed

lemma setTruncated_over: "(setTruncated b s)\<lparr>sR := d\<rparr> = s\<lparr>sR := d\<rparr>"
  by (simp add: setTruncated_def)

lemma events_moves:
  assumes "length (dgWarningEvents (sR s)) \<le> maxDiagnosisWarningEvents" "collectEvents es seen s = (fl, seen', s')"
  shows "moves ns s s' \<and> length (dgWarningEvents (sR s')) \<le> maxDiagnosisWarningEvents"
  using assms
proof (induction es arbitrary: seen s)
  case (Cons e es)
  show ?case
  proof (cases "evType e \<noteq> ''Warning'' \<or> eventKey e \<in> set seen")
    case True
    then show ?thesis using Cons by auto
  next
    case False
    obtain t1 t2 d b where t: "truncateText (evReason e) (sR s) = (t1, d)"
        "truncateText (evMessage e) d = (t2, sR (setTruncated b s))" "okText t1" "okText t2"
      by (rule truncate_two [of "evReason e" "sR s" "evMessage e"]) (simp add: setTruncated_sR)
    let ?w = "\<lparr>deKind = evKind e, deName = evObject e, deReason = t1, deMessage = t2, deCount = evCount e\<rparr>"
    let ?u = "setTruncated b s"
    let ?t = "addEvent ?w ?u"
    have unf: "collectEvents (e # es) seen s =
        (if maxDiagnosisWarningEvents < length (dgWarningEvents (sR ?t))
         then (Return, eventKey e # seen,
               setTruncated True (?t\<lparr>sR := (sR ?t)\<lparr>dgWarningEvents := take maxDiagnosisWarningEvents (dgWarningEvents (sR ?t))\<rparr>\<rparr>))
         else (case acceptResult ?t of
             (False, v) \<Rightarrow> (Return, eventKey e # seen, v\<lparr>sR := (sR v)\<lparr>dgWarningEvents := butlast (dgWarningEvents (sR v))\<rparr>\<rparr>)
           | (True, v) \<Rightarrow> collectEvents es (eventKey e # seen) v))"
      using False t(1,2) by (simp add: addEvent_def Let_def setTruncated_over)
    have ev: "dgWarningEvents (sR ?u) = dgWarningEvents (sR s)" by (simp add: setTruncated_sR)
    show ?thesis
    proof (cases "length (dgWarningEvents (sR s)) = maxDiagnosisWarningEvents")
      case True
      then have "s' = setTruncated True ?u"
        using Cons.prems(2) unf ev by (simp add: addEvent_def) (simp add: setTruncated_def)
      then show ?thesis using Cons.prems(1) by (auto simp: setTruncated_sR intro!: moves_then_flag)
    next
      case more: False
      obtain ok v where a: "acceptResult ?t = (ok, v)" by (metis surj_pair)
      have len: "length (dgWarningEvents (sR ?t)) \<le> maxDiagnosisWarningEvents" using more Cons.prems(1) ev by (simp add: addEvent_def)
      show ?thesis
      proof (cases ok)
        case True
        then have acc: "accepted ?t" "v = ?t" using accept_cases [OF a] by auto
        have "move ns ?u ?t" using acc(1) t(3,4) more Cons.prems(1) ev by (intro event) (simp_all add: okEvent_def)
        then have "moves ns s ?t" by (rule moves2 [OF flag])
        moreover have "collectEvents es (eventKey e # seen) ?t = (fl, seen', s')"
          using Cons.prems(2) unf True a acc(2) len by simp
        ultimately show ?thesis using Cons.IH [OF len] by (auto intro: rtranclp_trans)
      next
        case no: False
        then have "v = blockBudget ?t" using accept_cases [OF a] by auto
        then have "s' = blockBudget ?u"
          using Cons.prems(2) unf no a len by (simp add: addEvent_def blockBudget_def setTruncated_def)
        then show ?thesis using Cons.prems(1) by (auto simp: moves_block setTruncated_sR)
      qed
    qed
  qed
qed simp

section \<open>Invariants of the moves\<close>

definition okTask :: "diagnosedTaskRun \<Rightarrow> bool" where
  "okTask t \<longleftrightarrow> list_all okCondition (dtConditions t) \<and>
     list_all (\<lambda>x. okText (dsReason x) \<and> okText (dsMessage x) \<and> utf8Valid (dsLogTail x)
       \<and> int (length (dsLogTail x)) \<le> maxDiagnosisLogBytesPerStep) (dtFailedSteps t)
     \<and> length (dtFailedSteps t) \<le> maxDiagnosisFailedStepsPerTask"

definition okDiagnosis :: "diagnosis \<Rightarrow> bool" where
  "okDiagnosis d \<longleftrightarrow>
     list_all okCondition (case dgConditions d of None \<Rightarrow> [] | Some cs \<Rightarrow> cs) \<and> list_all okTask (dgFailedTaskRuns d)
     \<and> list_all okEvent (dgWarningEvents d) \<and> list_all (\<lambda>e. okText (peMessage e)) (dgPartialErrors d)
     \<and> length (dgFailedTaskRuns d) \<le> maxDiagnosisTaskRuns \<and> length (dgWarningEvents d) \<le> maxDiagnosisWarningEvents
     \<and> logSum d \<le> maxDiagnosisLogBytesTotal"

lemma okDiagnosis_truncated [simp]: "okDiagnosis (d\<lparr>dgTruncated := b\<rparr>) = okDiagnosis d"
  by (simp add: okDiagnosis_def)

lemma okDiagnosis_sum: "okDiagnosis d \<Longrightarrow> logSum d \<le> maxDiagnosisLogBytesTotal"
  by (simp add: okDiagnosis_def)

lemma list_all_mset: "mset xs = mset ys \<Longrightarrow> list_all P xs = list_all P ys"
  by (metis list_all_iff mset_eq_setD)

lemma onLast_ok:
  assumes "okDiagnosis d" "\<And>t. okTask t \<Longrightarrow> t \<in> set (dgFailedTaskRuns d) \<Longrightarrow> t = last (dgFailedTaskRuns d) \<Longrightarrow> okTask (f t)"
    "logSum (d\<lparr>dgFailedTaskRuns := onLast f (dgFailedTaskRuns d)\<rparr>) \<le> maxDiagnosisLogBytesTotal"
  shows "okDiagnosis (d\<lparr>dgFailedTaskRuns := onLast f (dgFailedTaskRuns d)\<rparr>)"
  using assms by (cases "dgFailedTaskRuns d" rule: rev_cases) (auto simp: okDiagnosis_def)

lemma logSum_onLast:
  assumes "\<And>t. map dsLogTail (dtFailedSteps (f t)) = map dsLogTail (dtFailedSteps t)"
  shows "logSum (d\<lparr>dgFailedTaskRuns := onLast f (dgFailedTaskRuns d)\<rparr>) = logSum d"
proof -
  have m: "sum_list (map (\<lambda>x. int (length (dsLogTail x))) xs) = sum_list (map (\<lambda>t. int (length t)) (map dsLogTail xs))" for xs
    by (simp add: o_def)
  have "sum_list (map (\<lambda>x. int (length (dsLogTail x))) (dtFailedSteps (f t))) = sum_list (map (\<lambda>x. int (length (dsLogTail x))) (dtFailedSteps t))" for t
    by (simp only: m assms)
  then show ?thesis by (cases "dgFailedTaskRuns d" rule: rev_cases) (auto simp: logSum_def)
qed

lemma condition_ok: "okDiagnosis d \<Longrightarrow> okCondition c \<Longrightarrow> okDiagnosis (addCondition dest c d)"
proof (cases dest)
  case OfLastTaskRun
  assume "okDiagnosis d" "okCondition c"
  then show ?thesis unfolding OfLastTaskRun addCondition.simps
    by (intro onLast_ok) (auto simp: okTask_def logSum_onLast okDiagnosis_def)
qed (auto simp: okDiagnosis_def logSum_def split: option.splits)

lemma reorder_ok: "okDiagnosis d \<Longrightarrow> (\<And>cs. mset (f cs) = mset cs) \<Longrightarrow> okDiagnosis (onConditions dest f d)"
proof (cases dest)
  case OfLastTaskRun
  assume a: "okDiagnosis d" "\<And>cs. mset (f cs) = mset cs"
  have "list_all okCondition (f cs) = list_all okCondition cs" for cs using a(2) by (rule list_all_mset)
  then show ?thesis unfolding OfLastTaskRun onConditions.simps
    using a(1) by (intro onLast_ok) (auto simp: okTask_def logSum_onLast okDiagnosis_def)
next
  case OfPipelineRun
  assume a: "okDiagnosis d" "\<And>cs. mset (f cs) = mset cs"
  have "list_all okCondition (f cs) = list_all okCondition cs" for cs using a(2) by (rule list_all_mset)
  then show ?thesis using a(1) by (auto simp: OfPipelineRun okDiagnosis_def logSum_def split: option.splits)
qed

lemma step_ok:
  assumes "okDiagnosis (sR s)" "freshStep d" "length (lastSteps s) < maxDiagnosisFailedStepsPerTask"
  shows "okDiagnosis (sR (addStep d s))"
proof -
  have sum: "logSum (sR (addStep d s)) = logSum (sR s)" using assms(2) by (simp add: logSum_addStep freshStep_def)
  have "lastSteps s = dtFailedSteps (last (dgFailedTaskRuns (sR s)))" if "t \<in> set (dgFailedTaskRuns (sR s))" for t
    using that by (intro lastSteps_last) auto
  then show ?thesis using assms sum unfolding addStep_def onLastTask_def
    by simp (intro onLast_ok, auto simp: okTask_def freshStep_def maxDiagnosisLogBytesPerStep_def dest: okDiagnosis_sum)
qed

lemma onLastStep_ok:
  assumes "okDiagnosis (sR s)" "\<And>x. okText (dsReason x) \<Longrightarrow> okText (dsReason (f x))" "\<And>x. okText (dsMessage x) \<Longrightarrow> okText (dsMessage (f x))"
    "\<And>x. utf8Valid (dsLogTail x) \<Longrightarrow> utf8Valid (dsLogTail (f x))"
    "\<And>x. int (length (dsLogTail x)) \<le> maxDiagnosisLogBytesPerStep \<Longrightarrow> int (length (dsLogTail (f x))) \<le> maxDiagnosisLogBytesPerStep"
    "logSum (sR (onLastStep f s)) \<le> maxDiagnosisLogBytesTotal"
  shows "okDiagnosis (sR (onLastStep f s))"
proof -
  have "okTask (t\<lparr>dtFailedSteps := onLast f (dtFailedSteps t)\<rparr>)" if "okTask t" for t
    using that assms(2-5) by (cases "dtFailedSteps t" rule: rev_cases) (auto simp: okTask_def)
  then show ?thesis using assms(1,6) unfolding onLastStep_def onLastTask_def by (auto intro!: onLast_ok)
qed

lemma logSum_cut: "logSum (sR (onLastStep cutLog s)) = logSum (sR s)"
proof (cases "lastSteps s = []")
  case True
  then have "onLastStep cutLog s = s"
    by (cases "dgFailedTaskRuns (sR s)" rule: rev_cases) (simp_all add: onLastStep_def onLastTask_def lastSteps_last)
  then show ?thesis by simp
qed (simp add: logSum_onLastStep cutLog_def)

lemma added_ok:
  "okDiagnosis (sR s) \<Longrightarrow> okText (peMessage e) \<Longrightarrow> okDiagnosis (sR (addError e s))"
  "okDiagnosis (sR s) \<Longrightarrow> okEvent v \<Longrightarrow> length (dgWarningEvents (sR s)) < maxDiagnosisWarningEvents \<Longrightarrow> okDiagnosis (sR (addEvent v s))"
  "okDiagnosis (sR s) \<Longrightarrow> dtConditions t = [] \<Longrightarrow> dtFailedSteps t = [] \<Longrightarrow> length (dgFailedTaskRuns (sR s)) < maxDiagnosisTaskRuns \<Longrightarrow>
     okDiagnosis (sR (addTask t s))"
  by (simp_all add: okDiagnosis_def logSum_def addError_def addEvent_def addTask_def okTask_def)

lemma move_ok:
  assumes "move ns s s'" and ok: "okDiagnosis (sR s)"
  shows "okDiagnosis (sR s')"
  using assms(1)
proof cases
  case logCut
  then show ?thesis using ok unfolding logCut by (intro onLastStep_ok) (simp_all add: logSum_cut okDiagnosis_sum cutLog_def)
next
  case (log t b)
  then show ?thesis using ok unfolding log(1) setLog_def by (intro onLastStep_ok) (simp_all add: logSum_onLastStep)
next
  case (eventsSorted es)
  from list_all_mset [OF eventsSorted(2), of okEvent] mset_eq_length [OF eventsSorted(2)]
  show ?thesis using ok eventsSorted by (simp add: okDiagnosis_def logSum_def)
next
  case emptied
  then show ?thesis using ok by (simp add: okDiagnosis_def logSum_def)
qed (simp_all add: ok setTruncated_sR condition_ok reorder_ok step_ok setReserved_def added_ok)

lemma moves_ok: "moves ns s s' \<Longrightarrow> okDiagnosis (sR s) \<Longrightarrow> okDiagnosis (sR s')"
  by (induction rule: rtranclp_induct) (auto intro: move_ok)

subsection \<open>The encoded size\<close>

definition withinSize :: "int \<Rightarrow> diagState \<Rightarrow> bool" where
  "withinSize m s \<longleftrightarrow> bgCapped (sB s) \<and> bgPayloadLimit (sB s) \<le> m \<and> 0 \<le> bgReserved (sB s)
     \<and> encodedSize s + bgReserved (sB s) \<le> m"

lemma accepted_within:
  "accepted s' \<Longrightarrow> sB s' = sB s \<Longrightarrow> withinSize m s \<Longrightarrow> withinSize m s'"
  by (auto simp: accepted_def withinSize_def)

lemma shrunk_within:
  "encodedSize s' \<le> encodedSize s \<Longrightarrow> sB s' = (sB s)\<lparr>bgBlocked := x\<rparr> \<Longrightarrow> withinSize m s \<Longrightarrow> withinSize m s'"
  by (auto simp: withinSize_def)

lemma encodedSize_flag: "encodedSize (setTruncated b s) \<le> encodedSize s"
  by (simp add: encodedSize_def setTruncated_sR diagnosis_size)

lemma encodedSize_block: "encodedSize (blockBudget s) \<le> encodedSize s"
  by (simp add: encodedSize_def diagnosis_size)

lemma encodedSize_reorder:
  assumes "\<And>cs. mset (f cs) = mset cs"
  shows "encodedSize (s\<lparr>sR := onConditions dest f (sR s)\<rparr>) = encodedSize s"
proof -
  have c: "conditionsSize (f cs) = conditionsSize cs" for cs by (rule conditionsSize_perm [OF assms])
  have "length (taskRunJson (t\<lparr>dtConditions := f (dtConditions t)\<rparr>)) = length (taskRunJson t)" for t
    using task_size_conditions [where t = t and cs = "f (dtConditions t)"] c by simp
  then show ?thesis
    by (cases dest; cases "dgFailedTaskRuns (sR s)" rule: rev_cases; cases "dgConditions (sR s)")
      (simp_all add: encodedSize_def diagnosis_size tasksSize_last conditions_nil_size c)
qed

lemma encodedSize_cut: "encodedSize (onLastStep cutLog s) \<le> encodedSize s"
proof -
  have "length (stepJson (cutLog x)) \<le> length (stepJson x) + 0" for x by (simp add: step_size cutLog_def)
  then have "tasksSize (dgFailedTaskRuns (sR (onLastStep cutLog s))) \<le> tasksSize (dgFailedTaskRuns (sR s)) + 0"
    using tasksSize_onLastStep [of cutLog "dgFailedTaskRuns (sR s)" 0] by (simp add: onLastStep_def onLastTask_def)
  then show ?thesis by (simp add: encodedSize_def diagnosis_size) (simp add: onLastStep_def onLastTask_def)
qed

lemma encodedSize_events: "mset es = mset (dgWarningEvents (sR s)) \<Longrightarrow> encodedSize (s\<lparr>sR := (sR s)\<lparr>dgWarningEvents := es\<rparr>\<rparr>) = encodedSize s"
  by (simp add: encodedSize_def diagnosis_size joinedLength_perm [of "map _ es" "map _ (dgWarningEvents (sR s))"] mset_map)

lemma move_within:
  assumes "move ns s s'" and w: "withinSize m s"
  shows "withinSize m s'"
  using assms(1)
proof cases
  case (flag b)
  show ?thesis using w encodedSize_flag [of b s] by (auto simp: flag withinSize_def setTruncated_sR)
next
  case blocked
  show ?thesis using w encodedSize_block [of s] by (auto simp: blocked withinSize_def)
next
  case (ask op)
  then show ?thesis using w by (simp add: withinSize_def encodedSize_def)
next
  case (reserve n)
  then show ?thesis using w remaining_eq [of s] by (auto simp: withinSize_def setReserved_def encodedSize_def)
next
  case (release n)
  then show ?thesis using w by (auto simp: withinSize_def setReserved_def encodedSize_def)
next
  case (reorder f dest)
  then show ?thesis using w by (simp add: withinSize_def encodedSize_reorder)
next
  case emptied
  then show ?thesis using w by (simp add: withinSize_def encodedSize_def diagnosis_size conditions_nil_size conditionsSize_def)
next
  case logCut
  then show ?thesis using w encodedSize_cut [of s] by (auto simp: withinSize_def onLastStep_def onLastTask_def)
next
  case (eventsSorted es)
  then show ?thesis using w by (simp add: withinSize_def encodedSize_events)
qed (use w in \<open>auto intro: accepted_within simp: addError_def addTask_def addStep_def onLastTask_def setLog_def onLastStep_def addEvent_def\<close>)

lemma moves_within: "moves ns s s' \<Longrightarrow> withinSize m s \<Longrightarrow> withinSize m s'"
  by (induction rule: rtranclp_induct) (auto intro: move_within)

subsection \<open>What moves leave alone\<close>

lemma move_frame:
  assumes "move ns s s'"
  shows "(dgTruncated (sR s) \<longrightarrow> dgTruncated (sR s')) \<and> dgNamespace (sR s') = dgNamespace (sR s) \<and> dgName (sR s') = dgName (sR s)
    \<and> (\<exists>ops. sL s' = sL s @ ops \<and> list_all (evidenceOp ns) ops)"
  using assms
proof cases
  case (ask op)
  then show ?thesis by (simp add: asked_def)
next
  case (condition c dest)
  then show ?thesis by (cases dest) simp_all
next
  case (reorder f dest)
  then show ?thesis by (cases dest) simp_all
qed (simp_all add: setTruncated_def setReserved_def addError_def addTask_def addStep_def onLastTask_def setLog_def onLastStep_def addEvent_def)

lemma moves_frame:
  "moves ns s s' \<Longrightarrow> (dgTruncated (sR s) \<longrightarrow> dgTruncated (sR s')) \<and> dgNamespace (sR s') = dgNamespace (sR s) \<and> dgName (sR s') = dgName (sR s)
    \<and> (\<exists>ops. sL s' = sL s @ ops \<and> list_all (evidenceOp ns) ops)"
proof (induction rule: rtranclp_induct)
  case (step t u)
  then obtain ops ops' where "sL t = sL s @ ops" "list_all (evidenceOp ns) ops" "sL u = sL t @ ops'" "list_all (evidenceOp ns) ops'"
    using move_frame by metis
  then have "sL u = sL s @ (ops @ ops') \<and> list_all (evidenceOp ns) (ops @ ops')" by simp
  then show ?case using step move_frame [OF step(2)] by auto
qed simp

lemma moves_truncated: "moves ns s s' \<Longrightarrow> \<not> dgTruncated (sR s') \<Longrightarrow> \<not> dgTruncated (sR s)"
  using moves_frame by blast

subsection \<open>The collection\<close>

lemma targets_moves:
  assumes "length (dgWarningEvents (sR s)) \<le> maxDiagnosisWarningEvents"
  shows "moves ns s (collectFromTargets env ns ts seen s)"
  using assms
proof (induction ts arbitrary: seen s)
  case (Cons t ts)
  obtain b s1 where c: "canFetch s = (b, s1)" by (metis surj_pair)
  show ?case
  proof (cases b)
    case False
    then show ?thesis using canFetch_cases [OF c] c by (auto intro: moves1 [OF blocked])
  next
    case True
    then have s1: "s1 = s" "fetchable s" using canFetch_cases [OF c] by auto
    let ?n = "int maxDiagnosisWarningEvents + 1 - int (length (dgWarningEvents (sR s)))"
    let ?s = "asked (TEvents ns (fieldSelector env t) ?n) s"
    have n: "0 < ?n" using Cons.prems by simp
    have ask: "moves ns s ?s" by (rule moves1, rule ask [OF s1(2)]) (use Cons.prems in \<open>simp add: maxDiagnosisWarningEvents_def\<close>)
    have unf: "collectFromTargets env ns (t # ts) seen s =
        (case teEvents env (sL s) ns (fieldSelector env t) ?n of
           Inl err \<Rightarrow> collectFromTargets env ns ts seen (addPartialError (''events/'' @ etKind t @ ''/'' @ etName t) err ?s)
         | Inr (items, cont) \<Rightarrow>
             (case collectEvents items seen ?s of
                (Return, seen, s) \<Rightarrow> s
              | (Continue, seen, s) \<Rightarrow>
                  if cont \<noteq> [] \<or> (length (dgWarningEvents (sR s)) = maxDiagnosisWarningEvents \<and> ts \<noteq> [])
                  then setTruncated True s else collectFromTargets env ns ts seen s))"
      using c True s1 n by (simp add: askEvents_def asked_def Let_def split: sum.splits)
    show ?thesis
    proof (cases "teEvents env (sL s) ns (fieldSelector env t) ?n")
      case (Inl err)
      let ?e = "addPartialError (''events/'' @ etKind t @ ''/'' @ etName t) err ?s"
      have "moves ns s ?e" by (rule moves_trans [OF ask addError_moves])
      moreover have "moves ns ?e (collectFromTargets env ns ts seen ?e)" using Cons.prems by (intro Cons.IH) simp
      ultimately show ?thesis using unf Inl by (simp add: rtranclp_trans)
    next
      case (Inr p)
      obtain items cont where p: "p = (items, cont)" by (cases p)
      obtain fl seen' u where u: "collectEvents items seen ?s = (fl, seen', u)" by (metis surj_pair)
      have um: "moves ns s u" "length (dgWarningEvents (sR u)) \<le> maxDiagnosisWarningEvents"
        using events_moves [OF _ u, of ns] Cons.prems ask by (auto intro: rtranclp_trans)
      show ?thesis using unf Inr p u um moves_trans [OF um(1) Cons.IH [OF um(2)]]
        by (auto split: flow.splits intro: moves_then_flag)
    qed
  qed
qed simp

abbreviation diagStart :: "budgetCtx \<Rightarrow> string \<Rightarrow> string \<Rightarrow> tektonOp list \<Rightarrow> diagState" where
  "diagStart ctx ns name l \<equiv> \<lparr>sR = emptyDiagnosis ns name, sB = newDiagnosisResultBudget ctx, sL = l\<rparr>"

lemma okDiagnosis_empty: "okDiagnosis (emptyDiagnosis ns name)"
  by (simp add: okDiagnosis_def emptyDiagnosis_def logSum_def maxDiagnosisLogBytesTotal_def)

lemma events_collection_moves:
  assumes "length (dgWarningEvents (sR s)) \<le> maxDiagnosisWarningEvents"
  shows "moves ns s (collectWarningEventsForPipelineRun env ns pr trs s)"
  unfolding collectWarningEventsForPipelineRun_def Let_def
  by (rule rtranclp.rtrancl_into_rtrancl [OF targets_moves [OF assms]], rule eventsSorted) simp

lemma conditions_tasks: "dgFailedTaskRuns (sR (snd (appendDiagnosisConditions OfPipelineRun cs s))) = dgFailedTaskRuns (sR s)"
proof (induction cs arbitrary: s)
  case (Cons c cs)
  obtain dc b where d: "diagnoseCondition (sR s) c = (dc, (sR s)\<lparr>dgTruncated := dgTruncated (sR s) \<or> b\<rparr>)"
    by (rule diagnoseCondition_obtain)
  let ?t = "s\<lparr>sR := addCondition OfPipelineRun dc ((sR s)\<lparr>dgTruncated := dgTruncated (sR s) \<or> b\<rparr>)\<rparr>"
  obtain ok s' where a: "acceptResult ?t = (ok, s')" by (cases "acceptResult ?t")
  have "dgFailedTaskRuns (sR s') = dgFailedTaskRuns (sR s)" using accept_cases [OF a] by auto
  then show ?case using a d Cons.IH [of s'] by (cases ok) simp_all
qed simp

lemma collection_moves: "moves ns (diagStart ctx ns name l) (collectDiagnosis env ctx ns name pr l)"
proof -
  let ?s0 = "diagStart ctx ns name l"
  define s1 where "s1 = snd (appendDiagnosisConditions OfPipelineRun (prConditions pr) ?s0)"
  obtain acc s2 where p: "taskRunPages env ns pr maxDiagnosisTaskRunPages [] [] s1 = (acc, s2)" by (metis surj_pair)
  define s3 where "s3 = diagnoseFailedTaskRuns env ns (sort_key tkName acc) s2"
  have m1: "moves ns ?s0 s1" unfolding s1_def by (rule conditions_moves)
  have t1: "dgFailedTaskRuns (sR s1) = []" by (simp add: s1_def conditions_tasks emptyDiagnosis_def)
  have m2: "moves ns ?s0 s2" "length acc \<le> maxDiagnosisTaskRuns" "dgFailedTaskRuns (sR s2) = []"
    using pages_moves [OF _ p] t1 m1 by (auto intro: rtranclp_trans)
  have "moves ns s2 s3" unfolding s3_def diagnoseFailedTaskRuns_def
    by (rule tasks_flow) (use m2 in \<open>simp_all add: stepTable_def logSum_def\<close>)
  with m2(1) have m3: "moves ns ?s0 s3" by (rule rtranclp_trans)
  then have "length (dgWarningEvents (sR s3)) \<le> maxDiagnosisWarningEvents"
    using moves_ok [OF m3] okDiagnosis_empty by (simp add: okDiagnosis_def)
  from moves_trans [OF m3 events_collection_moves [OF this]]
  have m4: "moves ns ?s0 (collectWarningEventsForPipelineRun env ns pr trs s3)" for trs .
  have m5: "moves ns ?s0 (blockBudget s3)" using m3 by (auto intro: rtranclp.rtrancl_into_rtrancl blocked)
  obtain b s4 where c: "canFetch s3 = (b, s4)" by (metis surj_pair)
  show ?thesis
    using canFetch_cases [OF c] c m4 m5 p
    by (auto simp: collectDiagnosis_def Let_def failedPipelineRunTaskRuns_def s1_def [symmetric] s3_def [symmetric] split: prod.splits)
qed

section \<open>Properties\<close>

lemma diagnose_result:
  assumes "diagnosePipelineRun env ctx args l = (Inr d, l')"
  obtains ns name pr l0 where "RequiredString args ''namespace'' = Inr ns" "RequiredString args ''name'' = Inr name"
    "getPipelineRun env ns name l = (Inr pr, l0)" "d = sortPartialErrors (sR (collectDiagnosis env ctx ns name pr l0))"
    "l' = sL (collectDiagnosis env ctx ns name pr l0)"
  using assms by (auto simp: diagnosePipelineRun_def Let_def split: sum.splits prod.splits)

lemma sortPartialErrors_ok: "okDiagnosis (sortPartialErrors d) = okDiagnosis d"
proof -
  have "list_all (\<lambda>e. okText (peMessage e)) (sort_key f es) = list_all (\<lambda>e. okText (peMessage e)) es"
    for f :: "partialError \<Rightarrow> string \<times> string" and es
    by (simp add: list_all_iff)
  then show ?thesis by (simp add: okDiagnosis_def sortPartialErrors_def logSum_def)
qed

lemma sortPartialErrors_size: "length (diagnosisJson (sortPartialErrors d)) = length (diagnosisJson d)"
  by (simp add: diagnosis_size sortPartialErrors_def joinedLength_perm [of "map _ (sort_key _ _)" "map _ (dgPartialErrors d)"] mset_map)

text \<open>
  C34. The evidence of a diagnosis is well formed and bounded, whatever the cluster answers: at
  most 50 TaskRuns with at most 20 failed steps each, at most 50 warning events, at most 32 KiB
  of log per step and 128 KiB in all; every log tail is valid UTF-8, and every reason, message
  and partial error is valid UTF-8 of at most 1038 characters.
\<close>

theorem diagnosis_evidence_is_bounded:
  assumes "diagnosePipelineRun env ctx args l = (Inr d, l')"
  shows "length (dgFailedTaskRuns d) \<le> 50 \<and> length (dgWarningEvents d) \<le> 50 \<and> logSum d \<le> 131072
    \<and> list_all (\<lambda>t. length (dtFailedSteps t) \<le> 20 \<and> list_all okCondition (dtConditions t)
        \<and> list_all (\<lambda>x. int (length (dsLogTail x)) \<le> 32768 \<and> utf8Valid (dsLogTail x) \<and> okText (dsReason x) \<and> okText (dsMessage x))
            (dtFailedSteps t)) (dgFailedTaskRuns d)
    \<and> list_all okEvent (dgWarningEvents d) \<and> list_all (\<lambda>e. okText (peMessage e)) (dgPartialErrors d)
    \<and> (\<forall>cs. dgConditions d = Some cs \<longrightarrow> list_all okCondition cs)
    \<and> (\<forall>t. okText t \<longrightarrow> length (runes t) \<le> 1038)"
proof -
  obtain ns name pr l0 where d: "d = sortPartialErrors (sR (collectDiagnosis env ctx ns name pr l0))"
    using assms by (rule diagnose_result)
  have "okDiagnosis d"
    using moves_ok [OF collection_moves [of ns name ctx l0 env pr]] okDiagnosis_empty by (simp add: d sortPartialErrors_ok)
  then show ?thesis
    by (auto simp: okDiagnosis_def okTask_def list_all_iff okText_def truncationMark_def maxDiagnosisTaskRuns_def maxDiagnosisWarningEvents_def
        maxDiagnosisLogBytesTotal_def maxDiagnosisLogBytesPerStep_def maxDiagnosisFailedStepsPerTask_def maxDiagnosisMessageRunes_def)
qed

lemma example_diagnosis: "\<exists>d l. diagnosePipelineRun exampleTekton ctx exampleArgs [] = (Inr d, l)"
  by (simp add: diagnosePipelineRun_def RequiredString_def exampleArgs_def getPipelineRun_def ask_defs exampleTekton_def Let_def)

theorem diagnosis_evidence_is_bounded_witness:
  "\<exists>d l. diagnosePipelineRun exampleTekton None exampleArgs [] = (Inr d, l) \<and> length (dgFailedTaskRuns d) \<le> 50 \<and> logSum d \<le> 131072"
  using example_diagnosis [of None] diagnosis_evidence_is_bounded [of exampleTekton None exampleArgs "[]"] by blast

definition marshalPrepared :: "diagnosis prepared \<Rightarrow> string + string" where
  "marshalPrepared v = (case v of AsIs d \<Rightarrow> Inr (diagnosisJson d) | ItemsObject d \<Rightarrow> Inl [])"

lemma collection_within:
  assumes "0 < ResultLimit ctx"
  shows "int (length (diagnosisJson (sR (collectDiagnosis env ctx ns name pr l)))) \<le>
    max (ResultLimit ctx div 2) (int (length (diagnosisJson (emptyDiagnosis ns name))))"
proof -
  let ?m = "max (ResultLimit ctx div 2) (int (length (diagnosisJson (emptyDiagnosis ns name))))"
  have "withinSize ?m (diagStart ctx ns name l)"
    using assms by (simp add: withinSize_def newDiagnosisResultBudget_def Let_def encodedSize_def)
  from moves_within [OF collection_moves [of ns name ctx l env pr] this] show ?thesis by (auto simp: withinSize_def encodedSize_def)
qed

text \<open>
  C19. Under a live result limit the encoded diagnosis stays within half of the limit, so that the
  result that carries it twice, as text and as structured content, passes the size check;
  provided only that the diagnosis without any evidence would.
\<close>

theorem diagnosis_fits_result_limit:
  assumes "diagnosePipelineRun env ctx args l = (Inr d, l')"
    and "0 < ResultLimit ctx" and "is_int64 (ResultLimit ctx + 31)"
    and "int (length (diagnosisJson (emptyDiagnosis (argumentString args ''namespace'' []) (argumentString args ''name'' []))))
      \<le> ResultLimit ctx div 2"
  shows "2 * int (length (diagnosisJson d)) \<le> ResultLimit ctx
    \<and> rejectOversizedToolResult marshalPrepared (ResultLimit ctx) (Some (diagnosisResult d)) = None"
proof -
  obtain ns name pr l0 where a: "RequiredString args ''namespace'' = Inr ns" "RequiredString args ''name'' = Inr name"
    and d: "d = sortPartialErrors (sR (collectDiagnosis env ctx ns name pr l0))"
    using assms(1) by (rule diagnose_result)
  have "int (length (diagnosisJson d)) \<le> ResultLimit ctx div 2"
    using collection_within [OF assms(2), of env ns name pr l0] assms(4)
    by (simp add: d sortPartialErrors_size RequiredString_value [OF a(1)] RequiredString_value [OF a(2)])
  then have "2 * int (length (diagnosisJson d)) \<le> ResultLimit ctx" by simp
  then show ?thesis using assms(2,3)
    by (simp add: rejectOversizedToolResult_def diagnosisResult_def NewToolCallResultStructured_def NewToolCallResultFull_def
        marshalDiagnosis_def toolResultSize_def ensureStructuredObject_def marshalPrepared_def overResultLimit_def)
qed

lemma example_frame: "length (diagnosisJson (emptyDiagnosis ''ci'' ''run'')) = 208"
  by code_simp

theorem diagnosis_fits_result_limit_witness:
  "\<exists>d l. diagnosePipelineRun exampleTekton (Some (Some 4096)) exampleArgs [] = (Inr d, l)
     \<and> rejectOversizedToolResult marshalPrepared 4096 (Some (diagnosisResult d)) = None"
  using example_diagnosis [of "Some (Some 4096)"]
    diagnosis_fits_result_limit [of exampleTekton "Some (Some 4096)" exampleArgs "[]"]
  by (fastforce simp: ResultLimit_def is_int64_def exampleArgs_def argumentString_def example_frame)

lemma diagnose_log:
  assumes "fst (diagnosePipelineRun env ctx args l) = Inr d"
  shows "\<exists>ns name ops. RequiredString args ''namespace'' = Inr ns \<and> RequiredString args ''name'' = Inr name
    \<and> snd (diagnosePipelineRun env ctx args l) = l @ TGet pipelineRunGVR ns name # ops \<and> list_all (evidenceOp ns) ops"
proof -
  obtain l' where "diagnosePipelineRun env ctx args l = (Inr d, l')" using assms by (metis prod.collapse)
  then show ?thesis
  proof (cases rule: diagnose_result)
    case (1 ns name pr l0)
    have l0: "l0 = l @ [TGet pipelineRunGVR ns name]" using 1(3) by (auto simp: getPipelineRun_def ask_defs split: sum.splits)
    show ?thesis using 1 l0 moves_frame [OF collection_moves [of ns name ctx l0 env pr]] \<open>diagnosePipelineRun env ctx args l = (Inr d, l')\<close>
      by auto
  qed
qed

text \<open>The diagnosis asks the API server only for what it declares.\<close>

lemma diagnose_within_rbac:
  assumes "snd (diagnosePipelineRun env ctx args l) = l @ ops" "op \<in> set ops"
  shows "declaredFor diagnoseRBAC args (teNamespace env) (tektonRequest op)"
proof (cases "fst (diagnosePipelineRun env ctx args l)")
  case (Inr d)
  obtain ns name es where e: "RequiredString args ''namespace'' = Inr ns" "RequiredString args ''name'' = Inr name"
    "ops = TGet pipelineRunGVR ns name # es" "list_all (evidenceOp ns) es"
    using diagnose_log [OF Inr] assms(1) by auto
  have ns: "argumentString args ''namespace'' d = ns" for d by (rule RequiredString_value [OF e(1)])
  have nm: "argumentString args ''name'' d = name" for d by (rule RequiredString_value [OF e(2)])
  have "op = TGet pipelineRunGVR ns name \<or> evidenceOp ns op" using assms(2) e(3,4) by (auto simp: list_all_iff)
  then show ?thesis using ns nm
    by (cases op) (auto simp: diagnoseRBAC_def groupedRequest_def podLogRequest_def eventListRequest_def pipelineRunGVR_def taskRunGVR_def tektonGVR_def)
next
  case (Inl err)
  then have "ops = [] \<or> (\<exists>ns name. ops = [TGet pipelineRunGVR ns name] \<and> RequiredString args ''namespace'' = Inr ns \<and> RequiredString args ''name'' = Inr name)"
    using assms(1) by (auto simp: diagnosePipelineRun_def getPipelineRun_def ask_defs Let_def split: sum.splits prod.splits)
  then obtain ns name where "op = TGet pipelineRunGVR ns name" "RequiredString args ''namespace'' = Inr ns" "RequiredString args ''name'' = Inr name"
    using assms(2) by auto
  then show ?thesis
    by (simp add: diagnoseRBAC_def groupedRequest_def pipelineRunGVR_def tektonGVR_def RequiredString_value)
qed

end
