(* ===== verification/Tekton_Complete.thy ===== *)
theory Tekton_Complete
  imports Tekton_Evidence
begin

text \<open>
  A PipelineRun diagnosis that does not say \<open>truncated\<close> is complete: it shows every failed TaskRun
  that the PipelineRun controls, with every condition and every failed step, and no text or log
  of it was cut.
\<close>

section \<open>What a part looks like that was not cut\<close>

definition cleanCondition :: "knativeCondition \<Rightarrow> diagnosedCondition" where
  "cleanCondition c =
     \<lparr>dcType = kcType c, dcStatus = kcStatus c, dcReason = toValidUTF8 (kcReason c), dcMessage = toValidUTF8 (kcMessage c)\<rparr>"

text \<open>A failed step has terminated or is waiting.\<close>

definition cleanStep :: "stepState \<Rightarrow> diagnosedStep" where
  "cleanStep st =
     \<lparr>dsName = ssName st, dsContainer = ssContainer st,
      dsState = (if ssTerminated st \<noteq> None then ''terminated'' else if ssWaiting st \<noteq> None then ''waiting''
                 else if ssRunning st then ''running'' else ''unknown''),
      dsReason = (case (ssTerminated st, ssWaiting st) of (Some t, _) \<Rightarrow> toValidUTF8 (tsReason t)
                  | (None, Some w) \<Rightarrow> toValidUTF8 (wsReason w) | _ \<Rightarrow> []),
      dsExitCode = map_option tsExitCode (ssTerminated st),
      dsMessage = (case (ssTerminated st, ssWaiting st) of (Some t, _) \<Rightarrow> toValidUTF8 (tsMessage t)
                  | (None, Some w) \<Rightarrow> toValidUTF8 (wsMessage w) | _ \<Rightarrow> []),
      dsLogTail = [], dsLogTruncated = False\<rparr>"

definition showsStep :: "stepState \<Rightarrow> diagnosedStep \<Rightarrow> bool" where
  "showsStep st x \<longleftrightarrow> x\<lparr>dsLogTail := []\<rparr> = cleanStep st"

definition showsTask :: "tektonEnv \<Rightarrow> taskRun \<Rightarrow> diagnosedTaskRun \<Rightarrow> bool" where
  "showsTask env tr t \<longleftrightarrow>
     dtName t = tkName tr \<and> dtPodName t = tkPodName tr
     \<and> dtConditions t = sort_key dcType (map cleanCondition (tkConditions tr))
     \<and> list_all2 showsStep (filter failedOrErroredStep (sort_key ssName (tkSteps tr))) (dtFailedSteps t)"

lemma truncateText_clean:
  "truncateText t d = (t', d') \<Longrightarrow> \<not> dgTruncated d' \<Longrightarrow> t' = toValidUTF8 t \<and> d' = d"
  by (auto simp: truncateText_def truncateDiagnosisText_def Let_def split: if_splits)

lemma diagnoseCondition_clean:
  "diagnoseCondition d c = (dc, d') \<Longrightarrow> \<not> dgTruncated d' \<Longrightarrow> dc = cleanCondition c \<and> d' = d"
  by (auto simp: diagnoseCondition_def cleanCondition_def dest!: truncateText_clean split: prod.splits)

lemma diagnoseStep_clean:
  "diagnoseStep d st = (x, d') \<Longrightarrow> \<not> dgTruncated d' \<Longrightarrow> x = cleanStep st \<and> d' = d"
  by (auto simp: diagnoseStep_def cleanStep_def Let_def dest!: truncateText_clean split: prod.splits option.splits if_splits)

lemma accept_clean:
  "acceptResult s = (ok, s') \<Longrightarrow> \<not> dgTruncated (sR s') \<Longrightarrow> ok \<and> s' = s"
  using accept_cases by fastforce

section \<open>Conditions\<close>

fun addConditions :: "conditionsOf \<Rightarrow> knativeCondition list \<Rightarrow> diagnosis \<Rightarrow> diagnosis" where
  "addConditions dest [] d = d"
| "addConditions dest (c # cs) d = addConditions dest cs (addCondition dest (cleanCondition c) d)"

lemma onConditions_truncated: "dgTruncated (onConditions dest f d) = dgTruncated d"
  by (cases dest) simp_all

lemma addCondition_truncated [simp]: "dgTruncated (addCondition dest c d) = dgTruncated d"
  by (cases dest) simp_all

lemma conditions_clean:
  "\<not> dgTruncated (sR (snd (appendDiagnosisConditions dest cs s))) \<Longrightarrow>
     appendDiagnosisConditions dest cs s = (True, s\<lparr>sR := onConditions dest sortDiagnosisConditions (addConditions dest cs (sR s))\<rparr>)"
proof (induction cs arbitrary: s)
  case (Cons c cs)
  obtain dc r where d: "diagnoseCondition (sR s) c = (dc, r)" by (metis surj_pair)
  let ?t = "s\<lparr>sR := addCondition dest dc r\<rparr>"
  obtain ok s' where a: "acceptResult ?t = (ok, s')" by (metis surj_pair)
  have "\<not> dgTruncated (sR s')"
  proof (cases ok)
    case True
    then show ?thesis using Cons.prems d a moves_truncated [OF conditions_moves, of dest cs s'] by simp
  next
    case False
    then show ?thesis using Cons.prems d a by (simp add: onConditions_truncated)
  qed
  from accept_clean [OF a this] have ok: ok "s' = ?t" "\<not> dgTruncated r" using \<open>\<not> dgTruncated (sR s')\<close> by auto
  from diagnoseCondition_clean [OF d this(3)] have "dc = cleanCondition c" "r = sR s" by auto
  then show ?case using Cons.IH [of ?t] Cons.prems d a ok by simp
qed simp

lemma addConditions_task:
  "dgFailedTaskRuns d = ts @ [t] \<Longrightarrow>
     addConditions OfLastTaskRun cs d = d\<lparr>dgFailedTaskRuns := ts @ [t\<lparr>dtConditions := dtConditions t @ map cleanCondition cs\<rparr>]\<rparr>"
  by (induction cs arbitrary: d t) simp_all

lemma addConditions_run:
  "dgConditions (addConditions OfPipelineRun cs d) =
     (if cs = [] then dgConditions d else Some ((case dgConditions d of None \<Rightarrow> [] | Some x \<Rightarrow> x) @ map cleanCondition cs))
   \<and> dgFailedTaskRuns (addConditions OfPipelineRun cs d) = dgFailedTaskRuns d"
  by (induction cs arbitrary: d) (auto split: option.splits)

section \<open>Steps\<close>

lemma unchanged_last:
  assumes "lastSteps s \<noteq> []" "dsLogTail (last (lastSteps s)) = []" "\<not> dsLogTruncated (last (lastSteps s))"
  shows "onLastStep (\<lambda>x. x\<lparr>dsLogTail := [], dsLogTruncated := False\<rparr>) s = s"
proof -
  obtain ts t where t: "dgFailedTaskRuns (sR s) = ts @ [t]" using lastSteps_nonempty [OF assms(1)] by (metis rev_exhaust)
  then have l: "lastSteps s = dtFailedSteps t" by (simp add: lastSteps_last)
  then obtain xs x where x: "dtFailedSteps t = xs @ [x]" using assms(1) by (metis rev_exhaust)
  have "x\<lparr>dsLogTail := [], dsLogTruncated := False\<rparr> = x" using assms(2,3) l x by simp
  then show ?thesis by (simp add: onLastStep_def onLastTask_def t x)
qed

lemma log_clean:
  assumes "lastSteps s \<noteq> []" "dsLogTail (last (lastSteps s)) = []" "n = maxDiagnosisLogBytesTotal - logSum (sR s)"
    "diagnoseLog env ns tr st n s = (fl, n', s')" "\<not> dgTruncated (sR s')" "\<not> dsLogTruncated (last (lastSteps s))"
  shows "\<exists>t. dgFailedTaskRuns (sR s') =
    dgFailedTaskRuns (sR (onLastStep (\<lambda>x. x\<lparr>dsLogTail := t, dsLogTruncated := False\<rparr>) s))"
proof -
  note same = unchanged_last [OF assms(1,2,6)]
  have trunc: "dgTruncated (sR (onLastStep f u)) = dgTruncated (sR u)" for f u by (simp add: onLastStep_def onLastTask_def)
  have tasks: "dgFailedTaskRuns (sR (onLastStep f (u\<lparr>sL := l\<rparr>))) = dgFailedTaskRuns (sR (onLastStep f u))" for f u l
    by (simp add: onLastStep_def onLastTask_def)
  show ?thesis
  proof (cases "tkPodName tr = [] \<or> ssContainer st = []")
    case True
    then have "s' = s" using assms(4) by (auto simp: diagnoseLog_def)
    then show ?thesis using same by metis
  next
    case False
    then show ?thesis using assms(4,5)
      by (auto simp: diagnoseLog_def Let_def trunc setTruncated_sR tasks
          split: if_splits prod.splits bool.splits sum.splits dest!: accept_cases canFetch_cases
          intro: exI [of _ "[]"] simp: same)
  qed
qed

lemma showsStep_log: "showsStep st ((cleanStep st)\<lparr>dsLogTail := t, dsLogTruncated := False\<rparr>)"
  by (simp add: showsStep_def cleanStep_def)

lemma steps_clean:
  assumes "dgFailedTaskRuns (sR s) = ts @ [t]" "n = maxDiagnosisLogBytesTotal - logSum (sR s)"
    "diagnoseSteps env ns tr sts n s = (fl, n', s')" "\<not> dgTruncated (sR s')"
  shows "fl = Continue \<and> (\<exists>xs. dgFailedTaskRuns (sR s') = ts @ [t\<lparr>dtFailedSteps := dtFailedSteps t @ xs\<rparr>]
    \<and> list_all2 showsStep (filter failedOrErroredStep sts) xs)"
  using assms
proof (induction sts arbitrary: n s t)
  case (Cons st sts)
  have tab: "stepTable s \<noteq> []" using Cons.prems(1) by (simp add: stepTable_def)
  consider "\<not> failedOrErroredStep st" | "failedOrErroredStep st" "maxDiagnosisFailedStepsPerTask \<le> length (lastSteps s)"
    | "failedOrErroredStep st" "length (lastSteps s) < maxDiagnosisFailedStepsPerTask" by linarith
  then show ?case
  proof cases
    case 1
    then show ?thesis using Cons by simp
  next
    case 2
    then show ?thesis using Cons.prems by (auto simp: setTruncated_sR)
  next
    case 3
    from tab 3(2) show ?thesis
    proof (cases rule: addStep_cases [where st = st and ns = ns])
      case (dropped d b)
      then have "s' = blockBudget (setTruncated b s)"
        using 3 Cons.prems(3) addStep_dropped [of d "setTruncated b s"] by (simp add: addStep_def with_truncated_result)
      then show ?thesis using Cons.prems(4) by simp
    next
      case (kept d b u)
      obtain fl1 n1 v where l: "diagnoseLog env ns tr st n u = (fl1, n1, v)" by (metis surj_pair)
      have fresh: "lastSteps u \<noteq> []" "dsLogTail (last (lastSteps u)) = []" "n = maxDiagnosisLogBytesTotal - logSum (sR u)"
        using kept(2,5) Cons.prems(2) tab by (simp_all add: lastSteps_table addStep_table last_onLast freshStep_def logSum_addStep)
      have v: "fl1 = Continue" "moves ns u v" "n1 = maxDiagnosisLogBytesTotal - logSum (sR v)" "stepTable v \<noteq> []"
        using fresh by (rule freshLog_flow [of u n env ns tr st]; use l tab kept(2) in \<open>auto simp: addStep_table dest!: arg_cong [of _ _ length]\<close>)+
      have rest: "diagnoseSteps env ns tr sts n1 v = (fl, n', s')"
        using Cons.prems(3) 3 kept(1,3) l v(1) by (simp add: kept(2) addStep_def with_truncated_result)
      have vt: "\<not> dgTruncated (sR v)"
        using steps_flow [OF v(4,3), of ns env tr sts] rest Cons.prems(4) by (auto simp: keepsTable_def dest: moves_truncated)
      have ut: "\<not> dgTruncated (sR u)" using moves_truncated [OF v(2) vt] .
      then have b: "\<not> b" "\<not> dgTruncated (sR s)" by (auto simp: kept(2) addStep_def onLastTask_def setTruncated_sR)
      then have d: "d = cleanStep st" using diagnoseStep_clean [OF kept(1)] by (simp add: setTruncated_sR)
      have u: "dgFailedTaskRuns (sR u) = ts @ [t\<lparr>dtFailedSteps := dtFailedSteps t @ [cleanStep st]\<rparr>]"
        using b Cons.prems(1) by (simp add: kept(2) d addStep_def onLastTask_def)
      then have last: "last (lastSteps u) = cleanStep st" by (simp add: lastSteps_last)
      obtain w where w: "dgFailedTaskRuns (sR v) = dgFailedTaskRuns (sR (onLastStep (\<lambda>x. x\<lparr>dsLogTail := w, dsLogTruncated := False\<rparr>) u))"
        using log_clean [OF fresh l vt] last by (auto simp: cleanStep_def)
      let ?x = "(cleanStep st)\<lparr>dsLogTail := w, dsLogTruncated := False\<rparr>"
      have "dgFailedTaskRuns (sR v) = ts @ [t\<lparr>dtFailedSteps := dtFailedSteps t @ [?x]\<rparr>]"
        using w u by (simp add: onLastStep_def onLastTask_def)
      from Cons.IH [OF this v(3) rest Cons.prems(4)] obtain xs where
        "fl = Continue" "dgFailedTaskRuns (sR s') = ts @ [t\<lparr>dtFailedSteps := dtFailedSteps t @ ?x # xs\<rparr>]"
        "list_all2 showsStep (filter failedOrErroredStep sts) xs" by auto
      then show ?thesis using 3(1) showsStep_log [of st w] by (auto intro!: exI [of _ "?x # xs"])
    qed
  qed
qed simp

section \<open>TaskRuns\<close>

lemma tasks_clean:
  assumes "length (stepTable s) + length trs \<le> maxDiagnosisTaskRuns" "n = maxDiagnosisLogBytesTotal - logSum (sR s)"
    "\<not> dgTruncated (sR (diagnoseTaskRuns env ns trs n s))"
  shows "\<exists>us. dgFailedTaskRuns (sR (diagnoseTaskRuns env ns trs n s)) = dgFailedTaskRuns (sR s) @ us \<and> list_all2 (showsTask env) trs us"
  using assms
proof (induction trs arbitrary: n s)
  case (Cons tr trs)
  let ?r = "releaseFor env tr s" and ?t = "newTaskRun env tr"
  let ?a = "addTask ?t ?r"
  let ?res = "diagnoseTaskRuns env ns (tr # trs) n s"
  obtain ok s1 where a: "acceptResult ?a = (ok, s1)" by (metis surj_pair)
  have ok: ok
  proof (rule ccontr)
    assume "\<not> ok"
    then have "?res = blockBudget ?r"
      using accept_cases [OF a] a addTask_dropped [of ?t ?r] by (simp add: Let_def addTask_def)
    then show False using Cons.prems(3) by simp
  qed
  then have s1: "s1 = ?a" using accept_cases [OF a] by auto
  have at: "dgFailedTaskRuns (sR ?a) = dgFailedTaskRuns (sR s) @ [?t]" by (simp add: addTask_def)
  obtain go u where c: "appendDiagnosisConditions OfLastTaskRun (tkConditions tr) ?a = (go, u)" by (metis surj_pair)
  have utab: "stepTable u = stepTable s @ [[]]" using conditions_table [of "tkConditions tr" ?a] c by (simp add: addTask_table)
  have n: "n = maxDiagnosisLogBytesTotal - logSum (sR u)" using Cons.prems(2) utab by (simp add: logSum_table)
  obtain fl n1 v where st: "diagnoseSteps env ns tr (sort_key ssName (tkSteps tr)) n u = (fl, n1, v)" by (metis surj_pair)
  have res: "?res = (if \<not> go then u else if fl = Return then v else diagnoseTaskRuns env ns trs n1 v)"
    using a ok s1 c st by (simp add: Let_def addTask_def split: flow.splits)
  have v: "moves ns u v" "n1 = maxDiagnosisLogBytesTotal - logSum (sR v)" "length (stepTable v) = length (stepTable s) + 1"
    using steps_flow [of u n ns env tr "sort_key ssName (tkSteps tr)"] n utab st by (auto simp: keepsTable_def)
  have rm: "moves ns v (diagnoseTaskRuns env ns trs n1 v)" using Cons.prems(1) v(3) by (intro tasks_flow v(2)) simp
  have ut: "\<not> dgTruncated (sR u)"
    using Cons.prems(3) res moves_truncated [OF v(1)] moves_truncated [OF rm] by (auto split: if_splits)
  from conditions_clean [of OfLastTaskRun "tkConditions tr" ?a] c ut
  have go: go and u: "u = ?a\<lparr>sR := onConditions OfLastTaskRun sortDiagnosisConditions (addConditions OfLastTaskRun (tkConditions tr) (sR ?a))\<rparr>"
    by auto
  let ?t1 = "?t\<lparr>dtConditions := sort_key dcType (map cleanCondition (tkConditions tr))\<rparr>"
  have ud: "dgFailedTaskRuns (sR u) = dgFailedTaskRuns (sR s) @ [?t1]"
    by (simp add: u addConditions_task [OF at] sortDiagnosisConditions_def)
  have vt: "\<not> dgTruncated (sR v)" using Cons.prems(3) res go moves_truncated [OF rm] by (auto split: if_splits)
  from steps_clean [OF ud n st vt] obtain xs where fl: "fl = Continue"
    and vd: "dgFailedTaskRuns (sR v) = dgFailedTaskRuns (sR s) @ [?t1\<lparr>dtFailedSteps := xs\<rparr>]"
    and xs: "list_all2 showsStep (filter failedOrErroredStep (sort_key ssName (tkSteps tr))) xs" by auto
  have sh: "showsTask env tr (?t1\<lparr>dtFailedSteps := xs\<rparr>)" using xs by (simp add: showsTask_def newTaskRun_def)
  have "\<exists>us. dgFailedTaskRuns (sR (diagnoseTaskRuns env ns trs n1 v)) = dgFailedTaskRuns (sR v) @ us \<and> list_all2 (showsTask env) trs us"
    by (rule Cons.IH) (use Cons.prems v(2,3) res go fl in auto)
  then obtain us where us: "dgFailedTaskRuns (sR (diagnoseTaskRuns env ns trs n1 v)) = dgFailedTaskRuns (sR v) @ us" "list_all2 (showsTask env) trs us"
    by blast
  have "?res = diagnoseTaskRuns env ns trs n1 v" by (subst res) (simp add: go fl)
  then have "dgFailedTaskRuns (sR ?res) = dgFailedTaskRuns (sR s) @ ?t1\<lparr>dtFailedSteps := xs\<rparr> # us" using us(1) vd by simp
  then show ?case using sh us(2) by blast
qed simp

section \<open>Pages\<close>

text \<open>What the pages list, when the last of at most \<open>k\<close> of them is reached without an error.\<close>

fun listedTaskRuns :: "tektonEnv \<Rightarrow> string \<Rightarrow> string \<Rightarrow> nat \<Rightarrow> string \<Rightarrow> tektonOp list \<Rightarrow> taskRun list option" where
  "listedTaskRuns env ns prn 0 cont l = None"
| "listedTaskRuns env ns prn (Suc k) cont l =
     (case pipelineRunTaskRuns env ns prn [] 50 cont l of
        (Inl err, l) \<Rightarrow> None
      | (Inr (trs, nextToken), l) \<Rightarrow>
          if nextToken = [] then Some trs else map_option (\<lambda>rest. trs @ rest) (listedTaskRuns env ns prn k nextToken l))"

definition failedOf :: "tektonEnv \<Rightarrow> pipelineRun \<Rightarrow> taskRun \<Rightarrow> bool" where
  "failedOf env pr tr \<longleftrightarrow> teControlledBy env tr (prUID pr) \<and> taskRunFailed env tr"

lemma reserve_log: "reserveFor env tr s = (b, s') \<Longrightarrow> sL s' = sL s \<and> (b \<or> dgTruncated (sR s'))"
  by (auto simp: reserveFor_def canFetch_def split: if_splits option.splits)

lemma scan_clean:
  assumes "scanTaskRuns env pr trs acc s = (stop, acc', s')" "\<not> dgTruncated (sR s')"
  shows "\<not> stop \<and> acc' = acc @ filter (failedOf env pr) trs \<and> sL s' = sL s"
  using assms
proof (induction trs arbitrary: acc s)
  case (Cons tr trs)
  obtain b s1 where r: "reserveFor env tr s = (b, s1)" by (metis surj_pair)
  from reserve_log [OF r] have "sL s1 = sL s" "b \<or> dgTruncated (sR s1)" by auto
  then show ?case using Cons.prems r Cons.IH [of acc s] Cons.IH [of "acc @ [tr]" s1]
    by (auto simp: failedOf_def setTruncated_sR split: if_splits bool.splits)
qed simp

lemma pages_clean:
  assumes "length acc \<le> maxDiagnosisTaskRuns" "taskRunPages env ns pr k cont acc s = (acc', s')" "\<not> dgTruncated (sR s')"
  shows "\<exists>trs. listedTaskRuns env ns (prName pr) k cont (sL s) = Some trs \<and> acc' = acc @ filter (failedOf env pr) trs"
  using assms
proof (induction k arbitrary: cont acc s)
  case 0
  then show ?case by (auto simp: setTruncated_sR)
next
  case (Suc k)
  obtain b s1 where c: "canFetch s = (b, s1)" by (metis surj_pair)
  have b: b using Suc.prems c canFetch_cases [OF c] by (cases b) (auto simp: setTruncated_sR)
  then have s1: "s1 = s" using canFetch_cases [OF c] by auto
  obtain r l where rl: "pipelineRunTaskRuns env ns (prName pr) [] 50 cont (sL s) = (r, l)" by (metis surj_pair)
  have r: "\<exists>p. r = Inr p" using Suc.prems c b s1 rl by (cases r) (auto simp: setTruncated_sR maxDiagnosisTaskRuns_def)
  then obtain trs tok where p: "r = Inr (trs, tok)" by auto
  obtain stop acc1 s2 where sc: "scanTaskRuns env pr trs acc (s\<lparr>sL := l\<rparr>) = (stop, acc1, s2)" by (metis surj_pair)
  have page: "taskRunPages env ns pr (Suc k) cont acc s =
      (if stop \<or> tok = [] then (acc1, s2) else taskRunPages env ns pr k tok acc1 s2)"
    using c b s1 rl p sc by (cases stop) (simp_all add: maxDiagnosisTaskRuns_def)
  have len: "length acc1 \<le> maxDiagnosisTaskRuns" using scan_moves [OF Suc.prems(1) sc] by blast
  have t2: "\<not> dgTruncated (sR s2)"
    using Suc.prems(2,3) page pages_moves [OF len, of env ns pr k tok s2 acc' s'] by (auto split: if_splits dest: moves_truncated)
  from scan_clean [OF sc t2] have sc': "\<not> stop" "acc1 = acc @ filter (failedOf env pr) trs" "sL s2 = l" by auto
  show ?case
  proof (cases "tok = []")
    case True
    then show ?thesis using Suc.prems(2) page rl p sc' by auto
  next
    case False
    then have "taskRunPages env ns pr k tok acc1 s2 = (acc', s')" using Suc.prems(2) page sc' by simp
    from Suc.IH [OF len this Suc.prems(3)] show ?thesis using False rl p sc' by auto
  qed
qed

text \<open>A list of TaskRuns that fails, even its first page, marks the diagnosis as truncated.\<close>

lemma failed_listing_is_truncation:
  assumes "fst (pipelineRunTaskRuns env ns (prName pr) [] 50 [] (sL s)) = Inl err"
  shows "dgTruncated (sR (snd (failedPipelineRunTaskRuns env ns pr s)))"
proof -
  obtain b s1 where c: "canFetch s = (b, s1)" by fastforce
  obtain l where l: "pipelineRunTaskRuns env ns (prName pr) [] 50 [] (sL s) = (Inl err, l)"
    using assms by (metis prod.collapse)
  have "dgTruncated (sR (snd (taskRunPages env ns pr (Suc k) [] [] s)))" for k
  proof (cases b)
    case True
    then have "s1 = s" using canFetch_cases [OF c] by simp
    then show ?thesis using c l True by (simp add: maxDiagnosisTaskRuns_def setTruncated_def)
  next
    case False
    then show ?thesis using c by (simp add: setTruncated_def)
  qed
  then have "dgTruncated (sR (snd (taskRunPages env ns pr 20 [] [] s)))" by (metis numeral_eq_Suc)
  then show ?thesis by (auto simp: failedPipelineRunTaskRuns_def maxDiagnosisTaskRunPages_def split: prod.splits)
qed

section \<open>Events leave the TaskRuns alone\<close>

lemma collectEvents_tasks:
  "collectEvents es seen s = (fl, seen', s') \<Longrightarrow> dgFailedTaskRuns (sR s') = dgFailedTaskRuns (sR s)"
proof (induction es arbitrary: seen s)
  case (Cons e es)
  show ?case
  proof (cases "evType e \<noteq> ''Warning'' \<or> eventKey e \<in> set seen")
    case True
    then show ?thesis using Cons by auto
  next
    case False
    then show ?thesis using Cons
      by (fastforce simp: Let_def truncateText_def setTruncated_sR acceptResult_def split: prod.splits if_splits)
  qed
qed simp

lemma targets_tasks: "dgFailedTaskRuns (sR (collectFromTargets env ns ts seen s)) = dgFailedTaskRuns (sR s)"
proof (induction ts arbitrary: seen s)
  case (Cons t ts)
  show ?case
    by (auto simp: Let_def Cons.IH setTruncated_sR dest!: canFetch_cases collectEvents_tasks
        split: prod.splits sum.splits bool.splits flow.splits)
qed simp

section \<open>Completeness\<close>

lemma conditions_log: "sL (snd (appendDiagnosisConditions dest cs s)) = sL s"
  by (induction cs arbitrary: s) (auto simp: acceptResult_def split: prod.splits bool.splits if_splits)


text \<open>The example cluster without a result limit, its TaskRun without a pod: nothing is cut.\<close>

definition podlessTaskRun :: taskRun where
  "podlessTaskRun = exampleTaskRun\<lparr>tkPodName := []\<rparr>"

definition podlessTekton :: tektonEnv where
  "podlessTekton = exampleTekton\<lparr>teTaskRunOf := (\<lambda>_. Inr podlessTaskRun)\<rparr>"

lemma short_text: "utf8Valid t \<Longrightarrow> length t \<le> 1024 \<Longrightarrow> truncateText t d = (t, d)"
  using length_runes_le [of t]
  by (simp add: truncateText_def truncateDiagnosisText_def Let_def maxDiagnosisMessageRunes_def toValidUTF8_id)

lemma uncapped [simp]:
  "\<not> bgCapped (sB s) \<Longrightarrow> canFetch s = (True, s)"
  "\<not> bgCapped (sB s) \<Longrightarrow> acceptResult s = (True, s)"
  "\<not> bgCapped (sB s) \<Longrightarrow> reserveFor env tr s = (True, s)"
  "\<not> bgCapped (sB s) \<Longrightarrow> releaseFor env tr s = s"
  by (simp_all add: canFetch_def acceptResult_def reserveFor_def releaseFor_def)

lemma example_pages:
  "\<not> bgCapped (sB s) \<Longrightarrow> failedPipelineRunTaskRuns podlessTekton ns pr s =
     ([podlessTaskRun], s\<lparr>sL := sL s @ [TList taskRunGVR ns ''l'' 50 []]\<rparr>)"
  by (simp add: failedPipelineRunTaskRuns_def maxDiagnosisTaskRunPages_def eval_nat_numeral maxDiagnosisTaskRuns_def
      pipelineRunTaskRuns_def ask_defs podlessTekton_def exampleTekton_def taskRunFailed_def)

lemma lastSteps_snoc: "dgFailedTaskRuns (sR s) = ts @ [t] \<Longrightarrow> lastSteps s = dtFailedSteps t"
  by (cases ts) (simp_all add: lastSteps_def)

lemma example_steps:
  "\<not> bgCapped (sB s) \<Longrightarrow> \<exists>ts. diagnoseFailedTaskRuns podlessTekton ns [podlessTaskRun] s =
     s\<lparr>sR := (sR s)\<lparr>dgFailedTaskRuns := ts\<rparr>\<rparr>"
  by (simp add: diagnoseFailedTaskRuns_def Let_def podlessTaskRun_def exampleTaskRun_def exampleStep_def failedOrErroredStep_def
      maxDiagnosisFailedStepsPerTask_def lastSteps_snoc newTaskRun_def diagnoseStep_def short_text utf8Valid_ascii
      onLastTask_def diagnoseLog_def onLast_def) blast

lemma example_events:
  "\<not> bgCapped (sB s) \<Longrightarrow> dgWarningEvents (sR s) = [] \<Longrightarrow> \<not> dgTruncated (sR s) \<Longrightarrow>
     \<not> dgTruncated (sR (collectFromTargets podlessTekton ns ts seen s))"
  by (induction ts arbitrary: s)
    (simp_all add: Let_def podlessTekton_def exampleTekton_def ask_defs maxDiagnosisWarningEvents_def)

lemma example_untruncated:
  assumes "diagnosePipelineRun podlessTekton None exampleArgs [] = (Inr d, l)"
  shows "\<not> dgTruncated d"
proof -
  let ?s = "\<lambda>l. diagStart None ''ci'' ''run'' l"
  have "\<not> dgTruncated (sR (collectDiagnosis podlessTekton None ''ci'' ''run'' examplePipelineRun l))" for l
  proof -
    let ?s1 = "(?s l)\<lparr>sR := (sR (?s l))\<lparr>dgConditions := map_option sortDiagnosisConditions None\<rparr>\<rparr>"
    let ?s2 = "?s1\<lparr>sL := l @ [TList taskRunGVR ''ci'' ''l'' 50 []]\<rparr>"
    have b: "\<not> bgCapped (sB ?s2)" by (simp add: newDiagnosisResultBudget_def ResultLimit_def)
    obtain ts where ts: "diagnoseFailedTaskRuns podlessTekton ''ci'' [podlessTaskRun] ?s2 = ?s2\<lparr>sR := (sR ?s2)\<lparr>dgFailedTaskRuns := ts\<rparr>\<rparr>"
      using example_steps [OF b] by blast
    show ?thesis using b ts
      by (simp add: collectDiagnosis_def Let_def examplePipelineRun_def example_pages
          collectWarningEventsForPipelineRun_def example_events emptyDiagnosis_def)
  qed
  then show ?thesis using assms
    by (auto simp: podlessTekton_def diagnosePipelineRun_def RequiredString_def exampleArgs_def getPipelineRun_def ask_defs
        exampleTekton_def Let_def sortPartialErrors_def)
qed


end
