(* ===== verification/Report_Steps.thy ===== *)
theory Report_Steps
  imports Result_Budget
begin

text \<open>
  Reports whose sections are gathered from the cluster while they are written. \<open>Sections\<close> and
  \<open>TrySection\<close> of \<open>pkg/api/resultbudget.go\<close> run with steps that also pass a state of their own (the
  requests sent so far), and a report under a limit is compared with the same report under none:
  it follows the unlimited one until something does not fit, and from then on it is bound to end
  with the truncation notice.
\<close>

section \<open>Steps with a state\<close>

type_synonym 's report = "builder \<times> 's"

definition put :: "string \<Rightarrow> 's report \<Rightarrow> 's report" where
  "put t w = (snd (WriteString t (fst w)), snd w)"

text \<open>\<open>Sections\<close>, for steps that return no error.\<close>

fun SectionsIn :: "('s report \<Rightarrow> 's report) list \<Rightarrow> 's report \<Rightarrow> 's report" where
  "SectionsIn [] w = w"
| "SectionsIn (f # fs) w =
     (case spent (Some (fst w)) of
        (True, b) \<Rightarrow> (the b, snd w)
      | (False, _) \<Rightarrow> SectionsIn fs (f w))"

definition TrySectionIn ::
    "string \<Rightarrow> string \<Rightarrow> ('s report \<Rightarrow> 'e option \<times> 's report) \<Rightarrow> 's report \<Rightarrow> bool \<times> 'e option \<times> 's report" where
  "TrySectionIn header suffix gather w =
     (let b = fst w; body = Scratch (int (length header) + int (length suffix)) (Some b)
      in if \<not> Fits (Some b) (int (length header)) \<or> Truncated body then (False, None, w)
         else (case gather (body, snd w) of
             (Some e, _, s) \<Rightarrow> (False, Some e, b, s)
           | (None, body, s) \<Rightarrow>
               let b' = the (snd (CommitScratch header suffix (Some body) (Some b)))
               in (Len b' > Len b, None, b', s)))"

text \<open>On the builder these are the operations of the budget.\<close>

lemma SectionsIn_refines_Sections:
  "fst (snd (Sections (map (\<lambda>f. Some (\<lambda>b. (None :: unit option, f b))) fs) (Some b))) =
     Some (fst (SectionsIn (map (\<lambda>f w. (f (fst w), snd w)) fs) (b, l)))"
proof (induction fs arbitrary: b)
  case (Cons f fs)
  obtain sp b' where s: "spent (Some b) = (sp, b')" by (metis surj_pair)
  have "b' \<noteq> None" using s by (auto simp: spent_def split: if_splits)
  then show ?case using Cons.IH [of "f b"] s by (cases sp) (auto split: prod.splits)
qed simp

lemma TrySectionIn_refines:
  assumes "TrySectionIn header suffix gather (b, s) = (written, err, b', s')"
  shows "TrySection header suffix (Some (\<lambda>body. (fst (gather (body, s)), fst (snd (gather (body, s)))))) (Some b)
    = (written, err, Some b')"
  using assms unfolding TrySectionIn_def TrySection_def Let_def
  by (auto simp: CommitScratch_def WriteCut_def Let_def split: if_splits option.splits prod.splits)

section \<open>Growing within the budget\<close>

definition noticed :: "string \<Rightarrow> bool" where
  "noticed t \<longleftrightarrow> containsSub t ResultTruncationNotice"

definition grows :: "builder \<Rightarrow> builder \<Rightarrow> bool" where
  "grows b b' \<longleftrightarrow>
     (wfBuilder b \<longrightarrow> wfBuilder b' \<and> bLimit b' = bLimit b \<and> bCapped b' = bCapped b \<and> (\<exists>t. bBuf b' = bBuf b @ t)
        \<and> (bTruncated b \<longrightarrow> b' = b) \<and> (bTruncated b' \<longrightarrow> bTruncated b \<or> hasSuffix (bBuf b') ResultTruncationNotice))"

lemma containsSub_iff: "containsSub s p \<longleftrightarrow> (\<exists>x y. s = x @ p @ y)"
proof (induction s)
  case Nil
  show ?case by auto
next
  case (Cons c s)
  show ?case
  proof
    assume "containsSub (c # s) p"
    with Cons.IH consider y where "c # s = p @ y" | x y where "s = x @ p @ y" by (auto simp: hasPrefix_def) (metis append_take_drop_id)
    then show "\<exists>x y. c # s = x @ p @ y" by cases (metis append_Nil, metis append_Cons)
  next
    assume "\<exists>x y. c # s = x @ p @ y"
    then obtain x y where e: "c # s = x @ p @ y" by blast
    show "containsSub (c # s) p"
    proof (cases x)
      case Nil
      with e have "c # s = p @ y" by simp
      then have "hasPrefix (c # s) p" by (simp add: hasPrefix_def)
      then show ?thesis by simp
    next
      case (Cons d xs)
      with e have "s = xs @ p @ y" by simp
      then show ?thesis using Cons.IH by auto
    qed
  qed
qed

lemma noticed_append [simp]: "noticed t \<Longrightarrow> noticed (u @ t @ v)"
  unfolding noticed_def containsSub_iff by (metis append.assoc)

lemma noticed_left: "noticed t \<Longrightarrow> noticed (t @ v)"
  using noticed_append [of t "[]" v] by simp

lemma noticed_suffix: "hasSuffix t ResultTruncationNotice \<Longrightarrow> noticed t"
  unfolding noticed_def containsSub_iff hasSuffix_def by (metis append_Nil2 append_take_drop_id)

lemma grows_refl [simp]: "grows b b"
  by (simp add: grows_def)

lemma grows_trans: "grows b c \<Longrightarrow> grows c d \<Longrightarrow> grows b d"
  unfolding grows_def by (metis append.assoc)

lemma grows_write [simp]: "grows b (snd (WriteString t b))"
proof (cases "wfBuilder b")
  case True
  then show ?thesis
  proof (cases rule: WriteString_cases [where s = t])
    case cut
    then show ?thesis unfolding grows_def using WriteString_wf [OF True, of t]
      hasSuffix_append [of "bBuf b @ take (cutEnd t (nat (bLimit b - Len b))) t" ResultTruncationNotice] by auto
  qed (use WriteString_wf [OF True, of t] in \<open>auto simp: grows_def\<close>)
qed (simp add: grows_def)

lemma grows_commit:
  assumes "wfBuilder i" "bTruncated i \<longrightarrow> hasSuffix (bBuf i) ResultTruncationNotice"
  shows "grows b (the (snd (CommitScratch header suffix (Some i) (Some b))))"
proof -
  have "grows b (the (snd (WriteCut t wasCut (Some b))))" for t wasCut
  proof -
    obtain c b1 where w: "WriteString t b = (c, b1)" by force
    have 1: "grows b b1" using grows_write [of b t] w by simp
    moreover have "grows b (snd (WriteString ResultTruncationNotice b1))" using grows_trans [OF 1 grows_write] .
    ultimately show ?thesis using w by (auto simp: WriteCut_def Let_def)
  qed
  then show ?thesis by (simp add: CommitScratch_eq)
qed

section \<open>A report under a limit and the same report without one\<close>

definition unbounded :: "builder \<Rightarrow> bool" where
  "unbounded b \<longleftrightarrow> wfBuilder b \<and> \<not> bCapped b"

text \<open>The report has lost nothing: it holds what the unlimited one holds, in the same state.\<close>

definition tracks :: "'s report \<Rightarrow> 's report \<Rightarrow> bool" where
  "tracks w w0 \<longleftrightarrow>
     wfBuilder (fst w) \<and> bCapped (fst w) \<and> \<not> bTruncated (fst w) \<and> unbounded (fst w0)
     \<and> bBuf (fst w) = bBuf (fst w0) \<and> snd w = snd w0"

text \<open>The report holds the notice, or has not the room for a closing text of \<open>k\<close> bytes.\<close>

definition doomed :: "int \<Rightarrow> builder \<Rightarrow> bool" where
  "doomed k b \<longleftrightarrow> wfBuilder b \<and> bCapped b \<and> (noticed (bBuf b) \<or> \<not> bTruncated b \<and> bLimit b - Len b < k)"

definition faithful :: "int \<Rightarrow> ('s report \<Rightarrow> 's report) \<Rightarrow> bool" where
  "faithful k f \<longleftrightarrow>
     (\<forall>w. grows (fst w) (fst (f w))) \<and> (\<forall>w w0. tracks w w0 \<longrightarrow> tracks (f w) (f w0) \<or> doomed k (fst (f w)))"

lemma faithfulD:
  assumes "faithful k f"
  shows "grows (fst w) (fst (f w))" and "tracks w w0 \<Longrightarrow> tracks (f w) (f w0) \<or> doomed k (fst (f w))"
  using assms unfolding faithful_def by blast+

lemma unbounded_grows: "unbounded b \<Longrightarrow> grows b b' \<Longrightarrow> unbounded b'"
  by (auto simp: unbounded_def grows_def)

lemma unbounded_truncated: "unbounded b \<Longrightarrow> \<not> bTruncated b"
  by (simp add: unbounded_def wfBuilder_def)

lemma unbounded_write: "unbounded b \<Longrightarrow> WriteString t b = (False, b\<lparr>bBuf := bBuf b @ t\<rparr>)"
  by (simp add: unbounded_truncated WriteString_def) (simp add: unbounded_def)

lemma doomed_grows:
  assumes "doomed k b" "grows b b'"
  shows "doomed k b'"
proof -
  have b: "wfBuilder b" "bCapped b" using assms(1) by (auto simp: doomed_def)
  with assms(2) obtain t where g: "wfBuilder b'" "bLimit b' = bLimit b" "bCapped b'" "bBuf b' = bBuf b @ t"
    "bTruncated b' \<longrightarrow> bTruncated b \<or> noticed (bBuf b')"
    using noticed_suffix unfolding grows_def by blast
  show ?thesis
  proof (cases "noticed (bBuf b)")
    case True
    then show ?thesis using g noticed_left by (simp add: doomed_def)
  next
    case False
    with assms(1) have "\<not> bTruncated b" "bLimit b - Len b < k" by (auto simp: doomed_def)
    with g show ?thesis by (auto simp: doomed_def Len_def)
  qed
qed

lemma faithful_comp: "faithful k f \<Longrightarrow> faithful k g \<Longrightarrow> faithful k (\<lambda>w. g (f w))"
  unfolding faithful_def by (metis doomed_grows grows_trans)

lemma write_tracks:
  assumes "tracks w w0"
  shows "tracks (put t w) (put t w0) \<or> noticed (bBuf (fst (put t w))) \<and> bTruncated (fst (put t w))"
    and "int (length t) \<le> bLimit (fst w) - Len (fst w) \<Longrightarrow> tracks (put t w) (put t w0)"
    and "bLimit (fst w) - Len (fst w) < int (length t) \<Longrightarrow> noticed (bBuf (fst (put t w)))"
proof -
  have w: "wfBuilder (fst w)" "bCapped (fst w)" "\<not> bTruncated (fst w)" "unbounded (fst w0)" "bBuf (fst w) = bBuf (fst w0)" "snd w = snd w0"
    using assms by (auto simp: tracks_def)
  have g: "wfBuilder (snd (WriteString t (fst w)))" using w by simp
  have u: "unbounded ((fst w0)\<lparr>bBuf := bBuf (fst w0) @ t\<rparr>)"
    using unbounded_grows [OF w(4) grows_write [of _ t]] unbounded_write [OF w(4)] by simp
  have c: "noticed (bBuf (fst (put t w))) \<and> bTruncated (fst (put t w))" if "bLimit (fst w) - Len (fst w) < int (length t)"
    using WriteString_cut [OF w(3,2,1), of t] that noticed_suffix [OF hasSuffix_append,
        of "bBuf (fst w) @ take (cutEnd t (nat (bLimit (fst w) - Len (fst w)))) t"] by (simp add: put_def)
  have f: "tracks (put t w) (put t w0)" if "int (length t) \<le> bLimit (fst w) - Len (fst w)"
    using WriteString_fits [OF w(3), of t] that w g u unbounded_write [OF w(4)] by (auto simp: tracks_def put_def)
  show "int (length t) \<le> bLimit (fst w) - Len (fst w) \<Longrightarrow> tracks (put t w) (put t w0)" by (rule f)
  show "bLimit (fst w) - Len (fst w) < int (length t) \<Longrightarrow> noticed (bBuf (fst (put t w)))" using c by blast
  show "tracks (put t w) (put t w0) \<or> noticed (bBuf (fst (put t w))) \<and> bTruncated (fst (put t w))" using c f by linarith
qed

lemma grows_put [simp]: "grows (fst w) (fst (put t w))"
  by (simp add: put_def)

lemma noticed_doomed: "wfBuilder b \<Longrightarrow> bCapped b \<Longrightarrow> noticed (bBuf b) \<Longrightarrow> doomed k b"
  by (simp add: doomed_def)

lemma tracks_grows_cap: "tracks w w0 \<Longrightarrow> grows (fst w) b \<Longrightarrow> wfBuilder b \<and> bCapped b \<and> bLimit b = bLimit (fst w)"
  by (auto simp: tracks_def grows_def)

lemma faithful_put [simp]: "faithful k (put t)"
proof -
  have "tracks (put t w) (put t w0) \<or> doomed k (fst (put t w))" if "tracks w w0" for w w0 :: "'a report"
    using write_tracks(1) [OF that, of t] tracks_grows_cap [OF that grows_put [of w t]] noticed_doomed by blast
  then show ?thesis unfolding faithful_def using grows_put by blast
qed

lemma grows_SectionsIn: "(\<And>f w. f \<in> set fs \<Longrightarrow> grows (fst w) (fst (f w))) \<Longrightarrow> grows (fst w) (fst (SectionsIn fs w))"
proof (induction fs arbitrary: w)
  case (Cons f fs)
  have 1: "grows (fst w) (fst (f w))" "grows (fst (f w)) (fst (SectionsIn fs (f w)))" using Cons by simp_all
  obtain full b where sp: "spent (Some (fst w)) = (full, b)" by force
  show ?case
  proof (cases full)
    case True
    then show ?thesis using sp by (auto simp: spent_def split: if_splits)
  next
    case False
    then show ?thesis using sp grows_trans [OF 1] by simp
  qed
qed simp

lemma faithful_SectionsIn:
  assumes "list_all (faithful k) fs"
  shows "faithful k (SectionsIn fs)"
  unfolding faithful_def
proof (intro conjI allI impI)
  show "grows (fst w) (fst (SectionsIn fs w))" for w
    using assms by (intro grows_SectionsIn) (auto simp: list_all_iff faithful_def)
  fix w w0 :: "'a report" assume "tracks w w0"
  with assms show "tracks (SectionsIn fs w) (SectionsIn fs w0) \<or> doomed k (fst (SectionsIn fs w))"
  proof (induction fs arbitrary: w w0)
    case (Cons f fs)
    have f: "faithful k f" "list_all (faithful k) fs" using Cons.prems by auto
    have w: "wfBuilder (fst w)" "bCapped (fst w)" "\<not> bTruncated (fst w)" "unbounded (fst w0)" using Cons.prems(2) by (auto simp: tracks_def)
    have "wfBuilder (fst w0)" using w(4) by (simp add: unbounded_def)
    then have 0: "SectionsIn (f # fs) w0 = SectionsIn fs (f w0)" using w(4) by (cases rule: spent_cases) (auto simp: unbounded_def)
    from w(1) show ?case
    proof (cases rule: spent_cases)
      case avail
      have "doomed k (fst (SectionsIn fs (f w)))" if "doomed k (fst (f w))"
        using doomed_grows [OF that grows_SectionsIn] f(2) by (auto simp: list_all_iff faithful_def)
      moreover have "SectionsIn (f # fs) w = SectionsIn fs (f w)" using avail(3) by simp
      moreover note faithfulD(2) [OF f(1) Cons.prems(2)] Cons.IH [OF f(2), of "f w" "f w0"]
      ultimately show ?thesis unfolding 0 by metis
    next
      case (full b')
      then have "noticed (bBuf b')" using w(3) noticed_suffix [OF hasSuffix_append] by auto
      with full w show ?thesis by (simp add: doomed_def)
    qed
  qed simp
qed

section \<open>Sections gathered in a scratch\<close>

text \<open>A scratch that will leave a trace in the report: it holds text, and was cut or is nearly full.\<close>

definition marked :: "int \<Rightarrow> builder \<Rightarrow> bool" where
  "marked k b \<longleftrightarrow> trimSpace (fst (Prefix (Some b))) \<noteq> [] \<and> (bTruncated b \<or> noticed (bBuf b) \<or> bLimit b - Len b < k)"

text \<open>
  A gather is faithful when in a fresh scratch it ends as in an unlimited one, or marks the
  scratch; \<open>skip\<close> says whether it may also write nothing for lack of room.
\<close>

definition gathers :: "bool \<Rightarrow> int \<Rightarrow> ('s report \<Rightarrow> 'e option \<times> 's report) \<Rightarrow> bool" where
  "gathers skip k g \<longleftrightarrow>
     (\<forall>w. grows (fst w) (fst (snd (g w))))
     \<and> (\<forall>w w0. tracks w w0 \<longrightarrow> bBuf (fst w) = [] \<longrightarrow> 0 < bLimit (fst w) \<longrightarrow>
          fst (g w) = fst (g w0) \<and> (fst (g w) \<noteq> None \<longrightarrow> snd (snd (g w)) = snd (snd (g w0)))
          \<and> (fst (g w) = None \<longrightarrow>
               tracks (snd (g w)) (snd (g w0)) \<or> marked k (fst (snd (g w))) \<or> skip \<and> snd (g w) = w))"

lemma gathersD:
  assumes "gathers skip k g"
  shows "grows (fst w) (fst (snd (g w)))"
    and "tracks w w0 \<Longrightarrow> bBuf (fst w) = [] \<Longrightarrow> 0 < bLimit (fst w) \<Longrightarrow>
      fst (g w) = fst (g w0) \<and> (fst (g w) \<noteq> None \<longrightarrow> snd (snd (g w)) = snd (snd (g w0)))
      \<and> (fst (g w) = None \<longrightarrow> tracks (snd (g w)) (snd (g w0)) \<or> marked k (fst (snd (g w))) \<or> skip \<and> snd (g w) = w)"
  using assms unfolding gathers_def by blast+

lemma TrySectionIn_grows:
  assumes "\<And>w. grows (fst w) (fst (snd (g w)))" "TrySectionIn header suffix g w = (written, e, w')"
  shows "grows (fst w) (fst w')"
proof -
  let ?body = "Scratch (int (length header) + int (length suffix)) (Some (fst w))"
  obtain e1 i s1 where g: "g (?body, snd w) = (e1, i, s1)" by (metis prod_cases3)
  have i: "wfBuilder i" "bTruncated i \<longrightarrow> bTruncated ?body \<or> hasSuffix (bBuf i) ResultTruncationNotice"
    using assms(1) [of "(?body, snd w)"] g by (simp_all add: grows_def)
  show ?thesis
  proof (cases "bTruncated ?body")
    case True
    then show ?thesis using assms(2) by (simp add: TrySectionIn_def Let_def Truncated_def)
  next
    case False
    from grows_commit [OF i(1), of "fst w" header suffix] i(2) False assms(2) g show ?thesis
      by (auto simp: TrySectionIn_def Let_def split: if_splits option.splits)
  qed
qed

text \<open>A scratch that was not cut is written whole.\<close>

lemma commit_whole:
  assumes "wfBuilder b" "\<not> bTruncated b" "\<not> bTruncated i"
    and "bCapped b \<longrightarrow> Len b + int (length (header @ bBuf i @ suffix)) \<le> bLimit b"
  shows "the (snd (CommitScratch header suffix (Some i) (Some b)))
    = (if trimSpace (bBuf i) = [] then b else b\<lparr>bBuf := bBuf b @ header @ bBuf i @ suffix\<rparr>)"
proof (cases "trimSpace (bBuf i) = []")
  case True
  then show ?thesis using assms(3) by (simp add: CommitScratch_eq Prefix_def Truncated_def)
next
  case False
  then have "header @ bBuf i @ suffix \<noteq> []" by (auto simp: trimSpace_def dropWhileEnd_def)
  moreover have "WriteString (header @ bBuf i @ suffix) b = (False, b\<lparr>bBuf := bBuf b @ header @ bBuf i @ suffix\<rparr>)"
    using assms by (intro WriteString_fits) auto
  ultimately show ?thesis using False assms(2,3) by (simp add: CommitScratch_eq Prefix_def Truncated_def WriteCut_def)
qed

lemma commit_cut:
  assumes "wfBuilder b" "bCapped b" "\<not> bTruncated b" "bTruncated i" "trimSpace (fst (Prefix (Some i))) \<noteq> []"
    and "Len b + int (length (header @ fst (Prefix (Some i)) @ suffix)) \<le> bLimit b"
  shows "noticed (bBuf (the (snd (CommitScratch header suffix (Some i) (Some b)))))"
proof -
  let ?t = "header @ fst (Prefix (Some i)) @ suffix"
  let ?b = "b\<lparr>bBuf := bBuf b @ ?t\<rparr>"
  have w: "WriteString ?t b = (False, ?b)" using assms by (intro WriteString_fits) auto
  have wf: "wfBuilder ?b" using WriteString_wf [OF assms(1), of ?t] w by simp
  have ne: "?t \<noteq> []" using assms(5) by (auto simp: trimSpace_def dropWhileEnd_def)
  have "noticed (bBuf (snd (WriteString ResultTruncationNotice ?b)))"
    using wf by (cases rule: WriteString_cases [where s = ResultTruncationNotice])
      (use assms(3) noticed_suffix [OF hasSuffix_append] in \<open>auto simp: append_assoc [symmetric] simp del: append_assoc\<close>)
  then show ?thesis using assms(3-5) w ne by (auto simp: CommitScratch_eq WriteCut_def Truncated_def Let_def)
qed

lemma commit_marked:
  assumes "wfBuilder b" "bCapped b" "\<not> bTruncated b" "wfBuilder i" "bCapped i"
    and "bTruncated i \<longrightarrow> hasSuffix (bBuf i) ResultTruncationNotice"
    and "bLimit i = bLimit b - Len b - (int (length header) + int (length suffix))" and "marked k i"
  shows "doomed k (the (snd (CommitScratch header suffix (Some i) (Some b))))"
proof -
  let ?b = "the (snd (CommitScratch header suffix (Some i) (Some b)))"
  have g: "wfBuilder ?b" "bCapped ?b" "bLimit ?b = bLimit b" using grows_commit [OF assms(4,6), of b header suffix] assms(1,2) by (auto simp: grows_def)
  have l: "Len b + int (length (header @ fst (Prefix (Some i)) @ suffix)) \<le> bLimit b" using Prefix_Len [OF assms(4-6)] assms(7) by simp
  show ?thesis
  proof (cases "bTruncated i")
    case True
    then show ?thesis using commit_cut [OF assms(1-3) True _ l] assms(8) g by (simp add: marked_def doomed_def)
  next
    case False
    then have p: "fst (Prefix (Some i)) = bBuf i" by (simp add: Prefix_def Truncated_def)
    then have b: "?b = b\<lparr>bBuf := bBuf b @ header @ bBuf i @ suffix\<rparr>"
      using commit_whole [OF assms(1,3) False, of header suffix] l assms(8) by (simp add: marked_def)
    consider "noticed (bBuf i)" | "bLimit i - Len i < k" using assms(8) False by (auto simp: marked_def)
    then show ?thesis
    proof cases
      case 1
      then have "noticed (bBuf ?b)" using noticed_append [of "bBuf i" "bBuf b @ header" suffix] b by simp
      then show ?thesis using g by (simp add: doomed_def)
    next
      case 2
      then have "bLimit ?b - Len ?b < k" "\<not> bTruncated ?b" using b assms(3,7) by (auto simp: Len_def)
      then show ?thesis using g by (simp add: doomed_def)
    qed
  qed
qed

lemma TrySectionIn_tracks:
  assumes "gathers skip k g" "tracks w w0" "int (length header) + int (length suffix) < k"
    and 1: "TrySectionIn header suffix g w = (written, e, w')" and 0: "TrySectionIn header suffix g w0 = (written0, e0, w0')"
  shows "tracks w' w0' \<and> written = written0 \<and> e = e0 \<or> doomed k (fst w') \<or> skip \<and> w' = w"
proof -
  let ?r = "int (length header) + int (length suffix)"
  let ?body = "Scratch ?r (Some (fst w))" and ?free = "Scratch ?r (Some (fst w0))"
  have w: "wfBuilder (fst w)" "bCapped (fst w)" "\<not> bTruncated (fst w)" "unbounded (fst w0)" "bBuf (fst w) = bBuf (fst w0)" "snd w = snd w0"
    using assms(2) by (auto simp: tracks_def)
  have b0: "?free = NewBuilderWithBudget 0" "Fits (Some (fst w0)) n" for n
    using w(4) unbounded_truncated [OF w(4)] by (simp_all add: Scratch_def Fits_def Truncated_def Remaining_def unbounded_def)
  have rem: "Remaining (Some (fst w)) = bLimit (fst w) - Len (fst w)" using Remaining_eq w by blast
  show ?thesis
  proof (cases "Fits (Some (fst w)) (int (length header)) \<and> \<not> bTruncated ?body")
    case False
    then have "bLimit (fst w) - Len (fst w) \<le> ?r"
      using w(1-3) rem by (auto simp: Fits_def Truncated_def Scratch_def Let_def split: if_splits)
    moreover have "w' = w" using False 1 by (auto simp: TrySectionIn_def Let_def Truncated_def)
    ultimately show ?thesis using w assms(3) by (simp add: doomed_def)
  next
    case True
    have room: "?body = NewBuilderWithBudget (bLimit (fst w) - Len (fst w) - ?r)" "0 < bLimit (fst w) - Len (fst w) - ?r"
      using Scratch_room [OF w(1,2), of ?r] True by simp_all
    have t: "tracks (?body, snd w) (?free, snd w0)" using room w(6) by (simp add: tracks_def b0 unbounded_def)
    obtain e1 i s1 where g: "g (?body, snd w) = (e1, i, s1)" by (metis prod_cases3)
    obtain e2 i0 s2 where g0: "g (?free, snd w0) = (e2, i0, s2)" by (metis prod_cases3)
    from gathersD(2) [OF assms(1) t] room(2) g g0
    have h: "e1 = e2" "e1 \<noteq> None \<longrightarrow> s1 = s2" "e1 = None \<longrightarrow> tracks (i, s1) (i0, s2) \<or> marked k i \<or> skip \<and> i = ?body \<and> s1 = snd w"
      by (auto simp: room(1))
    have i: "wfBuilder i" "bCapped i" "bLimit i = bLimit (fst w) - Len (fst w) - ?r"
      "bTruncated i \<longrightarrow> hasSuffix (bBuf i) ResultTruncationNotice"
      using gathersD(1) [OF assms(1), of "(?body, snd w)"] g room True by (auto simp: grows_def)
    let ?c = "the (snd (CommitScratch header suffix (Some i) (Some (fst w))))" and ?d = "the (snd (CommitScratch header suffix (Some i0) (Some (fst w0))))"
    have r: "(written, e, w') = (case e1 of Some e \<Rightarrow> (False, Some e, fst w, s1) | None \<Rightarrow> (Len ?c > Len (fst w), None, ?c, s1))"
      using 1 True g by (auto simp: TrySectionIn_def Let_def Truncated_def split: option.splits)
    have r0: "(written0, e0, w0') = (case e2 of Some e \<Rightarrow> (False, Some e, fst w0, s2) | None \<Rightarrow> (Len ?d > Len (fst w0), None, ?d, s2))"
      using 0 b0 g0 by (auto simp: TrySectionIn_def Let_def Truncated_def split: option.splits)
    show ?thesis
    proof (cases e1)
      case (Some x)
      then show ?thesis using r r0 h w by (auto simp: tracks_def)
    next
      case None
      with h consider (same) "tracks (i, s1) (i0, s2)" | (mark) "marked k i" | (skip) "skip" "i = ?body" "s1 = snd w" by blast
      then show ?thesis
      proof cases
        case same
        then have s: "\<not> bTruncated i" "\<not> bTruncated i0" "bBuf i = bBuf i0" "s1 = s2" by (auto simp: tracks_def dest: unbounded_truncated)
        have "int (length (bBuf i)) \<le> bLimit i" using i(1,2) s(1) by (simp add: wfBuilder_def Len_def)
        then have f: "Len (fst w) + int (length (header @ bBuf i @ suffix)) \<le> bLimit (fst w)" using i(3) by simp
        have c: "?c = (if trimSpace (bBuf i) = [] then fst w else (fst w)\<lparr>bBuf := bBuf (fst w) @ header @ bBuf i @ suffix\<rparr>)"
          using commit_whole [OF w(1,3) s(1)] f by blast
        have wf0: "wfBuilder (fst w0)" "\<not> bCapped (fst w0)" using w(4) by (simp_all add: unbounded_def)
        have c0: "?d = (if trimSpace (bBuf i0) = [] then fst w0 else (fst w0)\<lparr>bBuf := bBuf (fst w0) @ header @ bBuf i0 @ suffix\<rparr>)"
          using commit_whole [OF wf0(1) unbounded_truncated [OF w(4)] s(2)] wf0(2) by blast
        have "wfBuilder ?c" using grows_commit [OF i(1,4), of "fst w" header suffix] w(1) by (simp add: grows_def)
        moreover have "unbounded ?d"
          using unbounded_grows [OF w(4) grows_commit [of i0]] same s(2) by (simp add: tracks_def unbounded_def)
        ultimately have "tracks (?c, s1) (?d, s2)" using w s c c0 by (auto simp: tracks_def split: if_splits)
        moreover have "Len ?c = Len ?d" "Len (fst w) = Len (fst w0)" using w s c c0 by (auto simp: Len_def)
        ultimately show ?thesis using r r0 None h(1) by auto
      next
        case mark
        then show ?thesis using commit_marked [OF w(1-3) i(1,2,4,3)] r None by simp
      next
        case skip
        then have "?c = fst w" by (simp add: CommitScratch_eq Prefix_def Truncated_def room trimSpace_def dropWhileEnd_def)
        then show ?thesis using r None skip(1,3) by simp
      qed
    qed
  qed
qed

lemma faithful_TrySection:
  assumes "gathers False k g" "int (length header) + int (length suffix) < k"
  shows "faithful k (\<lambda>w. snd (snd (TrySectionIn header suffix g w)))"
  unfolding faithful_def
proof (intro conjI allI impI)
  fix w w0 :: "'a report"
  obtain wr e w' where 1: "TrySectionIn header suffix g w = (wr, e, w')" by (metis prod_cases3)
  obtain wr0 e0 w0' where 0: "TrySectionIn header suffix g w0 = (wr0, e0, w0')" by (metis prod_cases3)
  show "grows (fst w) (fst (snd (snd (TrySectionIn header suffix g w))))"
    using TrySectionIn_grows [OF gathersD(1) [OF assms(1)] 1] 1 by simp
  show "tracks (snd (snd (TrySectionIn header suffix g w))) (snd (snd (TrySectionIn header suffix g w0)))
      \<or> doomed k (fst (snd (snd (TrySectionIn header suffix g w))))" if "tracks w w0"
    using TrySectionIn_tracks [OF assms(1) that assms(2) 1 0] 1 0 by auto
qed

lemma SectionsIn_append: "SectionsIn (fs @ gs) w = SectionsIn gs (SectionsIn fs w)"
proof (induction fs arbitrary: w)
  case (Cons f fs)
  have "Truncated (the b)" if "spent (Some (fst w)) = (True, b)" for b
    using that by (auto simp: spent_def Truncated_def Remaining_def WriteString_def Let_def split: if_splits)
  moreover have "SectionsIn gs (b, s) = (b, s)" if "Truncated b" for b and s :: 'a
    using that by (cases gs) (simp_all add: spent_def)
  ultimately show ?case using Cons.IH by (auto split: prod.splits bool.splits)
qed simp

lemma SectionsIn_unbounded: "unbounded (fst w) \<Longrightarrow> SectionsIn (f # fs) w = SectionsIn fs (f w)"
  using unbounded_truncated [of "fst w"] by (simp add: spent_def Truncated_def Remaining_def unbounded_def)

lemma SectionsIn_one:
  assumes "tracks w w0"
  shows "SectionsIn [f] w = f w \<or> noticed (bBuf (fst (SectionsIn [f] w)))"
proof -
  have w: "wfBuilder (fst w)" "\<not> bTruncated (fst w)" using assms by (simp_all add: tracks_def)
  from w(1) show ?thesis
    by (cases rule: spent_cases) (use w(2) noticed_suffix [OF hasSuffix_append] in auto)
qed

text \<open>A closing text that does not fit leaves the notice.\<close>

lemma closing_noticed:
  assumes "doomed (int (length t)) (fst w)"
  shows "noticed (bBuf (fst (SectionsIn [put t] w)))"
proof -
  have w: "wfBuilder (fst w)" "bCapped (fst w)" using assms by (simp_all add: doomed_def)
  show ?thesis
  proof (cases "noticed (bBuf (fst w))")
    case True
    have "grows (fst w) (fst (SectionsIn [put t] w))" by (rule grows_SectionsIn) auto
    then obtain u where "bBuf (fst (SectionsIn [put t] w)) = bBuf (fst w) @ u" using w(1) unfolding grows_def by blast
    then show ?thesis using noticed_left [OF True] by simp
  next
    case False
    then have r: "\<not> bTruncated (fst w)" "bLimit (fst w) - Len (fst w) < int (length t)" using assms by (auto simp: doomed_def)
    then have "tracks w (\<lparr>bBuf = bBuf (fst w), bLimit = 0, bCapped = False, bTruncated = False\<rparr>, snd w)"
      using w by (simp add: tracks_def unbounded_def wfBuilder_def)
    from SectionsIn_one [OF this, of "put t"] write_tracks(3) [OF this r(2)] show ?thesis by auto
  qed
qed

lemma closing_tracks:
  assumes "tracks w w0"
  shows "tracks (SectionsIn [put t] w) (SectionsIn [put t] w0) \<or> noticed (bBuf (fst (SectionsIn [put t] w)))"
proof -
  have "faithful 0 (SectionsIn [put t])" by (rule faithful_SectionsIn) simp
  from faithfulD(2) [OF this assms] show ?thesis by (auto simp: doomed_def wfBuilder_def)
qed

end
