(* ===== verification/Tekton_Tools.thy ===== *)
theory Tekton_Tools
  imports Tekton_Evidence Report_Steps
begin

text \<open>
  The other tools and the prompt of \<open>pkg/toolsets/tekton\<close>: starting Pipelines and Tasks, restarting
  and cancelling runs, their logs under the result budget, and the troubleshooting guide. Every
  handler takes the requests sent so far and returns its answer with the requests after it.
\<close>

section \<open>Arguments\<close>

datatype paramParseErr = ElementNotString string nat | ValueNotString string string | UnsupportedParam string

fun stringElements :: "string \<Rightarrow> nat \<Rightarrow> goVal list \<Rightarrow> paramParseErr + string list" where
  "stringElements name i [] = Inr []"
| "stringElements name i (v # vs) =
     (case v of GStr s \<Rightarrow> map_sum id (\<lambda>ss. s # ss) (stringElements name (Suc i) vs) | _ \<Rightarrow> Inl (ElementNotString name i))"

fun stringValues :: "string \<Rightarrow> (string \<times> goVal) list \<Rightarrow> paramParseErr + (string \<times> string) list" where
  "stringValues name [] = Inr []"
| "stringValues name ((k, v) # kvs) =
     (case v of GStr s \<Rightarrow> map_sum id (\<lambda>ss. (k, s) # ss) (stringValues name kvs) | _ \<Rightarrow> Inl (ValueNotString name k))"

definition toParamValue :: "string \<Rightarrow> goVal \<Rightarrow> paramParseErr + paramValue" where
  "toParamValue name v =
     (case v of
        GStr s \<Rightarrow> Inr (PString s)
      | GList vs \<Rightarrow> map_sum id PArray (stringElements name 0 vs)
      | GMap kvs \<Rightarrow> map_sum id PObject (stringValues name kvs)
      | _ \<Rightarrow> Inl (UnsupportedParam name))"

fun parseParams :: "(string \<times> goVal) list \<Rightarrow> paramParseErr + (string \<times> paramValue) list" where
  "parseParams [] = Inr []"
| "parseParams ((k, v) # raw) =
     (case toParamValue k v of
        Inl err \<Rightarrow> Inl err
      | Inr pv \<Rightarrow> map_sum id (\<lambda>ps. (k, pv) # ps) (parseParams raw))"

datatype tektonErr =
    BadArgument paramErr
  | GetFailed string string string
  | ConvertFailed string
  | CreateFailed string string string
  | CancelFailed string string string
  | ListFailed string string string
  | ParamsFailed paramParseErr
  | InvalidAction string

text \<open>The two arguments every handler reads first.\<close>

definition nameAndNamespace :: "tektonEnv \<Rightarrow> params \<Rightarrow> string \<times> string \<times> params" where
  "nameAndNamespace env p =
     (case pRequiredString ''name'' p of
        (name, p) \<Rightarrow> (case pOptionalString ''namespace'' (teNamespace env) p of (ns, p) \<Rightarrow> (name, ns, p)))"

section \<open>Starting and restarting\<close>

definition quoted :: "string \<Rightarrow> string" where "quoted s = CHR 0x27 # s @ [CHR 0x27]"

definition createRun ::
    "tektonEnv \<Rightarrow> groupVersionResource \<Rightarrow> string \<Rightarrow> string \<Rightarrow> newRun \<Rightarrow> (string \<Rightarrow> string) \<Rightarrow> (tektonErr + string) asking" where
  "createRun env gvr ns name run report l =
     (case teUnstructured env run of
        Inl err \<Rightarrow> (Inl (ConvertFailed err), l)
      | Inr obj \<Rightarrow>
          (case askCreate env gvr ns obj l of
             (Inl err, l) \<Rightarrow> (Inl (CreateFailed ns name err), l)
           | (Inr created, l) \<Rightarrow> (Inr (report (teNameOf env created)), l)))"

text \<open>\<open>startPipeline\<close> and \<open>startTask\<close> differ in the two resources and their kinds.\<close>

definition startRun ::
    "tektonEnv \<Rightarrow> groupVersionResource \<Rightarrow> string \<Rightarrow> groupVersionResource \<Rightarrow> string \<Rightarrow> arguments \<Rightarrow> (tektonErr + string) asking" where
  "startRun env defGVR defKind runGVR kind args l =
     (case nameAndNamespace env (WrapParams args) of
        (name, ns, p) \<Rightarrow>
          (case pErr p of
             Some err \<Rightarrow> (Inl (BadArgument err), l)
           | None \<Rightarrow>
               (case askGet env defGVR ns name l of
                  (Inl err, l) \<Rightarrow> (Inl (GetFailed ns name err), l)
                | (Inr _, l) \<Rightarrow>
                    (case (case args ''params'' of Some (GMap raw) \<Rightarrow> parseParams raw | _ \<Rightarrow> Inr []) of
                       Inl err \<Rightarrow> (Inl (ParamsFailed err), l)
                     | Inr ps \<Rightarrow>
                         createRun env runGVR ns name
                           \<lparr>nrKind = kind, nrNamespace = ns, nrGenerateName = name @ ''-'',
                            nrSpec = \<lparr>rsRef = Some name, rsParams = ps, rsStatus = [], rsRest = []\<rparr>\<rparr>
                           (\<lambda>created. defKind @ '' '' @ quoted name @ '' started as '' @ kind @ '' '' @ quoted created @ '' in namespace '' @ quoted ns) l))))"

definition startPipeline :: "tektonEnv \<Rightarrow> arguments \<Rightarrow> (tektonErr + string) asking" where
  "startPipeline env = startRun env pipelineGVR ''Pipeline'' pipelineRunGVR ''PipelineRun''"

definition startTask :: "tektonEnv \<Rightarrow> arguments \<Rightarrow> (tektonErr + string) asking" where
  "startTask env = startRun env taskGVR ''Task'' taskRunGVR ''TaskRun''"

text \<open>A restart copies the spec, clears its status, and keeps the prefix that names were generated from.\<close>

definition restartedRun :: "string \<Rightarrow> string \<Rightarrow> string \<Rightarrow> string \<Rightarrow> runSpec \<Rightarrow> newRun" where
  "restartedRun kind ns name generateName spec =
     \<lparr>nrKind = kind, nrNamespace = ns, nrGenerateName = (if generateName \<noteq> [] then generateName else name @ ''-''),
      nrSpec = spec\<lparr>rsStatus := []\<rparr>\<rparr>"

definition restartedText :: "string \<Rightarrow> string \<Rightarrow> string \<Rightarrow> string \<Rightarrow> string" where
  "restartedText kind name ns created =
     kind @ '' '' @ quoted name @ '' restarted as '' @ quoted created @ '' in namespace '' @ quoted ns"

definition restartTaskRun :: "tektonEnv \<Rightarrow> arguments \<Rightarrow> (tektonErr + string) asking" where
  "restartTaskRun env args l =
     (case nameAndNamespace env (WrapParams args) of
        (name, ns, p) \<Rightarrow>
          (case pErr p of
             Some err \<Rightarrow> (Inl (BadArgument err), l)
           | None \<Rightarrow>
               (case askGet env taskRunGVR ns name l of
                  (Inl err, l) \<Rightarrow> (Inl (GetFailed ns name err), l)
                | (Inr obj, l) \<Rightarrow>
                    (case teTaskRunOf env obj of
                       Inl err \<Rightarrow> (Inl (ConvertFailed err), l)
                     | Inr existing \<Rightarrow>
                         createRun env taskRunGVR ns name
                           (restartedRun ''TaskRun'' ns name (tkGenerateName existing) (tkSpec existing))
                           (restartedText ''TaskRun'' name ns) l))))"

definition restartPipelineRun :: "tektonEnv \<Rightarrow> string \<Rightarrow> string \<Rightarrow> (tektonErr + string) asking" where
  "restartPipelineRun env ns name l =
     (case askGet env pipelineRunGVR ns name l of
        (Inl err, l) \<Rightarrow> (Inl (GetFailed ns name err), l)
      | (Inr obj, l) \<Rightarrow>
          (case tePipelineRunOf env obj of
             Inl err \<Rightarrow> (Inl (ConvertFailed err), l)
           | Inr existing \<Rightarrow>
               createRun env pipelineRunGVR ns name
                 (restartedRun ''PipelineRun'' ns name (prGenerateName existing) (prSpec existing))
                 (restartedText ''PipelineRun'' name ns) l))"

definition cancelPatch :: "tektonEnv \<Rightarrow> string" where
  "cancelPatch env = CHR ''{'' # jsonString ''spec'' @ '':{'' @ jsonString ''status'' @ '':'' @ teQuote env (teCancelled env) @ ''}}''"

definition pipelineRunLifecycle :: "tektonEnv \<Rightarrow> arguments \<Rightarrow> (tektonErr + string) asking" where
  "pipelineRunLifecycle env args l =
     (case nameAndNamespace env (WrapParams args) of
        (name, ns, p) \<Rightarrow>
          (case pRequiredString ''action'' p of
             (action, p) \<Rightarrow>
               (case pErr p of
                  Some err \<Rightarrow> (Inl (BadArgument err), l)
                | None \<Rightarrow>
                    if action = ''restart'' then restartPipelineRun env ns name l
                    else if action = ''cancel'' then
                      (case askPatch env pipelineRunGVR ns name (cancelPatch env) l of
                         (Inl err, l) \<Rightarrow> (Inl (CancelFailed ns name err), l)
                       | (Inr _, l) \<Rightarrow> (Inr (''PipelineRun '' @ quoted name @ '' cancelled in namespace '' @ quoted ns), l))
                    else (Inl (InvalidAction action), l))))"

section \<open>Logs under the result budget\<close>

text \<open>The builder that a collector writes to, and the requests it has sent.\<close>

type_synonym writing = "tektonOp list report"

definition writeText :: "string \<Rightarrow> writing \<Rightarrow> writing" where
  "writeText t w = (snd (WriteString t (fst w)), snd w)"

definition collectContainerLogs ::
    "tektonEnv \<Rightarrow> string \<Rightarrow> string \<Rightarrow> string \<Rightarrow> string \<Rightarrow> string \<Rightarrow> int \<Rightarrow> writing \<Rightarrow> writing" where
  "collectContainerLogs env pod ns kind name container tail w =
     (let label = CHR ''['' # kind @ '': '' @ name @ '']''
      in (case askLogs env ns pod container tail (snd w) of
            (Inl err, l) \<Rightarrow> writeText (label @ '' error retrieving logs: '' @ err @ [nl]) (fst w, l)
          | (Inr stream, l) \<Rightarrow>
              let rem = Remaining (Some (fst w))
              in (case (if rem > 0 then readAllLimited (nat rem) stream else readAllStream stream) of
                    Inl err \<Rightarrow> writeText (label @ '' error reading logs: '' @ teIoText env err @ [nl]) (fst w, l)
                  | Inr logBytes \<Rightarrow>
                      if logBytes \<noteq> [] then writeText (label @ [nl] @ logBytes @ [nl]) (fst w, l) else (fst w, l))))"

definition collectTaskRunLogs :: "tektonEnv \<Rightarrow> string \<Rightarrow> taskRun \<Rightarrow> string \<Rightarrow> int \<Rightarrow> writing \<Rightarrow> writing" where
  "collectTaskRunLogs env ns tr stepName tail w =
     (if stepName \<noteq> [] \<and> \<not> list_ex (\<lambda>st. ssName st = stepName) (tkSteps tr) then w
      else if tkPodName tr = [] then
        writeText (''TaskRun '' @ quoted (tkName tr) @ '' in namespace '' @ quoted ns @ '' has not started a pod yet'' @ [nl]) w
      else
        SectionsIn
          (map (\<lambda>st. collectContainerLogs env (tkPodName tr) ns ''step'' (ssName st) (ssContainer st) tail)
             (filter (\<lambda>st. stepName = [] \<or> ssName st = stepName) (tkSteps tr))
           @ (if stepName = [] then
                map (\<lambda>(name, container). collectContainerLogs env (tkPodName tr) ns ''sidecar'' name container tail) (tkSidecars tr)
              else [])) w)"

definition appendTaskBlock :: "string \<Rightarrow> string \<Rightarrow> (writing \<Rightarrow> writing) \<Rightarrow> writing \<Rightarrow> bool \<times> writing" where
  "appendTaskBlock header suffix collect w =
     (if Truncated (fst w) then (False, w)
      else
        let inner = Scratch (int (length header) + int (length suffix) + 1) (Some (fst w))
        in if Truncated inner then (False, w)
           else (case collect (inner, snd w) of
               (inner, l) \<Rightarrow>
                 (case Prefix (Some inner) of
                    (body, wasCut) \<Rightarrow>
                      if trimSpace body = [] then (\<not> wasCut, fst w, l)
                      else
                        let block = header @ body;
                            block = (if hasSuffix block [nl] then block else block @ [nl])
                        in (case WriteCut (block @ suffix) wasCut (Some (fst w)) of
                              (ok, b) \<Rightarrow> (ok, the b, l)))))"

definition defaultTailLines :: int where "defaultTailLines = 100"

definition getTaskRunLogs :: "tektonEnv \<Rightarrow> budgetCtx \<Rightarrow> arguments \<Rightarrow> (tektonErr + string) asking" where
  "getTaskRunLogs env ctx args l =
     (case nameAndNamespace env (WrapParams args) of
        (name, ns, p) \<Rightarrow>
          (case pOptionalString ''step'' [] p of
             (stepName, p) \<Rightarrow>
               (case pOptionalInt64 (teOob env) ''tail'' defaultTailLines p of
                  (tail, p) \<Rightarrow>
                    (case pErr p of
                       Some err \<Rightarrow> (Inl (BadArgument err), l)
                     | None \<Rightarrow>
                         (case askGet env taskRunGVR ns name l of
                            (Inl err, l) \<Rightarrow> (Inl (GetFailed ns name err), l)
                          | (Inr obj, l) \<Rightarrow>
                              (case teTaskRunOf env obj of
                                 Inl err \<Rightarrow> (Inl (ConvertFailed err), l)
                               | Inr tr \<Rightarrow>
                                   (case collectTaskRunLogs env ns tr stepName tail (NewBuilderWithBudget (ResultLimit ctx), l) of
                                      (b, l) \<Rightarrow>
                                        (Inr (bBuf (if Len b = 0 then
                                           snd (WriteString (''No logs available for TaskRun '' @ quoted name @ '' in namespace '' @ quoted ns) b)
                                         else b)), l))))))))"

fun taskBlocks :: "(taskRun \<Rightarrow> string) \<Rightarrow> string \<Rightarrow> (taskRun \<Rightarrow> writing \<Rightarrow> writing) \<Rightarrow> taskRun list \<Rightarrow> writing \<Rightarrow> bool \<times> writing" where
  "taskBlocks header suffix collect [] w = (False, w)"
| "taskBlocks header suffix collect (tr # trs) w =
     (case appendTaskBlock (header tr) suffix (collect tr) w of
        (False, w) \<Rightarrow> (True, w)
      | (True, w) \<Rightarrow> taskBlocks header suffix collect trs w)"

definition getPipelineRunLogs :: "tektonEnv \<Rightarrow> budgetCtx \<Rightarrow> arguments \<Rightarrow> (tektonErr + string) asking" where
  "getPipelineRunLogs env ctx args l =
     (case nameAndNamespace env (WrapParams args) of
        (name, ns, p) \<Rightarrow>
          (case pOptionalString ''task'' [] p of
             (task, p) \<Rightarrow>
               (case pOptionalString ''step'' [] p of
                  (stepName, p) \<Rightarrow>
                    (case pOptionalInt64 (teOob env) ''tail'' defaultTailLines p of
                       (tail, p) \<Rightarrow>
                         (case pErr p of
                            Some err \<Rightarrow> (Inl (BadArgument err), l)
                          | None \<Rightarrow>
                              (case askGet env pipelineRunGVR ns name l of
                                 (Inl err, l) \<Rightarrow> (Inl (GetFailed ns name err), l)
                               | (Inr _, l) \<Rightarrow>
                                   (case pipelineRunTaskRuns env ns name task 0 [] l of
                                      (Inl err, l) \<Rightarrow> (Inl (ListFailed ns name err), l)
                                    | (Inr (trs, _), l) \<Rightarrow>
                                        if trs = [] then
                                          (Inr (LimitString ctx (''No TaskRuns found for PipelineRun '' @ quoted name @ '' in namespace '' @ quoted ns
                                             @ (if task \<noteq> [] then '' matching pipeline task '' @ quoted task else []))), l)
                                        else
                                          (case taskBlocks (\<lambda>tr. ''# TaskRun: '' @ tkName tr @ [nl]) []
                                                  (\<lambda>tr. collectTaskRunLogs env ns tr stepName tail) trs
                                                  (NewBuilderWithBudget (ResultLimit ctx), l) of
                                             (_, b, l) \<Rightarrow>
                                               (Inr (bBuf (if Len b = 0 then
                                                  snd (WriteString (''No logs available for PipelineRun '' @ quoted name @ '' in namespace '' @ quoted ns) b)
                                                else b)), l)))))))))"

section \<open>The troubleshooting guide\<close>

definition fenced :: "string \<Rightarrow> string" where
  "fenced yaml = ''```yaml'' @ [nl] @ yaml @ ''```''"

definition starred :: "string \<Rightarrow> string" where
  "starred t = CHR ''*'' # t @ ''*''"

definition sectionText :: "string \<Rightarrow> string" where
  "sectionText title = [nl, nl] @ ''---'' @ [nl, nl] @ ''## '' @ title @ [nl, nl]"

definition yamlBlock :: "tektonEnv \<Rightarrow> string \<Rightarrow> kubeObj \<Rightarrow> string" where
  "yamlBlock env title obj =
     (case teYamlMap env obj of Inl err \<Rightarrow> starred (''Error formatting '' @ title @ '': '' @ err) | Inr yaml \<Rightarrow> fenced yaml)"

definition pipelineSpecBlock :: "tektonEnv \<Rightarrow> string \<Rightarrow> kubeObj \<Rightarrow> string" where
  "pipelineSpecBlock env source spec =
     (case teYamlMap env spec of
        Inl err \<Rightarrow> starred (''Error formatting '' @ toLower source @ '' PipelineSpec: '' @ err)
      | Inr yaml \<Rightarrow> ''**'' @ source @ '' PipelineSpec**'' @ [nl, nl] @ fenced yaml)"

definition pipelineRunStatusHint :: "tektonEnv \<Rightarrow> kubeObj option \<Rightarrow> string" where
  "pipelineRunStatusHint env pr =
     (case pr of None \<Rightarrow> ''unknown''
      | Some obj \<Rightarrow>
          (case teNestedSlice env obj [''status'', ''conditions''] of
             None \<Rightarrow> ''unknown''
           | Some [] \<Rightarrow> ''unknown''
           | Some cs \<Rightarrow>
               (case last cs of
                  GMap c \<Rightarrow> (case map_of c ''reason'' of Some (GStr reason) \<Rightarrow> reason | _ \<Rightarrow> ''unknown'')
                | _ \<Rightarrow> ''unknown'')))"

definition fetchPipelineRunForPrompt :: "tektonEnv \<Rightarrow> string \<Rightarrow> string \<Rightarrow> (kubeObj option \<times> string) asking" where
  "fetchPipelineRunForPrompt env ns name l =
     (case askGet env pipelineRunGVR ns name l of
        (Inl err, l) \<Rightarrow> ((None, starred (''Error fetching PipelineRun: '' @ err)), l)
      | (Inr obj, l) \<Rightarrow> ((Some obj, yamlBlock env ''PipelineRun'' obj), l))"

definition unavailable :: "string \<Rightarrow> string" where
  "unavailable why = starred (''Pipeline definition unavailable'' @ why)"

definition fetchPipelineDefinitionForPrompt :: "tektonEnv \<Rightarrow> string \<Rightarrow> kubeObj option \<Rightarrow> string asking" where
  "fetchPipelineDefinitionForPrompt env ns pr l =
     (case pr of None \<Rightarrow> (unavailable '' because the PipelineRun could not be fetched'', l)
      | Some obj \<Rightarrow>
          (case teNestedMap env obj [''spec'', ''pipelineSpec''] of
             Inl err \<Rightarrow> (unavailable ('': invalid embedded PipelineSpec: '' @ err), l)
           | Inr (Some spec) \<Rightarrow> (pipelineSpecBlock env ''Embedded'' spec, l)
           | Inr None \<Rightarrow>
               (case teNestedMap env obj [''status'', ''pipelineSpec''] of
                  Inl err \<Rightarrow> (unavailable ('': invalid resolved PipelineSpec: '' @ err), l)
                | Inr (Some spec) \<Rightarrow> (pipelineSpecBlock env ''Resolved'' spec, l)
                | Inr None \<Rightarrow>
                    (case teNestedString env obj [''spec'', ''pipelineRef'', ''name''] of
                       Inl err \<Rightarrow> (unavailable ('': invalid Pipeline reference: '' @ err), l)
                     | Inr ref \<Rightarrow>
                         if ref = None \<or> ref = Some [] then
                           (unavailable '' because the PipelineRun has no named Pipeline reference or embedded PipelineSpec'', l)
                         else
                           (case askGet env pipelineGVR ns (the ref) l of
                              (Inl err, l) \<Rightarrow> (unavailable ('': failed to fetch Pipeline '' @ teQuote env (the ref) @ '': '' @ err), l)
                            | (Inr p, l) \<Rightarrow> (yamlBlock env ''Pipeline'' p, l))))))"

definition taskRunStatusStep :: "tektonEnv \<Rightarrow> taskRun \<Rightarrow> writing \<Rightarrow> writing" where
  "taskRunStatusStep env tr w =
     (let w = writeText (''### TaskRun: '' @ tkName tr @ [nl, nl]) w
      in (case teYamlStatus env tr of
            Inl _ \<Rightarrow> w
          | Inr status \<Rightarrow> SectionsIn [writeText (fenced status @ [nl, nl])] w))"

definition fetchPipelineRunTaskRunsForPrompt :: "tektonEnv \<Rightarrow> string \<Rightarrow> string \<Rightarrow> writing \<Rightarrow> taskRun list \<times> writing" where
  "fetchPipelineRunTaskRunsForPrompt env ns name w =
     (case pipelineRunTaskRuns env ns name [] 0 [] (snd w) of
        (Inl err, l) \<Rightarrow> ([], writeText (starred (''Error listing TaskRuns: '' @ err)) (fst w, l))
      | (Inr (trs, _), l) \<Rightarrow>
          if trs = [] then ([], writeText (starred ''No TaskRuns found for this PipelineRun'') (fst w, l))
          else (trs, SectionsIn (map (taskRunStatusStep env) trs) (fst w, l)))"

definition failedStepLogs :: "tektonEnv \<Rightarrow> string \<Rightarrow> taskRun \<Rightarrow> writing \<Rightarrow> writing" where
  "failedStepLogs env ns tr w =
     fold (\<lambda>st w. if ssName st = [] \<or> \<not> failedOrErroredStep st then w
                  else collectTaskRunLogs env ns tr (ssName st) defaultTailLines w) (tkSteps tr) w"

definition fetchPipelineRunLogsForPrompt :: "tektonEnv \<Rightarrow> string \<Rightarrow> taskRun list \<Rightarrow> writing \<Rightarrow> writing" where
  "fetchPipelineRunLogsForPrompt env ns trs w =
     (if Truncated (fst w) then w
      else if trs = [] then writeText (starred ''No TaskRuns found, so no failed or errored step logs are available'') w
      else
        (case taskBlocks (\<lambda>tr. ''### TaskRun: '' @ tkName tr @ [nl, nl]) [nl] (failedStepLogs env ns) trs w of
           (stopped, w) \<Rightarrow>
             let w = (if Len (fst w) = 0 \<and> \<not> stopped
                      then writeText (starred ''No failed or errored step logs available for this PipelineRun'') w else w)
             in if stopped \<and> \<not> Truncated (fst w) then writeText ResultTruncationNotice w else w))"

fun writeEvents :: "tektonEnv \<Rightarrow> coreEvent list \<Rightarrow> string list \<Rightarrow> bool \<Rightarrow> builder \<Rightarrow> string list \<times> bool \<times> builder" where
  "writeEvents env [] seen wrote b = (seen, wrote, b)"
| "writeEvents env (e # es) seen wrote b =
     (if Truncated b then (seen, wrote, b)
      else if evType e \<noteq> ''Warning'' \<or> eventKey e \<in> set seen then writeEvents env es seen wrote b
      else
        let seen = eventKey e # seen
        in (case teYamlEvent env e of
              Inl _ \<Rightarrow> writeEvents env es seen wrote b
            | Inr yaml \<Rightarrow>
                let b = (if wrote then b else snd (WriteString (''```yaml'' @ [nl]) b))
                in if \<not> wrote \<and> Truncated b then (seen, True, b)
                   else writeEvents env es seen True (snd (WriteString [nl] (snd (WriteString yaml b))))))"

fun writeTargetEvents :: "tektonEnv \<Rightarrow> string \<Rightarrow> eventTarget list \<Rightarrow> string list \<Rightarrow> bool \<Rightarrow> writing \<Rightarrow> bool \<times> writing" where
  "writeTargetEvents env ns [] seen wrote w = (wrote, w)"
| "writeTargetEvents env ns (t # ts) seen wrote w =
     (if Truncated (fst w) then (wrote, w)
      else (case askEvents env ns (fieldSelector env t) 0 (snd w) of
          (Inl _, l) \<Rightarrow> writeTargetEvents env ns ts seen wrote (fst w, l)
        | (Inr (items, _), l) \<Rightarrow>
            (case writeEvents env items seen wrote (fst w) of
               (seen, wrote, b) \<Rightarrow> writeTargetEvents env ns ts seen wrote (b, l))))"

definition fetchPipelineRunEventsForPrompt ::
    "tektonEnv \<Rightarrow> string \<Rightarrow> string \<Rightarrow> string option \<Rightarrow> taskRun list \<Rightarrow> writing \<Rightarrow> writing" where
  "fetchPipelineRunEventsForPrompt env ns name owner trs w =
     (if Truncated (fst w) then w
      else (case writeTargetEvents env ns (pipelineRunEventTargets env name owner trs) [] False w of
          (wrote, w) \<Rightarrow> writeText (if \<not> wrote then starred ''No related warning events found'' else ''```'') w))"

text \<open>The two lists that are written as one YAML document.\<close>

definition writeListed :: "tektonEnv \<Rightarrow> groupVersionResource \<Rightarrow> string \<Rightarrow> string \<Rightarrow> string \<Rightarrow> writing \<Rightarrow> writing" where
  "writeListed env gvr ns what none w =
     (case askList env gvr ns [] 0 [] (snd w) of
        (Inl err, l) \<Rightarrow> writeText (starred (what @ '' resources unavailable: '' @ err)) (fst w, l)
      | (Inr (items, _), l) \<Rightarrow>
          if items = [] then writeText (starred none) (fst w, l)
          else (case teYamlList env items of
              Inl err \<Rightarrow> writeText (starred (''Error formatting '' @ what @ '' resources: '' @ err)) (fst w, l)
            | Inr yaml \<Rightarrow> writeText (fenced yaml) (fst w, l)))"

definition writePipelineRunPACRepositoriesForPrompt :: "tektonEnv \<Rightarrow> string \<Rightarrow> writing \<Rightarrow> writing" where
  "writePipelineRunPACRepositoriesForPrompt env ns =
     writeListed env pacRepositoryGVR ns ''Pipeline-as-Code Repository''
       ''No Pipeline-as-Code Repository resources found in this namespace''"

definition writeTektonConfigsForPrompt :: "tektonEnv \<Rightarrow> writing \<Rightarrow> writing" where
  "writeTektonConfigsForPrompt env = writeListed env tektonConfigGVR [] ''TektonConfig'' ''No TektonConfig resources found''"

definition inLines :: "string list \<Rightarrow> string" where
  "inLines ls = goJoin [nl] ls"

definition guideOpening :: "string \<Rightarrow> string \<Rightarrow> string \<Rightarrow> string \<Rightarrow> string" where
  "guideOpening ns name now hint =
     inLines [''# Tekton PipelineRun Troubleshooting Guide'', [], ''## PipelineRun: '' @ ns @ ''/'' @ name, [],
       ''**Collected:** '' @ now, ''**Current status hint:** '' @ hint, [],
       ''Analyze the collected data and use these exact section headings in the response:'',
       ''1. PipelineRun Status - overall status, conditions, and timing'',
       ''2. TaskRun Status - per-task pass, failure, or blocked state'',
       ''3. Failed Step Logs - errors from failed or errored steps'',
       ''4. Events - related warnings and errors'',
       ''5. Troubleshooting Analysis - diagnosis based on the Pipeline definition and collected context'',
       ''6. Fix Suggestions - concrete next actions for the identified failure pattern'', [], ''---'', [],
       ''## PipelineRun Status'', [], []]"

definition guideClosing :: string where
  "guideClosing =
     inLines [[], [], ''---'', [], ''## Troubleshooting Analysis'', [], ''Use the collected data to identify:'',
       ''1. The first failed or blocked PipelineTask'', ''2. The failed step and its relevant log error'',
       ''3. Pipeline definition, parameter, workspace, dependency, or scheduling problems'',
       ''4. Warning events that confirm the failure path'',
       ''5. Pipeline-as-Code or TektonConfig settings that contributed to the failure'', [], ''---'', [], ''## Fix Suggestions'', [],
       ''Recommend only fixes supported by the collected evidence. Common actions include correcting missing Pipeline or Task references, invalid parameters or workspaces, image pull failures, insufficient permissions or resources, and timeout or cancellation settings.'', []]"

text \<open>
  The sections share the PipelineRun and the TaskRuns that earlier ones found: a section is
  given them and returns them with what it wrote. A section that was not started leaves them nil.
\<close>

record guideState =
  gsRun :: "kubeObj option"
  gsRunText :: string
  gsTaskRuns :: "taskRun list"
  gsWriting :: writing

definition onWriting :: "(writing \<Rightarrow> writing) \<Rightarrow> guideState \<Rightarrow> guideState" where
  "onWriting f g = g\<lparr>gsWriting := f (gsWriting g)\<rparr>"

fun guideSections :: "(guideState \<Rightarrow> guideState) list \<Rightarrow> guideState \<Rightarrow> guideState" where
  "guideSections [] g = g"
| "guideSections (f # fs) g =
     (case spent (Some (fst (gsWriting g))) of
        (True, b) \<Rightarrow> g\<lparr>gsWriting := (the b, snd (gsWriting g))\<rparr>
      | (False, _) \<Rightarrow> guideSections fs (f g))"

definition openingSection :: "tektonEnv \<Rightarrow> string \<Rightarrow> string \<Rightarrow> guideState \<Rightarrow> guideState" where
  "openingSection env ns name g =
     (case fetchPipelineRunForPrompt env ns name (snd (gsWriting g)) of
        ((run, runText), l) \<Rightarrow>
          g\<lparr>gsRun := run, gsRunText := runText,
            gsWriting := writeText (guideOpening ns name (teNow env) (pipelineRunStatusHint env run)) (fst (gsWriting g), l)\<rparr>)"

definition definitionSection :: "tektonEnv \<Rightarrow> string \<Rightarrow> guideState \<Rightarrow> guideState" where
  "definitionSection env ns g =
     (case fetchPipelineDefinitionForPrompt env ns (gsRun g) (snd (gsWriting g)) of
        (t, l) \<Rightarrow> g\<lparr>gsWriting := writeText t (fst (gsWriting g), l)\<rparr>)"

definition taskRunsSection :: "tektonEnv \<Rightarrow> string \<Rightarrow> string \<Rightarrow> guideState \<Rightarrow> guideState" where
  "taskRunsSection env ns name g =
     (case fetchPipelineRunTaskRunsForPrompt env ns name (gsWriting g) of (trs, w) \<Rightarrow> g\<lparr>gsTaskRuns := trs, gsWriting := w\<rparr>)"

definition writePipelineTroubleshootGuide :: "tektonEnv \<Rightarrow> string \<Rightarrow> string \<Rightarrow> writing \<Rightarrow> writing" where
  "writePipelineTroubleshootGuide env ns name w =
     gsWriting (guideSections
       [openingSection env ns name,
        \<lambda>g. onWriting (writeText (gsRunText g)) g,
        onWriting (writeText (sectionText ''Pipeline Definition'')),
        definitionSection env ns,
        onWriting (writeText (sectionText ''TaskRun Status'')),
        taskRunsSection env ns name,
        onWriting (writeText (sectionText ''Failed Step Logs'')),
        \<lambda>g. onWriting (fetchPipelineRunLogsForPrompt env ns (gsTaskRuns g)) g,
        onWriting (writeText (sectionText ''Pipeline-as-Code Repositories'')),
        onWriting (writePipelineRunPACRepositoriesForPrompt env ns),
        onWriting (writeText (sectionText ''TektonConfig'')),
        onWriting (writeTektonConfigsForPrompt env),
        onWriting (writeText (sectionText ''Events'')),
        \<lambda>g. onWriting (fetchPipelineRunEventsForPrompt env ns name (map_option (teUIDOf env) (gsRun g)) (gsTaskRuns g)) g,
        onWriting (writeText guideClosing)]
       \<lparr>gsRun = None, gsRunText = [], gsTaskRuns = [], gsWriting = w\<rparr>)"

definition pipelineTroubleshootAssistantText :: string where
  "pipelineTroubleshootAssistantText = ''I'' @ [CHR 0x27] @ ''ll analyze the collected Tekton data to identify the PipelineRun issue.''"

definition pipelineTroubleshootResult :: "string \<Rightarrow> bool \<Rightarrow> promptMessage list" where
  "pipelineTroubleshootResult guide includeAssistant =
     \<lparr>pmRole = ''user'', pmType = ''text'', pmText = guide\<rparr>
     # (if includeAssistant then [\<lparr>pmRole = ''assistant'', pmType = ''text'', pmText = pipelineTroubleshootAssistantText\<rparr>] else [])"

definition pipelineTroubleshootHandler ::
    "tektonEnv \<Rightarrow> budgetCtx \<Rightarrow> (string \<rightharpoonup> string) \<Rightarrow> (string + promptMessage list) asking" where
  "pipelineTroubleshootHandler env ctx args l =
     (let ns = (case args ''namespace'' of None \<Rightarrow> [] | Some v \<Rightarrow> v); name = (case args ''name'' of None \<Rightarrow> [] | Some v \<Rightarrow> v)
      in if ns = [] then (Inl ''namespace argument is required'', l)
         else if name = [] then (Inl ''name argument is required'', l)
         else (case writePipelineTroubleshootGuide env ns name (NewPromptBudget ctx pipelineTroubleshootAssistantText, l) of
             (b, l) \<Rightarrow> (Inr (pipelineTroubleshootResult (bBuf b) True), l)))"

section \<open>Declared permissions\<close>

definition tektonGet :: "string \<Rightarrow> rbacRequirement" where
  "tektonGet r = requires [''get''] (onResource ''tekton.dev'' r []) (inArgument ''namespace'') (namedBy ''name'')"

definition tektonVerb :: "string \<Rightarrow> string \<Rightarrow> rbacRequirement" where
  "tektonVerb verb r = requires [verb] (onResource ''tekton.dev'' r []) (inArgument ''namespace'') None"

definition getLogs :: rbacRequirement where
  "getLogs = requires [''get''] (onResource [] ''pods'' ''log'') (inArgument ''namespace'') None"

text \<open>The tools of each file, and of the toolset in the order it lists them.\<close>

type_synonym tektonTool = "(tektonEnv \<Rightarrow> budgetCtx \<Rightarrow> arguments \<Rightarrow> tektonOp list \<Rightarrow> tektonOp list) toolDecl"

definition pipelineTools :: "tektonTool list" where
  "pipelineTools =
     [\<lparr>tdName = ''tekton_pipeline_start'', tdReadOnly = False, tdDestructive = False,
       tdRBAC = RBACBounded [tektonGet ''pipelines'', tektonVerb ''create'' ''pipelineruns''],
       tdRun = (\<lambda>env ctx args l. snd (startPipeline env args l))\<rparr>]"

definition pipelineRunTools :: "tektonTool list" where
  "pipelineRunTools =
     [\<lparr>tdName = ''tekton_pipelinerun_lifecycle'', tdReadOnly = False, tdDestructive = True,
       tdRBAC = RBACBounded
         [requires [''get'', ''patch''] (onResource ''tekton.dev'' ''pipelineruns'' []) (inArgument ''namespace'') (namedBy ''name''),
          tektonVerb ''create'' ''pipelineruns''],
       tdRun = (\<lambda>env ctx args l. snd (pipelineRunLifecycle env args l))\<rparr>,
      \<lparr>tdName = ''tekton_pipelinerun_logs'', tdReadOnly = True, tdDestructive = False,
       tdRBAC = RBACBounded [tektonGet ''pipelineruns'', tektonVerb ''list'' ''taskruns'', getLogs],
       tdRun = (\<lambda>env ctx args l. snd (getPipelineRunLogs env ctx args l))\<rparr>,
      \<lparr>tdName = ''tekton_pipelinerun_diagnose'', tdReadOnly = True, tdDestructive = False, tdRBAC = diagnoseRBAC,
       tdRun = (\<lambda>env ctx args l. snd (diagnosePipelineRun env ctx args l))\<rparr>]"

definition taskTools :: "tektonTool list" where
  "taskTools =
     [\<lparr>tdName = ''tekton_task_start'', tdReadOnly = False, tdDestructive = False,
       tdRBAC = RBACBounded [tektonGet ''tasks'', tektonVerb ''create'' ''taskruns''],
       tdRun = (\<lambda>env ctx args l. snd (startTask env args l))\<rparr>]"

definition taskRunTools :: "tektonTool list" where
  "taskRunTools =
     [\<lparr>tdName = ''tekton_taskrun_restart'', tdReadOnly = False, tdDestructive = False,
       tdRBAC = RBACBounded [tektonGet ''taskruns'', tektonVerb ''create'' ''taskruns''],
       tdRun = (\<lambda>env ctx args l. snd (restartTaskRun env args l))\<rparr>,
      \<lparr>tdName = ''tekton_taskrun_logs'', tdReadOnly = True, tdDestructive = False,
       tdRBAC = RBACBounded [tektonGet ''taskruns'', getLogs],
       tdRun = (\<lambda>env ctx args l. snd (getTaskRunLogs env ctx args l))\<rparr>]"

definition tektonTools :: "tektonTool list" where
  "tektonTools = pipelineTools @ pipelineRunTools @ taskTools @ taskRunTools"

lemmas tekton_tools = tektonTools_def pipelineTools_def pipelineRunTools_def taskTools_def taskRunTools_def

definition troubleshootRBAC :: rbacMetadata where
  "troubleshootRBAC = RBACBounded
     [tektonGet ''pipelineruns'', tektonVerb ''get'' ''pipelines'', tektonVerb ''list'' ''taskruns'', getLogs,
      requires [''list''] (onResource [] ''events'' []) (inArgument ''namespace'') None,
      requires [''list''] (onResource ''pipelinesascode.tekton.dev'' ''repositories'' []) (inArgument ''namespace'') None,
      requires [''list''] (onResource ''operator.tekton.dev'' ''tektonconfigs'' []) None None]"

section \<open>Collectors\<close>

text \<open>
  The contract of a collector: it keeps the budget's invariant, limit and cap, it sends only
  requests of the given kind, and it does nothing on a builder that is already truncated.
\<close>

definition sameBudget :: "builder \<Rightarrow> builder \<Rightarrow> bool" where
  "sameBudget b b' \<longleftrightarrow> (wfBuilder b \<longrightarrow> wfBuilder b' \<and> bLimit b' = bLimit b \<and> bCapped b' = bCapped b)"

definition sends :: "(tektonOp \<Rightarrow> bool) \<Rightarrow> tektonOp list \<Rightarrow> tektonOp list \<Rightarrow> bool" where
  "sends P l l' \<longleftrightarrow> (\<exists>ops. l' = l @ ops \<and> list_all P ops)"

definition collects :: "(tektonOp \<Rightarrow> bool) \<Rightarrow> (writing \<Rightarrow> writing) \<Rightarrow> bool" where
  "collects P f \<longleftrightarrow> (\<forall>w. sameBudget (fst w) (fst (f w)) \<and> sends P (snd w) (snd (f w)))"

definition quiet :: "(writing \<Rightarrow> writing) \<Rightarrow> bool" where
  "quiet f \<longleftrightarrow> (\<forall>w. wfBuilder (fst w) \<longrightarrow> Truncated (fst w) \<longrightarrow> f w = w)"

lemma sends_refl [simp]: "sends P l l"
  by (simp add: sends_def)

lemma sends_one [simp]: "P op \<Longrightarrow> sends P l (l @ [op])"
  by (simp add: sends_def)

lemma sends_trans: "sends P l m \<Longrightarrow> sends P m n \<Longrightarrow> sends P l n"
  unfolding sends_def by (metis append.assoc list_all_append)

lemma sends_mono: "sends P l m \<Longrightarrow> (\<And>op. P op \<Longrightarrow> Q op) \<Longrightarrow> sends Q l m"
  by (auto simp: sends_def list_all_iff)

lemma sends_ops: "sends P l l' \<Longrightarrow> l' = l @ ops \<Longrightarrow> op \<in> set ops \<Longrightarrow> P op"
  by (auto simp: sends_def list_all_iff)

lemma sameBudget_refl [simp]: "sameBudget b b"
  by (simp add: sameBudget_def)

lemma sameBudget_trans: "sameBudget b c \<Longrightarrow> sameBudget c d \<Longrightarrow> sameBudget b d"
  by (auto simp: sameBudget_def)

lemma sameBudget_write [simp]: "sameBudget b (snd (WriteString t b))"
  by (simp add: sameBudget_def)

lemma collectsD: "collects P f \<Longrightarrow> sameBudget (fst w) (fst (f w)) \<and> sends P (snd w) (snd (f w))"
  unfolding collects_def by blast

lemma collects_comp: "collects P f \<Longrightarrow> collects P g \<Longrightarrow> collects P (\<lambda>w. g (f w))"
  unfolding collects_def by (metis sameBudget_trans sends_trans)

lemma collects_writeText [simp]: "collects P (writeText t)"
  by (simp add: collects_def writeText_def)

lemma quiet_writeText [simp]: "quiet (writeText t)"
  by (auto simp: quiet_def writeText_def Truncated_def)

lemma SectionsIn_spent:
  assumes "wfBuilder (fst w)"
  obtains (avail) "SectionsIn (f # fs) w = SectionsIn fs (f w)" "\<not> Truncated (fst w)"
  | (full) b where "SectionsIn (f # fs) w = (b, snd w)" "sameBudget (fst w) b" "Truncated (fst w) \<Longrightarrow> b = fst w"
  using assms
proof (cases rule: spent_cases)
  case avail
  then show thesis by (intro that(1)) (simp_all add: Truncated_def)
next
  case (full b')
  then show thesis by (intro that(2) [of b']) (auto simp: sameBudget_def Truncated_def spent_def)
qed

lemma collects_SectionsIn: "list_all (collects P) fs \<Longrightarrow> collects P (SectionsIn fs)"
proof (induction fs)
  case Nil
  show ?case by (simp add: collects_def)
next
  case (Cons f fs)
  then have f: "collects P f" "collects P (SectionsIn fs)" by auto
  have "sameBudget (fst w) (fst (SectionsIn (f # fs) w)) \<and> sends P (snd w) (snd (SectionsIn (f # fs) w))" for w
  proof (cases "wfBuilder (fst w)")
    case True
    then show ?thesis
    proof (cases rule: SectionsIn_spent [where f = f and fs = fs])
      case avail
      then show ?thesis using collectsD [OF collects_comp [OF f], of w] by simp
    next
      case (full b)
      then show ?thesis by simp
    qed
  next
    case False
    then show ?thesis using collectsD [OF collects_comp [OF f], of w]
      by (auto simp: sameBudget_def split: prod.splits bool.splits)
  qed
  then show ?case unfolding collects_def by blast
qed

lemma quiet_SectionsIn: "quiet (SectionsIn fs)"
  unfolding quiet_def
proof (intro allI impI)
  fix w :: writing assume w: "wfBuilder (fst w)" "Truncated (fst w)"
  show "SectionsIn fs w = w"
  proof (cases fs)
    case (Cons f fs')
    from w(1) show ?thesis unfolding Cons by (cases rule: SectionsIn_spent [where f = f and fs = fs']) (use w in auto)
  qed simp
qed

lemma collects_container: "(\<And>c. P (TLogs ns pod c tail)) \<Longrightarrow> collects P (collectContainerLogs env pod ns kind name container tail)"
  by (auto simp: collects_def collectContainerLogs_def ask_defs Let_def writeText_def split: sum.splits)

lemma collects_taskRun:
  assumes "\<And>pod c. P (TLogs ns pod c tail)"
  shows "collects P (collectTaskRunLogs env ns tr stepName tail)"
proof -
  have id: "collects P (\<lambda>w. w)" by (simp add: collects_def)
  have "list_all (collects P)
      (map (\<lambda>st. collectContainerLogs env (tkPodName tr) ns ''step'' (ssName st) (ssContainer st) tail)
         (filter (\<lambda>st. stepName = [] \<or> ssName st = stepName) (tkSteps tr))
       @ (if stepName = [] then
            map (\<lambda>(name, container). collectContainerLogs env (tkPodName tr) ns ''sidecar'' name container tail) (tkSidecars tr)
          else []))"
    using assms by (auto simp: list_all_iff intro: collects_container)
  from collects_SectionsIn [OF this] id show ?thesis
    by (auto simp: collectTaskRunLogs_def collects_def writeText_def)
qed

lemma quiet_taskRun: "quiet (collectTaskRunLogs env ns tr stepName tail)"
  using quiet_SectionsIn quiet_writeText by (auto simp: quiet_def collectTaskRunLogs_def)

lemma sameBudget_WriteCut: "WriteCut t wasCut (Some b) = (ok, bo) \<Longrightarrow> sameBudget b (the bo)"
  by (auto simp: WriteCut_def Let_def sameBudget_def split: if_splits prod.splits)
    (metis WriteString_frame WriteString_wf snd_conv)+

lemma appendTaskBlock_ok:
  assumes "collects P f" "appendTaskBlock header suffix f w = (ok, w')"
  shows "sameBudget (fst w) (fst w') \<and> sends P (snd w) (snd w')"
proof -
  let ?i = "Scratch (int (length header) + int (length suffix) + 1) (Some (fst w))"
  have "sends P (snd w) (snd (f (?i, snd w)))" using collectsD [OF assms(1), of "(?i, snd w)"] by simp
  then show ?thesis using assms(2)
    by (auto simp: appendTaskBlock_def Let_def split: if_splits prod.splits dest: sameBudget_WriteCut)
qed

lemma taskBlocks_ok:
  assumes "\<And>tr. collects P (f tr)" "taskBlocks header suffix f trs w = (stopped, w')"
  shows "sameBudget (fst w) (fst w') \<and> sends P (snd w) (snd w')"
  using assms(2)
proof (induction trs arbitrary: w)
  case (Cons tr trs)
  obtain ok u where a: "appendTaskBlock (header tr) suffix (f tr) w = (ok, u)" by (metis surj_pair)
  note u = appendTaskBlock_ok [OF assms(1) a]
  show ?case
  proof (cases ok)
    case True
    then show ?thesis using Cons.IH [of u] Cons.prems a u by (auto intro: sameBudget_trans sends_trans)
  next
    case False
    then show ?thesis using Cons.prems a u by auto
  qed
qed simp

subsection \<open>The parts of the guide\<close>

definition guideOp :: "string \<Rightarrow> string \<Rightarrow> tektonOp \<Rightarrow> bool" where
  "guideOp ns name op \<longleftrightarrow>
     (case op of
        TGet gvr n m \<Rightarrow> n = ns \<and> (gvr = pipelineRunGVR \<and> m = name \<or> gvr = pipelineGVR)
      | TList gvr n sel limit cont \<Rightarrow> n = ns \<and> (gvr = taskRunGVR \<or> gvr = pacRepositoryGVR) \<or> n = [] \<and> gvr = tektonConfigGVR
      | TLogs n pod c tail \<Rightarrow> n = ns
      | TEvents n sel limit \<Rightarrow> n = ns
      | _ \<Rightarrow> False)"

definition keepsGuide :: "(tektonOp \<Rightarrow> bool) \<Rightarrow> (guideState \<Rightarrow> guideState) \<Rightarrow> bool" where
  "keepsGuide P f \<longleftrightarrow> (\<forall>g. sameBudget (fst (gsWriting g)) (fst (gsWriting (f g))) \<and> sends P (snd (gsWriting g)) (snd (gsWriting (f g))))"

lemma keepsGuide_onWriting:
  assumes "\<And>g. collects P (f g)"
  shows "keepsGuide P (\<lambda>g. onWriting (f g) g)"
proof -
  have "gsWriting (onWriting (f g) g) = f g (gsWriting g)" for g by (simp add: onWriting_def)
  then show ?thesis unfolding keepsGuide_def using collectsD [OF assms] by metis
qed

lemma keepsGuide_plain: "collects P f \<Longrightarrow> keepsGuide P (onWriting f)"
  using keepsGuide_onWriting [of P "\<lambda>_. f"] by (simp add: onWriting_def [abs_def])

lemma listTaskRuns_sends:
  "(\<And>sel. P (TList taskRunGVR ns sel limit cont)) \<Longrightarrow> sends P l (snd (pipelineRunTaskRuns env ns prn task limit cont l))"
  using pipelineRunTaskRuns_log [of env ns prn task limit cont l] by (fastforce simp: sends_def list_all_iff)

lemma opening_ok: "keepsGuide (guideOp ns name) (openingSection env ns name)"
  by (auto simp: keepsGuide_def openingSection_def fetchPipelineRunForPrompt_def ask_defs writeText_def guideOp_def
      split: sum.splits prod.splits)

lemma definition_ok: "keepsGuide (guideOp ns name) (definitionSection env ns)"
  by (auto simp: keepsGuide_def definitionSection_def fetchPipelineDefinitionForPrompt_def ask_defs writeText_def guideOp_def
      split: sum.splits prod.splits option.splits)

lemma taskRunsForPrompt_ok:
  "sameBudget (fst w) (fst (snd (fetchPipelineRunTaskRunsForPrompt env ns name w)))
   \<and> sends (guideOp ns name) (snd w) (snd (snd (fetchPipelineRunTaskRunsForPrompt env ns name w)))"
proof -
  obtain r l where rl: "pipelineRunTaskRuns env ns name [] 0 [] (snd w) = (r, l)" by (metis surj_pair)
  have l: "sends (guideOp ns name) (snd w) l"
    using listTaskRuns_sends [of "guideOp ns name" ns 0 "[]" "snd w" env name "[]"] rl by (simp add: guideOp_def)
  have "collects (guideOp ns name) (SectionsIn [writeText t])" for t by (rule collects_SectionsIn) simp
  then have st: "collects (guideOp ns name) (taskRunStatusStep env tr)" for tr
    unfolding taskRunStatusStep_def Let_def
    by (cases "teYamlStatus env tr") (auto intro: collects_comp [OF collects_writeText] simp del: SectionsIn.simps)
  have "collects (guideOp ns name) (SectionsIn (map (taskRunStatusStep env) trs))" for trs
    by (rule collects_SectionsIn) (simp add: list_all_iff st)
  from collectsD [OF this, of "(fst w, l)"] show ?thesis using rl l
    by (auto simp: fetchPipelineRunTaskRunsForPrompt_def writeText_def split: sum.splits intro: sends_trans)
qed

lemma taskRuns_ok: "keepsGuide (guideOp ns name) (taskRunsSection env ns name)"
  unfolding keepsGuide_def
proof
  fix g :: guideState
  obtain trs w where "fetchPipelineRunTaskRunsForPrompt env ns name (gsWriting g) = (trs, w)" by (metis surj_pair)
  then show "sameBudget (fst (gsWriting g)) (fst (gsWriting (taskRunsSection env ns name g)))
      \<and> sends (guideOp ns name) (snd (gsWriting g)) (snd (gsWriting (taskRunsSection env ns name g)))"
    using taskRunsForPrompt_ok [of "gsWriting g" env ns name] by (simp add: taskRunsSection_def)
qed

lemma failedStepLogs_ok: "(\<And>pod c t. P (TLogs ns pod c t)) \<Longrightarrow> collects P (failedStepLogs env ns tr)"
proof -
  assume P: "\<And>pod c t. P (TLogs ns pod c t)"
  have "collects P (fold (\<lambda>st w. if ssName st = [] \<or> \<not> failedOrErroredStep st then w
      else collectTaskRunLogs env ns tr (ssName st) defaultTailLines w) sts)" for sts
  proof (induction sts)
    case Nil
    show ?case by (simp add: collects_def)
  next
    case (Cons st sts)
    have "collects P (\<lambda>w. if ssName st = [] \<or> \<not> failedOrErroredStep st then w else collectTaskRunLogs env ns tr (ssName st) defaultTailLines w)"
      using collects_taskRun [of P ns defaultTailLines env tr "ssName st"] P by (auto simp: collects_def)
    from collects_comp [OF this Cons] show ?case by (simp add: o_def)
  qed
  then show ?thesis by (simp add: failedStepLogs_def [abs_def])
qed

lemma logsForPrompt_ok: "collects (guideOp ns name) (fetchPipelineRunLogsForPrompt env ns trs)"
  unfolding collects_def
proof
  fix w
  have "collects (guideOp ns name) (failedStepLogs env ns tr)" for tr by (rule failedStepLogs_ok) (simp add: guideOp_def)
  note blocks = taskBlocks_ok [OF this]
  show "sameBudget (fst w) (fst (fetchPipelineRunLogsForPrompt env ns trs w)) \<and> sends (guideOp ns name) (snd w) (snd (fetchPipelineRunLogsForPrompt env ns trs w))"
    by (auto simp: fetchPipelineRunLogsForPrompt_def Let_def writeText_def split: prod.splits
        intro: sameBudget_trans [OF _ sameBudget_write] dest!: blocks)
qed

lemma writeEvents_ok: "writeEvents env es seen wrote b = (seen', wrote', b') \<Longrightarrow> sameBudget b b'"
proof (induction es arbitrary: seen wrote b)
  case (Cons e es)
  show ?case
  proof (cases "Truncated b \<or> evType e \<noteq> ''Warning'' \<or> eventKey e \<in> set seen \<or> (\<exists>err. teYamlEvent env e = Inl err)")
    case True
    then show ?thesis using Cons by (auto split: if_splits)
  next
    case False
    then obtain yaml where y: "teYamlEvent env e = Inr yaml" by (cases "teYamlEvent env e") auto
    define c where "c = (if wrote then b else snd (WriteString (''```yaml'' @ [nl]) b))"
    have c: "sameBudget b c" by (simp add: c_def)
    have d: "sameBudget b (snd (WriteString [nl] (snd (WriteString yaml c))))"
      by (rule sameBudget_trans [OF sameBudget_trans [OF c sameBudget_write] sameBudget_write])
    have unf: "writeEvents env (e # es) seen wrote b =
        (if \<not> wrote \<and> Truncated c then (eventKey e # seen, True, c)
         else writeEvents env es (eventKey e # seen) True (snd (WriteString [nl] (snd (WriteString yaml c)))))"
      using False y by (simp add: Let_def c_def)
    show ?thesis using Cons.prems Cons.IH c d unfolding unf by (auto split: if_splits intro: sameBudget_trans)
  qed
qed simp

lemma targetEvents_ok:
  "writeTargetEvents env ns ts seen wrote w = (wrote', w') \<Longrightarrow> sameBudget (fst w) (fst w') \<and> sends (guideOp ns name) (snd w) (snd w')"
proof (induction ts arbitrary: seen wrote w)
  case (Cons t ts)
  have P: "guideOp ns name (TEvents ns sel n)" for sel n by (simp add: guideOp_def)
  show ?case
  proof (cases "Truncated (fst w)")
    case True
    then show ?thesis using Cons.prems by simp
  next
    case False
    obtain r l where r: "askEvents env ns (fieldSelector env t) 0 (snd w) = (r, l)" by (metis surj_pair)
    then have l: "sends (guideOp ns name) (snd w) l" by (auto simp: askEvents_def P)
    show ?thesis
    proof (cases r)
      case (Inl err)
      then show ?thesis using Cons.IH [of seen wrote "(fst w, l)"] Cons.prems False r l by (auto intro: sends_trans)
    next
      case (Inr p)
      obtain items c where p: "p = (items, c)" by (cases p)
      obtain seen1 wrote1 b where e: "writeEvents env items seen wrote (fst w) = (seen1, wrote1, b)" by (metis surj_pair)
      from writeEvents_ok [OF e] Cons.IH [of seen1 wrote1 "(b, l)"] Cons.prems False r l Inr p e show ?thesis
        by (auto intro: sends_trans sameBudget_trans)
    qed
  qed
qed simp

lemma eventsForPrompt_ok: "collects (guideOp ns name) (fetchPipelineRunEventsForPrompt env ns n owner trs)"
  unfolding collects_def fetchPipelineRunEventsForPrompt_def
  by (auto simp: writeText_def split: prod.splits intro: sameBudget_trans [OF _ sameBudget_write] dest!: targetEvents_ok [where name = name])

lemma listed_ok: "(\<And>sel. P (TList gvr ns sel 0 [])) \<Longrightarrow> collects P (writeListed env gvr ns what none)"
  by (auto simp: collects_def writeListed_def ask_defs writeText_def split: sum.splits)

lemma guideSections_ok:
  "list_all (keepsGuide P) fs \<Longrightarrow> keepsGuide P (guideSections fs)"
proof (induction fs)
  case Nil
  show ?case by (simp add: keepsGuide_def)
next
  case (Cons f fs)
  have "sameBudget (fst (gsWriting g)) (fst (gsWriting (guideSections (f # fs) g))) \<and> sends P (snd (gsWriting g)) (snd (gsWriting (guideSections (f # fs) g)))" for g
  proof -
    have go: "sameBudget (fst (gsWriting g)) (fst (gsWriting (guideSections fs (f g)))) \<and> sends P (snd (gsWriting g)) (snd (gsWriting (guideSections fs (f g))))"
      using Cons by (auto simp: keepsGuide_def intro: sameBudget_trans sends_trans)
    show ?thesis
    proof (cases "wfBuilder (fst (gsWriting g))")
      case True
      then show ?thesis by (cases rule: spent_cases) (use go in \<open>auto simp: sameBudget_def\<close>)
    next
      case False
      then show ?thesis using go by (auto simp: sameBudget_def split: prod.splits bool.splits)
    qed
  qed
  then show ?case by (simp add: keepsGuide_def)
qed

lemma guide_ok: "collects (guideOp ns name) (writePipelineTroubleshootGuide env ns name)"
proof -
  have "collects (guideOp ns name) (writePipelineRunPACRepositoriesForPrompt env ns)" "collects (guideOp ns name) (writeTektonConfigsForPrompt env)"
    unfolding writePipelineRunPACRepositoriesForPrompt_def writeTektonConfigsForPrompt_def by (rule listed_ok; simp add: guideOp_def)+
  note parts = this
  define fs where "fs = [openingSection env ns name,
        \<lambda>g. onWriting (writeText (gsRunText g)) g,
        onWriting (writeText (sectionText ''Pipeline Definition'')),
        definitionSection env ns,
        onWriting (writeText (sectionText ''TaskRun Status'')),
        taskRunsSection env ns name,
        onWriting (writeText (sectionText ''Failed Step Logs'')),
        \<lambda>g. onWriting (fetchPipelineRunLogsForPrompt env ns (gsTaskRuns g)) g,
        onWriting (writeText (sectionText ''Pipeline-as-Code Repositories'')),
        onWriting (writePipelineRunPACRepositoriesForPrompt env ns),
        onWriting (writeText (sectionText ''TektonConfig'')),
        onWriting (writeTektonConfigsForPrompt env),
        onWriting (writeText (sectionText ''Events'')),
        \<lambda>g. onWriting (fetchPipelineRunEventsForPrompt env ns name (map_option (teUIDOf env) (gsRun g)) (gsTaskRuns g)) g,
        onWriting (writeText guideClosing)]"
  have "list_all (keepsGuide (guideOp ns name)) fs"
    unfolding fs_def
    by (simp add: parts opening_ok definition_ok taskRuns_ok keepsGuide_plain keepsGuide_onWriting logsForPrompt_ok eventsForPrompt_ok)
  then have k: "keepsGuide (guideOp ns name) (guideSections fs)" by (rule guideSections_ok)
  have "writePipelineTroubleshootGuide env ns name w = gsWriting (guideSections fs \<lparr>gsRun = None, gsRunText = [], gsTaskRuns = [], gsWriting = w\<rparr>)" for w
    by (simp add: writePipelineTroubleshootGuide_def fs_def)
  then show ?thesis using k unfolding keepsGuide_def collects_def by (metis guideState.select_convs(4))
qed

section \<open>Requests stay within the declared permissions\<close>

abbreviation declaredOp :: "rbacMetadata \<Rightarrow> arguments \<Rightarrow> string \<Rightarrow> tektonOp \<Rightarrow> bool" where
  "declaredOp m args ns op \<equiv> declaredFor m args ns (tektonRequest op)"

lemma names_ok:
  assumes "nameAndNamespace env (WrapParams args) = (name, ns, p)" "pErr p = None"
  shows "p = WrapParams args \<and> argumentString args ''name'' [] = name \<and> argumentString args ''namespace'' (teNamespace env) = ns"
proof -
  obtain v q where v: "pRequiredString ''name'' (WrapParams args) = (v, q)" by (metis surj_pair)
  obtain n r where n: "pOptionalString ''namespace'' (teNamespace env) q = (n, r)" by (metis surj_pair)
  have e: "name = v" "ns = n" "p = r" using assms(1) v n by (auto simp: nameAndNamespace_def)
  from pOptionalString_ok [OF n] assms(2) e have "r = q" "pErr q = None" "n = argumentString (pArgs q) ''namespace'' (teNamespace env)" by auto
  moreover from pRequiredString_ok [OF v this(2), of "[]"] have "q = WrapParams args" "v = argumentString args ''name'' []" by (auto simp: WrapParams_def)
  ultimately show ?thesis using e by (simp add: WrapParams_def)
qed

lemma createRun_sends: "(\<And>obj. P (TCreate gvr ns obj)) \<Longrightarrow> sends P l (snd (createRun env gvr ns name run report l))"
  by (auto simp: createRun_def ask_defs split: sum.splits)

lemma startRun_sends:
  assumes "P (TGet defGVR (argumentString args ''namespace'' (teNamespace env)) (argumentString args ''name'' []))"
    "\<And>obj. P (TCreate runGVR (argumentString args ''namespace'' (teNamespace env)) obj)"
  shows "sends P l (snd (startRun env defGVR defKind runGVR kind args l))"
proof -
  obtain name ns p where n: "nameAndNamespace env (WrapParams args) = (name, ns, p)" by (metis surj_pair)
  show ?thesis
  proof (cases "pErr p")
    case None
    note e = names_ok [OF n None]
    have "sends P (l @ [TGet defGVR ns name]) (snd (createRun env runGVR ns name run report (l @ [TGet defGVR ns name])))" for run report
      using assms(2) e by (intro createRun_sends) simp
    moreover have "sends P l (l @ [TGet defGVR ns name])" using assms(1) e by simp
    ultimately show ?thesis using n None
      by (auto simp: startRun_def ask_defs split: sum.splits option.splits goVal.splits intro: sends_trans)
  qed (simp add: startRun_def n)
qed

lemma restartTaskRun_sends:
  assumes "P (TGet taskRunGVR (argumentString args ''namespace'' (teNamespace env)) (argumentString args ''name'' []))"
    "\<And>obj. P (TCreate taskRunGVR (argumentString args ''namespace'' (teNamespace env)) obj)"
  shows "sends P l (snd (restartTaskRun env args l))"
proof -
  obtain name ns p where n: "nameAndNamespace env (WrapParams args) = (name, ns, p)" by (metis surj_pair)
  show ?thesis
  proof (cases "pErr p")
    case None
    note e = names_ok [OF n None]
    have "sends P (l @ [TGet taskRunGVR ns name]) (snd (createRun env taskRunGVR ns name run report (l @ [TGet taskRunGVR ns name])))" for run report
      using assms(2) e by (intro createRun_sends) simp
    moreover have "sends P l (l @ [TGet taskRunGVR ns name])" using assms(1) e by simp
    ultimately show ?thesis using n None by (auto simp: restartTaskRun_def ask_defs split: sum.splits intro: sends_trans)
  qed (simp add: restartTaskRun_def n)
qed

lemma lifecycle_sends:
  assumes "P (TGet pipelineRunGVR (argumentString args ''namespace'' (teNamespace env)) (argumentString args ''name'' []))"
    "\<And>obj. P (TCreate pipelineRunGVR (argumentString args ''namespace'' (teNamespace env)) obj)"
    "\<And>patch. P (TPatch pipelineRunGVR (argumentString args ''namespace'' (teNamespace env)) (argumentString args ''name'' []) patch)"
  shows "sends P l (snd (pipelineRunLifecycle env args l))"
proof -
  obtain name ns p where n: "nameAndNamespace env (WrapParams args) = (name, ns, p)" by (metis surj_pair)
  obtain action q where a: "pRequiredString ''action'' p = (action, q)" by (metis surj_pair)
  show ?thesis
  proof (cases "pErr q")
    case None
    then have "pErr p = None" using pRequiredString_ok [OF a] by blast
    note e = names_ok [OF n this]
    have "sends P (l @ [TGet pipelineRunGVR ns name]) (snd (createRun env pipelineRunGVR ns name run report (l @ [TGet pipelineRunGVR ns name])))" for run report
      using assms(2) e by (intro createRun_sends) simp
    moreover have "sends P l (l @ [TGet pipelineRunGVR ns name])" using assms(1) e by simp
    ultimately have "sends P l (snd (restartPipelineRun env ns name l))"
      by (auto simp: restartPipelineRun_def ask_defs split: sum.splits intro: sends_trans)
    then show ?thesis using n a None assms(3) e by (auto simp: pipelineRunLifecycle_def ask_defs split: sum.splits)
  qed (simp add: pipelineRunLifecycle_def n a)
qed

text \<open>What a log tool answers with, once its collector has filled the builder.\<close>

definition answerOr :: "string \<Rightarrow> builder \<Rightarrow> string" where
  "answerOr none b = bBuf (if Len b = 0 then snd (WriteString none b) else b)"

lemma answerOr_bound:
  assumes "sameBudget (NewBuilderWithBudget limit) b" "0 < limit"
  shows "int (length (answerOr none b)) \<le> limit + 31"
proof -
  have "sameBudget (NewBuilderWithBudget limit) (if Len b = 0 then snd (WriteString none b) else b)"
    using assms(1) sameBudget_trans [OF assms(1) sameBudget_write] by simp
  then show ?thesis using assms(2) wfBuilder_Len_bound [of "if Len b = 0 then snd (WriteString none b) else b"]
    by (simp add: sameBudget_def answerOr_def Len_def)
qed

lemma taskRunLogs_ok:
  assumes "P (TGet taskRunGVR (argumentString args ''namespace'' (teNamespace env)) (argumentString args ''name'' []))"
    "\<And>pod c t. P (TLogs (argumentString args ''namespace'' (teNamespace env)) pod c t)"
  shows "sends P l (snd (getTaskRunLogs env ctx args l))
    \<and> (\<forall>t. fst (getTaskRunLogs env ctx args l) = Inr t \<longrightarrow> 0 < ResultLimit ctx \<longrightarrow> int (length t) \<le> ResultLimit ctx + 31)"
proof -
  obtain name ns p where n: "nameAndNamespace env (WrapParams args) = (name, ns, p)" by (metis surj_pair)
  obtain stepName q where st: "pOptionalString ''step'' [] p = (stepName, q)" by (metis surj_pair)
  obtain tail r where t: "pOptionalInt64 (teOob env) ''tail'' defaultTailLines q = (tail, r)" by (metis surj_pair)
  show ?thesis
  proof (cases "pErr r")
    case None
    then have "pErr p = None" using pOptionalInt64_ok [OF t] pOptionalString_ok [OF st] by auto
    note e = names_ok [OF n this]
    let ?l = "l @ [TGet taskRunGVR ns name]" and ?b = "NewBuilderWithBudget (ResultLimit ctx)"
    have l: "sends P l ?l" using assms(1) e by simp
    show ?thesis
    proof (cases "\<exists>obj tr. teGet env l taskRunGVR ns name = Inr obj \<and> teTaskRunOf env obj = Inr tr")
      case True
      then obtain obj tr where o: "teGet env l taskRunGVR ns name = Inr obj" "teTaskRunOf env obj = Inr tr" by blast
      obtain b l' where c: "collectTaskRunLogs env ns tr stepName tail (?b, ?l) = (b, l')" by (metis surj_pair)
      have "collects P (collectTaskRunLogs env ns tr stepName tail)" using assms(2) e by (intro collects_taskRun) simp
      from collectsD [OF this, of "(?b, ?l)"] c have w: "sameBudget ?b b" "sends P ?l l'" by auto
      have "\<exists>none. getTaskRunLogs env ctx args l = (Inr (answerOr none b), l')"
        using n st t None o c by (auto simp: getTaskRunLogs_def ask_defs answerOr_def)
      then show ?thesis using answerOr_bound [OF w(1)] sends_trans [OF l w(2)] by auto
    next
      case False
      then show ?thesis using n st t None l by (auto simp: getTaskRunLogs_def ask_defs split: sum.splits)
    qed
  qed (simp add: getTaskRunLogs_def n st t)
qed

lemma limitString_bound: "0 < ResultLimit ctx \<Longrightarrow> int (length (LimitString ctx t)) \<le> ResultLimit ctx + 31"
  using wfBuilder_Len_bound [of "snd (WriteString t (NewBuilderWithBudget (ResultLimit ctx)))"]
  by (simp add: LimitString_def Len_def)

lemma pipelineRunLogs_ok:
  assumes "P (TGet pipelineRunGVR (argumentString args ''namespace'' (teNamespace env)) (argumentString args ''name'' []))"
    "\<And>sel. P (TList taskRunGVR (argumentString args ''namespace'' (teNamespace env)) sel 0 [])"
    "\<And>pod c t. P (TLogs (argumentString args ''namespace'' (teNamespace env)) pod c t)"
  shows "sends P l (snd (getPipelineRunLogs env ctx args l))
    \<and> (\<forall>t. fst (getPipelineRunLogs env ctx args l) = Inr t \<longrightarrow> 0 < ResultLimit ctx \<longrightarrow> int (length t) \<le> ResultLimit ctx + 31)"
proof -
  obtain name ns p where n: "nameAndNamespace env (WrapParams args) = (name, ns, p)" by (metis surj_pair)
  obtain task p1 where ta: "pOptionalString ''task'' [] p = (task, p1)" by (metis surj_pair)
  obtain stepName q where st: "pOptionalString ''step'' [] p1 = (stepName, q)" by (metis surj_pair)
  obtain tail r where t: "pOptionalInt64 (teOob env) ''tail'' defaultTailLines q = (tail, r)" by (metis surj_pair)
  note defs = getPipelineRunLogs_def ask_defs n ta st t
  show ?thesis
  proof (cases "pErr r")
    case None
    then have "pErr p = None" using pOptionalInt64_ok [OF t] pOptionalString_ok [OF st] pOptionalString_ok [OF ta] by auto
    note e = names_ok [OF n this]
    let ?l = "l @ [TGet pipelineRunGVR ns name]" and ?b = "NewBuilderWithBudget (ResultLimit ctx)"
    obtain res l1 where ls: "pipelineRunTaskRuns env ns name task 0 [] ?l = (res, l1)" by (metis surj_pair)
    have l: "sends P l ?l" using assms(1) e by simp
    have "sends P ?l l1" using listTaskRuns_sends [of P ns 0 "[]" ?l env name task] ls assms(2) e by simp
    with l have l1: "sends P l l1" by (rule sends_trans)
    show ?thesis
    proof (cases "\<exists>obj trs tok. teGet env l pipelineRunGVR ns name = Inr obj \<and> res = Inr (trs, tok) \<and> trs \<noteq> []")
      case True
      then obtain obj trs tok where o: "teGet env l pipelineRunGVR ns name = Inr obj" "res = Inr (trs, tok)" "trs \<noteq> []" by blast
      let ?blocks = "taskBlocks (\<lambda>tr. ''# TaskRun: '' @ tkName tr @ [nl]) [] (\<lambda>tr. collectTaskRunLogs env ns tr stepName tail) trs (?b, l1)"
      obtain stopped b l' where c: "?blocks = (stopped, b, l')" by (metis surj_pair)
      have "collects P (collectTaskRunLogs env ns tr stepName tail)" for tr using assms(3) e by (intro collects_taskRun) simp
      from taskBlocks_ok [OF this c] have w: "sameBudget ?b b" "sends P l1 l'" by auto
      have "\<exists>none. getPipelineRunLogs env ctx args l = (Inr (answerOr none b), l')"
        using None o c ls by (auto simp: defs answerOr_def)
      then show ?thesis using answerOr_bound [OF w(1)] sends_trans [OF l1 w(2)] by auto
    next
      case False
      then show ?thesis using None l l1 ls limitString_bound by (auto simp: defs split: sum.splits)
    qed
  qed (simp add: defs)
qed

lemma troubleshoot_ok:
  fixes ctx :: budgetCtx
  shows "sends (\<lambda>op. \<exists>ns name. args ''namespace'' = Some ns \<and> args ''name'' = Some name \<and> guideOp ns name op) l
      (snd (pipelineTroubleshootHandler env ctx args l))
    \<and> (\<forall>ms. fst (pipelineTroubleshootHandler env ctx args l) = Inr ms \<longrightarrow>
         (\<exists>b. ms = pipelineTroubleshootResult (bBuf b) True \<and> sameBudget (NewPromptBudget ctx pipelineTroubleshootAssistantText) b))"
proof (cases "\<exists>ns name. args ''namespace'' = Some ns \<and> args ''name'' = Some name \<and> ns \<noteq> [] \<and> name \<noteq> []")
  case True
  then obtain ns name where n: "args ''namespace'' = Some ns" "args ''name'' = Some name" "ns \<noteq> []" "name \<noteq> []" by blast
  let ?w = "(NewPromptBudget ctx pipelineTroubleshootAssistantText, l)"
  obtain b l' where g: "writePipelineTroubleshootGuide env ns name ?w = (b, l')" by (metis surj_pair)
  from collectsD [OF guide_ok [of ns name env], of ?w] g
  have "sameBudget (fst ?w) b" "sends (guideOp ns name) l l'" by auto
  then show ?thesis using n g by (auto simp: pipelineTroubleshootHandler_def Let_def elim: sends_mono)
next
  case False
  then show ?thesis by (auto simp: pipelineTroubleshootHandler_def Let_def split: option.splits)
qed

lemma declared_tekton:
  "declaredOp (RBACBounded qs) args ns op \<longleftrightarrow> list_ex (\<lambda>q. covers args ns q (tektonRequest op)) qs"
  by simp

lemmas request_eval = groupedRequest_def podLogRequest_def eventListRequest_def tektonGet_def tektonVerb_def getLogs_def
  pipelineGVR_def pipelineRunGVR_def taskGVR_def taskRunGVR_def tektonGVR_def pacRepositoryGVR_def tektonConfigGVR_def

lemma tool_sends:
  assumes "t \<in> set tektonTools"
  shows "sends (declaredOp (tdRBAC t) args (teNamespace env)) l (tdRun t env ctx args l)"
proof -
  have diag: "sends (declaredOp diagnoseRBAC args (teNamespace env)) l (snd (diagnosePipelineRun env ctx args l))"
  proof -
    have "\<exists>ops. snd (diagnosePipelineRun env ctx args l) = l @ ops"
    proof (cases "fst (diagnosePipelineRun env ctx args l)")
      case (Inr d)
      then show ?thesis using diagnose_log [OF Inr] by auto
    next
      case (Inl e)
      then show ?thesis by (auto simp: diagnosePipelineRun_def getPipelineRun_def ask_defs Let_def split: sum.splits)
    qed
    then show ?thesis using diagnose_within_rbac [of env ctx args l] by (auto simp: sends_def list_all_iff)
  qed
  note t = assms [unfolded tekton_tools set_append list.set Un_iff insert_iff empty_iff simp_thms]
  show ?thesis
    by (insert t, elim disjE; simp only: toolDecl.select_convs startPipeline_def startTask_def;
        (rule diag | rule startRun_sends | rule restartTaskRun_sends | rule lifecycle_sends
          | rule taskRunLogs_ok [THEN conjunct1] | rule pipelineRunLogs_ok [THEN conjunct1]);
        auto simp: request_eval)
qed

lemma reading_tools_declare_reads: "t \<in> set tektonTools \<Longrightarrow> tdReadOnly t \<Longrightarrow> declaresOnly readVerbs (tdRBAC t)"
  by (auto simp: tekton_tools diagnoseRBAC_def tektonGet_def tektonVerb_def getLogs_def readVerbs_def)

text \<open>
  C13. Every request that a Tekton tool sends to the API server, and every request of the
  troubleshooting prompt, is covered by the permissions that the tool or the prompt declares:
  its verb and resource by a declared requirement, in the namespace that the call names, and on
  the object that the call names where the requirement is for one object. The tools that are
  marked as read-only only get and list.
\<close>

theorem tekton_requests_are_declared:
  "(\<forall>t \<in> set tektonTools. \<forall>op \<in> set (drop (length l) (tdRun t env ctx args l)).
      declaredFor (tdRBAC t) args (teNamespace env) (tektonRequest op)
      \<and> (tdReadOnly t \<longrightarrow> krVerb (tektonRequest op) \<in> {''get'', ''list''}))
   \<and> (\<forall>op \<in> set (drop (length l) (snd (pipelineTroubleshootHandler env ctx pargs l))).
      declaredFor troubleshootRBAC (\<lambda>k. map_option GStr (pargs k)) (teNamespace env) (tektonRequest op))"
proof
  have "declaredOp (tdRBAC t) args (teNamespace env) op"
    if t: "t \<in> set tektonTools" "op \<in> set (drop (length l) (tdRun t env ctx args l))" for t op
    using tool_sends [OF t(1), of args env l ctx] t(2) by (auto simp: sends_def list_all_iff)
  then show "\<forall>t \<in> set tektonTools. \<forall>op \<in> set (drop (length l) (tdRun t env ctx args l)).
      declaredOp (tdRBAC t) args (teNamespace env) op \<and> (tdReadOnly t \<longrightarrow> krVerb (tektonRequest op) \<in> {''get'', ''list''})"
    using declared_verb [OF reading_tools_declare_reads] by (force simp: readVerbs_def)
  show "\<forall>op \<in> set (drop (length l) (snd (pipelineTroubleshootHandler env ctx pargs l))).
      declaredOp troubleshootRBAC (\<lambda>k. map_option GStr (pargs k)) (teNamespace env) op"
  proof
    fix op assume op: "op \<in> set (drop (length l) (snd (pipelineTroubleshootHandler env ctx pargs l)))"
    obtain ns name where n: "pargs ''namespace'' = Some ns" "pargs ''name'' = Some name" "guideOp ns name op"
      using troubleshoot_ok [of pargs l env ctx] op by (fastforce simp: sends_def list_all_iff)
    then show "declaredOp troubleshootRBAC (\<lambda>k. map_option GStr (pargs k)) (teNamespace env) op"
      by (cases op) (auto simp: troubleshootRBAC_def guideOp_def request_eval argumentString_def)
  qed
qed

theorem tekton_requests_are_declared_witness:
  "set (drop 0 (snd (restartTaskRun exampleTekton exampleArgs []))) = {TGet taskRunGVR ''ci'' ''run'', TCreate taskRunGVR ''ci'' []}
   \<and> declaredFor (RBACBounded [tektonGet ''taskruns'', tektonVerb ''create'' ''taskruns'']) exampleArgs ''default''
        (tektonRequest (TCreate taskRunGVR ''ci'' []))"
proof -
  have ops: "snd (restartTaskRun exampleTekton exampleArgs []) = [TGet taskRunGVR ''ci'' ''run'', TCreate taskRunGVR ''ci'' []]"
    by (simp add: restartTaskRun_def nameAndNamespace_def pRequiredString_def pOptionalString_def RequiredString_def optionalString_def
        WrapParams_def exampleArgs_def exampleTekton_def ask_defs createRun_def)
  have "teNamespace exampleTekton = ''default''" by (simp add: exampleTekton_def)
  with tekton_requests_are_declared [of "[]" exampleTekton None exampleArgs Map.empty] ops show ?thesis
    by (simp add: tekton_tools)
qed

text \<open>The texts of the log tools and of the guide stay within the result limit.\<close>

lemma log_texts_within_limit:
  assumes "0 < ResultLimit ctx"
  shows "fst (getTaskRunLogs env ctx args l) = Inr t \<Longrightarrow> int (length t) \<le> ResultLimit ctx + 31"
    and "fst (getPipelineRunLogs env ctx args l) = Inr t \<Longrightarrow> int (length t) \<le> ResultLimit ctx + 31"
  using taskRunLogs_ok [of "\<lambda>_. True" args env l ctx] pipelineRunLogs_ok [of "\<lambda>_. True" args env l ctx] assms by auto

lemma guide_within_limit:
  assumes "fst (pipelineTroubleshootHandler env ctx args l) = Inr ms"
    and "int (length pipelineTroubleshootAssistantText) \<le> ResultLimit ctx" and "is_int64 (ResultLimit ctx + 31)"
  shows "promptWithinLimit (ResultLimit ctx) ms = None"
proof -
  let ?a = pipelineTroubleshootAssistantText
  obtain b where b: "ms = pipelineTroubleshootResult (bBuf b) True" "sameBudget (NewPromptBudget ctx ?a) b"
    using troubleshoot_ok [of args l env ctx] assms(1) by auto
  have pos: "0 < ResultLimit ctx" using assms(2) by (simp add: pipelineTroubleshootAssistantText_def)
  have p: "wfBuilder (NewPromptBudget ctx ?a)" "bCapped (NewPromptBudget ctx ?a)"
    "bLimit (NewPromptBudget ctx ?a) = ResultLimit ctx - int (length ?a)"
    using pos assms(2) by (auto simp: NewPromptBudget_def Scratch_def Let_def Remaining_def NewBuilderWithBudget_def wfBuilder_def Len_def)
  then have "int (length (bBuf b)) \<le> ResultLimit ctx - int (length ?a) + 31"
    using b(2) wfBuilder_Len_bound [of b] by (auto simp: sameBudget_def Len_def)
  then show ?thesis using b(1) assms(3) pos by (simp add: promptWithinLimit_def pipelineTroubleshootResult_def overResultLimit_def)
qed

text \<open>
  The notice that no failed step has logs is written only into an empty builder; the guide's is
  not empty any more when its logs are collected.
\<close>

lemma appendTaskBlock_Len:
  assumes "wfBuilder (fst w)" "appendTaskBlock header suffix f w = (ok, w')"
  shows "Len (fst w) \<le> Len (fst w') \<and> wfBuilder (fst w')"
proof -
  have wr: "Len (fst w) \<le> Len (snd (WriteString t (fst w)))" "wfBuilder (snd (WriteString t (fst w)))" for t
    using assms(1) by (simp_all add: WriteString_Len_mono)
  have cut: "Len (fst w) \<le> Len (the bo) \<and> wfBuilder (the bo)" if "WriteCut t c (Some (fst w)) = (r, bo)" for t c r bo
  proof -
    obtain q b where q: "WriteString t (fst w) = (q, b)" by (metis surj_pair)
    have "Len b \<le> Len (snd (WriteString ResultTruncationNotice b))" "wfBuilder (snd (WriteString ResultTruncationNotice b))"
      using wr [of t] q by (simp_all add: WriteString_Len_mono)
    then show ?thesis using that assms(1) wr [of t] q by (auto simp: WriteCut_def Let_def split: if_splits)
  qed
  show ?thesis using assms cut
    by (auto simp: appendTaskBlock_def Let_def split: if_splits prod.splits)
qed

lemma taskBlocks_Len:
  "wfBuilder (fst w) \<Longrightarrow> taskBlocks header suffix f trs w = (stopped, w') \<Longrightarrow> Len (fst w) \<le> Len (fst w')"
proof (induction trs arbitrary: w)
  case (Cons tr trs)
  obtain ok u where a: "appendTaskBlock (header tr) suffix (f tr) w = (ok, u)" by (metis surj_pair)
  from appendTaskBlock_Len [OF Cons.prems(1) a] Cons.IH [of u] Cons.prems(2) a show ?case by (cases ok) auto
qed simp

lemma no_logs_notice_unreachable:
  assumes "0 < Len (fst w)" "wfBuilder (fst w)" "trs \<noteq> []" "\<not> Truncated (fst w)"
    "taskBlocks (\<lambda>tr. ''### TaskRun: '' @ tkName tr @ [nl, nl]) [nl] (failedStepLogs env ns) trs w = (stopped, w')"
  shows "fetchPipelineRunLogsForPrompt env ns trs w = (if stopped \<and> \<not> Truncated (fst w') then writeText ResultTruncationNotice w' else w')"
  using assms taskBlocks_Len [OF assms(2,5)] by (simp add: fetchPipelineRunLogsForPrompt_def Let_def)

end
