(* ===== verification/Output.thy ===== *)
theory Output
  imports Go_Values "HOL-Library.List_Lexorder" "HOL-Library.Char_ord"
begin

text \<open>
  \<open>pkg/output/output.go\<close> and \<open>pkg/toolsets/core/apps.go\<close>: the text and the structured content that a
  tool makes of the objects it has read. The YAML encoder, the table printer and the accessors of
  unstructured objects are parameters.
\<close>

record tableRow =
  rwCells :: "goVal list"
  rwRaw :: "string option"
  rwObject :: "goMap option"

record kubeTable =
  tbColumns :: "string list"
  tbRows :: "tableRow list"

text \<open>
  \<open>oeList\<close> is the type switch on \<open>UnstructuredList\<close>, \<open>oeIsTable\<close> the comparison of the kind with
  that of a table, \<open>oeCreated\<close> the nanoseconds since an object was created.
\<close>

record outEnv =
  oeMarshal :: "goVal \<Rightarrow> string + string"
  oeList :: "goMap \<Rightarrow> goMap list option"
  oeNoManagedFields :: "goMap \<Rightarrow> goMap"
  oeIsTable :: "goMap \<Rightarrow> bool"
  oeTable :: "goMap \<Rightarrow> string + kubeTable"
  oeDecode :: "string \<Rightarrow> goMap option"
  oePrint :: "bool \<Rightarrow> goMap + kubeTable \<Rightarrow> string + string"
  oeName :: "goMap \<Rightarrow> string"
  oeNamespace :: "goMap \<Rightarrow> string"
  oeCreated :: "goMap \<Rightarrow> int option"
  oeLabels :: "goMap \<Rightarrow> (string \<times> string) list"
  oeAPIVersion :: "goMap \<Rightarrow> string"
  oeKind :: "goMap \<Rightarrow> string"
  oePhase :: "goMap \<Rightarrow> string option"

datatype outputFormat = YamlOutput | TableOutput

definition AsTable :: "outputFormat \<Rightarrow> bool" where
  "AsTable f \<longleftrightarrow> f = TableOutput"

definition formatName :: "outputFormat \<Rightarrow> string" where
  "formatName f = (case f of YamlOutput \<Rightarrow> ''yaml'' | TableOutput \<Rightarrow> ''table'')"

definition Outputs :: "outputFormat list" where
  "Outputs = [YamlOutput, TableOutput]"

definition FromString :: "string \<Rightarrow> outputFormat option" where
  "FromString name = find (\<lambda>f. formatName f = name) Outputs"

section \<open>YAML\<close>

text \<open>
  The managed fields are removed from the object itself, so that the structured content is
  without them too.
\<close>

definition MarshalYaml :: "outEnv \<Rightarrow> goMap \<Rightarrow> string + string" where
  "MarshalYaml env obj =
     (case oeList env obj of
        Some items \<Rightarrow> oeMarshal env (GList (map (GMap \<circ> oeNoManagedFields env) items))
      | None \<Rightarrow> oeMarshal env (GMap (oeNoManagedFields env obj)))"

definition printYaml :: "outEnv \<Rightarrow> goMap \<Rightarrow> string + string \<times> goVal" where
  "printYaml env obj =
     (case MarshalYaml env obj of
        Inl err \<Rightarrow> Inl err
      | Inr yaml \<Rightarrow>
          Inr (yaml,
            (case oeList env obj of
               Some items \<Rightarrow> GList (map (GMap \<circ> oeNoManagedFields env) items)
             | None \<Rightarrow> GMap (oeNoManagedFields env obj))))"

section \<open>Tables\<close>

text \<open>The rows with the objects decoded from their raw form; whether one of these has a namespace.\<close>

fun decodeRows :: "outEnv \<Rightarrow> bool \<Rightarrow> tableRow list \<Rightarrow> bool \<times> tableRow list" where
  "decodeRows env withNamespace [] = (withNamespace, [])"
| "decodeRows env withNamespace (row # rows) =
     (case (rwRaw row, rwObject row) of
        (Some raw, None) \<Rightarrow>
          let decoded = oeDecode env raw;
              withNamespace = (withNamespace \<or> (case decoded of Some obj \<Rightarrow> oeNamespace env obj \<noteq> [] | None \<Rightarrow> False))
          in apsnd (\<lambda>rows. row\<lparr>rwObject := decoded\<rparr> # rows) (decodeRows env withNamespace rows)
      | _ \<Rightarrow> apsnd (\<lambda>rows. row # rows) (decodeRows env withNamespace rows))"

definition printTable :: "outEnv \<Rightarrow> goMap \<Rightarrow> string + string \<times> kubeTable option" where
  "printTable env obj =
     (case (if oeIsTable env obj then oeTable env obj else Inl []) of
        Inr t \<Rightarrow>
          (case decodeRows env False (tbRows t) of
             (withNamespace, rows) \<Rightarrow>
               let t = t\<lparr>tbRows := rows\<rparr> in map_sum id (\<lambda>printed. (printed, Some t)) (oePrint env withNamespace (Inr t)))
      | Inl _ \<Rightarrow> map_sum id (\<lambda>printed. (printed, None)) (oePrint env False (Inl obj)))"

definition rowItem :: "outEnv \<Rightarrow> string list \<Rightarrow> tableRow \<Rightarrow> goMap" where
  "rowItem env cols row =
     (let item = fold (\<lambda>(col, cell). assocUpd col cell) (zip cols (rwCells row)) []
      in (case rwObject row of
            Some obj \<Rightarrow> if oeNamespace env obj \<noteq> [] then assocUpd ''Namespace'' (GStr (oeNamespace env obj)) item else item
          | None \<Rightarrow> item))"

definition tableToStructured :: "outEnv \<Rightarrow> kubeTable option \<Rightarrow> goMap list option" where
  "tableToStructured env t =
     (case t of
        None \<Rightarrow> None
      | Some t \<Rightarrow> if tbRows t = [] then None else Some (map (rowItem env (tbColumns t)) (tbRows t)))"

definition printAsTable :: "outEnv \<Rightarrow> goMap \<Rightarrow> string + string \<times> goVal" where
  "printAsTable env obj =
     (case printTable env obj of
        Inl err \<Rightarrow> Inl err
      | Inr (printed, t) \<Rightarrow>
          Inr (printed, (case tableToStructured env t of None \<Rightarrow> GNil | Some rows \<Rightarrow> GList (map GMap rows))))"

definition PrintObjStructured :: "outEnv \<Rightarrow> outputFormat \<Rightarrow> goMap \<Rightarrow> string + string \<times> goVal" where
  "PrintObjStructured env f obj = (case f of YamlOutput \<Rightarrow> printYaml env obj | TableOutput \<Rightarrow> printAsTable env obj)"

section \<open>Rows for the table app\<close>

definition appLabels :: "(string \<times> string) list \<Rightarrow> string" where
  "appLabels labels = goJoin '','' (map (\<lambda>(k, v). k @ ''='' @ v) (sort_key fst labels))"

text \<open>The age of an object; \<open>int\<close> of a float is the whole part, toward zero.\<close>

definition goSigned :: "int \<Rightarrow> string" where
  "goSigned n = (if n < 0 then CHR ''-'' # goItoa (nat (- n)) else goItoa (nat n))"

definition wholeUnits :: "int \<Rightarrow> int \<Rightarrow> int" where
  "wholeUnits d unit = (if d < 0 then - ((- d) div unit) else d div unit)"

definition appAge :: "int option \<Rightarrow> string" where
  "appAge created =
     (case created of
        None \<Rightarrow> []
      | Some d \<Rightarrow>
          let second = 10 ^ 9
          in if d < 60 * second then goSigned (wholeUnits d second) @ ''s''
             else if d < 3600 * second then goSigned (wholeUnits d (60 * second)) @ ''m''
             else if d < 24 * 3600 * second then goSigned (wholeUnits d (3600 * second)) @ ''h''
             else goSigned (wholeUnits d (24 * 3600 * second)) @ ''d'')"

definition appColumns :: goVal where
  "appColumns = GList (map GStr [''Name'', ''Namespace'', ''Status'', ''Age'', ''Labels'', ''apiVersion'', ''kind''])"

definition appRow :: "outEnv \<Rightarrow> goMap \<Rightarrow> goMap" where
  "appRow env item =
     [(''Name'', GStr (oeName env item))]
     @ (if oeNamespace env item = [] then [] else [(''Namespace'', GStr (oeNamespace env item))])
     @ [(''Age'', GStr (appAge (oeCreated env item))), (''Labels'', GStr (appLabels (oeLabels env item))),
        (''apiVersion'', GStr (oeAPIVersion env item)), (''kind'', GStr (oeKind env item))]
     @ (case oePhase env item of Some phase \<Rightarrow> [(''Status'', GStr phase)] | None \<Rightarrow> [])"

definition isRows :: "goVal \<Rightarrow> bool" where
  "isRows v = (case v of GList vs \<Rightarrow> list_all (\<lambda>v. case v of GMap _ \<Rightarrow> True | _ \<Rightarrow> False) vs | _ \<Rightarrow> False)"

definition tableAppStructured :: "outEnv \<Rightarrow> goMap \<Rightarrow> goVal \<Rightarrow> goVal" where
  "tableAppStructured env ret structured =
     (case oeList env ret of
        None \<Rightarrow> GMap [(''columns'', appColumns), (''items'', if isRows structured then structured else GList [])]
      | Some items \<Rightarrow> GMap [(''columns'', appColumns), (''items'', GList (map (GMap \<circ> appRow env) items))])"

section \<open>What the printed content keeps\<close>

text \<open>The cells of a table reach the structured content under the names of their columns.\<close>

lemma fold_assocUpd:
  "map_of (fold (\<lambda>(col, cell). assocUpd col cell) ps m) = map_of m ++ map_of (rev ps)"
  by (induction ps arbitrary: m) (auto simp: map_of_assocUpd)

lemma cells_are_kept:
  assumes "distinct cols" "i < length cols" "i < length (rwCells row)" "cols ! i \<noteq> ''Namespace''"
  shows "map_of (rowItem env cols row) (cols ! i) = Some (rwCells row ! i)"
proof -
  have "(cols ! i, rwCells row ! i) \<in> set (zip cols (rwCells row))" using assms(2,3) by (auto simp: set_zip)
  moreover have "distinct (map fst (rev (zip cols (rwCells row))))" using assms(1) by (simp add: rev_map [symmetric] map_fst_zip_take)
  ultimately have "map_of (rev (zip cols (rwCells row))) (cols ! i) = Some (rwCells row ! i)" by simp
  then show ?thesis using assms(4) by (auto simp: rowItem_def Let_def fold_assocUpd map_of_assocUpd split: option.splits)
qed

lemma FromString_Outputs: "FromString n = Some f \<longleftrightarrow> formatName f = n"
  by (cases f) (auto simp: FromString_def Outputs_def formatName_def split: outputFormat.splits)

end
