(* ===== verification/Pod_Ops.thy ===== *)
theory Pod_Ops
  imports Core_Resources Response_Limit Output
begin

text \<open>
  \<open>pkg/kubernetes/pods.go\<close>, \<open>nodes.go\<close>, \<open>events.go\<close> and \<open>namespaces.go\<close>: the operations on pods,
  nodes, events and namespaces. They use the generic operations and, beside them, typed clients,
  the log, exec and node proxy endpoints and the metrics API. All requests of a call are in one
  log, in the order in which they are sent, and every answer of the API server may depend on the
  requests before it.
\<close>

section \<open>Requests\<close>

datatype podOp =
    Api apiOp
  | PodLogs string string string bool int "int option"
  | PodExec string string string "string list"
  | NodeProxy string "(string \<times> string) list"

text \<open>What the operations read of a typed pod.\<close>

record podObject =
  poContainers :: "string list"
  poAnnotations :: "string \<rightharpoonup> string"
  poPhase :: string

type_synonym labelSet = "(string \<times> string) list"

text \<open>The objects that \<open>PodsRun\<close> builds: name, namespace, labels and what else is set in them.\<close>

datatype runObject =
    RunPod string string labelSet string "int option"
  | RunService string string labelSet int
  | RunRoute string string labelSet int

record containerUsage =
  cuCPU :: string
  cuMemory :: string

record podMetrics =
  pmtNamespace :: string
  pmtName :: string
  pmtContainers :: "containerUsage list"

record nodeMetrics =
  nmtName :: string
  nmtUsage :: containerUsage

record eventObject =
  eoNamespace :: string
  eoType :: string
  eoReason :: string
  eoMessage :: string
  eoCount :: int
  eoEventTime :: "string option"
  eoSeriesTime :: "string option"
  eoLastTime :: string
  eoFirstTime :: string
  eoAPIVersion :: string
  eoKind :: string
  eoName :: string

text \<open>
  The environment: the generic operations' own (of which only the answers are replaced), the
  answers of the API server on every endpoint, and the conversions of \<open>client-go\<close>.
\<close>

record podEnv =
  peCore :: coreEnv
  peOut :: outEnv
  peAnswer :: "podOp list \<Rightarrow> apiOp \<Rightarrow> kubeFault + kubeObject"
  peStream :: "podOp list \<Rightarrow> podOp \<Rightarrow> kubeFault + event list"
  peProxy :: "podOp list \<Rightarrow> podOp \<Rightarrow> kubeFault + string"
  peExecutor :: "podOp \<Rightarrow> string option"
  peExec :: "podOp list \<Rightarrow> podOp \<Rightarrow> (bool \<times> string) list \<times> string option"
  peIoText :: "ioErr \<Rightarrow> string"
  pePod :: "kubeObject \<Rightarrow> podObject"
  peLabels :: "kubeObject \<Rightarrow> string \<rightharpoonup> string"
  peItems :: "kubeObject \<Rightarrow> kubeObject list"
  peNameOf :: "kubeObject \<Rightarrow> string"
  peSelector :: "labelSet \<Rightarrow> string"
  peRandom :: string
  peUnstructured :: "runObject \<Rightarrow> string + kubeObject"
  peBackendLimit :: "int option"
  pePodMetrics :: "kubeObject \<Rightarrow> string + podMetrics list"
  pePodMetric :: "kubeObject \<Rightarrow> string + podMetrics list"
  peNodeMetrics :: "kubeObject \<Rightarrow> string + nodeMetrics list"
  peNodeMetric :: "kubeObject \<Rightarrow> string + nodeMetrics list"
  peEvent :: "kubeObject \<Rightarrow> string + eventObject"
  pePage :: "kubeObject \<Rightarrow> (string \<times> int option) option"

record podState =
  psMapper :: "kindMap option"
  psLog :: "podOp list"

text \<open>A generic operation runs on the state so far, its requests added to the log.\<close>

definition coreAt :: "podEnv \<Rightarrow> podOp list \<Rightarrow> coreEnv" where
  "coreAt env l = (peCore env)\<lparr>ceAnswer := (\<lambda>sent op. peAnswer env (l @ map Api sent) op)\<rparr>"

definition inCore :: "podEnv \<Rightarrow> (coreEnv \<Rightarrow> coreState \<Rightarrow> 'r \<times> coreState) \<Rightarrow> podState \<Rightarrow> 'r \<times> podState" where
  "inCore env f s =
     (case f (coreAt env (psLog s)) \<lparr>csMapper = psMapper s, csLog = []\<rparr> of
        (r, c) \<Rightarrow> (r, \<lparr>psMapper = csMapper c, psLog = psLog s @ map Api (csLog c)\<rparr>))"

text \<open>A request of a typed client.\<close>

definition callApi :: "podEnv \<Rightarrow> apiOp \<Rightarrow> podState \<Rightarrow> (kubeFault + kubeObject) \<times> podState" where
  "callApi env op s = (peAnswer env (psLog s) op, s\<lparr>psLog := psLog s @ [Api op]\<rparr>)"

definition logOp :: "podOp \<Rightarrow> podState \<Rightarrow> podState" where
  "logOp op s = s\<lparr>psLog := psLog s @ [op]\<rparr>"

datatype podErr =
    CoreErr coreErr | ApiErr kubeFault | ReadErr string | ConvertErr string | ExecutorErr string | StreamErr string
  | CompletedPod string | NoMetricsAPI | BackendLimitErr ioErr
  | PodMetricErr string string kubeFault | PodMetricsErr string kubeFault | NodeMetricErr string kubeFault | NodeMetricsErr kubeFault
  | NodeErr string kubeFault | NodeLogErr kubeFault | NodeStatsErr kubeFault

section \<open>Resources\<close>

definition coreGVR :: "string \<Rightarrow> groupVersionResource" where
  "coreGVR r = \<lparr>gvrGroup = [], gvrVersion = ''v1'', gvrResource = r\<rparr>"

definition coreGVK :: "string \<Rightarrow> groupVersionKind" where
  "coreGVK k = \<lparr>gvkGroup = [], gvkVersion = ''v1'', gvkKind = k\<rparr>"

definition routeGVR :: groupVersionResource where
  "routeGVR = \<lparr>gvrGroup = ''route.openshift.io'', gvrVersion = ''v1'', gvrResource = ''routes''\<rparr>"

definition metricsGVR :: "string \<Rightarrow> groupVersionResource" where
  "metricsGVR r = \<lparr>gvrGroup = ''metrics.k8s.io'', gvrVersion = ''v1beta1'', gvrResource = r\<rparr>"

definition projectGVK :: groupVersionKind where
  "projectGVK = \<lparr>gvkGroup = ''project.openshift.io'', gvkVersion = ''v1'', gvkKind = ''Project''\<rparr>"

definition noOptions :: listOptions where
  "noOptions = \<lparr>loLimit = 0, loContinue = [], loLabelSelector = [], loFieldSelector = []\<rparr>"

definition supportsGroupVersion :: "podEnv \<Rightarrow> string \<Rightarrow> bool" where
  "supportsGroupVersion env gv \<longleftrightarrow> \<not> isl (ceDiscovery (peCore env) gv)"

definition podNamespace :: "podEnv \<Rightarrow> string \<Rightarrow> string" where
  "podNamespace env ns = NamespaceOrDefault (peCore env) ns"

section \<open>Pods\<close>

definition DefaultTailLines :: int where "DefaultTailLines = 100"

definition DefaultContainerAnnotation :: string where
  "DefaultContainerAnnotation = ''kubectl.kubernetes.io/default-container''"

definition resolveContainer :: "podObject \<Rightarrow> string \<Rightarrow> string" where
  "resolveContainer pod container =
     (if container \<noteq> [] then container
      else (case poContainers pod of
          [c] \<Rightarrow> c
        | cs \<Rightarrow>
            (case poAnnotations pod DefaultContainerAnnotation of
               Some d \<Rightarrow> if d \<noteq> [] then d else (case cs of c # _ \<Rightarrow> c | [] \<Rightarrow> [])
             | None \<Rightarrow> (case cs of c # _ \<Rightarrow> c | [] \<Rightarrow> []))))"

type_synonym 'a podCall = "podState \<Rightarrow> (podErr + 'a) \<times> podState"

definition inCoreErr :: "podEnv \<Rightarrow> (coreEnv \<Rightarrow> coreState \<Rightarrow> (coreErr + 'a) \<times> coreState) \<Rightarrow> 'a podCall" where
  "inCoreErr env f s = (case inCore env f s of (r, s) \<Rightarrow> (map_sum CoreErr id r, s))"

definition PodsListInAllNamespaces :: "podEnv \<Rightarrow> bool \<Rightarrow> listOptions \<Rightarrow> kubeObject podCall" where
  "PodsListInAllNamespaces env asTable opts = inCoreErr env (\<lambda>c. ResourcesList c (coreGVK ''Pod'') [] asTable opts)"

definition PodsListInNamespace :: "podEnv \<Rightarrow> string \<Rightarrow> bool \<Rightarrow> listOptions \<Rightarrow> kubeObject podCall" where
  "PodsListInNamespace env ns asTable opts = inCoreErr env (\<lambda>c. ResourcesList c (coreGVK ''Pod'') ns asTable opts)"

definition PodsGet :: "podEnv \<Rightarrow> string \<Rightarrow> string \<Rightarrow> kubeObject podCall" where
  "PodsGet env ns name = inCoreErr env (\<lambda>c. ResourcesGet c (coreGVK ''Pod'') (podNamespace env ns) name)"

definition BinaryName :: string where "BinaryName = ''kubernetes-mcp-server''"
definition AppKubernetesComponent :: string where "AppKubernetesComponent = ''app.kubernetes.io/component''"
definition AppKubernetesManagedBy :: string where "AppKubernetesManagedBy = ''app.kubernetes.io/managed-by''"
definition AppKubernetesName :: string where "AppKubernetesName = ''app.kubernetes.io/name''"
definition AppKubernetesPartOf :: string where "AppKubernetesPartOf = ''app.kubernetes.io/part-of''"

definition labelValue :: "(string \<rightharpoonup> string) \<Rightarrow> string \<Rightarrow> string" where
  "labelValue labels k = (case labels k of None \<Rightarrow> [] | Some v \<Rightarrow> v)"

definition managedLabels :: "(string \<rightharpoonup> string) \<Rightarrow> labelSet" where
  "managedLabels labels =
     [(AppKubernetesManagedBy, BinaryName), (AppKubernetesName, labelValue labels AppKubernetesName)]"

fun deleteAll :: "podEnv \<Rightarrow> groupVersionResource \<Rightarrow> string \<Rightarrow> kubeObject list \<Rightarrow> podState \<Rightarrow> podState" where
  "deleteAll env gvr ns [] s = s"
| "deleteAll env gvr ns (obj # objs) s =
     deleteAll env gvr ns objs (snd (callApi env (OpDelete gvr ns (peNameOf env obj) None) s))"

text \<open>The objects under the selector are listed and deleted; errors of both are ignored.\<close>

definition deleteSelected :: "podEnv \<Rightarrow> groupVersionResource \<Rightarrow> string \<Rightarrow> labelSet \<Rightarrow> podState \<Rightarrow> podState" where
  "deleteSelected env gvr ns sel s =
     (case callApi env (OpList gvr ns (noOptions\<lparr>loLabelSelector := peSelector env sel\<rparr>)) s of
        (Inl _, s) \<Rightarrow> s
      | (Inr l, s) \<Rightarrow> deleteAll env gvr ns (peItems env l) s)"

definition PodsDelete :: "podEnv \<Rightarrow> string \<Rightarrow> string \<Rightarrow> string podCall" where
  "PodsDelete env ns name s =
     (let ns = podNamespace env ns
      in (case inCoreErr env (\<lambda>c. ResourcesGet c (coreGVK ''Pod'') ns name) s of
            (Inl err, s) \<Rightarrow> (Inl err, s)
          | (Inr pod, s) \<Rightarrow>
              let labels = peLabels env pod;
                  isManaged = (labelValue labels AppKubernetesManagedBy = BinaryName);
                  sel = managedLabels labels;
                  s = (if isManaged then deleteSelected env (coreGVR ''services'') ns sel s else s);
                  s = (if isManaged \<and> supportsGroupVersion env ''route.openshift.io/v1'' then deleteSelected env routeGVR ns sel s else s)
              in (case inCoreErr env (\<lambda>c. ResourcesDelete c (coreGVK ''Pod'') ns name None) s of
                    (Inl err, s) \<Rightarrow> (Inl err, s)
                  | (Inr _, s) \<Rightarrow> (Inr ''Pod deleted successfully'', s))))"

text \<open>The container of a log: the given one, or the one of the pod, which is then read.\<close>

definition logContainer :: "podEnv \<Rightarrow> string \<Rightarrow> string \<Rightarrow> string \<Rightarrow> string podCall" where
  "logContainer env ns name container s =
     (if container \<noteq> [] then (Inr container, s)
      else (case callApi env (OpGet (coreGVR ''pods'') ns name []) s of
          (Inl err, s) \<Rightarrow> (Inl (ApiErr err), s)
        | (Inr pod, s) \<Rightarrow> (Inr (resolveContainer (pePod env pod) []), s)))"

definition PodsLogLimited :: "podEnv \<Rightarrow> string \<Rightarrow> string \<Rightarrow> string \<Rightarrow> bool \<Rightarrow> int \<Rightarrow> int \<Rightarrow> string podCall" where
  "PodsLogLimited env ns name container previous tail maxBytes s =
     (let ns = podNamespace env ns
      in (case logContainer env ns name container s of
            (Inl err, s) \<Rightarrow> (Inl err, s)
          | (Inr container, s) \<Rightarrow>
              let op = PodLogs ns name container previous (if tail > 0 then tail else DefaultTailLines)
                         (if maxBytes > 0 then Some maxBytes else None)
              in (case peStream env (psLog s) op of
                    Inl err \<Rightarrow> (Inl (ApiErr err), logOp op s)
                  | Inr stream \<Rightarrow>
                      (map_sum (\<lambda>e. ReadErr (peIoText env e)) id
                         (if maxBytes \<le> 0 then readAllStream stream else readAllLimited (nat maxBytes) stream), logOp op s))))"

definition PodsLog :: "podEnv \<Rightarrow> string \<Rightarrow> string \<Rightarrow> string \<Rightarrow> bool \<Rightarrow> int \<Rightarrow> string podCall" where
  "PodsLog env ns name container previous tail = PodsLogLimited env ns name container previous tail 0"

definition runLabels :: "string \<Rightarrow> labelSet" where
  "runLabels name =
     [(AppKubernetesName, name), (AppKubernetesComponent, name), (AppKubernetesManagedBy, BinaryName),
      (AppKubernetesPartOf, BinaryName @ ''-run-sandbox'')]"

definition runObjects :: "podEnv \<Rightarrow> string \<Rightarrow> string \<Rightarrow> string \<Rightarrow> int \<Rightarrow> runObject list" where
  "runObjects env ns name img port =
     (let name = (if name = [] then BinaryName @ ''-run-'' @ peRandom env else name);
          labels = runLabels name; ns = podNamespace env ns
      in [RunPod name ns labels img (if port > 0 then Some port else None)]
         @ (if port > 0 then [RunService name ns labels port] else [])
         @ (if port > 0 \<and> supportsGroupVersion env ''route.openshift.io/v1'' then [RunRoute name ns labels port] else []))"

fun toUnstructured :: "podEnv \<Rightarrow> runObject list \<Rightarrow> podErr + kubeObject list" where
  "toUnstructured env [] = Inr []"
| "toUnstructured env (r # rs) =
     (case peUnstructured env r of
        Inl err \<Rightarrow> Inl (ConvertErr err)
      | Inr u \<Rightarrow> map_sum id (\<lambda>us. u # us) (toUnstructured env rs))"

definition PodsRun :: "podEnv \<Rightarrow> string \<Rightarrow> string \<Rightarrow> string \<Rightarrow> int \<Rightarrow> kubeObject list podCall" where
  "PodsRun env ns name img port s =
     (case toUnstructured env (runObjects env ns name img port) of
        Inl err \<Rightarrow> (Inl err, s)
      | Inr toCreate \<Rightarrow> inCoreErr env (\<lambda>c. resourcesCreateOrUpdate c toCreate) s)"

definition PodsTop :: "podEnv \<Rightarrow> bool \<Rightarrow> string \<Rightarrow> string \<Rightarrow> listOptions \<Rightarrow> (podMetrics list \<times> (string \<times> int option) option) podCall" where
  "PodsTop env allNamespaces ns name opts s =
     (if \<not> supportsGroupVersion env ''metrics.k8s.io/v1beta1'' then (Inl NoMetricsAPI, s)
      else let ns = (if allNamespaces \<and> ns = [] then [] else podNamespace env ns)
        in if name \<noteq> [] then
             (case callApi env (OpGet (metricsGVR ''pods'') ns name []) s of
                (Inl err, s) \<Rightarrow> (Inl (PodMetricErr ns name err), s)
              | (Inr m, s) \<Rightarrow> (map_sum ConvertErr (\<lambda>ms. (ms, Some ([], None))) (pePodMetric env m), s))
           else
             (case callApi env (OpList (metricsGVR ''pods'') ns opts) s of
                (Inl err, s) \<Rightarrow> (Inl (PodMetricsErr ns err), s)
              | (Inr l, s) \<Rightarrow> (map_sum ConvertErr (\<lambda>ms. (ms, pePage env l)) (pePodMetrics env l), s)))"

text \<open>
  The execution of a command: the writes of the two streams and the error of the stream go to
  the output that bounds them together.
\<close>

definition runExec :: "podEnv \<Rightarrow> int \<Rightarrow> podOp \<Rightarrow> podState \<Rightarrow> (podErr + string \<times> string) \<times> podState" where
  "runExec env limit op s =
     (case peExec env (psLog s) op of
        (writes, err) \<Rightarrow>
          (case finishExec err (fold (\<lambda>w o1. snd (execWrite (fst w) (snd w) o1)) writes (newExecOutput limit)) of
             (stdout, stderr, None) \<Rightarrow> (Inr (stdout, stderr), logOp op s)
           | (_, _, Some e) \<Rightarrow> (Inl (StreamErr e), logOp op s)))"

definition PodsExec :: "podEnv \<Rightarrow> string \<Rightarrow> string \<Rightarrow> string \<Rightarrow> string list \<Rightarrow> (string \<times> string) podCall" where
  "PodsExec env ns name container command s =
     (case BackendLimit (peBackendLimit env) of
        Inl err \<Rightarrow> (Inl (BackendLimitErr err), s)
      | Inr limit \<Rightarrow>
          let ns = podNamespace env ns
          in (case callApi env (OpGet (coreGVR ''pods'') ns name []) s of
                (Inl err, s) \<Rightarrow> (Inl (ApiErr err), s)
              | (Inr obj, s) \<Rightarrow>
                  let pod = pePod env obj
                  in if poPhase pod = ''Succeeded'' \<or> poPhase pod = ''Failed'' then (Inl (CompletedPod (poPhase pod)), s)
                     else let op = PodExec ns name (resolveContainer pod container) command
                       in (case peExecutor env op of
                             Some err \<Rightarrow> (Inl (ExecutorErr err), s)
                           | None \<Rightarrow> runExec env limit op s)))"

section \<open>Nodes\<close>

definition nodeExists :: "podEnv \<Rightarrow> string \<Rightarrow> unit podCall" where
  "nodeExists env name s =
     (case callApi env (OpGet (coreGVR ''nodes'') [] name []) s of
        (Inl err, s) \<Rightarrow> (Inl (NodeErr name err), s)
      | (Inr _, s) \<Rightarrow> (Inr (), s))"

definition NodesLog :: "podEnv \<Rightarrow> string \<Rightarrow> string \<Rightarrow> int \<Rightarrow> string podCall" where
  "NodesLog env name query tailLines s =
     (case nodeExists env name s of
        (Inl err, s) \<Rightarrow> (Inl err, s)
      | (Inr _, s) \<Rightarrow>
          let op = NodeProxy (absPath [''api'', ''v1'', ''nodes'', name, ''proxy'', ''logs''])
                     ((''query'', query) # (if tailLines > 0 then [(''tailLines'', goItoa (nat tailLines))] else []))
          in (map_sum NodeLogErr id (peProxy env (psLog s) op), logOp op s))"

definition NodesStatsSummary :: "podEnv \<Rightarrow> string \<Rightarrow> string podCall" where
  "NodesStatsSummary env name s =
     (case nodeExists env name s of
        (Inl err, s) \<Rightarrow> (Inl err, s)
      | (Inr _, s) \<Rightarrow>
          let op = NodeProxy (absPath [''api'', ''v1'', ''nodes'', name, ''proxy'', ''stats'', ''summary'']) []
          in (map_sum NodeStatsErr id (peProxy env (psLog s) op), logOp op s))"

definition NodesTop :: "podEnv \<Rightarrow> string \<Rightarrow> listOptions \<Rightarrow> (nodeMetrics list \<times> (string \<times> int option) option) podCall" where
  "NodesTop env name opts s =
     (if \<not> supportsGroupVersion env ''metrics.k8s.io/v1beta1'' then (Inl NoMetricsAPI, s)
      else if name \<noteq> [] then
        (case callApi env (OpGet (metricsGVR ''nodes'') [] name []) s of
           (Inl err, s) \<Rightarrow> (Inl (NodeMetricErr name err), s)
         | (Inr m, s) \<Rightarrow> (map_sum ConvertErr (\<lambda>ms. (ms, Some ([], None))) (peNodeMetric env m), s))
      else
        (case callApi env (OpList (metricsGVR ''nodes'') [] opts) s of
           (Inl err, s) \<Rightarrow> (Inl (NodeMetricsErr err), s)
         | (Inr l, s) \<Rightarrow> (map_sum ConvertErr (\<lambda>ms. (ms, pePage env l)) (peNodeMetrics env l), s)))"

section \<open>Events and namespaces\<close>

definition listMeta :: "podEnv \<Rightarrow> kubeObject \<Rightarrow> string \<times> int option" where
  "listMeta env obj = (case pePage env obj of None \<Rightarrow> ([], None) | Some p \<Rightarrow> p)"

definition eventTimestamp :: "eventObject \<Rightarrow> string" where
  "eventTimestamp e =
     (case eoEventTime e of
        Some t \<Rightarrow> t
      | None \<Rightarrow>
          (case eoSeriesTime e of
             Some t \<Rightarrow> t
           | None \<Rightarrow> if eoCount e > 1 then eoLastTime e else eoFirstTime e))"

definition eventRow :: "eventObject \<Rightarrow> goMap" where
  "eventRow e =
     [(''Namespace'', GStr (eoNamespace e)), (''Timestamp'', GStr (eventTimestamp e)), (''Type'', GStr (eoType e)),
      (''Reason'', GStr (eoReason e)),
      (''InvolvedObject'', GMap [(''apiVersion'', GStr (eoAPIVersion e)), (''Kind'', GStr (eoKind e)), (''Name'', GStr (eoName e))]),
      (''Message'', GStr (trimSpace (eoMessage e)))]"

fun eventRows :: "podEnv \<Rightarrow> kubeObject list \<Rightarrow> podErr + goMap list" where
  "eventRows env [] = Inr []"
| "eventRows env (item # items) =
     (case peEvent env item of
        Inl err \<Rightarrow> Inl (ConvertErr err)
      | Inr e \<Rightarrow> map_sum id (\<lambda>rows. eventRow e # rows) (eventRows env items))"

definition EventsList :: "podEnv \<Rightarrow> string \<Rightarrow> listOptions \<Rightarrow> (goMap list \<times> string \<times> int option) podCall" where
  "EventsList env ns opts s =
     (case inCoreErr env (\<lambda>c. ResourcesList c (coreGVK ''Event'') ns False opts) s of
        (Inl err, s) \<Rightarrow> (Inl err, s)
      | (Inr raw, s) \<Rightarrow>
          (case oeList (peOut env) raw of
             None \<Rightarrow> (Inr ([], listMeta env raw), s)
           | Some items \<Rightarrow> (map_sum id (\<lambda>rows. (rows, listMeta env raw)) (eventRows env items), s)))"

definition NamespacesList :: "podEnv \<Rightarrow> bool \<Rightarrow> listOptions \<Rightarrow> kubeObject podCall" where
  "NamespacesList env asTable opts = inCoreErr env (\<lambda>c. ResourcesList c (coreGVK ''Namespace'') [] asTable opts)"

definition ProjectsList :: "podEnv \<Rightarrow> bool \<Rightarrow> listOptions \<Rightarrow> kubeObject podCall" where
  "ProjectsList env asTable opts = inCoreErr env (\<lambda>c. ResourcesList c projectGVK [] asTable opts)"

end
