(* ===== verification/Core_Tools.thy ===== *)
theory Core_Tools
  imports Pod_Ops Tool_Requests
begin

text \<open>
  The pod, node, event and namespace tools of \<open>pkg/toolsets/core\<close>: their handlers, from the
  arguments of a call to the text and structured content of its result, and their declarations.
\<close>

section \<open>Handlers\<close>

record nodeObject =
  ndName :: string
  ndAllocatable :: "(string \<times> string) list option"
  ndSwap :: "int option"

text \<open>
  The operations' environment, the output format of lists, the printers of the metrics commands,
  quantities (their sum and the text of a swap capacity) and typed nodes.
\<close>

record coreToolEnv =
  ctPods :: podEnv
  ctFormat :: outputFormat
  ctPodTop :: "podMetrics list \<Rightarrow> string + string"
  ctNodeTop :: "nodeMetrics list \<Rightarrow> (string \<times> (string \<times> string) list) list \<Rightarrow> string + string"
  ctAddQuantity :: "string \<Rightarrow> string \<Rightarrow> string"
  ctBinary :: "int \<Rightarrow> string"
  ctNode :: "kubeObject \<Rightarrow> nodeObject"

datatype toolFail =
    BadArgument paramErr | PageFail coreErr | OpFail podErr | RetryFail podErr | RenderFail string
  | BadCommand | MissingArg string | NodeGetFail string kubeFault | NodeListFail bool kubeFault | NilMapPanic

type_synonym toolOutcome = "toolFail + string \<times> goVal"

abbreviation ctCore :: "coreToolEnv \<Rightarrow> coreEnv" where "ctCore env \<equiv> peCore (ctPods env)"
abbreviation ctOut :: "coreToolEnv \<Rightarrow> outEnv" where "ctOut env \<equiv> peOut (ctPods env)"

text \<open>\<open>ListErr\<close> on the errors of the pod operations, which wrap the error of the request.\<close>

definition faultTooLarge :: "kubeFault \<Rightarrow> bool" where
  "faultTooLarge f = (case f of ResponseTooLarge _ \<Rightarrow> True | _ \<Rightarrow> False)"

definition responseTooLarge :: "podErr \<Rightarrow> bool" where
  "responseTooLarge err =
     (case err of
        CoreErr (ServerErr f) \<Rightarrow> faultTooLarge f
      | ApiErr f \<Rightarrow> faultTooLarge f
      | PodMetricErr _ _ f \<Rightarrow> faultTooLarge f
      | PodMetricsErr _ f \<Rightarrow> faultTooLarge f
      | NodeMetricErr _ f \<Rightarrow> faultTooLarge f
      | NodeMetricsErr f \<Rightarrow> faultTooLarge f
      | _ \<Rightarrow> False)"

definition listFail :: "podErr \<Rightarrow> toolFail" where
  "listFail err = (if responseTooLarge err then RetryFail err else OpFail err)"

definition WithListPage :: "string \<Rightarrow> goVal \<Rightarrow> (string \<times> int option) option \<Rightarrow> string \<times> goVal" where
  "WithListPage printed structured page =
     (case page of
        None \<Rightarrow> (printed, structured)
      | Some (cont, remaining) \<Rightarrow> attachContinue goSigned printed structured cont remaining)"

text \<open>The page of a list: the selectors, then limit and continue token.\<close>

definition pageOptions :: "coreToolEnv \<Rightarrow> params \<Rightarrow> string \<Rightarrow> string \<Rightarrow> toolFail + listOptions" where
  "pageOptions env p label field =
     map_sum PageFail id (ApplyListPage (ctCore env) p (noOptions\<lparr>loLabelSelector := label, loFieldSelector := field\<rparr>))"

definition renderList :: "coreToolEnv \<Rightarrow> kubeObject \<Rightarrow> toolOutcome" where
  "renderList env ret =
     (case PrintObjStructured (ctOut env) (ctFormat env) ret of
        Inl err \<Rightarrow> Inl (RenderFail err)
      | Inr (printed, structured) \<Rightarrow> Inr (WithListPage printed (tableAppStructured (ctOut env) ret structured) (pePage (ctPods env) ret)))"

definition listed :: "coreToolEnv \<Rightarrow> kubeObject podCall \<Rightarrow> podState \<Rightarrow> toolOutcome \<times> podState" where
  "listed env call s =
     (case call s of
        (Inl err, s) \<Rightarrow> (Inl (listFail err), s)
      | (Inr ret, s) \<Rightarrow> (renderList env ret, s))"

definition podsListInAllNamespaces :: "coreToolEnv \<Rightarrow> arguments \<Rightarrow> podState \<Rightarrow> toolOutcome \<times> podState" where
  "podsListInAllNamespaces env args s =
     (let (label, p) = pOptionalString ''labelSelector'' [] (WrapParams args); (field, p) = pOptionalString ''fieldSelector'' [] p
      in (case pageOptions env p label field of
            Inl err \<Rightarrow> (Inl err, s)
          | Inr opts \<Rightarrow> listed env (PodsListInAllNamespaces (ctPods env) (AsTable (ctFormat env)) opts) s))"

definition podsListInNamespace :: "coreToolEnv \<Rightarrow> arguments \<Rightarrow> podState \<Rightarrow> toolOutcome \<times> podState" where
  "podsListInNamespace env args s =
     (let (ns, p) = pRequiredString ''namespace'' (WrapParams args); (label, p) = pOptionalString ''labelSelector'' [] p;
          (field, p) = pOptionalString ''fieldSelector'' [] p
      in (case pageOptions env p label field of
            Inl err \<Rightarrow> (Inl err, s)
          | Inr opts \<Rightarrow> listed env (PodsListInNamespace (ctPods env) ns (AsTable (ctFormat env)) opts) s))"

definition plainText :: "string \<Rightarrow> string \<times> goVal" where
  "plainText t = (t, GNil)"

text \<open>The namespace and name that most pod tools begin with.\<close>

definition namespaceAndName :: "arguments \<Rightarrow> string \<times> string \<times> params" where
  "namespaceAndName args =
     (let (ns, p) = pOptionalString ''namespace'' [] (WrapParams args); (name, p) = pRequiredString ''name'' p in (ns, name, p))"

definition podsGet :: "coreToolEnv \<Rightarrow> arguments \<Rightarrow> podState \<Rightarrow> toolOutcome \<times> podState" where
  "podsGet env args s =
     (let (ns, name, p) = namespaceAndName args
      in (case pErr p of
            Some err \<Rightarrow> (Inl (BadArgument err), s)
          | None \<Rightarrow>
              (case PodsGet (ctPods env) ns name s of
                 (Inl err, s) \<Rightarrow> (Inl (OpFail err), s)
               | (Inr ret, s) \<Rightarrow> (map_sum RenderFail id (printYaml (ctOut env) ret), s))))"

definition podsDelete :: "coreToolEnv \<Rightarrow> arguments \<Rightarrow> podState \<Rightarrow> toolOutcome \<times> podState" where
  "podsDelete env args s =
     (let (ns, name, p) = namespaceAndName args
      in (case pErr p of
            Some err \<Rightarrow> (Inl (BadArgument err), s)
          | None \<Rightarrow>
              (case PodsDelete (ctPods env) ns name s of
                 (Inl err, s) \<Rightarrow> (Inl (OpFail err), s)
               | (Inr ret, s) \<Rightarrow> (Inr (plainText ret), s))))"

definition podTopRow :: "coreToolEnv \<Rightarrow> podMetrics \<Rightarrow> goVal" where
  "podTopRow env pod =
     GMap [(''Namespace'', GStr (pmtNamespace pod)), (''Name'', GStr (pmtName pod)),
           (''CPU'', GStr (fold (\<lambda>c q. ctAddQuantity env q (cuCPU c)) (pmtContainers pod) ''0'')),
           (''Memory'', GStr (fold (\<lambda>c q. ctAddQuantity env q (cuMemory c)) (pmtContainers pod) ''0''))]"

definition topTable :: "string list \<Rightarrow> goVal list \<Rightarrow> goVal" where
  "topTable cols items = GMap [(''columns'', GList (map GStr cols)), (''items'', GList items)]"

definition podsTop :: "coreToolEnv \<Rightarrow> arguments \<Rightarrow> podState \<Rightarrow> toolOutcome \<times> podState" where
  "podsTop env args s =
     (let (allNamespaces, p) = pOptionalBool ''all_namespaces'' True (WrapParams args);
          (ns, p) = pOptionalString ''namespace'' [] p; (name, p) = pOptionalString ''name'' [] p;
          (label, p) = pOptionalString ''label_selector'' [] p
      in (case pageOptions env p label [] of
            Inl err \<Rightarrow> (Inl err, s)
          | Inr opts \<Rightarrow>
              (case PodsTop (ctPods env) allNamespaces ns name opts s of
                 (Inl err, s) \<Rightarrow> (Inl (listFail err), s)
               | (Inr (items, page), s) \<Rightarrow>
                   (case ctPodTop env items of
                      Inl err \<Rightarrow> (Inl (RenderFail err), s)
                    | Inr printed \<Rightarrow>
                        (Inr (WithListPage printed (topTable [''Namespace'', ''Name'', ''CPU'', ''Memory''] (map (podTopRow env) items)) page), s)))))"

fun commandStrings :: "goVal list \<Rightarrow> string list option" where
  "commandStrings [] = Some []"
| "commandStrings (v # vs) = (case v of GStr c \<Rightarrow> map_option (\<lambda>cs. c # cs) (commandStrings vs) | _ \<Rightarrow> None)"

definition commandOf :: "arguments \<Rightarrow> string list option" where
  "commandOf args = (case args ''command'' of Some (GList vs) \<Rightarrow> commandStrings vs | _ \<Rightarrow> None)"

text \<open>Stdout if there is any, else stderr, else a notice.\<close>

definition execAnswer :: "string \<Rightarrow> string \<Rightarrow> string \<times> string \<Rightarrow> string" where
  "execAnswer name ns out =
     (if fst out \<noteq> [] then fst out else if snd out \<noteq> [] then snd out
      else ''The executed command in pod '' @ name @ '' in namespace '' @ ns @ '' has not produced any output'')"

definition podsExec :: "coreToolEnv \<Rightarrow> arguments \<Rightarrow> podState \<Rightarrow> toolOutcome \<times> podState" where
  "podsExec env args s =
     (let (ns, name, p) = namespaceAndName args; (container, p) = pOptionalString ''container'' [] p
      in (case pErr p of
            Some err \<Rightarrow> (Inl (BadArgument err), s)
          | None \<Rightarrow>
              (case commandOf args of
                 None \<Rightarrow> (Inl BadCommand, s)
               | Some command \<Rightarrow>
                   (case PodsExec (ctPods env) ns name container command s of
                      (Inl err, s) \<Rightarrow> (Inl (OpFail err), s)
                    | (Inr out, s) \<Rightarrow> (Inr (plainText (execAnswer name ns out)), s)))))"

definition podsLog :: "coreToolEnv \<Rightarrow> arguments \<Rightarrow> podState \<Rightarrow> toolOutcome \<times> podState" where
  "podsLog env args s =
     (let (ns, name, p) = namespaceAndName args; (container, p) = pOptionalString ''container'' [] p;
          (previous, p) = pOptionalBool ''previous'' False p; (tail, p) = pOptionalInt64 (ceOob (ctCore env)) ''tail'' 0 p
      in (case pErr p of
            Some err \<Rightarrow> (Inl (BadArgument err), s)
          | None \<Rightarrow>
              (case PodsLog (ctPods env) ns name container previous tail s of
                 (Inl err, s) \<Rightarrow> (Inl (OpFail err), s)
               | (Inr ret, s) \<Rightarrow>
                   (Inr (plainText (if ret = [] then ''The pod '' @ name @ '' in namespace '' @ ns @ '' has not logged any message yet'' else ret)), s))))"

text \<open>The conversion of an \<open>int64\<close> to \<open>int32\<close> keeps the low 32 bits.\<close>

definition int32Of :: "int \<Rightarrow> int" where
  "int32Of n = (n + 2 ^ 31) mod 2 ^ 32 - 2 ^ 31"

definition createdHeader :: string where
  "createdHeader = ''# The following resources (YAML) have been created or updated successfully'' @ [nl]"

definition podsRun :: "coreToolEnv \<Rightarrow> arguments \<Rightarrow> podState \<Rightarrow> toolOutcome \<times> podState" where
  "podsRun env args s =
     (let (ns, p) = pOptionalString ''namespace'' [] (WrapParams args); (name, p) = pOptionalString ''name'' [] p;
          (img, p) = pRequiredString ''image'' p; (port, p) = pOptionalInt64 (ceOob (ctCore env)) ''port'' 0 p
      in (case pErr p of
            Some err \<Rightarrow> (Inl (BadArgument err), s)
          | None \<Rightarrow>
              (case PodsRun (ctPods env) ns name img (int32Of port) s of
                 (Inl err, s) \<Rightarrow> (Inl (OpFail err), s)
               | (Inr created, s) \<Rightarrow>
                   (map_sum RenderFail (\<lambda>yaml. plainText (createdHeader @ yaml)) (oeMarshal (ctOut env) (GList (map GMap created))), s))))"

subsection \<open>Nodes\<close>

definition nonEmptyArgument :: "arguments \<Rightarrow> string \<Rightarrow> string option" where
  "nonEmptyArgument args key = (case args key of Some (GStr v) \<Rightarrow> if v = [] then None else Some v | _ \<Rightarrow> None)"

definition tailArgument :: "coreToolEnv \<Rightarrow> arguments \<Rightarrow> paramErr + int" where
  "tailArgument env args =
     (case args ''tailLines'' of
        None \<Rightarrow> Inr 0
      | Some GNil \<Rightarrow> Inr 0
      | Some v \<Rightarrow> ParseInt64 (ceOob (ctCore env)) v)"

definition nodesLog :: "coreToolEnv \<Rightarrow> arguments \<Rightarrow> podState \<Rightarrow> toolOutcome \<times> podState" where
  "nodesLog env args s =
     (case nonEmptyArgument args ''name'' of
        None \<Rightarrow> (Inl (MissingArg ''name''), s)
      | Some name \<Rightarrow>
          (case nonEmptyArgument args ''query'' of
             None \<Rightarrow> (Inl (MissingArg ''query''), s)
           | Some query \<Rightarrow>
               (case tailArgument env args of
                  Inl err \<Rightarrow> (Inl (BadArgument err), s)
                | Inr tail \<Rightarrow>
                    (case NodesLog (ctPods env) name query tail s of
                       (Inl err, s) \<Rightarrow> (Inl (OpFail err), s)
                     | (Inr ret, s) \<Rightarrow>
                         (Inr (plainText (if ret = [] then ''The node '' @ name @ '' has not logged any message yet or the log file is empty''
                                          else ret)), s)))))"

definition nodesStatsSummary :: "coreToolEnv \<Rightarrow> arguments \<Rightarrow> podState \<Rightarrow> toolOutcome \<times> podState" where
  "nodesStatsSummary env args s =
     (case nonEmptyArgument args ''name'' of
        None \<Rightarrow> (Inl (MissingArg ''name''), s)
      | Some name \<Rightarrow>
          (case NodesStatsSummary (ctPods env) name s of
             (Inl err, s) \<Rightarrow> (Inl (OpFail err), s)
           | (Inr ret, s) \<Rightarrow> (Inr (plainText ret), s)))"

type_synonym availableResources = "(string \<times> (string \<times> string) list) list"

text \<open>Writing the swap of a node without allocatable resources is a write to a nil map, a panic.\<close>

definition addNodeAllocatable :: "coreToolEnv \<Rightarrow> nodeObject \<Rightarrow> availableResources \<Rightarrow> toolFail + availableResources" where
  "addNodeAllocatable env n available =
     (case (ndAllocatable n, ndSwap n) of
        (a, None) \<Rightarrow> Inr (assocUpd (ndName n) (case a of None \<Rightarrow> [] | Some rs \<Rightarrow> rs) available)
      | (Some rs, Some swap) \<Rightarrow> Inr (assocUpd (ndName n) (assocUpd ''swap'' (ctBinary env swap) rs) available)
      | (None, Some _) \<Rightarrow> Inl NilMapPanic)"

fun pagedAllocatable :: "coreToolEnv \<Rightarrow> nodeMetrics list \<Rightarrow> availableResources \<Rightarrow> podState \<Rightarrow> (toolFail + availableResources) \<times> podState" where
  "pagedAllocatable env [] available s = (Inr available, s)"
| "pagedAllocatable env (m # ms) available s =
     (case callApi (ctPods env) (OpGet (coreGVR ''nodes'') [] (nmtName m) []) s of
        (Inl err, s) \<Rightarrow> (Inl (NodeGetFail (nmtName m) err), s)
      | (Inr n, s) \<Rightarrow>
          (case addNodeAllocatable env (ctNode env n) available of
             Inl err \<Rightarrow> (Inl err, s)
           | Inr available \<Rightarrow> pagedAllocatable env ms available s))"

fun addAllocatables :: "coreToolEnv \<Rightarrow> kubeObject list \<Rightarrow> availableResources \<Rightarrow> toolFail + availableResources" where
  "addAllocatables env [] available = Inr available"
| "addAllocatables env (n # ns) available =
     (case addNodeAllocatable env (ctNode env n) available of
        Inl err \<Rightarrow> Inl err
      | Inr available \<Rightarrow> addAllocatables env ns available)"

definition allocatableOf :: "coreToolEnv \<Rightarrow> listOptions \<Rightarrow> nodeMetrics list \<Rightarrow> podState \<Rightarrow> (toolFail + availableResources) \<times> podState" where
  "allocatableOf env opts ms s =
     (if loLimit opts > 0 \<or> loContinue opts \<noteq> [] then pagedAllocatable env ms [] s
      else (case callApi (ctPods env) (OpList (coreGVR ''nodes'') [] (noOptions\<lparr>loLabelSelector := loLabelSelector opts\<rparr>)) s of
          (Inl err, s) \<Rightarrow> (Inl (NodeListFail (faultTooLarge err) err), s)
        | (Inr l, s) \<Rightarrow> (addAllocatables env (peItems (ctPods env) l) [], s)))"

definition nodeTopRow :: "nodeMetrics \<Rightarrow> goVal" where
  "nodeTopRow m =
     GMap [(''Name'', GStr (nmtName m)), (''CPU'', GStr (cuCPU (nmtUsage m))), (''Memory'', GStr (cuMemory (nmtUsage m)))]"

definition nodesTop :: "coreToolEnv \<Rightarrow> arguments \<Rightarrow> podState \<Rightarrow> toolOutcome \<times> podState" where
  "nodesTop env args s =
     (case pageOptions env (WrapParams args) (argumentString args ''label_selector'' []) [] of
        Inl err \<Rightarrow> (Inl err, s)
      | Inr opts \<Rightarrow>
          (case NodesTop (ctPods env) (argumentString args ''name'' []) opts s of
             (Inl err, s) \<Rightarrow> (Inl (listFail err), s)
           | (Inr (ms, page), s) \<Rightarrow>
               (case allocatableOf env opts ms s of
                  (Inl err, s) \<Rightarrow> (Inl err, s)
                | (Inr available, s) \<Rightarrow>
                    (case ctNodeTop env ms available of
                       Inl err \<Rightarrow> (Inl (RenderFail err), s)
                     | Inr printed \<Rightarrow>
                         (Inr (WithListPage printed (topTable [''Name'', ''CPU'', ''Memory''] (map nodeTopRow ms)) page), s)))))"

subsection \<open>Events and namespaces\<close>

definition involvedObject :: "goMap \<Rightarrow> goMap" where
  "involvedObject row =
     (case map_of row ''InvolvedObject'' of
        Some (GMap obj) \<Rightarrow>
          let field = (\<lambda>k. case map_of obj k of Some (GStr v) \<Rightarrow> v | _ \<Rightarrow> [])
          in assocUpd ''InvolvedObject'' (GStr (field ''Kind'' @ ''/'' @ field ''Name'')) row
      | _ \<Rightarrow> row)"

definition eventColumns :: "string list" where
  "eventColumns = [''Namespace'', ''Timestamp'', ''Type'', ''Reason'', ''InvolvedObject'', ''Message'']"

definition eventsList :: "coreToolEnv \<Rightarrow> arguments \<Rightarrow> podState \<Rightarrow> toolOutcome \<times> podState" where
  "eventsList env args s =
     (let (ns, p) = pOptionalString ''namespace'' [] (WrapParams args); (field, p) = pOptionalString ''fieldSelector'' [] p
      in (case pageOptions env p [] field of
            Inl err \<Rightarrow> (Inl err, s)
          | Inr opts \<Rightarrow>
              (case EventsList (ctPods env) ns opts s of
                 (Inl err, s) \<Rightarrow> (Inl (listFail err), s)
               | (Inr (rows, cont, remaining), s) \<Rightarrow>
                   (case (if rows = [] then Inr ''# No events found''
                          else map_sum RenderFail (\<lambda>yaml. ''# The following events (YAML format) were found:'' @ [nl] @ yaml)
                                 (oeMarshal (ctOut env) (GList (map GMap rows)))) of
                      Inl err \<Rightarrow> (Inl err, s)
                    | Inr printed \<Rightarrow>
                        (Inr (attachContinue goSigned printed (topTable eventColumns (map (GMap \<circ> involvedObject) rows)) cont remaining), s)))))"

definition namespacesList :: "coreToolEnv \<Rightarrow> arguments \<Rightarrow> podState \<Rightarrow> toolOutcome \<times> podState" where
  "namespacesList env args s =
     (let (field, p) = pOptionalString ''fieldSelector'' [] (WrapParams args)
      in (case pageOptions env p [] field of
            Inl err \<Rightarrow> (Inl err, s)
          | Inr opts \<Rightarrow> listed env (NamespacesList (ctPods env) (AsTable (ctFormat env)) opts) s))"

definition projectsList :: "coreToolEnv \<Rightarrow> arguments \<Rightarrow> podState \<Rightarrow> toolOutcome \<times> podState" where
  "projectsList env args s =
     (case pageOptions env (WrapParams args) [] [] of
        Inl err \<Rightarrow> (Inl err, s)
      | Inr opts \<Rightarrow> listed env (ProjectsList (ctPods env) (AsTable (ctFormat env)) opts) s)"

section \<open>Declarations\<close>

type_synonym coreTool = "(coreToolEnv \<Rightarrow> arguments \<Rightarrow> podState \<Rightarrow> toolOutcome \<times> podState) toolDecl"

definition readingTool :: "string \<Rightarrow> rbacRequirement list \<Rightarrow> (coreToolEnv \<Rightarrow> arguments \<Rightarrow> podState \<Rightarrow> toolOutcome \<times> podState) \<Rightarrow> coreTool" where
  "readingTool name qs run = \<lparr>tdName = name, tdReadOnly = True, tdDestructive = False, tdRBAC = RBACBounded qs, tdRun = run\<rparr>"

definition writingTool ::
    "string \<Rightarrow> bool \<Rightarrow> rbacRequirement list \<Rightarrow> (coreToolEnv \<Rightarrow> arguments \<Rightarrow> podState \<Rightarrow> toolOutcome \<times> podState) \<Rightarrow> coreTool" where
  "writingTool name destructive qs run =
     \<lparr>tdName = name, tdReadOnly = False, tdDestructive = destructive, tdRBAC = RBACBounded qs, tdRun = run\<rparr>"

abbreviation ofNamedPod :: "string list \<Rightarrow> string \<Rightarrow> rbacRequirement" where
  "ofNamedPod verbs sub \<equiv> requires verbs (onResource [] ''pods'' sub) (inArgument ''namespace'') (namedBy ''name'')"

abbreviation inNamespace :: "string list \<Rightarrow> string \<Rightarrow> string \<Rightarrow> rbacRequirement" where
  "inNamespace verbs g r \<equiv> requires verbs (onResource g r []) (inArgument ''namespace'') None"

text \<open>The hints, the permissions and the handler of each tool; schemas and descriptions are left out.\<close>

definition podsListDecl :: coreTool where
  "podsListDecl =
     readingTool ''pods_list'' [requires [''list''] (onResource [] ''pods'' []) inAllNamespaces None] podsListInAllNamespaces"

definition podsListInNamespaceDecl :: coreTool where
  "podsListInNamespaceDecl =
     readingTool ''pods_list_in_namespace'' [inNamespace [''list''] [] ''pods''] podsListInNamespace"

definition podsGetDecl :: coreTool where
  "podsGetDecl =
     readingTool ''pods_get'' [ofNamedPod [''get''] []] podsGet"

definition podsDeleteDecl :: coreTool where
  "podsDeleteDecl =
     writingTool ''pods_delete'' True
       [ofNamedPod [''get'', ''delete''] [], inNamespace [''list'', ''delete''] [] ''services'',
       inNamespace [''list'', ''delete''] ''route.openshift.io'' ''routes''] podsDelete"

definition podsTopDecl :: coreTool where
  "podsTopDecl =
     readingTool ''pods_top'' [requires [''get'', ''list''] (onResource ''metrics.k8s.io'' ''pods'' []) inAllNamespaces None] podsTop"

definition podsExecDecl :: coreTool where
  "podsExecDecl =
     writingTool ''pods_exec'' True [ofNamedPod [''get''] [], ofNamedPod [''get'', ''create''] ''exec''] podsExec"

definition podsLogDecl :: coreTool where
  "podsLogDecl =
     readingTool ''pods_log'' [ofNamedPod [''get''] [], ofNamedPod [''get''] ''log''] podsLog"

definition podsRunDecl :: coreTool where
  "podsRunDecl =
     writingTool ''pods_run'' False
       [inNamespace [''create'', ''patch''] [] ''pods'', inNamespace [''create'', ''patch''] [] ''services'',
       inNamespace [''create'', ''patch''] ''route.openshift.io'' ''routes''] podsRun"

definition nodesLogDecl :: coreTool where
  "nodesLogDecl =
     readingTool ''nodes_log''
       [requires [''get''] (onResource [] ''nodes'' []) None (namedBy ''name''),
       requires [''get''] (onResource [] ''nodes'' ''proxy'') None (namedBy ''name'')] nodesLog"

definition nodesStatsSummaryDecl :: coreTool where
  "nodesStatsSummaryDecl =
     readingTool ''nodes_stats_summary''
       [requires [''get''] (onResource [] ''nodes'' []) None (namedBy ''name''),
       requires [''get''] (onResource [] ''nodes'' ''proxy'') None (namedBy ''name'')] nodesStatsSummary"

definition nodesTopDecl :: coreTool where
  "nodesTopDecl =
     readingTool ''nodes_top''
       [requires [''get'', ''list''] (onResource ''metrics.k8s.io'' ''nodes'' []) None None,
       requires [''get'', ''list''] (onResource [] ''nodes'' []) None None] nodesTop"

definition eventsListDecl :: coreTool where
  "eventsListDecl =
     readingTool ''events_list'' [inNamespace [''list''] [] ''events''] eventsList"

definition namespacesListDecl :: coreTool where
  "namespacesListDecl =
     readingTool ''namespaces_list'' [requires [''list''] (onResource [] ''namespaces'' []) None None] namespacesList"

definition projectsListDecl :: coreTool where
  "projectsListDecl =
     readingTool ''projects_list'' [requires [''list''] (onResource ''project.openshift.io'' ''projects'' []) None None] projectsList"

definition initPods :: "coreTool list" where
  "initPods = [podsListDecl, podsListInNamespaceDecl, podsGetDecl, podsDeleteDecl, podsTopDecl, podsExecDecl, podsLogDecl, podsRunDecl]"

definition initNodes :: "coreTool list" where
  "initNodes = [nodesLogDecl, nodesStatsSummaryDecl, nodesTopDecl]"

definition initEvents :: "coreTool list" where
  "initEvents = [eventsListDecl]"

definition initNamespaces :: "coreTool list" where
  "initNamespaces = [namespacesListDecl, projectsListDecl]"

definition coreTools :: "coreTool list" where
  "coreTools = initEvents @ initNamespaces @ initNodes @ initPods"

lemmas core_decls = podsListDecl_def podsListInNamespaceDecl_def podsGetDecl_def podsDeleteDecl_def podsTopDecl_def podsExecDecl_def podsLogDecl_def
  podsRunDecl_def nodesLogDecl_def nodesStatsSummaryDecl_def nodesTopDecl_def eventsListDecl_def namespacesListDecl_def projectsListDecl_def

end
