(* ===== verification/Core_Requests.thy ===== *)
theory Core_Requests
  imports Core_Tools
begin

text \<open>
  The requests of the core tools against the permissions that the tools declare, and what the
  operations on pods do: which objects a deletion removes, where a command runs, how much of its
  output is kept.
\<close>

section \<open>Authorization requests\<close>

definition restRequest :: "string \<Rightarrow> groupVersionResource \<Rightarrow> string \<Rightarrow> string \<Rightarrow> string \<Rightarrow> kubeRequest" where
  "restRequest verb gvr ns name sub =
     \<lparr>krVerb = verb, krGroup = gvrGroup gvr, krResource = gvrResource gvr, krSubresource = sub, krNamespace = ns, krName = name\<rparr>"

text \<open>How the API server reads the path of a GET request: a resource, in a namespace or not, with a name or not.\<close>

definition resourceRequest :: "string \<Rightarrow> string \<Rightarrow> string \<Rightarrow> string list \<Rightarrow> kubeRequest" where
  "resourceRequest g ns r rest =
     \<lparr>krVerb = (if rest = [] then ''list'' else ''get''), krGroup = g, krResource = r,
      krSubresource = (if length rest < 2 then [] else rest ! 1), krNamespace = ns, krName = (if rest = [] then [] else hd rest)\<rparr>"

definition segmentsRequest :: "string \<Rightarrow> string list \<Rightarrow> kubeRequest option" where
  "segmentsRequest g parts =
     (if length parts > 2 \<and> hd parts = ''namespaces'' then Some (resourceRequest g (parts ! 1) (parts ! 2) (drop 3 parts))
      else if parts \<noteq> [] then Some (resourceRequest g [] (hd parts) (tl parts)) else None)"

definition pathRequest :: "string \<Rightarrow> kubeRequest option" where
  "pathRequest path =
     (case pathParts path of
        [] \<Rightarrow> None
      | root # parts \<Rightarrow>
          if root = ''api'' then segmentsRequest [] (drop 1 parts)
          else if root = ''apis'' \<and> parts \<noteq> [] then segmentsRequest (hd parts) (drop 2 parts)
          else None)"

text \<open>A path that is no resource's is a request that no requirement covers.\<close>

definition getPath :: "string \<Rightarrow> kubeRequest" where
  "getPath path =
     (case pathRequest path of
        Some r \<Rightarrow> r
      | None \<Rightarrow> \<lparr>krVerb = ''get'', krGroup = path, krResource = path, krSubresource = [], krNamespace = [], krName = []\<rparr>)"

text \<open>A \<open>SelfSubjectAccessReview\<close> is created outside of namespaces, whatever it asks about.\<close>

definition accessReview :: kubeRequest where
  "accessReview = restRequest ''create''
     \<lparr>gvrGroup = ''authorization.k8s.io'', gvrVersion = ''v1'', gvrResource = ''selfsubjectaccessreviews''\<rparr> [] [] []"

fun requestsOf :: "podOp \<Rightarrow> kubeRequest list" where
  "requestsOf (Api (OpList gvr ns opts)) = [restRequest ''list'' gvr ns [] []]"
| "requestsOf (Api (OpTable path opts)) = [getPath path]"
| "requestsOf (Api (OpGet gvr ns name sub)) = [restRequest ''get'' gvr ns name sub]"
| "requestsOf (Api (OpApply gvr ns name obj)) = [restRequest ''patch'' gvr ns name []]"
| "requestsOf (Api (OpUpdate gvr ns obj sub)) = [restRequest ''update'' gvr ns [] sub]"
| "requestsOf (Api (OpDelete gvr ns name grace)) = [restRequest ''delete'' gvr ns name []]"
| "requestsOf (Api (OpReview gvr ns verb)) = [accessReview]"
| "requestsOf (PodLogs ns name container previous tail limit) = [restRequest ''get'' (coreGVR ''pods'') ns name ''log'']"
| "requestsOf (PodExec ns name container command) =
     [restRequest ''get'' (coreGVR ''pods'') ns name ''exec'', restRequest ''create'' (coreGVR ''pods'') ns name ''exec'']"
| "requestsOf (NodeProxy path ps) = [getPath path]"

lemma getPath_table:
  assumes "plainTarget gvr ns" "gvrResource gvr \<noteq> ''namespaces'' \<or> ns = []"
  shows "getPath (tablePath gvr ns) = restRequest ''list'' gvr ns [] []"
  using tablePath_parts [OF assms(1)] assms(1,2) unfolding getPath_def pathRequest_def
  by (auto simp: apiSegments_def segmentsRequest_def resourceRequest_def restRequest_def Let_def numeral_eq_Suc)

lemma proxy_path:
  assumes "plainName name" "list_all plainName rest"
  shows "getPath (absPath ([''api'', ''v1'', ''nodes'', name, ''proxy''] @ rest)) = restRequest ''get'' (coreGVR ''nodes'') [] name ''proxy''"
proof -
  have "list_all plainName ([''api'', ''v1'', ''nodes'', name, ''proxy''] @ rest)" using assms by (simp add: plainName_def segOk_def)
  from pathParts_absPath [OF _ this] show ?thesis unfolding getPath_def pathRequest_def
    by (simp add: segmentsRequest_def resourceRequest_def restRequest_def coreGVR_def)
qed

section \<open>Known kinds\<close>

text \<open>The kinds that the tools use: their resource, and whether it is namespaced.\<close>

definition routeGVK :: groupVersionKind where
  "routeGVK = \<lparr>gvkGroup = ''route.openshift.io'', gvkVersion = ''v1'', gvkKind = ''Route''\<rparr>"

definition projectGVR :: groupVersionResource where
  "projectGVR = \<lparr>gvrGroup = ''project.openshift.io'', gvrVersion = ''v1'', gvrResource = ''projects''\<rparr>"

definition clusterOperatorGVK :: groupVersionKind where
  "clusterOperatorGVK = \<lparr>gvkGroup = ''config.openshift.io'', gvkVersion = ''v1'', gvkKind = ''ClusterOperator''\<rparr>"

definition clusterOperatorGVR :: groupVersionResource where
  "clusterOperatorGVR = \<lparr>gvrGroup = ''config.openshift.io'', gvrVersion = ''v1'', gvrResource = ''clusteroperators''\<rparr>"

definition kindTable :: "(groupVersionKind \<times> groupVersionResource \<times> bool) list" where
  "kindTable =
     [(coreGVK ''Pod'', coreGVR ''pods'', True), (coreGVK ''Event'', coreGVR ''events'', True),
      (coreGVK ''Service'', coreGVR ''services'', True), (routeGVK, routeGVR, True),
      (coreGVK ''Namespace'', coreGVR ''namespaces'', False), (projectGVK, projectGVR, False),
      (clusterOperatorGVK, clusterOperatorGVR, False)]"

definition knowsKinds :: "kindMap \<Rightarrow> bool" where
  "knowsKinds kinds \<longleftrightarrow> (\<forall>(gvk, gvr, _) \<in> set kindTable. kinds gvk \<in> insert (Inr gvr) (range Inl))"

definition knowsScopes :: "(string \<Rightarrow> string + (string \<times> bool) list) \<Rightarrow> bool" where
  "knowsScopes discovery \<longleftrightarrow> (\<forall>(gvk, _, namespaced) \<in> set kindTable.
     case discovery (apiVersionOf (gvkGroup gvk) (gvkVersion gvk)) of Inl _ \<Rightarrow> True | Inr rs \<Rightarrow> map_of rs (gvkKind gvk) = Some namespaced)"

fun runScope :: "runObject \<Rightarrow> groupVersionKind \<times> string" where
  "runScope (RunPod name ns labels img port) = (coreGVK ''Pod'', ns)"
| "runScope (RunService name ns labels port) = (coreGVK ''Service'', ns)"
| "runScope (RunRoute name ns labels port) = (routeGVK, ns)"

text \<open>
  What the properties ask of the cluster and of \<open>client-go\<close>: the kinds have the resources and
  scopes of Kubernetes, a converted object keeps its kind and namespace, and a typed client
  refuses to get an object whose name is not a segment of a path.
\<close>

definition standardCluster :: "podEnv \<Rightarrow> bool" where
  "standardCluster env \<longleftrightarrow>
     knowsKinds (ceKinds (peCore env)) \<and> knowsScopes (ceDiscovery (peCore env)) \<and> plainName (ceNamespace (peCore env))
     \<and> (\<forall>r u. peUnstructured env r = Inr u \<longrightarrow> (ceGVK (peCore env) u, ceNamespaceOf (peCore env) u) = runScope r)
     \<and> (\<forall>l name. \<not> isl (peAnswer env l (OpGet (coreGVR ''nodes'') [] name [])) \<longrightarrow> plainName name)"

definition mapperOk :: "kindMap option \<Rightarrow> bool" where
  "mapperOk m \<longleftrightarrow> (case m of None \<Rightarrow> True | Some kinds \<Rightarrow> knowsKinds kinds)"

lemma coreAt_simps [simp]:
  "ceKinds (coreAt env l) = ceKinds (peCore env)" "ceDiscovery (coreAt env l) = ceDiscovery (peCore env)"
  "ceNamespace (coreAt env l) = ceNamespace (peCore env)" "ceReviewAllows (coreAt env l) = ceReviewAllows (peCore env)"
  "ceGVK (coreAt env l) = ceGVK (peCore env)" "ceNamespaceOf (coreAt env l) = ceNamespaceOf (peCore env)"
  "ceNameOf (coreAt env l) = ceNameOf (peCore env)" "ceSetNamespace (coreAt env l) = ceSetNamespace (peCore env)"
  by (simp_all add: coreAt_def)

lemma restMapping_ok:
  "knowsKinds (ceKinds c) \<Longrightarrow> mapperOk (csMapper s) \<Longrightarrow> restMapping c gvk s = (r, s') \<Longrightarrow>
     mapperOk (csMapper s') \<and> ((gvk, gvr, b) \<in> set kindTable \<longrightarrow> r \<in> insert (Inr gvr) (range Inl))"
  by (auto simp: restMapping_def Let_def mapperOk_def knowsKinds_def split: option.splits)

lemma resourceFor_ok:
  assumes "knowsKinds (ceKinds c)" "mapperOk (csMapper s)" "resourceFor c gvk s = (r, s')"
  shows "mapperOk (csMapper s') \<and> ((gvk, gvr, b) \<in> set kindTable \<longrightarrow> r \<in> insert (Inr gvr) (range Inl))"
proof -
  obtain r1 s1 where 1: "restMapping c gvk s = (r1, s1)" by force
  obtain r2 s2 where 2: "restMapping c gvk (mapperReset s1) = (r2, s2)" by force
  have "mapperOk (csMapper (mapperReset s1))" by (simp add: mapperReset_def mapperOk_def)
  from restMapping_ok [OF assms(1) this 2, of gvr b] restMapping_ok [OF assms(1,2) 1, of gvr b] assms(3) 1 2
  show ?thesis by (auto simp: resourceFor_def split: sum.splits mapErr.splits)
qed

lemma isNamespaced_known:
  "knowsScopes (ceDiscovery c) \<Longrightarrow> (gvk, gvr, b) \<in> set kindTable \<Longrightarrow> isNamespaced c gvk = Inr b' \<Longrightarrow> b' = b"
  by (fastforce simp: knowsScopes_def isNamespaced_def split: sum.splits)

section \<open>Calls that send only what is allowed\<close>

definition sendsOnly :: "(podOp \<Rightarrow> bool) \<Rightarrow> (podState \<Rightarrow> 'r \<times> podState) \<Rightarrow> bool" where
  "sendsOnly P call \<longleftrightarrow> (\<forall>s r s'. mapperOk (psMapper s) \<longrightarrow> call s = (r, s') \<longrightarrow>
     mapperOk (psMapper s') \<and> (\<exists>ops. psLog s' = psLog s @ ops \<and> list_all P ops))"

lemma sendsOnlyI:
  assumes "\<And>s r s'. mapperOk (psMapper s) \<Longrightarrow> call s = (r, s') \<Longrightarrow>
     mapperOk (psMapper s') \<and> (\<exists>ops. psLog s' = psLog s @ ops \<and> list_all P ops)"
  shows "sendsOnly P call"
  using assms by (auto simp: sendsOnly_def)

lemma sendsOnlyD:
  "sendsOnly P call \<Longrightarrow> mapperOk (psMapper s) \<Longrightarrow> call s = (r, s') \<Longrightarrow>
     mapperOk (psMapper s') \<and> (\<exists>ops. psLog s' = psLog s @ ops \<and> list_all P ops)"
  by (auto simp: sendsOnly_def)

lemma sendsOnly_pure [simp]: "sendsOnly P (\<lambda>s. (r, s))"
  by (auto simp: sendsOnly_def)

lemma sendsOnly_log: "P op \<Longrightarrow> sendsOnly P (\<lambda>s. (f (psLog s), logOp op s))"
  by (auto simp: sendsOnly_def logOp_def)

lemma sendsOnly_callApi: "P (Api op) \<Longrightarrow> sendsOnly P (callApi env op)"
  by (auto simp: sendsOnly_def callApi_def)

text \<open>Sequences: a call whose answer decides how to go on.\<close>

lemma sendsOnly_bind:
  assumes "sendsOnly P call" "\<And>x. sendsOnly P (k x)"
  shows "sendsOnly P (\<lambda>s. case call s of (x, s) \<Rightarrow> k x s)"
proof (rule sendsOnlyI)
  fix s r s' assume s: "mapperOk (psMapper s)" "(case call s of (x, s) \<Rightarrow> k x s) = (r, s')"
  obtain x s1 where c: "call s = (x, s1)" by force
  from sendsOnlyD [OF assms(1) s(1) c] obtain o1 where 1: "mapperOk (psMapper s1)" "psLog s1 = psLog s @ o1" "list_all P o1" by blast
  have "k x s1 = (r, s')" using s(2) c by simp
  from sendsOnlyD [OF assms(2) 1(1) this] obtain o2 where "mapperOk (psMapper s')" "psLog s' = psLog s1 @ o2" "list_all P o2" by blast
  with 1 show "mapperOk (psMapper s') \<and> (\<exists>ops. psLog s' = psLog s @ ops \<and> list_all P ops)" by auto
qed

lemma sendsOnly_sum:
  assumes "sendsOnly P call" "\<And>e. sendsOnly P (f e)" "\<And>x. sendsOnly P (k x)"
  shows "sendsOnly P (\<lambda>s. case call s of (Inl e, s) \<Rightarrow> f e s | (Inr x, s) \<Rightarrow> k x s)"
proof -
  have "sendsOnly P (\<lambda>s. case call s of (r, s) \<Rightarrow> (case r of Inl e \<Rightarrow> f e | Inr x \<Rightarrow> k x) s)"
    by (rule sendsOnly_bind [OF assms(1)]) (auto split: sum.split intro: assms(2,3))
  moreover have "(\<lambda>s. case call s of (r, s) \<Rightarrow> (case r of Inl e \<Rightarrow> f e | Inr x \<Rightarrow> k x) s) =
      (\<lambda>s. case call s of (Inl e, s) \<Rightarrow> f e s | (Inr x, s) \<Rightarrow> k x s)"
    by (auto simp: fun_eq_iff split: prod.splits sum.splits)
  ultimately show ?thesis by simp
qed

lemma sendsOnly_if: "sendsOnly P a \<Longrightarrow> sendsOnly P b \<Longrightarrow> sendsOnly P (\<lambda>s. if c then a s else b s)"
  by (cases c) simp_all

text \<open>The generic operations, on a kind of the table.\<close>

definition coreOnly :: "(apiOp \<Rightarrow> bool) \<Rightarrow> (coreState \<Rightarrow> 'r \<times> coreState) \<Rightarrow> bool" where
  "coreOnly P call \<longleftrightarrow> (\<forall>s r s'. mapperOk (csMapper s) \<longrightarrow> call s = (r, s') \<longrightarrow>
     mapperOk (csMapper s') \<and> (\<exists>ops. csLog s' = csLog s @ ops \<and> list_all P ops))"

lemma coreOnlyD:
  "coreOnly P call \<Longrightarrow> mapperOk (csMapper s) \<Longrightarrow> call s = (r, s') \<Longrightarrow>
     mapperOk (csMapper s') \<and> (\<exists>ops. csLog s' = csLog s @ ops \<and> list_all P ops)"
  by (auto simp: coreOnly_def)

lemma sendsOnly_inCore:
  assumes "\<And>l. coreOnly (\<lambda>op. P (Api op)) (f (coreAt env l))"
  shows "sendsOnly P (inCore env f)"
proof (rule sendsOnlyI)
  fix s r s' assume s: "mapperOk (psMapper s)" "inCore env f s = (r, s')"
  obtain r1 c where c: "f (coreAt env (psLog s)) \<lparr>csMapper = psMapper s, csLog = []\<rparr> = (r1, c)" by force
  have "mapperOk (csMapper c) \<and> list_all (\<lambda>op. P (Api op)) (csLog c)"
    using coreOnlyD [OF assms _ c] s(1) by simp
  with s c show "mapperOk (psMapper s') \<and> (\<exists>ops. psLog s' = psLog s @ ops \<and> list_all P ops)"
    by (auto simp: inCore_def list_all_iff)
qed

lemma sendsOnly_inCoreErr:
  "(\<And>l. coreOnly (\<lambda>op. P (Api op)) (f (coreAt env l))) \<Longrightarrow> sendsOnly P (inCoreErr env f)"
  unfolding inCoreErr_def by (intro sendsOnly_bind sendsOnly_inCore sendsOnly_pure)

lemma coreOnly_list:
  assumes "knowsKinds (ceKinds c)" "knowsScopes (ceDiscovery c)" "(gvk, gvr, b) \<in> set kindTable"
    and "\<And>ns'. ns' \<in> (if b then if ns = [] then {[], ceNamespace c} else {ns} else {[]}) \<Longrightarrow>
      P (if asTable then OpTable (tablePath gvr ns') opts else OpList gvr ns' opts)"
    and "b \<Longrightarrow> P (OpReview gvr ns ''list'')"
  shows "coreOnly P (ResourcesList c gvk ns asTable opts)"
  unfolding coreOnly_def
proof (intro allI impI)
  fix s r s' assume s: "mapperOk (csMapper s)" "ResourcesList c gvk ns asTable opts s = (r, s')"
  obtain q s1 where q: "resourceFor c gvk s = (q, s1)" by force
  note k = resourceFor_ok [OF assms(1) s(1) q, of gvr b] resourceFor_logD [OF q]
  show "mapperOk (csMapper s') \<and> (\<exists>ops. csLog s' = csLog s @ ops \<and> list_all P ops)"
  proof (cases "q = Inr gvr \<and> isNamespaced c gvk = Inr b")
    case True
    obtain can s2 where c: "(if b then canIUse c gvr ns ''list'' s1 else (False, s1)) = (can, s2)" by force
    let ?ns = "if b \<and> \<not> can \<and> ns = [] then NamespaceOrDefault c [] else if \<not> b then [] else ns"
    let ?op = "if asTable then OpTable (tablePath gvr ?ns) opts else OpList gvr ?ns opts"
    let ?review = "if b then [OpReview gvr ns ''list''] else []"
    have "P ?op" by (rule assms(4)) (auto simp: NamespaceOrDefault_def)
    then have "list_all P (?review @ [?op])" using assms(5) by simp
    moreover have "s2 = s1\<lparr>csLog := csLog s1 @ ?review\<rparr>"
      using c by (auto simp: canIUse_def send_def split: if_splits prod.splits sum.splits)
    then have "s' = s1\<lparr>csLog := csLog s1 @ ?review @ [?op]\<rparr>"
      using s(2) q True c by (auto simp: ResourcesList_def Let_def send_def)
    ultimately show ?thesis using k by (intro conjI exI [of _ "?review @ [?op]"]) auto
  next
    case False
    then have "(\<exists>e. q = Inl e) \<or> (\<exists>e. isNamespaced c gvk = Inl e)"
      using k(1) assms(3) isNamespaced_known [OF assms(2,3)] by (cases "isNamespaced c gvk") auto
    then show ?thesis using s(2) q k by (auto simp: ResourcesList_def split: sum.splits)
  qed
qed

lemma coreOnly_onNamed:
  assumes "knowsKinds (ceKinds c)" "knowsScopes (ceDiscovery c)" "(gvk, gvr, True) \<in> set kindTable"
    and "P (op gvr (NamespaceOrDefault c ns))"
  shows "coreOnly P (onNamed c gvk ns (\<lambda>gvr ns s. case send c (op gvr ns) s of (r, s) \<Rightarrow> (f r, s)))"
  unfolding coreOnly_def
proof (intro allI impI)
  fix s r s' assume s: "mapperOk (csMapper s)" "onNamed c gvk ns (\<lambda>gvr ns s. case send c (op gvr ns) s of (r, s) \<Rightarrow> (f r, s)) s = (r, s')"
  obtain q s1 where q: "resourceFor c gvk s = (q, s1)" by force
  note k = resourceFor_ok [OF assms(1) s(1) q, of gvr True] resourceFor_logD [OF q]
  show "mapperOk (csMapper s') \<and> (\<exists>ops. csLog s' = csLog s @ ops \<and> list_all P ops)"
  proof (cases "q = Inr gvr \<and> isNamespaced c gvk = Inr True")
    case True
    then have "s' = s1\<lparr>csLog := csLog s1 @ [op gvr (NamespaceOrDefault c ns)]\<rparr>"
      using s(2) q by (auto simp: onNamed_def effectiveNamespace_def send_def)
    then show ?thesis using k assms(4) by auto
  next
    case False
    then have "(\<exists>e. q = Inl e) \<or> (\<exists>e. isNamespaced c gvk = Inl e)"
      using k(1) assms(3) isNamespaced_known [OF assms(2,3)] by (cases "isNamespaced c gvk") auto
    then show ?thesis using s(2) q k by (auto simp: onNamed_def effectiveNamespace_def split: sum.splits)
  qed
qed

lemma coreOnly_apply:
  assumes "knowsKinds (ceKinds c)" "knowsScopes (ceDiscovery c)"
    and "\<forall>obj \<in> set objs. \<exists>gvr. (ceGVK c obj, gvr, True) \<in> set kindTable
       \<and> P (OpApply gvr (NamespaceOrDefault c (ceNamespaceOf c obj)) (ceNameOf c obj) (ceSetNamespace c (NamespaceOrDefault c (ceNamespaceOf c obj)) obj))"
  shows "coreOnly P (resourcesCreateOrUpdate c objs)"
  unfolding coreOnly_def
proof (intro allI impI)
  fix s r s' show "mapperOk (csMapper s) \<Longrightarrow> resourcesCreateOrUpdate c objs s = (r, s') \<Longrightarrow>
      mapperOk (csMapper s') \<and> (\<exists>ops. csLog s' = csLog s @ ops \<and> list_all P ops)"
    using assms(3)
  proof (induction objs arbitrary: s r s')
    case (Cons obj objs)
    let ?call = "onNamed c (ceGVK c obj) (ceNamespaceOf c obj) (\<lambda>gvr ns s.
        case send c (OpApply gvr ns (ceNameOf c obj) (ceSetNamespace c ns obj)) s of (r, s) \<Rightarrow> (map_sum ServerErr id r, s))"
    obtain gvr where gvr: "(ceGVK c obj, gvr, True) \<in> set kindTable"
      "P (OpApply gvr (NamespaceOrDefault c (ceNamespaceOf c obj)) (ceNameOf c obj) (ceSetNamespace c (NamespaceOrDefault c (ceNamespaceOf c obj)) obj))"
      using Cons.prems(3) by auto
    obtain q s1 where q: "?call s = (q, s1)" by force
    have "coreOnly P ?call" by (rule coreOnly_onNamed [OF assms(1,2) gvr(1)]) (rule gvr(2))
    from coreOnlyD [OF this Cons.prems(1) q]
    obtain o1 where o1: "mapperOk (csMapper s1)" "csLog s1 = csLog s @ o1" "list_all P o1" by blast
    show ?case
    proof (cases q)
      case (Inl e)
      then show ?thesis using Cons.prems(2) q o1 by (auto simp: Let_def)
    next
      case (Inr applied)
      let ?s2 = "if gvkKind (ceGVK c obj) = ''CustomResourceDefinition'' then mapperReset s1 else s1"
      obtain r2 s2 where r2: "resourcesCreateOrUpdate c objs ?s2 = (r2, s2)" by force
      have "mapperOk (csMapper ?s2)" using o1(1) by (simp add: mapperReset_def mapperOk_def)
      from Cons.IH [OF this] r2 Cons.prems(3) have "mapperOk (csMapper s2) \<and> (\<exists>ops. csLog s2 = csLog ?s2 @ ops \<and> list_all P ops)" by simp
      moreover have "s' = s2" using Cons.prems(2) q Inr r2 by (simp add: Let_def split: prod.splits)
      ultimately show ?thesis using o1 by (auto simp: mapperReset_def split: if_splits)
    qed
  qed simp
qed

section \<open>The operations\<close>

lemma in_kindTable [simp]:
  "(coreGVK ''Pod'', coreGVR ''pods'', True) \<in> set kindTable" "(coreGVK ''Event'', coreGVR ''events'', True) \<in> set kindTable"
  "(coreGVK ''Service'', coreGVR ''services'', True) \<in> set kindTable" "(routeGVK, routeGVR, True) \<in> set kindTable"
  "(coreGVK ''Namespace'', coreGVR ''namespaces'', False) \<in> set kindTable" "(projectGVK, projectGVR, False) \<in> set kindTable"
  "(clusterOperatorGVK, clusterOperatorGVR, False) \<in> set kindTable"
  by (simp_all add: kindTable_def)

text \<open>The list operations; a table is asked for by a path that the API server reads as the list.\<close>

definition listsOf :: "(kubeRequest \<Rightarrow> bool) \<Rightarrow> groupVersionResource \<Rightarrow> string set \<Rightarrow> bool" where
  "listsOf D gvr nss \<longleftrightarrow> (\<forall>ns \<in> nss. plainTarget gvr ns \<and> (gvrResource gvr = ''namespaces'' \<longrightarrow> ns = []) \<and> D (restRequest ''list'' gvr ns [] []))"

abbreviation allowed :: "(kubeRequest \<Rightarrow> bool) \<Rightarrow> podOp \<Rightarrow> bool" where
  "allowed D op \<equiv> list_all D (requestsOf op)"

lemma list_allowed:
  assumes "standardCluster env" "(gvk, gvr, b) \<in> set kindTable"
    and "listsOf D gvr (if b then if ns = [] then {[], ceNamespace (peCore env)} else {ns} else {[]})" and "b \<Longrightarrow> D accessReview"
  shows "sendsOnly (allowed D) (inCoreErr env (\<lambda>c. ResourcesList c gvk ns asTable opts))"
proof (intro sendsOnly_inCoreErr coreOnly_list)
  show "knowsKinds (ceKinds (coreAt env l))" "knowsScopes (ceDiscovery (coreAt env l))" for l
    using assms(1) by (simp_all add: standardCluster_def)
  show "(gvk, gvr, b) \<in> set kindTable" by (rule assms(2))
  show "allowed D (Api (OpReview gvr ns ''list''))" if b using assms(4) that by simp
  show "allowed D (Api (if asTable then OpTable (tablePath gvr ns') opts else OpList gvr ns' opts))"
    if "ns' \<in> (if b then if ns = [] then {[], ceNamespace (coreAt env l)} else {ns} else {[]})" for l ns'
  proof -
    have "ns' \<in> (if b then if ns = [] then {[], ceNamespace (peCore env)} else {ns} else {[]})" using that unfolding coreAt_simps .
    from assms(3) [unfolded listsOf_def, rule_format, OF this]
    have l: "plainTarget gvr ns'" "gvrResource gvr \<noteq> ''namespaces'' \<or> ns' = []" "D (restRequest ''list'' gvr ns' [] [])" by blast+
    show ?thesis using l(3) getPath_table [OF l(1,2)] by (cases asTable) simp_all
  qed
qed

lemma named_allowed:
  assumes "standardCluster env" "(gvk, gvr, True) \<in> set kindTable"
  shows "D (restRequest ''get'' gvr (podNamespace env ns) name []) \<Longrightarrow>
      sendsOnly (allowed D) (inCoreErr env (\<lambda>c. ResourcesGet c gvk ns name))"
    and "D (restRequest ''delete'' gvr (podNamespace env ns) name []) \<Longrightarrow>
      sendsOnly (allowed D) (inCoreErr env (\<lambda>c. ResourcesDelete c gvk ns name grace))"
proof -
  have k: "knowsKinds (ceKinds (coreAt env l))" "knowsScopes (ceDiscovery (coreAt env l))" for l
    using assms(1) by (simp_all add: standardCluster_def)
  have ns: "NamespaceOrDefault (coreAt env l) ns = podNamespace env ns" for l by (simp add: podNamespace_def NamespaceOrDefault_def)
  show "sendsOnly (allowed D) (inCoreErr env (\<lambda>c. ResourcesGet c gvk ns name))" if "D (restRequest ''get'' gvr (podNamespace env ns) name [])"
    unfolding ResourcesGet_def using that by (intro sendsOnly_inCoreErr coreOnly_onNamed [OF k assms(2)]) (simp add: ns)
  show "sendsOnly (allowed D) (inCoreErr env (\<lambda>c. ResourcesDelete c gvk ns name grace))" if "D (restRequest ''delete'' gvr (podNamespace env ns) name [])"
    unfolding ResourcesDelete_def using that by (intro sendsOnly_inCoreErr coreOnly_onNamed [OF k assms(2)]) (simp add: ns)
qed

lemma podNamespace_idem [simp]: "podNamespace env (podNamespace env ns) = podNamespace env ns"
  by (simp add: podNamespace_def NamespaceOrDefault_def)

lemma deleteAll_allowed:
  "(\<And>n. D (restRequest ''delete'' gvr ns n [])) \<Longrightarrow> sendsOnly (allowed D) (\<lambda>s. ((), deleteAll env gvr ns objs s))"
proof (induction objs)
  case (Cons obj objs)
  have "sendsOnly (allowed D) (\<lambda>s. case callApi env (OpDelete gvr ns (peNameOf env obj) None) s of (x, s) \<Rightarrow> ((), deleteAll env gvr ns objs s))"
    by (intro sendsOnly_bind sendsOnly_callApi Cons.IH Cons.prems) (simp add: Cons.prems)
  then show ?case by (simp add: case_prod_beta)
qed simp

lemma deleteSelected_allowed:
  assumes "D (restRequest ''list'' gvr ns [] [])" "\<And>n. D (restRequest ''delete'' gvr ns n [])"
  shows "sendsOnly (allowed D) (\<lambda>s. ((), deleteSelected env gvr ns sel s))"
proof -
  have "sendsOnly (allowed D) (\<lambda>s. case callApi env (OpList gvr ns (noOptions\<lparr>loLabelSelector := peSelector env sel\<rparr>)) s of
      (Inl e, s) \<Rightarrow> ((), s) | (Inr l, s) \<Rightarrow> ((), deleteAll env gvr ns (peItems env l) s))"
    using assms by (intro sendsOnly_sum sendsOnly_callApi sendsOnly_pure deleteAll_allowed) simp_all
  moreover have "(\<lambda>s. case callApi env (OpList gvr ns (noOptions\<lparr>loLabelSelector := peSelector env sel\<rparr>)) s of
      (Inl e, s) \<Rightarrow> ((), s) | (Inr l, s) \<Rightarrow> ((), deleteAll env gvr ns (peItems env l) s)) = (\<lambda>s. ((), deleteSelected env gvr ns sel s))"
    by (auto simp: fun_eq_iff deleteSelected_def split: prod.splits sum.splits)
  ultimately show ?thesis by simp
qed

lemma sendsOnly_then:
  assumes "sendsOnly P (\<lambda>s. ((), f s))" "sendsOnly P k"
  shows "sendsOnly P (\<lambda>s. k (f s))"
  using sendsOnly_bind [OF assms(1), of "\<lambda>_. k"] assms(2) by simp

lemma delete_allowed:
  assumes "standardCluster env"
    and "\<And>verb. verb \<in> {''get'', ''delete''} \<Longrightarrow> D (restRequest verb (coreGVR ''pods'') (podNamespace env ns) name [])"
    and "\<And>verb gvr n. verb \<in> {''list'', ''delete''} \<Longrightarrow> gvr \<in> {coreGVR ''services'', routeGVR} \<Longrightarrow> D (restRequest verb gvr (podNamespace env ns) n [])"
  shows "sendsOnly (allowed D) (PodsDelete env ns name)"
proof -
  let ?ns = "podNamespace env ns"
  let ?del = "\<lambda>gvr sel. deleteSelected env gvr ?ns sel"
  have del: "sendsOnly (allowed D) (\<lambda>s. ((), if b then ?del gvr sel s else s))" if "gvr \<in> {coreGVR ''services'', routeGVR}" for b gvr sel
    using that assms(3) by (cases b) (auto intro!: deleteSelected_allowed)
  have last: "sendsOnly (allowed D) (\<lambda>s. case inCoreErr env (\<lambda>c. ResourcesDelete c (coreGVK ''Pod'') ?ns name None) s of
      (Inl e, s) \<Rightarrow> (Inl e, s) | (Inr x, s) \<Rightarrow> (Inr ''Pod deleted successfully'', s))"
    using assms(1,2) by (intro sendsOnly_sum named_allowed(2) [OF _ in_kindTable(1)] sendsOnly_pure) simp_all
  have rest: "sendsOnly (allowed D) (\<lambda>s. case inCoreErr env (\<lambda>c. ResourcesDelete c (coreGVK ''Pod'') ?ns name None)
      (if b2 then ?del routeGVR sel (if b1 then ?del (coreGVR ''services'') sel s else s)
       else if b1 then ?del (coreGVR ''services'') sel s else s) of
      (Inl e, s) \<Rightarrow> (Inl e, s) | (Inr x, s) \<Rightarrow> (Inr ''Pod deleted successfully'', s))" for b1 b2 sel
    by (rule sendsOnly_then [OF del [of "coreGVR ''services''" b1 sel] sendsOnly_then [OF del [of routeGVR b2 sel] last]]) simp_all
  show ?thesis unfolding PodsDelete_def Let_def
    using assms(1,2) by (intro sendsOnly_sum named_allowed(1) [OF _ in_kindTable(1)] sendsOnly_pure rest) simp_all
qed

lemma logContainer_allowed:
  "D (restRequest ''get'' (coreGVR ''pods'') ns name []) \<Longrightarrow> sendsOnly (allowed D) (logContainer env ns name container)"
  unfolding logContainer_def by (intro sendsOnly_if sendsOnly_sum sendsOnly_callApi sendsOnly_pure) simp

lemma logLimited_allowed:
  assumes "container = [] \<Longrightarrow> D (restRequest ''get'' (coreGVR ''pods'') (podNamespace env ns) name [])"
    and "D (restRequest ''get'' (coreGVR ''pods'') (podNamespace env ns) name ''log'')"
  shows "sendsOnly (allowed D) (PodsLogLimited env ns name container previous tail maxBytes)"
proof -
  have st: "sendsOnly (allowed D) (\<lambda>s. case peStream env (psLog s) op of
      Inl err \<Rightarrow> (Inl (ApiErr err), logOp op s) | Inr stream \<Rightarrow> (f stream, logOp op s))" if "allowed D op" for op f
    using sendsOnly_log [of "allowed D" op "\<lambda>l. case peStream env l op of Inl err \<Rightarrow> Inl (ApiErr err) | Inr stream \<Rightarrow> f stream", OF that]
    by (rule back_subst [of "sendsOnly (allowed D)"]) (auto split: sum.split)
  have "sendsOnly (allowed D) (logContainer env (podNamespace env ns) name container)"
    using assms(1) logContainer_allowed [of D "podNamespace env ns" name env container] by (cases "container = []") (auto simp: logContainer_def [abs_def])
  then show ?thesis unfolding PodsLogLimited_def Let_def using assms(2)
    by (intro sendsOnly_sum sendsOnly_pure st) simp_all
qed

lemma log_allowed:
  assumes "D (restRequest ''get'' (coreGVR ''pods'') (podNamespace env ns) name [])"
    and "D (restRequest ''get'' (coreGVR ''pods'') (podNamespace env ns) name ''log'')"
  shows "sendsOnly (allowed D) (PodsLog env ns name container previous tail)"
  unfolding PodsLog_def by (rule logLimited_allowed) (use assms in simp_all)

lemma runObjects_scope: "r \<in> set (runObjects env ns name img port) \<Longrightarrow>
    snd (runScope r) = podNamespace env ns \<and> (\<exists>gvr \<in> {coreGVR ''pods'', coreGVR ''services'', routeGVR}. (fst (runScope r), gvr, True) \<in> set kindTable)"
  by (auto simp: runObjects_def Let_def split: if_splits)

lemma toUnstructured_mem: "toUnstructured env rs = Inr us \<Longrightarrow> u \<in> set us \<Longrightarrow> \<exists>r \<in> set rs. peUnstructured env r = Inr u"
  by (induction rs arbitrary: us) (auto simp: map_sum_def split: sum.splits)

lemma run_allowed:
  assumes "standardCluster env"
    and "\<And>gvr n. gvr \<in> {coreGVR ''pods'', coreGVR ''services'', routeGVR} \<Longrightarrow> D (restRequest ''patch'' gvr (podNamespace env ns) n [])"
  shows "sendsOnly (allowed D) (PodsRun env ns name img port)"
proof (cases "toUnstructured env (runObjects env ns name img port)")
  case (Inr us)
  have "\<exists>gvr. (ceGVK (peCore env) u, gvr, True) \<in> set kindTable \<and> D (restRequest ''patch'' gvr (podNamespace env (ceNamespaceOf (peCore env) u)) n [])"
    if u: "u \<in> set us" for u n
  proof -
    obtain r where r: "r \<in> set (runObjects env ns name img port)" "peUnstructured env r = Inr u"
      using toUnstructured_mem [OF Inr u] by blast
    then have "(ceGVK (peCore env) u, ceNamespaceOf (peCore env) u) = runScope r" using assms(1) by (simp add: standardCluster_def)
    then show ?thesis using runObjects_scope [OF r(1)] assms(2) by (cases "runScope r") auto
  qed
  moreover have "NamespaceOrDefault (coreAt env l) x = podNamespace env x" for l x by (simp add: podNamespace_def NamespaceOrDefault_def)
  moreover have "knowsKinds (ceKinds (coreAt env l))" "knowsScopes (ceDiscovery (coreAt env l))" for l
    using assms(1) by (simp_all add: standardCluster_def)
  ultimately have "sendsOnly (allowed D) (inCoreErr env (\<lambda>c. resourcesCreateOrUpdate c us))"
    by (intro sendsOnly_inCoreErr coreOnly_apply) simp_all
  then show ?thesis by (simp add: PodsRun_def [abs_def] Inr)
qed (simp add: PodsRun_def [abs_def])

lemma top_allowed:
  assumes "\<And>ns name. D (restRequest ''get'' (metricsGVR ''pods'') ns name [])" "\<And>ns. D (restRequest ''list'' (metricsGVR ''pods'') ns [] [])"
  shows "sendsOnly (allowed D) (PodsTop env allNs ns name opts)"
  unfolding PodsTop_def Let_def using assms
  by (intro sendsOnly_if sendsOnly_sum sendsOnly_callApi sendsOnly_pure) simp_all

lemma exec_allowed:
  assumes "D (restRequest ''get'' (coreGVR ''pods'') (podNamespace env ns) name [])"
    and "\<And>verb. verb \<in> {''get'', ''create''} \<Longrightarrow> D (restRequest verb (coreGVR ''pods'') (podNamespace env ns) name ''exec'')"
  shows "sendsOnly (allowed D) (PodsExec env ns name container command)"
proof -
  have run: "sendsOnly (allowed D) (runExec env limit op)" if "allowed D op" for limit op
    using that unfolding sendsOnly_def runExec_def logOp_def by (fastforce split: prod.splits option.splits)
  have exec: "sendsOnly (allowed D) (\<lambda>s. case peExecutor env op of Some err \<Rightarrow> (Inl (ExecutorErr err), s) | None \<Rightarrow> runExec env limit op s)"
    if "allowed D op" for limit op
    using run [OF that] by (cases "peExecutor env op") simp_all
  show ?thesis
  proof (cases "BackendLimit (peBackendLimit env)")
    case (Inr limit)
    have "sendsOnly (allowed D) (\<lambda>s. case callApi env (OpGet (coreGVR ''pods'') (podNamespace env ns) name []) s of
        (Inl err, s) \<Rightarrow> (Inl (ApiErr err), s)
      | (Inr obj, s) \<Rightarrow>
          if poPhase (pePod env obj) = ''Succeeded'' \<or> poPhase (pePod env obj) = ''Failed'' then (Inl (CompletedPod (poPhase (pePod env obj))), s)
          else (case peExecutor env (PodExec (podNamespace env ns) name (resolveContainer (pePod env obj) container) command) of
                  Some err \<Rightarrow> (Inl (ExecutorErr err), s)
                | None \<Rightarrow> runExec env limit (PodExec (podNamespace env ns) name (resolveContainer (pePod env obj) container) command) s))"
      using assms by (intro sendsOnly_sum sendsOnly_callApi sendsOnly_pure sendsOnly_if exec) simp_all
    then show ?thesis unfolding PodsExec_def Inr sum.case Let_def .
  qed (simp add: PodsExec_def [abs_def])
qed

lemma node_allowed:
  assumes "standardCluster env" "D (restRequest ''get'' (coreGVR ''nodes'') [] name [])"
    and "D (restRequest ''get'' (coreGVR ''nodes'') [] name ''proxy'')"
  shows "sendsOnly (allowed D) (NodesLog env name query tail)" "sendsOnly (allowed D) (NodesStatsSummary env name)"
proof -
  have node: "sendsOnly (allowed D) (\<lambda>s. case nodeExists env name s of (Inl err, s) \<Rightarrow> (Inl err, s)
      | (Inr x, s) \<Rightarrow> (f (psLog s), logOp (NodeProxy (absPath ([''api'', ''v1'', ''nodes'', name, ''proxy''] @ rest)) ps) s))"
    if "list_all plainName rest" for f :: "podOp list \<Rightarrow> podErr + 'b" and rest ps
  proof (rule sendsOnlyI)
    fix s r s' assume s: "mapperOk (psMapper s)" "(case nodeExists env name s of (Inl err, s) \<Rightarrow> (Inl err, s)
      | (Inr x, s) \<Rightarrow> (f (psLog s), logOp (NodeProxy (absPath ([''api'', ''v1'', ''nodes'', name, ''proxy''] @ rest)) ps) s)) = (r, s')"
    let ?get = "OpGet (coreGVR ''nodes'') [] name []"
    show "mapperOk (psMapper s') \<and> (\<exists>ops. psLog s' = psLog s @ ops \<and> list_all (allowed D) ops)"
    proof (cases "peAnswer env (psLog s) ?get")
      case (Inl err)
      then show ?thesis using s assms(2) by (auto simp: nodeExists_def callApi_def)
    next
      case (Inr obj)
      then have "plainName name" using assms(1) unfolding standardCluster_def by (metis isl_def sum.distinct(1))
      from proxy_path [OF this that] Inr s assms(2,3) show ?thesis
        by (auto simp: nodeExists_def callApi_def logOp_def intro!: exI [of _ "[Api ?get, NodeProxy (absPath ([''api'', ''v1'', ''nodes'', name, ''proxy''] @ rest)) ps]"])
    qed
  qed
  have rest: "list_all plainName [''logs'']" "list_all plainName [''stats'', ''summary'']" by (simp_all add: plainName_def segOk_def)
  show "sendsOnly (allowed D) (NodesLog env name query tail)" unfolding NodesLog_def Let_def
    by (rule node [OF rest(1), unfolded append_Cons append_Nil])
  show "sendsOnly (allowed D) (NodesStatsSummary env name)" unfolding NodesStatsSummary_def Let_def
    by (rule node [OF rest(2), unfolded append_Cons append_Nil])
qed

lemma nodesTop_allowed:
  assumes "\<And>name. D (restRequest ''get'' (metricsGVR ''nodes'') [] name [])" "D (restRequest ''list'' (metricsGVR ''nodes'') [] [] [])"
  shows "sendsOnly (allowed D) (NodesTop env name opts)"
  unfolding NodesTop_def using assms by (intro sendsOnly_if sendsOnly_sum sendsOnly_callApi sendsOnly_pure) simp_all

lemma paged_allowed:
  "(\<And>name. D (restRequest ''get'' (coreGVR ''nodes'') [] name [])) \<Longrightarrow> sendsOnly (allowed D) (pagedAllocatable env ms available)"
proof (induction ms arbitrary: available)
  case (Cons m ms)
  have "sendsOnly (allowed D) (\<lambda>s. case addNodeAllocatable env (ctNode env n) available of Inl err \<Rightarrow> (Inl err, s)
      | Inr available \<Rightarrow> pagedAllocatable env ms available s)" for n
    using Cons by (cases "addNodeAllocatable env (ctNode env n) available") simp_all
  then have "sendsOnly (allowed D) (\<lambda>s. case callApi (ctPods env) (OpGet (coreGVR ''nodes'') [] (nmtName m) []) s of
        (Inl err, s) \<Rightarrow> (Inl (NodeGetFail (nmtName m) err), s)
      | (Inr n, s) \<Rightarrow> (case addNodeAllocatable env (ctNode env n) available of Inl err \<Rightarrow> (Inl err, s)
           | Inr available \<Rightarrow> pagedAllocatable env ms available s))"
    using Cons.prems by (intro sendsOnly_sum sendsOnly_callApi sendsOnly_pure) simp_all
  then show ?case by (rule back_subst [of "sendsOnly (allowed D)"]) (simp add: fun_eq_iff)
qed (simp add: sendsOnly_def)

lemma allocatable_allowed:
  assumes "\<And>name. D (restRequest ''get'' (coreGVR ''nodes'') [] name [])" "D (restRequest ''list'' (coreGVR ''nodes'') [] [] [])"
  shows "sendsOnly (allowed D) (allocatableOf env opts ms)"
  unfolding allocatableOf_def using assms
  by (intro sendsOnly_if sendsOnly_sum sendsOnly_callApi sendsOnly_pure paged_allowed) simp_all

lemma events_allowed:
  assumes "standardCluster env" "D accessReview" "listsOf D (coreGVR ''events'') (if ns = [] then {[], ceNamespace (peCore env)} else {ns})"
  shows "sendsOnly (allowed D) (EventsList env ns opts)"
proof -
  have "sendsOnly (allowed D) (\<lambda>s. case oeList (peOut env) raw of None \<Rightarrow> (Inr ([], listMeta env raw), s)
      | Some items \<Rightarrow> (map_sum id (\<lambda>rows. (rows, listMeta env raw)) (eventRows env items), s))" for raw
    by (cases "oeList (peOut env) raw") simp_all
  then show ?thesis unfolding EventsList_def using assms
    by (intro sendsOnly_sum sendsOnly_pure list_allowed [OF _ in_kindTable(2)]) simp_all
qed

section \<open>The tools\<close>

text \<open>A call in scope: its namespace, where it gives one, and the default are names, not paths.\<close>

definition plainScope :: "podEnv \<Rightarrow> arguments \<Rightarrow> bool" where
  "plainScope env args \<longleftrightarrow> plainName (argumentString args ''namespace'' (ceNamespace (peCore env)))"

lemma namespace_argument:
  "plainScope env args \<Longrightarrow> podNamespace env (argumentString args ''namespace'' []) = argumentString args ''namespace'' (ceNamespace (peCore env))"
  "plainScope env args \<Longrightarrow> podNamespace env (argumentString args ''namespace'' (ceNamespace (peCore env))) = argumentString args ''namespace'' (ceNamespace (peCore env))"
  by (auto simp: plainScope_def podNamespace_def NamespaceOrDefault_def argumentString_def plainName_def segOk_def split: option.splits goVal.splits)

lemma pOptionalBool_ok: "pOptionalBool k d p = (v, p') \<Longrightarrow> pErr p' = None \<Longrightarrow> p' = p \<and> pErr p = None"
  by (auto simp: pOptionalBool_def split: if_splits sum.splits)

lemma namespaceAndName_ok:
  assumes "namespaceAndName args = (ns, name, p)" "pErr p = None"
  shows "ns = argumentString args ''namespace'' [] \<and> name = argumentString args ''name'' [] \<and> p = WrapParams args"
  using assms pRequiredString_ok [of "''name''" _ name p "[]"] pOptionalString_ok [of "''namespace''" "[]" "WrapParams args" ns]
  by (fastforce simp: namespaceAndName_def Let_def WrapParams_def split: prod.splits)

lemma pageOptions_ok: "pageOptions env p label field = Inr opts \<Longrightarrow> pErr p = None"
  by (auto simp: pageOptions_def ApplyListPage_def map_sum_def dest!: pOptionalString_ok pOptionalInt64_ok split: sum.splits prod.splits option.splits)

lemma listed_allowed: "sendsOnly P call \<Longrightarrow> sendsOnly P (listed env call)"
  unfolding listed_def by (intro sendsOnly_sum sendsOnly_pure)

lemma sendsOnly_checked:
  "(pErr p = None \<Longrightarrow> sendsOnly P call) \<Longrightarrow> sendsOnly P (\<lambda>s. case pErr p of None \<Rightarrow> call s | Some err \<Rightarrow> (f err, s))"
  by (cases "pErr p") simp_all

lemma sendsOnly_paged:
  "(\<And>opts. x = Inr opts \<Longrightarrow> sendsOnly P (k opts)) \<Longrightarrow> sendsOnly P (\<lambda>s. case x of Inl err \<Rightarrow> (f err, s) | Inr opts \<Rightarrow> k opts s)"
  by (cases x) simp_all

abbreviation argNamespace :: "coreToolEnv \<Rightarrow> arguments \<Rightarrow> string" where
  "argNamespace env args \<equiv> argumentString args ''namespace'' (ceNamespace (ctCore env))"

abbreviation argName :: "arguments \<Rightarrow> string" where
  "argName args \<equiv> argumentString args ''name'' []"

lemma plain_core [simp]: "plainTarget (coreGVR r) ns \<longleftrightarrow> plainName r \<and> (ns = [] \<or> plainName ns)"
  by (simp add: plainTarget_def coreGVR_def plainName_def segOk_def)

lemma WrapParams_simps [simp]: "pArgs (WrapParams args) = args" "pErr (WrapParams args) = None"
  by (simp_all add: WrapParams_def)

lemma podsList_sends:
  assumes "standardCluster (ctPods env)" "D accessReview" "D (restRequest ''list'' (coreGVR ''pods'') [] [] [])"
    "D (restRequest ''list'' (coreGVR ''pods'') (ceNamespace (ctCore env)) [] [])"
  shows "sendsOnly (allowed D) (podsListInAllNamespaces env args)"
proof -
  obtain l p1 f p2 where p: "pOptionalString ''labelSelector'' [] (WrapParams args) = (l, p1)" "pOptionalString ''fieldSelector'' [] p1 = (f, p2)"
    by (metis surj_pair)
  have "listsOf D (coreGVR ''pods'') {[], ceNamespace (ctCore env)}"
    using assms by (simp add: listsOf_def standardCluster_def) (simp add: coreGVR_def plainName_def segOk_def)
  then show ?thesis using assms(2) unfolding podsListInAllNamespaces_def p Let_def prod.case PodsListInAllNamespaces_def
    by (intro sendsOnly_paged listed_allowed list_allowed [OF assms(1) in_kindTable(1)]) simp
qed

lemma podsListInNamespace_sends:
  assumes "standardCluster (ctPods env)" "plainScope (ctPods env) args" "D (restRequest ''list'' (coreGVR ''pods'') (argNamespace env args) [] [])"
    "D accessReview"
  shows "sendsOnly (allowed D) (podsListInNamespace env args)"
proof -
  obtain ns p0 l p1 f p2 where p: "pRequiredString ''namespace'' (WrapParams args) = (ns, p0)"
    "pOptionalString ''labelSelector'' [] p0 = (l, p1)" "pOptionalString ''fieldSelector'' [] p1 = (f, p2)" by (metis surj_pair)
  show ?thesis unfolding podsListInNamespace_def p Let_def prod.case PodsListInNamespace_def
  proof (intro sendsOnly_paged listed_allowed list_allowed [OF assms(1) in_kindTable(1)])
    fix opts assume "pageOptions env p2 l f = Inr opts"
    from pageOptions_ok [OF this] have "pErr p2 = None" .
    with pOptionalString_ok [OF p(3)] pOptionalString_ok [OF p(2)] have "pErr p0 = None" by auto
    with pRequiredString_ok [OF p(1)] have "ns = argNamespace env args" by auto
    moreover have "plainName (argNamespace env args)" using assms(2) by (simp add: plainScope_def)
    ultimately show "listsOf D (coreGVR ''pods'') (if True then if ns = [] then {[], ceNamespace (ctCore env)} else {ns} else {[]})"
      using assms(3) by (simp add: listsOf_def) (simp add: plainName_def segOk_def coreGVR_def)
  qed (rule assms(4))
qed

lemma podsGet_sends:
  assumes "standardCluster (ctPods env)" "plainScope (ctPods env) args" "D (restRequest ''get'' (coreGVR ''pods'') (argNamespace env args) (argName args) [])"
  shows "sendsOnly (allowed D) (podsGet env args)"
proof -
  obtain ns name p where n: "namespaceAndName args = (ns, name, p)" by (metis prod_cases3)
  show ?thesis unfolding podsGet_def n Let_def prod.case PodsGet_def
    using namespaceAndName_ok [OF n] assms(2,3)
    by (intro sendsOnly_checked sendsOnly_sum sendsOnly_pure named_allowed(1) [OF assms(1) in_kindTable(1)]) (simp add: namespace_argument)
qed

lemma podsDelete_sends:
  assumes "standardCluster (ctPods env)" "plainScope (ctPods env) args"
    and "\<And>verb. verb \<in> {''get'', ''delete''} \<Longrightarrow> D (restRequest verb (coreGVR ''pods'') (argNamespace env args) (argName args) [])"
    and "\<And>verb gvr n. verb \<in> {''list'', ''delete''} \<Longrightarrow> gvr \<in> {coreGVR ''services'', routeGVR} \<Longrightarrow> D (restRequest verb gvr (argNamespace env args) n [])"
  shows "sendsOnly (allowed D) (podsDelete env args)"
proof -
  obtain ns name p where n: "namespaceAndName args = (ns, name, p)" by (metis prod_cases3)
  show ?thesis unfolding podsDelete_def n Let_def prod.case
    using namespaceAndName_ok [OF n] assms(2-4)
    by (intro sendsOnly_checked sendsOnly_sum sendsOnly_pure delete_allowed [OF assms(1)]) (simp_all add: namespace_argument)
qed

lemma podsTop_sends:
  assumes "\<And>ns name. D (restRequest ''get'' (metricsGVR ''pods'') ns name [])" "\<And>ns. D (restRequest ''list'' (metricsGVR ''pods'') ns [] [])"
  shows "sendsOnly (allowed D) (podsTop env args)"
proof -
  obtain a p1 ns p2 name p3 l p4 where p: "pOptionalBool ''all_namespaces'' True (WrapParams args) = (a, p1)"
    "pOptionalString ''namespace'' [] p1 = (ns, p2)" "pOptionalString ''name'' [] p2 = (name, p3)" "pOptionalString ''label_selector'' [] p3 = (l, p4)"
    by (metis surj_pair)
  have pr: "sendsOnly (allowed D) (\<lambda>s. case ctPodTop env items of Inl err \<Rightarrow> (Inl (RenderFail err), s) | Inr printed \<Rightarrow> (f printed, s))" for items f
    by (cases "ctPodTop env items") simp_all
  have "sendsOnly (allowed D) (\<lambda>s. case x of (items, page) \<Rightarrow> (case ctPodTop env items of Inl err \<Rightarrow> (Inl (RenderFail err), s) | Inr printed \<Rightarrow> (f items page printed, s)))" for x f
    using pr by (cases x) simp
  then show ?thesis unfolding podsTop_def p Let_def prod.case
    using assms by (intro sendsOnly_paged sendsOnly_sum top_allowed sendsOnly_pure) simp_all
qed

lemma podsExec_sends:
  assumes "plainScope (ctPods env) args" "D (restRequest ''get'' (coreGVR ''pods'') (argNamespace env args) (argName args) [])"
    and "\<And>verb. verb \<in> {''get'', ''create''} \<Longrightarrow> D (restRequest verb (coreGVR ''pods'') (argNamespace env args) (argName args) ''exec'')"
  shows "sendsOnly (allowed D) (podsExec env args)"
proof -
  obtain ns name p c p1 where n: "namespaceAndName args = (ns, name, p)" "pOptionalString ''container'' [] p = (c, p1)" by (metis prod_cases3 surj_pair)
  have "sendsOnly (allowed D) (\<lambda>s. case commandOf args of None \<Rightarrow> (Inl BadCommand, s)
     | Some command \<Rightarrow> (case PodsExec (ctPods env) ns name c command s of (Inl err, s) \<Rightarrow> (Inl (OpFail err), s)
         | (Inr out, s) \<Rightarrow> (Inr (plainText (execAnswer name ns out)), s)))" if "pErr p1 = None"
  proof -
    have "pErr p = None" using pOptionalString_ok [OF n(2)] that by auto
    note v = namespaceAndName_ok [OF n(1) this]
    show ?thesis
    proof (cases "commandOf args")
      case (Some cmd)
      show ?thesis unfolding Some option.case using v assms
        by (intro sendsOnly_sum sendsOnly_pure exec_allowed) (simp_all add: namespace_argument)
    qed simp
  qed
  then show ?thesis unfolding podsExec_def n Let_def prod.case by (intro sendsOnly_checked)
qed

lemma podsLog_sends:
  assumes "plainScope (ctPods env) args" "D (restRequest ''get'' (coreGVR ''pods'') (argNamespace env args) (argName args) [])"
    and "D (restRequest ''get'' (coreGVR ''pods'') (argNamespace env args) (argName args) ''log'')"
  shows "sendsOnly (allowed D) (podsLog env args)"
proof -
  obtain ns name p c p1 pv p2 t p3 where n: "namespaceAndName args = (ns, name, p)" "pOptionalString ''container'' [] p = (c, p1)"
    "pOptionalBool ''previous'' False p1 = (pv, p2)" "pOptionalInt64 (ceOob (ctCore env)) ''tail'' 0 p2 = (t, p3)" by (metis prod_cases3 surj_pair)
  have v: "ns = argumentString args ''namespace'' [] \<and> name = argName args" if "pErr p3 = None"
    using namespaceAndName_ok [OF n(1)] pOptionalString_ok [OF n(2)] pOptionalBool_ok [OF n(3)] pOptionalInt64_ok [OF n(4) that] by auto
  show ?thesis unfolding podsLog_def n Let_def prod.case using v assms
    by (intro sendsOnly_checked sendsOnly_sum sendsOnly_pure log_allowed) (simp_all add: namespace_argument)
qed

lemma podsRun_sends:
  assumes "standardCluster (ctPods env)" "plainScope (ctPods env) args"
    and "\<And>gvr n. gvr \<in> {coreGVR ''pods'', coreGVR ''services'', routeGVR} \<Longrightarrow> D (restRequest ''patch'' gvr (argNamespace env args) n [])"
  shows "sendsOnly (allowed D) (podsRun env args)"
proof -
  obtain ns p name p1 i p2 pt p3 where n: "pOptionalString ''namespace'' [] (WrapParams args) = (ns, p)" "pOptionalString ''name'' [] p = (name, p1)"
    "pRequiredString ''image'' p1 = (i, p2)" "pOptionalInt64 (ceOob (ctCore env)) ''port'' 0 p2 = (pt, p3)" by (metis surj_pair)
  have v: "ns = argumentString args ''namespace'' []" if "pErr p3 = None"
    using pOptionalString_ok [OF n(1)] pOptionalString_ok [OF n(2)] pRequiredString_ok [OF n(3)] pOptionalInt64_ok [OF n(4) that] by auto
  show ?thesis unfolding podsRun_def n Let_def prod.case using v assms(2,3)
    by (intro sendsOnly_checked sendsOnly_sum sendsOnly_pure run_allowed [OF assms(1)]) (simp add: namespace_argument)
qed

lemma nonEmptyArgument_value: "nonEmptyArgument args k = Some v \<Longrightarrow> v = argumentString args k d"
  by (auto simp: nonEmptyArgument_def argumentString_def split: option.splits goVal.splits if_splits)

lemma sendsOnly_given:
  "(\<And>v. x = Some v \<Longrightarrow> sendsOnly P (k v)) \<Longrightarrow> sendsOnly P (\<lambda>s. case x of None \<Rightarrow> (f, s) | Some v \<Rightarrow> k v s)"
  by (cases x) simp_all

lemma nodes_sends:
  assumes "standardCluster (ctPods env)" "D (restRequest ''get'' (coreGVR ''nodes'') [] (argName args) [])"
    and "D (restRequest ''get'' (coreGVR ''nodes'') [] (argName args) ''proxy'')"
  shows "sendsOnly (allowed D) (nodesLog env args)" "sendsOnly (allowed D) (nodesStatsSummary env args)"
proof -
  have v: "v = argName args" if "nonEmptyArgument args ''name'' = Some v" for v using nonEmptyArgument_value [OF that] .
  show "sendsOnly (allowed D) (nodesLog env args)" unfolding nodesLog_def
    using v assms(2,3) by (intro sendsOnly_given sendsOnly_paged sendsOnly_sum sendsOnly_pure node_allowed(1) [OF assms(1)]) auto
  show "sendsOnly (allowed D) (nodesStatsSummary env args)" unfolding nodesStatsSummary_def
    using v assms(2,3) by (intro sendsOnly_given sendsOnly_sum sendsOnly_pure node_allowed(2) [OF assms(1)]) auto
qed

lemma nodesTop_sends:
  assumes "\<And>verb r name. verb \<in> {''get'', ''list''} \<Longrightarrow> r \<in> {metricsGVR ''nodes'', coreGVR ''nodes''} \<Longrightarrow> D (restRequest verb r [] name [])"
  shows "sendsOnly (allowed D) (nodesTop env args)"
proof -
  have pr: "sendsOnly (allowed D) (\<lambda>s. case ctNodeTop env ms a of Inl err \<Rightarrow> (Inl (RenderFail err), s) | Inr printed \<Rightarrow> (f printed, s))" for ms a f
    by (cases "ctNodeTop env ms a") simp_all
  have al: "sendsOnly (allowed D) (\<lambda>s. case allocatableOf env opts ms s of (Inl err, s) \<Rightarrow> (Inl err, s)
      | (Inr a, s) \<Rightarrow> (case ctNodeTop env ms a of Inl err \<Rightarrow> (Inl (RenderFail err), s) | Inr printed \<Rightarrow> (f ms printed, s)))" for opts ms f
    using assms by (intro sendsOnly_sum sendsOnly_pure allocatable_allowed pr) simp_all
  have "sendsOnly (allowed D) (\<lambda>s. case x of (ms, page) \<Rightarrow> (case allocatableOf env opts ms s of (Inl err, s) \<Rightarrow> (Inl err, s)
      | (Inr a, s) \<Rightarrow> (case ctNodeTop env ms a of Inl err \<Rightarrow> (Inl (RenderFail err), s) | Inr printed \<Rightarrow> (g ms page printed, s))))" for opts x g
    using al by (cases x) simp
  then show ?thesis unfolding nodesTop_def using assms
    by (intro sendsOnly_paged sendsOnly_sum sendsOnly_pure nodesTop_allowed) simp_all
qed

lemma eventsList_sends:
  assumes "standardCluster (ctPods env)" "plainScope (ctPods env) args" "args ''namespace'' \<noteq> None" "D accessReview"
    "D (restRequest ''list'' (coreGVR ''events'') (argNamespace env args) [] [])"
  shows "sendsOnly (allowed D) (eventsList env args)"
proof -
  obtain ns p0 f p1 where p: "pOptionalString ''namespace'' [] (WrapParams args) = (ns, p0)" "pOptionalString ''fieldSelector'' [] p0 = (f, p1)"
    by (metis surj_pair)
  have render: "sendsOnly (allowed D) (\<lambda>s. case x of (rows, cont, remaining) \<Rightarrow> (case t rows of Inl err \<Rightarrow> (Inl err, s)
      | Inr printed \<Rightarrow> (g rows cont remaining printed, s)))" for x and t :: "goMap list \<Rightarrow> toolFail + string" and g
    by (cases x; cases "t (fst x)") simp_all
  show ?thesis unfolding eventsList_def p Let_def prod.case
  proof (intro sendsOnly_paged sendsOnly_sum sendsOnly_pure events_allowed [where D = D, OF assms(1,4)] render)
    fix opts assume "pageOptions env p1 [] f = Inr opts"
    from pageOptions_ok [OF this] have "pErr p1 = None" .
    with pOptionalString_ok [OF p(2)] have e: "p1 = p0 \<and> pErr p0 = None" by auto
    with pOptionalString_ok [OF p(1)] have "ns = argumentString args ''namespace'' []" by auto
    moreover have "\<exists>v. args ''namespace'' = Some (GStr v)"
      using p(1) e assms(3) by (auto simp: pOptionalString_def optionalString_def split: option.splits goVal.splits sum.splits)
    ultimately have "ns = argNamespace env args" by (auto simp: argumentString_def)
    moreover have "plainName (argNamespace env args)" using assms(2) by (simp add: plainScope_def)
    ultimately show "listsOf D (coreGVR ''events'') (if ns = [] then {[], ceNamespace (ctCore env)} else {ns})"
      using assms(5) by (simp add: listsOf_def) (simp add: plainName_def segOk_def coreGVR_def)
  qed
qed

lemma namespaces_sends:
  assumes "standardCluster (ctPods env)"
  shows "D (restRequest ''list'' (coreGVR ''namespaces'') [] [] []) \<Longrightarrow> sendsOnly (allowed D) (namespacesList env args)"
    and "D (restRequest ''list'' projectGVR [] [] []) \<Longrightarrow> sendsOnly (allowed D) (projectsList env args)"
proof -
  obtain f p where p: "pOptionalString ''fieldSelector'' [] (WrapParams args) = (f, p)" by (metis surj_pair)
  show "sendsOnly (allowed D) (namespacesList env args)" if "D (restRequest ''list'' (coreGVR ''namespaces'') [] [] [])"
    unfolding namespacesList_def p Let_def prod.case NamespacesList_def using that
    by (intro sendsOnly_paged listed_allowed list_allowed [OF assms in_kindTable(5)]) (simp_all add: listsOf_def plainName_def segOk_def)
  show "sendsOnly (allowed D) (projectsList env args)" if "D (restRequest ''list'' projectGVR [] [] [])"
    unfolding projectsList_def ProjectsList_def using that
    by (intro sendsOnly_paged listed_allowed list_allowed [OF assms in_kindTable(6)]) (simp_all add: listsOf_def plainName_def segOk_def plainTarget_def projectGVR_def)
qed

lemmas core_tools = coreTools_def initEvents_def initNamespaces_def initNodes_def initPods_def core_decls readingTool_def writingTool_def

lemma core_tool_sends:
  assumes "standardCluster (ctPods env)" "plainScope (ctPods env) args" "t \<in> set coreTools"
    and "tdName t = ''events_list'' \<Longrightarrow> args ''namespace'' \<noteq> None"
  shows "sendsOnly (allowed (\<lambda>r. r = accessReview \<or> declaredFor (tdRBAC t) args (ceNamespace (ctCore env)) r)) (tdRun t env args)"
proof -
  note r = restRequest_def coreGVR_def routeGVR_def metricsGVR_def projectGVR_def
  define W where "W m q \<longleftrightarrow> q = accessReview \<or> declaredFor m args (ceNamespace (ctCore env)) q" for m q
  have w [simp]: "W m accessReview" and d: "declaredFor m args (ceNamespace (ctCore env)) (restRequest v g n k sub) \<Longrightarrow> W m (restRequest v g n k sub)"
    for m v g n k sub by (simp_all add: W_def)
  have "sendsOnly (allowed (W (tdRBAC t))) (tdRun t env args)" using assms(3,4) unfolding core_tools
    by (auto simp: r intro!: d podsList_sends [OF assms(1)] podsListInNamespace_sends [OF assms(1,2)] podsGet_sends [OF assms(1,2)]
        podsDelete_sends [OF assms(1,2)] podsTop_sends podsExec_sends [OF assms(2)] podsLog_sends [OF assms(2)] podsRun_sends [OF assms(1,2)]
        nodes_sends [OF assms(1)] nodesTop_sends eventsList_sends [OF assms(1,2)] namespaces_sends [OF assms(1)])
  then show ?thesis unfolding W_def .
qed

end
