(* ===== verification/Health_Check.thy ===== *)
theory Health_Check
  imports Report_Steps Core_Requests Result_Limit
begin

text \<open>
  The cluster health check prompt, \<open>pkg/toolsets/core/health_check.go\<close>: one report from the lists of
  nodes, cluster operators, pods, workloads, volume claims and events, under the result budget.
  The clock and the typed views of the listed objects are parameters; a time that is zero is
  \<^const>\<open>None\<close>.
\<close>

section \<open>What is read\<close>

record condition =
  cdType :: string
  cdStatus :: string
  cdMessage :: string

record nodeHealth =
  nhName :: string
  nhConditions :: "condition list"

record containerHealth =
  chReady :: bool
  chRestarts :: int
  chWaiting :: "(string \<times> string) option"
  chTerminated :: "string option"

record podHealth =
  phNamespace :: string
  phName :: string
  phPhase :: string
  phContainers :: "containerHealth list"

text \<open>Deployments and daemon sets: ready, wanted and unavailable; stateful sets: ready and specified.\<close>

record workload =
  wlNamespace :: string
  wlName :: string
  wlReady :: int
  wlWanted :: int
  wlUnavailable :: int
  wlSpecified :: "int option"

record claimHealth =
  clNamespace :: string
  clName :: string
  clPhase :: string

record eventHealth =
  evType :: string
  evLast :: "int option"
  evTime :: "int option"
  evKind :: string
  evName :: string
  evReason :: string
  evCount :: int
  evMessage :: string

record healthEnv =
  hePods :: podEnv
  heCollected :: string
  heHourAgo :: int
  heNode :: "kubeObject \<Rightarrow> nodeHealth"
  hePod :: "kubeObject \<Rightarrow> podHealth"
  heWorkload :: "kubeObject \<Rightarrow> workload"
  heClaim :: "kubeObject \<Rightarrow> claimHealth"
  heEvent :: "kubeObject \<Rightarrow> eventHealth"

type_synonym healthReport = "podState report"
type_synonym gather = "healthReport \<Rightarrow> podErr option \<times> healthReport"

definition listObjects :: "healthEnv \<Rightarrow> groupVersionResource \<Rightarrow> string \<Rightarrow> podState \<Rightarrow> (podErr + kubeObject list) \<times> podState" where
  "listObjects env gvr ns s =
     (case callApi (hePods env) (OpList gvr ns noOptions) s of
        (r, s) \<Rightarrow> (map_sum ApiErr (peItems (hePods env)) r, s))"

definition appsGVR :: "string \<Rightarrow> groupVersionResource" where
  "appsGVR r = \<lparr>gvrGroup = ''apps'', gvrVersion = ''v1'', gvrResource = r\<rparr>"

section \<open>Sections of issues\<close>

definition sectionSummaryReserve :: int where "sectionSummaryReserve = 80"

definition podHighRestartThreshold :: int where "podHighRestartThreshold = 5"

definition appendIssueBlock :: "string \<Rightarrow> builder \<Rightarrow> builder" where
  "appendIssueBlock block lines =
     (if Truncated lines \<or> block = [] then lines
      else
        let lines = (if Len lines > 0 then snd (WriteString [nl, nl] lines) else lines)
        in if Truncated lines then lines else snd (WriteString block lines))"

definition writeSummaryAndBlocks :: "builder \<Rightarrow> string \<Rightarrow> string \<Rightarrow> builder \<Rightarrow> builder" where
  "writeSummaryAndBlocks lines summary emptyNote b =
     (let b = snd (WriteString summary b)
      in if Truncated b then b
         else if Len lines = 0 then snd (WriteString emptyNote b)
         else snd (WriteString (bBuf lines) b))"

text \<open>The loops over a list: an object with issues is counted, and its block kept while there is room.\<close>

fun scanItems :: "('a \<Rightarrow> string option) \<Rightarrow> 'a list \<Rightarrow> int \<Rightarrow> builder \<Rightarrow> int \<times> builder" where
  "scanItems block [] n lines = (n, lines)"
| "scanItems block (x # xs) n lines =
     (case block x of
        None \<Rightarrow> scanItems block xs n lines
      | Some t \<Rightarrow> scanItems block xs (n + 1) (if Truncated lines then lines else appendIssueBlock t lines))"

definition issueSection :: "('a \<Rightarrow> string option) \<Rightarrow> (int \<Rightarrow> string) \<Rightarrow> string \<Rightarrow> 'a list \<Rightarrow> builder \<Rightarrow> builder" where
  "issueSection block summary note items b =
     (case scanItems block items 0 (Scratch (sectionSummaryReserve + int (length ResultTruncationNotice)) (Some b)) of
        (withIssues, lines) \<Rightarrow> writeSummaryAndBlocks lines (summary withIssues) (if withIssues = 0 then note else []) b)"

definition bullets :: "string list \<Rightarrow> string" where
  "bullets issues = goJoin (nl # ''  - '') issues"

definition totalLine :: "string \<Rightarrow> int \<Rightarrow> string" where
  "totalLine label n = ''**'' @ label @ '':** '' @ goSigned n"

definition gatherList :: "healthEnv \<Rightarrow> groupVersionResource \<Rightarrow> string \<Rightarrow> string \<Rightarrow> (kubeObject list \<Rightarrow> builder \<Rightarrow> builder) \<Rightarrow> gather" where
  "gatherList env gvr ns noneFound write w =
     (if Truncated (fst w) then (None, w)
      else (case listObjects env gvr ns (snd w) of
          (Inl err, s) \<Rightarrow> (Some err, fst w, s)
        | (Inr items, s) \<Rightarrow>
            (None, if items = [] then put noneFound (fst w, s) else (write items (fst w), s))))"

subsection \<open>Nodes\<close>

fun scanConditions :: "condition list \<Rightarrow> string \<times> int \<times> string list \<Rightarrow> string \<times> int \<times> string list" where
  "scanConditions [] acc = acc"
| "scanConditions (c # cs) (status, ready, issues) =
     scanConditions cs
       (if cdType c = ''Ready'' then
          if cdStatus c = ''True'' then (''Ready'', ready + 1, issues)
          else (''NotReady'', ready, issues @ [''Not ready: '' @ cdMessage c])
        else if cdStatus c = ''True'' then (status, ready, issues @ [cdType c @ '': '' @ cdMessage c])
        else (status, ready, issues))"

definition nodeBlock :: "nodeHealth \<Rightarrow> string option" where
  "nodeBlock n =
     (case scanConditions (nhConditions n) (''Unknown'', 0, []) of
        (status, _, issues) \<Rightarrow>
          if issues = [] then None
          else Some (''- **'' @ nhName n @ ''** (Status: '' @ status @ '')'' @ [nl] @ ''  - '' @ bullets issues))"

definition healthyNodes :: "nodeHealth list \<Rightarrow> int" where
  "healthyNodes nodes = sum_list (map (\<lambda>n. fst (snd (scanConditions (nhConditions n) (''Unknown'', 0, [])))) nodes)"

definition gatherNodeDiagnostics :: "healthEnv \<Rightarrow> gather" where
  "gatherNodeDiagnostics env =
     gatherList env (coreGVR ''nodes'') [] ''No nodes found'' (\<lambda>items.
       let nodes = map (heNode env) items
       in issueSection nodeBlock
            (\<lambda>_. totalLine ''Total'' (int (length nodes)) @ '' | '' @ totalLine ''Healthy'' (healthyNodes nodes) @ [nl, nl])
            ''*All nodes are healthy*'' nodes)"

subsection \<open>Pods\<close>

definition containerIssues :: "containerHealth \<Rightarrow> string list" where
  "containerIssues c =
     (case chWaiting c of
        Some (reason, message) \<Rightarrow>
          if reason = ''CrashLoopBackOff'' \<or> reason = ''ImagePullBackOff'' \<or> reason = ''ErrImagePull''
          then [''Container waiting: '' @ reason @ '' - '' @ message] else []
      | None \<Rightarrow> [])
     @ (case chTerminated c of
          Some reason \<Rightarrow> if reason = ''Error'' \<or> reason = ''OOMKilled'' then [''Container terminated: '' @ reason] else []
        | None \<Rightarrow> [])"

fun podRestarts :: "containerHealth list \<Rightarrow> int \<Rightarrow> int" where
  "podRestarts [] n = n"
| "podRestarts (c # cs) n = podRestarts cs (int32Of (n + chRestarts c))"

definition podIssues :: "podHealth \<Rightarrow> string list" where
  "podIssues p =
     concat (map containerIssues (phContainers p))
     @ (if phPhase p \<noteq> ''Running'' \<and> phPhase p \<noteq> ''Succeeded'' then [''Pod in '' @ phPhase p @ '' phase''] else [])"

definition podBlock :: "podHealth \<Rightarrow> string option" where
  "podBlock p =
     (let restarts = podRestarts (phContainers p) 0; issues = podIssues p
      in if issues = [] \<and> restarts \<le> podHighRestartThreshold then None
         else Some (''- **'' @ phNamespace p @ ''/'' @ phName p @ ''** (Phase: '' @ phPhase p
           @ '', Ready: '' @ goSigned (int (length (filter chReady (phContainers p)))) @ ''/'' @ goSigned (int (length (phContainers p)))
           @ '', Restarts: '' @ goSigned restarts @ '')'' @ [nl] @ ''  - '' @ bullets issues))"

definition gatherPodDiagnostics :: "healthEnv \<Rightarrow> string \<Rightarrow> gather" where
  "gatherPodDiagnostics env ns =
     gatherList env (coreGVR ''pods'') ns ''No pods found'' (\<lambda>items.
       issueSection podBlock (\<lambda>n. totalLine ''Total'' (int (length items)) @ '' | '' @ totalLine ''With Issues'' n @ [nl, nl])
         ''*No pod issues detected*'' (map (hePod env) items))"

subsection \<open>Workloads\<close>

definition workloadBlock :: "workload \<Rightarrow> string \<Rightarrow> string list \<Rightarrow> string option" where
  "workloadBlock w ready issues =
     (if issues = [] then None
      else Some (''- **'' @ wlNamespace w @ ''/'' @ wlName w @ ''** (Ready: '' @ ready @ '')'' @ [nl] @ ''  - '' @ bullets issues))"

definition ratio :: "int \<Rightarrow> int \<Rightarrow> string" where
  "ratio a b = goSigned a @ ''/'' @ goSigned b"

definition unavailableBlock :: "string \<Rightarrow> workload \<Rightarrow> string option" where
  "unavailableBlock what w =
     workloadBlock w (ratio (wlReady w) (wlWanted w))
       (if wlUnavailable w > 0 then [goSigned (wlUnavailable w) @ '' '' @ what @ '' unavailable''] else [])"

definition statefulSetBlock :: "workload \<Rightarrow> string option" where
  "statefulSetBlock w =
     (let specReplicas = (case wlSpecified w of None \<Rightarrow> 1 | Some n \<Rightarrow> n); ready = ratio (wlReady w) specReplicas
      in workloadBlock w ready (if wlReady w < specReplicas then [''Only '' @ ready @ '' replicas ready''] else []))"

definition workloadSection :: "healthEnv \<Rightarrow> string \<Rightarrow> string \<Rightarrow> string \<Rightarrow> (workload \<Rightarrow> string option) \<Rightarrow> gather" where
  "workloadSection env kind resource ns block =
     gatherList env (appsGVR resource) ns (''No '' @ kind @ ''s found'') (\<lambda>items.
       issueSection block (\<lambda>n. totalLine (kind @ ''s with Issues'') n @ [nl, nl])
         (''*No '' @ kind @ '' issues detected*'') (map (heWorkload env) items))"

definition gatherWorkloadDiagnostics :: "healthEnv \<Rightarrow> string \<Rightarrow> string \<Rightarrow> gather" where
  "gatherWorkloadDiagnostics env kind ns w =
     (if Truncated (fst w) then (None, w)
      else if kind = ''Deployment'' then workloadSection env kind ''deployments'' ns (unavailableBlock ''replicas'') w
      else if kind = ''StatefulSet'' then workloadSection env kind ''statefulsets'' ns statefulSetBlock w
      else if kind = ''DaemonSet'' then workloadSection env kind ''daemonsets'' ns (unavailableBlock ''pods'') w
      else (Some (ConvertErr (''unsupported workload kind: '' @ kind)), w))"

definition workloadHeader :: "string \<Rightarrow> bool \<Rightarrow> string" where
  "workloadHeader title wroteHeader =
     (let header = ''### '' @ title @ [nl, nl]
      in if \<not> wroteHeader then ''## 4. Workload Controllers'' @ [nl, nl] @ header else header)"

definition workloadStep :: "healthEnv \<Rightarrow> string \<Rightarrow> string \<Rightarrow> string \<Rightarrow> (podState \<times> bool) report \<Rightarrow> (podState \<times> bool) report" where
  "workloadStep env ns title kind w =
     (case w of
        (b, s, wroteHeader) \<Rightarrow>
          (case TrySectionIn (workloadHeader title wroteHeader) [nl, nl] (gatherWorkloadDiagnostics env kind ns) (b, s) of
             (written, Some _, b, s) \<Rightarrow> (b, s, wroteHeader)
           | (written, None, b, s) \<Rightarrow> (b, s, if written then True else wroteHeader)))"

definition writeWorkloadSections :: "healthEnv \<Rightarrow> string \<Rightarrow> healthReport \<Rightarrow> healthReport" where
  "writeWorkloadSections env ns w =
     (case SectionsIn
          [workloadStep env ns ''Deployments'' ''Deployment'',
           workloadStep env ns ''StatefulSets'' ''StatefulSet'',
           workloadStep env ns ''DaemonSets'' ''DaemonSet''] (fst w, snd w, False) of
        (b, s, _) \<Rightarrow> (b, s))"

subsection \<open>Volume claims\<close>

definition claimBlock :: "claimHealth \<Rightarrow> string option" where
  "claimBlock c =
     (if clPhase c = ''Bound'' then None
      else Some (''- **'' @ clNamespace c @ ''/'' @ clName c @ ''** (Status: '' @ clPhase c @ '')'' @ [nl] @ ''  - PVC not bound''))"

definition gatherPVCDiagnostics :: "healthEnv \<Rightarrow> string \<Rightarrow> gather" where
  "gatherPVCDiagnostics env ns =
     gatherList env (coreGVR ''persistentvolumeclaims'') ns ''No PVCs found'' (\<lambda>items.
       issueSection claimBlock (\<lambda>n. totalLine ''PVCs with Issues'' n @ [nl, nl]) ''*No PVC issues detected*'' (map (heClaim env) items))"

subsection \<open>Cluster operators\<close>

text \<open>The type assertions on untyped content; a failed one yields the zero value.\<close>

definition mapOf :: "goVal option \<Rightarrow> goMap" where
  "mapOf v = (case v of Some (GMap m) \<Rightarrow> m | _ \<Rightarrow> [])"

definition itemsOf :: "goVal option \<Rightarrow> goVal list" where
  "itemsOf v = (case v of Some (GList l) \<Rightarrow> l | _ \<Rightarrow> [])"

definition stringOf :: "goVal option \<Rightarrow> string" where
  "stringOf v = (case v of Some (GStr s) \<Rightarrow> s | _ \<Rightarrow> [])"

fun scanOperator :: "goVal list \<Rightarrow> string \<times> string \<times> string list \<Rightarrow> string \<times> string \<times> string list" where
  "scanOperator [] acc = acc"
| "scanOperator (c # cs) (available, degraded, issues) =
     (let m = map_of (mapOf (Some c)); condType = stringOf (m ''type''); condStatus = stringOf (m ''status''); message = stringOf (m ''message'')
      in scanOperator cs
           (if condType = ''Available'' then
              (condStatus, degraded, if condStatus \<noteq> ''True'' then issues @ [''Not available: '' @ message] else issues)
            else if condType = ''Degraded'' then
              (available, condStatus, if condStatus = ''True'' then issues @ [''Degraded: '' @ message] else issues)
            else (available, degraded, issues)))"

definition operatorBlock :: "goVal \<Rightarrow> string option" where
  "operatorBlock item =
     (case item of
        GMap m \<Rightarrow>
          let name = stringOf (map_of (mapOf (map_of m ''metadata'')) ''name'');
              conditions = itemsOf (map_of (mapOf (map_of m ''status'')) ''conditions'')
          in (case scanOperator conditions (''Unknown'', ''Unknown'', []) of
                (available, degraded, issues) \<Rightarrow>
                  if issues = [] then None
                  else Some (''- **'' @ name @ ''** (Available: '' @ available @ '', Degraded: '' @ degraded @ '')'' @ [nl] @ ''  - '' @ bullets issues))
      | _ \<Rightarrow> None)"

definition gatherClusterOperatorDiagnostics :: "healthEnv \<Rightarrow> gather" where
  "gatherClusterOperatorDiagnostics env w =
     (if Truncated (fst w) then (None, w)
      else (case inCoreErr (hePods env) (\<lambda>c. ResourcesList c clusterOperatorGVK [] False noOptions) (snd w) of
          (Inl err, s) \<Rightarrow> (Some err, fst w, s)
        | (Inr l, s) \<Rightarrow>
            let items = itemsOf (map_of l ''items'')
            in (None, if items = [] then put ''No cluster operators found'' (fst w, s)
                  else (issueSection operatorBlock (\<lambda>n. totalLine ''Operators with Issues'' n @ [nl, nl])
                          ''*All cluster operators are healthy*'' items (fst w), s))))"

subsection \<open>Events\<close>

definition healthCheckMaxEvents :: int where "healthCheckMaxEvents = 20"

definition eventTotalsReserve :: int where "eventTotalsReserve = 80"

record eventTally =
  tyWarnings :: int
  tyErrors :: int
  tyRetained :: int
  tyLines :: builder

definition eventsFull :: "eventTally \<Rightarrow> bool" where
  "eventsFull t \<longleftrightarrow> tyRetained t \<ge> healthCheckMaxEvents \<or> Truncated (tyLines t)"

text \<open>A zero time is before every hour.\<close>

definition recentEvent :: "healthEnv \<Rightarrow> eventHealth \<Rightarrow> bool" where
  "recentEvent env ev \<longleftrightarrow>
     (evType ev = ''Warning'' \<or> evType ev = ''Error'')
     \<and> (case (case evLast ev of None \<Rightarrow> evTime ev | Some t \<Rightarrow> Some t) of None \<Rightarrow> False | Some t \<Rightarrow> heHourAgo env \<le> t)"

definition eventLine :: "string \<Rightarrow> eventHealth \<Rightarrow> string" where
  "eventLine ns ev =
     (let message = (if length (evMessage ev) > 150 then take 150 (evMessage ev) @ ''...'' else evMessage ev)
      in ''- **'' @ evKind ev @ ''/'' @ evName ev @ ''** in `'' @ ns @ ''` ('' @ evReason ev @ '', Count: '' @ goSigned (evCount ev) @ '')''
         @ [nl] @ ''  - '' @ message @ [nl, nl])"

definition tallyEvent :: "healthEnv \<Rightarrow> string \<Rightarrow> eventHealth \<Rightarrow> eventTally \<Rightarrow> eventTally" where
  "tallyEvent env ns ev t =
     (if \<not> recentEvent env ev then t
      else
        let t = (if evType ev = ''Warning'' then t\<lparr>tyWarnings := tyWarnings t + 1\<rparr> else t\<lparr>tyErrors := tyErrors t + 1\<rparr>)
        in if eventsFull t then t
           else (case WriteString (eventLine ns ev) (tyLines t) of
               (True, lines) \<Rightarrow> t\<lparr>tyLines := lines\<rparr>
             | (False, lines) \<Rightarrow> t\<lparr>tyLines := lines, tyRetained := tyRetained t + 1\<rparr>))"

fun tallyNamespaces :: "healthEnv \<Rightarrow> string list \<Rightarrow> eventTally \<times> podState \<Rightarrow> eventTally \<times> podState" where
  "tallyNamespaces env [] ts = ts"
| "tallyNamespaces env (ns # nss) (t, s) =
     (if eventsFull t then (t, s)
      else (case listObjects env (coreGVR ''events'') ns s of
          (Inl _, s) \<Rightarrow> tallyNamespaces env nss (t, s)
        | (Inr items, s) \<Rightarrow> tallyNamespaces env nss (fold (tallyEvent env ns) (map (heEvent env) items) t, s)))"

definition eventNamespaces :: "healthEnv \<Rightarrow> string \<Rightarrow> string list option \<Rightarrow> podState \<Rightarrow> string list \<times> podState" where
  "eventNamespaces env ns known s =
     (if ns \<noteq> [] then ([ns], s)
      else
        let (items, s) =
              (case known of
                 Some names \<Rightarrow> (names, s)
               | None \<Rightarrow>
                   (case listObjects env (coreGVR ''namespaces'') [] s of
                      (Inl _, s) \<Rightarrow> ([], s)
                    | (Inr items, s) \<Rightarrow> (map (peNameOf (hePods env)) items, s)))
        in ([''default'', ''kube-system''] @ filter (\<lambda>n. hasPrefix n ''openshift-'') items, s))"

definition eventTotals :: "eventTally \<Rightarrow> string" where
  "eventTotals t = totalLine ''Warnings'' (tyWarnings t) @ '' | '' @ totalLine ''Errors'' (tyErrors t) @ [nl, nl]"

definition writeEventBody :: "healthEnv \<Rightarrow> string \<Rightarrow> string list option \<Rightarrow> healthReport \<Rightarrow> healthReport" where
  "writeEventBody env ns known w =
     (if Truncated (fst w) then w
      else
        let lines = Scratch eventTotalsReserve (Some (fst w))
        in if Truncated lines then w
           else
             let (nss, s) = eventNamespaces env ns known (snd w);
                 (t, s) = tallyNamespaces env nss (\<lparr>tyWarnings = 0, tyErrors = 0, tyRetained = 0, tyLines = lines\<rparr>, s)
             in (writeSummaryAndBlocks (tyLines t) (eventTotals t) ''*No recent warning/error events*'' (fst w), s))"

definition gatherEventDiagnostics :: "healthEnv \<Rightarrow> budgetCtx \<Rightarrow> string \<Rightarrow> podState \<Rightarrow> string \<times> podState" where
  "gatherEventDiagnostics env ctx ns s =
     (case writeEventBody env ns None (NewBuilderWithBudget (ResultLimit ctx), s) of (b, s) \<Rightarrow> (bBuf b, s))"

section \<open>The report\<close>

record clusterDiagnostics =
  dgCollected :: string
  dgTotalNamespaces :: int
  dgNamespaceScoped :: bool
  dgTargetNamespace :: string
  dgNamespaceWarning :: string

definition warningSign :: string where
  "warningSign = map char_of [226, 154, 160, 239, 184, 143 :: nat]"

definition preambleTexts :: "clusterDiagnostics \<Rightarrow> string list" where
  "preambleTexts diag =
     [''# Cluster Health Check Diagnostic Data'' @ [nl, nl], ''**Collection Time:** '' @ dgCollected diag @ [nl]]
     @ (if dgNamespaceWarning diag \<noteq> [] then
          [[nl], warningSign @ ''  **WARNING:** '' @ dgNamespaceWarning diag @ [nl], [nl],
           ''**Note:** Please verify the namespace name and try again if you want namespace-specific diagnostics.'' @ [nl]]
        else [])
     @ [if dgNamespaceScoped diag then ''**Scope:** Namespace `'' @ dgTargetNamespace diag @ ''`'' @ [nl]
        else ''**Scope:** All namespaces (Total: '' @ goSigned (dgTotalNamespaces diag) @ '')'' @ [nl]]
     @ [[nl], ''## Your Task'' @ [nl, nl],
        ''Analyze the following cluster diagnostic data and provide:'' @ [nl],
        ''1. **Overall Health Status**: Healthy, Warning, or Critical'' @ [nl],
        ''2. **Critical Issues**: Issues requiring immediate attention'' @ [nl],
        ''3. **Warnings**: Non-critical issues that should be addressed'' @ [nl],
        ''4. **Recommendations**: Suggested actions to improve cluster health'' @ [nl],
        ''5. **Summary**: Brief overview of findings by component'' @ [nl, nl],
        ''---'' @ [nl, nl]]"

definition writeHealthCheckPreamble :: "clusterDiagnostics \<Rightarrow> 's report \<Rightarrow> 's report" where
  "writeHealthCheckPreamble diag w = fold put (preambleTexts diag) w"

text \<open>A gather error leaves the section out, and the next one runs.\<close>

definition healthSection :: "string \<Rightarrow> gather \<Rightarrow> healthReport \<Rightarrow> healthReport" where
  "healthSection header gather w = snd (snd (TrySectionIn (header @ [nl, nl]) [nl, nl] gather w))"

definition closingText :: string where
  "closingText =
     ''---'' @ [nl, nl] @ ''**Please analyze the above diagnostic data and provide your comprehensive health assessment.**'' @ [nl]"

definition healthSections :: "healthEnv \<Rightarrow> string \<Rightarrow> clusterDiagnostics \<Rightarrow> (healthReport \<Rightarrow> healthReport) list" where
  "healthSections env ns diag =
     [writeHealthCheckPreamble diag,
      healthSection ''## 1. Nodes'' (gatherNodeDiagnostics env),
      healthSection ''## 2. Cluster Operators (OpenShift)'' (gatherClusterOperatorDiagnostics env),
      healthSection ''## 3. Pods'' (gatherPodDiagnostics env ns),
      writeWorkloadSections env ns,
      healthSection ''## 5. Persistent Volume Claims'' (gatherPVCDiagnostics env ns)]"

definition eventSection :: "healthEnv \<Rightarrow> string \<Rightarrow> string list option \<Rightarrow> bool \<Rightarrow> healthReport \<Rightarrow> healthReport" where
  "eventSection env ns known checkEvents w =
     (if \<not> checkEvents then w
      else healthSection ''## 6. Recent Events (Last Hour)'' (\<lambda>body. (None, writeEventBody env ns known body)) w)"

definition healthCheckAssistantText :: string where
  "healthCheckAssistantText =
     ''I'' @ [CHR 0x27] @ ''ll analyze the cluster health diagnostic data and provide a comprehensive assessment.''"

definition knownNamespaces :: "healthEnv \<Rightarrow> builder \<Rightarrow> podState \<Rightarrow> string list option \<times> podState" where
  "knownNamespaces env b s =
     (if Truncated b then (None, s)
      else (case listObjects env (coreGVR ''namespaces'') [] s of
          (Inl _, s) \<Rightarrow> (None, s)
        | (Inr items, s) \<Rightarrow> (Some (map (peNameOf (hePods env)) items), s)))"

definition diagnosticsOf :: "healthEnv \<Rightarrow> string \<Rightarrow> string \<Rightarrow> string list option \<Rightarrow> clusterDiagnostics" where
  "diagnosticsOf env ns warning known =
     \<lparr>dgCollected = heCollected env, dgTotalNamespaces = (case known of None \<Rightarrow> 0 | Some names \<Rightarrow> int (length names)),
      dgNamespaceScoped = (ns \<noteq> []), dgTargetNamespace = ns, dgNamespaceWarning = warning\<rparr>"

definition buildHealthCheckPrompt :: "healthEnv \<Rightarrow> budgetCtx \<Rightarrow> string \<Rightarrow> string \<Rightarrow> bool \<Rightarrow> podState \<Rightarrow> healthReport" where
  "buildHealthCheckPrompt env ctx ns warning checkEvents s =
     (let b = NewPromptBudget ctx healthCheckAssistantText; (known, s) = knownNamespaces env b s
      in SectionsIn
           (healthSections env ns (diagnosticsOf env ns warning known) @ [eventSection env ns known checkEvents, put closingText]) (b, s))"

text \<open>A namespace that cannot be read is replaced by a warning, and the whole cluster is reported.\<close>

definition healthScope :: "healthEnv \<Rightarrow> string \<Rightarrow> podState \<Rightarrow> string \<times> string \<times> podState" where
  "healthScope env ns s =
     (if ns = [] then (ns, [], s)
      else (case callApi (hePods env) (OpGet (coreGVR ''namespaces'') [] ns []) s of
          (Inl _, s) \<Rightarrow>
            ([], ''Namespace '' @ [CHR 0x27] @ ns @ [CHR 0x27] @ '' not found or not accessible. Showing cluster-wide information instead.'', s)
        | (Inr _, s) \<Rightarrow> (ns, [], s)))"

definition clusterHealthCheckHandler :: "healthEnv \<Rightarrow> budgetCtx \<Rightarrow> (string \<rightharpoonup> string) \<Rightarrow> podState \<Rightarrow> promptMessage list \<times> podState" where
  "clusterHealthCheckHandler env ctx args s =
     (let (ns, warning, s) = healthScope env (case args ''namespace'' of None \<Rightarrow> [] | Some v \<Rightarrow> v) s;
          (b, s) = buildHealthCheckPrompt env ctx ns warning (args ''check_events'' \<noteq> Some ''false'') s
      in ([\<lparr>pmRole = ''user'', pmType = ''text'', pmText = bBuf b\<rparr>,
           \<lparr>pmRole = ''assistant'', pmType = ''text'', pmText = healthCheckAssistantText\<rparr>], s))"

definition healthCheckRBAC :: rbacMetadata where
  "healthCheckRBAC = RBACBounded
     [requires [''list''] (onResource [] ''nodes'' []) None None,
      requires [''get'', ''list''] (onResource [] ''namespaces'' []) None None,
      inNamespace [''list''] [] ''pods'',
      inNamespace [''list''] ''apps'' ''deployments'', inNamespace [''list''] ''apps'' ''statefulsets'', inNamespace [''list''] ''apps'' ''daemonsets'',
      inNamespace [''list''] [] ''persistentvolumeclaims'',
      requires [''list''] (onResource ''config.openshift.io'' ''clusteroperators'' []) None None,
      inNamespace [''list''] [] ''events'']"

end
