(* ===== verification/Core_Safety.thy ===== *)
theory Core_Safety
  imports Core_Requests
begin

text \<open>
  The properties of the core tools: their requests are covered by what they declare, a deletion
  removes only the pod and what was made with it, a command runs where it was asked for and its
  output is bounded.
\<close>

section \<open>Requests are declared\<close>

lemma reading_core_tools: "t \<in> set coreTools \<Longrightarrow> tdReadOnly t \<Longrightarrow> declaresOnly readVerbs (tdRBAC t)"
  by (auto simp: core_tools readVerbs_def)

lemma accessReview_op: "accessReview \<in> set (requestsOf op) \<Longrightarrow> \<exists>gvr ns verb. op = Api (OpReview gvr ns verb)"
proof (cases op rule: requestsOf.cases)
  case (2 path opts)
  assume "accessReview \<in> set (requestsOf op)"
  then show ?thesis using 2 by (auto simp: accessReview_def restRequest_def getPath_def pathRequest_def segmentsRequest_def resourceRequest_def Let_def
      split: option.splits list.splits if_splits)
next
  case (10 path ps)
  assume "accessReview \<in> set (requestsOf op)"
  then show ?thesis using 10 by (auto simp: accessReview_def restRequest_def getPath_def pathRequest_def segmentsRequest_def resourceRequest_def Let_def
      split: option.splits list.splits if_splits)
qed (auto simp: accessReview_def restRequest_def coreGVR_def)


section \<open>Deleting a pod\<close>

lemma named_exact:
  assumes "standardCluster env" "mapperOk (psMapper s)"
    and "inCoreErr env (\<lambda>c. onNamed c (coreGVK ''Pod'') ns (\<lambda>gvr ns s. case send c (op gvr ns) s of (r, s) \<Rightarrow> (map_sum ServerErr id r, s))) s = (r, s')"
  shows "mapperOk (psMapper s')
    \<and> ((\<exists>e. r = Inl e) \<and> psLog s' = psLog s
       \<or> psLog s' = psLog s @ [Api (op (coreGVR ''pods'') (podNamespace env ns))]
         \<and> r = map_sum (\<lambda>e. CoreErr (ServerErr e)) id (peAnswer env (psLog s) (op (coreGVR ''pods'') (podNamespace env ns))))"
proof -
  let ?c = "coreAt env (psLog s)" and ?s = "\<lparr>csMapper = psMapper s, csLog = []\<rparr>"
  have k: "knowsKinds (ceKinds ?c)" "knowsScopes (ceDiscovery ?c)" using assms(1) by (simp_all add: standardCluster_def)
  obtain q s1 where q: "resourceFor ?c (coreGVK ''Pod'') ?s = (q, s1)" by force
  note m = resourceFor_ok [OF k(1) _ q, of "coreGVR ''pods''" True] resourceFor_logD [OF q]
  have ns: "NamespaceOrDefault ?c ns = podNamespace env ns" by (simp add: podNamespace_def NamespaceOrDefault_def)
  show ?thesis
  proof (cases "q = Inr (coreGVR ''pods'') \<and> isNamespaced ?c (coreGVK ''Pod'') = Inr True")
    case True
    have "ceAnswer ?c [] = peAnswer env (psLog s)" by (simp add: coreAt_def fun_eq_iff)
    then show ?thesis using assms(2,3) q m True
      by (auto simp: inCoreErr_def inCore_def onNamed_def effectiveNamespace_def send_def ns map_sum.compositionality comp_def id_def)
  next
    case False
    then have "(\<exists>e. q = Inl e) \<or> (\<exists>e. isNamespaced ?c (coreGVK ''Pod'') = Inl e)"
      using m(1) assms(2) isNamespaced_known [OF k(2) in_kindTable(1)] by (cases "isNamespaced ?c (coreGVK ''Pod'')") auto
    then show ?thesis using assms(2,3) q m
      by (auto simp: inCoreErr_def inCore_def onNamed_def effectiveNamespace_def split: sum.splits)
  qed
qed

text \<open>The objects under a selector, as the API server answers at that point of the call.\<close>

abbreviation selectedList :: "podEnv \<Rightarrow> groupVersionResource \<Rightarrow> string \<Rightarrow> labelSet \<Rightarrow> apiOp" where
  "selectedList env gvr ns sel \<equiv> OpList gvr ns (noOptions\<lparr>loLabelSelector := peSelector env sel\<rparr>)"

definition selectedNames :: "podEnv \<Rightarrow> podOp list \<Rightarrow> groupVersionResource \<Rightarrow> string \<Rightarrow> labelSet \<Rightarrow> string list" where
  "selectedNames env l gvr ns sel =
     (case peAnswer env l (selectedList env gvr ns sel) of Inl _ \<Rightarrow> [] | Inr lst \<Rightarrow> map (peNameOf env) (peItems env lst))"

lemma deleteAll_log:
  "psLog (deleteAll env gvr ns objs s) = psLog s @ map (\<lambda>obj. Api (OpDelete gvr ns (peNameOf env obj) None)) objs
   \<and> psMapper (deleteAll env gvr ns objs s) = psMapper s"
  by (induction objs arbitrary: s) (simp_all add: callApi_def)

lemma deleteSelected_log:
  "psLog (deleteSelected env gvr ns sel s) = psLog s @ Api (selectedList env gvr ns sel)
      # map (\<lambda>n. Api (OpDelete gvr ns n None)) (selectedNames env (psLog s) gvr ns sel)"
  "psMapper (deleteSelected env gvr ns sel s) = psMapper s"
  by (auto simp: deleteSelected_def callApi_def selectedNames_def deleteAll_log split: sum.splits)

text \<open>
  C15. Deleting a pod first reads it. Every deletion that follows is in the namespace of the pod,
  and is the pod itself, or a service or route that the API server listed, in this call, under
  the labels of this server and of the pod's name; the latter only when the pod carries the label
  of this server. When the call succeeds the deletion of the pod is its last request, and when
  the pod cannot be read nothing is deleted.
\<close>

theorem pods_delete_removes_only_its_own:
  assumes "standardCluster env" and "mapperOk (psMapper s)" and "PodsDelete env ns name s = (r, s')"
  shows "\<exists>ops. psLog s' = psLog s @ ops
    \<and> (\<forall>t. r = Inr t \<longrightarrow> last ops = Api (OpDelete (coreGVR ''pods'') (podNamespace env ns) name None))
    \<and> (\<forall>gvr ns' n g. Api (OpDelete gvr ns' n g) \<in> set ops \<longrightarrow>
        (\<exists>pod. peAnswer env (psLog s) (OpGet (coreGVR ''pods'') (podNamespace env ns) name []) = Inr pod \<and> ns' = podNamespace env ns
          \<and> (gvr = coreGVR ''pods'' \<and> n = name
             \<or> gvr \<in> {coreGVR ''services'', routeGVR} \<and> peLabels env pod AppKubernetesManagedBy = Some BinaryName
               \<and> (\<exists>k. n \<in> set (selectedNames env (psLog s @ take k ops) gvr ns' (managedLabels (peLabels env pod)))))))"
proof -
  let ?ns = "podNamespace env ns"
  let ?get = "OpGet (coreGVR ''pods'') ?ns name []" and ?del = "OpDelete (coreGVR ''pods'') ?ns name None"
  obtain r1 s1 where g: "inCoreErr env (\<lambda>c. ResourcesGet c (coreGVK ''Pod'') ?ns name) s = (r1, s1)" by force
  from named_exact [OF assms(1,2), where op = "\<lambda>gvr ns. OpGet gvr ns name []", OF g [unfolded ResourcesGet_def]]
  have 1: "mapperOk (psMapper s1)" "(\<exists>e. r1 = Inl e) \<and> psLog s1 = psLog s \<or> psLog s1 = psLog s @ [Api ?get]
      \<and> r1 = map_sum (\<lambda>e. CoreErr (ServerErr e)) id (peAnswer env (psLog s) ?get)" by simp_all
  show ?thesis
  proof (cases r1)
    case (Inl e)
    then have "r = Inl e" "s' = s1" using assms(3) g by (auto simp: PodsDelete_def Let_def)
    then show ?thesis using 1(2) by auto
  next
    case (Inr pod)
    then have pod: "peAnswer env (psLog s) ?get = Inr pod" "psLog s1 = psLog s @ [Api ?get]"
      using 1(2) by (cases "peAnswer env (psLog s) ?get"; auto)+
    define sel where "sel = managedLabels (peLabels env pod)"
    define managed where "managed \<longleftrightarrow> labelValue (peLabels env pod) AppKubernetesManagedBy = BinaryName"
    define s2 where "s2 = (if managed then deleteSelected env (coreGVR ''services'') ?ns sel s1 else s1)"
    define s3 where "s3 = (if managed \<and> supportsGroupVersion env ''route.openshift.io/v1'' then deleteSelected env routeGVR ?ns sel s2 else s2)"
    obtain r4 s4 where d: "inCoreErr env (\<lambda>c. ResourcesDelete c (coreGVK ''Pod'') ?ns name None) s3 = (r4, s4)" by force
    have "PodsDelete env ns name s = (case inCoreErr env (\<lambda>c. ResourcesDelete c (coreGVK ''Pod'') ?ns name None) s3 of
        (Inl err, s) \<Rightarrow> (Inl err, s) | (Inr _, s) \<Rightarrow> (Inr ''Pod deleted successfully'', s))"
      by (simp add: PodsDelete_def Let_def g Inr s3_def s2_def sel_def managed_def)
    then have s': "s' = s4" "\<And>t. r = Inr t \<Longrightarrow> \<exists>x. r4 = Inr x" using assms(3) d by (auto split: sum.splits)
    have m: "mapperOk (psMapper s3)" using 1(1) by (simp add: s3_def s2_def deleteSelected_log(2))
    from named_exact [OF assms(1) m, where op = "\<lambda>gvr ns. OpDelete gvr ns name None", OF d [unfolded ResourcesDelete_def]]
    obtain fin where fin: "psLog s4 = psLog s3 @ fin" "fin = [] \<and> (\<exists>e. r4 = Inl e) \<or> fin = [Api ?del]" by auto
    obtain o2 where o2: "psLog s2 = psLog s1 @ o2" "\<And>gvr ns' n g. Api (OpDelete gvr ns' n g) \<in> set o2 \<Longrightarrow>
        managed \<and> gvr = coreGVR ''services'' \<and> ns' = ?ns \<and> n \<in> set (selectedNames env (psLog s1) gvr ?ns sel)"
      by (cases managed) (auto simp: s2_def deleteSelected_log)
    obtain o3 where o3: "psLog s3 = psLog s2 @ o3" "\<And>gvr ns' n g. Api (OpDelete gvr ns' n g) \<in> set o3 \<Longrightarrow>
        managed \<and> gvr = routeGVR \<and> ns' = ?ns \<and> n \<in> set (selectedNames env (psLog s2) gvr ?ns sel)"
      by (cases "managed \<and> supportsGroupVersion env ''route.openshift.io/v1''") (auto simp: s3_def deleteSelected_log)
    let ?ops = "[Api ?get] @ o2 @ o3 @ fin"
    have log: "psLog s' = psLog s @ ?ops" using s'(1) fin(1) o2(1) o3(1) pod(2) by simp
    have at: "psLog s1 = psLog s @ take 1 ?ops" "psLog s2 = psLog s @ take (1 + length o2) ?ops" using o2(1) pod(2) by simp_all
    have lab: "managed \<Longrightarrow> peLabels env pod AppKubernetesManagedBy = Some BinaryName"
      by (auto simp: managed_def labelValue_def BinaryName_def split: option.splits)
    have del: "ns' = ?ns \<and> (gvr = coreGVR ''pods'' \<and> n = name
             \<or> gvr \<in> {coreGVR ''services'', routeGVR} \<and> peLabels env pod AppKubernetesManagedBy = Some BinaryName
               \<and> (\<exists>k. n \<in> set (selectedNames env (psLog s @ take k ?ops) gvr ns' sel)))"
      if op: "Api (OpDelete gvr ns' n g) \<in> set ?ops" for gvr ns' n g
    proof -
      consider "Api (OpDelete gvr ns' n g) \<in> set o2" | "Api (OpDelete gvr ns' n g) \<in> set o3" | "Api (OpDelete gvr ns' n g) \<in> set fin"
        using op by auto
      then show ?thesis
      proof cases
        case 1
        from o2(2) [OF this] lab show ?thesis unfolding at(1) by blast
      next
        case 2
        from o3(2) [OF this] lab show ?thesis unfolding at(2) by blast
      next
        case 3
        then show ?thesis using fin(2) by auto
      qed
    qed
    have "last ?ops = Api ?del" if "r = Inr t" for t using s'(2) [OF that] fin(2) by auto
    with log del pod(1) show ?thesis unfolding sel_def by (intro exI [of _ ?ops]) blast
  qed
qed

section \<open>Running a command\<close>

lemma finishExec_bound:
  assumes "finishExec err o1 = (out, errs, None)" "execRetained o1 \<le> limit"
  shows "int (length out) \<le> limit + int (length BackendTruncationNotice) \<and> int (length errs) \<le> limit + int (length BackendTruncationNotice)"
  using assms by (auto simp: finishExec_def split: if_splits option.splits)

lemma runExec_bound:
  assumes "runExec env limit op s = (Inr (out, errs), s')" "0 < limit"
  shows "int (length out) \<le> limit + int (length BackendTruncationNotice) \<and> int (length errs) \<le> limit + int (length BackendTruncationNotice)"
proof -
  obtain ws err where w: "peExec env (psLog s) op = (ws, err)" by force
  let ?o = "fold (\<lambda>w o1. snd (execWrite (fst w) (snd w) o1)) ws (newExecOutput limit)"
  have "finishExec err ?o = (out, errs, None)" using assms(1) w by (auto simp: runExec_def split: prod.splits option.splits)
  moreover have "execRetained ?o \<le> limit" using exec_output_shared_limit [OF assms(2) refl, of ws] by blast
  ultimately show ?thesis by (rule finishExec_bound)
qed

lemma runExec_log: "runExec env limit op s = (r, s') \<Longrightarrow> psLog s' = psLog s @ [op]"
  by (auto simp: runExec_def logOp_def split: prod.splits option.splits)

lemma PodsExec_cases:
  assumes "PodsExec env ns name container command s = (r, s')"
  obtains (stopped) "\<exists>e. r = Inl e" "\<forall>a b c d. PodExec a b c d \<notin> set (drop (length (psLog s)) (psLog s'))"
  | (ran) limit obj where "peBackendLimit env = Some limit"
      "peAnswer env (psLog s) (OpGet (coreGVR ''pods'') (podNamespace env ns) name []) = Inr obj"
      "poPhase (pePod env obj) \<notin> {''Succeeded'', ''Failed''}"
      "runExec env limit (PodExec (podNamespace env ns) name (resolveContainer (pePod env obj) container) command)
         (logOp (Api (OpGet (coreGVR ''pods'') (podNamespace env ns) name [])) s) = (r, s')"
  using assms unfolding PodsExec_def BackendLimit_def callApi_def logOp_def Let_def
  by (auto split: option.splits sum.splits if_splits)

text \<open>
  C16. A command is run at most in the pod that the call names, after the pod was read and found
  not to be completed, in the container of the call or the one that the pod determines, and it is
  the command of the call. With a limit on backend responses the answer is no longer than the
  limit and the truncation notice, unless it is the notice that there was no output.
\<close>

theorem exec_runs_only_what_was_asked:
  assumes "podsExec env args s = (r, s')"
  shows "(\<forall>ns n c cmd. PodExec ns n c cmd \<in> set (drop (length (psLog s)) (psLog s')) \<longrightarrow>
      commandOf args = Some cmd \<and> n = argName args \<and> ns = podNamespace (ctPods env) (argumentString args ''namespace'' [])
      \<and> (\<exists>obj. peAnswer (ctPods env) (psLog s) (OpGet (coreGVR ''pods'') ns n []) = Inr obj
          \<and> poPhase (pePod (ctPods env) obj) \<notin> {''Succeeded'', ''Failed''}
          \<and> c = resolveContainer (pePod (ctPods env) obj) (argumentString args ''container'' [])))
    \<and> (\<forall>t st limit. r = Inr (t, st) \<longrightarrow> peBackendLimit (ctPods env) = Some limit \<longrightarrow> 0 < limit \<longrightarrow>
        int (length t) \<le> limit + int (length BackendTruncationNotice)
        \<or> t = execAnswer (argName args) (argumentString args ''namespace'' []) ([], []))"
proof -
  obtain ns name p c p1 where n: "namespaceAndName args = (ns, name, p)" "pOptionalString ''container'' [] p = (c, p1)" by (metis prod_cases3 surj_pair)
  show ?thesis
  proof (cases "pErr p1 = None \<and> commandOf args \<noteq> None")
    case False
    then have "s' = s \<and> (\<exists>e. r = Inl e)" using assms n by (auto simp: podsExec_def split: option.splits)
    then show ?thesis by auto
  next
    case True
    then obtain cmd where cmd: "commandOf args = Some cmd" by auto
    have e: "pErr p = None" "c = argumentString (pArgs p) ''container'' []" using pOptionalString_ok [OF n(2)] True by auto
    note v = namespaceAndName_ok [OF n(1) e(1)]
    obtain r1 s1 where x: "PodsExec (ctPods env) ns name c cmd s = (r1, s1)" by force
    have r: "s' = s1" "r = (case r1 of Inl err \<Rightarrow> Inl (OpFail err) | Inr out \<Rightarrow> Inr (plainText (execAnswer name ns out)))"
      using assms n True cmd x by (auto simp: podsExec_def split: sum.splits)
    from x show ?thesis
    proof (cases rule: PodsExec_cases)
      case stopped
      then show ?thesis using r by auto
    next
      case (ran limit obj)
      let ?get = "Api (OpGet (coreGVR ''pods'') (podNamespace (ctPods env) ns) name [])"
      have log: "psLog s' = psLog s @ [?get, PodExec (podNamespace (ctPods env) ns) name (resolveContainer (pePod (ctPods env) obj) c) cmd]"
        using runExec_log [OF ran(4)] r(1) by (simp add: logOp_def)
      have "int (length t) \<le> limit + int (length BackendTruncationNotice) \<or> t = execAnswer name ns ([], [])"
        if ok: "r = Inr (t, st)" "0 < limit" for t st
      proof -
        obtain out errs where o: "r1 = Inr (out, errs)" "t = execAnswer name ns (out, errs)"
          using ok(1) r(2) by (auto simp: plainText_def split: sum.splits)
        from runExec_bound [OF ran(4) [unfolded o(1)] ok(2)] show ?thesis using o(2) by (auto simp: execAnswer_def)
      qed
      then show ?thesis using log cmd v e(2) ran(1-3) by (simp add: WrapParams_def)
    qed
  qed
qed

section \<open>Examples\<close>

text \<open>A cluster with the kinds of the table and one managed pod.\<close>

definition kubeField :: "kubeObject \<Rightarrow> string \<Rightarrow> string" where
  "kubeField u k = (case map_of u k of Some (GStr v) \<Rightarrow> v | _ \<Rightarrow> [])"

definition kindsCore :: coreEnv where
  "kindsCore = exampleCore\<lparr>
     ceKinds := (\<lambda>gvk. case map_of (map (\<lambda>(k, r, b). (k, r)) kindTable) gvk of Some r \<Rightarrow> Inr r | None \<Rightarrow> Inl NoKindMatch),
     ceDiscovery := (\<lambda>gv. Inr (map (\<lambda>(k, r, b). (gvkKind k, b)) (filter (\<lambda>(k, r, b). apiVersionOf (gvkGroup k) (gvkVersion k) = gv) kindTable))),
     ceGVK := (\<lambda>u. \<lparr>gvkGroup = kubeField u ''group'', gvkVersion = kubeField u ''version'', gvkKind = kubeField u ''kind''\<rparr>),
     ceNamespaceOf := (\<lambda>u. kubeField u ''namespace'')\<rparr>"

definition plainOut :: outEnv where
  "plainOut = \<lparr>oeMarshal = (\<lambda>_. Inr []), oeList = (\<lambda>_. None), oeNoManagedFields = (\<lambda>m. m), oeIsTable = (\<lambda>_. False), oeTable = (\<lambda>_. Inl []),
     oeDecode = (\<lambda>_. None), oePrint = (\<lambda>_ _. Inr []), oeName = (\<lambda>_. []), oeNamespace = (\<lambda>_. []), oeCreated = (\<lambda>_. None), oeLabels = (\<lambda>_. []),
     oeAPIVersion = (\<lambda>_. []), oeKind = (\<lambda>_. []), oePhase = (\<lambda>_. None)\<rparr>"

definition examplePods :: podEnv where
  "examplePods = \<lparr>peCore = kindsCore, peOut = plainOut,
     peAnswer = (\<lambda>_ op. case op of OpGet gvr ns n sub \<Rightarrow> if gvr = coreGVR ''nodes'' \<and> \<not> plainName n then Inl (Fault []) else Inr [] | _ \<Rightarrow> Inr []),
     peStream = (\<lambda>_ _. Inr [(''line'', Some EOF)]), peProxy = (\<lambda>_ _. Inr ''log''), peExecutor = (\<lambda>_. None),
     peExec = (\<lambda>_ _. ([(True, ''out'')], None)), peIoText = (\<lambda>_. []),
     pePod = (\<lambda>_. \<lparr>poContainers = [''main''], poAnnotations = Map.empty, poPhase = ''Running''\<rparr>),
     peLabels = (\<lambda>_. [AppKubernetesManagedBy \<mapsto> BinaryName, AppKubernetesName \<mapsto> ''web'']), peItems = (\<lambda>_. [[]]), peNameOf = (\<lambda>_. ''web''),
     peSelector = (\<lambda>_. ''s''), peRandom = ''abcde'',
     peUnstructured = (\<lambda>r. case runScope r of (k, ns) \<Rightarrow>
        Inr [(''group'', GStr (gvkGroup k)), (''version'', GStr (gvkVersion k)), (''kind'', GStr (gvkKind k)), (''namespace'', GStr ns)]),
     peBackendLimit = Some 100, pePodMetrics = (\<lambda>_. Inr []), pePodMetric = (\<lambda>_. Inr []), peNodeMetrics = (\<lambda>_. Inr []), peNodeMetric = (\<lambda>_. Inr []),
     peEvent = (\<lambda>_. Inl []), pePage = (\<lambda>_. None)\<rparr>"

definition exampleTools :: coreToolEnv where
  "exampleTools = \<lparr>ctPods = examplePods, ctFormat = TableOutput, ctPodTop = (\<lambda>_. Inr []), ctNodeTop = (\<lambda>_ _. Inr []), ctAddQuantity = (\<lambda>a _. a),
     ctBinary = (\<lambda>_. []), ctNode = (\<lambda>_. \<lparr>ndName = [], ndAllocatable = None, ndSwap = None\<rparr>)\<rparr>"

definition podStart :: podState where "podStart = \<lparr>psMapper = None, psLog = []\<rparr>"

definition webArgs :: arguments where
  "webArgs = [''namespace'' \<mapsto> GStr ''ci'', ''name'' \<mapsto> GStr ''web'', ''command'' \<mapsto> GList [GStr ''id'']]"

lemma standard_examplePods: "standardCluster examplePods"
proof -
  have core: "peCore examplePods = kindsCore" by (simp add: examplePods_def)
  have known: "knowsKinds (ceKinds kindsCore)" "knowsScopes (ceDiscovery kindsCore)"
    unfolding knowsKinds_def knowsScopes_def
    by (auto simp: kindsCore_def kindTable_def coreGVK_def routeGVK_def projectGVK_def clusterOperatorGVK_def exampleCore_def apiVersionOf_def)
  have plain: "plainName (ceNamespace kindsCore)" by code_simp
  have scope: "(ceGVK kindsCore u, ceNamespaceOf kindsCore u) = runScope r" if "peUnstructured examplePods r = Inr u" for r u
    using that by (cases r) (auto simp: examplePods_def kindsCore_def exampleCore_def kubeField_def coreGVK_def routeGVK_def)
  have nodes: "plainName n" if "\<not> isl (peAnswer examplePods l (OpGet (coreGVR ''nodes'') [] n []))" for l n
    using that by (auto simp: examplePods_def split: if_splits)
  show ?thesis unfolding standardCluster_def core using known plain scope nodes by blast
qed

lemma mapperOk_start [simp]: "mapperOk (psMapper podStart)" "psLog podStart = []"
  by (simp_all add: podStart_def mapperOk_def)


theorem pods_delete_removes_only_its_own_witness:
  "\<exists>ops. psLog (snd (PodsDelete examplePods ''ci'' ''web'' podStart)) = ops \<and> last ops = Api (OpDelete (coreGVR ''pods'') ''ci'' ''web'' None)"
proof -
  have ok: "fst (PodsDelete examplePods ''ci'' ''web'' podStart) = Inr ''Pod deleted successfully''" by code_simp
  have ns: "podNamespace examplePods ''ci'' = ''ci''" by code_simp
  from pods_delete_removes_only_its_own [OF standard_examplePods mapperOk_start(1) prod.collapse [symmetric], of "''ci''" "''web''"] ok ns
  show ?thesis by auto
qed

theorem exec_runs_only_what_was_asked_witness:
  "\<exists>t st. fst (podsExec exampleTools webArgs podStart) = Inr (t, st) \<and> (length t \<le> 141 \<or> t = execAnswer ''web'' ''ci'' ([], []))
     \<and> PodExec ''ci'' ''web'' ''main'' [''id''] \<in> set (psLog (snd (podsExec exampleTools webArgs podStart)))"
proof -
  have ok: "fst (podsExec exampleTools webArgs podStart) = Inr (''out'', GNil)" by code_simp
  have log: "PodExec ''ci'' ''web'' ''main'' [''id''] \<in> set (psLog (snd (podsExec exampleTools webArgs podStart)))" by code_simp
  have v: "peBackendLimit (ctPods exampleTools) = Some 100" "argName webArgs = ''web''" "argumentString webArgs ''namespace'' [] = ''ci''"
    "length BackendTruncationNotice = 41" by code_simp+
  let ?r = "podsExec exampleTools webArgs podStart"
  from exec_runs_only_what_was_asked [of exampleTools webArgs podStart "fst ?r" "snd ?r"] ok log v show ?thesis by auto
qed

section \<open>Where the code falls short\<close>

text \<open>
  A namespace that is not a single segment is spliced into the path of a table list: with a slash the
  request is for another resource, with two dots for all namespaces.
\<close>

lemma table_namespace_is_spliced:
  "getPath (tablePath (coreGVR ''pods'') ''kube-system/secrets'') = restRequest ''get'' (coreGVR ''secrets'') ''kube-system'' ''pods'' []"
  "getPath (tablePath (coreGVR ''pods'') ''..'') = restRequest ''list'' (coreGVR ''pods'') [] [] []"
  by code_simp+

text \<open>Without a namespace the events of all namespaces are listed, which is not what the tool declares.\<close>

lemma events_of_all_namespaces_undeclared:
  "psLog (snd (eventsList exampleTools Map.empty podStart))
     = [Api (OpReview (coreGVR ''events'') [] ''list''), Api (OpList (coreGVR ''events'') [] noOptions)]"
  "\<not> declaredFor (tdRBAC (hd initEvents)) Map.empty ''default'' (restRequest ''list'' (coreGVR ''events'') [] [] [])"
  by code_simp (simp add: initEvents_def eventsListDecl_def readingTool_def restRequest_def coreGVR_def argumentString_def)

text \<open>A port beyond 32 bits becomes another port.\<close>

lemma port_wraps: "int32Of 4294967376 = 80"
  by code_simp

text \<open>The usage of a pod that is named without a namespace is asked for outside of any namespace.\<close>

lemma named_top_without_namespace:
  assumes "supportsGroupVersion env ''metrics.k8s.io/v1beta1''" "name \<noteq> []"
  shows "psLog (snd (PodsTop env True [] name opts s)) = psLog s @ [Api (OpGet (metricsGVR ''pods'') [] name [])]"
  using assms by (auto simp: PodsTop_def Let_def callApi_def split: sum.splits)

text \<open>What \<open>PodsRun\<close> makes carries the labels under which \<open>PodsDelete\<close> looks for it.\<close>

lemma run_objects_are_selected:
  "set (managedLabels (map_of (runLabels name))) \<subseteq> set (runLabels name) \<and> labelValue (map_of (runLabels name)) AppKubernetesManagedBy = BinaryName"
  by (simp add: managedLabels_def runLabels_def labelValue_def AppKubernetesName_def AppKubernetesManagedBy_def AppKubernetesComponent_def)

end
