(* ===== verification/Health_Complete.thy ===== *)
theory Health_Complete
  imports Health_Check Core_Safety
begin

text \<open>
  What the health check prompt leaves out. Each gather either writes what it writes without a
  limit, or marks its scratch; so a report without the truncation notice is the whole report.
\<close>

section \<open>Texts that are cut leave something behind\<close>

text \<open>A text that starts with two plain characters, the first not a space.\<close>

definition solid :: "string \<Rightarrow> bool" where
  "solid t \<longleftrightarrow> 2 \<le> length t \<and> \<not> isSpace (t ! 0) \<and> runeStart (t ! 1)"

lemma cutEnd_solid: "runeStart (t ! 1) \<Longrightarrow> 1 \<le> n \<Longrightarrow> 1 \<le> cutEnd t n"
proof (induction n)
  case (Suc n)
  then show ?case by (cases n) auto
qed simp

lemma trimSpace_solid: "t \<noteq> [] \<Longrightarrow> \<not> isSpace (t ! 0) \<Longrightarrow> trimSpace (t @ u) \<noteq> []"
  by (cases t) (auto simp: trimSpace_def dropWhileEnd_def)

lemma take_solid: "solid t \<Longrightarrow> 1 \<le> n \<Longrightarrow> take n t \<noteq> [] \<and> take n t ! 0 = t ! 0"
  by (cases t; cases n) (auto simp: solid_def)

text \<open>Writing in a fresh scratch: the same as without a limit, or a mark.\<close>

lemma fresh_room: "bBuf (fst w) = [] \<Longrightarrow> bLimit (fst w) - Len (fst w) = bLimit (fst w)"
  by (simp add: Len_def)

lemma put_solid:
  assumes "tracks w w0" "bBuf (fst w) = []" "0 < bLimit (fst w)" "solid t"
  shows "tracks (put t w) (put t w0) \<and> int (length t) \<le> bLimit (fst w)
    \<or> bTruncated (fst (put t w)) \<and> trimSpace (fst (Prefix (Some (fst (put t w))))) \<noteq> []"
proof (cases "int (length t) \<le> bLimit (fst w)")
  case True
  then show ?thesis using write_tracks(2) [OF assms(1), of t] fresh_room [OF assms(2)] by simp
next
  case False
  have w: "wfBuilder (fst w)" "bCapped (fst w)" "\<not> bTruncated (fst w)" using assms(1) by (auto simp: tracks_def)
  let ?n = "cutEnd t (nat (bLimit (fst w)))"
  have n: "1 \<le> ?n" using assms(3,4) by (intro cutEnd_solid) (auto simp: solid_def)
  have e: "fst (put t w) = (fst w)\<lparr>bBuf := take ?n t @ ResultTruncationNotice, bTruncated := True\<rparr>"
    using WriteString_cut [OF w(3,2,1), of t] False assms(2) by (simp add: put_def Len_def)
  have "trimSpace (take ?n t) \<noteq> []" using take_solid [OF assms(4) n] trimSpace_solid [of "take ?n t" "[]"] assms(4) by (auto simp: solid_def)
  then show ?thesis using e by (simp add: Prefix_def Truncated_def)
qed

lemma put_marked:
  assumes "tracks w w0" "bBuf (fst w) = []" "0 < bLimit (fst w)" "solid t"
  shows "tracks (put t w) (put t w0) \<or> marked k (fst (put t w))"
  using put_solid [OF assms] by (auto simp: marked_def)

text \<open>What follows a first text that fit cannot hide it.\<close>

lemma put_after:
  assumes "tracks w w0" "bBuf (fst w) \<noteq> []" "\<not> isSpace (bBuf (fst w) ! 0)"
  shows "tracks (put t w) (put t w0) \<or> marked k (fst (put t w))"
proof -
  have w: "wfBuilder (fst w)" "bCapped (fst w)" "\<not> bTruncated (fst w)" using assms(1) by (auto simp: tracks_def)
  from w(1) show ?thesis
  proof (cases rule: WriteString_cases [where s = t])
    case cut
    then have "fst (Prefix (Some (fst (put t w)))) = bBuf (fst w) @ take (cutEnd t (nat (bLimit (fst w) - Len (fst w)))) t"
      by (simp add: put_def Prefix_def Truncated_def flip: append_assoc)
    then show ?thesis using cut trimSpace_solid [OF assms(2,3)] by (simp add: marked_def put_def)
  next
    case fits
    then show ?thesis using write_tracks(2) [OF assms(1), of t] w(2) by (auto simp: put_def)
  qed (use w in simp)
qed

lemma marked_noticed:
  assumes "bBuf b = t @ u" "t \<noteq> []" "\<not> isSpace (t ! 0)" "\<not> bTruncated b" "noticed (bBuf b) \<or> bLimit b - Len b < k"
  shows "marked k b"
  using assms trimSpace_solid [OF assms(2,3), of u] by (simp add: marked_def Prefix_def Truncated_def)

section \<open>Sections of issues\<close>

lemma appendIssueBlock_grows [simp]: "grows b (appendIssueBlock t b)"
proof -
  have "grows b (snd (WriteString t (snd (WriteString u b))))" for u using grows_trans [OF grows_write grows_write] .
  then show ?thesis by (simp add: appendIssueBlock_def Let_def)
qed

lemma appendIssueBlock_tracks:
  assumes "tracks (b, ()) (b0, ())"
  shows "tracks (appendIssueBlock t b, ()) (appendIssueBlock t b0, ()) \<or> bTruncated (appendIssueBlock t b)"
proof -
  have b: "\<not> bTruncated b" "\<not> bTruncated b0" "Len b = Len b0" using assms by (auto simp: tracks_def Len_def dest: unbounded_truncated)
  have p: "put u (c, ()) = (fst (put u (c, ())), ())" for u c by (simp add: put_def)
  show ?thesis
  proof (cases "t = []")
    case True
    then show ?thesis using assms by (simp add: appendIssueBlock_def)
  next
    case False
    show ?thesis
    proof (cases "Len b > 0")
      case pos: True
      note 1 = write_tracks(1) [OF assms, of "[nl, nl]"]
      show ?thesis
      proof (cases "tracks (put [nl, nl] (b, ())) (put [nl, nl] (b0, ()))")
        case True
        from write_tracks(1) [OF True, of t] True unbounded_truncated show ?thesis
          using b False pos by (auto simp: appendIssueBlock_def put_def Truncated_def tracks_def)
      next
        case no: False
        then show ?thesis using 1 b False pos by (auto simp: appendIssueBlock_def put_def Truncated_def)
      qed
    next
      case no: False
      then show ?thesis using write_tracks(1) [OF assms, of t] b False by (auto simp: appendIssueBlock_def put_def Truncated_def)
    qed
  qed
qed

lemma scanItems_grows: "scanItems block xs n b = (m, b') \<Longrightarrow> grows b b'"
proof (induction xs arbitrary: n b)
  case (Cons x xs)
  then show ?case by (auto split: option.splits if_splits) (meson appendIssueBlock_grows grows_trans)
qed simp

lemma scanItems_truncated: "bTruncated b \<Longrightarrow> scanItems block xs n b = (m, b') \<Longrightarrow> b' = b"
  by (induction xs arbitrary: n) (auto simp: Truncated_def split: option.splits)

lemma scanItems_count: "fst (scanItems block xs n b) = n + int (length (filter (\<lambda>x. block x \<noteq> None) xs))"
  by (induction xs arbitrary: n b) (auto split: option.splits)

lemma scanItems_tracks:
  assumes "tracks (b, ()) (b0, ())" "scanItems block xs n b = (m, b')" "scanItems block xs n b0 = (m0, b0')"
  shows "tracks (b', ()) (b0', ()) \<or> bTruncated b'"
  using assms
proof (induction xs arbitrary: n b b0)
  case (Cons x xs)
  have b: "\<not> bTruncated b" "\<not> bTruncated b0" using Cons.prems(1) by (auto simp: tracks_def dest: unbounded_truncated)
  show ?case
  proof (cases "block x")
    case None
    then show ?thesis using Cons by simp
  next
    case (Some t)
    then have s: "scanItems block xs (n + 1) (appendIssueBlock t b) = (m, b')" "scanItems block xs (n + 1) (appendIssueBlock t b0) = (m0, b0')"
      using Cons.prems b by (simp_all add: Truncated_def)
    from appendIssueBlock_tracks [OF Cons.prems(1), of t] show ?thesis using Cons.IH [OF _ s] scanItems_truncated [OF _ s(1)] by blast
  qed
qed simp

lemma scanItems_none: "scanItems block xs n b = (n, b') \<Longrightarrow> b' = b"
proof (induction xs)
  case (Cons x xs)
  have "block x = None"
  proof (rule ccontr)
    assume "block x \<noteq> None"
    then have "fst (scanItems block (x # xs) n b) \<ge> n + 1" unfolding scanItems_count by simp
    then show False using Cons.prems by simp
  qed
  then show ?case using Cons by simp
qed simp

lemma writeSummary_grows: "grows b (writeSummaryAndBlocks lines summary remark b)"
proof -
  have "grows b (snd (WriteString t (snd (WriteString summary b))))" for t using grows_trans [OF grows_write grows_write] .
  then show ?thesis by (simp add: writeSummaryAndBlocks_def Let_def)
qed

lemma issueSection_grows [simp]: "grows b (issueSection block summary remark items b)"
  by (simp add: issueSection_def writeSummary_grows split: prod.splits)

abbreviation closingRoom :: int where
  "closingRoom \<equiv> int (length closingText)"

text \<open>The part of a section that follows the summary.\<close>

lemma writeSummary_put:
  "(writeSummaryAndBlocks lines summary remark b, s) =
     (let w = put summary (b, s) in if bTruncated (fst w) then w else put (if Len lines = 0 then remark else bBuf lines) w)"
  by (simp add: writeSummaryAndBlocks_def put_def Let_def Truncated_def)

lemma put_empty: "wfBuilder (fst w) \<Longrightarrow> \<not> bTruncated (fst w) \<Longrightarrow> put [] w = w"
  using WriteString_fits [of "fst w" "[]"] by (cases w) (auto simp: put_def wfBuilder_def split: if_splits)

lemma summary_cases:
  assumes "tracks w w0" "bBuf (fst w) = []" "0 < bLimit (fst w)" "solid summary"
  obtains (cut) "marked k (writeSummaryAndBlocks lines summary remark (fst w))"
  | (kept) "tracks (put summary w) (put summary w0)" "int (length summary) \<le> bLimit (fst w)"
      "bBuf (fst (put summary w)) = summary" "bLimit (fst (put summary w)) = bLimit (fst w)"
      "(writeSummaryAndBlocks lines summary remark (fst w), snd w) = put (if Len lines = 0 then remark else bBuf lines) (put summary w)"
      "\<And>lines remark. (writeSummaryAndBlocks lines summary remark (fst w0), snd w0) = put (if Len lines = 0 then remark else bBuf lines) (put summary w0)"
proof (cases "tracks (put summary w) (put summary w0) \<and> int (length summary) \<le> bLimit (fst w)")
  case False
  then have "bTruncated (fst (put summary w)) \<and> trimSpace (fst (Prefix (Some (fst (put summary w))))) \<noteq> []"
    using put_solid [OF assms(1-4)] by blast
  moreover from this have "writeSummaryAndBlocks lines summary remark (fst w) = fst (put summary w)"
    by (simp add: writeSummaryAndBlocks_def put_def Truncated_def)
  ultimately show thesis by (intro cut) (simp add: marked_def)
next
  case True
  have t: "\<not> bTruncated (fst (put summary w))" "\<not> bTruncated (fst (put summary w0))" using True by (auto simp: tracks_def dest: unbounded_truncated)
  have "WriteString summary (fst w) = (False, (fst w)\<lparr>bBuf := bBuf (fst w) @ summary\<rparr>)"
    using True assms(1,2) by (intro WriteString_fits) (auto simp: tracks_def Len_def)
  then have "bBuf (fst (put summary w)) = summary" "bLimit (fst (put summary w)) = bLimit (fst w)" using assms(2) by (simp_all add: put_def)
  moreover have "(writeSummaryAndBlocks l summary n (fst w), snd w) = put (if Len l = 0 then n else bBuf l) (put summary w)"
    "(writeSummaryAndBlocks l summary n (fst w0), snd w0) = put (if Len l = 0 then n else bBuf l) (put summary w0)" for l n
    using writeSummary_put [of l summary n "fst w" "snd w"] writeSummary_put [of l summary n "fst w0" "snd w0"] t by (simp_all add: Let_def)
  ultimately show thesis using True by (intro kept) simp_all
qed

lemma noticed_lines:
  assumes "tracks w w0" "bBuf (fst w) = []" "0 < bLimit (fst w)" "solid summary" "0 < Len lines" "noticed (bBuf lines)"
  shows "marked k (writeSummaryAndBlocks lines summary remark (fst w))"
  using assms(1-4)
proof (cases rule: summary_cases [where k = k and lines = lines and remark = remark])
  case kept
  let ?w = "put summary w" and ?v = "put summary w0" and ?t = "bBuf lines"
  have ns: "summary \<noteq> []" "\<not> isSpace (summary ! 0)" using assms(4) by (auto simp: solid_def)
  have m: "writeSummaryAndBlocks lines summary remark (fst w) = fst (put ?t ?w)" using kept(5) assms(5) by (metis fst_conv less_irrefl)
  have "marked k (fst (put ?t ?w))" if t: "tracks (put ?t ?w) (put ?t ?v)"
  proof (rule marked_noticed)
    have "bBuf (fst (put ?t ?w)) = bBuf (fst (put ?t ?v))" "bBuf (fst ?v) = summary" "unbounded (fst ?v)"
      using t kept(1,3) unfolding tracks_def by simp_all
    moreover have "fst (put ?t ?v) = (fst ?v)\<lparr>bBuf := bBuf (fst ?v) @ ?t\<rparr>"
      unfolding put_def [of ?t] using unbounded_write [OF calculation(3), of ?t] by simp
    ultimately show 1: "bBuf (fst (put ?t ?w)) = summary @ bBuf lines" by simp
    show "noticed (bBuf (fst (put ?t ?w))) \<or> bLimit (fst (put ?t ?w)) - Len (fst (put ?t ?w)) < k"
      unfolding 1 using noticed_append [OF assms(6), of summary "[]"] by simp
    show "\<not> bTruncated (fst (put ?t ?w))" using t by (simp add: tracks_def)
  qed (use ns in auto)
  then show ?thesis unfolding m using put_after [of ?w ?v ?t k] kept(1,3) ns by auto
qed

lemma summary_marked:
  assumes "tracks w w0" "bBuf (fst w) = []" "0 < bLimit (fst w)" "solid summary"
    and "Len lines = 0 \<and> Len lines0 = 0 \<and> remark = remark0 \<or> Len lines > 0 \<and> bBuf lines = bBuf lines0
      \<or> Len lines > 0 \<and> noticed (bBuf lines) \<or> Len lines = 0 \<and> remark = [] \<and> bLimit (fst w) - int (length summary) < k"
  shows "tracks (writeSummaryAndBlocks lines summary remark (fst w), snd w) (writeSummaryAndBlocks lines0 summary remark0 (fst w0), snd w0)
    \<or> marked k (writeSummaryAndBlocks lines summary remark (fst w))"
  using assms(1-4)
proof (cases rule: summary_cases [where k = k and lines = lines and remark = remark])
  case kept
  let ?w = "put summary w" and ?v = "put summary w0"
  have ns: "summary \<noteq> []" "\<not> isSpace (summary ! 0)" using assms(4) by (auto simp: solid_def)
  let ?t = "if Len lines = 0 then remark else bBuf lines" and ?u = "if Len lines0 = 0 then remark0 else bBuf lines0"
  have m: "writeSummaryAndBlocks lines summary remark (fst w) = fst (put ?t ?w)" using kept(5) by (metis fst_conv)
  consider (same) "?t = ?u" | (noticed) "Len lines > 0" "noticed (bBuf lines)" | (small) "?t = []" "bLimit (fst w) - int (length summary) < k"
    using assms(5) by (fastforce simp: Len_def)
  then show ?thesis
  proof cases
    case same
    then show ?thesis using put_after [of ?w ?v ?t k] kept ns m by auto
  next
    case noticed
    then show ?thesis using noticed_lines [OF assms(1-4)] by blast
  next
    case small
    have "put ?t ?w = ?w" unfolding small(1) using put_empty [of ?w] kept(1) unfolding tracks_def by blast
    moreover have "marked k (fst ?w)" using marked_noticed [of "fst ?w" summary "[]" k] kept(1,3,4) ns small(2) by (simp add: Len_def tracks_def)
    ultimately show ?thesis using m by simp
  qed
qed blast

lemma scratch_unbounded: "unbounded b \<Longrightarrow> Scratch r (Some b) = NewBuilderWithBudget 0"
  by (simp add: Scratch_def unbounded_def)

lemma issueSection_tracks:
  assumes "tracks w w0" "bBuf (fst w) = []" "0 < bLimit (fst w)" "\<And>n. 0 \<le> n \<Longrightarrow> solid (summary n) \<and> 12 \<le> length (summary n)" "100 \<le> k"
  shows "tracks (issueSection block summary remark xs (fst w), snd w) (issueSection block summary remark xs (fst w0), snd w0)
    \<or> marked k (issueSection block summary remark xs (fst w))"
proof -
  let ?r = "sectionSummaryReserve + int (length ResultTruncationNotice)"
  have r: "?r = 111" by (simp add: sectionSummaryReserve_def)
  have w: "wfBuilder (fst w)" "bCapped (fst w)" "\<not> bTruncated (fst w)" "unbounded (fst w0)" using assms(1) by (auto simp: tracks_def)
  obtain n l where s: "scanItems block xs 0 (Scratch ?r (Some (fst w))) = (n, l)" by force
  obtain m l0 where s0: "scanItems block xs 0 (Scratch ?r (Some (fst w0))) = (m, l0)" by force
  have nm: "m = n" "0 \<le> n" using s s0 scanItems_count [of block xs 0] by (metis fst_conv, metis fst_conv add_0 of_nat_0_le_iff)
  have lim: "Len (fst w) = 0" "Remaining (Some (fst w)) = bLimit (fst w)" using assms(2) Remaining_eq [OF w(1-3)] by (simp_all add: Len_def)
  have "tracks (writeSummaryAndBlocks l (summary n) (if n = 0 then remark else []) (fst w), snd w)
      (writeSummaryAndBlocks l0 (summary n) (if n = 0 then remark else []) (fst w0), snd w0)
    \<or> marked k (writeSummaryAndBlocks l (summary n) (if n = 0 then remark else []) (fst w))"
  proof (rule summary_marked [OF assms(1-3)])
    show "solid (summary n)" using assms(4) nm(2) by blast
    have none: "l0 = NewBuilderWithBudget 0" if "n = 0" using scanItems_none [of block xs 0 _ l0] s0 nm(1) that scratch_unbounded [OF w(4)] by simp
    show "Len l = 0 \<and> Len l0 = 0 \<and> (if n = 0 then remark else []) = (if n = 0 then remark else []) \<or> Len l > 0 \<and> bBuf l = bBuf l0
        \<or> Len l > 0 \<and> noticed (bBuf l) \<or> Len l = 0 \<and> (if n = 0 then remark else []) = [] \<and> bLimit (fst w) - int (length (summary n)) < k"
    proof (cases "bTruncated (Scratch ?r (Some (fst w)))")
      case True
      then have "bLimit (fst w) \<le> 111" "Len (Scratch ?r (Some (fst w))) = 0"
        using w lim unfolding r by (auto simp: Scratch_def Let_def Len_def split: if_splits)
      moreover have "l = Scratch ?r (Some (fst w))" using scanItems_truncated [OF True s] .
      moreover have "12 \<le> length (summary n)" using assms(4) nm(2) by blast
      ultimately show ?thesis using none assms(5) by (cases "n = 0") (auto simp: Len_def)
    next
      case False
      note room = Scratch_room [OF w(1,2) False]
      have "tracks (Scratch ?r (Some (fst w)), ()) (Scratch ?r (Some (fst w0)), ())"
        using room by (simp add: tracks_def scratch_unbounded [OF w(4)] unbounded_def)
      from scanItems_tracks [OF this s s0] show ?thesis
      proof
        assume "tracks (l, ()) (l0, ())"
        then show ?thesis by (auto simp: tracks_def Len_def)
      next
        assume "bTruncated l"
        then have "hasSuffix (bBuf l) ResultTruncationNotice" using scanItems_grows [OF s] False by (simp add: grows_def)
        then show ?thesis using noticed_suffix by (auto simp: Len_def hasSuffix_def)
      qed
    qed
  qed
  then show ?thesis using s s0 nm(1) by (simp add: issueSection_def)
qed

text \<open>A gather that makes one call and writes what it answers.\<close>

lemma gathers_call:
  fixes g :: "'s report \<Rightarrow> 'e option \<times> 's report"
  assumes g: "\<And>w. g w = (if Truncated (fst w) then (None, w)
      else case call (snd w) of (Inl e, s) \<Rightarrow> (Some e, fst w, s) | (Inr x, s) \<Rightarrow> (None, f x (fst w, s)))"
    and "\<And>x w. grows (fst w) (fst (f x w))"
    and "\<And>x w w0. tracks w w0 \<Longrightarrow> bBuf (fst w) = [] \<Longrightarrow> 0 < bLimit (fst w) \<Longrightarrow> tracks (f x w) (f x w0) \<or> marked k (fst (f x w))"
  shows "gathers False k g"
  unfolding gathers_def
proof (intro conjI allI impI)
  fix w w0 :: "'s report"
  show "grows (fst w) (fst (snd (g w)))"
    using assms(2) [of "(fst w, s)" for s] by (auto simp: g split: sum.splits prod.splits)
  assume t: "tracks w w0" "bBuf (fst w) = []" "0 < bLimit (fst w)"
  have n: "\<not> Truncated (fst w)" "\<not> Truncated (fst w0)" "snd w0 = snd w" using t(1) by (auto simp: tracks_def Truncated_def dest: unbounded_truncated)
  obtain r s where l: "call (snd w) = (r, s)" by force
  have t': "tracks (fst w, s) (fst w0, s)" using t(1) by (simp add: tracks_def)
  have e: "g w = (case r of Inl e \<Rightarrow> (Some e, fst w, s) | Inr x \<Rightarrow> (None, f x (fst w, s)))"
    "g w0 = (case r of Inl e \<Rightarrow> (Some e, fst w0, s) | Inr x \<Rightarrow> (None, f x (fst w0, s)))" using n l by (auto simp: g split: sum.splits)
  show "fst (g w) = fst (g w0)" "fst (g w) \<noteq> None \<Longrightarrow> snd (snd (g w)) = snd (snd (g w0))" using e by (auto split: sum.splits)
  show "tracks (snd (g w)) (snd (g w0)) \<or> marked k (fst (snd (g w))) \<or> False \<and> snd (g w) = w" if "fst (g w) = None"
    using e that assms(3) [OF t'] t by (auto split: sum.splits)
qed

text \<open>The section of a list: a remark when there is nothing, else the issues.\<close>

definition listSection :: "string \<Rightarrow> ('a \<Rightarrow> string option) \<Rightarrow> (int \<Rightarrow> string) \<Rightarrow> string \<Rightarrow> 'a list \<Rightarrow> bool \<Rightarrow> 's report \<Rightarrow> 's report" where
  "listSection noneFound block summary remark xs isEmpty w =
     (if isEmpty then put noneFound w else (issueSection block summary remark xs (fst w), snd w))"

lemma listSection_grows: "grows (fst w) (fst (listSection noneFound block summary remark xs isEmpty w))"
  by (simp add: listSection_def)

lemma listSection_tracks:
  assumes "solid noneFound" "\<And>n. 0 \<le> n \<Longrightarrow> solid (summary n) \<and> 12 \<le> length (summary n)" "100 \<le> k"
    and "tracks w w0" "bBuf (fst w) = []" "0 < bLimit (fst w)"
  shows "tracks (listSection noneFound block summary remark xs isEmpty w) (listSection noneFound block summary remark xs isEmpty w0)
    \<or> marked k (fst (listSection noneFound block summary remark xs isEmpty w))"
proof (cases isEmpty)
  case True
  then show ?thesis using put_marked [OF assms(4-6,1)] by (simp add: listSection_def)
next
  case False
  then show ?thesis using issueSection_tracks [OF assms(4-6), of summary, OF assms(2,3)] by (simp add: listSection_def)
qed

lemma issueList_gathers:
  assumes "solid noneFound" "\<And>items n. 0 \<le> n \<Longrightarrow> solid (summary items n) \<and> 12 \<le> length (summary items n)" "100 \<le> k"
  shows "gathers False k (gatherList env gvr ns noneFound (\<lambda>items. issueSection (block items) (summary items) (remark items) (view items)))"
proof (rule gathers_call [where call = "listObjects env gvr ns"
      and f = "\<lambda>items. listSection noneFound (block items) (summary items) (remark items) (view items) (items = [])"])
  show "gatherList env gvr ns noneFound (\<lambda>items. issueSection (block items) (summary items) (remark items) (view items)) w =
      (if Truncated (fst w) then (None, w)
       else case listObjects env gvr ns (snd w) of (Inl e, s) \<Rightarrow> (Some e, fst w, s)
         | (Inr items, s) \<Rightarrow> (None, listSection noneFound (block items) (summary items) (remark items) (view items) (items = []) (fst w, s)))" for w
    by (auto simp: gatherList_def listSection_def split: sum.splits prod.splits)
qed (rule listSection_grows, rule listSection_tracks [OF assms])

lemma solid_ascii [simp]:
  "solid (a # b # t) \<longleftrightarrow> \<not> isSpace a \<and> runeStart b"
  by (simp add: solid_def)

lemma solid_total [simp]: "solid (totalLine label n @ t)"
  by (simp add: totalLine_def isSpace_def runeStart_def)

lemma length_total [simp]: "length (totalLine label n) = 6 + length label + length (goSigned n)"
  by (simp add: totalLine_def)

lemma gathers_nodes: "100 \<le> k \<Longrightarrow> gathers False k (gatherNodeDiagnostics env)"
  unfolding gatherNodeDiagnostics_def Let_def by (intro issueList_gathers) (auto simp: isSpace_def runeStart_def)

lemma gathers_pods: "100 \<le> k \<Longrightarrow> gathers False k (gatherPodDiagnostics env ns)"
  unfolding gatherPodDiagnostics_def by (intro issueList_gathers) (auto simp: isSpace_def runeStart_def)

lemma gathers_claims: "100 \<le> k \<Longrightarrow> gathers False k (gatherPVCDiagnostics env ns)"
  unfolding gatherPVCDiagnostics_def by (intro issueList_gathers) (auto simp: isSpace_def runeStart_def)

lemma gathers_workload: "100 \<le> k \<Longrightarrow> gathers False k (workloadSection env kind resource ns block)"
  unfolding workloadSection_def by (intro issueList_gathers) (auto simp: isSpace_def runeStart_def)

lemma gathers_workloads:
  assumes "100 \<le> k"
  shows "gathers False k (gatherWorkloadDiagnostics env kind ns)"
proof -
  define h where "h = (if kind = ''Deployment'' then workloadSection env kind ''deployments'' ns (unavailableBlock ''replicas'')
      else if kind = ''StatefulSet'' then workloadSection env kind ''statefulsets'' ns statefulSetBlock
      else if kind = ''DaemonSet'' then workloadSection env kind ''daemonsets'' ns (unavailableBlock ''pods'')
      else (\<lambda>w. (Some (ConvertErr (''unsupported workload kind: '' @ kind)), w)))"
  have "gathers False k (\<lambda>w :: healthReport. (Some (ConvertErr e), w))" for e by (auto simp: gathers_def tracks_def)
  then have "gathers False k h" using gathers_workload [OF assms] by (simp add: h_def)
  then have "gathers False k (\<lambda>w. if Truncated (fst w) then (None, w) else h w)"
    unfolding gathers_def by (auto simp: Truncated_def tracks_def dest: unbounded_truncated)
  moreover have "gatherWorkloadDiagnostics env kind ns = (\<lambda>w. if Truncated (fst w) then (None, w) else h w)"
    by (auto simp: gatherWorkloadDiagnostics_def h_def)
  ultimately show ?thesis by simp
qed

lemma gathers_operators:
  assumes "100 \<le> k"
  shows "gathers False k (gatherClusterOperatorDiagnostics env)"
proof (rule gathers_call [where call = "inCoreErr (hePods env) (\<lambda>c. ResourcesList c clusterOperatorGVK [] False noOptions)"
      and f = "\<lambda>l. listSection ''No cluster operators found'' operatorBlock (\<lambda>n. totalLine ''Operators with Issues'' n @ [nl, nl])
        ''*All cluster operators are healthy*'' (itemsOf (map_of l ''items'')) (itemsOf (map_of l ''items'') = [])"])
  show "gatherClusterOperatorDiagnostics env w =
      (if Truncated (fst w) then (None, w)
       else case inCoreErr (hePods env) (\<lambda>c. ResourcesList c clusterOperatorGVK [] False noOptions) (snd w) of
           (Inl e, s) \<Rightarrow> (Some e, fst w, s)
         | (Inr l, s) \<Rightarrow> (None, listSection ''No cluster operators found'' operatorBlock (\<lambda>n. totalLine ''Operators with Issues'' n @ [nl, nl])
             ''*All cluster operators are healthy*'' (itemsOf (map_of l ''items'')) (itemsOf (map_of l ''items'') = []) (fst w, s)))" for w
    by (auto simp: gatherClusterOperatorDiagnostics_def listSection_def Let_def split: sum.splits prod.splits)
qed (rule listSection_grows, rule listSection_tracks [OF _ _ assms], simp_all add: isSpace_def runeStart_def)

section \<open>Events\<close>

definition sameTally :: "eventTally \<Rightarrow> eventTally \<Rightarrow> bool" where
  "sameTally t t0 \<longleftrightarrow>
     tyWarnings t = tyWarnings t0 \<and> tyErrors t = tyErrors t0 \<and> tyRetained t = tyRetained t0 \<and> tracks (tyLines t, ()) (tyLines t0, ())"

lemma tallyEvent_grows: "grows (tyLines t) (tyLines (tallyEvent env ns ev t))"
proof -
  have "grows b lines" if "WriteString l b = (c, lines)" for l b c lines using grows_write [of b l] that by simp
  then show ?thesis by (auto simp: tallyEvent_def Let_def split: prod.splits bool.splits)
qed

lemma tallyEvents_grows: "grows (tyLines t) (tyLines (fold (tallyEvent env ns) evs t))"
  by (induction evs arbitrary: t) (auto intro: grows_trans tallyEvent_grows)

lemma tallyEvent_truncated: "bTruncated (tyLines t) \<Longrightarrow> tyLines (tallyEvent env ns ev t) = tyLines t"
  by (auto simp: tallyEvent_def Let_def eventsFull_def Truncated_def)

lemma tallyEvents_truncated: "bTruncated (tyLines t) \<Longrightarrow> tyLines (fold (tallyEvent env ns) evs t) = tyLines t"
  by (induction evs arbitrary: t) (simp_all add: tallyEvent_truncated)

lemma tallyEvent_tracks:
  assumes "sameTally t t0"
  shows "sameTally (tallyEvent env ns ev t) (tallyEvent env ns ev t0) \<or> bTruncated (tyLines (tallyEvent env ns ev t))"
proof -
  let ?l = "eventLine ns ev"
  have b: "\<not> bTruncated (tyLines t)" "\<not> bTruncated (tyLines t0)" using assms by (auto simp: sameTally_def tracks_def dest: unbounded_truncated)
  have u: "WriteString ?l (tyLines t0) = (False, (tyLines t0)\<lparr>bBuf := bBuf (tyLines t0) @ ?l\<rparr>)"
    using assms by (intro unbounded_write) (simp add: sameTally_def tracks_def)
  obtain c lines where w: "WriteString ?l (tyLines t) = (c, lines)" by force
  have c: "c = bTruncated lines" using WriteString_result [of ?l "tyLines t"] w by simp
  have "tracks (lines, ()) (snd (WriteString ?l (tyLines t0)), ()) \<or> c"
    using write_tracks(1) [of "(tyLines t, ())" "(tyLines t0, ())" ?l] assms w c by (auto simp: sameTally_def put_def)
  then show ?thesis using assms b u w c
    by (cases c) (auto simp: sameTally_def tallyEvent_def Let_def eventsFull_def Truncated_def)
qed

lemma tallyEvents_tracks:
  "sameTally t t0 \<Longrightarrow> sameTally (fold (tallyEvent env ns) evs t) (fold (tallyEvent env ns) evs t0) \<or> bTruncated (tyLines (fold (tallyEvent env ns) evs t))"
proof (induction evs arbitrary: t t0)
  case (Cons ev evs)
  from tallyEvent_tracks [OF Cons.prems, of env ns ev] Cons.IH show ?case by (auto simp: tallyEvents_truncated)
qed simp

lemma tallyNamespaces_grows: "tallyNamespaces env nss (t, s) = (t', s') \<Longrightarrow> grows (tyLines t) (tyLines t')"
proof (induction nss arbitrary: t s)
  case (Cons ns nss)
  then show ?case by (auto split: if_splits prod.splits sum.splits) (meson grows_trans tallyEvents_grows)
qed simp

lemma tallyNamespaces_truncated: "bTruncated (tyLines t) \<Longrightarrow> tallyNamespaces env nss (t, s) = (t, s)"
  by (cases nss) (simp_all add: eventsFull_def Truncated_def)

lemma tallyNamespaces_tracks:
  assumes "sameTally t t0" "tallyNamespaces env nss (t, s) = (t', s')" "tallyNamespaces env nss (t0, s) = (t0', s0')"
  shows "sameTally t' t0' \<and> s' = s0' \<or> bTruncated (tyLines t')"
  using assms
proof (induction nss arbitrary: t t0 s)
  case (Cons ns nss)
  have f: "eventsFull t = eventsFull t0" using Cons.prems(1) by (auto simp: sameTally_def eventsFull_def tracks_def Truncated_def dest: unbounded_truncated)
  obtain r s1 where l: "listObjects env (coreGVR ''events'') ns s = (r, s1)" by force
  show ?case
  proof (cases "eventsFull t")
    case True
    then show ?thesis using Cons.prems f by simp
  next
    case no: False
    show ?thesis
    proof (cases r)
      case (Inl e)
      then show ?thesis using Cons.IH [OF Cons.prems(1)] Cons.prems l f no by simp
    next
      case (Inr items)
      let ?f = "fold (tallyEvent env ns) (map (heEvent env) items)"
      have n: "tallyNamespaces env nss (?f t, s1) = (t', s')" "tallyNamespaces env nss (?f t0, s1) = (t0', s0')"
        using Cons.prems l f no Inr by simp_all
      from tallyEvents_tracks [OF Cons.prems(1), of env ns "map (heEvent env) items"] show ?thesis
        using Cons.IH [OF _ n] tallyNamespaces_truncated [of "?f t" env nss s1] n(1) by auto
    qed
  qed
qed simp

lemma gathers_events: "gathers True k (\<lambda>body. (None, writeEventBody env ns known body))"
  unfolding gathers_def
proof (intro conjI allI impI)
  fix w w0 :: healthReport
  let ?e = "writeEventBody env ns known"
  show "grows (fst w) (fst (snd (None, ?e w)))" by (simp add: writeEventBody_def Let_def writeSummary_grows split: prod.splits)
  show "fst (None, ?e w) = fst (None, ?e w0)" by simp
  show "fst (None, ?e w) \<noteq> None \<Longrightarrow> snd (snd (None, ?e w)) = snd (snd (None, ?e w0))" by simp
  assume t: "tracks w w0" "bBuf (fst w) = []" "0 < bLimit (fst w)"
  have w: "wfBuilder (fst w)" "bCapped (fst w)" "\<not> bTruncated (fst w)" "unbounded (fst w0)" "snd w0 = snd w" using t(1) by (auto simp: tracks_def)
  let ?l = "Scratch eventTotalsReserve (Some (fst w))" and ?f = "NewBuilderWithBudget 0"
  show "tracks (snd (None, ?e w)) (snd (None, ?e w0)) \<or> marked k (fst (snd (None, ?e w))) \<or> True \<and> snd (None, ?e w) = w"
  proof (cases "bTruncated ?l")
    case True
    then show ?thesis by (simp add: writeEventBody_def Truncated_def)
  next
    case False
    obtain nss s where n: "eventNamespaces env ns known (snd w) = (nss, s)" by force
    let ?t = "\<lambda>b. \<lparr>tyWarnings = 0, tyErrors = 0, tyRetained = 0, tyLines = b\<rparr>"
    obtain u s1 where r: "tallyNamespaces env nss (?t ?l, s) = (u, s1)" by force
    obtain u0 s2 where r0: "tallyNamespaces env nss (?t ?f, s) = (u0, s2)" by force
    have e: "?e w = (writeSummaryAndBlocks (tyLines u) (eventTotals u) ''*No recent warning/error events*'' (fst w), s1)"
      "?e w0 = (writeSummaryAndBlocks (tyLines u0) (eventTotals u0) ''*No recent warning/error events*'' (fst w0), s2)"
      using False w(3,5) unbounded_truncated [OF w(4)] n r r0 scratch_unbounded [OF w(4)] by (simp_all add: writeEventBody_def Truncated_def)
    have "sameTally (?t ?l) (?t ?f)" using Scratch_room [OF w(1,2) False] by (simp add: sameTally_def tracks_def unbounded_def)
    from tallyNamespaces_tracks [OF this r r0] show ?thesis
    proof
      assume u: "sameTally u u0 \<and> s1 = s2"
      then have q: "eventTotals u0 = eventTotals u" "Len (tyLines u0) = Len (tyLines u)" "bBuf (tyLines u) = bBuf (tyLines u0)" "s2 = s1"
        by (auto simp: sameTally_def tracks_def eventTotals_def Len_def)
      have t': "tracks (fst w, s1) (fst w0, s1)" "bBuf (fst (fst w, s1)) = []" "0 < bLimit (fst (fst w, s1))" using t by (simp_all add: tracks_def)
      have so: "solid (eventTotals u)" by (simp add: eventTotals_def)
      have d: "Len (tyLines u) = 0 \<or> 0 < Len (tyLines u)" by (simp add: Len_def)
      show ?thesis unfolding e q(1,4) using summary_marked [OF t' so, of "tyLines u" "tyLines u0" _ _ k] q(2,3) d by auto
    next
      assume "bTruncated (tyLines u)"
      then have "hasSuffix (bBuf (tyLines u)) ResultTruncationNotice" using tallyNamespaces_grows [OF r] False by (simp add: grows_def)
      then have "0 < Len (tyLines u)" "noticed (bBuf (tyLines u))" using noticed_suffix by (auto simp: Len_def hasSuffix_def)
      then show ?thesis using noticed_lines [OF t, of "eventTotals u" "tyLines u"] e by (simp add: eventTotals_def)
    qed
  qed
qed

section \<open>The whole report\<close>

lemma closingRoom_eq: "closingRoom = 100"
  by (simp add: closingText_def)

lemma faithful_healthSection:
  "gathers False closingRoom g \<Longrightarrow> length header < 90 \<Longrightarrow> faithful closingRoom (healthSection header g)"
  unfolding healthSection_def [abs_def] by (rule faithful_TrySection) (simp_all add: closingRoom_eq)

lemma faithful_preamble: "faithful k (writeHealthCheckPreamble diag)"
proof -
  have "faithful k (fold put ts)" for ts :: "string list"
  proof (induction ts)
    case Nil
    show ?case by (simp add: faithful_def)
  next
    case (Cons t ts)
    show ?case using faithful_comp [OF faithful_put [of k t] Cons] by (simp add: comp_def)
  qed
  then show ?thesis unfolding writeHealthCheckPreamble_def [abs_def] .
qed

lemma workloadStep_eq:
  "TrySectionIn (workloadHeader title f) [nl, nl] (gatherWorkloadDiagnostics env kind ns) (b, s) = (written, e, b', s') \<Longrightarrow>
     workloadStep env ns title kind (b, s, f) = (b', s', if e = None \<and> written then True else f)"
  by (auto simp: workloadStep_def split: option.splits)

lemma faithful_workloadStep:
  assumes "length title < 20"
  shows "faithful closingRoom (workloadStep env ns title kind)"
  unfolding faithful_def
proof (intro conjI allI impI)
  let ?g = "gatherWorkloadDiagnostics env kind ns" and ?step = "workloadStep env ns title kind"
  have g: "gathers False closingRoom ?g" by (rule gathers_workloads) (simp add: closingRoom_eq)
  fix w w0 :: "(podState \<times> bool) report"
  obtain b s f where w: "w = (b, s, f)" by (metis prod_cases3)
  obtain wr e b' s' where 1: "TrySectionIn (workloadHeader title f) [nl, nl] ?g (b, s) = (wr, e, b', s')" by (metis prod_cases4)
  show "grows (fst w) (fst (?step w))" using TrySectionIn_grows [OF gathersD(1) [OF g] 1] by (simp add: w workloadStep_eq [OF 1])
  assume t: "tracks w w0"
  then obtain b0 where w0: "w0 = (b0, s, f)" and t': "tracks (b, s) (b0, s)" by (cases w0) (auto simp: tracks_def w)
  obtain wr0 e0 b0' s0' where 0: "TrySectionIn (workloadHeader title f) [nl, nl] ?g (b0, s) = (wr0, e0, b0', s0')" by (metis prod_cases4)
  have "int (length (workloadHeader title f)) + int (length [nl, nl]) < closingRoom" using assms by (simp add: workloadHeader_def Let_def closingRoom_eq)
  from TrySectionIn_tracks [OF g t' this 1 0] show "tracks (?step w) (?step w0) \<or> doomed closingRoom (fst (?step w))"
    by (auto simp: w w0 workloadStep_eq [OF 1] workloadStep_eq [OF 0] tracks_def)
qed

lemma faithful_workloads: "faithful closingRoom (writeWorkloadSections env ns)"
proof -
  let ?fs = "[workloadStep env ns ''Deployments'' ''Deployment'', workloadStep env ns ''StatefulSets'' ''StatefulSet'', workloadStep env ns ''DaemonSets'' ''DaemonSet'']"
  have f: "faithful closingRoom (SectionsIn ?fs)" by (rule faithful_SectionsIn) (simp add: faithful_workloadStep)
  have e: "writeWorkloadSections env ns (b, s) = (case SectionsIn ?fs (b, s, False) of (b, s, _) \<Rightarrow> (b, s))" for b s
    by (simp only: writeWorkloadSections_def fst_conv snd_conv)
  show ?thesis unfolding faithful_def
  proof (intro conjI allI impI)
    fix w w0 :: healthReport
    obtain b s where w: "w = (b, s)" by force
    obtain b1 s1 f1 where 1: "SectionsIn ?fs (b, s, False) = (b1, s1, f1)" by (metis prod_cases3)
    have w1: "writeWorkloadSections env ns w = (b1, s1)" unfolding w e 1 by simp
    show "grows (fst w) (fst (writeWorkloadSections env ns w))" unfolding w1 using faithfulD(1) [OF f, of "(b, s, False)"] unfolding 1 w by simp
    assume t: "tracks w w0"
    then obtain b0 where w0: "w0 = (b0, s)" and t': "tracks (b, s, False) (b0, s, False)" by (cases w0) (auto simp: tracks_def w)
    obtain b2 s2 f2 where 2: "SectionsIn ?fs (b0, s, False) = (b2, s2, f2)" by (metis prod_cases3)
    have w2: "writeWorkloadSections env ns w0 = (b2, s2)" unfolding w0 e 2 by simp
    from faithfulD(2) [OF f t'] show "tracks (writeWorkloadSections env ns w) (writeWorkloadSections env ns w0)
        \<or> doomed closingRoom (fst (writeWorkloadSections env ns w))"
      unfolding w1 w2 1 2 by (auto simp: tracks_def)
  qed
qed

lemma faithful_sections: "faithful closingRoom (SectionsIn (healthSections env ns diag))"
proof (rule faithful_SectionsIn)
  have k: "100 \<le> closingRoom" by (simp add: closingRoom_eq)
  show "list_all (faithful closingRoom) (healthSections env ns diag)" unfolding healthSections_def
    by (simp add: faithful_preamble faithful_workloads faithful_healthSection gathers_nodes [OF k] gathers_operators [OF k] gathers_pods [OF k] gathers_claims [OF k])
qed

lemma eventSection_tracks:
  assumes "tracks w w0"
  shows "tracks (eventSection env ns known ce w) (eventSection env ns known ce w0)
    \<or> doomed closingRoom (fst (eventSection env ns known ce w)) \<or> eventSection env ns known ce w = w"
proof -
  let ?h = "''## 6. Recent Events (Last Hour)'' @ [nl, nl]" and ?g = "\<lambda>body. (None, writeEventBody env ns known body) :: podErr option \<times> healthReport"
  obtain wr e w' where 1: "TrySectionIn ?h [nl, nl] ?g w = (wr, e, w')" by (metis prod_cases3)
  obtain wr0 e0 w0' where 0: "TrySectionIn ?h [nl, nl] ?g w0 = (wr0, e0, w0')" by (metis prod_cases3)
  have "int (length ?h) + int (length [nl, nl]) < closingRoom" by (simp add: closingRoom_eq)
  from TrySectionIn_tracks [OF gathers_events assms this 1 0] 1 0 show ?thesis by (auto simp: eventSection_def healthSection_def)
qed

lemma eventSection_grows: "grows (fst w) (fst (eventSection env ns known ce w))"
proof -
  obtain wr e w' where 1: "TrySectionIn (''## 6. Recent Events (Last Hour)'' @ [nl, nl]) [nl, nl]
      (\<lambda>body. (None, writeEventBody env ns known body) :: podErr option \<times> healthReport) w = (wr, e, w')"
    by (metis prod_cases3)
  from TrySectionIn_grows [OF gathersD(1) [OF gathers_events] 1] 1 show ?thesis by (auto simp: eventSection_def healthSection_def)
qed

lemma prompt_complete:
  assumes "tracks w w0" and "\<not> noticed (bBuf (fst (SectionsIn (healthSections env ns diag @ [eventSection env ns known ce, put closingText]) w)))"
  shows "\<exists>ce' \<in> {ce, False}. tracks (SectionsIn (healthSections env ns diag @ [eventSection env ns known ce, put closingText]) w)
    (SectionsIn (healthSections env ns diag @ [eventSection env ns known ce', put closingText]) w0)"
proof -
  define F where "F = SectionsIn (healthSections env ns diag) w"
  define F0 where "F0 = SectionsIn (healthSections env ns diag) w0"
  let ?E = "eventSection env ns known" and ?C = "put closingText"
  have s: "SectionsIn (healthSections env ns diag @ [?E ce, ?C]) w = SectionsIn [?C] (SectionsIn [?E ce] F)"
    using SectionsIn_append [of "healthSections env ns diag" "[?E ce, ?C]" w] SectionsIn_append [of "[?E ce]" "[?C]" F] by (simp add: F_def)
  have u: "unbounded (fst F0)" unfolding F0_def
    using unbounded_grows [OF _ faithfulD(1) [OF faithful_sections]] assms(1) by (simp add: tracks_def)
  have s0: "SectionsIn (healthSections env ns diag @ [?E c, ?C]) w0 = SectionsIn [?C] (?E c F0)" for c
    using SectionsIn_append [of "healthSections env ns diag" "[?E c, ?C]" w0] SectionsIn_unbounded [OF u] by (simp add: F0_def)
  have doom: "\<not> doomed closingRoom (fst (SectionsIn [?E ce] F))" using closing_noticed assms(2) unfolding s by blast
  have gS: "grows (fst F) (fst (SectionsIn [?E ce] F))" by (rule grows_SectionsIn) (simp add: eventSection_grows)
  from faithfulD(2) [OF faithful_sections assms(1)] doom doomed_grows [OF _ gS] have t: "tracks F F0" unfolding F_def F0_def by blast
  have "wfBuilder (fst (SectionsIn [?E ce] F))" "bCapped (fst (SectionsIn [?E ce] F))" using tracks_grows_cap [OF t gS] by auto
  with SectionsIn_one [OF t, of "?E ce"] doom have E: "SectionsIn [?E ce] F = ?E ce F" using noticed_doomed by blast
  from eventSection_tracks [OF t, of env ns known ce] doom E consider "tracks (?E ce F) (?E ce F0)" | "?E ce F = F" by auto
  then show ?thesis
  proof cases
    case 1
    from closing_tracks [OF 1, of closingText] assms(2) have "tracks (SectionsIn [?C] (?E ce F)) (SectionsIn [?C] (?E ce F0))" unfolding s E by blast
    then show ?thesis unfolding s E s0 by blast
  next
    case 2
    from closing_tracks [OF t, of closingText] assms(2) have "tracks (SectionsIn [?C] F) (SectionsIn [?C] F0)" unfolding s E 2 by blast
    moreover have "?E False F0 = F0" by (simp add: eventSection_def)
    ultimately have "tracks (SectionsIn [?C] F) (SectionsIn [?C] (?E False F0))" by (simp only:)
    then show ?thesis unfolding s E s0 2 by blast
  qed
qed

definition healthReportOf :: "healthEnv \<Rightarrow> string \<Rightarrow> string \<Rightarrow> string list option \<Rightarrow> bool \<Rightarrow> healthReport \<Rightarrow> healthReport" where
  "healthReportOf env ns warning known ce =
     SectionsIn (healthSections env ns (diagnosticsOf env ns warning known) @ [eventSection env ns known ce, put closingText])"

lemma grows_healthReport: "grows (fst w) (fst (healthReportOf env ns warning known ce w))"
  unfolding healthReportOf_def SectionsIn_append
proof (rule grows_trans)
  show "grows (fst w) (fst (SectionsIn (healthSections env ns (diagnosticsOf env ns warning known)) w))" by (rule faithfulD(1) [OF faithful_sections])
  show "grows (fst v) (fst (SectionsIn [eventSection env ns known ce, put closingText] v))" for v
  proof (rule grows_SectionsIn)
    fix f and w :: healthReport assume "f \<in> set [eventSection env ns known ce, put closingText]"
    then consider "f = eventSection env ns known ce" | "f = put closingText" by auto
    then show "grows (fst w) (fst (f w))" by cases (simp_all only: eventSection_grows grows_put)
  qed
qed

lemma build_healthReport:
  assumes "\<not> Truncated (NewPromptBudget ctx healthCheckAssistantText)"
  shows "buildHealthCheckPrompt env ctx ns warning ce s =
    (case knownNamespaces env (NewBuilderWithBudget 0) s of (known, s1) \<Rightarrow> healthReportOf env ns warning known ce (NewPromptBudget ctx healthCheckAssistantText, s1))"
proof -
  have "knownNamespaces env (NewPromptBudget ctx healthCheckAssistantText) s = knownNamespaces env (NewBuilderWithBudget 0) s"
    using assms by (simp add: knownNamespaces_def Truncated_def)
  then show ?thesis by (simp add: buildHealthCheckPrompt_def healthReportOf_def split: prod.splits)
qed

lemma promptBudget:
  "NewPromptBudget (Some None) t = NewBuilderWithBudget 0"
  "int (length t) < limit \<Longrightarrow> NewPromptBudget (Some (Some limit)) t = NewBuilderWithBudget (limit - int (length t))"
  by (auto simp: NewPromptBudget_def ResultLimit_def Scratch_def NewBuilderWithBudget_def Remaining_def Let_def)

text \<open>
  C17. Under a limit that leaves room beside the assistant's message, the two messages of the
  health check are together no longer than the limit and one truncation notice. When the text
  does not contain the notice it is the text that is written without any limit, after the same
  requests, with nothing left out of any section; the one exception is the section on events,
  which may be missing without a notice, and then the result is the one without events.
\<close>

theorem unmarked_health_check_is_complete:
  assumes "int (length healthCheckAssistantText) < limit"
    and "clusterHealthCheckHandler env (Some (Some limit)) args s = ([user, assistant], s')"
  shows "int (length (pmText user) + length (pmText assistant)) \<le> limit + int (length ResultTruncationNotice)
    \<and> (\<not> containsSub (pmText user) ResultTruncationNotice \<longrightarrow>
        ([user, assistant], s') \<in> {clusterHealthCheckHandler env (Some None) args s,
          clusterHealthCheckHandler env (Some None) (args(''check_events'' \<mapsto> ''false'')) s})"
proof -
  let ?ce = "args ''check_events'' \<noteq> Some ''false''" and ?a = "int (length healthCheckAssistantText)"
  let ?msgs = "\<lambda>w :: healthReport. ([\<lparr>pmRole = ''user'', pmType = ''text'', pmText = bBuf (fst w)\<rparr>,
           \<lparr>pmRole = ''assistant'', pmType = ''text'', pmText = healthCheckAssistantText\<rparr>], snd w)"
  obtain ns warning s1 where sc: "healthScope env (case args ''namespace'' of None \<Rightarrow> [] | Some v \<Rightarrow> v) s = (ns, warning, s1)" by (metis prod_cases3)
  obtain known s2 where kn: "knownNamespaces env (NewBuilderWithBudget 0) s1 = (known, s2)" by force
  let ?r = "healthReportOf env ns warning known"
  have L: "clusterHealthCheckHandler env (Some (Some limit)) args s = ?msgs (?r ?ce (NewBuilderWithBudget (limit - ?a), s2))"
    using sc kn build_healthReport [of "Some (Some limit)" env ns warning ?ce s1] promptBudget(2) [OF assms(1)]
    by (simp add: clusterHealthCheckHandler_def Truncated_def split: prod.splits)
  have U: "clusterHealthCheckHandler env (Some None) args s = ?msgs (?r ?ce (NewBuilderWithBudget 0, s2))"
    "clusterHealthCheckHandler env (Some None) (args(''check_events'' \<mapsto> ''false'')) s = ?msgs (?r False (NewBuilderWithBudget 0, s2))"
    using sc kn build_healthReport [of "Some None" env ns warning _ s1] promptBudget(1)
    by (simp_all add: clusterHealthCheckHandler_def Truncated_def split: prod.splits)
  let ?b = "fst (?r ?ce (NewBuilderWithBudget (limit - ?a), s2))"
  have g: "wfBuilder ?b" "bLimit ?b = limit - ?a" "bCapped ?b"
    using grows_healthReport [of "(NewBuilderWithBudget (limit - ?a), s2)" env ns warning known ?ce] assms(1) by (auto simp: grows_def)
  have u: "pmText user = bBuf ?b" "pmText assistant = healthCheckAssistantText" using assms(2) L by auto
  have "Len ?b \<le> limit - ?a + 31" using wfBuilder_Len_bound [OF g(1,3)] g(2) by simp
  then have 1: "int (length (pmText user) + length (pmText assistant)) \<le> limit + int (length ResultTruncationNotice)"
    unfolding u by (simp add: Len_def)
  have t: "tracks (NewBuilderWithBudget (limit - ?a), s2) (NewBuilderWithBudget 0, s2)" using assms(1) by (simp add: tracks_def unbounded_def)
  show ?thesis
  proof (intro conjI impI)
    assume "\<not> containsSub (pmText user) ResultTruncationNotice"
    then have n: "\<not> noticed (bBuf ?b)" by (simp add: u noticed_def)
    then obtain c where "c \<in> {?ce, False}" "tracks (?r ?ce (NewBuilderWithBudget (limit - ?a), s2)) (?r c (NewBuilderWithBudget 0, s2))"
      using prompt_complete [OF t, of env ns "diagnosticsOf env ns warning known" known ?ce] unfolding healthReportOf_def by blast
    then show "([user, assistant], s') \<in> {clusterHealthCheckHandler env (Some None) args s,
        clusterHealthCheckHandler env (Some None) (args(''check_events'' \<mapsto> ''false'')) s}"
      unfolding U assms(2) [symmetric] L by (auto simp: tracks_def)
  qed (rule 1)
qed

section \<open>What goes missing\<close>

text \<open>With between 100 and 115 bytes left the section on events is dropped, and nothing says so.\<close>

lemma events_silently_omitted:
  assumes "wfBuilder b" "bCapped b" "\<not> bTruncated b" "100 \<le> bLimit b - Len b" "bLimit b - Len b \<le> 115"
  shows "SectionsIn [eventSection env ns known True, put closingText] (b, s) = (b\<lparr>bBuf := bBuf b @ closingText\<rparr>, s)"
proof -
  let ?body = "Scratch (int (length (''## 6. Recent Events (Last Hour)'' @ [nl, nl])) + int (length [nl, nl])) (Some b)"
  have sp: "spent (Some b) = (False, Some b)" using assms(1) by (cases rule: spent_cases) (use assms in auto)
  have r: "Remaining (Some b) = bLimit b - Len b" using Remaining_eq assms(1-3) by blast
  have body: "?body = NewBuilderWithBudget (bLimit b - Len b - 35)" using assms r by (simp add: Scratch_def Let_def)
  have e: "writeEventBody env ns known (?body, s) = (?body, s)"
    unfolding body using assms by (simp add: writeEventBody_def Scratch_def Truncated_def eventTotalsReserve_def Remaining_def)
  have "CommitScratch h t (Some ?body) (Some b) = (True, Some b)" for h t
    unfolding body using assms by (simp add: CommitScratch_eq Prefix_def Truncated_def trimSpace_def dropWhileEnd_def)
  then have "eventSection env ns known True (b, s) = (b, s)"
    unfolding eventSection_def healthSection_def TrySectionIn_def Let_def using e by (simp split: if_splits)
  moreover have "put closingText (b, s) = (b\<lparr>bBuf := bBuf b @ closingText\<rparr>, s)"
    unfolding put_def using WriteString_fits [OF assms(3), of closingText] assms(4) closingRoom_eq by simp
  ultimately show ?thesis using sp by simp
qed

section \<open>A cluster that answers nothing\<close>

definition silentHealth :: healthEnv where
  "silentHealth =
     \<lparr>hePods = examplePods\<lparr>peAnswer := (\<lambda>_ _. Inl (Fault ''forbidden''))\<rparr>, heCollected = ''2026-01-01T00:00:00Z'', heHourAgo = 0,
      heNode = (\<lambda>_. \<lparr>nhName = [], nhConditions = []\<rparr>), hePod = (\<lambda>_. \<lparr>phNamespace = [], phName = [], phPhase = [], phContainers = []\<rparr>),
      heWorkload = (\<lambda>_. \<lparr>wlNamespace = [], wlName = [], wlReady = 0, wlWanted = 0, wlUnavailable = 0, wlSpecified = None\<rparr>),
      heClaim = (\<lambda>_. \<lparr>clNamespace = [], clName = [], clPhase = []\<rparr>),
      heEvent = (\<lambda>_. \<lparr>evType = [], evLast = None, evTime = None, evKind = [], evName = [], evReason = [], evCount = 0, evMessage = []\<rparr>)\<rparr>"

lemma TrySectionIn_fails:
  assumes "\<And>v. \<not> Truncated (fst v) \<Longrightarrow> \<exists>e s. g v = (Some e, fst v, s)"
  shows "fst (snd (snd (TrySectionIn header suffix g w))) = fst w"
proof -
  let ?body = "Scratch (int (length header) + int (length suffix)) (Some (fst w))"
  show ?thesis
  proof (cases "\<not> Fits (Some (fst w)) (int (length header)) \<or> Truncated ?body")
    case True
    then show ?thesis by (auto simp: TrySectionIn_def Let_def)
  next
    case False
    with assms [of "(?body, snd w)"] obtain e s where "g (?body, snd w) = (Some e, ?body, s)" by auto
    with False show ?thesis by (simp add: TrySectionIn_def Let_def)
  qed
qed

lemma silent_list: "listObjects silentHealth gvr ns s = (Inl (ApiErr (Fault ''forbidden'')), s\<lparr>psLog := psLog s @ [Api (OpList gvr ns noOptions)]\<rparr>)"
  by (simp add: listObjects_def callApi_def silentHealth_def)

lemma silent_gather: "\<not> Truncated (fst v) \<Longrightarrow> \<exists>e s. gatherList silentHealth gvr ns none wr v = (Some e, fst v, s)"
  by (simp add: gatherList_def silent_list)

lemma silent_operators: "\<not> Truncated (fst v) \<Longrightarrow> \<exists>e s. gatherClusterOperatorDiagnostics silentHealth v = (Some e, fst v, s)"
proof -
  assume v: "\<not> Truncated (fst v)"
  obtain r s where l: "inCoreErr (hePods silentHealth) (\<lambda>c. ResourcesList c clusterOperatorGVK [] False noOptions) (snd v) = (r, s)" by force
  then have "isl r"
    by (auto simp: inCoreErr_def inCore_def ResourcesList_def send_def coreAt_def silentHealth_def Let_def split: prod.splits sum.splits)
  with v l show ?thesis by (cases r) (auto simp: gatherClusterOperatorDiagnostics_def)
qed

lemma SectionsIn_keeps:
  "spent (Some (fst w)) = (False, Some (fst w)) \<Longrightarrow> (\<And>f v. f \<in> set fs \<Longrightarrow> fst v = fst w \<Longrightarrow> fst (f v) = fst w) \<Longrightarrow> fst (SectionsIn fs w) = fst w"
proof (induction fs arbitrary: w)
  case (Cons f fs)
  have f: "fst (f w) = fst w" using Cons.prems(2) [of f w] by simp
  have "fst (SectionsIn fs (f w)) = fst (f w)" by (rule Cons.IH) (use Cons.prems f in auto)
  then show ?case using Cons.prems(1) f by simp
qed simp

lemma silent_workloads:
  assumes "spent (Some (fst w)) = (False, Some (fst w))"
  shows "fst (writeWorkloadSections silentHealth ns w) = fst w"
proof -
  have gw: "\<exists>e s. gatherWorkloadDiagnostics silentHealth kind ns v = (Some e, fst v, s)" if "\<not> Truncated (fst v)" for kind v
    using that silent_gather by (cases v) (auto simp: gatherWorkloadDiagnostics_def workloadSection_def)
  have fails: "fst (snd (snd (TrySectionIn h t (gatherWorkloadDiagnostics silentHealth kind ns) v))) = fst v" for h t kind v
    by (rule TrySectionIn_fails) (rule gw)
  have st: "fst (workloadStep silentHealth ns title kind v) = fst v" for title kind v
  proof -
    obtain b s f where v: "v = (b, s, f)" by (metis prod_cases3)
    obtain wr e b' s' where t: "TrySectionIn (workloadHeader title f) [nl, nl] (gatherWorkloadDiagnostics silentHealth kind ns) (b, s) = (wr, e, b', s')"
      by (metis prod_cases4)
    from fails [of "workloadHeader title f" "[nl, nl]" kind "(b, s)"] t show ?thesis by (simp add: v workloadStep_eq [OF t])
  qed
  let ?fs = "[workloadStep silentHealth ns ''Deployments'' ''Deployment'', workloadStep silentHealth ns ''StatefulSets'' ''StatefulSet'',
    workloadStep silentHealth ns ''DaemonSets'' ''DaemonSet'']"
  have "fst (SectionsIn ?fs (fst w, snd w, False)) = fst (fst w, snd w, False)"
  proof (rule SectionsIn_keeps)
    show "spent (Some (fst (fst w, snd w, False))) = (False, Some (fst (fst w, snd w, False)))" using assms by simp
    fix f and v :: "(podState \<times> bool) report" assume "f \<in> set ?fs" "fst v = fst (fst w, snd w, False)"
    then show "fst (f v) = fst (fst w, snd w, False)" by (elim set_ConsD [elim_format] disjE) (simp_all add: st)
  qed
  moreover obtain b s f where "SectionsIn ?fs (fst w, snd w, False) = (b, s, f)" by (metis prod_cases3)
  ultimately show ?thesis unfolding writeWorkloadSections_def by (simp only: prod.case fst_conv)
qed

abbreviation silentDiagnostics :: clusterDiagnostics where
  "silentDiagnostics \<equiv> diagnosticsOf silentHealth [] [] None"

text \<open>Only the preamble and the closing text are written.\<close>

lemma silent_report:
  assumes "fst w = NewBuilderWithBudget 4913"
  shows "bBuf (fst (healthReportOf silentHealth [] [] None False w)) = concat (preambleTexts silentDiagnostics) @ closingText"
proof -
  have pt: "length (concat (preambleTexts silentDiagnostics)) = 506" by (simp add: preambleTexts_def diagnosticsOf_def silentHealth_def goSigned_def goItoa.simps warningSign_def)
  have pre: "fst (writeHealthCheckPreamble silentDiagnostics w) = (NewBuilderWithBudget 4913)\<lparr>bBuf := concat (preambleTexts silentDiagnostics)\<rparr>"
  proof -
    have "fst (fold put ts w) = writeAll ts (fst w)" for ts by (induction ts arbitrary: w) (simp_all add: put_def)
    then show ?thesis using writeAll_fits [of "fst w" "preambleTexts silentDiagnostics"] assms pt by (simp add: writeHealthCheckPreamble_def Len_def)
  qed
  let ?b = "(NewBuilderWithBudget 4913)\<lparr>bBuf := concat (preambleTexts silentDiagnostics)\<rparr>" and ?hs = "healthSections silentHealth [] silentDiagnostics"
  have sp: "spent (Some (fst w)) = (False, Some (fst w))" "spent (Some ?b) = (False, Some ?b)"
    using pt assms by (simp_all add: spent_def Truncated_def Remaining_def)
  define v where "v = writeHealthCheckPreamble silentDiagnostics w"
  have v: "fst v = ?b" using pre by (simp add: v_def)
  have keep: "fst (SectionsIn (tl ?hs) v) = fst v"
  proof (rule SectionsIn_keeps)
    show "spent (Some (fst v)) = (False, Some (fst v))" using v sp(2) by simp
    have hs: "fst (healthSection h g u) = fst u" if "\<And>x. \<not> Truncated (fst x) \<Longrightarrow> \<exists>e s. g x = (Some e, fst x, s)" for h g u
      unfolding healthSection_def by (rule TrySectionIn_fails) (rule that)
    have gs: "fst (healthSection h (gatherNodeDiagnostics silentHealth) u) = fst u" "fst (healthSection h (gatherClusterOperatorDiagnostics silentHealth) u) = fst u"
      "fst (healthSection h (gatherPodDiagnostics silentHealth ns) u) = fst u" "fst (healthSection h (gatherPVCDiagnostics silentHealth ns) u) = fst u" for h ns u
      by (rule hs, simp add: gatherNodeDiagnostics_def silent_gather, rule hs, erule silent_operators,
          rule hs, simp add: gatherPodDiagnostics_def silent_gather, rule hs, simp add: gatherPVCDiagnostics_def silent_gather)
    fix f and u :: healthReport assume "f \<in> set (tl ?hs)" and u: "fst u = fst v"
    then consider "f \<in> {healthSection ''## 1. Nodes'' (gatherNodeDiagnostics silentHealth), healthSection ''## 2. Cluster Operators (OpenShift)'' (gatherClusterOperatorDiagnostics silentHealth),
        healthSection ''## 3. Pods'' (gatherPodDiagnostics silentHealth []), healthSection ''## 5. Persistent Volume Claims'' (gatherPVCDiagnostics silentHealth [])}"
      | "f = writeWorkloadSections silentHealth []" by (auto simp: healthSections_def)
    then show "fst (f u) = fst v"
    proof cases
      case 1
      then show ?thesis by (auto simp: gs u)
    next
      case 2
      then show ?thesis using silent_workloads [of u "[]"] u v sp(2) by simp
    qed
  qed
  have "SectionsIn ?hs w = SectionsIn (tl ?hs) v" using sp(1) by (simp add: healthSections_def v_def)
  then have h: "fst (SectionsIn ?hs w) = ?b" using keep v by simp
  have "WriteString closingText ?b = (False, ?b\<lparr>bBuf := bBuf ?b @ closingText\<rparr>)"
    by (rule WriteString_fits) (use pt closingRoom_eq in \<open>simp_all add: Len_def\<close>)
  then show ?thesis unfolding healthReportOf_def SectionsIn_append using h sp(2) by (simp add: eventSection_def put_def)
qed

lemma containsSub_set: "containsSub t p \<Longrightarrow> set p \<subseteq> set t"
  by (auto simp: containsSub_iff)

abbreviation noEvents :: "string \<rightharpoonup> string" where
  "noEvents \<equiv> [''check_events'' \<mapsto> ''false'']"

lemma silent_text:
  "pmText (hd (fst (clusterHealthCheckHandler silentHealth (Some (Some 5000)) noEvents podStart))) = concat (preambleTexts silentDiagnostics) @ closingText"
proof -
  have a: "int (length healthCheckAssistantText) = 87" by (simp add: healthCheckAssistantText_def)
  have k: "knownNamespaces silentHealth (NewBuilderWithBudget 0) s = (None, s\<lparr>psLog := psLog s @ [Api (OpList (coreGVR ''namespaces'') [] noOptions)]\<rparr>)" for s
    by (simp add: knownNamespaces_def Truncated_def silent_list)
  have b: "NewPromptBudget (Some (Some 5000)) healthCheckAssistantText = NewBuilderWithBudget 4913" using promptBudget(2) [of healthCheckAssistantText 5000] a by simp
  obtain s where "buildHealthCheckPrompt silentHealth (Some (Some 5000)) [] [] False podStart = healthReportOf silentHealth [] [] None False (NewBuilderWithBudget 4913, s)"
    using build_healthReport [of "Some (Some 5000)" silentHealth "[]" "[]" False podStart] k [of podStart] b by (simp add: Truncated_def)
  with silent_report [of "(NewBuilderWithBudget 4913, s)"]
  have "bBuf (fst (buildHealthCheckPrompt silentHealth (Some (Some 5000)) [] [] False podStart)) = concat (preambleTexts silentDiagnostics) @ closingText" by simp
  then show ?thesis
    by (cases "buildHealthCheckPrompt silentHealth (Some (Some 5000)) [] [] False podStart") (simp add: clusterHealthCheckHandler_def healthScope_def)
qed

theorem unmarked_health_check_is_complete_witness:
  "clusterHealthCheckHandler silentHealth (Some (Some 5000)) noEvents podStart = clusterHealthCheckHandler silentHealth (Some None) noEvents podStart"
proof -
  let ?r = "clusterHealthCheckHandler silentHealth (Some (Some 5000)) noEvents podStart"
  have 1: "int (length healthCheckAssistantText) < 5000" by (simp add: healthCheckAssistantText_def)
  have 2: "?r = ([hd (fst ?r), hd (tl (fst ?r))], snd ?r)" by (simp add: clusterHealthCheckHandler_def Let_def split: prod.splits)
  have "CHR ''['' \<notin> set (pmText (hd (fst ?r)))" unfolding silent_text
    by (simp add: preambleTexts_def diagnosticsOf_def silentHealth_def goSigned_def goItoa.simps closingText_def char_of_def)
  then have 3: "\<not> containsSub (pmText (hd (fst ?r))) ResultTruncationNotice" by (auto simp: ResultTruncationNotice_def dest: containsSub_set)
  from unmarked_health_check_is_complete [OF 1 2] 3 2 show ?thesis by simp
qed

end
