(* ===== verification/Health_Safety.thy ===== *)
theory Health_Safety
  imports Health_Complete Go_Utf8
begin

text \<open>
  What the health check prompt sends to the API server, against what it declares.
\<close>

section \<open>Requests of a report\<close>

definition reaches :: "(podOp \<Rightarrow> bool) \<Rightarrow> podState \<Rightarrow> podState \<Rightarrow> bool" where
  "reaches P s s' \<longleftrightarrow> (mapperOk (psMapper s) \<longrightarrow> mapperOk (psMapper s') \<and> (\<exists>ops. psLog s' = psLog s @ ops \<and> list_all P ops))"

lemma reaches_refl [simp]: "reaches P s s"
  by (simp add: reaches_def)

lemma reaches_trans: "reaches P s t \<Longrightarrow> reaches P t u \<Longrightarrow> reaches P s u"
  by (auto simp: reaches_def)

lemma reaches_call: "sendsOnly P call \<Longrightarrow> call s = (r, s') \<Longrightarrow> reaches P s s'"
  using sendsOnlyD [of P call s r s'] by (simp add: reaches_def)

text \<open>Steps whose state holds the requests at \<open>at\<close>.\<close>

lemma reaches_SectionsIn:
  assumes "\<And>f w. f \<in> set fs \<Longrightarrow> reaches P (at (snd w)) (at (snd (f w)))"
  shows "reaches P (at (snd w)) (at (snd (SectionsIn fs w)))"
  using assms
proof (induction fs arbitrary: w)
  case (Cons f fs)
  have 1: "reaches P (at (snd w)) (at (snd (f w)))" "reaches P (at (snd (f w))) (at (snd (SectionsIn fs (f w))))" using Cons by simp_all
  obtain full b where sp: "spent (Some (fst w)) = (full, b)" by force
  show ?case
  proof (cases full)
    case False
    then show ?thesis using sp reaches_trans [OF 1] by simp
  qed (use sp in simp)
qed simp

lemma reaches_TrySection:
  assumes "\<And>w. reaches P (snd w) (snd (snd (g w)))" "TrySectionIn header suffix g w = (written, e, w')"
  shows "reaches P (snd w) (snd w')"
proof -
  let ?body = "Scratch (int (length header) + int (length suffix)) (Some (fst w))"
  obtain e1 i s1 where g: "g (?body, snd w) = (e1, i, s1)" by (metis prod_cases3)
  with assms(1) [of "(?body, snd w)"] have "reaches P (snd w) s1" by simp
  then show ?thesis using assms(2) g by (auto simp: TrySectionIn_def Let_def split: if_splits option.splits)
qed

text \<open>What is listed for a namespace, or for the whole cluster when it is empty.\<close>

definition healthTargets :: "string \<Rightarrow> (groupVersionResource \<times> string) set" where
  "healthTargets ns =
     {(coreGVR ''nodes'', []), (coreGVR ''namespaces'', []), (clusterOperatorGVR, []), (coreGVR ''pods'', ns), (appsGVR ''deployments'', ns),
      (appsGVR ''statefulsets'', ns), (appsGVR ''daemonsets'', ns), (coreGVR ''persistentvolumeclaims'', ns)}
     \<union> {(coreGVR ''events'', n) |n. ns = [] \<or> n = ns}"

lemma listObjects_reaches: "P (Api (OpList gvr ns noOptions)) \<Longrightarrow> listObjects env gvr ns s = (r, s') \<Longrightarrow> reaches P s s'"
  by (auto simp: listObjects_def callApi_def reaches_def)

lemma gatherList_reaches:
  assumes "P (Api (OpList gvr ns noOptions))"
  shows "reaches P (snd w) (snd (snd (gatherList env gvr ns none wr w)))"
proof -
  obtain r s where l: "listObjects env gvr ns (snd w) = (r, s)" by force
  show ?thesis using listObjects_reaches [of P, OF assms l] l by (auto simp: gatherList_def put_def split: sum.splits)
qed

lemma workloads_reaches:
  assumes "\<And>r. r \<in> {''deployments'', ''statefulsets'', ''daemonsets''} \<Longrightarrow> P (Api (OpList (appsGVR r) ns noOptions))"
  shows "reaches P (snd w) (snd (writeWorkloadSections env ns w))"
proof -
  have g: "reaches P (snd v) (snd (snd (gatherWorkloadDiagnostics env kind ns v)))" for kind v
    using gatherList_reaches assms by (auto simp: gatherWorkloadDiagnostics_def workloadSection_def)
  have st: "reaches P (fst (snd v)) (fst (snd (workloadStep env ns title kind v)))" for title kind v
  proof -
    obtain b s f where v: "v = (b, s, f)" by (metis prod_cases3)
    obtain wr e b' s' where t: "TrySectionIn (workloadHeader title f) [nl, nl] (gatherWorkloadDiagnostics env kind ns) (b, s) = (wr, e, b', s')"
      by (metis prod_cases4)
    from reaches_TrySection [OF g t] show ?thesis by (simp add: v workloadStep_eq [OF t])
  qed
  let ?fs = "[workloadStep env ns ''Deployments'' ''Deployment'', workloadStep env ns ''StatefulSets'' ''StatefulSet'',
    workloadStep env ns ''DaemonSets'' ''DaemonSet'']"
  have "reaches P (fst (snd (fst w, snd w, False))) (fst (snd (SectionsIn ?fs (fst w, snd w, False))))"
    by (rule reaches_SectionsIn) (elim set_ConsD [elim_format] disjE, simp_all only: st, simp)
  moreover obtain b s f where "SectionsIn ?fs (fst w, snd w, False) = (b, s, f)" by (metis prod_cases3)
  ultimately show ?thesis unfolding writeWorkloadSections_def by (simp only: prod.case fst_conv snd_conv)
qed

lemma operators_reaches:
  assumes "standardCluster (hePods env)" "P (Api (OpList clusterOperatorGVR [] noOptions))"
  shows "reaches P (snd w) (snd (snd (gatherClusterOperatorDiagnostics env w)))"
proof -
  have "sendsOnly P (inCoreErr (hePods env) (\<lambda>c. ResourcesList c clusterOperatorGVK [] False noOptions))"
    by (rule sendsOnly_inCoreErr, rule coreOnly_list [where gvr = clusterOperatorGVR and b = False])
      (use assms in \<open>auto simp: standardCluster_def\<close>)
  moreover obtain r s where l: "inCoreErr (hePods env) (\<lambda>c. ResourcesList c clusterOperatorGVK [] False noOptions) (snd w) = (r, s)" by force
  ultimately have "reaches P (snd w) s" by (rule reaches_call)
  then show ?thesis using l by (auto simp: gatherClusterOperatorDiagnostics_def put_def Let_def split: sum.splits)
qed

lemma tallyNamespaces_reaches:
  "(\<And>n. n \<in> set nss \<Longrightarrow> P (Api (OpList (coreGVR ''events'') n noOptions))) \<Longrightarrow> tallyNamespaces env nss (t, s) = (t', s') \<Longrightarrow> reaches P s s'"
proof (induction nss arbitrary: t s)
  case (Cons ns nss)
  obtain r s1 where l: "listObjects env (coreGVR ''events'') ns s = (r, s1)" by force
  have 1: "reaches P s s1" using listObjects_reaches [of P, OF _ l] Cons.prems(1) by simp
  have 2: "reaches P s1 s'" if "tallyNamespaces env nss (u, s1) = (t', s')" for u using Cons.IH [OF _ that] Cons.prems(1) by simp
  show ?case
  proof (cases "eventsFull t")
    case False
    then obtain u where "tallyNamespaces env nss (u, s1) = (t', s')" using Cons.prems(2) l by (cases r) auto
    then show ?thesis using reaches_trans [OF 1 2] by blast
  qed (use Cons.prems(2) in simp)
qed simp

lemma events_reaches:
  assumes "\<And>gvr n. (gvr, n) \<in> healthTargets ns \<Longrightarrow> P (Api (OpList gvr n noOptions))"
  shows "reaches P (snd w) (snd (writeEventBody env ns known w))"
proof -
  obtain nss s where n: "eventNamespaces env ns known (snd w) = (nss, s)" by force
  have 1: "reaches P (snd w) s"
  proof (cases "ns = [] \<and> known = None")
    case True
    obtain r s1 where l: "listObjects env (coreGVR ''namespaces'') [] (snd w) = (r, s1)" by force
    from listObjects_reaches [of P, OF _ l] assms [of "coreGVR ''namespaces''" "[]"] True n l show ?thesis
      by (auto simp: eventNamespaces_def healthTargets_def split: sum.splits)
  qed (use n in \<open>auto simp: eventNamespaces_def split: option.splits if_splits\<close>)
  have nss: "P (Api (OpList (coreGVR ''events'') m noOptions))" if "m \<in> set nss" for m
  proof -
    have "ns = [] \<or> m = ns" using n that by (auto simp: eventNamespaces_def split: if_splits)
    then show ?thesis using assms [of "coreGVR ''events''" m] by (simp add: healthTargets_def)
  qed
  obtain t s2 where t: "tallyNamespaces env nss (\<lparr>tyWarnings = 0, tyErrors = 0, tyRetained = 0, tyLines = Scratch eventTotalsReserve (Some (fst w))\<rparr>, s) = (t, s2)"
    by force
  from reaches_trans [OF 1 tallyNamespaces_reaches [of nss P, OF nss t]] show ?thesis using n t by (simp add: writeEventBody_def Let_def)
qed

lemma report_reaches:
  assumes "standardCluster (hePods env)" and P: "\<And>gvr n. (gvr, n) \<in> healthTargets ns \<Longrightarrow> P (Api (OpList gvr n noOptions))"
  shows "reaches P s (snd (buildHealthCheckPrompt env ctx ns warning ce s))"
proof -
  let ?b = "NewPromptBudget ctx healthCheckAssistantText"
  obtain known s1 where k: "knownNamespaces env ?b s = (known, s1)" by force
  have t: "P (Api (OpList gvr n noOptions))" if "(gvr, n) \<in> {(coreGVR ''nodes'', []), (coreGVR ''namespaces'', []), (clusterOperatorGVR, []), (coreGVR ''pods'', ns),
      (appsGVR ''deployments'', ns), (appsGVR ''statefulsets'', ns), (appsGVR ''daemonsets'', ns), (coreGVR ''persistentvolumeclaims'', ns)}" for gvr n
    by (rule P) (use that in \<open>auto simp: healthTargets_def\<close>)
  have 1: "reaches P s s1"
  proof (cases "Truncated ?b")
    case False
    obtain r s2 where l: "listObjects env (coreGVR ''namespaces'') [] s = (r, s2)" by force
    show ?thesis using listObjects_reaches [of P, OF _ l] t False k l by (auto simp: knownNamespaces_def split: sum.splits)
  qed (use k in \<open>simp add: knownNamespaces_def\<close>)
  have hs: "reaches P (snd w) (snd (healthSection h g w))" if "\<And>w. reaches P (snd w) (snd (snd (g w)))" for h g w
  proof -
    obtain wr e w' where "TrySectionIn (h @ [nl, nl]) [nl, nl] g w = (wr, e, w')" by (metis prod_cases3)
    from reaches_TrySection [OF that this] this show ?thesis by (simp add: healthSection_def)
  qed
  have pre: "snd (writeHealthCheckPreamble diag w) = snd w" for diag and w :: healthReport
  proof -
    have "snd (fold put ts w) = snd w" for ts and w :: healthReport by (induction ts arbitrary: w) (simp_all add: put_def)
    then show ?thesis by (simp add: writeHealthCheckPreamble_def)
  qed
  let ?diag = "diagnosticsOf env ns warning known"
  have "reaches P (snd w) (snd (f w))" if "f \<in> set (healthSections env ns ?diag @ [eventSection env ns known ce, put closingText])" for f w
  proof -
    have "reaches P (snd w) (snd (healthSection h (gatherNodeDiagnostics env) w))" "reaches P (snd w) (snd (healthSection h (gatherPodDiagnostics env ns) w))"
      "reaches P (snd w) (snd (healthSection h (gatherPVCDiagnostics env ns) w))" for h
      unfolding gatherNodeDiagnostics_def gatherPodDiagnostics_def gatherPVCDiagnostics_def
      by (rule hs, rule gatherList_reaches, rule t, simp)+
    moreover have "reaches P (snd w) (snd (healthSection h (gatherClusterOperatorDiagnostics env) w))" for h
      by (rule hs, rule operators_reaches [OF assms(1)], rule t, simp)
    moreover have "reaches P (snd w) (snd (writeWorkloadSections env ns w))" by (rule workloads_reaches, rule t) auto
    moreover have "reaches P (snd w) (snd (eventSection env ns known ce w))"
      unfolding eventSection_def using hs [of "\<lambda>body. (None, writeEventBody env ns known body)"] events_reaches [of ns P, OF P] by simp
    ultimately show ?thesis using that by (auto simp: healthSections_def pre put_def)
  qed
  then have "reaches P (snd (?b, s1)) (snd (SectionsIn (healthSections env ns ?diag @ [eventSection env ns known ce, put closingText]) (?b, s1)))"
    by (rule reaches_SectionsIn [where at = "\<lambda>s. s"])
  then have "reaches P s1 (snd (buildHealthCheckPrompt env ctx ns warning ce s))" using k by (simp add: buildHealthCheckPrompt_def)
  from reaches_trans [OF 1 this] show ?thesis .
qed

lemma healthTargets_declared:
  assumes "args ''namespace'' = Some ns" "ns \<noteq> []" "(gvr, n) \<in> healthTargets ns"
  shows "declaredFor healthCheckRBAC (\<lambda>k. map_option GStr (args k)) d (restRequest ''list'' gvr n [] [])"
proof -
  have a: "argumentString (\<lambda>k. map_option GStr (args k)) ''namespace'' d = ns" using assms(1) by (simp add: argumentString_def)
  note defs = healthCheckRBAC_def restRequest_def coreGVR_def appsGVR_def clusterOperatorGVR_def
  consider "n = []" "gvr \<in> {coreGVR ''nodes'', coreGVR ''namespaces'', clusterOperatorGVR}"
    | "n = ns" "gvr \<in> coreGVR ` {''pods'', ''persistentvolumeclaims'', ''events''} \<union> appsGVR ` {''deployments'', ''statefulsets'', ''daemonsets''}"
    using assms(2,3) by (auto simp: healthTargets_def)
  then show ?thesis
  proof cases
    case 1
    from 1(2) show ?thesis by (elim insertE emptyE) (simp_all add: defs 1(1))
  next
    case 2
    from 2(2) show ?thesis by (elim UnE imageE insertE emptyE) (simp_all add: defs 2(1) a)
  qed
qed

text \<open>
  C18. The health check only gets and lists. When the call names a namespace that can be read,
  every request is covered by the permissions that the prompt declares for that namespace.
\<close>

theorem health_check_requests_are_declared:
  assumes "standardCluster (hePods env)" and "mapperOk (psMapper s)"
    and "op \<in> set (drop (length (psLog s)) (psLog (snd (clusterHealthCheckHandler env ctx args s))))" and "r \<in> set (requestsOf op)"
  shows "krVerb r \<in> {''get'', ''list''}
    \<and> (\<forall>ns. args ''namespace'' = Some ns \<longrightarrow> ns \<noteq> [] \<longrightarrow> \<not> isl (peAnswer (hePods env) (psLog s) (OpGet (coreGVR ''namespaces'') [] ns [])) \<longrightarrow>
        declaredFor healthCheckRBAC (\<lambda>k. map_option GStr (args k)) (ceNamespace (peCore (hePods env))) r)"
proof -
  let ?n = "case args ''namespace'' of None \<Rightarrow> [] | Some v \<Rightarrow> v"
  obtain ns warning s1 where sc: "healthScope env ?n s = (ns, warning, s1)" by (metis prod_cases3)
  have h: "snd (clusterHealthCheckHandler env ctx args s) = snd (buildHealthCheckPrompt env ctx ns warning (args ''check_events'' \<noteq> Some ''false'') s1)"
    using sc by (simp add: clusterHealthCheckHandler_def split: prod.splits)
  have all: "P op" if "P (Api (OpGet (coreGVR ''namespaces'') [] ?n []))" "\<And>gvr n. (gvr, n) \<in> healthTargets ns \<Longrightarrow> P (Api (OpList gvr n noOptions))" for P
  proof -
    have "reaches P s s1" using sc that(1) by (auto simp: healthScope_def callApi_def reaches_def split: if_splits sum.splits)
    moreover have "reaches P s1 (snd (clusterHealthCheckHandler env ctx args s))" unfolding h by (rule report_reaches [OF assms(1)]) (rule that(2))
    ultimately have "reaches P s (snd (clusterHealthCheckHandler env ctx args s))" by (rule reaches_trans)
    then show ?thesis using assms(2,3) by (auto simp: reaches_def list_all_iff)
  qed
  have "krVerb r \<in> {''get'', ''list''}"
    using all [of "\<lambda>op. \<forall>r \<in> set (requestsOf op). krVerb r \<in> {''get'', ''list''}"] assms(4) by (auto simp: restRequest_def)
  moreover have "declaredFor healthCheckRBAC (\<lambda>k. map_option GStr (args k)) d r"
    if "args ''namespace'' = Some v" "v \<noteq> []" "\<not> isl (peAnswer (hePods env) (psLog s) (OpGet (coreGVR ''namespaces'') [] v []))" for v d
  proof -
    have get: "declaredFor healthCheckRBAC a d (restRequest ''get'' (coreGVR ''namespaces'') [] n [])" for a n
      by (simp add: healthCheckRBAC_def restRequest_def coreGVR_def)
    have "ns = v" using sc that by (auto simp: healthScope_def callApi_def split: sum.splits)
    then have "declaredFor healthCheckRBAC (\<lambda>k. map_option GStr (args k)) d (restRequest ''list'' gvr n [] [])" if "(gvr, n) \<in> healthTargets ns" for gvr n
      using healthTargets_declared [of args v] \<open>args ''namespace'' = Some v\<close> \<open>v \<noteq> []\<close> that by blast
    with all [of "\<lambda>op. \<forall>r \<in> set (requestsOf op). declaredFor healthCheckRBAC (\<lambda>k. map_option GStr (args k)) d r"] get
    have "\<forall>r \<in> set (requestsOf op). declaredFor healthCheckRBAC (\<lambda>k. map_option GStr (args k)) d r" by simp
    then show ?thesis using assms(4) by blast
  qed
  ultimately show ?thesis by blast
qed

definition exampleHealth :: healthEnv where
  "exampleHealth = silentHealth\<lparr>hePods := examplePods\<rparr>"

theorem health_check_requests_are_declared_witness:
  "declaredFor healthCheckRBAC (\<lambda>k. map_option GStr ([''namespace'' \<mapsto> ''ci''] k)) (ceNamespace (peCore (hePods exampleHealth)))
     (restRequest ''list'' (coreGVR ''namespaces'') [] [] [])"
proof -
  let ?args = "[''namespace'' \<mapsto> ''ci'']" and ?op = "Api (OpList (coreGVR ''namespaces'') [] noOptions)"
  have 1: "?op \<in> set (drop (length (psLog podStart)) (psLog (snd (clusterHealthCheckHandler exampleHealth (Some (Some 90)) ?args podStart))))" by code_simp
  have 2: "standardCluster (hePods exampleHealth)" using standard_examplePods by (simp add: exampleHealth_def)
  have 3: "\<not> isl (peAnswer (hePods exampleHealth) (psLog podStart) (OpGet (coreGVR ''namespaces'') [] ''ci'' []))" by code_simp
  from health_check_requests_are_declared [OF 2 mapperOk_start(1) 1, of "restRequest ''list'' (coreGVR ''namespaces'') [] [] []"] 3 show ?thesis by simp
qed

section \<open>Where the code falls short\<close>

text \<open>Without a namespace the pods of the whole cluster are listed, which the prompt does not declare.\<close>

lemma cluster_wide_pods_undeclared:
  "(coreGVR ''pods'', []) \<in> healthTargets []"
  "\<not> declaredFor healthCheckRBAC Map.empty ''default'' (restRequest ''list'' (coreGVR ''pods'') [] [] [])"
  by (simp_all add: healthTargets_def healthCheckRBAC_def restRequest_def coreGVR_def argumentString_def)

text \<open>A pod that is listed for its restarts alone has an empty bullet.\<close>

lemma restarts_leave_an_empty_bullet:
  "podBlock \<lparr>phNamespace = ''ci'', phName = ''web'', phPhase = ''Running'',
     phContainers = [\<lparr>chReady = True, chRestarts = 6, chWaiting = None, chTerminated = None\<rparr>]\<rparr>
   = Some (''- **ci/web** (Phase: Running, Ready: 1/1, Restarts: 6)'' @ [nl] @ ''  - '')"
  by code_simp

text \<open>A message is cut at a byte, also inside a character.\<close>

lemma message_cut_inside_character:
  "utf8Valid (replicate 149 (CHR ''a'') @ [CHR 0xC3, CHR 0xA9, CHR ''a'']) \<and> \<not> utf8Valid (take 150 (replicate 149 (CHR ''a'') @ [CHR 0xC3, CHR 0xA9, CHR ''a'']))"
  by code_simp

end
