(* ===== verification/Spec2Isabelle.thy ===== *)
theory Spec2Isabelle
  imports Result_Budget Response_Limit RBAC_Metadata Tool_Surface MCP_Middleware Process
    Kcp_Provider Watchers Core_Resources Inspection Log_Sink Query_Guardrails
    Tekton_Complete Tekton_Tools Health_Safety
begin

text \<open>
  A verification development for \<^emph>\<open>kubernetes-mcp-server\<close>, an MCP server in Go through which a
  language model works on Kubernetes clusters. The Go sources are under \<open>src/pkg\<close>.

  \<^bold>\<open>The program.\<close> A process reads its configuration from files, environment, flags and an optional
  document on standard input, validates it and publishes it (\<open>kubernetes-mcp-server/cmd/root.go\<close>);
  on SIGHUP it does so again while it serves. Requests come over HTTP, where a middleware
  authenticates them against an OAuth state that is published separately (\<open>http\<close>, \<open>oauth\<close>), or
  over stdio. The MCP server (\<open>mcp\<close>) offers the tools, prompts and resources that the toolsets
  contribute and the configuration permits, and puts middlewares, confirmation prompts and size
  limits around every call. A tool call gets a Kubernetes client from a cluster provider
  (\<open>kubernetes\<close>, \<open>kcp\<close>), which may exchange the caller's token first (\<open>tokenexchange\<close>); every
  request of that client passes the access control round tripper and the response limit.
  Watchers trigger reloads when the clusters change.

  \<^bold>\<open>How it is modelled.\<close> A Go struct is a record, an enumeration or an error a datatype, a method a
  function that passes its state explicitly, an early return a branch, a raised error a value of a
  sum or option type. A Go map is a partial function or, where the code iterates over it, an
  association list whose order is arbitrary. Strings are sequences of bytes. Integers are unbounded
  where they cannot leave their range and wrap (\<open>wrap64\<close>) where they can. Concurrency is an
  inductive step relation over the stretches between two lock acquisitions (\<open>Watchers\<close>,
  \<open>MCP_Middleware\<close>), the list of states that an observer can see (\<open>Process\<close>), or an arbitrary order
  of arrival (\<open>Inspection\<close>). Code outside the repository is a parameter: the MCP SDK's catalogs,
  client-go, the REST mapper and discovery, JSON, YAML, TOML, PromQL and JWT libraries, the HTTP
  transport, the limiter of \<open>golang.org/x/time/rate\<close>. What a theorem needs of a parameter is a
  hypothesis of the theorem or a named predicate, and a witness instantiates it.

  \<^bold>\<open>Theories.\<close>
  \<^item> \<open>Go_Prelude\<close>, \<open>Go_Values\<close>: the parts of the language and of its standard library that the
    code uses, with the shared lemmas (collection \<open>go_str\<close>).
  \<^item> \<open>Bounded_Writer\<close>, \<open>Check_Chain\<close>: the locales for writers that cap what they keep and for
    chains of checks that stop at the first error.
  \<^item> \<open>Result_Budget\<close> (\<open>api/resultbudget.go\<close>), \<open>Result_Limit\<close> (\<open>mcp/resultlimit.go\<close>),
    \<open>Response_Limit\<close> (\<open>kubernetes/responselimit.go\<close>, exec output of \<open>kubernetes/pods.go\<close>): texts and
    responses stay within their budgets, cuts keep whole characters, limits fail closed.
  \<^item> \<open>Tool_Params\<close> (\<open>api/params.go\<close>), \<open>RBAC_Metadata\<close> (\<open>api/rbac.go\<close>): extraction of arguments
    with a sticky error, and validation of the permissions that a tool declares.
  \<^item> \<open>Confirmation\<close> (\<open>confirmation\<close>, \<open>mcp/elicit.go\<close>, \<open>config/schema.go\<close>), \<open>Validators\<close>
    (\<open>kubernetes/*_validator.go\<close>, \<open>auth.go\<close>), \<open>Access_Control\<close>
    (\<open>kubernetes/accesscontrol_round_tripper.go\<close>): which requests need a confirmation, which are
    refused, and that whatever reaches the API server was checked against the live configuration.
  \<^item> \<open>Registries\<close>: the four registries behind one locale.
  \<^item> \<open>MCP_Calls\<close> (\<open>mcp/tools_gosdk.go\<close>, \<open>prompts_gosdk.go\<close>, \<open>resources_gosdk.go\<close>), \<open>Prompts\<close>
    (\<open>prompts/prompts.go\<close>), \<open>MCP_Middleware\<close> (\<open>mcp/middleware.go\<close>), \<open>Tool_Surface\<close> (\<open>mcp/mcp.go\<close>,
    filters and mutators): a tool runs only when confirmed, its result is within the limit, calls
    in flight and their rate are bounded, the offered surface obeys the policy, and a reload of it
    is all or nothing.
  \<^item> \<open>Config_Merge\<close>, \<open>Config_Load\<close>, \<open>Config_Schema\<close>, \<open>Config_Validate\<close>, \<open>Config_Views\<close> (\<open>config\<close>,
    \<open>tlsutil\<close>): merging documents, the precedence of sources, the schema, the validation as an
    exact set of accepted configurations, and how the components read one configuration.
  \<^item> \<open>HTTP_Auth\<close> (\<open>http\<close>, \<open>oauth/state.go\<close>), \<open>Process\<close> (\<open>cmd/root.go\<close>): authentication of requests,
    the well-known proxy, and the states that startup and every SIGHUP publish, so that a request
    at any two moments of a reload is authenticated as some validated configuration demands.
  \<^item> \<open>Token_Exchange\<close> (\<open>tokenexchange\<close>, \<open>kubernetes/token_exchange.go\<close>,
    \<open>provider_token_exchange.go\<close>): what an exchange posts, and that its memoized settings are the
    current ones (locale \<open>keyed_memo\<close>).
  \<^item> \<open>Cluster_Providers\<close> (\<open>kubernetes/manager.go\<close>, \<open>provider_*.go\<close>), \<open>Kcp_Workspaces\<close>,
    \<open>Kcp_Provider\<close> (\<open>kcp\<close>): whose identity a call has on the cluster (locale \<open>cluster_provider\<close>, with
    the three providers as its interpretations), that managers follow the published
    configuration, that workspace discovery ends and is complete, and that a call for a workspace
    reaches that workspace.
  \<^item> \<open>Watchers\<close> (\<open>kubernetes/watcher\<close>, \<open>kubernetes/watcher_group.go\<close>, \<open>kcp/workspace_watcher.go\<close>):
    when a change is noticed (locale \<open>change_detector\<close>) and that Close wins against WatchTargets.
  \<^item> \<open>Core_Resources\<close> (\<open>kubernetes/resources.go\<close>, \<open>toolsets/core/resources.go\<close>, \<open>pagination.go\<close>):
    the requests that the generic resource tools send, and their agreement with the deny list.
  \<^item> \<open>Inspection\<close> (\<open>api/inspection.go\<close>), \<open>Log_Sink\<close> (\<open>logging/sink.go\<close>), \<open>Query_Guardrails\<close>
    (\<open>obs/metrics/prometheus/guardrails.go\<close>): aggregation over targets, the log destination through
    reloads, and the PromQL queries that may run.

  \<^bold>\<open>Termination and fuel.\<close> No definition uses fuel. Loops over data are structural or have a
  measure (document splitting, the merge of tables). The one recursion whose end depends on the
  environment, workspace discovery, is a \<open>partial_function\<close> whose value \<^const>\<open>None\<close> is a run that does
  not end; it is proved to return when the workspaces are finitely many.

  \<^bold>\<open>Not modelled.\<close> The remaining toolsets (pods, nodes, events, helm, kubevirt, kiali, netobserv, kcp,
  tekton, metrics, logs, traces, otelcol) and the core prompts: they turn arguments into API calls
  and answers into text; what all of them share, the checks around a call and around every
  request, is modelled. Printing (\<open>output\<close>), MCP apps, telemetry and metrics, klog and the MCP log
  notifications: output only. The HTTP listener and its TLS setup, the construction of client-go
  clients, and file notification: libraries that the sources call. In the modelled parts: the
  column rewriting of printed tables, the duration of a reload callback in a watcher, and the
  cancellation of the slower targets of an aggregate.

  \<^bold>\<open>Plan.\<close> Next are the pod operations and tools on top of \<open>Core_Resources\<close>, the loaders and clients of
  the observability backends (authentication, TLS requirement, resolution of routes), the diagnosis
  of pipeline runs and virtual machines as functions from cluster objects to findings, and the
  health check prompt.
\<close>

end
